(* ===== verification/Prelude.thy ===== *)
theory Prelude
  imports Complex_Main "HOL-Library.AList" "HOL-Library.Char_ord" "HOL-Library.List_Lexorder"
begin

text \<open>
  Shared material of the development: the Python exceptions the sources raise and the result
  type of fallible code, dictionaries as association lists in insertion order, strings and the
  few methods of \<open>str\<close> the sources call, and the generic notion of a deterministic machine
  whose invariant every step keeps.
\<close>

section \<open>Exceptions and results\<close>

datatype py_exn =
    ValueError string
  | KeyError string
  | TypeError string
  | IndexError string
  | OverflowError string
  | OSError string
  | RuntimeError string
  | BackendError string
  | ProtocolError string
  | AttributeError string

type_synonym 'a res = "py_exn + 'a"

definition res_bind :: "'a res \<Rightarrow> ('a \<Rightarrow> 'b res) \<Rightarrow> 'b res" where
  "res_bind r f = (case r of Inl e \<Rightarrow> Inl e | Inr x \<Rightarrow> f x)"

lemma res_bind_simps [simp]:
  "res_bind (Inl e) f = Inl e"
  "res_bind (Inr x) f = f x"
  by (simp_all add: res_bind_def)

lemma res_bind_Inr: "res_bind r f = Inr y \<longleftrightarrow> (\<exists>x. r = Inr x \<and> f x = Inr y)"
  by (cases r) simp_all

definition is_ok :: "'a res \<Rightarrow> bool" where
  "is_ok r = (case r of Inl _ \<Rightarrow> False | Inr _ \<Rightarrow> True)"

lemma is_ok_simps [simp]: "is_ok (Inr x)" "\<not> is_ok (Inl e)"
  by (simp_all add: is_ok_def)

section \<open>Dictionaries\<close>

text \<open>
  A Python dictionary iterates in insertion order and an assignment to a present key keeps its
  place: an association list with \<open>AList.update\<close>. \<open>dmerge a b\<close> is \<open>{**a, **b}\<close>.
\<close>

type_synonym 'v dict = "(string \<times> 'v) list"

abbreviation dget :: "('k \<times> 'v) list \<Rightarrow> 'k \<Rightarrow> 'v option" where
  "dget d k \<equiv> map_of d k"

abbreviation dset :: "'k \<Rightarrow> 'v \<Rightarrow> ('k \<times> 'v) list \<Rightarrow> ('k \<times> 'v) list" where
  "dset k v d \<equiv> AList.update k v d"

abbreviation dpop :: "'k \<Rightarrow> ('k \<times> 'v) list \<Rightarrow> ('k \<times> 'v) list" where
  "dpop k d \<equiv> AList.delete k d"

definition dhas :: "('k \<times> 'v) list \<Rightarrow> 'k \<Rightarrow> bool" where
  "dhas d k = (map_of d k \<noteq> None)"

fun dmerge :: "('k \<times> 'v) list \<Rightarrow> ('k \<times> 'v) list \<Rightarrow> ('k \<times> 'v) list" where
  "dmerge a [] = a"
| "dmerge a ((k, v) # b) = dmerge (dset k v a) b"

definition dsetdefault :: "'k \<Rightarrow> 'v \<Rightarrow> ('k \<times> 'v) list \<Rightarrow> ('k \<times> 'v) list" where
  "dsetdefault k v d = (if dhas d k then d else dset k v d)"

definition dwf :: "('k \<times> 'v) list \<Rightarrow> bool" where
  "dwf d = distinct (map fst d)"

lemma dget_dset [simp]: "dget (dset k v d) k' = (if k' = k then Some v else dget d k')"
  by (simp add: update_conv')

lemma dget_dpop [simp]: "dget (dpop k d) k' = (if k' = k then None else dget d k')"
  by (simp add: delete_conv')

lemma dhas_dset [simp]: "dhas (dset k v d) k' \<longleftrightarrow> k' = k \<or> dhas d k'"
  by (auto simp: dhas_def)

lemma dhas_dpop [simp]: "dhas (dpop k d) k' \<longleftrightarrow> k' \<noteq> k \<and> dhas d k'"
  by (auto simp: dhas_def)

lemma dhas_iff: "dhas d k \<longleftrightarrow> k \<in> fst ` set d"
  by (auto simp: dhas_def map_of_eq_None_iff)

lemma dget_dsetdefault: "dget (dsetdefault k v d) k' =
   (if k' = k \<and> dget d k = None then Some v else dget d k')"
  by (auto simp: dsetdefault_def dhas_def)

lemma dget_dmerge: "dwf b \<Longrightarrow> dget (dmerge a b) k = (case dget b k of Some v \<Rightarrow> Some v | None \<Rightarrow> dget a k)"
  by (induction a b rule: dmerge.induct)
    (auto simp: dwf_def map_of_eq_None_iff [symmetric] split: option.splits)

lemma dset_new: "dget d k = None \<Longrightarrow> dset k v d = d @ [(k, v)]"
  by (induction d) (auto split: if_splits)

lemma dwf_Nil [simp]: "dwf []"
  by (simp add: dwf_def)

lemma dwf_dset [simp]: "dwf d \<Longrightarrow> dwf (dset k v d)"
  by (simp add: dwf_def distinct_update)

lemma dwf_dpop [simp]: "dwf d \<Longrightarrow> dwf (dpop k d)"
  by (simp add: dwf_def distinct_delete)

lemma dwf_dmerge [simp]: "dwf a \<Longrightarrow> dwf (dmerge a b)"
  by (induction a b rule: dmerge.induct) simp_all

lemma dwf_dsetdefault [simp]: "dwf d \<Longrightarrow> dwf (dsetdefault k v d)"
  by (simp add: dsetdefault_def)

text \<open>A file system as the program sees it: the contents of the readable files.\<close>

type_synonym files = "string \<Rightarrow> string option"

text \<open>\<open>glob.glob\<close>: the matches of a pattern, in the order the directory lists them.\<close>

type_synonym globber = "string \<Rightarrow> string list"

section \<open>Strings\<close>

definition is_space :: "char \<Rightarrow> bool" where
  "is_space c = (let n = (of_char c :: nat) in n = 32 \<or> (9 \<le> n \<and> n \<le> 13) \<or> (28 \<le> n \<and> n \<le> 31))"

definition is_digit :: "char \<Rightarrow> bool" where
  "is_digit c = (let n = (of_char c :: nat) in 48 \<le> n \<and> n \<le> 57)"

definition digit_val :: "char \<Rightarrow> int" where
  "digit_val c = int (of_char c) - 48"

definition strip :: "string \<Rightarrow> string" where
  "strip s = rev (dropWhile is_space (rev (dropWhile is_space s)))"

fun split_char :: "char \<Rightarrow> string \<Rightarrow> string list" where
  "split_char c [] = [[]]"
| "split_char c (x # xs) =
     (if x = c then [] # split_char c xs
      else (case split_char c xs of [] \<Rightarrow> [[x]] | w # ws \<Rightarrow> (x # w) # ws))"

text \<open>\<open>s.split(c, n)\<close>: at most \<open>n\<close> cuts.\<close>

fun split_max :: "char \<Rightarrow> nat \<Rightarrow> string \<Rightarrow> string list" where
  "split_max c 0 s = [s]"
| "split_max c (Suc n) s =
     (case dropWhile (\<lambda>x. x \<noteq> c) s of
        [] \<Rightarrow> [s]
      | _ # rest \<Rightarrow> takeWhile (\<lambda>x. x \<noteq> c) s # split_max c n rest)"

definition starts_with :: "string \<Rightarrow> string \<Rightarrow> bool" where
  "starts_with p s = (take (length p) s = p)"

definition ends_with :: "string \<Rightarrow> string \<Rightarrow> bool" where
  "ends_with p s = (length p \<le> length s \<and> drop (length s - length p) s = p)"

fun substr_of :: "string \<Rightarrow> string \<Rightarrow> bool" where
  "substr_of p [] = (p = [])"
| "substr_of p (x # xs) = (starts_with p (x # xs) \<or> substr_of p xs)"

fun join_with :: "string \<Rightarrow> string list \<Rightarrow> string" where
  "join_with sep [] = []"
| "join_with sep [s] = s"
| "join_with sep (s # ss) = s @ sep @ join_with sep ss"

lemma split_char_nonempty [simp]: "split_char c s \<noteq> []"
  by (induction s) (auto split: list.splits)

lemma join_split_char: "join_with [c] (split_char c s) = s"
proof (induction s)
  case (Cons x xs)
  obtain w ws where w: "split_char c xs = w # ws" by (cases "split_char c xs") auto
  with Cons show ?case by (cases ws) auto
qed simp

lemma substr_of_append: "substr_of p (p @ s)"
proof (cases "p @ s")
  case (Cons a as)
  have "starts_with p (a # as)" unfolding Cons [symmetric] by (simp add: starts_with_def)
  then show ?thesis unfolding Cons by simp
qed simp

lemma starts_with_append [simp]: "starts_with p (p @ s)"
  by (simp add: starts_with_def)

lemma starts_with_iff: "starts_with p s \<longleftrightarrow> s = p @ drop (length p) s"
  unfolding starts_with_def by (metis append_eq_conv_conj append_take_drop_id)

text \<open>Decimal numerals: \<open>str(n)\<close> and \<open>int(text)\<close> (sign, digits, single underscores between digits).\<close>

definition digit_char :: "nat \<Rightarrow> char" where
  "digit_char d = char_of (48 + d)"

function str_nat :: "int \<Rightarrow> string" where
  "str_nat n = (if n < 10 then [digit_char (nat n)] else str_nat (n div 10) @ [digit_char (nat (n mod 10))])"
  by pat_completeness auto
termination
  by (relation "measure nat") auto

declare str_nat.simps [simp del]

definition str_int :: "int \<Rightarrow> string" where
  "str_int i = (if i < 0 then CHR ''-'' # str_nat (- i) else str_nat i)"

definition digits_val :: "string \<Rightarrow> int" where
  "digits_val s = foldl (\<lambda>a c. 10 * a + digit_val c) 0 s"

definition parse_digits :: "string \<Rightarrow> int option" where
  "parse_digits s = (let ps = split_char CHR ''_'' s in
     if list_all (\<lambda>p. p \<noteq> [] \<and> list_all is_digit p) ps then Some (digits_val (concat ps)) else None)"

definition parse_int :: "string \<Rightarrow> int option" where
  "parse_int s = (let t = strip s in
     case t of [] \<Rightarrow> None
     | c # r \<Rightarrow> if c = CHR ''-'' then map_option uminus (parse_digits r)
               else if c = CHR ''+'' then parse_digits r else parse_digits t)"

lemma is_digit_digit_char: "d < 10 \<Longrightarrow> is_digit (digit_char d)"
  by (simp add: is_digit_def digit_char_def Let_def)

lemma digit_val_digit_char: "d < 10 \<Longrightarrow> digit_val (digit_char d) = int d"
  by (simp add: digit_val_def digit_char_def)

lemma str_nat_digits: "0 \<le> n \<Longrightarrow> str_nat n \<noteq> [] \<and> list_all is_digit (str_nat n)"
proof (induction n rule: str_nat.induct)
  case (1 n)
  show ?case
    by (subst (1 2) str_nat.simps) (use "1" in \<open>auto simp: is_digit_digit_char nat_less_iff\<close>)
qed

lemma digits_val_snoc: "digits_val (s @ [c]) = 10 * digits_val s + digit_val c"
  by (simp add: digits_val_def)

lemma digits_val_str_nat: "0 \<le> n \<Longrightarrow> digits_val (str_nat n) = n"
proof (induction n rule: str_nat.induct)
  case (1 n)
  show ?case
  proof (cases "n < 10")
    case True
    then show ?thesis by (subst str_nat.simps) (use "1.prems" in \<open>simp add: digits_val_def digit_val_digit_char nat_less_iff\<close>)
  next
    case False
    with "1" have "digits_val (str_nat (n div 10)) = n div 10" by simp
    moreover have "str_nat n = str_nat (n div 10) @ [digit_char (nat (n mod 10))]"
      using False by (subst str_nat.simps) simp
    moreover have "10 * (n div 10) + (n mod 10) = n" by presburger
    ultimately show ?thesis by (simp only: digits_val_snoc) (simp add: digit_val_digit_char nat_less_iff)
  qed
qed

lemma split_char_absent: "c \<notin> set s \<Longrightarrow> split_char c s = [s]"
  by (induction s) auto

lemma digit_not: "is_digit c \<Longrightarrow> c \<noteq> CHR ''_'' \<and> c \<noteq> CHR ''-'' \<and> c \<noteq> CHR ''+'' \<and> \<not> is_space c"
  by (auto simp: is_digit_def is_space_def Let_def)

lemma parse_digits_str_nat: "0 \<le> n \<Longrightarrow> parse_digits (str_nat n) = Some n"
proof -
  assume "0 \<le> n"
  have "CHR ''_'' \<notin> set (str_nat n)"
    using str_nat_digits [of n] \<open>0 \<le> n\<close> digit_not by (force simp: list_all_iff)
  then show ?thesis
    using str_nat_digits [of n] \<open>0 \<le> n\<close> by (simp add: parse_digits_def split_char_absent digits_val_str_nat)
qed

lemma strip_id: "s \<noteq> [] \<Longrightarrow> \<not> is_space (hd s) \<Longrightarrow> \<not> is_space (last s) \<Longrightarrow> strip s = s"
proof -
  assume s: "s \<noteq> []" "\<not> is_space (hd s)" "\<not> is_space (last s)"
  have "dropWhile is_space s = s" using s by (cases s) auto
  moreover have "dropWhile is_space (rev s) = rev s" using s by (cases s rule: rev_cases) auto
  ultimately show ?thesis by (simp add: strip_def)
qed

lemma strip_str_int: "strip (str_int i) = str_int i"
proof -
  let ?n = "\<bar>i\<bar>"
  have ne: "str_nat ?n \<noteq> []" and dg: "list_all is_digit (str_nat ?n)" using str_nat_digits [of ?n] by auto
  have "\<not> is_space (last (str_nat ?n))" "\<not> is_space (hd (str_nat ?n))"
    using ne dg digit_not by (auto simp: list_all_iff)
  then show ?thesis using ne
    by (intro strip_id) (auto simp: str_int_def is_space_def abs_if split: if_splits)
qed

lemma parse_int_str_int: "parse_int (str_int i) = Some i"
proof -
  let ?n = "\<bar>i\<bar>"
  have ne: "str_nat ?n \<noteq> []" and dg: "list_all is_digit (str_nat ?n)" using str_nat_digits [of ?n] by auto
  have l: "\<not> is_space (last (str_nat ?n))" and h: "\<not> is_space (hd (str_nat ?n))"
    using ne dg digit_not by (auto simp: list_all_iff)
  have h': "is_digit (hd (str_nat ?n))" using ne dg by (auto simp: list_all_iff)
  show ?thesis
  proof (cases "i < 0")
    case True
    then have "str_int i = CHR ''-'' # str_nat ?n" by (simp add: str_int_def abs_if)
    moreover have "strip (CHR ''-'' # str_nat ?n) = CHR ''-'' # str_nat ?n"
      using ne l by (intro strip_id) (auto simp: is_space_def)
    ultimately show ?thesis using True by (simp add: parse_int_def parse_digits_str_nat)
  next
    case False
    then have s: "str_int i = str_nat ?n" by (simp add: str_int_def abs_if)
    have "strip (str_nat ?n) = str_nat ?n" using ne h l by (rule strip_id)
    moreover have "parse_digits (str_nat ?n) = Some i" using False by (simp add: parse_digits_str_nat)
    ultimately show ?thesis using ne h' digit_not [of "hd (str_nat ?n)"] unfolding s
      by (cases "str_nat ?n") (auto simp: parse_int_def)
  qed
qed

section \<open>Machines with an invariant\<close>

text \<open>
  Several components are deterministic machines: a state, a step on each input, an invariant.
  The locale lifts the invariant from one step to whole runs; each machine interprets it.
\<close>

fun run_steps :: "('s \<Rightarrow> 'i \<Rightarrow> 's) \<Rightarrow> 's \<Rightarrow> 'i list \<Rightarrow> 's" where
  "run_steps f s [] = s"
| "run_steps f s (i # is) = run_steps f (f s i) is"

locale step_machine =
  fixes mstep :: "'s \<Rightarrow> 'i \<Rightarrow> 's"
    and minv :: "'s \<Rightarrow> bool"
    and mgood :: "'i \<Rightarrow> bool"
  assumes step_keeps: "minv s \<Longrightarrow> mgood i \<Longrightarrow> minv (mstep s i)"
begin

lemma run_keeps: "minv s \<Longrightarrow> list_all mgood is \<Longrightarrow> minv (run_steps mstep s is)"
  by (induction "is" arbitrary: s) (auto simp: step_keeps)

lemma run_prefix_keeps: "minv s \<Longrightarrow> list_all mgood is \<Longrightarrow> minv (run_steps mstep s (take n is))"
  by (rule run_keeps) (auto simp: list_all_iff dest: in_set_takeD)

end

end
