(* ===== verification/Py_Float.thy ===== *)
theory Py_Float
  imports Complex_Main
begin

text \<open>
  Python's \<open>float\<close> is an IEEE 754 double. A finite double is modelled by its exact value, a
  rational, and every arithmetic operation of the source is the exact operation followed by
  \<open>fl\<close>, rounding to the nearest double with ties to even (53 significant bits, gradual underflow
  at \<open>2 ^ -1074\<close>). Results of magnitude \<open>2 ^ 1024\<close> and more, which overflow to infinity, do not
  arise from the quantities of this program (watts, seconds, degrees) and are not represented.
  The facts the components use: \<open>fl\<close> is monotone (\<open>fl_mono\<close>), exact on doubles (\<open>fl_exact\<close>),
  idempotent, and evaluates on literals.
\<close>

function blen :: "int \<Rightarrow> nat" where
  "blen n = (if n \<le> 0 then 0 else Suc (blen (n div 2)))"
  by pat_completeness auto
termination
  by (relation "measure nat") auto

declare blen.simps [simp del]

definition expo :: "rat \<Rightarrow> int" where
  "expo x = (case quotient_of x of (n, d) \<Rightarrow>
     (let k = int (blen n) - int (blen d)
      in if 2 powi k \<le> x then k else k - 1))"

definition round_even :: "rat \<Rightarrow> int" where
  "round_even x = (let f = \<lfloor>x\<rfloor>; r = x - of_int f in
     if r < 1 / 2 then f else if 1 / 2 < r then f + 1 else if even f then f else f + 1)"

definition ulp_exp :: "rat \<Rightarrow> int" where
  "ulp_exp x = max (expo x - 52) (- 1074)"

definition fl_pos :: "rat \<Rightarrow> rat" where
  "fl_pos x = (let u = 2 powi (ulp_exp x) in of_int (round_even (x / u)) * u)"

definition fl :: "rat \<Rightarrow> rat" where
  "fl x = (if x = 0 then 0 else if 0 < x then fl_pos x else - fl_pos (- x))"

definition is_double :: "rat \<Rightarrow> bool" where
  "is_double x \<longleftrightarrow> (\<exists>m k. x = of_int m * 2 powi k \<and> \<bar>m\<bar> < 2 ^ 53 \<and> - 1074 \<le> k)"

lemma blen_bounds: "0 < n \<Longrightarrow> 2 ^ (blen n - 1) \<le> n \<and> n < 2 ^ blen n \<and> 0 < blen n"
proof (induction n rule: blen.induct)
  case (1 n)
  show ?case
  proof (cases "n div 2 = 0")
    case True
    with "1.prems" have "n = 1" by (simp add: zdiv_eq_0_iff)
    then show ?thesis by (simp add: blen.simps)
  next
    case False
    with "1" have IH: "2 ^ (blen (n div 2) - 1) \<le> n div 2" "n div 2 < 2 ^ blen (n div 2)"
      "0 < blen (n div 2)" by auto
    have s: "blen n = Suc (blen (n div 2))" using "1.prems" by (subst blen.simps) simp
    obtain k where k: "blen (n div 2) = Suc k" using IH(3) by (cases "blen (n div 2)") auto
    from IH(1,2) k have "2 ^ k \<le> n div 2" "n div 2 < 2 * 2 ^ k" by auto
    then have "2 * 2 ^ k \<le> n" "n < 4 * 2 ^ k" by arith+
    then show ?thesis by (simp add: s k)
  qed
qed

lemma powi2_pos [simp]: "0 < (2 :: rat) powi k"
  by simp

lemma powi2_add: "(2 :: rat) powi (a + b) = 2 powi a * 2 powi b"
  by (simp add: power_int_add)

lemma powi2_mono: "a \<le> b \<Longrightarrow> (2 :: rat) powi a \<le> 2 powi b"
  by (rule power_int_increasing) auto

lemma powi2_less: "(2 :: rat) powi a < 2 powi b \<longleftrightarrow> a < b"
  by (meson not_le powi2_mono power_int_strict_increasing one_less_numeral_iff semiring_norm(76))

lemma powi2_nat: "(2 :: rat) powi (int n) = of_int (2 ^ n)"
  by simp

lemma expo_bounds:
  assumes "0 < x"
  shows "2 powi (expo x) \<le> x" "x < 2 powi (expo x + 1)"
proof -
  obtain n d where q: "quotient_of x = (n, d)" by (cases "quotient_of x") auto
  have d: "0 < d" using quotient_of_denom_pos [OF q] .
  have x: "x = of_int n / of_int d" using quotient_of_div [OF q] .
  have n: "0 < n" using assms d unfolding x by (simp add: zero_less_divide_iff)
  define a b where "a = blen n" and "b = blen d"
  have A': "2 ^ (a - 1) \<le> n" "n < 2 ^ a" "0 < a"
    using blen_bounds [of n] n by (auto simp: a_def)
  have B': "2 ^ (b - 1) \<le> d" "d < 2 ^ b" "0 < b"
    using blen_bounds [of d] d by (auto simp: b_def)
  define k where "k = int a - int b"
  have pa: "(2::rat) powi (int a) = of_int (2 ^ a)" "(2::rat) powi (int b) = of_int (2 ^ b)" by simp_all
  have rn: "(of_int n :: rat) < 2 powi (int a)" "2 powi (int a - 1) \<le> (of_int n :: rat)"
  proof -
    show "(of_int n :: rat) < 2 powi (int a)" using A'(2) unfolding pa by (simp only: of_int_less_iff)
    have "(2::rat) powi (int a - 1) = of_int (2 ^ (a - 1))" using A'(3)
      by (metis One_nat_def Suc_leI of_nat_1 of_nat_diff powi2_nat)
    then show "2 powi (int a - 1) \<le> (of_int n :: rat)" using A'(1) by (simp only: of_int_le_iff)
  qed
  have rd: "(of_int d :: rat) < 2 powi (int b)" "2 powi (int b - 1) \<le> (of_int d :: rat)"
  proof -
    show "(of_int d :: rat) < 2 powi (int b)" using B'(2) unfolding pa by (simp only: of_int_less_iff)
    have "(2::rat) powi (int b - 1) = of_int (2 ^ (b - 1))" using B'(3)
      by (metis One_nat_def Suc_leI of_nat_1 of_nat_diff powi2_nat)
    then show "2 powi (int b - 1) \<le> (of_int d :: rat)" using B'(1) by (simp only: of_int_le_iff)
  qed
  have d0: "0 < (of_int d :: rat)" using d by simp
  have up: "x < 2 powi (k + 1)"
  proof -
    have "(of_int n :: rat) < 2 powi (int a)" by (rule rn)
    also have "\<dots> = 2 powi (k + 1) * 2 powi (int b - 1)" by (simp add: k_def flip: powi2_add)
    also have "\<dots> \<le> 2 powi (k + 1) * of_int d" using rd(2) by (simp add: mult_left_mono)
    finally show ?thesis using d0 by (simp add: x divide_less_eq)
  qed
  have low: "2 powi (k - 1) \<le> x"
  proof -
    have "2 powi (k - 1) * of_int d \<le> 2 powi (k - 1) * (2::rat) powi (int b)"
      using rd(1) by (intro mult_left_mono) auto
    also have "\<dots> = 2 powi (int a - 1)" by (simp only: k_def flip: powi2_add) simp
    also have "\<dots> \<le> of_int n" by (rule rn(2))
    finally show ?thesis using d0 by (simp add: x le_divide_eq)
  qed
  have e: "expo x = (if 2 powi k \<le> x then k else k - 1)"
    by (simp add: expo_def q k_def a_def b_def)
  show "2 powi (expo x) \<le> x" "x < 2 powi (expo x + 1)"
    using e up low by (auto split: if_splits)
qed

lemma expo_mono: "0 < x \<Longrightarrow> x \<le> y \<Longrightarrow> expo x \<le> expo y"
proof -
  assume "0 < x" "x \<le> y"
  then have "2 powi (expo x) < (2::rat) powi (expo y + 1)"
    using expo_bounds(1) [of x] expo_bounds(2) [of y] by linarith
  then show ?thesis by (simp add: powi2_less)
qed

lemma round_even_of_int [simp]: "round_even (of_int n) = n"
  by (simp add: round_even_def)

lemma round_even_bounds: "\<lfloor>x\<rfloor> \<le> round_even x" "round_even x \<le> \<lfloor>x\<rfloor> + 1"
  by (auto simp: round_even_def Let_def)

lemma round_even_mono:
  assumes "x \<le> y"
  shows "round_even x \<le> round_even y"
proof (cases "\<lfloor>x\<rfloor> = \<lfloor>y\<rfloor>")
  case True
  with assms show ?thesis by (auto simp: round_even_def Let_def)
next
  case False
  with assms have "\<lfloor>x\<rfloor> + 1 \<le> \<lfloor>y\<rfloor>" using floor_mono [OF assms] by linarith
  with round_even_bounds [of x] round_even_bounds [of y] show ?thesis by linarith
qed

lemma round_scale_le:
  assumes "0 < (u::rat)" "x \<le> of_int m * u"
  shows "of_int (round_even (x / u)) * u \<le> of_int m * u"
proof -
  have "x / u \<le> of_int m" using assms by (simp add: pos_divide_le_eq)
  then have "round_even (x / u) \<le> m" using round_even_mono [of "x / u" "of_int m"] by simp
  then show ?thesis using assms(1) by simp
qed

lemma round_scale_ge:
  assumes "0 < (u::rat)" "of_int m * u \<le> x"
  shows "of_int m * u \<le> of_int (round_even (x / u)) * u"
proof -
  have "of_int m \<le> x / u" using assms by (simp add: pos_le_divide_eq)
  then have "m \<le> round_even (x / u)" using round_even_mono [of "of_int m" "x / u"] by simp
  then show ?thesis using assms(1) by simp
qed

lemma fl_pos_nonneg: "0 \<le> x \<Longrightarrow> 0 \<le> fl_pos x"
  using round_scale_ge [of "2 powi (ulp_exp x)" 0 x] by (simp add: fl_pos_def Let_def)

lemma powi2_split: "a \<le> b \<Longrightarrow> (2::rat) powi b = of_int (2 ^ nat (b - a)) * 2 powi a"
proof -
  assume "a \<le> b"
  then have "(2::rat) powi b = 2 powi (int (nat (b - a)) + a)" by simp
  also have "\<dots> = of_int (2 ^ nat (b - a)) * 2 powi a" unfolding powi2_add powi2_nat ..
  finally show ?thesis .
qed

lemma fl_pos_mono:
  assumes "0 < x" "x \<le> y"
  shows "fl_pos x \<le> fl_pos y"
proof (cases "ulp_exp x = ulp_exp y")
  case True
  have "x / 2 powi (ulp_exp y) \<le> y / 2 powi (ulp_exp y)" using assms by (simp add: divide_right_mono)
  then have "round_even (x / 2 powi (ulp_exp y)) \<le> round_even (y / 2 powi (ulp_exp y))" by (rule round_even_mono)
  then show ?thesis by (simp add: fl_pos_def Let_def True)
next
  case False
  have le: "expo x \<le> expo y" using assms by (rule expo_mono)
  with False have ne: "expo x < expo y" "ulp_exp x < ulp_exp y" "ulp_exp y = expo y - 52"
    by (auto simp: ulp_exp_def split: if_splits)
  define c where "c = (2::rat) powi (expo y)"
  have cy: "c \<le> y" using assms expo_bounds(1) [of y] by (simp add: c_def)
  have "x < 2 powi (expo x + 1)" using assms expo_bounds(2) by blast
  also have "\<dots> \<le> c" unfolding c_def using ne by (intro powi2_mono) auto
  finally have cx: "x \<le> c" by simp
  have 1: "c = of_int (2 ^ nat (expo y - ulp_exp x)) * 2 powi (ulp_exp x)"
    unfolding c_def using ne by (intro powi2_split) auto
  have 2: "c = of_int (2 ^ nat (expo y - ulp_exp y)) * 2 powi (ulp_exp y)"
    unfolding c_def using ne by (intro powi2_split) auto
  have "fl_pos x \<le> c" using round_scale_le [of "2 powi (ulp_exp x)" x] cx unfolding fl_pos_def Let_def 1 by simp
  moreover have "c \<le> fl_pos y" using round_scale_ge [of "2 powi (ulp_exp y)" _ y] cy unfolding fl_pos_def Let_def 2 by simp
  ultimately show ?thesis by simp
qed

lemma fl_0 [simp]: "fl 0 = 0"
  by (simp add: fl_def)

lemma fl_minus: "fl (- x) = - fl x"
  by (simp add: fl_def)

lemma fl_nonneg [simp]: "0 \<le> x \<Longrightarrow> 0 \<le> fl x"
  by (simp add: fl_def fl_pos_nonneg)

lemma fl_nonpos: "x \<le> 0 \<Longrightarrow> fl x \<le> 0"
  using fl_pos_nonneg [of "- x"] by (simp add: fl_def)

lemma fl_mono: "x \<le> y \<Longrightarrow> fl x \<le> fl y"
proof -
  assume xy: "x \<le> y"
  consider "0 < x" | "y < 0" | "x \<le> 0" "0 \<le> y" by linarith
  then show ?thesis
  proof cases
    case 1
    with xy show ?thesis by (simp add: fl_def fl_pos_mono)
  next
    case 2
    with xy have "fl_pos (- y) \<le> fl_pos (- x)" by (intro fl_pos_mono) auto
    with 2 xy show ?thesis by (simp add: fl_def)
  next
    case 3
    then show ?thesis using fl_nonneg [of y] fl_nonpos [of x] by linarith
  qed
qed

lemma fl_pos_exact:
  assumes "0 < x" "x = of_int m * 2 powi k" "\<bar>m\<bar> < 2 ^ 53" "- 1074 \<le> k"
  shows "fl_pos x = x"
proof -
  have m: "0 < m" using assms(1) unfolding assms(2) using powi2_pos [of k]
    by (metis of_int_0_less_iff zero_less_mult_pos2)
  have "x < of_int (2 ^ 53) * 2 powi k"
    unfolding assms(2) using assms(3) m by (simp only: mult_less_cancel_right_pos powi2_pos of_int_less_iff)
  also have "\<dots> = 2 powi (int 53) * 2 powi k" by simp
  also have "\<dots> = 2 powi (53 + k)" by (simp only: powi2_add) simp
  finally have "expo x < 53 + k"
    using expo_bounds(1) [OF assms(1)] powi2_less [of "expo x" "53 + k"] by linarith
  then have u: "ulp_exp x \<le> k" using assms(4) by (simp add: ulp_exp_def)
  define e where "e = ulp_exp x"
  have x: "x = of_int (m * 2 ^ nat (k - e)) * 2 powi e"
    using powi2_split [OF u] unfolding e_def [symmetric] by (subst assms(2)) simp
  have "round_even (x / 2 powi e) = m * 2 ^ nat (k - e)"
    by (subst x) (simp only: nonzero_mult_div_cancel_right round_even_of_int power_int_not_zero simp_thms
      zero_neq_numeral [symmetric])
  then show ?thesis unfolding fl_pos_def Let_def e_def [symmetric] using x by simp
qed

lemma fl_exact: "is_double x \<Longrightarrow> fl x = x"
proof -
  assume "is_double x"
  then obtain m k where mk: "x = of_int m * 2 powi k" "\<bar>m\<bar> < 2 ^ 53" "- 1074 \<le> k"
    unfolding is_double_def by blast
  consider "x = 0" | "0 < x" | "x < 0" by linarith
  then show "fl x = x"
  proof cases
    case 2
    then show ?thesis using fl_pos_exact [OF 2 mk] by (simp add: fl_def)
  next
    case 3
    have "fl_pos (- x) = - x" using 3 mk by (intro fl_pos_exact [of _ "- m" k]) auto
    then show ?thesis using 3 by (simp add: fl_def)
  qed simp
qed

lemma is_double_int: "\<bar>n\<bar> < 2 ^ 53 \<Longrightarrow> is_double (of_int n)"
  unfolding is_double_def by (intro exI [of _ n] exI [of _ 0]) simp

lemma is_double_0 [simp]: "is_double 0"
  using is_double_int [of 0] by simp

lemma is_double_1 [simp]: "is_double 1"
  using is_double_int [of 1] by simp

lemma is_double_numeral [simp]: "numeral w < (2::int) ^ 53 \<Longrightarrow> is_double (numeral w)"
  using is_double_int [of "numeral w"] by simp

lemma is_double_minusI: "is_double x \<Longrightarrow> is_double (- x)"
proof -
  assume "is_double x"
  then obtain m k where "x = of_int m * 2 powi k" "\<bar>m\<bar> < 2 ^ 53" "- 1074 \<le> k"
    unfolding is_double_def by blast
  then show ?thesis unfolding is_double_def by (intro exI [of _ "- m"] exI [of _ k]) simp
qed

lemma is_double_minus: "is_double (- x) = is_double x"
  using is_double_minusI [of x] is_double_minusI [of "- x"] by auto

lemma is_double_half_power: "is_double x \<Longrightarrow> x = of_int n \<Longrightarrow> \<bar>n\<bar> < 2 ^ 53 \<Longrightarrow> k \<le> 1074 \<Longrightarrow> is_double (x / 2 ^ k)"
  unfolding is_double_def
  by (intro exI [of _ n] exI [of _ "- int k"]) (auto simp: power_int_minus divide_inverse)

lemma fl_numeral [simp]: "numeral w < (2::int) ^ 53 \<Longrightarrow> fl (numeral w) = numeral w"
  by (simp add: fl_exact is_double_numeral)

lemma fl_neg_numeral [simp]: "numeral w < (2::int) ^ 53 \<Longrightarrow> fl (- numeral w) = - numeral w"
  by (simp add: fl_minus)

lemma fl_1 [simp]: "fl 1 = 1"
  using fl_exact [OF is_double_int [of 1]] by simp

lemma fl_dyadic [simp]: "fl (1 / 2) = 1 / 2" "fl (1 / 4) = 1 / 4" "fl (3 / 4) = 3 / 4" "fl (1 / 8) = 1 / 8"
    "fl (7 / 8) = 7 / 8" "fl (15 / 16) = 15 / 16"
  by code_simp+

lemma fl_of_int: "\<bar>n\<bar> < 2 ^ 53 \<Longrightarrow> fl (of_int n) = of_int n"
  by (simp add: fl_exact is_double_int)

lemma fl_ge: "is_double c \<Longrightarrow> c \<le> x \<Longrightarrow> c \<le> fl x"
  using fl_mono [of c x] by (simp add: fl_exact)

lemma fl_le: "is_double c \<Longrightarrow> x \<le> c \<Longrightarrow> fl x \<le> c"
  using fl_mono [of x c] by (simp add: fl_exact)

text \<open>Evaluation of one rounding at a known exponent.\<close>

lemma fl_eval:
  assumes "2 powi (e + 52) \<le> x" "x < 2 powi (e + 53)" "- 1074 \<le> e"
  shows "fl x = of_int (round_even (x * 2 powi (- e))) * 2 powi e"
proof -
  have x0: "0 < x" using assms(1) powi2_pos [of "e + 52"] by linarith
  have "expo x < e + 53" "e + 52 < expo x + 1"
    using expo_bounds [OF x0] assms(1,2) powi2_less [of "expo x" "e + 53"] powi2_less [of "e + 52" "expo x + 1"]
    by linarith+
  then have "ulp_exp x = e" using assms(3) by (simp add: ulp_exp_def)
  then show ?thesis using x0 by (simp add: fl_def fl_pos_def Let_def power_int_minus divide_inverse)
qed

lemma fl_is_double [simp]: "is_double (fl x)"
proof -
  have P: "is_double (fl_pos y)" if y: "0 < y" for y
  proof -
    define e where "e = ulp_exp y"
    define m where "m = round_even (y / 2 powi e)"
    have e: "- 1074 \<le> e" by (simp add: e_def ulp_exp_def)
    have fy: "fl_pos y = of_int m * 2 powi e" by (simp add: fl_pos_def Let_def e_def m_def)
    have m0: "0 \<le> m" using y round_even_mono [of 0 "y / 2 powi e"] round_even_of_int [of 0]
      by (simp add: m_def)
    have "y < 2 powi (expo y + 1)" using expo_bounds [OF y] by simp
    also have "\<dots> \<le> 2 powi (e + 53)" by (rule powi2_mono) (simp add: e_def ulp_exp_def)
    also have "\<dots> = of_int (2 ^ 53) * 2 powi e" using powi2_split [of e "e + 53"] by simp
    finally have "of_int m * 2 powi e \<le> of_int (2 ^ 53) * (2::rat) powi e"
      unfolding m_def by (intro round_scale_le) auto
    then have m: "m \<le> 2 ^ 53" by (simp only: mult_le_cancel_right_pos powi2_pos of_int_le_iff)
    show ?thesis
    proof (cases "m = 2 ^ 53")
      case True
      have "fl_pos y = of_int (2 ^ 52) * 2 powi (e + 1)"
        unfolding fy True powi2_add by simp
      moreover have "\<bar>2 ^ 52\<bar> < (2 ^ 53 :: int)" "- 1074 \<le> e + 1" using e by simp_all
      ultimately show ?thesis unfolding is_double_def by blast
    next
      case False
      with m m0 have "\<bar>m\<bar> < 2 ^ 53" by linarith
      with fy e show ?thesis unfolding is_double_def by blast
    qed
  qed
  consider "x = 0" | "0 < x" | "x < 0" by linarith
  then show ?thesis
    using P [of x] P [of "- x"] is_double_int [of 0]
    by cases (auto simp: fl_def is_double_minus)
qed

lemma fl_idem [simp]: "fl (fl x) = fl x"
  by (simp add: fl_exact fl_is_double)


lemma fl_eq_0: "fl x = 0 \<Longrightarrow> \<bar>x\<bar> < 1 / 2 ^ 1074"
proof (rule ccontr)
  assume z: "fl x = 0" and "\<not> \<bar>x\<bar> < 1 / 2 ^ 1074"
  then have c: "1 / 2 ^ 1074 \<le> \<bar>x\<bar>" by simp
  have d: "is_double (1 / 2 ^ 1074)" using is_double_half_power [of 1 1 1074] is_double_int [of 1] by simp
  have "1 / 2 ^ 1074 \<le> fl \<bar>x\<bar>" using fl_ge [OF d c] .
  moreover have "fl \<bar>x\<bar> = 0" using z fl_minus [of x] by (simp add: abs_if)
  ultimately have "(1::rat) / 2 ^ 1074 \<le> 0" by (simp only:)
  moreover have "(0::rat) < 1 / 2 ^ 1074" by (simp only: divide_pos_pos zero_less_power zero_less_one zero_less_numeral)
  ultimately show False by linarith
qed

lemma is_double_dyadic [simp]: "is_double (1 / 2)" "is_double (1 / 4)" "is_double (3 / 4)" "is_double (1 / 8)"
    "is_double (7 / 8)" "is_double (15 / 16)"
  using fl_dyadic fl_is_double by metis+

section \<open>Arithmetic\<close>

abbreviation fadd :: "rat \<Rightarrow> rat \<Rightarrow> rat" where "fadd x y \<equiv> fl (x + y)"
abbreviation fsub :: "rat \<Rightarrow> rat \<Rightarrow> rat" where "fsub x y \<equiv> fl (x - y)"
abbreviation fmul :: "rat \<Rightarrow> rat \<Rightarrow> rat" where "fmul x y \<equiv> fl (x * y)"
abbreviation fdiv :: "rat \<Rightarrow> rat \<Rightarrow> rat" where "fdiv x y \<equiv> fl (x / y)"

text \<open>\<open>round(x, nd)\<close>: the decimal nearest to the exact value, ties to even, as a double.\<close>

definition py_round :: "nat \<Rightarrow> rat \<Rightarrow> rat" where
  "py_round nd x = fl (of_int (round_even (x * 10 ^ nd)) / 10 ^ nd)"

text \<open>\<open>int(x)\<close> on a float truncates towards zero.\<close>

definition trunc_rat :: "rat \<Rightarrow> int" where
  "trunc_rat x = (if x < 0 then - \<lfloor>- x\<rfloor> else \<lfloor>x\<rfloor>)"

lemma trunc_rat_of_int [simp]: "trunc_rat (of_int n) = n"
  by (simp add: trunc_rat_def flip: of_int_minus)

text \<open>A crude absolute error bound.\<close>

lemma fl_near: "\<bar>y\<bar> \<le> 2 ^ 40 \<Longrightarrow> \<bar>fl y - y\<bar> \<le> 1 / 1024"
proof -
  assume y: "\<bar>y\<bar> \<le> 2 ^ 40"
  define n where "n = \<lfloor>y * 1024\<rfloor>"
  have n: "of_int n \<le> y * 1024" "y * 1024 < of_int n + 1" unfolding n_def by linarith+
  have b: "\<bar>y * 1024\<bar> \<le> 2 ^ 50" using y by (simp add: abs_mult)
  have "rat_of_int n \<le> of_int (2 ^ 50)" "of_int (- (2 ^ 50) - 1) \<le> rat_of_int n" using b n by (simp_all add: abs_le_iff)
  then have "\<bar>n\<bar> \<le> 2 ^ 50 + 1" unfolding of_int_le_iff by (simp add: abs_le_iff)
  have k: "\<bar>k\<bar> < 2 ^ 53 \<Longrightarrow> is_double (of_int k / 2 ^ 10)" for k
    using is_double_half_power [OF is_double_int refl, of k 10] by simp
  have "\<bar>n\<bar> < 2 ^ 53" "\<bar>n + 1\<bar> < 2 ^ 53" using \<open>\<bar>n\<bar> \<le> 2 ^ 50 + 1\<close> by (simp_all add: abs_less_iff abs_le_iff)
  from k [OF this(1)] k [OF this(2)] have "is_double (of_int n / 2 ^ 10)" "is_double (of_int (n + 1) / 2 ^ 10)" .
  from fl_ge [OF this(1), of y] fl_le [OF this(2), of y] n
  have "of_int n / 2 ^ 10 \<le> fl y" "fl y \<le> of_int (n + 1) / 2 ^ 10" by simp_all
  then have "fl y - y \<le> 1 / 1024" "y - fl y \<le> 1 / 1024" using n by simp_all
  then show ?thesis by linarith
qed

end
