(* ===== verification/Py_Value.thy ===== *)
theory Py_Value
  imports Prelude Py_Float
begin

text \<open>
  Python values as far as the configuration, the samples and the control protocol use them:
  floats with infinities and NaN, JSON values, and the \<open>:g\<close> format of the messages.
\<close>

section \<open>Floats with infinities and NaN\<close>

datatype pyfloat = Fin rat | PosInf | NegInf | NaN

fun pf_le :: "pyfloat \<Rightarrow> pyfloat \<Rightarrow> bool" where
  "pf_le NaN _ = False"
| "pf_le _ NaN = False"
| "pf_le NegInf _ = True"
| "pf_le _ PosInf = True"
| "pf_le (Fin a) (Fin b) = (a \<le> b)"
| "pf_le _ _ = False"

fun pf_less :: "pyfloat \<Rightarrow> pyfloat \<Rightarrow> bool" where
  "pf_less NaN _ = False"
| "pf_less _ NaN = False"
| "pf_less a b = (\<not> pf_le b a)"

text \<open>Addition and subtraction of a finite amount.\<close>

fun pf_add :: "pyfloat \<Rightarrow> rat \<Rightarrow> pyfloat" where
  "pf_add (Fin a) b = Fin (fadd (fl a) (fl b))"
| "pf_add x b = x"

section \<open>Values\<close>

datatype pyval =
    PNone
  | PBool bool
  | PInt int
  | PFloat pyfloat
  | PStr string
  | PList "pyval list"
  | PDict "(string \<times> pyval) list"

text \<open>\<open>num_of v\<close> is the value of a finite \<open>int\<close> or \<open>float\<close> that is not a \<open>bool\<close>: the \<open>_num\<close> helpers.\<close>

fun num_of :: "pyval \<Rightarrow> rat option" where
  "num_of (PInt n) = Some (of_int n)"
| "num_of (PFloat (Fin x)) = Some x"
| "num_of _ = None"

definition is_num :: "pyval \<Rightarrow> bool" where
  "is_num v = (num_of v \<noteq> None)"

text \<open>The number an arithmetic expression reads from a value (\<open>True\<close> counts as 1).\<close>

fun as_float :: "pyval \<Rightarrow> pyfloat option" where
  "as_float (PInt n) = Some (Fin (of_int n))"
| "as_float (PBool b) = Some (Fin (if b then 1 else 0))"
| "as_float (PFloat f) = Some f"
| "as_float _ = None"

fun truthy :: "pyval \<Rightarrow> bool" where
  "truthy PNone = False"
| "truthy (PBool b) = b"
| "truthy (PInt n) = (n \<noteq> 0)"
| "truthy (PFloat f) = (f \<noteq> Fin 0)"
| "truthy (PStr s) = (s \<noteq> [])"
| "truthy (PList l) = (l \<noteq> [])"
| "truthy (PDict d) = (d \<noteq> [])"

definition is_dict :: "pyval \<Rightarrow> bool" where
  "is_dict v = (case v of PDict _ \<Rightarrow> True | _ \<Rightarrow> False)"

text \<open>\<open>d.get(k)\<close> on a dictionary: \<open>None\<close> when the key is absent.\<close>

definition py_get :: "pyval dict \<Rightarrow> string \<Rightarrow> pyval" where
  "py_get d k = (case dget d k of None \<Rightarrow> PNone | Some v \<Rightarrow> v)"

lemma num_of_as_float: "num_of v = Some x \<Longrightarrow> as_float v = Some (Fin x)"
  by (cases v rule: num_of.cases) auto

lemma is_num_cases: "is_num v \<Longrightarrow> (\<And>n. v = PInt n \<Longrightarrow> P) \<Longrightarrow> (\<And>x. v = PFloat (Fin x) \<Longrightarrow> P) \<Longrightarrow> P"
  by (cases v rule: num_of.cases) (auto simp: is_num_def)

section \<open>The formats \<open>:g\<close> and \<open>:.0f\<close>\<close>

text \<open>Six significant digits, trailing zeros removed, exponent form outside \<open>1e-4 .. 1e6\<close>.\<close>

definition exp10 :: "rat \<Rightarrow> int" where
  "exp10 x = (if 1 \<le> x then int (length (str_nat \<lfloor>x\<rfloor>)) - 1
              else - int (length (str_nat (\<lceil>1 / x\<rceil> - 1))))"

definition rstrip0 :: "string \<Rightarrow> string" where
  "rstrip0 s = rev (dropWhile (\<lambda>c. c = CHR ''0'') (rev s))"

definition with_frac :: "string \<Rightarrow> string \<Rightarrow> string" where
  "with_frac ip fp = (if fp = [] then ip else ip @ ''.'' @ fp)"

definition fmt_g_pos :: "rat \<Rightarrow> string" where
  "fmt_g_pos x =
    (let e0 = exp10 x; m0 = round_even (x / 10 powi (e0 - 5));
         e = (if m0 = 1000000 then e0 + 1 else e0);
         ds = str_nat (if m0 = 1000000 then 100000 else m0)
     in if 0 \<le> e \<and> e < 6 then with_frac (take (nat e + 1) ds) (rstrip0 (drop (nat e + 1) ds))
        else if - 4 \<le> e \<and> e < 0 then ''0.'' @ replicate (nat (- e - 1)) (CHR ''0'') @ rstrip0 ds
        else with_frac (take 1 ds) (rstrip0 (drop 1 ds)) @ ''e'' @ (if e < 0 then ''-'' else ''+'')
             @ (if \<bar>e\<bar> < 10 then ''0'' else []) @ str_int \<bar>e\<bar>)"

definition fmt_g :: "rat \<Rightarrow> string" where
  "fmt_g x = (if x = 0 then ''0'' else if x < 0 then CHR ''-'' # fmt_g_pos (- x) else fmt_g_pos x)"

definition fmt_0f :: "rat \<Rightarrow> string" where
  "fmt_0f x = str_int (round_even x)"

lemma fmt_g_examples:
  "fmt_g 35 = ''35''" "fmt_g (75 / 2) = ''37.5''" "fmt_g (7 / 10 ^ 7) = ''7e-07''" "fmt_g (1 / 8) = ''0.125''"
  "fmt_g 100000000 = ''1e+08''"
  by code_simp+

end
