(* ===== verification/Config.thy ===== *)
theory Config
  imports Py_Value
begin

text \<open>
  \<open>src/linux/turbomac/config.py\<close>: the defaults, the bounds of every key, the cross-field rules,
  and the functions that flatten, read, validate and update a configuration. A configuration is
  the nested dictionary the code keeps (\<open>pyval dict\<close>), its flat form maps dotted keys to values.
  Loading and saving the file follow; the JSON library and the file system are parameters.
\<close>

section \<open>Constants\<close>

definition SCHEMA :: int where "SCHEMA = 1"
definition HARD_MAX_W :: rat where "HARD_MAX_W = 45"
definition EPS :: rat where "EPS = fl (1 / 1000000000)"

definition EPP_CHOICES :: "string list" where
  "EPP_CHOICES = [''default'', ''performance'', ''balance_performance'', ''balance_power'', ''power'']"

text \<open>A float literal \<open>n/d\<close> of the source.\<close>

abbreviation flit :: "rat \<Rightarrow> pyval" where "flit x \<equiv> PFloat (Fin (fl x))"

definition DEFAULTS :: "pyval dict" where
  "DEFAULTS =
    [(''schema'', PInt SCHEMA),
     (''governor'', PDict
       [(''mode'', PStr ''static''),
        (''static_cap_w'', PInt 35), (''ceiling_w'', PInt 45), (''floor_w'', PInt 10), (''burst_w'', PInt 0),
        (''shed_ratio'', flit (88/100)), (''emergency_ratio'', flit (94/100)), (''recover_ratio'', flit (78/100)),
        (''cut_step_w'', PInt 5), (''recover_step_w'', PInt 1), (''recover_interval_s'', PInt 3),
        (''stale_timeout_s'', PInt 2),
        (''thermal_trim_c'', PInt 97), (''thermal_recover_c'', PInt 92), (''thermal_step_w'', PInt 1),
        (''thermal_interval_s'', PInt 3)]),
     (''gpu'', PDict [(''mode'', PStr ''auto''), (''cap_w'', PInt 15)]),
     (''fan'', PDict
       [(''mode'', PStr ''floor''),
        (''power_floor_w'', PInt 25), (''power_floor_rpm'', PInt 3500),
        (''t1_c'', PInt 78), (''t1_rpm'', PInt 3500), (''t2_c'', PInt 84), (''t2_rpm'', PInt 4500),
        (''t3_c'', PInt 90), (''t3_rpm'', PInt 5900),
        (''hysteresis_c'', PInt 6), (''step_down_interval_s'', PInt 20), (''max_rpm'', PInt 5900)]),
     (''cpu'', PDict [(''no_turbo'', PNone), (''epp'', PNone), (''max_perf_pct'', PNone)]),
     (''logging'', PDict [(''retention_days'', PInt 14), (''max_mib'', PInt 1024)])]"

datatype kind = Choice "string list" | Num rat rat | IntR int int | BoolK

text \<open>Each key with its kind; \<open>True\<close> marks the \<open>?\<close> suffix, which allows \<open>None\<close>.\<close>

definition SPEC :: "(string \<times> bool \<times> kind) list" where
  "SPEC =
    [(''governor.mode'', False, Choice [''off'', ''static'', ''dynamic'']),
     (''governor.static_cap_w'', False, Num 10 45),
     (''governor.ceiling_w'', False, Num 10 45),
     (''governor.floor_w'', False, Num 9 20),
     (''governor.burst_w'', False, Num 0 5),
     (''governor.shed_ratio'', False, Num (fl (70/100)) (fl (95/100))),
     (''governor.emergency_ratio'', False, Num (fl (73/100)) (fl (98/100))),
     (''governor.recover_ratio'', False, Num (fl (50/100)) (fl (90/100))),
     (''governor.cut_step_w'', False, Num 1 15),
     (''governor.recover_step_w'', False, Num 1 5),
     (''governor.recover_interval_s'', False, Num 1 30),
     (''governor.stale_timeout_s'', False, Num 1 10),
     (''governor.thermal_trim_c'', True, Num 80 99),
     (''governor.thermal_recover_c'', False, Num 70 97),
     (''governor.thermal_step_w'', False, Num (fl (5/10)) 5),
     (''governor.thermal_interval_s'', False, Num 1 30),
     (''gpu.mode'', False, Choice [''auto'', ''low'', ''off'']),
     (''gpu.cap_w'', False, Num 5 35),
     (''fan.mode'', False, Choice [''auto'', ''floor'']),
     (''fan.power_floor_w'', False, Num 10 45),
     (''fan.power_floor_rpm'', False, IntR 2000 5900),
     (''fan.t1_c'', False, Num 50 99),
     (''fan.t1_rpm'', False, IntR 2000 5900),
     (''fan.t2_c'', False, Num 50 99),
     (''fan.t2_rpm'', False, IntR 2000 5900),
     (''fan.t3_c'', False, Num 50 99),
     (''fan.t3_rpm'', False, IntR 2000 5900),
     (''fan.hysteresis_c'', False, Num 2 15),
     (''fan.step_down_interval_s'', False, Num 5 120),
     (''fan.max_rpm'', False, IntR 2500 5900),
     (''cpu.no_turbo'', True, BoolK),
     (''cpu.epp'', True, Choice EPP_CHOICES),
     (''cpu.max_perf_pct'', True, IntR 20 100),
     (''logging.retention_days'', False, IntR 1 365),
     (''logging.max_mib'', False, IntR 16 8192)]"

section \<open>Cross-field rules\<close>

text \<open>
  A rule reads the merged flat configuration: a missing key raises \<open>KeyError\<close>, a value that is no
  number \<open>TypeError\<close>.
\<close>

definition cfg_num :: "pyval dict \<Rightarrow> string \<Rightarrow> pyfloat res" where
  "cfg_num c k = (case dget c k of None \<Rightarrow> Inl (KeyError k)
     | Some v \<Rightarrow> (case as_float v of None \<Rightarrow> Inl (TypeError k) | Some f \<Rightarrow> Inr f))"

definition cmp2 :: "(pyfloat \<Rightarrow> pyfloat \<Rightarrow> bool) \<Rightarrow> string \<Rightarrow> string \<Rightarrow> pyval dict \<Rightarrow> bool res" where
  "cmp2 p k1 k2 c = res_bind (cfg_num c k1) (\<lambda>a. res_bind (cfg_num c k2) (\<lambda>b. Inr (p a b)))"

type_synonym cross_rule = "string list \<times> (pyval dict \<Rightarrow> bool res) \<times> string"

definition thermal_rule :: "pyval dict \<Rightarrow> bool res" where
  "thermal_rule c =
    (case dget c ''governor.thermal_trim_c'' of
       None \<Rightarrow> Inl (KeyError ''governor.thermal_trim_c'')
     | Some v \<Rightarrow> if v = PNone then Inr True
         else cmp2 (\<lambda>a b. pf_le a (pf_add (pf_add b (- 2)) EPS))
           ''governor.thermal_recover_c'' ''governor.thermal_trim_c'' c)"

definition CROSS_RULES :: "cross_rule list" where
  "CROSS_RULES =
    [([''governor.static_cap_w'', ''governor.ceiling_w''],
      cmp2 (\<lambda>a b. pf_le a (pf_add b EPS)) ''governor.static_cap_w'' ''governor.ceiling_w'',
      ''static_cap_w must be <= ceiling_w''),
     ([''governor.recover_ratio'', ''governor.shed_ratio''],
      cmp2 (\<lambda>a b. pf_le a (pf_add (pf_add b (- fl (5/100))) EPS)) ''governor.recover_ratio'' ''governor.shed_ratio'',
      ''recover_ratio must be <= shed_ratio - 0.05''),
     ([''governor.emergency_ratio'', ''governor.shed_ratio''],
      cmp2 (\<lambda>a b. pf_le (pf_add (pf_add b (fl (3/100))) (- EPS)) a) ''governor.emergency_ratio'' ''governor.shed_ratio'',
      ''emergency_ratio must be >= shed_ratio + 0.03''),
     ([''governor.thermal_recover_c'', ''governor.thermal_trim_c''],
      thermal_rule,
      ''thermal_recover_c must be <= thermal_trim_c - 2''),
     ([''fan.t1_c'', ''fan.t2_c''],
      cmp2 (\<lambda>a b. pf_less a (pf_add b (- EPS))) ''fan.t1_c'' ''fan.t2_c'', ''t1_c must be < t2_c''),
     ([''fan.t2_c'', ''fan.t3_c''],
      cmp2 (\<lambda>a b. pf_less a (pf_add b (- EPS))) ''fan.t2_c'' ''fan.t3_c'', ''t2_c must be < t3_c''),
     ([''fan.t1_rpm'', ''fan.t2_rpm''],
      cmp2 pf_le ''fan.t1_rpm'' ''fan.t2_rpm'', ''t1_rpm must be <= t2_rpm''),
     ([''fan.t2_rpm'', ''fan.t3_rpm''],
      cmp2 pf_le ''fan.t2_rpm'' ''fan.t3_rpm'', ''t2_rpm must be <= t3_rpm'')]"

section \<open>Operations\<close>

definition defaults :: "pyval dict" where
  "defaults = DEFAULTS"

text \<open>\<open>flatten\<close>: the recursion is on the nesting; \<open>out.update(flatten(v))\<close> is \<open>dmerge\<close>.\<close>

function flatten :: "pyval dict \<Rightarrow> string \<Rightarrow> pyval dict" where
  "flatten [] pre = []"
| "flatten ((k, v) # cfg) pre =
     (case v of
        PDict d \<Rightarrow> dmerge (flatten d (pre @ k @ ''.'')) (flatten cfg pre)
      | _ \<Rightarrow> dmerge [(pre @ k, v)] (flatten cfg pre))"
  by pat_completeness auto
termination
  by (relation "measure (\<lambda>(c, p). size_list (size_prod (\<lambda>_. 0) size) c)") auto

text \<open>\<open>get\<close>: one step per part of the dotted key.\<close>

fun get_path :: "pyval \<Rightarrow> string list \<Rightarrow> pyval res" where
  "get_path node [] = Inr node"
| "get_path (PDict d) (p # ps) = (case dget d p of None \<Rightarrow> Inl (KeyError p) | Some v \<Rightarrow> get_path v ps)"
| "get_path _ (p # ps) = Inl (TypeError p)"

definition get :: "pyval dict \<Rightarrow> string \<Rightarrow> pyval res" where
  "get cfg dotted = get_path (PDict cfg) (split_char CHR ''.'' dotted)"

definition out_of_range :: "rat \<Rightarrow> rat \<Rightarrow> string" where
  "out_of_range lo hi = ''out of range '' @ fmt_g lo @ ''..'' @ fmt_g hi"

definition in_range :: "rat \<Rightarrow> rat \<Rightarrow> pyfloat \<Rightarrow> bool" where
  "in_range lo hi f = (pf_le (Fin (fsub lo EPS)) f \<and> pf_le f (Fin (fadd hi EPS)))"

text \<open>\<open>float(n)\<close> of an \<open>int\<close> raises \<open>OverflowError\<close> from \<open>2 ^ 1024\<close> (after rounding) on.\<close>

definition overflows :: "int \<Rightarrow> bool" where
  "overflows n = (2 ^ 1024 \<le> \<bar>fl (of_int n)\<bar>)"

definition check_kind :: "kind \<Rightarrow> pyval \<Rightarrow> (pyval \<times> string option) res" where
  "check_kind kd value =
    (case kd of
       Choice arg \<Rightarrow>
         (case value of
            PStr s \<Rightarrow> Inr (value, if s \<in> set arg then None else Some (''must be one of '' @ join_with '', '' arg))
          | _ \<Rightarrow> Inr (value, Some (''must be one of '' @ join_with '', '' arg)))
     | BoolK \<Rightarrow> (case value of PBool _ \<Rightarrow> Inr (value, None) | _ \<Rightarrow> Inr (value, Some ''must be true or false''))
     | Num lo hi \<Rightarrow>
         (case value of
            PInt n \<Rightarrow> Inr (value, if in_range lo hi (Fin (of_int n)) then None else Some (out_of_range lo hi))
          | PFloat f \<Rightarrow>
              if f = NaN then Inr (value, Some ''must be a number'')
              else Inr (value, if in_range lo hi f then None else Some (out_of_range lo hi))
          | _ \<Rightarrow> Inr (value, Some ''must be a number''))
     | IntR lo hi \<Rightarrow>
         (let fin = (\<lambda>n. Inr (PInt n, if in_range (of_int lo) (of_int hi) (Fin (of_int n)) then None
                              else Some (out_of_range (of_int lo) (of_int hi))))
          in case value of
            PInt n \<Rightarrow>
              if overflows n then Inl (OverflowError ''int too large to convert to float'')
              else if fl (of_int n) \<noteq> of_int n then Inr (value, Some ''must be an integer'')
              else fin n
          | PFloat (Fin x) \<Rightarrow>
              if x \<noteq> of_int (trunc_rat x) then Inr (value, Some ''must be an integer'') else fin (trunc_rat x)
          | PFloat NaN \<Rightarrow> Inr (value, Some ''must be a number'')
          | PFloat _ \<Rightarrow> Inl (OverflowError ''cannot convert float infinity to integer'')
          | _ \<Rightarrow> Inr (value, Some ''must be a number'')))"

definition check_one :: "string \<Rightarrow> pyval \<Rightarrow> (pyval \<times> string option) res" where
  "check_one key value =
    (if key = ''schema'' then
       Inr (value, if as_float value = Some (Fin (of_int SCHEMA)) then None
                   else Some (''schema must be '' @ str_int SCHEMA))
     else if key = ''governor.hard_max_w'' then
       Inr (value, Some (''hard_max_w is fixed at '' @ fmt_g HARD_MAX_W @ '' W''))
     else case dget SPEC key of
       None \<Rightarrow> Inr (value, Some ''unknown key'')
     | Some (nullable, kd) \<Rightarrow>
         if nullable \<and> value = PNone then Inr (PNone, None) else check_kind kd value)"

text \<open>The first loop of \<open>validate\<close>: every update on its own.\<close>

fun check_all :: "pyval dict \<Rightarrow> pyval dict \<times> string dict \<Rightarrow> (pyval dict \<times> string dict) res" where
  "check_all [] ar = Inr ar"
| "check_all ((key, value) # us) (accepted, rejected) =
     res_bind (check_one key value) (\<lambda>(norm, err).
       case err of
         Some e \<Rightarrow> check_all us (accepted, dset key e rejected)
       | None \<Rightarrow> check_all us (if key \<noteq> ''schema'' then dset key norm accepted else accepted, rejected))"

text \<open>One broken rule: its updated keys (all its keys if none was updated) are dropped and rejected.\<close>

definition culprits :: "string list \<Rightarrow> pyval dict \<Rightarrow> string list" where
  "culprits keys accepted = (let cs = filter (dhas accepted) keys in if cs = [] then keys else cs)"

fun drop_keys :: "string list \<Rightarrow> string \<Rightarrow> pyval dict \<times> string dict \<Rightarrow> pyval dict \<times> string dict" where
  "drop_keys [] reason ar = ar"
| "drop_keys (k # ks) reason (accepted, rejected) =
     drop_keys ks reason (dpop k accepted, dsetdefault k reason rejected)"

text \<open>One pass over the rules, on the dictionary merged before the pass.\<close>

fun cross_pass :: "pyval dict \<Rightarrow> cross_rule list \<Rightarrow> pyval dict \<times> string dict \<Rightarrow> bool
    \<Rightarrow> (pyval dict \<times> string dict \<times> bool) res" where
  "cross_pass merged [] (accepted, rejected) broken = Inr (accepted, rejected, broken)"
| "cross_pass merged ((keys, ok, reason) # rules) (accepted, rejected) broken =
     res_bind (ok merged) (\<lambda>good.
       if good then cross_pass merged rules (accepted, rejected) broken
       else cross_pass merged rules (drop_keys (culprits keys accepted) reason (accepted, rejected)) True)"

fun cross_loop :: "cross_rule list \<Rightarrow> nat \<Rightarrow> pyval dict \<Rightarrow> pyval dict \<times> string dict
    \<Rightarrow> (pyval dict \<times> string dict) res" where
  "cross_loop rules 0 flat_base ar = Inr ar"
| "cross_loop rules (Suc n) flat_base (accepted, rejected) =
     res_bind (cross_pass (dmerge flat_base accepted) rules (accepted, rejected) False)
       (\<lambda>(accepted, rejected, broken).
          if broken then cross_loop rules n flat_base (accepted, rejected) else Inr (accepted, rejected))"

definition validate :: "pyval dict \<Rightarrow> pyval dict \<Rightarrow> (pyval dict \<times> string dict) res" where
  "validate updates base =
     res_bind (check_all updates ([], []))
       (cross_loop CROSS_RULES (length CROSS_RULES + 1) (flatten base []))"

text \<open>\<open>apply_updates\<close>: walk the dotted path with \<open>setdefault\<close>, then assign.\<close>

fun set_path :: "pyval dict \<Rightarrow> string list \<Rightarrow> pyval \<Rightarrow> pyval dict res" where
  "set_path node [] value = Inr node"
| "set_path node [p] value = Inr (dset p value node)"
| "set_path node (p # q # ps) value =
     (case dget node p of
        None \<Rightarrow> res_bind (set_path [] (q # ps) value) (\<lambda>d. Inr (dset p (PDict d) node))
      | Some (PDict d) \<Rightarrow> res_bind (set_path d (q # ps) value) (\<lambda>d. Inr (dset p (PDict d) node))
      | Some _ \<Rightarrow> Inl (TypeError p))"

fun apply_updates :: "pyval dict \<Rightarrow> pyval dict \<Rightarrow> pyval dict res" where
  "apply_updates cfg [] = Inr cfg"
| "apply_updates cfg ((dotted, value) # us) =
     res_bind (set_path cfg (split_char CHR ''.'' dotted) value) (\<lambda>c. apply_updates c us)"

definition from_dict :: "pyval \<Rightarrow> (pyval dict \<times> string dict) res" where
  "from_dict raw =
    (case raw of
       PDict d \<Rightarrow> res_bind (validate (flatten d []) DEFAULTS)
         (\<lambda>(accepted, rejected). res_bind (apply_updates defaults accepted) (\<lambda>c. Inr (c, rejected)))
     | _ \<Rightarrow> Inr (defaults, [(''<file>'', ''top level must be an object'')]))"


section \<open>Rule sets\<close>

text \<open>
  What \<open>validate\<close> relies on in a list of cross-field rules: a rule reads only the keys it lists,
  and it evaluates without an exception when each of them holds an acceptable value.
\<close>

definition rule_keys :: "cross_rule \<Rightarrow> string set" where
  "rule_keys r = set (fst r)"

definition rule_ok :: "cross_rule \<Rightarrow> pyval dict \<Rightarrow> bool res" where
  "rule_ok r c = fst (snd r) c"

definition live_rules :: "cross_rule list \<Rightarrow> pyval dict \<Rightarrow> cross_rule list" where
  "live_rules rules accepted = filter (\<lambda>r. \<exists>k\<in>rule_keys r. dhas accepted k) rules"

lemma drop_keys_get: "dget (fst (drop_keys ks reason ar)) k = (if k \<in> set ks then None else dget (fst ar) k)"
  by (induction ks reason ar rule: drop_keys.induct) auto

lemma drop_keys_dwf: "dwf (fst ar) \<Longrightarrow> dwf (fst (drop_keys ks reason ar))"
  by (induction ks reason ar rule: drop_keys.induct) auto

lemma drop_culprits_get:
  "dget (fst (drop_keys (culprits keys acc) reason (acc, rej))) k = (if k \<in> set keys then None else dget acc k)"
  by (auto simp: drop_keys_get culprits_def Let_def dhas_def filter_empty_conv)

lemma cross_pass_result:
  assumes "\<forall>r\<in>set rs. \<exists>b. rule_ok r merged = Inr b"
  shows "\<exists>acc' rej'. cross_pass merged rs (acc, rej) bk =
           Inr (acc', rej', bk \<or> (\<exists>r\<in>set rs. rule_ok r merged = Inr False)) \<and>
         (\<forall>k. dget acc' k =
            (if \<exists>r\<in>set rs. rule_ok r merged = Inr False \<and> k \<in> rule_keys r then None else dget acc k)) \<and>
         (dwf acc \<longrightarrow> dwf acc')"
  using assms
proof (induction rs arbitrary: acc rej bk)
  case Nil
  then show ?case by simp
next
  case (Cons r rs)
  obtain keys ok reason where r: "r = (keys, ok, reason)" by (cases r) auto
  from Cons.prems r obtain b where b: "ok merged = Inr b" by (auto simp: rule_ok_def)
  show ?case
  proof (cases b)
    case True
    with Cons.IH [of acc rej bk] Cons.prems b r show ?thesis by (simp add: rule_ok_def rule_keys_def)
  next
    case False
    obtain acc1 rej1 where 1: "drop_keys (culprits keys acc) reason (acc, rej) = (acc1, rej1)"
      by (cases "drop_keys (culprits keys acc) reason (acc, rej)") auto
    have g: "dget acc1 k = (if k \<in> set keys then None else dget acc k)" for k
      using drop_culprits_get [of keys acc reason rej k] by (simp add: 1)
    have w: "dwf acc \<Longrightarrow> dwf acc1" using drop_keys_dwf [of "(acc, rej)"] 1 by (metis fst_conv)
    from Cons.prems have "\<forall>r\<in>set rs. \<exists>b. rule_ok r merged = Inr b" by simp
    from Cons.IH [OF this, of acc1 rej1 True] b False 1 r g w show ?thesis
      by (fastforce simp: rule_ok_def rule_keys_def)
  qed
qed

locale rule_set =
  fixes rules :: "cross_rule list"
    and vok :: "string \<Rightarrow> pyval \<Rightarrow> bool"
  assumes rule_total: "r \<in> set rules \<Longrightarrow> (\<And>k. k \<in> rule_keys r \<Longrightarrow> \<exists>v. dget c k = Some v \<and> vok k v)
      \<Longrightarrow> \<exists>b. rule_ok r c = Inr b"
    and rule_local: "r \<in> set rules \<Longrightarrow> (\<And>k. k \<in> rule_keys r \<Longrightarrow> dget c k = dget c' k)
      \<Longrightarrow> rule_ok r c = rule_ok r c'"
begin

definition entries_ok :: "pyval dict \<Rightarrow> bool" where
  "entries_ok acc = (\<forall>k v. dget acc k = Some v \<longrightarrow> vok k v)"

definition base_ok :: "pyval dict \<Rightarrow> bool" where
  "base_ok base = ((\<forall>r\<in>set rules. \<forall>k\<in>rule_keys r. \<exists>v. dget base k = Some v \<and> vok k v) \<and>
     (\<forall>r\<in>set rules. rule_ok r base = Inr True))"

lemma merged_total:
  assumes "base_ok base" "entries_ok acc" "dwf acc" "r \<in> set rules"
  shows "\<exists>b. rule_ok r (dmerge base acc) = Inr b"
proof (rule rule_total [OF assms(4)])
  fix k assume k: "k \<in> rule_keys r"
  with assms obtain v where "dget base k = Some v" "vok k v" unfolding base_ok_def by blast
  with assms show "\<exists>v. dget (dmerge base acc) k = Some v \<and> vok k v"
    by (cases "dget acc k") (auto simp: dget_dmerge entries_ok_def)
qed

lemma broken_is_live:
  assumes "base_ok base" "dwf acc" "r \<in> set rules" "rule_ok r (dmerge base acc) = Inr False"
  shows "\<exists>k\<in>rule_keys r. dhas acc k"
proof (rule ccontr)
  assume "\<not> ?thesis"
  then have "rule_ok r (dmerge base acc) = rule_ok r base"
    using assms by (intro rule_local) (auto simp: dget_dmerge dhas_def)
  with assms show False unfolding base_ok_def by simp
qed

lemma live_shrinks:
  assumes "\<forall>k. dget acc' k = (if \<exists>r\<in>set rules. P r \<and> k \<in> rule_keys r then None else dget acc k)"
    and "r \<in> set rules" "P r" "\<exists>k\<in>rule_keys r. dhas acc k"
  shows "length (live_rules rules acc') < length (live_rules rules acc)"
proof -
  have sub: "dhas acc' k \<Longrightarrow> dhas acc k" for k using assms(1) by (auto simp: dhas_def split: if_splits)
  have dead: "\<not> (\<exists>k\<in>rule_keys r. dhas acc' k)" using assms(1-3) by (auto simp: dhas_def)
  have eq: "live_rules rules acc' = filter (\<lambda>r. \<exists>k\<in>rule_keys r. dhas acc' k) (live_rules rules acc)"
    unfolding live_rules_def filter_filter by (rule filter_cong) (auto dest: sub)
  have "r \<in> set (live_rules rules acc)" using assms by (simp add: live_rules_def)
  then show ?thesis unfolding eq using dead by (intro length_filter_less)
qed

lemma loop_converges:
  assumes "base_ok base" "entries_ok acc" "dwf acc" "length (live_rules rules acc) < n"
  shows "\<exists>acc' rej'. cross_loop rules n base (acc, rej) = Inr (acc', rej') \<and> dwf acc' \<and>
           (\<forall>k v. dget acc' k = Some v \<longrightarrow> dget acc k = Some v) \<and>
           (\<forall>r\<in>set rules. rule_ok r (dmerge base acc') = Inr True)"
  using assms
proof (induction n arbitrary: acc rej)
  case 0
  then show ?case by simp
next
  case (Suc n)
  let ?m = "dmerge base acc"
  have tot: "\<forall>r\<in>set rules. \<exists>b. rule_ok r ?m = Inr b" using Suc.prems merged_total by blast
  obtain acc' rej' where p: "cross_pass ?m rules (acc, rej) False =
        Inr (acc', rej', \<exists>r\<in>set rules. rule_ok r ?m = Inr False)"
      and g: "\<forall>k. dget acc' k =
        (if \<exists>r\<in>set rules. rule_ok r ?m = Inr False \<and> k \<in> rule_keys r then None else dget acc k)"
      and w: "dwf acc'"
    using cross_pass_result [OF tot, of acc rej False] Suc.prems(3) by auto
  have sub: "\<forall>k v. dget acc' k = Some v \<longrightarrow> dget acc k = Some v" using g by (auto split: if_splits)
  show ?case
  proof (cases "\<exists>r\<in>set rules. rule_ok r ?m = Inr False")
    case False
    have same: "dget acc' k = dget acc k" for k using g False by auto
    have "rule_ok r (dmerge base acc') = Inr True" if r: "r \<in> set rules" for r
    proof -
      have e: "rule_ok r (dmerge base acc') = rule_ok r ?m"
        using r w Suc.prems(3) same by (intro rule_local) (simp_all add: dget_dmerge)
      obtain b where "rule_ok r ?m = Inr b" using tot r by blast
      with False r e show ?thesis by (cases b) auto
    qed
    with p False sub w show ?thesis by simp
  next
    case True
    then obtain r where r: "r \<in> set rules" "rule_ok r ?m = Inr False" by blast
    with Suc.prems have "\<exists>k\<in>rule_keys r. dhas acc k" by (intro broken_is_live)
    with g r have "length (live_rules rules acc') < length (live_rules rules acc)"
      by (intro live_shrinks [where P = "\<lambda>r. rule_ok r ?m = Inr False"])
    then have "length (live_rules rules acc') < n" using Suc.prems(4) by simp
    moreover have "entries_ok acc'" using Suc.prems(2) sub by (auto simp: entries_ok_def)
    ultimately obtain acc2 rej2 where
      "cross_loop rules n base (acc', rej') = Inr (acc2, rej2)" "dwf acc2"
      "\<forall>k v. dget acc2 k = Some v \<longrightarrow> dget acc' k = Some v"
      "\<forall>r\<in>set rules. rule_ok r (dmerge base acc2) = Inr True"
      using Suc.IH [of acc' rej'] Suc.prems(1) w by blast
    with p True sub show ?thesis by auto
  qed
qed

end


section \<open>Well-formed configurations\<close>

text \<open>A value is acceptable for a key when \<open>_check_one\<close> returns it unchanged and without an error.\<close>

definition val_ok :: "string \<Rightarrow> pyval \<Rightarrow> bool" where
  "val_ok k v = (check_one k v = Inr (v, None))"

definition rules_ok :: "pyval dict \<Rightarrow> bool" where
  "rules_ok c = list_all (\<lambda>r. rule_ok r c = Inr True) CROSS_RULES"

text \<open>A flat configuration is well formed: every key of \<open>SPEC\<close> holds an acceptable value and every rule holds.\<close>

definition flat_ok :: "pyval dict \<Rightarrow> bool" where
  "flat_ok c = (list_all (\<lambda>(k, _). case dget c k of None \<Rightarrow> False | Some v \<Rightarrow> val_ok k v) SPEC \<and> rules_ok c)"

lemma in_rangeI: "lo \<le> x \<Longrightarrow> x \<le> hi \<Longrightarrow> is_double lo \<Longrightarrow> is_double hi \<Longrightarrow> in_range lo hi (Fin x)"
proof -
  assume a: "lo \<le> x" "x \<le> hi" "is_double lo" "is_double hi"
  have e: "0 \<le> EPS" by (simp add: EPS_def)
  have "fsub lo EPS \<le> lo" using a e by (intro fl_le) auto
  moreover have "hi \<le> fadd hi EPS" using a e by (intro fl_ge) auto
  ultimately show ?thesis using a by (simp add: in_range_def)
qed

lemma EPS_bounds: "0 < EPS" "EPS < 1 / 1000"
  unfolding EPS_def by code_simp+

text \<open>With integer bounds the tolerance \<open>_EPS\<close> does not let a value more than one unit outside through.\<close>

lemma in_range_int_bounds:
  assumes "in_range (of_int lo) (of_int hi) (Fin x)" "\<bar>lo\<bar> < 2 ^ 50" "\<bar>hi\<bar> < 2 ^ 50"
  shows "of_int lo - 1 \<le> x" "x \<le> of_int hi + 1"
proof -
  have d: "is_double (of_int lo - 1)" "is_double (of_int hi + 1)"
    using is_double_int [of "lo - 1"] is_double_int [of "hi + 1"] assms(2,3) by simp_all
  have "of_int lo - 1 \<le> fsub (of_int lo) EPS" using d EPS_bounds by (intro fl_ge) auto
  moreover have "fadd (of_int hi) EPS \<le> of_int hi + 1" using d EPS_bounds by (intro fl_le) auto
  ultimately show "of_int lo - 1 \<le> x" "x \<le> of_int hi + 1" using assms(1) by (simp_all add: in_range_def)
qed

lemma not_overflows: "\<bar>n\<bar> < 2 ^ 53 \<Longrightarrow> \<not> overflows n"
proof -
  assume n: "\<bar>n\<bar> < 2 ^ 53"
  have "\<bar>of_int n :: rat\<bar> < of_int (2 ^ 53)" using n by (metis of_int_abs of_int_less_iff)
  also have "\<dots> < (2::rat) ^ 1024" by simp
  finally show ?thesis by (simp only: overflows_def fl_of_int [OF n] not_le)
qed

definition spec_small :: "kind \<Rightarrow> bool" where
  "spec_small kd = (case kd of IntR lo hi \<Rightarrow> 0 < lo \<and> lo \<le> hi \<and> hi < 10000 | _ \<Rightarrow> True)"

lemma SPEC_small: "dget SPEC k = Some (nl, kd) \<Longrightarrow> spec_small kd"
proof -
  have "list_all (\<lambda>(k, nl, kd). spec_small kd) SPEC" by (simp add: SPEC_def spec_small_def)
  moreover assume "dget SPEC k = Some (nl, kd)"
  ultimately show ?thesis by (auto simp: list_all_iff dest: map_of_SomeD)
qed

lemma check_kind_stable:
  assumes "spec_small kd" "check_kind kd v = Inr (w, None)"
  shows "check_kind kd w = Inr (w, None)"
proof (cases kd)
  case (IntR lo hi)
  have small: "check_kind kd (PInt n) = Inr (PInt n, None)"
    if r: "in_range (of_int lo) (of_int hi) (Fin (of_int n))" for n
  proof -
    have s: "\<bar>lo\<bar> < 2 ^ 50" "\<bar>hi\<bar> < 2 ^ 50" using assms(1) IntR by (auto simp: spec_small_def)
    have "of_int (lo - 1) \<le> (of_int n :: rat)" "of_int n \<le> (of_int (hi + 1) :: rat)"
      using in_range_int_bounds [OF r s] by simp_all
    then have "\<bar>n\<bar> < 2 ^ 53" using s unfolding of_int_le_iff by simp
    then show ?thesis using r by (simp add: check_kind_def IntR Let_def not_overflows fl_of_int)
  qed
  from assms(2) IntR obtain n where "w = PInt n" "in_range (of_int lo) (of_int hi) (Fin (of_int n))"
    by (auto simp: check_kind_def Let_def split: pyval.splits pyfloat.splits if_splits)
  with small show ?thesis by simp
qed (use assms(2) in \<open>auto simp: check_kind_def split: pyval.splits if_splits\<close>)

lemma check_one_stable:
  assumes "check_one k v = Inr (w, None)"
  shows "val_ok k w"
proof (cases "k = ''schema'' \<or> k = ''governor.hard_max_w''")
  case True
  then show ?thesis using assms by (auto simp: val_ok_def check_one_def split: if_splits)
next
  case False
  then obtain nl kd where s: "dget SPEC k = Some (nl, kd)" using assms
    by (auto simp: check_one_def split: option.splits if_splits)
  show ?thesis
  proof (cases "nl \<and> v = PNone")
    case True
    with assms False s show ?thesis by (auto simp: val_ok_def check_one_def)
  next
    case nn: False
    with assms False s have c: "check_kind kd v = Inr (w, None)" by (auto simp: check_one_def)
    from check_kind_stable [OF SPEC_small [OF s] c] False s show ?thesis
      by (auto simp: val_ok_def check_one_def)
  qed
qed


text \<open>Numbers of accepted values.\<close>

lemma in_range_Fin: "in_range lo hi f \<Longrightarrow> \<exists>x. f = Fin x"
  by (cases f) (auto simp: in_range_def)

lemma check_kind_num: "check_kind (Num lo hi) v = Inr (w, None) \<Longrightarrow>
    \<exists>x. as_float v = Some (Fin x) \<and> num_of v = Some x \<and> w = v \<and> in_range lo hi (Fin x)"
  using in_range_Fin by (cases v) (fastforce simp: check_kind_def split: if_splits)+

lemma check_kind_int: "check_kind (IntR lo hi) v = Inr (w, None) \<Longrightarrow>
    \<exists>n. w = PInt n \<and> in_range (of_int lo) (of_int hi) (Fin (of_int n))"
  by (auto simp: check_kind_def Let_def split: pyval.splits pyfloat.splits if_splits)

lemma val_ok_spec:
  assumes "val_ok k v" "dget SPEC k = Some (nl, kd)"
    "k \<noteq> ''schema''" "k \<noteq> ''governor.hard_max_w''"
  shows "(nl \<and> v = PNone) \<or> check_kind kd v = Inr (v, None)"
  using assms by (auto simp: val_ok_def check_one_def split: if_splits)

lemma val_ok_float:
  assumes "val_ok k v" "dget SPEC k = Some (False, Num lo hi)" "k \<noteq> ''schema''" "k \<noteq> ''governor.hard_max_w''"
  shows "\<exists>x. as_float v = Some (Fin x)"
  using val_ok_spec [OF assms] check_kind_num [of lo hi v v] by auto

lemma val_ok_rpm:
  assumes "val_ok k v" "dget SPEC k = Some (False, IntR lo hi)" "k \<noteq> ''schema''" "k \<noteq> ''governor.hard_max_w''"
  shows "\<exists>n. v = PInt n"
  using val_ok_spec [OF assms] check_kind_int [of lo hi v v] by auto

text \<open>The keys the rules read, with their entries of \<open>SPEC\<close>.\<close>

lemma SPEC_rule_keys:
  "dget SPEC ''governor.static_cap_w'' = Some (False, Num 10 45)"
  "dget SPEC ''governor.ceiling_w'' = Some (False, Num 10 45)"
  "dget SPEC ''governor.shed_ratio'' = Some (False, Num (fl (70/100)) (fl (95/100)))"
  "dget SPEC ''governor.emergency_ratio'' = Some (False, Num (fl (73/100)) (fl (98/100)))"
  "dget SPEC ''governor.recover_ratio'' = Some (False, Num (fl (50/100)) (fl (90/100)))"
  "dget SPEC ''governor.thermal_trim_c'' = Some (True, Num 80 99)"
  "dget SPEC ''governor.thermal_recover_c'' = Some (False, Num 70 97)"
  "dget SPEC ''fan.t1_c'' = Some (False, Num 50 99)"
  "dget SPEC ''fan.t2_c'' = Some (False, Num 50 99)"
  "dget SPEC ''fan.t3_c'' = Some (False, Num 50 99)"
  "dget SPEC ''fan.t1_rpm'' = Some (False, IntR 2000 5900)"
  "dget SPEC ''fan.t2_rpm'' = Some (False, IntR 2000 5900)"
  "dget SPEC ''fan.t3_rpm'' = Some (False, IntR 2000 5900)"
  by (simp_all add: SPEC_def)

lemma cmp2_total:
  "\<exists>f. cfg_num c k1 = Inr f \<Longrightarrow> \<exists>f. cfg_num c k2 = Inr f \<Longrightarrow> \<exists>b. cmp2 p k1 k2 c = Inr b"
  by (auto simp: cmp2_def)

lemma cmp2_local: "dget c k1 = dget c' k1 \<Longrightarrow> dget c k2 = dget c' k2 \<Longrightarrow> cmp2 p k1 k2 c = cmp2 p k1 k2 c'"
  by (simp add: cmp2_def cfg_num_def)

lemma cfg_num_ok:
  assumes "\<exists>v. dget c k = Some v \<and> val_ok k v"
    "dget SPEC k = Some (False, Num lo hi) \<or> dget SPEC k = Some (False, IntR a b)"
    "k \<noteq> ''schema''" "k \<noteq> ''governor.hard_max_w''"
  shows "\<exists>f. cfg_num c k = Inr f"
  using assms val_ok_float val_ok_rpm by (fastforce simp: cfg_num_def)


definition num_spec :: "(bool \<times> kind) option \<Rightarrow> bool" where
  "num_spec x = (case x of Some (False, Num lo hi) \<Rightarrow> True | Some (False, IntR a b) \<Rightarrow> True | _ \<Rightarrow> False)"

lemma num_specD: "num_spec x \<Longrightarrow> (\<exists>lo hi. x = Some (False, Num lo hi)) \<or> (\<exists>a b. x = Some (False, IntR a b))"
proof (cases x)
  case (Some y)
  assume "num_spec x"
  moreover obtain nl kd where "y = (nl, kd)" by (cases y)
  ultimately show ?thesis using Some by (cases nl; cases kd) (simp_all add: num_spec_def)
qed (simp add: num_spec_def)

lemma CROSS_RULES_cases:
  assumes "r \<in> set CROSS_RULES"
  obtains
    (cap) q where "r = ([''governor.static_cap_w'', ''governor.ceiling_w''],
      cmp2 (\<lambda>a b. pf_le a (pf_add b EPS)) ''governor.static_cap_w'' ''governor.ceiling_w'', q)"
  | (rec) p q where "r = ([''governor.recover_ratio'', ''governor.shed_ratio''],
      cmp2 p ''governor.recover_ratio'' ''governor.shed_ratio'', q)"
  | (emg) p q where "r = ([''governor.emergency_ratio'', ''governor.shed_ratio''],
      cmp2 p ''governor.emergency_ratio'' ''governor.shed_ratio'', q)"
  | (thr) q where "r = ([''governor.thermal_recover_c'', ''governor.thermal_trim_c''], thermal_rule, q)"
  | (t12) p q where "r = ([''fan.t1_c'', ''fan.t2_c''], cmp2 p ''fan.t1_c'' ''fan.t2_c'', q)"
  | (t23) p q where "r = ([''fan.t2_c'', ''fan.t3_c''], cmp2 p ''fan.t2_c'' ''fan.t3_c'', q)"
  | (r12) p q where "r = ([''fan.t1_rpm'', ''fan.t2_rpm''], cmp2 p ''fan.t1_rpm'' ''fan.t2_rpm'', q)"
  | (r23) p q where "r = ([''fan.t2_rpm'', ''fan.t3_rpm''], cmp2 p ''fan.t2_rpm'' ''fan.t3_rpm'', q)"
proof -
  note rs = assms [unfolded CROSS_RULES_def list.set insert_iff empty_iff]
  from rs show thesis
    by (elim disjE FalseE) (erule cap rec emg thr t12 t23 r12 r23)+
qed

lemma rule_keys_in_SPEC:
  "r \<in> set CROSS_RULES \<Longrightarrow> k \<in> rule_keys r \<Longrightarrow> k \<noteq> ''governor.thermal_trim_c'' \<Longrightarrow>
     num_spec (dget SPEC k) \<and>
     k \<noteq> ''schema'' \<and> k \<noteq> ''governor.hard_max_w''"
  by (erule CROSS_RULES_cases; simp add: rule_keys_def; (elim disjE)?; simp add: SPEC_rule_keys num_spec_def)

lemma thermal_rule_total:
  assumes "\<exists>v. dget c ''governor.thermal_trim_c'' = Some v \<and> val_ok ''governor.thermal_trim_c'' v"
    "\<exists>f. cfg_num c ''governor.thermal_recover_c'' = Inr f"
  shows "\<exists>b. thermal_rule c = Inr b"
proof -
  obtain v where v: "dget c ''governor.thermal_trim_c'' = Some v" "val_ok ''governor.thermal_trim_c'' v"
    using assms(1) by blast
  show ?thesis
  proof (cases "v = PNone")
    case True
    with v have "thermal_rule c = Inr True" by (simp add: thermal_rule_def)
    then show ?thesis ..
  next
    case False
    with val_ok_spec [OF v(2) SPEC_rule_keys(6)] have "check_kind (Num 80 99) v = Inr (v, None)" by simp
    then obtain x where "as_float v = Some (Fin x)" using check_kind_num by blast
    with v have "\<exists>f. cfg_num c ''governor.thermal_trim_c'' = Inr f" by (simp add: cfg_num_def)
    with assms(2) False v show ?thesis by (simp add: thermal_rule_def cmp2_total)
  qed
qed

lemma CROSS_RULES_total:
  assumes "r \<in> set CROSS_RULES" "\<And>k. k \<in> rule_keys r \<Longrightarrow> \<exists>v. dget c k = Some v \<and> val_ok k v"
  shows "\<exists>b. rule_ok r c = Inr b"
proof -
  have num: "\<exists>f. cfg_num c k = Inr f" if "k \<in> rule_keys r" "k \<noteq> ''governor.thermal_trim_c''" for k
    using assms(2) [OF that(1)] rule_keys_in_SPEC [OF assms(1) that] num_specD cfg_num_ok by blast
  have c2: "\<exists>b. cmp2 p k1 k2 c = Inr b"
    if "k1 \<in> rule_keys r" "k2 \<in> rule_keys r" "k1 \<noteq> ''governor.thermal_trim_c''" "k2 \<noteq> ''governor.thermal_trim_c''" for p k1 k2
    using that num by (intro cmp2_total) auto
  have th: "\<exists>b. thermal_rule c = Inr b"
    if "''governor.thermal_trim_c'' \<in> rule_keys r" "''governor.thermal_recover_c'' \<in> rule_keys r"
    using that num assms(2) by (intro thermal_rule_total) auto
  show ?thesis
    using assms(1) c2 th by (elim CROSS_RULES_cases) (simp_all add: rule_ok_def rule_keys_def)
qed

lemma thermal_rule_local: "dget c ''governor.thermal_trim_c'' = dget c' ''governor.thermal_trim_c'' \<Longrightarrow>
    dget c ''governor.thermal_recover_c'' = dget c' ''governor.thermal_recover_c'' \<Longrightarrow> thermal_rule c = thermal_rule c'"
  using cmp2_local [of c "''governor.thermal_recover_c''" c' "''governor.thermal_trim_c''"]
  by (simp add: thermal_rule_def split: option.splits)

lemma CROSS_RULES_local:
  assumes "r \<in> set CROSS_RULES" "\<And>k. k \<in> rule_keys r \<Longrightarrow> dget c k = dget c' k"
  shows "rule_ok r c = rule_ok r c'"
proof -
  have c: "k1 \<in> rule_keys r \<Longrightarrow> k2 \<in> rule_keys r \<Longrightarrow> cmp2 p k1 k2 c = cmp2 p k1 k2 c'" for p k1 k2
    using assms(2) by (intro cmp2_local)
  have t: "''governor.thermal_trim_c'' \<in> rule_keys r \<Longrightarrow> ''governor.thermal_recover_c'' \<in> rule_keys r \<Longrightarrow>
      thermal_rule c = thermal_rule c'"
    using assms(2) by (intro thermal_rule_local)
  show ?thesis
    using assms(1) c t by (elim CROSS_RULES_cases) (simp_all add: rule_ok_def rule_keys_def)
qed

interpretation cfg_rules: rule_set CROSS_RULES val_ok
  by unfold_locales (rule CROSS_RULES_total CROSS_RULES_local; blast)+


section \<open>Validation keeps a configuration well formed\<close>

text \<open>What the first loop of \<open>validate\<close> guarantees of its result.\<close>

definition accepted_ok :: "pyval dict \<Rightarrow> bool" where
  "accepted_ok acc = (dwf acc \<and> (\<forall>k v. dget acc k = Some v \<longrightarrow> val_ok k v \<and> k \<noteq> ''schema''))"

lemma check_all_accepted:
  "check_all us (acc, rej) = Inr (acc', rej') \<Longrightarrow> accepted_ok acc \<Longrightarrow>
     accepted_ok acc' \<and> (\<forall>k. dhas acc' k \<longrightarrow> dhas acc k \<or> dhas us k)"
proof (induction us "(acc, rej)" arbitrary: acc rej rule: check_all.induct)
  case (2 key val us acc rej)
  from 2(3) obtain norm err where c: "check_one key val = Inr (norm, err)"
    and rest: "(case err of Some e \<Rightarrow> check_all us (acc, dset key e rej)
       | None \<Rightarrow> check_all us (if key \<noteq> ''schema'' then dset key norm acc else acc, rej)) = Inr (acc', rej')"
    by (auto simp: res_bind_Inr)
  show ?case
  proof (cases err)
    case (Some e)
    with 2(2) [of e] rest 2(4) show ?thesis by (auto simp: dhas_def)
  next
    case None
    have "accepted_ok (if key \<noteq> ''schema'' then dset key norm acc else acc)"
      using 2(4) check_one_stable [of key val norm] c None by (auto simp: accepted_ok_def)
    with 2(1) [of norm] rest None have "accepted_ok acc' \<and>
      (\<forall>k. dhas acc' k \<longrightarrow> dhas (if key \<noteq> ''schema'' then dset key norm acc else acc) k \<or> dhas us k)" by simp
    then show ?thesis by (auto simp: dhas_def split: if_splits)
  qed
qed auto

lemma accepted_ok_Cons: "accepted_ok ((k, v) # acc) \<Longrightarrow>
    accepted_ok acc \<and> dget acc k = None \<and> val_ok k v \<and> k \<noteq> ''schema''"
proof -
  assume a: "accepted_ok ((k, v) # acc)"
  then have d: "dwf acc" "dget acc k = None" by (auto simp: accepted_ok_def dwf_def map_of_eq_None_iff)
  have "val_ok ka va \<and> ka \<noteq> ''schema''" if "dget acc ka = Some va" for ka va
    using a d that by (cases "ka = k") (auto simp: accepted_ok_def)
  moreover have "val_ok k v \<and> k \<noteq> ''schema''" using a by (auto simp: accepted_ok_def)
  ultimately show ?thesis using d by (auto simp: accepted_ok_def)
qed

lemma live_le: "length (live_rules rules acc) < length rules + 1"
  unfolding live_rules_def by (simp add: le_imp_less_Suc)

lemma flat_ok_base: "flat_ok c \<Longrightarrow> cfg_rules.base_ok c"
proof -
  assume ok: "flat_ok c"
  have spec: "\<exists>v. dget c k = Some v \<and> val_ok k v" if "dget SPEC k = Some x" for k x
    using ok map_of_SomeD [OF that] by (fastforce simp: flat_ok_def list_all_iff split: option.splits)
  have "\<exists>v. dget c k = Some v \<and> val_ok k v" if "r \<in> set CROSS_RULES" "k \<in> rule_keys r" for r k
    using rule_keys_in_SPEC [OF that] num_specD spec SPEC_rule_keys(6) by (cases "k = ''governor.thermal_trim_c''") blast+
  then show ?thesis using ok by (auto simp: cfg_rules.base_ok_def flat_ok_def rules_ok_def list_all_iff)
qed

lemma flat_ok_merge:
  assumes "flat_ok base" "accepted_ok acc" "\<forall>r\<in>set CROSS_RULES. rule_ok r (dmerge base acc) = Inr True"
  shows "flat_ok (dmerge base acc)"
proof -
  have "case dget (dmerge base acc) k of None \<Rightarrow> False | Some v \<Rightarrow> val_ok k v" if "(k, x) \<in> set SPEC" for k x
    using assms(1,2) that
    by (cases "dget acc k") (fastforce simp: flat_ok_def accepted_ok_def list_all_iff dget_dmerge)+
  with assms(3) show ?thesis by (auto simp: flat_ok_def rules_ok_def list_all_iff)
qed

lemma validate_core:
  assumes "flat_ok (flatten base [])" "check_all updates ([], []) = Inr (acc, rej)"
  shows "\<exists>acc' rej'. validate updates base = Inr (acc', rej') \<and> accepted_ok acc' \<and>
    (\<forall>k v. dget acc' k = Some v \<longrightarrow> dget acc k = Some v \<and> dhas updates k) \<and>
    flat_ok (dmerge (flatten base []) acc')"
proof -
  have acc: "accepted_ok acc" "\<forall>k. dhas acc k \<longrightarrow> dhas updates k"
    using check_all_accepted [OF assms(2)] by (auto simp: accepted_ok_def dhas_def)
  then have "cfg_rules.entries_ok acc" "dwf acc" by (auto simp: accepted_ok_def cfg_rules.entries_ok_def)
  from cfg_rules.loop_converges [OF flat_ok_base [OF assms(1)] this live_le, of rej]
  obtain acc' rej' where l: "cross_loop CROSS_RULES (length CROSS_RULES + 1) (flatten base []) (acc, rej) = Inr (acc', rej')"
    "dwf acc'" "\<forall>k v. dget acc' k = Some v \<longrightarrow> dget acc k = Some v"
    "\<forall>r\<in>set CROSS_RULES. rule_ok r (dmerge (flatten base []) acc') = Inr True" by blast
  have a': "accepted_ok acc'" using acc l by (auto simp: accepted_ok_def)
  have "validate updates base = Inr (acc', rej')" using l(1) assms(2) by (simp add: validate_def)
  moreover have "\<forall>k v. dget acc' k = Some v \<longrightarrow> dget acc k = Some v \<and> dhas updates k"
    using l(3) acc(2) by (auto simp: dhas_def)
  ultimately show ?thesis using a' flat_ok_merge [OF assms(1) a' l(4)] by blast
qed


section \<open>Nested and flat configurations\<close>

text \<open>
  The shape every configuration of the program has: sections of plain values, names without dots,
  no name twice. On it the flat form and the dotted update agree.
\<close>

definition plain :: "pyval dict \<Rightarrow> bool" where
  "plain d = (dwf d \<and> list_all (\<lambda>(k, v). CHR ''.'' \<notin> set k \<and> \<not> is_dict v) d)"

definition shape :: "pyval dict \<Rightarrow> bool" where
  "shape cfg = (dwf cfg \<and>
     list_all (\<lambda>(k, v). CHR ''.'' \<notin> set k \<and> (case v of PDict d \<Rightarrow> plain d | _ \<Rightarrow> True)) cfg)"

lemma dwf_ConsD: "dwf ((k, v) # d) \<Longrightarrow> dwf d \<and> dget d k = None"
  by (auto simp: dwf_def map_of_eq_None_iff)

lemma dwf_flatten: "dwf (flatten cfg pre)"
  by (induction cfg pre rule: flatten.induct) (auto split: pyval.splits simp: dwf_def [of "[_]"])

lemma flatten_Cons_plain: "\<not> is_dict v \<Longrightarrow>
    flatten ((k, v) # cfg) pre = dmerge [(pre @ k, v)] (flatten cfg pre)"
  by (cases v) (auto simp: is_dict_def)

lemma flatten_plain:
  "plain d \<Longrightarrow> dget (flatten d pre) key =
     (if starts_with pre key then dget d (drop (length pre) key) else None)"
proof (induction d arbitrary: key)
  case (Cons kv d)
  obtain k v where kv: "kv = (k, v)" by (cases kv)
  with Cons.prems have v: "\<not> is_dict v" and d: "plain d" "dget d k = None"
    using dwf_ConsD [of k v d] by (auto simp: plain_def)
  have "dget (flatten (kv # d) pre) key =
      (case dget (flatten d pre) key of Some v \<Rightarrow> Some v | None \<Rightarrow> dget [(pre @ k, v)] key)"
    unfolding kv flatten_Cons_plain [OF v] by (rule dget_dmerge [OF dwf_flatten])
  also have "\<dots> = (if starts_with pre key then dget (kv # d) (drop (length pre) key) else None)"
    using Cons.IH [OF d(1), of key] d(2) kv starts_with_iff [of pre key]
    by (cases "starts_with pre key") (auto split: option.splits)
  finally show ?case .
qed simp

lemma flatten_head:
  "dget (flatten ((k, v) # cfg) []) key =
     (case dget (flatten cfg []) key of Some w \<Rightarrow> Some w
      | None \<Rightarrow> (case v of PDict d \<Rightarrow> dget (flatten d (k @ ''.'')) key | _ \<Rightarrow> if key = k then Some v else None))"
  by (cases v) (simp_all add: dget_dmerge [OF dwf_flatten] split: option.splits)

lemma starts_with_dotted:
  "CHR ''.'' \<notin> set a \<Longrightarrow> CHR ''.'' \<notin> set k \<Longrightarrow> starts_with (k @ ''.'') (a @ ''.'' @ b) \<longleftrightarrow> k = a"
  unfolding starts_with_iff
  by (auto simp: append_eq_append_conv2 append_eq_Cons_conv Cons_eq_append_conv)

lemma flatten_dotted:
  assumes "shape cfg" "CHR ''.'' \<notin> set a"
  shows "dget (flatten cfg []) (a @ ''.'' @ b) = (case dget cfg a of Some (PDict d) \<Rightarrow> dget d b | _ \<Rightarrow> None)"
  using assms(1)
proof (induction cfg)
  case (Cons kv cfg)
  obtain k v where kv: "kv = (k, v)" by (cases kv)
  with Cons.prems have sh: "shape cfg" "CHR ''.'' \<notin> set k" "dget cfg k = None" "is_dict v \<Longrightarrow> \<exists>d. v = PDict d \<and> plain d"
    using dwf_ConsD [of k v cfg] by (auto simp: shape_def is_dict_def split: pyval.splits)
  have ne: "a @ ''.'' @ b \<noteq> k" using sh(2) by auto
  show ?case
  proof (cases "is_dict v")
    case False
    then have "(case v of PDict d \<Rightarrow> dget (flatten d (k @ ''.'')) (a @ ''.'' @ b)
        | _ \<Rightarrow> if a @ ''.'' @ b = k then Some v else None) = None"
      using ne by (cases v) (simp_all add: is_dict_def)
    moreover have "(case Some v of Some (PDict d) \<Rightarrow> dget d b | _ \<Rightarrow> None) = None"
      using False by (cases v) (simp_all add: is_dict_def)
    ultimately show ?thesis unfolding kv flatten_head Cons.IH [OF sh(1)] using sh(3)
      by (cases "a = k") (simp_all del: append.simps add: option.case_eq_if)
  next
    case True
    then obtain d where d: "v = PDict d" "plain d" using sh(4) by blast
    have "dget (flatten d (k @ ''.'')) (a @ ''.'' @ b) = (if k = a then dget d b else None)"
      using flatten_plain [OF d(2)] starts_with_dotted [OF assms(2) sh(2)] by simp
    then show ?thesis unfolding kv d(1) flatten_head Cons.IH [OF sh(1)] using sh(3)
      by (cases "a = k") (simp_all add: option.case_eq_if del: append.simps)
  qed
qed simp

text \<open>One dotted update on a configuration of that shape.\<close>

lemma split_char_cut: "c \<notin> set a \<Longrightarrow> split_char c (a @ c # s) = a # split_char c s"
  by (induction a) (auto split: list.splits)

lemma split_char_no_sep: "w \<in> set (split_char c s) \<Longrightarrow> c \<notin> set w"
  by (induction s arbitrary: w) (auto split: if_splits list.splits)

lemma shape_dset:
  assumes "shape cfg" "CHR ''.'' \<notin> set a" "plain d"
  shows "shape (dset a (PDict d) cfg)"
proof -
  have "set (dset a (PDict d) cfg) \<subseteq> insert (a, PDict d) (set cfg)"
    by (induction cfg) auto
  with assms show ?thesis by (force simp: shape_def list_all_iff)
qed

lemma plain_dset:
  assumes "plain d" "CHR ''.'' \<notin> set b" "\<not> is_dict v"
  shows "plain (dset b v d)"
proof -
  have "set (dset b v d) \<subseteq> insert (b, v) (set d)" by (induction d) auto
  with assms show ?thesis by (force simp: plain_def list_all_iff)
qed

lemma set_path_dotted:
  assumes "shape cfg" "dget cfg a = Some (PDict d)" "CHR ''.'' \<notin> set a" "CHR ''.'' \<notin> set b" "\<not> is_dict v"
  shows "set_path cfg (split_char CHR ''.'' (a @ ''.'' @ b)) v = Inr (dset a (PDict (dset b v d)) cfg)"
    and "shape (dset a (PDict (dset b v d)) cfg)"
proof -
  have "split_char CHR ''.'' (a @ ''.'' @ b) = [a, b]"
    using assms(3,4) by (simp add: split_char_cut split_char_absent)
  with assms(2) show "set_path cfg (split_char CHR ''.'' (a @ ''.'' @ b)) v = Inr (dset a (PDict (dset b v d)) cfg)"
    by simp
  have "plain d" using assms(1,2) by (fastforce simp: shape_def list_all_iff dest: map_of_SomeD)
  then show "shape (dset a (PDict (dset b v d)) cfg)" using assms by (intro shape_dset plain_dset)
qed


lemma val_ok_in_SPEC: "val_ok k v \<Longrightarrow> k \<noteq> ''schema'' \<Longrightarrow> \<exists>x. dget SPEC k = Some x"
  by (auto simp: val_ok_def check_one_def split: if_splits option.splits)

lemma val_ok_not_dict: "val_ok k v \<Longrightarrow> k \<noteq> ''schema'' \<Longrightarrow> \<not> is_dict v"
  by (auto simp: val_ok_def check_one_def check_kind_def is_dict_def Let_def
      split: if_splits option.splits pyval.splits kind.splits)

lemma SPEC_dotted: "dget SPEC k = Some x \<Longrightarrow> \<exists>a b. k = a @ ''.'' @ b \<and> CHR ''.'' \<notin> set a \<and> CHR ''.'' \<notin> set b"
proof -
  assume "dget SPEC k = Some x"
  then have "k \<in> set (map fst SPEC)" by (force dest: map_of_SomeD)
  moreover have "list_all (\<lambda>k. length (split_char CHR ''.'' k) = 2) (map fst SPEC)"
    by (simp add: SPEC_def)
  ultimately obtain a b where ab: "split_char CHR ''.'' k = [a, b]"
    by (auto simp: list_all_iff numeral_2_eq_2 length_Suc_conv)
  then show ?thesis
    using join_split_char [of "CHR ''.''" k] split_char_no_sep [of _ "CHR ''.''" k] by auto
qed

definition cfg_wf :: "pyval dict \<Rightarrow> bool" where
  "cfg_wf cfg = (shape cfg \<and> flat_ok (flatten cfg []))"

lemma rules_ok_cong:
  assumes "\<And>k x. dget SPEC k = Some x \<Longrightarrow> dget c k = dget c' k"
  shows "rules_ok c = rules_ok c'"
proof -
  have "rule_ok r c = rule_ok r c'" if r: "r \<in> set CROSS_RULES" for r
  proof (rule CROSS_RULES_local [OF r])
    fix k assume "k \<in> rule_keys r"
    with rule_keys_in_SPEC [OF r this] num_specD SPEC_rule_keys(6) assms show "dget c k = dget c' k"
      by (cases "k = ''governor.thermal_trim_c''") blast+
  qed
  then show ?thesis by (auto simp: rules_ok_def list_all_iff)
qed

lemma SPEC_distinct: "distinct (map fst SPEC)"
  by (simp add: SPEC_def)

lemma flat_ok_cong:
  assumes "\<And>k x. dget SPEC k = Some x \<Longrightarrow> dget c k = dget c' k"
  shows "flat_ok c = flat_ok c'"
proof -
  have "dget c k = dget c' k" if "(k, x) \<in> set SPEC" for k x
    using assms that SPEC_distinct by (metis map_of_is_SomeI)
  then show ?thesis using rules_ok_cong [OF assms] by (auto simp: flat_ok_def list_all_iff split: prod.splits)
qed

lemma apply_updates_accepted:
  assumes "shape cfg" "\<And>k x. dget SPEC k = Some x \<Longrightarrow> dhas (flatten cfg []) k" "accepted_ok acc"
  shows "\<exists>cfg'. apply_updates cfg acc = Inr cfg' \<and> shape cfg' \<and>
    (\<forall>k x. dget SPEC k = Some x \<longrightarrow> dget (flatten cfg' []) k = dget (dmerge (flatten cfg []) acc) k)"
  using assms
proof (induction acc arbitrary: cfg)
  case Nil
  then show ?case by simp
next
  case (Cons kv acc)
  obtain k v where kv: "kv = (k, v)" by (cases kv)
  with Cons.prems(3) have acc: "accepted_ok acc" "dget acc k = None" and v: "val_ok k v" "k \<noteq> ''schema''"
    using accepted_ok_Cons [of k v acc] by auto
  obtain a b where ab: "k = a @ ''.'' @ b" "CHR ''.'' \<notin> set a" "CHR ''.'' \<notin> set b"
    using val_ok_in_SPEC [OF v] SPEC_dotted by blast
  obtain d where d: "dget cfg a = Some (PDict d)"
    using Cons.prems(2) val_ok_in_SPEC [OF v] flatten_dotted [OF Cons.prems(1) ab(2), of b] ab(1)
    by (fastforce simp: dhas_def split: option.splits pyval.splits)
  let ?c = "dset a (PDict (dset b v d)) cfg"
  have sp: "set_path cfg (split_char CHR ''.'' k) v = Inr ?c" "shape ?c"
    using set_path_dotted [OF Cons.prems(1) d ab(2,3) val_ok_not_dict [OF v]] by (simp_all add: ab(1))
  have get: "dget (flatten ?c []) k' = (if k' = k then Some v else dget (flatten cfg []) k')"
    if "dget SPEC k' = Some x" for k' x
  proof -
    obtain a' b' where ab': "k' = a' @ ''.'' @ b'" "CHR ''.'' \<notin> set a'" using SPEC_dotted [OF \<open>dget SPEC k' = Some x\<close>] by blast
    have "k' = k \<longleftrightarrow> a' = a \<and> b' = b" using ab(1,2) ab'
      by (auto simp: append_eq_append_conv2 Cons_eq_append_conv append_eq_Cons_conv)
    then show ?thesis unfolding ab'(1) flatten_dotted [OF sp(2) ab'(2)] flatten_dotted [OF Cons.prems(1) ab'(2)]
      using d by (cases "a' = a") simp_all
  qed
  have has: "dhas (flatten ?c []) k'" if "dget SPEC k' = Some x" for k' x
    using get [OF that] Cons.prems(2) [OF that] by (simp add: dhas_def)
  obtain cfg' where c': "apply_updates ?c acc = Inr cfg'" "shape cfg'"
    "\<forall>k x. dget SPEC k = Some x \<longrightarrow> dget (flatten cfg' []) k = dget (dmerge (flatten ?c []) acc) k"
    using Cons.IH [OF sp(2) _ acc(1)] has by blast
  have "dget (dmerge (flatten ?c []) acc) k' = dget (dmerge (flatten cfg []) (kv # acc)) k'"
    if "dget SPEC k' = Some x" for k' x
    using get [OF that] acc by (auto simp: kv dget_dmerge accepted_ok_def split: option.splits)
  with c' sp(1) kv show ?case by auto
qed

lemma cfg_wf_has: "cfg_wf cfg \<Longrightarrow> dget SPEC k = Some x \<Longrightarrow> \<exists>v. dget (flatten cfg []) k = Some v \<and> val_ok k v"
  by (force simp: cfg_wf_def flat_ok_def list_all_iff dest: map_of_SomeD split: option.splits)


section \<open>The defaults are well formed\<close>

definition flat2 :: "pyval dict \<Rightarrow> string \<Rightarrow> pyval option" where
  "flat2 cfg key = (let p = split_char CHR ''.'' key in
     case dget cfg (p ! 0) of Some (PDict d) \<Rightarrow> dget d (p ! 1) | _ \<Rightarrow> None)"

lemma flatten_flat2:
  assumes "shape cfg" "dget SPEC key = Some x"
  shows "dget (flatten cfg []) key = flat2 cfg key"
proof -
  obtain a b where ab: "key = a @ ''.'' @ b" "CHR ''.'' \<notin> set a" "CHR ''.'' \<notin> set b"
    using SPEC_dotted [OF assms(2)] by blast
  then show ?thesis using flatten_dotted [OF assms(1) ab(2), of b]
    by (simp add: flat2_def split_char_cut split_char_absent split: option.split pyval.split)
qed

lemma val_okI:
  assumes "(k, nl, kd) \<in> set SPEC" "(nl \<and> v = PNone) \<or> check_kind kd v = Inr (v, None)"
  shows "val_ok k v"
proof -
  have s: "dget SPEC k = Some (nl, kd)" using assms(1) SPEC_distinct by (simp add: map_of_is_SomeI)
  have "list_all (\<lambda>k. k \<noteq> ''schema'' \<and> k \<noteq> ''governor.hard_max_w'') (map fst SPEC)" by (simp add: SPEC_def)
  then have "k \<noteq> ''schema'' \<and> k \<noteq> ''governor.hard_max_w''" using assms(1) by (force simp: list_all_iff)
  with s assms(2) show ?thesis by (auto simp: val_ok_def check_one_def)
qed

lemma DEFAULTS_shape: "shape DEFAULTS"
  by (simp add: shape_def DEFAULTS_def plain_def dwf_def is_dict_def)

lemma DEFAULTS_sections:
  "dget DEFAULTS ''governor'' = Some (PDict
       [(''mode'', PStr ''static''),
        (''static_cap_w'', PInt 35), (''ceiling_w'', PInt 45), (''floor_w'', PInt 10), (''burst_w'', PInt 0),
        (''shed_ratio'', flit (88/100)), (''emergency_ratio'', flit (94/100)), (''recover_ratio'', flit (78/100)),
        (''cut_step_w'', PInt 5), (''recover_step_w'', PInt 1), (''recover_interval_s'', PInt 3),
        (''stale_timeout_s'', PInt 2),
        (''thermal_trim_c'', PInt 97), (''thermal_recover_c'', PInt 92), (''thermal_step_w'', PInt 1),
        (''thermal_interval_s'', PInt 3)])"
  "dget DEFAULTS ''gpu'' = Some (PDict [(''mode'', PStr ''auto''), (''cap_w'', PInt 15)])"
  "dget DEFAULTS ''fan'' = Some (PDict
       [(''mode'', PStr ''floor''),
        (''power_floor_w'', PInt 25), (''power_floor_rpm'', PInt 3500),
        (''t1_c'', PInt 78), (''t1_rpm'', PInt 3500), (''t2_c'', PInt 84), (''t2_rpm'', PInt 4500),
        (''t3_c'', PInt 90), (''t3_rpm'', PInt 5900),
        (''hysteresis_c'', PInt 6), (''step_down_interval_s'', PInt 20), (''max_rpm'', PInt 5900)])"
  "dget DEFAULTS ''cpu'' = Some (PDict [(''no_turbo'', PNone), (''epp'', PNone), (''max_perf_pct'', PNone)])"
  "dget DEFAULTS ''logging'' = Some (PDict [(''retention_days'', PInt 14), (''max_mib'', PInt 1024)])"
  by (simp_all add: DEFAULTS_def)

lemma DEFAULTS_recover_range: "in_range (1/2) (fl (9/10)) (Fin (fl (39/50)))"
  by code_simp

lemma DEFAULTS_values:
  "list_all (\<lambda>(k, nl, kd). case flat2 DEFAULTS k of None \<Rightarrow> False
     | Some v \<Rightarrow> (nl \<and> v = PNone) \<or> check_kind kd v = Inr (v, None)) SPEC"
  unfolding SPEC_def
  by (simp add: flat2_def DEFAULTS_sections check_kind_def in_rangeI fl_mono fl_ge Let_def not_overflows EPP_CHOICES_def
      DEFAULTS_recover_range)

text \<open>The comparisons of the rules with the tolerance \<open>EPS\<close>, without evaluating it.\<close>

lemma eps_le: "is_double a \<Longrightarrow> a \<le> b \<Longrightarrow> pf_le (Fin a) (Fin (fl (fl b + fl EPS)))"
proof -
  assume a: "is_double a" "a \<le> b"
  then have "a \<le> fl b" by (rule fl_ge)
  then show ?thesis using EPS_bounds fl_ge [of a "fl b + EPS"] a by (simp add: EPS_def)
qed

lemma eps_less: "is_double b \<Longrightarrow> is_double (b - 1) \<Longrightarrow> a < b - 1 \<Longrightarrow> pf_less (Fin a) (pf_add (Fin b) (- EPS))"
  using EPS_bounds fl_ge [of "b - 1" "b - EPS"] by (simp add: fl_exact EPS_def fl_minus)

lemma DEFAULTS_recover: "pf_le (Fin (fl (78/100))) (pf_add (pf_add (Fin (fl (88/100))) (- fl (5/100))) EPS)"
proof -
  have b: "fl (78/100) \<le> 25/32" "7/8 \<le> fl (88/100)" "fl (5/100) \<le> 1/16" by code_simp+
  then have "fl (78/100) \<le> fl (fl (88/100) - fl (5/100))" by (intro fl_ge fl_is_double) linarith
  then have "fl (78/100) \<le> fl (fl (fl (88/100) - fl (5/100)) + EPS)"
    using EPS_bounds by (intro fl_ge fl_is_double) linarith
  then show ?thesis by (simp add: EPS_def fl_minus)
qed

lemma DEFAULTS_emergency: "pf_le (pf_add (pf_add (Fin (fl (88/100))) (fl (3/100))) (- EPS)) (Fin (fl (94/100)))"
proof -
  have "fl (88/100) \<le> 113/128" "fl (3/100) \<le> 1/32" "15/16 \<le> fl (94/100)" by code_simp+
  then have "fl (fl (88/100) + fl (3/100)) \<le> fl (94/100)" by (intro fl_le fl_is_double) linarith
  then have "fl (fl (fl (88/100) + fl (3/100)) - EPS) \<le> fl (94/100)"
    using EPS_bounds by (intro fl_le fl_is_double) linarith
  then show ?thesis by (simp add: EPS_def fl_minus)
qed

lemma DEFAULTS_flat2: "num_spec (dget SPEC k) \<or> k = ''governor.thermal_trim_c'' \<Longrightarrow> dget (flatten DEFAULTS []) k = flat2 DEFAULTS k"
  using flatten_flat2 [OF DEFAULTS_shape] SPEC_rule_keys(6) num_specD by blast

lemma DEFAULTS_flat:
  "dget (flatten DEFAULTS []) ''governor.static_cap_w'' = Some (PInt 35)"
  "dget (flatten DEFAULTS []) ''governor.ceiling_w'' = Some (PInt 45)"
  "dget (flatten DEFAULTS []) ''governor.shed_ratio'' = Some (flit (88/100))"
  "dget (flatten DEFAULTS []) ''governor.emergency_ratio'' = Some (flit (94/100))"
  "dget (flatten DEFAULTS []) ''governor.recover_ratio'' = Some (flit (78/100))"
  "dget (flatten DEFAULTS []) ''governor.thermal_trim_c'' = Some (PInt 97)"
  "dget (flatten DEFAULTS []) ''governor.thermal_recover_c'' = Some (PInt 92)"
  "dget (flatten DEFAULTS []) ''fan.t1_c'' = Some (PInt 78)"
  "dget (flatten DEFAULTS []) ''fan.t2_c'' = Some (PInt 84)"
  "dget (flatten DEFAULTS []) ''fan.t3_c'' = Some (PInt 90)"
  "dget (flatten DEFAULTS []) ''fan.t1_rpm'' = Some (PInt 3500)"
  "dget (flatten DEFAULTS []) ''fan.t2_rpm'' = Some (PInt 4500)"
  "dget (flatten DEFAULTS []) ''fan.t3_rpm'' = Some (PInt 5900)"
  by (simp_all add: DEFAULTS_flat2 SPEC_rule_keys num_spec_def flat2_def DEFAULTS_sections)

lemma DEFAULTS_cmp: "pf_le (Fin 92) (pf_add (pf_add (Fin 97) (- 2)) EPS)"
  "pf_less (Fin 78) (pf_add (Fin 84) (- EPS))" "pf_less (Fin 84) (pf_add (Fin 90) (- EPS))"
  "pf_le (Fin 35) (pf_add (Fin 45) EPS)" "pf_le (Fin 3500) (Fin 4500)" "pf_le (Fin 4500) (Fin 5900)"
  using eps_le [of 92 95] eps_le [of 35 45] eps_less [of 84 78] eps_less [of 90 84] by simp_all

lemma DEFAULTS_rules: "rules_ok (flatten DEFAULTS [])"
  unfolding rules_ok_def CROSS_RULES_def list.pred_inject rule_ok_def fst_conv snd_conv thermal_rule_def cmp2_def
    cfg_num_def DEFAULTS_flat
  using DEFAULTS_cmp DEFAULTS_recover DEFAULTS_emergency by simp

lemma DEFAULTS_wf: "cfg_wf DEFAULTS"
proof -
  have "case dget (flatten DEFAULTS []) k of None \<Rightarrow> False | Some v \<Rightarrow> val_ok k v"
    if "(k, nl, kd) \<in> set SPEC" for k nl kd
  proof -
    have "dget SPEC k = Some (nl, kd)" using that SPEC_distinct by (simp add: map_of_is_SomeI)
    then have "dget (flatten DEFAULTS []) k = flat2 DEFAULTS k" by (rule flatten_flat2 [OF DEFAULTS_shape])
    with DEFAULTS_values that val_okI [OF that] show ?thesis
      by (fastforce simp: list_all_iff split: option.splits)
  qed
  then show ?thesis using DEFAULTS_rules DEFAULTS_shape by (auto simp: cfg_wf_def flat_ok_def list_all_iff)
qed

section \<open>Reading and writing the file\<close>

text \<open>
  What \<open>open\<close> and \<open>json.load\<close> give: no such file, an \<open>OSError\<close> or \<open>ValueError\<close> with its text,
  or the parsed value.
\<close>

datatype read_outcome = FileMissing | Unreadable string | Parsed pyval

definition load :: "read_outcome \<Rightarrow> (pyval dict \<times> string dict) res" where
  "load outcome =
    (case outcome of
       FileMissing \<Rightarrow> Inr (defaults, [])
     | Unreadable exc \<Rightarrow> Inr (defaults, [(''<file>'', ''unreadable, using defaults: '' @ exc)])
     | Parsed raw \<Rightarrow> from_dict raw)"

text \<open>
  \<open>save\<close> on a file system \<open>path \<rightharpoonup> contents\<close>. \<open>tmp\<close> is the name \<open>mkstemp\<close> chose, \<open>text\<close> what
  \<open>json.dump\<close> and the final newline write. \<open>fault\<close> names the call that raises; a failing write
  leaves what it had written so far. The result has the file systems after each call, so that a
  power loss between two calls is a prefix of it.
\<close>

datatype save_fault = NoFault | MkdirFault | MkstempFault | WriteFault string | ChmodFault | ReplaceFault

definition save_unlink :: "bool \<Rightarrow> string \<Rightarrow> files \<Rightarrow> files" where
  "save_unlink unlink_ok tmp fs = (if unlink_ok then fs(tmp := None) else fs)"

definition save :: "save_fault \<Rightarrow> bool \<Rightarrow> string \<Rightarrow> string \<Rightarrow> string \<Rightarrow> files \<Rightarrow> files list \<times> unit res" where
  "save fault unlink_ok tmp path contents fs =
    (if fault = MkdirFault then ([fs], Inl (OSError ''makedirs''))
     else if fault = MkstempFault then ([fs], Inl (OSError ''mkstemp''))
     else
       let fs1 = fs(tmp \<mapsto> []) in
       (case fault of
          WriteFault part \<Rightarrow> ([fs, fs1, fs1(tmp \<mapsto> part), save_unlink unlink_ok tmp (fs1(tmp \<mapsto> part))], Inl (OSError ''write''))
        | _ \<Rightarrow>
          let fs2 = fs1(tmp \<mapsto> contents) in
          if fault = ChmodFault then ([fs, fs1, fs2, save_unlink unlink_ok tmp fs2], Inl (OSError ''chmod''))
          else if fault = ReplaceFault then ([fs, fs1, fs2, save_unlink unlink_ok tmp fs2], Inl (OSError ''replace''))
          else ([fs, fs1, fs2, fs2(path \<mapsto> contents, tmp := None)], Inr ())))"

section \<open>Properties of the configuration\<close>

lemma validate_raises:
  assumes "flat_ok (flatten base [])" "validate updates base = Inl e"
  shows "check_all updates ([], []) = Inl e"
  using assms validate_core [OF assms(1), of updates]
  by (cases "check_all updates ([], [])") (auto simp: validate_def)

lemma check_all_raises: "check_all us ar = Inl e \<Longrightarrow> \<exists>k v. (k, v) \<in> set us \<and> check_one k v = Inl e"
proof (induction us ar rule: check_all.induct)
  case (2 key v us accepted rejected)
  show ?case
  proof (cases "check_one key v")
    case (Inl x)
    with "2.prems" show ?thesis by auto
  next
    case (Inr x)
    obtain norm err where x: "x = (norm, err)" by (cases x)
    with Inr "2.prems" "2.IH" show ?thesis by (cases err) (simp_all, blast+)
  qed
qed simp

lemma validate_apply:
  assumes "cfg_wf base" "validate updates base = Inr (acc, rej)"
  shows "\<exists>cfg'. apply_updates base acc = Inr cfg' \<and> cfg_wf cfg' \<and>
    (\<forall>k x. dget SPEC k = Some x \<longrightarrow> dget (flatten cfg' []) k =
       (case dget acc k of Some v \<Rightarrow> Some v | None \<Rightarrow> dget (flatten base []) k)) \<and>
    (\<forall>k. dhas acc k \<longrightarrow> dhas updates k)"
proof -
  have fb: "flat_ok (flatten base [])" and sh: "shape base" using assms(1) by (auto simp: cfg_wf_def)
  obtain a r where "check_all updates ([], []) = Inr (a, r)"
    using assms(2) by (cases "check_all updates ([], [])") (auto simp: validate_def)
  from validate_core [OF fb this] assms(2)
  have acc: "accepted_ok acc" "\<forall>k v. dget acc k = Some v \<longrightarrow> dhas updates k"
    and m: "flat_ok (dmerge (flatten base []) acc)" by auto
  have h: "dhas (flatten base []) k" if "dget SPEC k = Some x" for k x
    unfolding dhas_def using cfg_wf_has [OF assms(1) that] by auto
  obtain cfg' where
    c: "apply_updates base acc = Inr cfg'" "shape cfg'"
    "\<forall>k x. dget SPEC k = Some x \<longrightarrow> dget (flatten cfg' []) k = dget (dmerge (flatten base []) acc) k"
    using apply_updates_accepted [OF sh _ acc(1)] h by blast
  then have "flat_ok (flatten cfg' [])" using m flat_ok_cong [of "flatten cfg' []" "dmerge (flatten base []) acc"] by blast
  with c acc show ?thesis by (auto simp: cfg_wf_def dget_dmerge accepted_ok_def dhas_def)
qed

text \<open>
  C3: on a well-formed configuration, \<open>validate\<close> raises only when \<open>_check_one\<close> raises on one of the
  updates; otherwise applying what it accepted succeeds and gives a well-formed configuration
  again (every key acceptable to \<open>_check_one\<close>, every cross-field rule true), in which exactly the
  accepted keys, all of them among the updates, have new values.
\<close>

theorem validate_sound:
  assumes "cfg_wf base"
  shows "case validate updates base of
      Inl e \<Rightarrow> \<exists>k v. (k, v) \<in> set updates \<and> check_one k v = Inl e
    | Inr (acc, rej) \<Rightarrow> \<exists>cfg'. apply_updates base acc = Inr cfg' \<and> cfg_wf cfg' \<and>
        (\<forall>k x. dget SPEC k = Some x \<longrightarrow> dget (flatten cfg' []) k =
           (case dget acc k of Some v \<Rightarrow> Some v | None \<Rightarrow> dget (flatten base []) k)) \<and>
        (\<forall>k. dhas acc k \<longrightarrow> dhas updates k)"
proof (cases "validate updates base")
  case (Inl e)
  have "flat_ok (flatten base [])" using assms by (simp add: cfg_wf_def)
  from check_all_raises [OF validate_raises [OF this Inl]] Inl show ?thesis by simp
next
  case (Inr ar)
  with validate_apply [OF assms] show ?thesis by (cases ar) simp
qed

lemma check_one_witness:
  "check_one ''governor.ceiling_w'' (PInt 40) = Inr (PInt 40, None)"
  "check_one ''governor.static_cap_w'' (PInt 25) = Inr (PInt 25, None)"
  "check_one ''gpu.cap_w'' (PInt 99) = Inr (PInt 99, Some ''out of range 5..35'')"
  apply (simp add: check_one_def SPEC_rule_keys check_kind_def in_rangeI)
  apply (simp add: check_one_def SPEC_rule_keys check_kind_def in_rangeI)
  apply code_simp
  done

lemma validate_witness:
  "validate [(''governor.ceiling_w'', PInt 40), (''governor.static_cap_w'', PInt 25), (''gpu.cap_w'', PInt 99)] DEFAULTS =
     Inr ([(''governor.ceiling_w'', PInt 40), (''governor.static_cap_w'', PInt 25)], [(''gpu.cap_w'', ''out of range 5..35'')])"
proof -
  have "pf_le (Fin 25) (pf_add (Fin 40) EPS)" using eps_le [of 25 40] by simp
  then show ?thesis using DEFAULTS_cmp DEFAULTS_recover DEFAULTS_emergency
    by (simp add: validate_def check_one_witness CROSS_RULES_def cmp2_def cfg_num_def thermal_rule_def DEFAULTS_flat del: pf_le.simps pf_less.simps pf_add.simps)
qed

theorem validate_sound_witness:
  "cfg_wf DEFAULTS \<and> (\<exists>cfg'. apply_updates DEFAULTS [(''governor.ceiling_w'', PInt 40), (''governor.static_cap_w'', PInt 25)] = Inr cfg' \<and>
     cfg_wf cfg' \<and> dget (flatten cfg' []) ''governor.ceiling_w'' = Some (PInt 40) \<and>
     dget (flatten cfg' []) ''governor.shed_ratio'' = Some (flit (88/100)))"
proof -
  obtain cfg' where c: "apply_updates DEFAULTS [(''governor.ceiling_w'', PInt 40), (''governor.static_cap_w'', PInt 25)] = Inr cfg'"
    "cfg_wf cfg'" and k: "\<And>k x. dget SPEC k = Some x \<Longrightarrow> dget (flatten cfg' []) k =
      (case dget [(''governor.ceiling_w'', PInt 40), (''governor.static_cap_w'', PInt 25)] k of Some v \<Rightarrow> Some v
       | None \<Rightarrow> dget (flatten DEFAULTS []) k)"
    using validate_sound [OF DEFAULTS_wf, of "[(''governor.ceiling_w'', PInt 40), (''governor.static_cap_w'', PInt 25), (''gpu.cap_w'', PInt 99)]",
        unfolded validate_witness sum.case prod.case] by blast
  show ?thesis
    using DEFAULTS_wf c k [OF SPEC_rule_keys(2)] k [OF SPEC_rule_keys(3)] by (simp add: DEFAULTS_flat)
qed

section \<open>Termination of the rounds over the cross rules\<close>

lemma cross_pass_noop: "\<forall>r\<in>set rs. rule_ok r merged = Inr True \<Longrightarrow> cross_pass merged rs ar b = Inr (fst ar, snd ar, b)"
proof (induction rs)
  case (Cons r rs)
  then show ?case by (cases ar; cases r) (simp add: rule_ok_def)
qed (cases ar, simp)

lemma cross_loop_stable:
  assumes "\<forall>r\<in>set rules. rule_ok r (dmerge base acc') = Inr True"
  shows "cross_loop rules n base (acc, rej) = Inr (acc', rej') \<Longrightarrow> cross_loop rules (n + m) base (acc, rej) = Inr (acc', rej')"
proof (induction n arbitrary: acc rej)
  case 0
  then show ?case using cross_pass_noop [OF assms, of "(acc', rej')" False] by (cases m) auto
next
  case (Suc n)
  then obtain a1 r1 b1 where c: "cross_pass (dmerge base acc) rules (acc, rej) False = Inr (a1, r1, b1)" by (auto simp: res_bind_Inr)
  show ?case using Suc c by (cases b1) simp_all
qed

text \<open>
  C4: the loop of \<open>validate\<close> over the cross rules ends by itself within the rounds it is given: on what it
  returns another pass over the rules changes nothing, and any larger number of rounds gives the same
  result.
\<close>

theorem validate_rounds_enough:
  assumes "cfg_wf base" "validate updates base = Inr (acc, rej)"
  shows "cross_pass (dmerge (flatten base []) acc) CROSS_RULES (acc, rej) False = Inr (acc, rej, False) \<and>
    (\<exists>ar. check_all updates ([], []) = Inr ar \<and> (\<forall>m. cross_loop CROSS_RULES (length CROSS_RULES + 1 + m) (flatten base []) ar = Inr (acc, rej)))"
proof -
  obtain a r where c: "check_all updates ([], []) = Inr (a, r)" and l: "cross_loop CROSS_RULES (length CROSS_RULES + 1) (flatten base []) (a, r) = Inr (acc, rej)"
    using assms(2) by (auto simp: validate_def res_bind_Inr)
  have "flat_ok (flatten base [])" using assms(1) by (simp add: cfg_wf_def)
  from validate_core [OF this c] assms(2) have "flat_ok (dmerge (flatten base []) acc)" by auto
  then have ok: "\<forall>r\<in>set CROSS_RULES. rule_ok r (dmerge (flatten base []) acc) = Inr True" by (simp add: flat_ok_def rules_ok_def list_all_iff)
  from cross_pass_noop [OF ok, of "(acc, rej)" False] cross_loop_stable [OF ok l] c show ?thesis by simp
qed

theorem validate_rounds_enough_witness:
  "\<exists>acc rej. validate [(''governor.ceiling_w'', PInt 40), (''governor.static_cap_w'', PInt 25), (''gpu.cap_w'', PInt 99)] DEFAULTS = Inr (acc, rej) \<and>
     cross_pass (dmerge (flatten DEFAULTS []) acc) CROSS_RULES (acc, rej) False = Inr (acc, rej, False)"
  using validate_rounds_enough [OF DEFAULTS_wf validate_witness] validate_witness by blast

lemma load_wf:
  assumes "load outcome = Inr (cfg, problems)"
  shows "cfg_wf cfg"
proof -
  have "cfg_wf cfg" if "from_dict raw = Inr (cfg, problems)" for raw
    using that validate_apply [OF DEFAULTS_wf] DEFAULTS_wf
    by (cases raw) (force simp: from_dict_def defaults_def res_bind_Inr)+
  with assms DEFAULTS_wf show ?thesis by (auto simp: load_def defaults_def split: read_outcome.splits)
qed

text \<open>
  C5: whatever the configuration file holds (missing, unreadable, not an object, unknown keys, wrong
  values), when \<open>load\<close> returns, the configuration it returns is well formed.
\<close>

theorem load_sound:
  assumes "load outcome = Inr (cfg, problems)"
  shows "cfg_wf cfg"
  using load_wf [OF assms] .

theorem load_sound_witness:
  "\<exists>cfg problems. load (Parsed (PDict [(''governor'', PDict [(''ceiling_w'', PInt 40), (''static_cap_w'', PInt 25)]), (''gpu'', PDict [(''cap_w'', PInt 99)])]))
     = Inr (cfg, problems) \<and> cfg_wf cfg \<and> dhas problems ''gpu.cap_w''"
proof -
  let ?o = "Parsed (PDict [(''governor'', PDict [(''ceiling_w'', PInt 40), (''static_cap_w'', PInt 25)]), (''gpu'', PDict [(''cap_w'', PInt 99)])])"
  have "\<exists>cfg. load ?o = Inr (cfg, [(''gpu.cap_w'', ''out of range 5..35'')])"
    using validate_apply [OF DEFAULTS_wf validate_witness]
    by (auto simp: load_def from_dict_def validate_witness defaults_def)
  then obtain cfg where "load ?o = Inr (cfg, [(''gpu.cap_w'', ''out of range 5..35'')])" by blast
  with load_sound [OF this] show ?thesis by (auto simp: dhas_def)
qed

text \<open>
  C6: a power loss during \<open>save\<close>, or an error in any of its calls, leaves the configuration file
  with its old or its complete new contents, never a part; after an error it is the old, and
  nothing remains of the temporary file unless removing it failed too.
\<close>

theorem save_atomic:
  assumes "fs tmp = None" "tmp \<noteq> path" "save fault unlink_ok tmp path contents fs = (trace, r)"
  shows "(\<forall>fs'\<in>set trace. fs' path = fs path \<or> fs' path = Some contents) \<and>
    (\<forall>fs'\<in>set trace. \<forall>p. p \<noteq> path \<and> p \<noteq> tmp \<longrightarrow> fs' p = fs p) \<and>
    (case r of Inr _ \<Rightarrow> last trace = fs(path \<mapsto> contents)
     | Inl _ \<Rightarrow> last trace path = fs path \<and> (unlink_ok \<longrightarrow> last trace = fs))"
proof -
  have u: "fs(tmp := None) = fs" "fs(path \<mapsto> contents, tmp := None) = fs(path \<mapsto> contents)"
    using assms by (auto simp: fun_eq_iff)
  show ?thesis using assms(2,3) by (cases fault) (auto simp: save_def save_unlink_def Let_def u)
qed

theorem save_atomic_witness:
  "let fs = Map.empty(''/etc/turbomac/config.json'' \<mapsto> ''old'') in
   (\<lambda>(trace, r). r = Inl (OSError ''write'') \<and> last trace = fs)
     (save (WriteFault ''ne'') True ''/etc/turbomac/.config-x'' ''/etc/turbomac/config.json'' ''new'' fs)"
  using save_atomic [of "Map.empty(''/etc/turbomac/config.json'' \<mapsto> ''old'')" "''/etc/turbomac/.config-x''" "''/etc/turbomac/config.json''"
      "WriteFault ''ne''" True "''new''"]
  by (auto simp: Let_def save_def)

text \<open>
  \<open>validate\<close> can reject a key that was not among the updates: raising \<open>shed_ratio\<close> together with
  \<open>recover_ratio\<close> breaks two rules in one pass; the first drops both updates, so the second finds
  no updated key and blames \<open>emergency_ratio\<close>, which keeps its value.
\<close>

theorem validate_blames_other_key:
  "\<exists>rej. validate [(''governor.recover_ratio'', PFloat (Fin (7/8))), (''governor.shed_ratio'', PFloat (Fin (59/64)))] DEFAULTS =
     Inr ([], rej) \<and> dget rej ''governor.emergency_ratio'' = Some ''emergency_ratio must be >= shed_ratio + 0.03''"
proof -
  have "fl (70/100) \<le> 59/64" "59/64 \<le> fl (95/100)" "7/8 \<le> fl (90/100)" by code_simp+
  then have c: "check_one ''governor.recover_ratio'' (PFloat (Fin (7/8))) = Inr (PFloat (Fin (7/8)), None)"
    "check_one ''governor.shed_ratio'' (PFloat (Fin (59/64))) = Inr (PFloat (Fin (59/64)), None)"
    by (simp_all add: check_one_def SPEC_rule_keys check_kind_def in_rangeI)
  have f: "fl (893/1024) = 893/1024" "fl (895/1024) = 895/1024" "fl (487/512) = 487/512" "fl (486/512) = 486/512"
    "fl (59/64) = 59/64" "51/1024 \<le> fl (5/100)" "15/512 \<le> fl (3/100)" "fl (94/100) \<le> 482/512" by code_simp+
  have "fl (59/64 - fl (5/100)) \<le> 893/1024" using f(1,6) fl_mono [of "59/64 - fl (5/100)" "893/1024"] by simp
  then have "fl (fl (59/64 - fl (5/100)) + EPS) \<le> 895/1024"
    using f(2) EPS_bounds fl_mono [of "fl (59/64 - fl (5/100)) + EPS" "895/1024"] by simp
  moreover have "487/512 \<le> fl (59/64 + fl (3/100))" using f(3,7) fl_mono [of "487/512" "59/64 + fl (3/100)"] by simp
  then have "486/512 \<le> fl (fl (59/64 + fl (3/100)) - EPS)"
    using f(4) EPS_bounds fl_mono [of "486/512" "fl (59/64 + fl (3/100)) - EPS"] by simp
  ultimately have n: "\<not> pf_le (Fin (7/8)) (pf_add (pf_add (Fin (59/64)) (- fl (5/100))) EPS)"
    "\<not> pf_le (pf_add (pf_add (Fin (59/64)) (fl (3/100))) (- EPS)) (Fin (fl (94/100)))"
    using f(8) by (simp_all add: fl_minus EPS_def f(5))
  show ?thesis using DEFAULTS_cmp DEFAULTS_recover DEFAULTS_emergency n
    by (simp add: validate_def c CROSS_RULES_def cmp2_def cfg_num_def thermal_rule_def DEFAULTS_flat culprits_def dhas_def dsetdefault_def del: pf_le.simps pf_less.simps pf_add.simps)
qed

text \<open>
  An infinite value for an integer key makes \<open>_check_one\<close>, and with it \<open>load\<close>, raise \<open>OverflowError\<close>
  instead of rejecting the key.
\<close>

theorem load_overflow:
  "load (Parsed (PDict [(''fan'', PDict [(''max_rpm'', PFloat PosInf)])])) =
     Inl (OverflowError ''cannot convert float infinity to integer'')"
proof -
  have "check_one ''fan.max_rpm'' (PFloat PosInf) = Inl (OverflowError ''cannot convert float infinity to integer'')"
    by (simp add: check_one_def SPEC_def check_kind_def)
  then show ?thesis by (simp add: load_def from_dict_def validate_def)
qed

section \<open>Reading a section\<close>

text \<open>
  \<open>config["governor"]["floor_w"]\<close> and the like. On a well-formed configuration every key of \<open>SPEC\<close> is
  there and its number is within its range.
\<close>

definition cfg_section :: "pyval dict \<Rightarrow> string \<Rightarrow> pyval dict res" where
  "cfg_section cfg sec = (case dget cfg sec of None \<Rightarrow> Inl (KeyError sec) | Some (PDict d) \<Rightarrow> Inr d | Some _ \<Rightarrow> Inl (TypeError sec))"

definition sect_val :: "pyval dict \<Rightarrow> string \<Rightarrow> pyval res" where
  "sect_val d k = (case dget d k of None \<Rightarrow> Inl (KeyError k) | Some v \<Rightarrow> Inr v)"

definition sect_num :: "pyval dict \<Rightarrow> string \<Rightarrow> rat res" where
  "sect_num d k = res_bind (sect_val d k) (\<lambda>v. case as_float v of Some (Fin x) \<Rightarrow> Inr x | _ \<Rightarrow> Inl (TypeError k))"

definition sect_onum :: "pyval dict \<Rightarrow> string \<Rightarrow> rat option res" where
  "sect_onum d k = res_bind (sect_val d k) (\<lambda>v. if v = PNone then Inr None
     else case as_float v of Some (Fin x) \<Rightarrow> Inr (Some x) | _ \<Rightarrow> Inl (TypeError k))"

definition sect_str :: "pyval dict \<Rightarrow> string \<Rightarrow> string res" where
  "sect_str d k = res_bind (sect_val d k) (\<lambda>v. case v of PStr s \<Rightarrow> Inr s | _ \<Rightarrow> Inl (TypeError k))"

lemma SPEC_not_special: "dget SPEC k = Some x \<Longrightarrow> k \<noteq> ''schema'' \<and> k \<noteq> ''governor.hard_max_w''"
proof -
  assume "dget SPEC k = Some x"
  then have "k \<in> fst ` set SPEC" by (metis domI dom_map_of_conv_image_fst)
  moreover have "''schema'' \<notin> fst ` set SPEC" "''governor.hard_max_w'' \<notin> fst ` set SPEC" by (simp_all add: SPEC_def)
  ultimately show ?thesis by blast
qed

lemma cfg_wf_key:
  assumes "cfg_wf cfg" "dget SPEC (sec @ ''.'' @ k) = Some (nl, kd)" "CHR ''.'' \<notin> set sec"
  shows "\<exists>d v. cfg_section cfg sec = Inr d \<and> sect_val d k = Inr v \<and> ((nl \<and> v = PNone) \<or> check_kind kd v = Inr (v, None))"
proof -
  obtain v where v: "dget (flatten cfg []) (sec @ ''.'' @ k) = Some v" "val_ok (sec @ ''.'' @ k) v"
    using cfg_wf_has [OF assms(1,2)] by auto
  have "shape cfg" using assms(1) by (simp add: cfg_wf_def)
  from flatten_dotted [OF this assms(3), of k] v(1)
  obtain d where "dget cfg sec = Some (PDict d)" "dget d k = Some v" by (auto split: option.splits pyval.splits)
  moreover have "(nl \<and> v = PNone) \<or> check_kind kd v = Inr (v, None)"
    using val_ok_spec [OF v(2) assms(2)] SPEC_not_special [OF assms(2)] by blast
  ultimately show ?thesis by (auto simp: cfg_section_def sect_val_def)
qed

lemma cfg_wf_num:
  assumes "cfg_wf cfg" "cfg_section cfg sec = Inr d" "dget SPEC (sec @ ''.'' @ k) = Some (False, Num lo hi)" "CHR ''.'' \<notin> set sec"
  shows "\<exists>x. sect_num d k = Inr x \<and> in_range lo hi (Fin x)"
  using cfg_wf_key [OF assms(1,3,4)] assms(2) check_kind_num by (fastforce simp: sect_num_def)

lemma cfg_wf_onum:
  assumes "cfg_wf cfg" "cfg_section cfg sec = Inr d" "dget SPEC (sec @ ''.'' @ k) = Some (True, Num lo hi)" "CHR ''.'' \<notin> set sec"
  shows "\<exists>x. sect_onum d k = Inr x \<and> (case x of None \<Rightarrow> True | Some y \<Rightarrow> in_range lo hi (Fin y))"
proof -
  obtain v where v: "sect_val d k = Inr v" "v = PNone \<or> check_kind (Num lo hi) v = Inr (v, None)"
    using cfg_wf_key [OF assms(1,3,4)] assms(2) by auto
  show ?thesis
  proof (cases "v = PNone")
    case True
    with v(1) show ?thesis by (simp add: sect_onum_def)
  next
    case False
    with v check_kind_num [of lo hi v v] show ?thesis by (auto simp: sect_onum_def)
  qed
qed

lemma cfg_wf_int:
  assumes "cfg_wf cfg" "cfg_section cfg sec = Inr d" "dget SPEC (sec @ ''.'' @ k) = Some (False, IntR lo hi)" "CHR ''.'' \<notin> set sec"
  shows "\<exists>n. sect_val d k = Inr (PInt n) \<and> sect_num d k = Inr (of_int n) \<and> in_range (of_int lo) (of_int hi) (Fin (of_int n))"
  using cfg_wf_key [OF assms(1,3,4)] assms(2) check_kind_int [of lo hi] by (fastforce simp: sect_num_def)

lemma cfg_wf_choice:
  assumes "cfg_wf cfg" "cfg_section cfg sec = Inr d" "dget SPEC (sec @ ''.'' @ k) = Some (False, Choice cs)" "CHR ''.'' \<notin> set sec"
  shows "\<exists>s. sect_str d k = Inr s \<and> s \<in> set cs"
proof -
  obtain v where v: "sect_val d k = Inr v" "check_kind (Choice cs) v = Inr (v, None)"
    using cfg_wf_key [OF assms(1,3,4)] assms(2) by auto
  then show ?thesis by (cases v) (auto simp: sect_str_def check_kind_def split: if_splits)
qed

text \<open>The tolerance \<open>_EPS\<close> of a range is below an eighth of a unit.\<close>

definition near_range :: "rat \<Rightarrow> rat \<Rightarrow> rat \<Rightarrow> bool" where
  "near_range lo hi x = (lo - 1 / 8 \<le> x \<and> x \<le> hi + 1 / 8)"

lemma in_range_near: "in_range lo hi (Fin x) \<Longrightarrow> is_double (lo - 1 / 8) \<Longrightarrow> is_double (hi + 1 / 8) \<Longrightarrow> near_range lo hi x"
  using fl_ge [of "lo - 1/8" "lo - EPS"] fl_le [of "hi + 1/8" "hi + EPS"] EPS_bounds by (simp add: in_range_def near_range_def)

end
