(* ===== verification/Governor.thy ===== *)
theory Governor
  imports Config
begin

text \<open>
  \<open>src/linux/turbomac/daemon/governor.py\<close>: the pure power governor. \<open>gov_step\<close> is \<open>step\<close>, composed of the
  phases of its body in their order; the working copy \<open>_Step\<close> is the pair of the state and the
  actions emitted so far. Times and watts are doubles; a time of minus infinity is \<open>None\<close>.
  The second half has the facts every path through the step keeps and the bounds of the dynamic
  branch; the properties are in \<open>Governor_Props\<close>.
\<close>

section \<open>State, configuration, sample, actions\<close>

datatype gstate = NORMAL | TRIM | EMERGENCY | FALLBACK | STATIC | OFF

definition REASSERT_S :: rat where "REASSERT_S = 10"
definition CUT_MIN_INTERVAL_S :: rat where "CUT_MIN_INTERVAL_S = 1 / 2"
definition EMERGENCY_HOLD_S :: rat where "EMERGENCY_HOLD_S = 5"
definition BACKOFF_MAX_S :: rat where "BACKOFF_MAX_S = 8"
definition INPUT_MODEL :: "rat \<times> rat" where "INPUT_MODEL = (8, fl (124 / 100))"

record gov_counters =
  cuts :: nat
  emergencies :: nat
  fallbacks :: nat
  recoveries :: nat
  writes :: nat
  readback_failures :: nat
  thermal_trims :: nat

record gov_state =
  s_state :: gstate
  s_since :: rat
  s_started :: rat
  s_pl1_w :: "rat option"
  s_pl2_w :: "rat option"
  s_last_write :: "rat option"
  s_last_cut :: "rat option"
  s_last_valid :: "rat option"
  s_last_step :: "rat option"
  s_below_shed_since :: "rat option"
  s_below_recover_since :: "rat option"
  s_fallback_reason :: "string option"
  s_retry_at :: "rat option"
  s_backoff_s :: rat
  s_fw_pl1_w :: "rat option"
  s_fw_pl2_w :: "rat option"
  s_last_action :: "string option"
  s_thermal_cap_w :: "rat option"
  s_last_thermal :: "rat option"
  s_counters :: gov_counters
  s_time_in_state :: "(gstate \<times> rat) list"

text \<open>The section \<open>governor\<close> of a configuration, read by name.\<close>

record gov_cfg =
  g_mode :: string
  g_static_cap_w :: rat
  g_ceiling_w :: rat
  g_floor_w :: rat
  g_burst_w :: rat
  g_shed_ratio :: rat
  g_emergency_ratio :: rat
  g_recover_ratio :: rat
  g_cut_step_w :: rat
  g_recover_step_w :: rat
  g_recover_interval_s :: rat
  g_stale_timeout_s :: rat
  g_thermal_trim_c :: "rat option"
  g_thermal_recover_c :: rat
  g_thermal_step_w :: rat
  g_thermal_interval_s :: rat

text \<open>The entries of the sample the governor reads; \<open>PNone\<close> where the key is absent.\<close>

record gov_sample =
  m_pdtr_w :: pyval
  m_input_mean_1s :: pyval
  m_acpw_w :: pyval
  m_pkg_c :: pyval
  m_readback :: "(bool \<times> string) option"

datatype action = SetLimits rat rat string | Event string "pyval dict"

type_synonym wstep = "gov_state \<times> action list"

abbreviation pnum :: "rat \<Rightarrow> pyval" where "pnum x \<equiv> PFloat (Fin x)"

definition zero_counters :: gov_counters where
  "zero_counters = \<lparr>cuts = 0, emergencies = 0, fallbacks = 0, recoveries = 0, writes = 0, readback_failures = 0,
     thermal_trims = 0\<rparr>"

definition gov_initial :: "rat \<Rightarrow> rat option \<Rightarrow> rat option \<Rightarrow> gov_state" where
  "gov_initial now fw1 fw2 =
    \<lparr>s_state = OFF, s_since = now, s_started = now, s_pl1_w = None, s_pl2_w = None, s_last_write = None,
     s_last_cut = None, s_last_valid = None, s_last_step = None, s_below_shed_since = None,
     s_below_recover_since = None, s_fallback_reason = None, s_retry_at = None, s_backoff_s = 0,
     s_fw_pl1_w = fw1, s_fw_pl2_w = fw2, s_last_action = None, s_thermal_cap_w = None, s_last_thermal = None,
     s_counters = zero_counters, s_time_in_state = []\<rparr>"

text \<open>\<open>thresholds\<close>: (shed, emergency, recover) watts, \<open>None\<close> when the adapter power is absent or zero.\<close>

definition thresholds :: "rat option \<Rightarrow> gov_cfg \<Rightarrow> (rat \<times> rat \<times> rat) option" where
  "thresholds acpw g = (case acpw of None \<Rightarrow> None | Some a \<Rightarrow>
     if a = 0 then None
     else Some (fmul a (g_shed_ratio g), fmul a (g_emergency_ratio g), fmul a (g_recover_ratio g)))"

definition predicted_input_w :: "rat \<Rightarrow> rat" where
  "predicted_input_w package_w = fadd (fst INPUT_MODEL) (fmul (snd INPUT_MODEL) package_w)"

definition state_name :: "gstate \<Rightarrow> string" where
  "state_name st = (case st of NORMAL \<Rightarrow> ''NORMAL'' | TRIM \<Rightarrow> ''TRIM'' | EMERGENCY \<Rightarrow> ''EMERGENCY''
     | FALLBACK \<Rightarrow> ''FALLBACK'' | STATIC \<Rightarrow> ''STATIC'' | OFF \<Rightarrow> ''OFF'')"

definition state_lower :: "gstate \<Rightarrow> string" where
  "state_lower st = (case st of NORMAL \<Rightarrow> ''normal'' | TRIM \<Rightarrow> ''trim'' | EMERGENCY \<Rightarrow> ''emergency''
     | FALLBACK \<Rightarrow> ''fallback'' | STATIC \<Rightarrow> ''static'' | OFF \<Rightarrow> ''off'')"

text \<open>\<open>now - t >= d\<close> for a time \<open>t\<close> that may be minus infinity.\<close>

definition elapsed :: "rat \<Rightarrow> rat option \<Rightarrow> rat \<Rightarrow> bool" where
  "elapsed now t d = (case t of None \<Rightarrow> True | Some u \<Rightarrow> d \<le> fsub now u)"

section \<open>The methods of \<open>_Step\<close>\<close>

definition gov_event :: "string \<Rightarrow> pyval dict \<Rightarrow> wstep \<Rightarrow> wstep" where
  "gov_event typ kw w = (fst w, snd w @ [Event typ kw])"

definition gov_enter :: "rat \<Rightarrow> gstate \<Rightarrow> pyval dict \<Rightarrow> wstep \<Rightarrow> wstep" where
  "gov_enter now new kw w =
    (if new \<noteq> s_state (fst w) then
       let (s, acts) = gov_event ''state''
             (dmerge [(''from'', PStr (state_name (s_state (fst w)))), (''to'', PStr (state_name new))] kw) w
       in (s\<lparr>s_state := new, s_since := now\<rparr>, acts)
     else w)"

text \<open>\<open>s.fw_pl1_w or HARD_MAX_W\<close>.\<close>

definition or_hard :: "rat option \<Rightarrow> rat" where
  "or_hard x = (case x of None \<Rightarrow> HARD_MAX_W | Some f \<Rightarrow> if f = 0 then HARD_MAX_W else f)"

definition cap1 :: "gov_state \<Rightarrow> rat \<Rightarrow> rat" where
  "cap1 s x = min x (min HARD_MAX_W (or_hard (s_fw_pl1_w s)))"

definition cap2 :: "gov_state \<Rightarrow> rat \<Rightarrow> rat" where
  "cap2 s x = min x (min HARD_MAX_W (or_hard (s_fw_pl2_w s)))"

definition gov_write :: "rat \<Rightarrow> rat \<Rightarrow> rat \<Rightarrow> string \<Rightarrow> bool \<Rightarrow> wstep \<Rightarrow> wstep" where
  "gov_write now pl1 pl2 reason force w =
    (let (s, acts) = w;
         pl1 = cap1 s pl1;
         pl2 = cap2 s pl2;
         due = elapsed now (s_last_write s) REASSERT_S;
         same = (s_pl1_w s = Some pl1 \<and> s_pl2_w s = Some pl2)
     in if \<not> force \<and> \<not> due \<and> same then w
        else
          let reason = (if same \<and> \<not> force then ''reassert'' else reason)
          in (s\<lparr>s_pl1_w := Some pl1, s_pl2_w := Some pl2, s_last_write := Some now,
                s_counters := (s_counters s)\<lparr>writes := writes (s_counters s) + 1\<rparr>,
                s_last_action := Some (reason @ '': PL1 '' @ fmt_g pl1 @ '' W PL2 '' @ fmt_g pl2 @ '' W'')\<rparr>,
              acts @ [SetLimits pl1 pl2 reason]))"

text \<open>
  \<open>thermal\<close>: the effective ceiling, with the state that remembers it. The cap held so far, then one
  step down (hot) or up (cool) when the interval has passed.
\<close>

definition thermal_held :: "gov_cfg \<Rightarrow> rat \<Rightarrow> rat \<Rightarrow> gov_state \<Rightarrow> rat" where
  "thermal_held g flr ceil_w s =
    (case (s_thermal_cap_w s, g_thermal_trim_c g) of
       (Some t, Some _) \<Rightarrow> min (max t flr) ceil_w
     | _ \<Rightarrow> ceil_w)"

definition thermal_down :: "gov_cfg \<Rightarrow> rat \<Rightarrow> pyval \<Rightarrow> rat \<Rightarrow> rat \<Rightarrow> rat \<Rightarrow> wstep \<Rightarrow> rat \<times> wstep" where
  "thermal_down g now temp_c trim flr cap w =
    (let s = fst w;
         start = (case s_pl1_w s of Some p \<Rightarrow> min cap p | None \<Rightarrow> cap)
     in if flr < start then
          let cap' = max flr (fsub start (g_thermal_step_w g));
              s = s\<lparr>s_last_thermal := Some now,
                    s_counters := (s_counters s)\<lparr>thermal_trims := thermal_trims (s_counters s) + 1\<rparr>\<rparr>
          in (cap', gov_event ''thermal_trim''
                [(''from_w'', pnum cap), (''to_w'', pnum cap'), (''pkg_c'', temp_c), (''trim_c'', pnum trim)] (s, snd w))
        else (cap, w))"

definition thermal_up :: "gov_cfg \<Rightarrow> rat \<Rightarrow> pyval \<Rightarrow> rat \<Rightarrow> rat \<Rightarrow> wstep \<Rightarrow> rat \<times> wstep" where
  "thermal_up g now temp_c ceil_w cap w =
    (let cap' = min ceil_w (fadd cap (g_thermal_step_w g))
     in (cap', gov_event ''thermal_recover''
           [(''from_w'', pnum cap), (''to_w'', pnum cap'), (''pkg_c'', temp_c)]
           ((fst w)\<lparr>s_last_thermal := Some now\<rparr>, snd w)))"

definition thermal_move :: "gov_cfg \<Rightarrow> rat \<Rightarrow> pyval \<Rightarrow> rat \<Rightarrow> rat \<Rightarrow> rat \<Rightarrow> wstep \<Rightarrow> rat \<times> wstep" where
  "thermal_move g now temp_c flr ceil_w cap w =
    (case (g_thermal_trim_c g, num_of temp_c) of
       (Some trim, Some temp) \<Rightarrow>
         if elapsed now (s_last_thermal (fst w)) (g_thermal_interval_s g) then
           if trim \<le> temp then thermal_down g now temp_c trim flr cap w
           else if temp < g_thermal_recover_c g \<and> cap < ceil_w then thermal_up g now temp_c ceil_w cap w
           else (cap, w)
         else (cap, w)
     | _ \<Rightarrow> (cap, w))"

definition thermal :: "gov_cfg \<Rightarrow> rat \<Rightarrow> pyval \<Rightarrow> rat \<Rightarrow> rat \<Rightarrow> wstep \<Rightarrow> rat \<times> wstep" where
  "thermal g now temp_c flr ceil_w w =
    (case thermal_move g now temp_c flr ceil_w (thermal_held g flr ceil_w (fst w)) w of
       (cap, w) \<Rightarrow> (cap, ((fst w)\<lparr>s_thermal_cap_w := (if cap < ceil_w then Some cap else None)\<rparr>, snd w)))"

definition fallback_w :: "gov_state \<Rightarrow> rat \<Rightarrow> rat" where
  "fallback_w s static = (case s_pl1_w s of Some p \<Rightarrow> min static p | None \<Rightarrow> static)"

definition fallback :: "rat \<Rightarrow> string \<Rightarrow> rat \<Rightarrow> wstep \<Rightarrow> wstep" where
  "fallback now reason static w =
    (let w = (if s_state (fst w) \<noteq> FALLBACK then
                gov_event ''fallback'' [(''reason'', PStr reason)]
                  ((fst w)\<lparr>s_counters := (s_counters (fst w))\<lparr>fallbacks := fallbacks (s_counters (fst w)) + 1\<rparr>\<rparr>, snd w)
              else w);
         w = ((fst w)\<lparr>s_fallback_reason := Some reason\<rparr>, snd w);
         w = gov_enter now FALLBACK [(''reason'', PStr reason)] w;
         w = ((fst w)\<lparr>s_below_shed_since := None, s_below_recover_since := None\<rparr>, snd w);
         fb = fallback_w (fst w) static
     in gov_write now fb fb ''fallback'' True w)"

section \<open>The step\<close>

text \<open>The measurements of a sample: \<open>valid\<close> is that both powers are numbers and the adapter's is positive.\<close>

definition valid_sample :: "gov_sample \<Rightarrow> (rat \<times> rat) option" where
  "valid_sample m = (case (num_of (m_pdtr_w m), num_of (m_acpw_w m)) of
     (Some p, Some a) \<Rightarrow> if 0 < a then Some (p, a) else None
   | _ \<Rightarrow> None)"

text \<open>Lines 147 to 157: the time spent in the current state and the time of the last valid sample.\<close>

definition gov_begin :: "gov_state \<Rightarrow> gov_sample \<Rightarrow> rat \<Rightarrow> gov_state" where
  "gov_begin s m now =
    (let s = (case s_last_step s of
                Some t \<Rightarrow> if t < now then
                    s\<lparr>s_time_in_state := dset (s_state s)
                        (fadd (case dget (s_time_in_state s) (s_state s) of Some x \<Rightarrow> x | None \<Rightarrow> 0) (fsub now t))
                        (s_time_in_state s)\<rparr>
                  else s
              | None \<Rightarrow> s);
         s = s\<lparr>s_last_step := Some now\<rparr>
     in if valid_sample m \<noteq> None then s\<lparr>s_last_valid := Some now\<rparr> else s)"

definition gov_off :: "gov_cfg \<Rightarrow> rat \<Rightarrow> wstep \<Rightarrow> wstep" where
  "gov_off g now w =
    (let static = g_static_cap_w g;
         w = ((fst w)\<lparr>s_retry_at := None, s_fallback_reason := None, s_thermal_cap_w := None\<rparr>, snd w);
         w = (if s_state (fst w) \<noteq> OFF then gov_write now static static ''off'' True w else w)
     in gov_enter now OFF [] w)"

text \<open>The readback of the previous write; \<open>True\<close> says that the step ends here.\<close>

definition gov_readback :: "gov_cfg \<Rightarrow> gov_sample \<Rightarrow> rat \<Rightarrow> wstep \<Rightarrow> bool \<times> wstep" where
  "gov_readback g m now w =
    (case m_readback m of
       None \<Rightarrow> (False, w)
     | Some (ok, why) \<Rightarrow>
         if ok then
           (False, if s_state (fst w) \<noteq> FALLBACK then ((fst w)\<lparr>s_backoff_s := 0\<rparr>, snd w) else w)
         else
           let s = fst w;
               b = (if s_backoff_s s \<le> 0 then 1 else min BACKOFF_MAX_S (fmul (s_backoff_s s) 2));
               s = s\<lparr>s_counters := (s_counters s)\<lparr>readback_failures := readback_failures (s_counters s) + 1\<rparr>,
                     s_backoff_s := b, s_retry_at := Some (fadd now b)\<rparr>;
               reason = ''readback mismatch: '' @ why;
               w = (if s_state s \<noteq> FALLBACK then fallback now reason (g_static_cap_w g) (s, snd w)
                    else (s\<lparr>s_fallback_reason := Some reason\<rparr>, snd w))
           in (True, gov_event ''retry_scheduled'' [(''backoff_s'', pnum b), (''reason'', PStr reason)] w))"

definition opt_str :: "string option \<Rightarrow> pyval" where
  "opt_str x = (case x of None \<Rightarrow> PNone | Some s \<Rightarrow> PStr s)"

text \<open>Waiting in fallback for the retry: (step ends, retried, new working copy).\<close>

definition gov_wait :: "gov_cfg \<Rightarrow> gov_sample \<Rightarrow> rat \<Rightarrow> wstep \<Rightarrow> bool \<times> bool \<times> wstep" where
  "gov_wait g m now w =
    (case s_retry_at (fst w) of
       Some t \<Rightarrow>
         if s_state (fst w) = FALLBACK then
           if now < t then
             let s = fst w;
                 flr = min (g_floor_w g) (g_static_cap_w g)
             in case valid_sample m of
                  None \<Rightarrow> (True, False, w)
                | Some (pdtr, acpw) \<Rightarrow>
                    (case thresholds (Some acpw) g of
                       None \<Rightarrow> (True, False, w)
                     | Some (shed, emg, rec) \<Rightarrow>
                         if g_mode g = ''dynamic'' \<and> emg \<le> pdtr \<and>
                            (case s_pl1_w s of None \<Rightarrow> True | Some p \<Rightarrow> flr < p)
                         then
                           let s = s\<lparr>s_counters := (s_counters s)\<lparr>emergencies := emergencies (s_counters s) + 1\<rparr>\<rparr>;
                               w = gov_event ''emergency''
                                     [(''input_w'', pnum (py_round 2 pdtr)), (''emergency_w'', pnum (py_round 2 emg)),
                                      (''floor_w'', pnum flr), (''during'', PStr ''fallback'')] (s, snd w)
                           in (True, False, gov_write now flr flr ''emergency'' True w)
                         else (True, False, w))
           else
             (False, True, gov_event ''retry'' [(''reason'', opt_str (s_fallback_reason (fst w)))]
                             ((fst w)\<lparr>s_retry_at := None\<rparr>, snd w))
         else (False, False, w)
     | None \<Rightarrow> (False, False, w))"

definition gov_static :: "gov_cfg \<Rightarrow> rat \<Rightarrow> bool \<Rightarrow> wstep \<Rightarrow> wstep" where
  "gov_static g now force w =
    (let static = g_static_cap_w g;
         w = ((fst w)\<lparr>s_fallback_reason := None, s_thermal_cap_w := None\<rparr>, snd w);
         force = (force \<or> s_state (fst w) \<noteq> STATIC);
         w = gov_enter now STATIC [] w
     in gov_write now static static ''static'' force w)"

definition gov_is_stale :: "gov_cfg \<Rightarrow> rat \<Rightarrow> gov_state \<Rightarrow> bool" where
  "gov_is_stale g now s =
    (g_stale_timeout_s g \<le> fsub now (case s_last_valid s of Some t \<Rightarrow> t | None \<Rightarrow> s_started s))"

definition stale_reason :: "gov_cfg \<Rightarrow> string" where
  "stale_reason g = ''stale SMC telemetry (no valid sample for >= '' @ fmt_g (g_stale_timeout_s g) @ '' s)''"

definition gov_stale :: "gov_cfg \<Rightarrow> rat \<Rightarrow> bool \<Rightarrow> wstep \<Rightarrow> wstep" where
  "gov_stale g now retried w =
    (let static = g_static_cap_w g;
         reason = stale_reason g
     in if s_state (fst w) \<noteq> FALLBACK then
          fallback now reason static ((fst w)\<lparr>s_retry_at := None\<rparr>, snd w)
        else
          let w = ((fst w)\<lparr>s_fallback_reason := Some reason\<rparr>, snd w);
              fb = fallback_w (fst w) static
          in gov_write now fb fb ''fallback'' retried w)"

text \<open>
  The rules on a valid sample. Each maps the state and PL1 proposed so far and the working copy to
  the new ones: rule 2 (emergency), rule 3 (shed), rules 4 and 5 (below the shed threshold).
\<close>

type_synonym proposal = "gstate \<times> rat \<times> wstep"

definition rule_emergency :: "rat \<Rightarrow> rat \<Rightarrow> rat \<Rightarrow> proposal \<Rightarrow> proposal" where
  "rule_emergency pdtr emg flr = (\<lambda>(new, pl1, w).
     let s = fst w;
         w = (if s_state s \<noteq> EMERGENCY then
                gov_event ''emergency''
                  [(''input_w'', pnum (py_round 2 pdtr)), (''emergency_w'', pnum (py_round 2 emg)), (''floor_w'', pnum flr)]
                  (s\<lparr>s_counters := (s_counters s)\<lparr>emergencies := emergencies (s_counters s) + 1\<rparr>\<rparr>, snd w)
              else w)
     in (EMERGENCY, flr, ((fst w)\<lparr>s_below_shed_since := None, s_below_recover_since := None\<rparr>, snd w)))"

definition rule_shed :: "gov_cfg \<Rightarrow> rat \<Rightarrow> rat \<Rightarrow> rat \<Rightarrow> rat \<Rightarrow> proposal \<Rightarrow> proposal" where
  "rule_shed g now mn shed flr = (\<lambda>(new, pl1, w).
     let s = (fst w)\<lparr>s_below_shed_since := None, s_below_recover_since := None\<rparr>
     in if s_state s \<noteq> EMERGENCY then
          if elapsed now (s_last_cut s) CUT_MIN_INTERVAL_S \<and> flr < pl1 then
            let pl1' = max flr (fsub pl1 (g_cut_step_w g));
                s = s\<lparr>s_last_cut := Some now, s_counters := (s_counters s)\<lparr>cuts := cuts (s_counters s) + 1\<rparr>\<rparr>
            in (TRIM, pl1', gov_event ''cut''
                  [(''from_w'', pnum pl1), (''to_w'', pnum pl1'), (''input_mean_w'', pnum (py_round 2 mn)),
                   (''shed_w'', pnum (py_round 2 shed))] (s, snd w))
          else (TRIM, pl1, (s, snd w))
        else (new, pl1, (s, snd w)))"

definition rule_recover :: "gov_cfg \<Rightarrow> rat \<Rightarrow> rat \<Rightarrow> rat \<Rightarrow> rat \<Rightarrow> rat \<times> wstep \<Rightarrow> rat \<times> wstep" where
  "rule_recover g now mn rec ceil_w = (\<lambda>(pl1, w).
     let s = fst w in
     if mn < rec then
       (case s_below_recover_since s of
          None \<Rightarrow> (pl1, (s\<lparr>s_below_recover_since := Some now\<rparr>, snd w))
        | Some t \<Rightarrow>
            if g_recover_interval_s g \<le> fsub now t \<and> pl1 < ceil_w then
              let pl1' = min ceil_w (fadd pl1 (g_recover_step_w g));
                  s = s\<lparr>s_below_recover_since := Some now,
                        s_counters := (s_counters s)\<lparr>recoveries := recoveries (s_counters s) + 1\<rparr>\<rparr>
              in (pl1', gov_event ''recover''
                    [(''from_w'', pnum pl1), (''to_w'', pnum pl1'), (''input_mean_w'', pnum (py_round 2 mn))] (s, snd w))
            else (pl1, w))
     else (pl1, (s\<lparr>s_below_recover_since := None\<rparr>, snd w)))"

definition rule_below :: "gov_cfg \<Rightarrow> rat \<Rightarrow> rat \<Rightarrow> rat \<Rightarrow> rat \<Rightarrow> rat \<Rightarrow> proposal \<Rightarrow> proposal" where
  "rule_below g now mn rec top_w ceil_w = (\<lambda>(new, pl1, w).
     let s = fst w;
         since = (case s_below_shed_since s of None \<Rightarrow> now | Some t \<Rightarrow> t);
         s = s\<lparr>s_below_shed_since := Some since\<rparr>
     in if s_state s = EMERGENCY then
          if EMERGENCY_HOLD_S \<le> fsub now since
          then (TRIM, pl1, (s\<lparr>s_below_recover_since := None\<rparr>, snd w))
          else (new, pl1, (s, snd w))
        else
          (case rule_recover g now mn rec ceil_w (pl1, (s, snd w)) of
             (pl1', w) \<Rightarrow> (if top_w \<le> pl1' then NORMAL else TRIM, pl1', w)))"

definition gov_rules :: "gov_cfg \<Rightarrow> rat \<Rightarrow> rat \<Rightarrow> rat \<Rightarrow> rat \<times> rat \<times> rat \<Rightarrow> rat \<Rightarrow> rat \<Rightarrow> rat \<Rightarrow> proposal \<Rightarrow> proposal" where
  "gov_rules g now pdtr mn th flr top_w ceil_w p =
    (case th of (shed, emg, rec) \<Rightarrow>
       if emg \<le> pdtr then rule_emergency pdtr emg flr p
       else if shed \<le> mn then rule_shed g now mn shed flr p
       else rule_below g now mn rec top_w ceil_w p)"

definition gov_floor :: "gov_cfg \<Rightarrow> rat" where
  "gov_floor g = min (g_floor_w g) (g_static_cap_w g)"

definition gov_top :: "gov_cfg \<Rightarrow> gov_state \<Rightarrow> rat" where
  "gov_top g s = cap1 s (max (g_ceiling_w g) (g_static_cap_w g))"

definition needs_resume :: "gov_state \<Rightarrow> bool" where
  "needs_resume s = (s_state s \<notin> {NORMAL, TRIM, EMERGENCY} \<or> s_pl1_w s = None)"

text \<open>The PL1 the dynamic rules start from: the commanded one, or the fallback or static cap on resuming.\<close>

definition start_pl1 :: "gov_cfg \<Rightarrow> gov_state \<Rightarrow> rat" where
  "start_pl1 g s =
    (if needs_resume s then (if s_state s = FALLBACK then fallback_w s (g_static_cap_w g) else g_static_cap_w g)
     else (case s_pl1_w s of Some p \<Rightarrow> p | None \<Rightarrow> g_static_cap_w g))"

definition gov_dynamic :: "gov_cfg \<Rightarrow> gov_sample \<Rightarrow> rat \<Rightarrow> bool \<Rightarrow> wstep \<Rightarrow> wstep" where
  "gov_dynamic g m now force w =
    (let flr = gov_floor g;
         top_w = gov_top g (fst w);
         (ceil_w, w) = thermal g now (m_pkg_c m) flr top_w w;
         s = fst w;
         resume = needs_resume s;
         pl1 = min (max (start_pl1 g s) flr) ceil_w;
         new = (if \<not> resume then s_state s else if top_w \<le> pl1 then NORMAL else TRIM);
         (new, pl1, w) =
           (case valid_sample m of
              None \<Rightarrow> (new, pl1, w)
            | Some (pdtr, acpw) \<Rightarrow>
                (case thresholds (Some acpw) g of
                   None \<Rightarrow> (new, pl1, w)
                 | Some th \<Rightarrow>
                     gov_rules g now pdtr (case num_of (m_input_mean_1s m) of Some x \<Rightarrow> x | None \<Rightarrow> pdtr)
                       th flr top_w ceil_w (new, pl1, w)));
         w = ((fst w)\<lparr>s_fallback_reason := None\<rparr>, snd w);
         w = gov_enter now new [] w;
         pl2 = (if new \<in> {NORMAL, TRIM} then fadd pl1 (g_burst_w g) else pl1)
     in gov_write now pl1 pl2 (state_lower new) (force \<or> resume) w)"

definition gov_step :: "gov_state \<Rightarrow> gov_sample \<Rightarrow> gov_cfg \<Rightarrow> rat \<Rightarrow> gov_state \<times> action list" where
  "gov_step state m g now =
    (let w = (gov_begin state m now, []) in
     if g_mode g = ''off'' then gov_off g now w
     else
       let force = (s_state state = OFF \<or> s_state state = FALLBACK);
           (fin, w) = gov_readback g m now w
       in if fin then w
          else
            let (fin, retried, w) = gov_wait g m now w
            in if fin then w
               else if g_mode g = ''static'' then gov_static g now force w
               else if gov_is_stale g now (fst w) then gov_stale g now retried w
               else gov_dynamic g m now force w)"

text \<open>The definitions a concrete step unfolds.\<close>

lemmas gov_defs = gov_step_def gov_begin_def gov_readback_def gov_wait_def gov_is_stale_def gov_dynamic_def thermal_def
  thermal_move_def thermal_held_def thermal_down_def thermal_up_def gov_floor_def gov_top_def needs_resume_def start_pl1_def gov_rules_def
  rule_emergency_def rule_shed_def rule_below_def rule_recover_def gov_enter_def gov_write_def gov_event_def thresholds_def
  valid_sample_def elapsed_def cap1_def cap2_def or_hard_def HARD_MAX_W_def Let_def fallback_w_def
  CUT_MIN_INTERVAL_S_def EMERGENCY_HOLD_S_def REASSERT_S_def

section \<open>Actions and state agree\<close>

fun limits_of :: "action list \<Rightarrow> (rat \<times> rat) list" where
  "limits_of [] = []"
| "limits_of (SetLimits p q r # as) = (p, q) # limits_of as"
| "limits_of (Event t kw # as) = limits_of as"

lemma limits_of_append [simp]: "limits_of (as @ bs) = limits_of as @ limits_of bs"
  by (induction as rule: limits_of.induct) simp_all

text \<open>The most PL1 and PL2 may ever be: the firmware's limits, and never above \<open>HARD_MAX_W\<close>.\<close>

definition max1 :: "gov_state \<Rightarrow> rat" where "max1 s = min HARD_MAX_W (or_hard (s_fw_pl1_w s))"
definition max2 :: "gov_state \<Rightarrow> rat" where "max2 s = min HARD_MAX_W (or_hard (s_fw_pl2_w s))"

lemma cap1_max1: "cap1 s x = min x (max1 s)"
  by (simp add: cap1_def max1_def)

lemma cap2_max2: "cap2 s x = min x (max2 s)"
  by (simp add: cap2_def max2_def)

text \<open>
  A working copy agrees with the state \<open>s0\<close> of the beginning of the step: the firmware limits are the
  same, every limit emitted is within them, the limits of the state are those emitted last (the old
  ones if none was) and their number is the growth of the counter.
\<close>

definition agrees :: "gov_state \<Rightarrow> wstep \<Rightarrow> bool" where
  "agrees s0 w =
    (s_fw_pl1_w (fst w) = s_fw_pl1_w s0 \<and> s_fw_pl2_w (fst w) = s_fw_pl2_w s0 \<and>
     list_all (\<lambda>(p, q). p \<le> max1 s0 \<and> q \<le> max2 s0) (limits_of (snd w)) \<and>
     (s_pl1_w (fst w), s_pl2_w (fst w)) = last ((s_pl1_w s0, s_pl2_w s0) # map (\<lambda>(p, q). (Some p, Some q)) (limits_of (snd w))) \<and>
     writes (s_counters (fst w)) = writes (s_counters s0) + length (limits_of (snd w)) \<and>
     length (limits_of (snd w)) \<le> 1)"

definition quiet :: "wstep \<Rightarrow> bool" where "quiet w = (limits_of (snd w) = [])"

text \<open>What a change of the state has to leave alone.\<close>

definition same_limits :: "gov_state \<Rightarrow> gov_state \<Rightarrow> bool" where
  "same_limits s s' = (s_fw_pl1_w s' = s_fw_pl1_w s \<and> s_fw_pl2_w s' = s_fw_pl2_w s \<and> s_pl1_w s' = s_pl1_w s \<and>
     s_pl2_w s' = s_pl2_w s \<and> writes (s_counters s') = writes (s_counters s))"

lemma agrees_same: "same_limits (fst w) (fst w') \<Longrightarrow> limits_of (snd w') = limits_of (snd w) \<Longrightarrow> agrees s0 w' = agrees s0 w"
  by (simp add: agrees_def same_limits_def)

lemma agrees_start: "same_limits s0 s \<Longrightarrow> agrees s0 (s, []) \<and> quiet (s, [])"
  by (simp add: agrees_def same_limits_def quiet_def)

lemma event_simps [simp]:
  "fst (gov_event typ kw w) = fst w" "limits_of (snd (gov_event typ kw w)) = limits_of (snd w)"
  by (simp_all add: gov_event_def)

lemma enter_limits [simp]: "limits_of (snd (gov_enter now new kw w)) = limits_of (snd w)"
  by (simp add: gov_enter_def gov_event_def Let_def)

lemma enter_state [simp]: "s_state (fst (gov_enter now new kw w)) = new"
  by (simp add: gov_enter_def gov_event_def Let_def)

lemma enter_frame [simp]:
  "s_pl1_w (fst (gov_enter now new kw w)) = s_pl1_w (fst w)"
  "s_pl2_w (fst (gov_enter now new kw w)) = s_pl2_w (fst w)"
  "s_fw_pl1_w (fst (gov_enter now new kw w)) = s_fw_pl1_w (fst w)"
  "s_fw_pl2_w (fst (gov_enter now new kw w)) = s_fw_pl2_w (fst w)"
  "s_counters (fst (gov_enter now new kw w)) = s_counters (fst w)"
  "s_below_shed_since (fst (gov_enter now new kw w)) = s_below_shed_since (fst w)"
  "s_below_recover_since (fst (gov_enter now new kw w)) = s_below_recover_since (fst w)"
  "s_last_cut (fst (gov_enter now new kw w)) = s_last_cut (fst w)"
  "s_last_thermal (fst (gov_enter now new kw w)) = s_last_thermal (fst w)"
  "s_thermal_cap_w (fst (gov_enter now new kw w)) = s_thermal_cap_w (fst w)"
  "s_last_write (fst (gov_enter now new kw w)) = s_last_write (fst w)"
  "s_backoff_s (fst (gov_enter now new kw w)) = s_backoff_s (fst w)"
  "s_retry_at (fst (gov_enter now new kw w)) = s_retry_at (fst w)"
  "s_fallback_reason (fst (gov_enter now new kw w)) = s_fallback_reason (fst w)"
  "s_last_valid (fst (gov_enter now new kw w)) = s_last_valid (fst w)"
  by (simp_all add: gov_enter_def gov_event_def Let_def)

lemma write_frame [simp]:
  "s_state (fst (gov_write now p q r f w)) = s_state (fst w)"
  "s_fw_pl1_w (fst (gov_write now p q r f w)) = s_fw_pl1_w (fst w)"
  "s_fw_pl2_w (fst (gov_write now p q r f w)) = s_fw_pl2_w (fst w)"
  "s_below_shed_since (fst (gov_write now p q r f w)) = s_below_shed_since (fst w)"
  "s_below_recover_since (fst (gov_write now p q r f w)) = s_below_recover_since (fst w)"
  "s_last_cut (fst (gov_write now p q r f w)) = s_last_cut (fst w)"
  "s_last_thermal (fst (gov_write now p q r f w)) = s_last_thermal (fst w)"
  "s_thermal_cap_w (fst (gov_write now p q r f w)) = s_thermal_cap_w (fst w)"
  "s_backoff_s (fst (gov_write now p q r f w)) = s_backoff_s (fst w)"
  "s_retry_at (fst (gov_write now p q r f w)) = s_retry_at (fst w)"
  "s_fallback_reason (fst (gov_write now p q r f w)) = s_fallback_reason (fst w)"
  "cuts (s_counters (fst (gov_write now p q r f w))) = cuts (s_counters (fst w))"
  "recoveries (s_counters (fst (gov_write now p q r f w))) = recoveries (s_counters (fst w))"
  "emergencies (s_counters (fst (gov_write now p q r f w))) = emergencies (s_counters (fst w))"
  "thermal_trims (s_counters (fst (gov_write now p q r f w))) = thermal_trims (s_counters (fst w))"
  by (simp_all add: gov_write_def Let_def split: prod.split)

text \<open>After a write, forced or not, the commanded limits are the capped arguments.\<close>

lemma write_pl [simp]:
  "s_pl1_w (fst (gov_write now p q r f w)) = Some (cap1 (fst w) p)"
  "s_pl2_w (fst (gov_write now p q r f w)) = Some (cap2 (fst w) q)"
  by (auto simp: gov_write_def Let_def split: prod.split)

lemma write_agrees:
  assumes "agrees s0 w" "quiet w"
  shows "agrees s0 (gov_write now p q r f w)"
proof -
  obtain s acts where w: "w = (s, acts)" by (cases w)
  have m: "cap1 s p \<le> max1 s0" "cap2 s q \<le> max2 s0"
    using assms(1) by (auto simp: w agrees_def cap1_max1 cap2_max2 max1_def max2_def)
  then show ?thesis
    using assms by (auto simp: w gov_write_def agrees_def quiet_def Let_def)
qed

lemma write_forced: "limits_of (snd (gov_write now p q r True w)) = limits_of (snd w) @ [(cap1 (fst w) p, cap2 (fst w) q)]"
  by (simp add: gov_write_def Let_def split: prod.split)

text \<open>\<open>thermal\<close> leaves the limits, the state and the other timers alone.\<close>

definition thermal_same :: "wstep \<Rightarrow> wstep \<Rightarrow> bool" where
  "thermal_same w w' = (same_limits (fst w) (fst w') \<and> limits_of (snd w') = limits_of (snd w) \<and>
     s_state (fst w') = s_state (fst w) \<and>
     s_last_cut (fst w') = s_last_cut (fst w) \<and> s_below_shed_since (fst w') = s_below_shed_since (fst w) \<and>
     s_below_recover_since (fst w') = s_below_recover_since (fst w) \<and>
     s_last_write (fst w') = s_last_write (fst w) \<and> s_retry_at (fst w') = s_retry_at (fst w) \<and>
     s_backoff_s (fst w') = s_backoff_s (fst w) \<and>
     cuts (s_counters (fst w')) = cuts (s_counters (fst w)) \<and>
     recoveries (s_counters (fst w')) = recoveries (s_counters (fst w)))"

lemma thermal_same_down: "thermal_same w (snd (thermal_down g now t trim flr cap w))"
  by (simp add: thermal_down_def thermal_same_def same_limits_def Let_def gov_event_def)

lemma thermal_same_up: "thermal_same w (snd (thermal_up g now t ceil_w cap w))"
  by (simp add: thermal_up_def thermal_same_def same_limits_def Let_def gov_event_def)

lemma thermal_same_refl [simp]: "thermal_same w w"
  by (simp add: thermal_same_def same_limits_def)

lemma thermal_same_move: "thermal_same w (snd (thermal_move g now t flr ceil_w cap w))"
  by (simp add: thermal_move_def thermal_same_down thermal_same_up split: option.split)

lemma thermal_frame: "thermal_same w (snd (thermal g now t flr ceil_w w))"
  using thermal_same_move [of w g now t flr ceil_w "thermal_held g flr ceil_w (fst w)"]
  by (simp add: thermal_def thermal_same_def same_limits_def case_prod_beta)

lemma fallback_simps [simp]:
  "s_state (fst (fallback now reason static w)) = FALLBACK"
  "s_pl1_w (fst (fallback now reason static w)) = Some (cap1 (fst w) (fallback_w (fst w) static))"
  "s_pl2_w (fst (fallback now reason static w)) = Some (cap2 (fst w) (fallback_w (fst w) static))"
  "limits_of (snd (fallback now reason static w)) = limits_of (snd w) @
     [(cap1 (fst w) (fallback_w (fst w) static), cap2 (fst w) (fallback_w (fst w) static))]"
  "s_below_recover_since (fst (fallback now reason static w)) = None"
  "s_below_shed_since (fst (fallback now reason static w)) = None"
  "s_backoff_s (fst (fallback now reason static w)) = s_backoff_s (fst w)"
  "s_retry_at (fst (fallback now reason static w)) = s_retry_at (fst w)"
  by (simp_all add: fallback_def Let_def fallback_w_def cap1_def cap2_def write_forced)

lemma fallback_agrees: "agrees s0 w \<Longrightarrow> quiet w \<Longrightarrow> agrees s0 (fallback now reason static w)"
  unfolding fallback_def Let_def
  by (rule write_agrees) (auto simp: agrees_def quiet_def)

lemma gov_off_agrees: "agrees s0 w \<Longrightarrow> quiet w \<Longrightarrow> agrees s0 (gov_off g now w)"
proof -
  assume w: "agrees s0 w" "quiet w"
  let ?w = "((fst w)\<lparr>s_retry_at := None, s_fallback_reason := None, s_thermal_cap_w := None\<rparr>, snd w)"
  have "agrees s0 ?w" "quiet ?w" using w by (auto simp: agrees_def quiet_def)
  then have "agrees s0 (gov_write now p q r f ?w)" "agrees s0 ?w" for p q r f by (auto intro: write_agrees)
  then show ?thesis unfolding gov_off_def Let_def by (simp add: agrees_def)
qed

lemma gov_begin_frame [simp]:
  "s_state (gov_begin s m now) = s_state s" "s_pl1_w (gov_begin s m now) = s_pl1_w s"
  "s_pl2_w (gov_begin s m now) = s_pl2_w s" "s_fw_pl1_w (gov_begin s m now) = s_fw_pl1_w s"
  "s_fw_pl2_w (gov_begin s m now) = s_fw_pl2_w s" "s_counters (gov_begin s m now) = s_counters s"
  "s_last_write (gov_begin s m now) = s_last_write s" "s_last_cut (gov_begin s m now) = s_last_cut s"
  "s_below_shed_since (gov_begin s m now) = s_below_shed_since s"
  "s_below_recover_since (gov_begin s m now) = s_below_recover_since s"
  "s_backoff_s (gov_begin s m now) = s_backoff_s s" "s_retry_at (gov_begin s m now) = s_retry_at s"
  "s_thermal_cap_w (gov_begin s m now) = s_thermal_cap_w s" "s_last_thermal (gov_begin s m now) = s_last_thermal s"
  "s_started (gov_begin s m now) = s_started s"
  "s_last_valid (gov_begin s m now) = (if valid_sample m = None then s_last_valid s else Some now)"
  by (simp_all add: gov_begin_def Let_def split: option.split)

text \<open>
  The state before the mode's own branch: the input state but for the bookkeeping of \<open>gov_begin\<close>, the
  backoff and the retry time.
\<close>

definition settled :: "gov_state \<Rightarrow> gov_sample \<Rightarrow> rat \<Rightarrow> wstep \<Rightarrow> bool" where
  "settled s m now w =
    (limits_of (snd w) = [] \<and> s_state (fst w) = s_state s \<and> s_pl1_w (fst w) = s_pl1_w s \<and> s_pl2_w (fst w) = s_pl2_w s \<and>
     s_fw_pl1_w (fst w) = s_fw_pl1_w s \<and> s_fw_pl2_w (fst w) = s_fw_pl2_w s \<and> s_counters (fst w) = s_counters s \<and>
     s_last_write (fst w) = s_last_write s \<and> s_last_cut (fst w) = s_last_cut s \<and>
     s_below_shed_since (fst w) = s_below_shed_since s \<and> s_below_recover_since (fst w) = s_below_recover_since s \<and>
     s_thermal_cap_w (fst w) = s_thermal_cap_w s \<and> s_last_thermal (fst w) = s_last_thermal s \<and>
     s_started (fst w) = s_started s \<and>
     s_last_valid (fst w) = (if valid_sample m = None then s_last_valid s else Some now))"

lemma settled_agrees: "settled s m now w \<Longrightarrow> agrees s w \<and> quiet w"
  by (simp add: settled_def agrees_def quiet_def)

text \<open>The paths through \<open>step\<close>.\<close>

lemma gov_step_cases:
  obtains
    (off) "g_mode g = ''off''" "gov_step s m g now = gov_off g now (gov_begin s m now, [])"
  | (readback) why where "g_mode g \<noteq> ''off''" "m_readback m = Some (False, why)"
      "gov_step s m g now = snd (gov_readback g m now (gov_begin s m now, []))"
  | (wait) t w where "g_mode g \<noteq> ''off''" "\<And>why. m_readback m \<noteq> Some (False, why)" "s_state s = FALLBACK"
      "s_retry_at s = Some t" "now < t" "settled s m now w" "s_retry_at (fst w) = Some t"
      "gov_step s m g now = snd (snd (gov_wait g m now w))"
  | (static) w where "g_mode g = ''static''" "\<And>why. m_readback m \<noteq> Some (False, why)" "settled s m now w"
      "gov_step s m g now = gov_static g now (s_state s = OFF \<or> s_state s = FALLBACK) w"
  | (stale) w b where "g_mode g \<noteq> ''off''" "g_mode g \<noteq> ''static''" "\<And>why. m_readback m \<noteq> Some (False, why)"
      "settled s m now w" "gov_is_stale g now (fst w)" "gov_step s m g now = gov_stale g now b w"
  | (dynamic) w where "g_mode g \<noteq> ''off''" "g_mode g \<noteq> ''static''" "\<And>why. m_readback m \<noteq> Some (False, why)"
      "settled s m now w" "\<not> gov_is_stale g now (fst w)"
      "gov_step s m g now = gov_dynamic g m now (s_state s = OFF \<or> s_state s = FALLBACK) w"
proof (cases "g_mode g = ''off''")
  case True
  then show ?thesis by (intro off) (simp_all add: gov_step_def)
next
  case no: False
  let ?w0 = "(gov_begin s m now, [])"
  let ?f = "s_state s = OFF \<or> s_state s = FALLBACK"
  show ?thesis
  proof (cases "\<exists>why. m_readback m = Some (False, why)")
    case True
    then have "fst (gov_readback g m now ?w0)" by (auto simp: gov_readback_def Let_def)
    then show ?thesis using True no readback by (auto simp: gov_step_def Let_def case_prod_beta)
  next
    case ok: False
    define w1 where "w1 = snd (gov_readback g m now ?w0)"
    have w1: "gov_readback g m now ?w0 = (False, w1)" "settled s m now w1" "s_retry_at (fst w1) = s_retry_at s"
      using ok by (auto simp: w1_def gov_readback_def settled_def split: option.splits)
    obtain fin b w2 where w2: "gov_wait g m now w1 = (fin, b, w2)" by (cases "gov_wait g m now w1") auto
    have e: "gov_step s m g now = (if fin then w2 else if g_mode g = ''static'' then gov_static g now ?f w2
        else if gov_is_stale g now (fst w2) then gov_stale g now b w2 else gov_dynamic g m now ?f w2)"
      using no by (simp add: gov_step_def Let_def w1 w2)
    show ?thesis
    proof (cases fin)
      case True
      then obtain t where t: "s_retry_at (fst w1) = Some t" "s_state (fst w1) = FALLBACK" "now < t"
        using w2 by (auto simp: gov_wait_def split: option.splits if_splits)
      show ?thesis using no ok t w1 e w2 True by (intro wait [of t w1]) (auto simp: settled_def)
    next
      case False
      then have "settled s m now w2"
        using w2 w1 by (auto simp: gov_wait_def settled_def Let_def gov_event_def split: option.splits if_splits)
      then show ?thesis using no ok e False static [of w2] stale [of w2 b] dynamic [of w2] by auto
    qed
  qed
qed

section \<open>Every path keeps the agreement\<close>

lemma agrees_upd: "agrees s0 w \<Longrightarrow> quiet w \<Longrightarrow> same_limits (fst w) s \<Longrightarrow> limits_of acts = limits_of (snd w) \<Longrightarrow>
    agrees s0 (s, acts) \<and> quiet (s, acts)"
  using agrees_same [of w "(s, acts)" s0] by (simp add: quiet_def)

lemma gov_readback_agrees: "agrees s0 w \<Longrightarrow> quiet w \<Longrightarrow> agrees s0 (snd (gov_readback g m now w))"
proof -
  assume w: "agrees s0 w" "quiet w"
  have "agrees s0 (fallback now r c (s, snd w)) \<and> agrees s0 (s, snd w)" if "same_limits (fst w) s" for r c s
    using agrees_upd [OF w that] fallback_agrees by blast
  moreover have "agrees s0 (gov_event t k w) = agrees s0 w" for t k w by (simp add: agrees_def)
  ultimately show ?thesis using w
    by (simp add: gov_readback_def Let_def same_limits_def split: option.split)
qed

lemma gov_wait_agrees: "agrees s0 w \<Longrightarrow> quiet w \<Longrightarrow> agrees s0 (snd (snd (gov_wait g m now w)))"
proof -
  assume w: "agrees s0 w" "quiet w"
  have "agrees s0 (gov_write now p q r f (gov_event t k (s, snd w)))"
    if "same_limits (fst w) s" for p q r f t k s
    using agrees_upd [OF w that, of "snd (gov_event t k (s, snd w))"] by (intro write_agrees) (auto simp: gov_event_def)
  moreover have "agrees s0 (gov_event t k (s, snd w))" if "same_limits (fst w) s" for t k s
    using agrees_upd [OF w that, of "snd (gov_event t k (s, snd w))"] by (auto simp: gov_event_def)
  ultimately show ?thesis using w
    by (simp add: gov_wait_def Let_def same_limits_def split: option.split prod.split)
qed

lemma gov_static_agrees: "agrees s0 w \<Longrightarrow> quiet w \<Longrightarrow> agrees s0 (gov_static g now f w)"
  unfolding gov_static_def Let_def by (rule write_agrees) (auto simp: agrees_def quiet_def)

lemma gov_stale_agrees: "agrees s0 w \<Longrightarrow> quiet w \<Longrightarrow> agrees s0 (gov_stale g now b w)"
proof -
  assume w: "agrees s0 w" "quiet w"
  have u: "agrees s0 (upd (fst w), snd w)" "quiet (upd (fst w), snd w)" if "same_limits (fst w) (upd (fst w))" for upd
    using agrees_upd [OF w that] by auto
  show ?thesis using u [of "s_fallback_reason_update _"] u [of "s_retry_at_update _"]
    by (simp add: gov_stale_def Let_def same_limits_def write_agrees fallback_agrees)
qed

text \<open>The rules change neither the limits nor the state: they propose.\<close>

definition rules_same :: "wstep \<Rightarrow> wstep \<Rightarrow> bool" where
  "rules_same w w' = (same_limits (fst w) (fst w') \<and> limits_of (snd w') = limits_of (snd w) \<and>
     s_state (fst w') = s_state (fst w) \<and> s_last_write (fst w') = s_last_write (fst w) \<and>
     s_thermal_cap_w (fst w') = s_thermal_cap_w (fst w) \<and> s_last_thermal (fst w') = s_last_thermal (fst w) \<and>
     s_retry_at (fst w') = s_retry_at (fst w) \<and> s_backoff_s (fst w') = s_backoff_s (fst w))"

lemma rules_same_refl [simp]: "rules_same w w"
  by (simp add: rules_same_def same_limits_def)

lemma rules_same_emergency: "rules_same w (snd (snd (rule_emergency pdtr emg flr (new, pl1, w))))"
  by (simp add: rule_emergency_def rules_same_def same_limits_def Let_def)

lemma rules_same_shed: "rules_same w (snd (snd (rule_shed g now mn shed flr (new, pl1, w))))"
  by (simp add: rule_shed_def rules_same_def same_limits_def Let_def)

lemma rules_same_recover: "rules_same w (snd (rule_recover g now mn rec ceil_w (pl1, w)))"
  by (simp add: rule_recover_def rules_same_def same_limits_def Let_def split: option.split)

lemma rules_same_below: "rules_same w (snd (snd (rule_below g now mn rec top_w ceil_w (new, pl1, w))))"
proof -
  define s where "s = (fst w)\<lparr>s_below_shed_since := Some (case s_below_shed_since (fst w) of None \<Rightarrow> now | Some t \<Rightarrow> t)\<rparr>"
  have "rules_same (s, snd w) (snd (rule_recover g now mn rec ceil_w (pl1, (s, snd w))))" by (rule rules_same_recover)
  then show ?thesis
    by (simp add: rule_below_def Let_def flip: s_def) (simp add: rules_same_def same_limits_def s_def case_prod_beta)
qed

lemma gov_rules_frame: "rules_same w (snd (snd (gov_rules g now pdtr mn th flr top_w ceil_w (new, pl1, w))))"
  by (simp add: gov_rules_def rules_same_emergency rules_same_shed rules_same_below split: prod.split)

text \<open>The proposal of the dynamic branch: the ceiling, then the new state, PL1 and working copy.\<close>

definition dyn_proposal :: "gov_cfg \<Rightarrow> gov_sample \<Rightarrow> rat \<Rightarrow> wstep \<Rightarrow> proposal" where
  "dyn_proposal g m now w =
    (let flr = gov_floor g; top_w = gov_top g (fst w);
         (ceil_w, w) = thermal g now (m_pkg_c m) flr top_w w;
         pl1 = min (max (start_pl1 g (fst w)) flr) ceil_w;
         new = (if \<not> needs_resume (fst w) then s_state (fst w) else if top_w \<le> pl1 then NORMAL else TRIM)
     in (case valid_sample m of
           None \<Rightarrow> (new, pl1, w)
         | Some (pdtr, acpw) \<Rightarrow>
             (case thresholds (Some acpw) g of
                None \<Rightarrow> (new, pl1, w)
              | Some th \<Rightarrow>
                  gov_rules g now pdtr (case num_of (m_input_mean_1s m) of Some x \<Rightarrow> x | None \<Rightarrow> pdtr)
                    th flr top_w ceil_w (new, pl1, w))))"

lemma gov_dynamic_eq:
  "gov_dynamic g m now force w =
    (case dyn_proposal g m now w of (new, pl1, w') \<Rightarrow>
       gov_write now pl1 (if new \<in> {NORMAL, TRIM} then fadd pl1 (g_burst_w g) else pl1) (state_lower new)
         (force \<or> needs_resume (fst w))
         (gov_enter now new [] ((fst w')\<lparr>s_fallback_reason := None\<rparr>, snd w')))"
proof -
  have "needs_resume (fst (snd (thermal g now (m_pkg_c m) (gov_floor g) (gov_top g (fst w)) w))) = needs_resume (fst w)"
    using thermal_frame [of w g now "m_pkg_c m" "gov_floor g" "gov_top g (fst w)"]
    by (simp add: needs_resume_def thermal_same_def same_limits_def)
  then show ?thesis
    by (simp add: gov_dynamic_def dyn_proposal_def Let_def case_prod_beta)
qed

lemma dyn_proposal_frame:
  assumes "dyn_proposal g m now w = (new, pl1, w')"
  shows "same_limits (fst w) (fst w') \<and> limits_of (snd w') = limits_of (snd w) \<and> s_last_write (fst w') = s_last_write (fst w) \<and>
    s_state (fst w') = s_state (fst w) \<and> s_retry_at (fst w') = s_retry_at (fst w) \<and> s_backoff_s (fst w') = s_backoff_s (fst w)"
proof -
  define tw where "tw = snd (thermal g now (m_pkg_c m) (gov_floor g) (gov_top g (fst w)) w)"
  have t: "thermal_same w tw" unfolding tw_def by (rule thermal_frame)
  have "rules_same tw (snd (snd (dyn_proposal g m now w)))"
    by (simp add: dyn_proposal_def Let_def case_prod_beta gov_rules_frame flip: tw_def split: option.split)
  with assms t show ?thesis by (simp add: rules_same_def thermal_same_def same_limits_def)
qed

lemma gov_dynamic_agrees: "agrees s0 w \<Longrightarrow> quiet w \<Longrightarrow> agrees s0 (gov_dynamic g m now f w)"
proof -
  assume w: "agrees s0 w" "quiet w"
  obtain new pl1 w' where p: "dyn_proposal g m now w = (new, pl1, w')" by (cases "dyn_proposal g m now w") auto
  have "agrees s0 w'" "quiet w'" using agrees_upd [OF w, of "fst w'" "snd w'"] dyn_proposal_frame [OF p] by auto
  then show ?thesis unfolding gov_dynamic_eq p prod.case by (intro write_agrees) (auto simp: agrees_def quiet_def)
qed

lemma gov_step_agrees: "agrees s (gov_step s m g now)"
proof -
  have b: "agrees s (gov_begin s m now, [])" "quiet (gov_begin s m now, [])"
    using agrees_start [of s "gov_begin s m now"] by (auto simp: same_limits_def)
  show ?thesis
    by (cases rule: gov_step_cases [of g s m now])
      (simp_all add: gov_off_agrees gov_readback_agrees gov_wait_agrees gov_static_agrees gov_stale_agrees
        gov_dynamic_agrees b settled_agrees)
qed

section \<open>The configuration of the governor\<close>

definition gov_cfg_of :: "pyval dict \<Rightarrow> gov_cfg res" where
  "gov_cfg_of cfg =
    res_bind (cfg_section cfg ''governor'') (\<lambda>d.
    res_bind (sect_str d ''mode'') (\<lambda>mode.
    res_bind (sect_num d ''static_cap_w'') (\<lambda>static_cap_w.
    res_bind (sect_num d ''ceiling_w'') (\<lambda>ceiling_w.
    res_bind (sect_num d ''floor_w'') (\<lambda>floor_w.
    res_bind (sect_num d ''burst_w'') (\<lambda>burst_w.
    res_bind (sect_num d ''shed_ratio'') (\<lambda>shed_ratio.
    res_bind (sect_num d ''emergency_ratio'') (\<lambda>emergency_ratio.
    res_bind (sect_num d ''recover_ratio'') (\<lambda>recover_ratio.
    res_bind (sect_num d ''cut_step_w'') (\<lambda>cut_step_w.
    res_bind (sect_num d ''recover_step_w'') (\<lambda>recover_step_w.
    res_bind (sect_num d ''recover_interval_s'') (\<lambda>recover_interval_s.
    res_bind (sect_num d ''stale_timeout_s'') (\<lambda>stale_timeout_s.
    res_bind (sect_onum d ''thermal_trim_c'') (\<lambda>thermal_trim_c.
    res_bind (sect_num d ''thermal_recover_c'') (\<lambda>thermal_recover_c.
    res_bind (sect_num d ''thermal_step_w'') (\<lambda>thermal_step_w.
    res_bind (sect_num d ''thermal_interval_s'') (\<lambda>thermal_interval_s.
      Inr \<lparr>g_mode = mode, g_static_cap_w = static_cap_w, g_ceiling_w = ceiling_w, g_floor_w = floor_w,
           g_burst_w = burst_w, g_shed_ratio = shed_ratio, g_emergency_ratio = emergency_ratio,
           g_recover_ratio = recover_ratio, g_cut_step_w = cut_step_w, g_recover_step_w = recover_step_w,
           g_recover_interval_s = recover_interval_s, g_stale_timeout_s = stale_timeout_s,
           g_thermal_trim_c = thermal_trim_c, g_thermal_recover_c = thermal_recover_c,
           g_thermal_step_w = thermal_step_w, g_thermal_interval_s = thermal_interval_s\<rparr>)))))))))))))))))"

text \<open>What the proofs use of a validated configuration.\<close>

definition gcfg_ok :: "gov_cfg \<Rightarrow> bool" where
  "gcfg_ok g = (g_mode g \<in> {''off'', ''static'', ''dynamic''} \<and>
     near_range 10 45 (g_static_cap_w g) \<and> near_range 10 45 (g_ceiling_w g) \<and> near_range 9 20 (g_floor_w g) \<and>
     near_range 0 5 (g_burst_w g) \<and> near_range 1 15 (g_cut_step_w g) \<and> near_range 1 5 (g_recover_step_w g) \<and>
     near_range 1 30 (g_recover_interval_s g) \<and> near_range 1 10 (g_stale_timeout_s g) \<and>
     near_range (1/2) 5 (g_thermal_step_w g) \<and> near_range 1 30 (g_thermal_interval_s g) \<and>
     g_recover_ratio g \<le> g_shed_ratio g \<and> g_shed_ratio g \<le> g_emergency_ratio g)"

lemma SPEC_governor:
  "dget SPEC (''governor'' @ ''.'' @ ''mode'') = Some (False, Choice [''off'', ''static'', ''dynamic''])"
  "dget SPEC (''governor'' @ ''.'' @ ''static_cap_w'') = Some (False, Num 10 45)"
  "dget SPEC (''governor'' @ ''.'' @ ''ceiling_w'') = Some (False, Num 10 45)"
  "dget SPEC (''governor'' @ ''.'' @ ''floor_w'') = Some (False, Num 9 20)"
  "dget SPEC (''governor'' @ ''.'' @ ''burst_w'') = Some (False, Num 0 5)"
  "dget SPEC (''governor'' @ ''.'' @ ''shed_ratio'') = Some (False, Num (fl (70/100)) (fl (95/100)))"
  "dget SPEC (''governor'' @ ''.'' @ ''emergency_ratio'') = Some (False, Num (fl (73/100)) (fl (98/100)))"
  "dget SPEC (''governor'' @ ''.'' @ ''recover_ratio'') = Some (False, Num (fl (50/100)) (fl (90/100)))"
  "dget SPEC (''governor'' @ ''.'' @ ''cut_step_w'') = Some (False, Num 1 15)"
  "dget SPEC (''governor'' @ ''.'' @ ''recover_step_w'') = Some (False, Num 1 5)"
  "dget SPEC (''governor'' @ ''.'' @ ''recover_interval_s'') = Some (False, Num 1 30)"
  "dget SPEC (''governor'' @ ''.'' @ ''stale_timeout_s'') = Some (False, Num 1 10)"
  "dget SPEC (''governor'' @ ''.'' @ ''thermal_trim_c'') = Some (True, Num 80 99)"
  "dget SPEC (''governor'' @ ''.'' @ ''thermal_recover_c'') = Some (False, Num 70 97)"
  "dget SPEC (''governor'' @ ''.'' @ ''thermal_step_w'') = Some (False, Num (1/2) 5)"
  "dget SPEC (''governor'' @ ''.'' @ ''thermal_interval_s'') = Some (False, Num 1 30)"
  by (simp_all add: SPEC_def)

lemma eighths_double [simp]: "is_double (numeral a / 8)" if "numeral a < (2::int) ^ 53"
  using is_double_half_power [OF is_double_int [of "numeral a"], of "numeral a" 3] that by simp

text \<open>The ratio rules give the order of the thresholds.\<close>

lemma cfg_wf_ratio_rules:
  assumes "cfg_wf cfg"
  shows "cmp2 (\<lambda>a b. pf_le a (pf_add (pf_add b (- fl (5/100))) EPS)) ''governor.recover_ratio'' ''governor.shed_ratio'' (flatten cfg []) = Inr True"
    "cmp2 (\<lambda>a b. pf_le (pf_add (pf_add b (fl (3/100))) (- EPS)) a) ''governor.emergency_ratio'' ''governor.shed_ratio'' (flatten cfg []) = Inr True"
  using assms by (simp_all add: cfg_wf_def flat_ok_def rules_ok_def CROSS_RULES_def rule_ok_def)

lemma ratio_order:
  assumes "\<bar>sh\<bar> \<le> 2"
  shows "pf_le (Fin r) (pf_add (pf_add (Fin sh) (- fl (5/100))) EPS) \<Longrightarrow> r \<le> sh"
    "pf_le (pf_add (pf_add (Fin sh) (fl (3/100))) (- EPS)) (Fin e) \<Longrightarrow> sh \<le> e"
proof -
  have f: "\<bar>fl x - x\<bar> \<le> 1 / 1024" if "\<bar>x\<bar> \<le> 8" for x using that by (intro fl_near) simp
  note E = EPS_bounds
  have s: "\<bar>fl sh - sh\<bar> \<le> 1 / 1024" using assms by (intro f) simp
  have c: "\<bar>fl (5/100) - 5/100\<bar> \<le> 1 / 1024" "\<bar>fl (3/100) - 3/100\<bar> \<le> 1 / 1024" by (intro f, simp)+
  have a: "\<bar>fl (fl sh - fl (5/100)) - (fl sh - fl (5/100))\<bar> \<le> 1 / 1024" using s c assms by (intro f) linarith
  have b: "\<bar>fl (fl (fl sh - fl (5/100)) + EPS) - (fl (fl sh - fl (5/100)) + EPS)\<bar> \<le> 1 / 1024"
    using a s c assms E by (intro f) linarith
  show "r \<le> sh" if p: "pf_le (Fin r) (pf_add (pf_add (Fin sh) (- fl (5/100))) EPS)"
  proof -
    have "r \<le> fl (fl (fl sh - fl (5/100)) + EPS)" using p by (simp add: fl_minus EPS_def)
    then show ?thesis using a b s c E by linarith
  qed
  have a': "\<bar>fl (fl sh + fl (3/100)) - (fl sh + fl (3/100))\<bar> \<le> 1 / 1024" using s c assms by (intro f) linarith
  have b': "\<bar>fl (fl (fl sh + fl (3/100)) - EPS) - (fl (fl sh + fl (3/100)) - EPS)\<bar> \<le> 1 / 1024"
    using a' s c assms E by (intro f) linarith
  show "sh \<le> e" if p: "pf_le (pf_add (pf_add (Fin sh) (fl (3/100))) (- EPS)) (Fin e)"
  proof -
    have "fl (fl (fl sh + fl (3/100)) - EPS) \<le> e" using p by (simp add: fl_minus EPS_def)
    then show ?thesis using a' b' s c E by linarith
  qed
qed

lemma flatten_sect_num:
  assumes "cfg_wf cfg" "cfg_section cfg sec = Inr d" "sect_num d k = Inr x" "CHR ''.'' \<notin> set sec"
  shows "cfg_num (flatten cfg []) (sec @ ''.'' @ k) = Inr (Fin x)"
  using assms flatten_dotted [of cfg sec k]
  by (auto simp: cfg_wf_def cfg_num_def cfg_section_def sect_num_def sect_val_def res_bind_Inr
      split: option.splits pyval.splits pyfloat.splits)

text \<open>Every well-formed configuration has a governor section of the shape the proofs rely on.\<close>

lemma gov_cfg_of_wf:
  assumes wf: "cfg_wf cfg"
  shows "\<exists>g. gov_cfg_of cfg = Inr g \<and> gcfg_ok g"
proof -
  obtain d where d: "cfg_section cfg ''governor'' = Inr d" using cfg_wf_key [OF wf SPEC_governor(1)] by auto
  note N = cfg_wf_num [OF wf d]
  obtain mode where 1: "sect_str d ''mode'' = Inr mode" "mode \<in> {''off'', ''static'', ''dynamic''}"
    using cfg_wf_choice [OF wf d SPEC_governor(1)] by auto
  obtain x2 x3 x4 x5 where 2: "sect_num d ''static_cap_w'' = Inr x2" "in_range 10 45 (Fin x2)"
      "sect_num d ''ceiling_w'' = Inr x3" "in_range 10 45 (Fin x3)"
      "sect_num d ''floor_w'' = Inr x4" "in_range 9 20 (Fin x4)" "sect_num d ''burst_w'' = Inr x5" "in_range 0 5 (Fin x5)"
    using N [OF SPEC_governor(2)] N [OF SPEC_governor(3)] N [OF SPEC_governor(4)] N [OF SPEC_governor(5)] by auto
  obtain x6 x7 x8 where 3: "sect_num d ''shed_ratio'' = Inr x6" "in_range (fl (70/100)) (fl (95/100)) (Fin x6)"
      "sect_num d ''emergency_ratio'' = Inr x7" "sect_num d ''recover_ratio'' = Inr x8"
    using N [OF SPEC_governor(6)] N [OF SPEC_governor(7)] N [OF SPEC_governor(8)] by auto
  obtain x9 x10 x11 x12 where 4: "sect_num d ''cut_step_w'' = Inr x9" "in_range 1 15 (Fin x9)"
      "sect_num d ''recover_step_w'' = Inr x10" "in_range 1 5 (Fin x10)"
      "sect_num d ''recover_interval_s'' = Inr x11" "in_range 1 30 (Fin x11)"
      "sect_num d ''stale_timeout_s'' = Inr x12" "in_range 1 10 (Fin x12)"
    using N [OF SPEC_governor(9)] N [OF SPEC_governor(10)] N [OF SPEC_governor(11)] N [OF SPEC_governor(12)] by auto
  obtain x13 x14 x15 x16 where 5: "sect_onum d ''thermal_trim_c'' = Inr x13" "sect_num d ''thermal_recover_c'' = Inr x14"
      "sect_num d ''thermal_step_w'' = Inr x15" "in_range (1/2) 5 (Fin x15)"
      "sect_num d ''thermal_interval_s'' = Inr x16" "in_range 1 30 (Fin x16)"
    using cfg_wf_onum [OF wf d SPEC_governor(13)] N [OF SPEC_governor(14)] N [OF SPEC_governor(15)] N [OF SPEC_governor(16)] by auto
  have "0 \<le> fl (70/100) - EPS" using fl_ge [of "1/2" "70/100"] EPS_bounds by simp
  then have "0 \<le> fl (fl (70/100) - EPS)" by (rule fl_nonneg)
  then have "0 \<le> x6" using 3(2) unfolding in_range_def by (simp del: fl_nonneg)
  moreover have "fl (95/100) + EPS \<le> 2" using fl_le [of 1 "95/100"] EPS_bounds by simp
  then have "fl (fl (95/100) + EPS) \<le> 2" by (intro fl_le) simp_all
  then have "x6 \<le> 2" using 3(2) by (simp add: in_range_def)
  ultimately have b: "\<bar>x6\<bar> \<le> 2" by simp
  note F = flatten_sect_num [OF wf d]
  have "x8 \<le> x6" "x6 \<le> x7"
    using cfg_wf_ratio_rules [OF wf] F [OF 3(1)] F [OF 3(3)] F [OF 3(4)] ratio_order [OF b, of x8] ratio_order [OF b, of x7]
    by (simp_all add: cmp2_def)
  then show ?thesis using 1 2 3 4 5 d
    by (simp add: gov_cfg_of_def gcfg_ok_def in_range_near is_double_minus)
qed

section \<open>Bounds of the dynamic branch\<close>

lemma fsub_step: "\<bar>x\<bar> \<le> 1000 \<Longrightarrow> 1 / 4 \<le> d \<Longrightarrow> d \<le> 1000 \<Longrightarrow> fsub x d < x \<and> fsub x d \<le> x - d + 1 / 1024"
proof -
  assume a: "\<bar>x\<bar> \<le> 1000" "1 / 4 \<le> d" "d \<le> 1000"
  then have "\<bar>x - d\<bar> \<le> 2 ^ 40" by (simp add: abs_le_iff)
  from fl_near [OF this] a show ?thesis by linarith
qed

lemma fadd_step: "\<bar>x\<bar> \<le> 1000 \<Longrightarrow> 1 / 4 \<le> d \<Longrightarrow> d \<le> 1000 \<Longrightarrow> x < fadd x d \<and> fadd x d \<le> x + d + 1 / 1024"
proof -
  assume a: "\<bar>x\<bar> \<le> 1000" "1 / 4 \<le> d" "d \<le> 1000"
  then have "\<bar>x + d\<bar> \<le> 2 ^ 40" by (simp add: abs_le_iff)
  from fl_near [OF this] a show ?thesis by linarith
qed

lemma gcfg_okD:
  assumes "gcfg_ok g"
  shows "71 / 8 \<le> gov_floor g" "gov_floor g \<le> 161 / 8" "gov_floor g \<le> g_static_cap_w g"
    "g_static_cap_w g \<le> 361 / 8" "79 / 8 \<le> g_static_cap_w g"
    "1 / 4 \<le> g_cut_step_w g" "g_cut_step_w g \<le> 1000" "1 / 4 \<le> g_recover_step_w g" "g_recover_step_w g \<le> 1000"
    "1 / 4 \<le> g_thermal_step_w g" "g_thermal_step_w g \<le> 1000"
    "0 < g_stale_timeout_s g" "0 < g_recover_interval_s g" "0 < g_thermal_interval_s g"
    "g_recover_ratio g \<le> g_shed_ratio g" "g_shed_ratio g \<le> g_emergency_ratio g"
  using assms by (auto simp: gcfg_ok_def near_range_def gov_floor_def)

lemma gov_top_max1: "gov_top g s \<le> max1 s" "gov_top g s \<le> 45"
  by (auto simp: gov_top_def cap1_max1 max1_def HARD_MAX_W_def)

lemma floor_top: "gcfg_ok g \<Longrightarrow> min (gov_floor g) (max1 s) \<le> gov_top g s"
  using gcfg_okD(3) [of g] by (auto simp: gov_top_def cap1_max1)

text \<open>The effective ceiling is between the floor and the top (when the firmware leaves room).\<close>

lemma thermal_held_bounds: "thermal_held g flr ceil_w s \<le> ceil_w \<and> min flr ceil_w \<le> thermal_held g flr ceil_w s"
  by (auto simp: thermal_held_def split: option.split)

lemma thermal_move_bounds:
  assumes "gcfg_ok g" "71 / 8 \<le> flr" "ceil_w \<le> 45" "cap \<le> ceil_w" "min flr ceil_w \<le> cap" "- 100 \<le> ceil_w"
  shows "fst (thermal_move g now t flr ceil_w cap w) \<le> ceil_w \<and> min flr ceil_w \<le> fst (thermal_move g now t flr ceil_w cap w)"
proof -
  note G = gcfg_okD(10,11) [OF assms(1)]
  have d: "fst (thermal_down g now t trim flr cap w) \<le> ceil_w \<and> min flr ceil_w \<le> fst (thermal_down g now t trim flr cap w)" for trim
  proof -
    let ?st = "case s_pl1_w (fst w) of Some p \<Rightarrow> min cap p | None \<Rightarrow> cap"
    have "?st \<le> cap" by (simp split: option.split)
    moreover have "fsub ?st (g_thermal_step_w g) < ?st" if "flr < ?st"
      using that \<open>?st \<le> cap\<close> assms G by (intro conjunct1 [OF fsub_step]) auto
    ultimately show ?thesis using assms by (auto simp: thermal_down_def Let_def simp del: split_paired_All)
  qed
  have u: "fst (thermal_up g now t ceil_w cap w) \<le> ceil_w \<and> min flr ceil_w \<le> fst (thermal_up g now t ceil_w cap w)"
  proof -
    have "cap < fadd cap (g_thermal_step_w g)" using assms G by (intro conjunct1 [OF fadd_step]) (auto simp: min_def split: if_splits)
    then show ?thesis using assms by (simp add: thermal_up_def Let_def)
  qed
  show ?thesis using d u assms(4,5) by (simp add: thermal_move_def split: option.split)
qed

lemma thermal_bounds:
  assumes "gcfg_ok g" "- 100 \<le> max1 s" "s = fst w"
  shows "fst (thermal g now t (gov_floor g) (gov_top g s) w) \<le> gov_top g s \<and>
    min (gov_floor g) (gov_top g s) \<le> fst (thermal g now t (gov_floor g) (gov_top g s) w)"
proof -
  have "- 100 \<le> gov_top g s" using assms(2) gcfg_okD(1,3) [OF assms(1)] by (auto simp: gov_top_def cap1_max1)
  with thermal_move_bounds [OF assms(1) gcfg_okD(1) [OF assms(1)], where ceil_w = "gov_top g s" and w = w and now = now and t = t
      and cap = "thermal_held g (gov_floor g) (gov_top g s) s"] gov_top_max1(2) [of g s]
    thermal_held_bounds [of g "gov_floor g" "gov_top g s" s] assms(3)
  show ?thesis by (simp add: thermal_def case_prod_beta)
qed

text \<open>The rules keep PL1 between the floor and the ceiling, and only rule 4 raises it.\<close>

lemma rule_shed_pl1:
  assumes "gcfg_ok g" "pl1 \<le> 45" "71 / 8 \<le> flr"
  shows "fst (snd (rule_shed g now mn shed flr (new, pl1, w))) \<le> pl1 \<and>
    min flr pl1 \<le> fst (snd (rule_shed g now mn shed flr (new, pl1, w)))"
proof -
  have "flr < pl1 \<Longrightarrow> fsub pl1 (g_cut_step_w g) < pl1"
    using assms gcfg_okD(6,7) [OF assms(1)] by (intro conjunct1 [OF fsub_step]) auto
  then show ?thesis by (auto simp: rule_shed_def Let_def)
qed

lemma rule_below_pl1:
  assumes "gcfg_ok g" "- 200 \<le> pl1" "pl1 \<le> 45" "pl1 \<le> ceil_w"
  shows "pl1 \<le> fst (snd (rule_below g now mn rec top_w ceil_w (new, pl1, w))) \<and>
    fst (snd (rule_below g now mn rec top_w ceil_w (new, pl1, w))) \<le> ceil_w"
proof -
  have "pl1 < fadd pl1 (g_recover_step_w g)"
    using assms gcfg_okD(8,9) [OF assms(1)] by (intro conjunct1 [OF fadd_step]) auto
  then have "pl1 \<le> fst (rule_recover g now mn rec ceil_w (pl1, w)) \<and> fst (rule_recover g now mn rec ceil_w (pl1, w)) \<le> ceil_w" for w
    using assms by (auto simp: rule_recover_def Let_def split: option.split)
  then show ?thesis using assms by (auto simp: rule_below_def Let_def case_prod_beta)
qed

lemma gov_rules_pl1:
  assumes "gcfg_ok g" "min flr ceil_w \<le> pl1" "pl1 \<le> ceil_w" "ceil_w \<le> 45" "71 / 8 \<le> flr" "- 100 \<le> ceil_w"
  shows "min flr ceil_w \<le> fst (snd (gov_rules g now pdtr mn th flr top_w ceil_w (new, pl1, w))) \<and>
    fst (snd (gov_rules g now pdtr mn th flr top_w ceil_w (new, pl1, w))) \<le> max flr ceil_w"
proof -
  obtain shed emg rec where th: "th = (shed, emg, rec)" by (cases th)
  have "- 200 \<le> pl1" "pl1 \<le> 45" using assms by (auto simp: min_def split: if_splits)
  from rule_shed_pl1 [OF assms(1) this(2) assms(5), of now mn shed new w]
    rule_below_pl1 [OF assms(1) this assms(3), of now mn rec top_w new w] assms
  show ?thesis by (auto simp: gov_rules_def th rule_emergency_def Let_def)
qed

lemma dyn_proposal_pl1:
  assumes "gcfg_ok g" "- 100 \<le> max1 (fst w)"
  shows "min (gov_floor g) (gov_top g (fst w)) \<le> fst (snd (dyn_proposal g m now w)) \<and>
    fst (snd (dyn_proposal g m now w)) \<le> max (gov_floor g) (gov_top g (fst w))"
proof -
  let ?f = "gov_floor g" and ?t = "gov_top g (fst w)"
  obtain c w' where c: "thermal g now (m_pkg_c m) ?f ?t w = (c, w')" by (cases "thermal g now (m_pkg_c m) ?f ?t w") auto
  have b: "c \<le> ?t" "min ?f ?t \<le> c" using thermal_bounds [OF assms refl, of now "m_pkg_c m"] c by auto
  have t: "- 100 \<le> ?t" using assms(2) gcfg_okD(1,3) [OF assms(1)] by (auto simp: gov_top_def cap1_max1)
  have c45: "c \<le> 45" "- 100 \<le> c" using b gov_top_max1(2) [of g "fst w"] t gcfg_okD(1) [OF assms(1)] by linarith+
  let ?p = "min (max (start_pl1 g (fst w')) ?f) c"
  have p: "min ?f c \<le> ?p" "?p \<le> c" by auto
  note R = gov_rules_pl1 [OF assms(1) p c45(1) gcfg_okD(1) [OF assms(1)] c45(2)]
  have "min ?f ?t \<le> min ?f c" "max ?f c \<le> max ?f ?t" using b by auto
  then have R: "min ?f ?t \<le> fst (snd (gov_rules g now pd mn th ?f ?t c (new, ?p, w'))) \<and>
      fst (snd (gov_rules g now pd mn th ?f ?t c (new, ?p, w'))) \<le> max ?f ?t" for pd mn th new
    using R [of now pd mn th ?t new w'] by (meson order_trans)
  have "min ?f ?t \<le> ?p \<and> ?p \<le> max ?f ?t" using p b by auto
  with R show ?thesis
    by (simp add: dyn_proposal_def c Let_def del: min_le_iff_disj min.bounded_iff max.bounded_iff
        le_max_iff_disj split: option.split)
qed

end
