(* ===== verification/Governor_Props.thy ===== *)
theory Governor_Props
  imports Governor
begin

text \<open>
  What the governor promises: the limits it commands over whole runs, its state machine, the emergency
  and fallback rules, the retry backoff, and the pace of cuts and recoveries.
\<close>

section \<open>The limits over a whole run\<close>

text \<open>The limits a step leaves are never below the lowest floor a configuration may have.\<close>

definition lowest :: "gov_state \<Rightarrow> rat" where
  "lowest s = min (71 / 8) (max1 s)"

definition pl1_ok :: "gov_state \<Rightarrow> gov_state \<Rightarrow> bool" where
  "pl1_ok s0 s = (case s_pl1_w s of None \<Rightarrow> True | Some p \<Rightarrow> lowest s0 \<le> p)"

lemma lowest_cap1: "71 / 8 \<le> x \<or> lowest s \<le> x \<Longrightarrow> s_fw_pl1_w s' = s_fw_pl1_w s \<Longrightarrow> lowest s \<le> cap1 s' x"
  by (auto simp: lowest_def cap1_max1 max1_def)

lemma fallback_w_lowest: "gcfg_ok g \<Longrightarrow> pl1_ok s0 s \<Longrightarrow> lowest s0 \<le> fallback_w s (g_static_cap_w g)"
  using gcfg_okD(5) [of g] by (auto simp: pl1_ok_def fallback_w_def lowest_def split: option.splits)

lemma gov_off_pl1: "gcfg_ok g \<Longrightarrow> s_fw_pl1_w (fst w) = s_fw_pl1_w s0 \<Longrightarrow> pl1_ok s0 (fst w) \<Longrightarrow> pl1_ok s0 (fst (gov_off g now w))"
  using gcfg_okD(5) [of g] by (auto simp: gov_off_def Let_def pl1_ok_def intro!: lowest_cap1)

lemma gov_readback_pl1:
  assumes "gcfg_ok g" "s_fw_pl1_w (fst w) = s_fw_pl1_w s0" "pl1_ok s0 (fst w)"
  shows "pl1_ok s0 (fst (snd (gov_readback g m now w)))"
  using assms fallback_w_lowest [OF assms(1), of s0]
  by (auto simp: gov_readback_def Let_def pl1_ok_def split: option.splits intro!: lowest_cap1)

lemma gov_wait_pl1:
  assumes "gcfg_ok g" "s_fw_pl1_w (fst w) = s_fw_pl1_w s0" "pl1_ok s0 (fst w)"
  shows "pl1_ok s0 (fst (snd (snd (gov_wait g m now w))))"
proof -
  have "lowest s0 \<le> cap1 s' (min (g_floor_w g) (g_static_cap_w g))" if "s_fw_pl1_w s' = s_fw_pl1_w s0" for s'
    using gcfg_okD(1) [OF assms(1)] that by (intro lowest_cap1) (auto simp: gov_floor_def)
  then show ?thesis using assms
    by (cases "s_pl1_w (fst w)") (simp_all add: gov_wait_def Let_def pl1_ok_def split: option.split)
qed

lemma gov_static_pl1:
  "gcfg_ok g \<Longrightarrow> s_fw_pl1_w (fst w) = s_fw_pl1_w s0 \<Longrightarrow> pl1_ok s0 (fst (gov_static g now f w))"
  using gcfg_okD(5) [of g] by (auto simp: gov_static_def Let_def pl1_ok_def intro!: lowest_cap1)

lemma gov_stale_pl1:
  assumes "gcfg_ok g" "s_fw_pl1_w (fst w) = s_fw_pl1_w s0" "pl1_ok s0 (fst w)"
  shows "pl1_ok s0 (fst (gov_stale g now b w))"
  using assms fallback_w_lowest [OF assms(1), of s0]
  by (auto simp: gov_stale_def Let_def pl1_ok_def split: option.splits intro!: lowest_cap1)

lemma gov_dynamic_pl1:
  assumes "gcfg_ok g" "s_fw_pl1_w (fst w) = s_fw_pl1_w s0" "0 \<le> max1 s0"
  shows "pl1_ok s0 (fst (gov_dynamic g m now f w))"
proof -
  obtain new pl1 w' where p: "dyn_proposal g m now w = (new, pl1, w')" by (cases "dyn_proposal g m now w") auto
  have m: "max1 (fst w) = max1 s0" using assms(2) by (simp add: max1_def)
  have fw: "s_fw_pl1_w (fst w') = s_fw_pl1_w s0" using dyn_proposal_frame [OF p] assms(2) by (simp add: same_limits_def)
  have "min (gov_floor g) (gov_top g (fst w)) \<le> pl1"
    using dyn_proposal_pl1 [OF assms(1), of w m now] assms(3) m p by simp
  moreover have "lowest s0 \<le> min (gov_floor g) (gov_top g (fst w))"
    using gcfg_okD(1) [OF assms(1)] floor_top [OF assms(1), of "fst w"] by (auto simp: lowest_def m)
  ultimately have "lowest s0 \<le> pl1" by (rule order_trans [rotated])
  then show ?thesis using fw by (auto simp: gov_dynamic_eq p pl1_ok_def intro!: lowest_cap1)
qed

lemma gov_step_pl1:
  assumes "gcfg_ok g" "pl1_ok s s" "0 \<le> max1 s"
  shows "pl1_ok s (fst (gov_step s m g now))"
proof -
  have b: "s_fw_pl1_w (fst (gov_begin s m now, [])) = s_fw_pl1_w s" "pl1_ok s (fst (gov_begin s m now, []))"
    using assms(2) by (auto simp: pl1_ok_def)
  have w: "s_fw_pl1_w (fst w) = s_fw_pl1_w s \<and> pl1_ok s (fst w)" if "settled s m now w" for w
    using assms(2) that by (auto simp: pl1_ok_def settled_def)
  show ?thesis
    by (cases rule: gov_step_cases [of g s m now])
      (use assms b w in \<open>simp_all add: gov_off_pl1 gov_readback_pl1 gov_wait_pl1 gov_static_pl1 gov_stale_pl1 gov_dynamic_pl1\<close>)
qed

text \<open>The governor as a machine over samples, configurations and times, with all actions so far.\<close>

type_synonym gov_input = "gov_sample \<times> gov_cfg \<times> rat"

definition gov_mstep :: "wstep \<Rightarrow> gov_input \<Rightarrow> wstep" where
  "gov_mstep w i = (case i of (m, g, now) \<Rightarrow> case gov_step (fst w) m g now of (s, acts) \<Rightarrow> (s, snd w @ acts))"

definition gov_inv :: "gov_state \<Rightarrow> wstep \<Rightarrow> bool" where
  "gov_inv s0 w = (s_fw_pl1_w (fst w) = s_fw_pl1_w s0 \<and> s_fw_pl2_w (fst w) = s_fw_pl2_w s0 \<and> pl1_ok s0 (fst w) \<and> 0 \<le> max1 s0 \<and>
     list_all (\<lambda>(p, q). lowest s0 \<le> p \<and> p \<le> max1 s0 \<and> q \<le> max2 s0) (limits_of (snd w)))"

definition input_ok :: "gov_input \<Rightarrow> bool" where
  "input_ok i = gcfg_ok (fst (snd i))"

lemma gov_inv_step:
  assumes "gov_inv s0 w" "input_ok i"
  shows "gov_inv s0 (gov_mstep w i)"
proof -
  obtain m g now where i: "i = (m, g, now)" by (cases i)
  obtain s acts where st: "gov_step (fst w) m g now = (s, acts)" by (cases "gov_step (fst w) m g now")
  have m: "max1 (fst w) = max1 s0" "max2 (fst w) = max2 s0" using assms by (simp_all add: gov_inv_def max1_def max2_def)
  have l: "lowest (fst w) = lowest s0" using m by (simp add: lowest_def)
  have a: "agrees (fst w) (s, acts)" using gov_step_agrees [of "fst w" m g now] st by simp
  have q: "pl1_ok (fst w) x = pl1_ok s0 x" for x unfolding pl1_ok_def l ..
  have p: "pl1_ok s0 s" using gov_step_pl1 [of g "fst w" m now] st assms m by (simp add: i gov_inv_def input_ok_def q)
  have "limits_of acts = [] \<or> (\<exists>p q. limits_of acts = [(p, q)] \<and> s_pl1_w s = Some p)"
    using a by (cases "limits_of acts") (auto simp: agrees_def)
  with a p m assms show ?thesis
    by (auto simp: gov_inv_def gov_mstep_def i st agrees_def pl1_ok_def)
qed

interpretation gov: step_machine gov_mstep "gov_inv s0" input_ok for s0
  by unfold_locales (rule gov_inv_step)

text \<open>
  C2: over every run of the governor, whatever the samples and the sequence of validated
  configurations, every limit it commands is at most 45 W and at most the firmware's own limit,
  and PL1 is never below the lowest floor a configuration can have (the 9 W of the range, less
  the tolerance), or the firmware's limit where that is smaller.
\<close>

theorem gov_run_limits:
  assumes "list_all input_ok ins" "0 \<le> or_hard fw1"
    "(p, q) \<in> set (limits_of (snd (run_steps gov_mstep (gov_initial t0 fw1 fw2, []) ins)))"
  shows "p \<le> 45 \<and> q \<le> 45 \<and> p \<le> or_hard fw1 \<and> q \<le> or_hard fw2 \<and> min (71 / 8) (or_hard fw1) \<le> p"
proof -
  let ?s = "gov_initial t0 fw1 fw2"
  have "gov_inv ?s (?s, [])" using assms(2) by (simp add: gov_inv_def pl1_ok_def gov_initial_def max1_def HARD_MAX_W_def)
  from gov.run_keeps [OF this assms(1)] assms(3) show ?thesis
    by (force simp: gov_inv_def list_all_iff lowest_def max1_def max2_def gov_initial_def HARD_MAX_W_def)
qed

definition demo_cfg :: gov_cfg where
  "demo_cfg = \<lparr>g_mode = ''dynamic'', g_static_cap_w = 30, g_ceiling_w = 40, g_floor_w = 10, g_burst_w = 2,
     g_shed_ratio = 7/8, g_emergency_ratio = 15/16, g_recover_ratio = 3/4, g_cut_step_w = 5, g_recover_step_w = 1,
     g_recover_interval_s = 3, g_stale_timeout_s = 2, g_thermal_trim_c = Some 95, g_thermal_recover_c = 90,
     g_thermal_step_w = 1, g_thermal_interval_s = 3\<rparr>"

lemma demo_cfg_ok: "gcfg_ok demo_cfg"
  by code_simp

definition demo_sample :: "rat \<Rightarrow> gov_sample" where
  "demo_sample x = \<lparr>m_pdtr_w = pnum x, m_input_mean_1s = pnum x, m_acpw_w = pnum 64, m_pkg_c = pnum 70, m_readback = None\<rparr>"

lemmas demo_base_defs = demo_sample_def demo_cfg_def gov_initial_def gov_mstep_def zero_counters_def

lemma demo_step: "limits_of (snd (gov_step (gov_initial 0 (Some 44) None) (demo_sample 58) demo_cfg 1)) = [(25, 27)]"
  by (simp add: demo_base_defs gov_defs)

theorem gov_run_limits_witness:
  "(25, 27) \<in> set (limits_of (snd (run_steps gov_mstep (gov_initial 0 (Some 44) None, []) [(demo_sample 58, demo_cfg, 1)]))) \<and>
   (25::rat) \<le> 45 \<and> (27::rat) \<le> 45"
proof -
  have "(25, 27) \<in> set (limits_of (snd (run_steps gov_mstep (gov_initial 0 (Some 44) None, []) [(demo_sample 58, demo_cfg, 1)])))"
    using demo_step by (simp add: gov_mstep_def case_prod_beta)
  with gov_run_limits [OF _ _ this] demo_cfg_ok show ?thesis by (simp add: input_ok_def or_hard_def)
qed

section \<open>Well-formed governor states\<close>

text \<open>
  What every reachable state satisfies: limits have been commanded once the governor left \<open>OFF\<close>, and
  in fallback both limits come from one value and no recovery is under way.
\<close>

definition gov_wf :: "gov_state \<Rightarrow> bool" where
  "gov_wf s = ((s_state s \<noteq> OFF \<longrightarrow> s_pl1_w s \<noteq> None) \<and>
     (s_state s = FALLBACK \<longrightarrow> s_below_recover_since s = None \<and>
        (\<exists>x. s_pl1_w s = Some (cap1 s x) \<and> s_pl2_w s = Some (cap2 s x))))"

lemma cap_cong: "s_fw_pl1_w s' = s_fw_pl1_w s \<Longrightarrow> cap1 s' x = cap1 s x" "s_fw_pl2_w s' = s_fw_pl2_w s \<Longrightarrow> cap2 s' x = cap2 s x"
  by (simp_all add: cap1_def cap2_def)

lemma gov_wf_same:
  "s_state s' = s_state s \<Longrightarrow> s_pl1_w s' = s_pl1_w s \<Longrightarrow> s_pl2_w s' = s_pl2_w s \<Longrightarrow> s_fw_pl1_w s' = s_fw_pl1_w s \<Longrightarrow>
   s_fw_pl2_w s' = s_fw_pl2_w s \<Longrightarrow> s_below_recover_since s' = s_below_recover_since s \<Longrightarrow> gov_wf s' = gov_wf s"
  by (simp add: gov_wf_def cap_cong [of s' s])

lemma gov_wf_upd [simp]:
  "gov_wf (s\<lparr>s_backoff_s := x\<rparr>) = gov_wf s" "gov_wf (s\<lparr>s_retry_at := t\<rparr>) = gov_wf s"
  "gov_wf (s\<lparr>s_counters := c\<rparr>) = gov_wf s" "gov_wf (s\<lparr>s_fallback_reason := r\<rparr>) = gov_wf s"
  by (rule gov_wf_same; simp)+

text \<open>A step ends in fallback with both limits written from one value, or unchanged.\<close>

lemma gov_readback_wf: "gov_wf (fst w) \<Longrightarrow> gov_wf (fst (snd (gov_readback g m now w)))"
proof -
  assume wf: "gov_wf (fst w)"
  have f: "gov_wf (fst (fallback now r c w'))" for r c w'
  proof -
    have "s_fw_pl1_w (fst (fallback now r c w')) = s_fw_pl1_w (fst w')" "s_fw_pl2_w (fst (fallback now r c w')) = s_fw_pl2_w (fst w')"
      by (simp_all add: fallback_def Let_def)
    then show ?thesis by (auto simp: gov_wf_def cap_cong [of "fst (fallback now r c w')" "fst w'"])
  qed
  show ?thesis using wf by (simp add: gov_readback_def Let_def f split: option.split prod.split)
qed

lemma gov_wait_state: "s_state (fst (snd (snd (gov_wait g m now w)))) = s_state (fst w)"
  by (simp add: gov_wait_def Let_def split: option.split prod.split)

lemma gov_wait_pl:
  "(s_pl1_w (fst (snd (snd (gov_wait g m now w)))) = s_pl1_w (fst w) \<and> s_pl2_w (fst (snd (snd (gov_wait g m now w)))) = s_pl2_w (fst w)) \<or>
   (s_pl1_w (fst (snd (snd (gov_wait g m now w)))) = Some (cap1 (fst w) (gov_floor g)) \<and>
    s_pl2_w (fst (snd (snd (gov_wait g m now w)))) = Some (cap2 (fst w) (gov_floor g)) \<and>
    (case s_pl1_w (fst w) of None \<Rightarrow> True | Some p \<Rightarrow> gov_floor g < p))"
  by (simp add: gov_wait_def Let_def gov_floor_def cap1_def cap2_def split: option.split prod.split)

lemma gov_wait_frame [simp]:
  "s_fw_pl1_w (fst (snd (snd (gov_wait g m now w)))) = s_fw_pl1_w (fst w)"
  "s_fw_pl2_w (fst (snd (snd (gov_wait g m now w)))) = s_fw_pl2_w (fst w)"
  "s_below_recover_since (fst (snd (snd (gov_wait g m now w)))) = s_below_recover_since (fst w)"
  by (simp_all add: gov_wait_def Let_def split: option.split prod.split)

lemma gov_wait_wf: "gov_wf (fst w) \<Longrightarrow> gov_wf (fst (snd (snd (gov_wait g m now w))))"
  using gov_wait_pl [of g m now w]
  by (auto simp: gov_wf_def gov_wait_state cap_cong [of "fst (snd (snd (gov_wait g m now w)))" "fst w"])

lemma gov_static_state [simp]: "s_state (fst (gov_static g now f w)) = STATIC"
  by (simp add: gov_static_def Let_def)

lemma gov_off_state [simp]: "s_state (fst (gov_off g now w)) = OFF"
  by (simp add: gov_off_def Let_def)

lemma gov_stale_state [simp]: "s_state (fst (gov_stale g now b w)) = FALLBACK"
  by (simp add: gov_stale_def Let_def)

lemma gov_stale_pl [simp]:
  "s_pl1_w (fst (gov_stale g now b w)) = Some (cap1 (fst w) (fallback_w (fst w) (g_static_cap_w g)))"
  "s_pl2_w (fst (gov_stale g now b w)) = Some (cap2 (fst w) (fallback_w (fst w) (g_static_cap_w g)))"
  by (simp_all add: gov_stale_def Let_def fallback_w_def cap1_def cap2_def)

lemma gov_stale_frame [simp]:
  "s_fw_pl1_w (fst (gov_stale g now b w)) = s_fw_pl1_w (fst w)"
  "s_fw_pl2_w (fst (gov_stale g now b w)) = s_fw_pl2_w (fst w)"
  by (simp_all add: gov_stale_def fallback_def Let_def)

lemma gov_stale_below: "s_below_recover_since (fst (gov_stale g now b w)) =
    (if s_state (fst w) = FALLBACK then s_below_recover_since (fst w) else None)"
  by (simp add: gov_stale_def Let_def)

lemma gov_stale_wf: "gov_wf (fst w) \<Longrightarrow> gov_wf (fst (gov_stale g now b w))"
  by (auto simp: gov_wf_def gov_stale_below cap_cong [of "fst (gov_stale g now b w)" "fst w"])

text \<open>The proposed state of the dynamic branch.\<close>

lemma gov_rules_new:
  "new \<in> {NORMAL, TRIM, EMERGENCY} \<Longrightarrow> fst (gov_rules g now pdtr mn th flr top_w ceil_w (new, pl1, w)) \<in> {NORMAL, TRIM, EMERGENCY}"
  by (simp add: gov_rules_def rule_emergency_def rule_shed_def rule_below_def Let_def case_prod_beta split: prod.split)

text \<open>The two ways the dynamic branch makes its proposal.\<close>

lemma dyn_proposal_cases:
  obtains
    (invalid) c w' new pl1 where "thermal g now (m_pkg_c m) (gov_floor g) (gov_top g (fst w)) w = (c, w')"
      "pl1 = min (max (start_pl1 g (fst w')) (gov_floor g)) c" "thermal_same w w'"
      "new = (if \<not> needs_resume (fst w') then s_state (fst w') else if gov_top g (fst w) \<le> pl1 then NORMAL else TRIM)"
      "valid_sample m = None" "dyn_proposal g m now w = (new, pl1, w')"
  | (valid) c w' new pl1 pdtr acpw mn where "thermal g now (m_pkg_c m) (gov_floor g) (gov_top g (fst w)) w = (c, w')"
      "pl1 = min (max (start_pl1 g (fst w')) (gov_floor g)) c" "thermal_same w w'"
      "new = (if \<not> needs_resume (fst w') then s_state (fst w') else if gov_top g (fst w) \<le> pl1 then NORMAL else TRIM)"
      "valid_sample m = Some (pdtr, acpw)" "mn = (case num_of (m_input_mean_1s m) of Some x \<Rightarrow> x | None \<Rightarrow> pdtr)"
      "dyn_proposal g m now w = gov_rules g now pdtr mn
         (fmul acpw (g_shed_ratio g), fmul acpw (g_emergency_ratio g), fmul acpw (g_recover_ratio g))
         (gov_floor g) (gov_top g (fst w)) c (new, pl1, w')"
proof -
  obtain c w' where c: "thermal g now (m_pkg_c m) (gov_floor g) (gov_top g (fst w)) w = (c, w')"
    by (cases "thermal g now (m_pkg_c m) (gov_floor g) (gov_top g (fst w)) w")
  have t: "thermal_same w w'" using thermal_frame [of w g now "m_pkg_c m" "gov_floor g" "gov_top g (fst w)"] c by simp
  show thesis
  proof (cases "valid_sample m")
    case None
    then show thesis by (intro invalid [OF c refl t refl]) (simp_all add: dyn_proposal_def c)
  next
    case (Some v)
    obtain pdtr acpw where v: "v = (pdtr, acpw)" by (cases v)
    then have "0 < acpw" using Some by (auto simp: valid_sample_def split: option.splits if_splits)
    then show thesis using Some v by (intro valid [OF c refl t refl _ refl]) (simp_all add: dyn_proposal_def c thresholds_def Let_def)
  qed
qed

lemma dyn_proposal_new: "fst (dyn_proposal g m now w) \<in> {NORMAL, TRIM, EMERGENCY}"
proof -
  have n: "(if \<not> needs_resume s then s_state s else if t \<le> p then NORMAL else TRIM) \<in> {NORMAL, TRIM, EMERGENCY}" for t p :: rat and s
    by (auto simp: needs_resume_def)
  show ?thesis
  proof (cases rule: dyn_proposal_cases [of g now m w])
    case (invalid c w' new pl1)
    then show ?thesis using n by simp
  next
    case (valid c w' new pl1 pdtr acpw mn)
    from valid(4) n have "new \<in> {NORMAL, TRIM, EMERGENCY}" by (simp only:)
    with valid(7) gov_rules_new show ?thesis by (simp only:)
  qed
qed

lemma gov_dynamic_state: "s_state (fst (gov_dynamic g m now f w)) = fst (dyn_proposal g m now w)"
  by (simp add: gov_dynamic_eq case_prod_beta)

lemma gov_dynamic_pl: "s_pl1_w (fst (gov_dynamic g m now f w)) = Some (cap1 (fst w) (fst (snd (dyn_proposal g m now w))))"
proof -
  obtain new pl1 w' where p: "dyn_proposal g m now w = (new, pl1, w')" by (cases "dyn_proposal g m now w") auto
  show ?thesis using dyn_proposal_frame [OF p] by (simp add: gov_dynamic_eq p cap1_def same_limits_def)
qed

lemma gov_step_wf:
  assumes "gov_wf s"
  shows "gov_wf (fst (gov_step s m g now))"
proof -
  have b: "gov_wf (fst (gov_begin s m now, []))" using assms by (simp add: gov_wf_same [of "gov_begin s m now" s])
  have w: "gov_wf (fst w)" if "settled s m now w" for w
    using that assms gov_wf_same [of "fst w" s] by (simp add: settled_def)
  show ?thesis
  proof (cases rule: gov_step_cases [of g s m now])
    case off
    then show ?thesis by (simp add: gov_wf_def)
  next
    case (readback why)
    then show ?thesis using gov_readback_wf [OF b] by simp
  next
    case (wait t w')
    then show ?thesis using gov_wait_wf [OF w] by simp
  next
    case (static w')
    then show ?thesis by (simp add: gov_wf_def gov_static_def Let_def)
  next
    case (stale w' b')
    then show ?thesis using gov_stale_wf [OF w] by simp
  next
    case (dynamic w')
    then show ?thesis using dyn_proposal_new [of g m now w'] by (auto simp: gov_wf_def gov_dynamic_state gov_dynamic_pl)
  qed
qed

interpretation gov_wf: step_machine gov_mstep "\<lambda>w. gov_wf (fst w)" "\<lambda>i. True"
  by unfold_locales (auto simp: gov_mstep_def case_prod_beta intro: gov_step_wf)

definition gov_reached :: "rat \<Rightarrow> rat option \<Rightarrow> rat option \<Rightarrow> gov_input list \<Rightarrow> gov_state" where
  "gov_reached t0 fw1 fw2 ins = fst (run_steps gov_mstep (gov_initial t0 fw1 fw2, []) ins)"

lemma gov_reached_wf: "gov_wf (gov_reached t0 fw1 fw2 ins)"
  unfolding gov_reached_def by (rule gov_wf.run_keeps) (simp_all add: gov_wf_def gov_initial_def list_all_iff)

text \<open>
  One step emits at most one limit write; the limits the state remembers afterwards are the ones
  written, or the old ones when nothing was written, and the counter of writes grows with them.
\<close>

theorem gov_step_actions:
  "case gov_step s m g now of (s', acts) \<Rightarrow>
     (case limits_of acts of
        [] \<Rightarrow> s_pl1_w s' = s_pl1_w s \<and> s_pl2_w s' = s_pl2_w s \<and> writes (s_counters s') = writes (s_counters s)
      | [(p, q)] \<Rightarrow> s_pl1_w s' = Some p \<and> s_pl2_w s' = Some q \<and> writes (s_counters s') = writes (s_counters s) + 1
      | _ \<Rightarrow> False)"
  using gov_step_agrees [of s m g now] by (auto simp: agrees_def split: list.split)

section \<open>Emergencies and fallback\<close>

lemma not_stale_valid: "gcfg_ok g \<Longrightarrow> settled s m now w \<Longrightarrow> valid_sample m \<noteq> None \<Longrightarrow> \<not> gov_is_stale g now (fst w)"
  using gcfg_okD(12) [of g] by (auto simp: gov_is_stale_def settled_def)

lemma dyn_proposal_emergency:
  assumes "valid_sample m = Some (pdtr, acpw)" "fmul acpw (g_emergency_ratio g) \<le> pdtr"
  shows "\<exists>w'. dyn_proposal g m now w = (EMERGENCY, gov_floor g, w') \<and> same_limits (fst w) (fst w')"
proof (cases rule: dyn_proposal_cases [of g now m w])
  case (invalid c w' new pl1)
  then show ?thesis using assms by simp
next
  case (valid c w' new pl1 pdtr' acpw' mn)
  then have "dyn_proposal g m now w = rule_emergency pdtr (fmul acpw (g_emergency_ratio g)) (gov_floor g) (new, pl1, w')"
    using assms by (simp add: gov_rules_def)
  then obtain w'' where e: "dyn_proposal g m now w = (EMERGENCY, gov_floor g, w'')" by (simp add: rule_emergency_def Let_def)
  with dyn_proposal_frame [OF e] show ?thesis by blast
qed


text \<open>
  In fallback the limit never rises: whenever a step ends in the fallback state, PL1 is at most
  what was commanded before the step.
\<close>

theorem gov_fallback_never_raises:
  assumes "s_state (fst (gov_step s m g now)) = FALLBACK" "s_pl1_w s = Some p"
  shows "\<exists>p'. s_pl1_w (fst (gov_step s m g now)) = Some p' \<and> p' \<le> p"
proof (cases rule: gov_step_cases [of g s m now])
  case (readback why)
  then show ?thesis using assms(2) by (auto simp: gov_readback_def Let_def fallback_w_def cap1_def)
next
  case (wait t w)
  then show ?thesis using assms(2) gov_wait_pl [of g m now w] by (auto simp: settled_def cap1_def)
next
  case (stale w b)
  then show ?thesis using assms(2) by (auto simp: settled_def fallback_w_def cap1_def)
next
  case (dynamic w)
  then show ?thesis using assms(1) dyn_proposal_new [of g m now w] by (auto simp: gov_dynamic_state)
qed (use assms in \<open>simp_all\<close>)

lemma thermal_upper:
  assumes "gcfg_ok g"
  shows "fst (thermal g now t (gov_floor g) (gov_top g (fst w)) w) \<le> gov_top g (fst w)"
proof -
  let ?f = "gov_floor g" and ?t = "gov_top g (fst w)"
  have "fst (thermal_down g now t trim ?f cap w) \<le> ?t" if "cap \<le> ?t" for cap trim
  proof -
    let ?st = "case s_pl1_w (fst w) of Some p \<Rightarrow> min cap p | None \<Rightarrow> cap"
    have st: "?st \<le> cap" by (simp split: option.split)
    have "fsub ?st (g_thermal_step_w g) < ?st" if "?f < ?st"
      using that st \<open>cap \<le> ?t\<close> gov_top_max1(2) [of g "fst w"] gcfg_okD(1,10,11) [OF assms]
      by (intro conjunct1 [OF fsub_step]) auto
    then show ?thesis using st that by (auto simp: thermal_down_def Let_def)
  qed
  with thermal_held_bounds [of g ?f ?t "fst w"] show ?thesis
    by (simp add: thermal_def thermal_move_def thermal_up_def Let_def case_prod_beta split: option.split)
qed

lemma rule_below_no_recovery:
  assumes "s_below_recover_since (fst w) = None"
  shows "fst (snd (rule_below g now mn rec top_w ceil_w (new, pl1, w))) = pl1"
  using assms by (simp add: rule_below_def rule_recover_def Let_def case_prod_beta)

text \<open>
  Leaving fallback never raises the limit either, except to the floor: from a reachable fallback
  state, one step in dynamic mode leaves PL1 at most at the larger of its old value and the floor.
\<close>

theorem gov_leave_fallback:
  assumes "s = gov_reached t0 fw1 fw2 ins" "gcfg_ok g" "g_mode g = ''dynamic''" "s_state s = FALLBACK" "s_pl1_w s = Some p"
  shows "\<exists>p'. s_pl1_w (fst (gov_step s m g now)) = Some p' \<and> p' \<le> max p (gov_floor g)"
proof (cases "s_state (fst (gov_step s m g now)) = FALLBACK")
  case True
  with gov_fallback_never_raises assms(5) show ?thesis by (fastforce simp: le_max_iff_disj)
next
  case no: False
  have rb: "m_readback m \<noteq> Some (False, why)" for why
  proof
    assume "m_readback m = Some (False, why)"
    with no assms(3,4) show False by (auto simp: gov_step_def gov_readback_def Let_def)
  qed
  show ?thesis
  proof (cases rule: gov_step_cases [of g s m now])
    case (wait t w)
    with no show ?thesis by (simp add: gov_wait_state settled_def)
  next
    case (dynamic w)
    have below: "s_below_recover_since (fst w) = None"
      using gov_reached_wf [of t0 fw1 fw2 ins] assms(1,4) dynamic(4) by (simp add: gov_wf_def settled_def)
    have w: "s_state (fst w) = FALLBACK" "s_pl1_w (fst w) = Some p" using dynamic(4) assms by (auto simp: settled_def)
    have "fst (snd (dyn_proposal g m now w)) \<le> max p (gov_floor g)"
    proof (cases rule: dyn_proposal_cases [of g now m w])
      case (invalid c w' new pl1)
      then show ?thesis using w by (auto simp: start_pl1_def needs_resume_def thermal_same_def same_limits_def fallback_w_def)
    next
      case (valid c w' new pl1 pdtr acpw mn)
      have b: "pl1 \<le> max p (gov_floor g)"
        using valid w by (auto simp: start_pl1_def needs_resume_def thermal_same_def same_limits_def fallback_w_def)
      have b': "s_below_recover_since (fst w') = None" using valid(3) below by (simp add: thermal_same_def)
      have "c \<le> gov_top g (fst w)" using thermal_upper [OF assms(2), of now "m_pkg_c m" w] valid(1) by simp
      then have c: "pl1 \<le> 45" using valid(2) gov_top_max1(2) [of g "fst w"] by linarith
      have "fst (snd (rule_shed g now mn sh (gov_floor g) (new, pl1, w'))) \<le> max p (gov_floor g)" for sh
        using rule_shed_pl1 [OF assms(2) c gcfg_okD(1) [OF assms(2)], of now mn sh new w'] b by linarith
      with b show ?thesis unfolding valid(7)
        by (simp add: gov_rules_def rule_emergency_def Let_def rule_below_no_recovery [OF b'])
    qed
    then show ?thesis by (auto simp: dynamic(6) gov_dynamic_pl cap1_def)
  qed (use assms no rb in \<open>simp_all\<close>)
qed

section \<open>Retry backoff\<close>

lemma gov_step_readback:
  assumes "g_mode g \<noteq> ''off''" "m_readback m = Some (False, why)"
  shows "s_state (fst (gov_step s m g now)) = FALLBACK"
    "s_backoff_s (fst (gov_step s m g now)) = (if s_backoff_s s \<le> 0 then 1 else min 8 (fmul (s_backoff_s s) 2))"
    "s_retry_at (fst (gov_step s m g now)) = Some (fadd now (s_backoff_s (fst (gov_step s m g now))))"
  using assms by (simp_all add: gov_step_def gov_readback_def Let_def BACKOFF_MAX_S_def)

definition failed_input :: "gov_input \<Rightarrow> bool" where
  "failed_input i = (case i of (m, g, now) \<Rightarrow> g_mode g \<noteq> ''off'' \<and> (case m_readback m of Some (ok, _) \<Rightarrow> \<not> ok | None \<Rightarrow> False))"

lemma backoff_double: "min 8 (fmul (min 8 (2 ^ n)) 2) = (min 8 (2 ^ Suc n) :: rat)"
proof -
  consider "n = 0" | "n = 1" | "n = 2" | "3 \<le> n" by linarith
  then show ?thesis
  proof cases
    case 4
    then have "(8::rat) \<le> 2 ^ n" using power_increasing [of 3 n "2::rat"] by simp
    then show ?thesis by (simp add: min_def)
  qed (simp_all add: numeral_2_eq_2)
qed

text \<open>
  After \<open>n + 1\<close> failed readbacks in a row the governor is in fallback and the backoff is
  \<open>min 8 (2 ^ n)\<close> seconds, with the retry due that long after the last failure.
\<close>

theorem gov_backoff_doubles:
  assumes "list_all failed_input (ins @ [(m, g, now)])" "s_backoff_s (fst w) = 0"
  shows "let s = fst (run_steps gov_mstep w (ins @ [(m, g, now)])) in
    s_state s = FALLBACK \<and> s_backoff_s s = min 8 (2 ^ length ins) \<and> s_retry_at s = Some (fadd now (min 8 (2 ^ length ins)))"
  using assms
proof (induction ins arbitrary: m g now rule: rev_induct)
  case Nil
  then show ?case by (auto simp: gov_mstep_def failed_input_def case_prod_beta gov_step_readback Let_def split: option.splits)
next
  case (snoc i ins)
  obtain m' g' now' where i: "i = (m', g', now')" by (cases i)
  let ?s = "fst (run_steps gov_mstep w (ins @ [i]))"
  have b: "s_backoff_s ?s = min 8 (2 ^ length ins)" using snoc i by (simp add: Let_def)
  have nb: "\<not> s_backoff_s ?s \<le> 0" unfolding b by (simp add: min_le_iff_disj not_le)
  have run: "run_steps gov_mstep w (xs @ [j]) = gov_mstep (run_steps gov_mstep w xs) j" for xs j
    by (induction xs arbitrary: w) simp_all
  have "g_mode g \<noteq> ''off''" "\<exists>why. m_readback m = Some (False, why)"
    using snoc.prems by (auto simp: failed_input_def split: option.splits)
  then obtain why where f: "g_mode g \<noteq> ''off''" "m_readback m = Some (False, why)" by auto
  have e: "fst (run_steps gov_mstep w ((ins @ [i]) @ [(m, g, now)])) = fst (gov_step ?s m g now)"
    unfolding run [of "ins @ [i]"] by (simp add: gov_mstep_def case_prod_beta)
  show ?case unfolding e Let_def using gov_step_readback [OF f, of ?s now] nb b backoff_double [of "length ins"] by simp
qed

text \<open>Concrete runs for the witnesses.\<close>

definition demo_run :: "gov_input list" where
  "demo_run = [(demo_sample 58, demo_cfg, 1)]"

definition demo_bad :: "gov_sample" where
  "demo_bad = (demo_sample 58)\<lparr>m_readback := Some (False, ''PL1'')\<rparr>"

lemmas demo_defs = gov_reached_def demo_base_defs

lemma demo_reached:
  "s_state (gov_reached 0 (Some 44) None demo_run) = TRIM" "s_pl1_w (gov_reached 0 (Some 44) None demo_run) = Some 25"
  "max1 (gov_reached 0 (Some 44) None demo_run) = 44"
  by (simp_all add: demo_run_def demo_defs gov_defs max1_def)


lemma gov_step_readback_pl1:
  "g_mode g \<noteq> ''off'' \<Longrightarrow> m_readback m = Some (False, why) \<Longrightarrow> s_state s \<noteq> FALLBACK \<Longrightarrow>
   s_pl1_w (fst (gov_step s m g now)) = Some (cap1 s (fallback_w s (g_static_cap_w g)))"
  by (simp add: gov_step_def gov_readback_def Let_def fallback_w_def cap1_def)

lemma demo_failed:
  "s_state (fst (gov_step (gov_reached 0 (Some 44) None demo_run) demo_bad demo_cfg 2)) = FALLBACK"
  "s_state (gov_reached 0 (Some 44) None (demo_run @ [(demo_bad, demo_cfg, 2)])) = FALLBACK"
  "s_pl1_w (gov_reached 0 (Some 44) None (demo_run @ [(demo_bad, demo_cfg, 2)])) = Some 25"
proof -
  let ?s = "gov_reached 0 (Some 44) None demo_run"
  have f: "g_mode demo_cfg \<noteq> ''off''" "m_readback demo_bad = Some (False, ''PL1'')" "g_static_cap_w demo_cfg = 30"
    by (simp_all add: demo_cfg_def demo_bad_def)
  have e: "gov_reached 0 (Some 44) None (demo_run @ [(demo_bad, demo_cfg, 2)]) = fst (gov_step ?s demo_bad demo_cfg 2)"
    by (simp add: gov_reached_def demo_run_def gov_mstep_def case_prod_beta)
  show "s_state (fst (gov_step ?s demo_bad demo_cfg 2)) = FALLBACK" using f by (intro gov_step_readback)
  then show "s_state (gov_reached 0 (Some 44) None (demo_run @ [(demo_bad, demo_cfg, 2)])) = FALLBACK" by (simp only: e)
  show "s_pl1_w (gov_reached 0 (Some 44) None (demo_run @ [(demo_bad, demo_cfg, 2)])) = Some 25"
    unfolding e using gov_step_readback_pl1 [OF f(1,2), of ?s 2] demo_reached
    by (simp add: fallback_w_def f(3) cap1_max1)
qed

theorem gov_fallback_never_raises_witness:
  "\<exists>p'. s_pl1_w (fst (gov_step (gov_reached 0 (Some 44) None demo_run) demo_bad demo_cfg 2)) = Some p' \<and> p' \<le> 25"
  using gov_fallback_never_raises [OF demo_failed(1) demo_reached(2)] .

theorem gov_leave_fallback_witness:
  "\<exists>p'. s_pl1_w (fst (gov_step (gov_reached 0 (Some 44) None (demo_run @ [(demo_bad, demo_cfg, 2)])) (demo_sample 40) demo_cfg 3))
     = Some p' \<and> p' \<le> max 25 10"
proof -
  have "gov_floor demo_cfg = 10" "g_mode demo_cfg = ''dynamic''" by code_simp+
  with gov_leave_fallback [OF refl demo_cfg_ok _ demo_failed(2,3)] show ?thesis by simp
qed

theorem gov_backoff_doubles_witness:
  "let s = fst (run_steps gov_mstep (gov_initial 0 None None, []) [(demo_bad, demo_cfg, 1), (demo_bad, demo_cfg, 2), (demo_bad, demo_cfg, 4)])
   in s_state s = FALLBACK \<and> s_backoff_s s = 4 \<and> s_retry_at s = Some 8"
proof -
  have "list_all failed_input ([(demo_bad, demo_cfg, 1), (demo_bad, demo_cfg, 2)] @ [(demo_bad, demo_cfg, 4)])" by code_simp
  from gov_backoff_doubles [OF this, of "(gov_initial 0 None None, [])"] show ?thesis
    by (simp add: gov_initial_def Let_def)
qed

section \<open>The state machine\<close>

definition overload :: "gov_cfg \<Rightarrow> gov_sample \<Rightarrow> bool" where
  "overload g m = (case valid_sample m of None \<Rightarrow> False | Some (pdtr, acpw) \<Rightarrow> fmul acpw (g_emergency_ratio g) \<le> pdtr)"

definition governed :: "gov_cfg \<Rightarrow> bool" where
  "governed g = (g_mode g \<noteq> ''off'' \<and> g_mode g \<noteq> ''static'')"

text \<open>
  The abstract machine: which states a step may lead to, by mode and sample. Emergency is entered
  only on an overload and left only to \<open>TRIM\<close>, to fallback, or by a change of mode.
\<close>

inductive fsm :: "gov_cfg \<Rightarrow> gov_sample \<Rightarrow> gstate \<Rightarrow> gstate \<Rightarrow> bool" for g m where
  fsm_off: "g_mode g = ''off'' \<Longrightarrow> fsm g m st OFF"
| fsm_fallback: "g_mode g \<noteq> ''off'' \<Longrightarrow> fsm g m st FALLBACK"
| fsm_static: "g_mode g = ''static'' \<Longrightarrow> fsm g m st STATIC"
| fsm_overload: "governed g \<Longrightarrow> overload g m \<Longrightarrow> fsm g m st EMERGENCY"
| fsm_hold: "governed g \<Longrightarrow> \<not> overload g m \<Longrightarrow> fsm g m EMERGENCY EMERGENCY"
| fsm_release: "governed g \<Longrightarrow> \<not> overload g m \<Longrightarrow> valid_sample m \<noteq> None \<Longrightarrow> fsm g m EMERGENCY TRIM"
| fsm_normal: "governed g \<Longrightarrow> \<not> overload g m \<Longrightarrow> st \<noteq> EMERGENCY \<Longrightarrow> st' \<in> {NORMAL, TRIM} \<Longrightarrow> fsm g m st st'"

inductive_cases fsm_to_NORMAL: "fsm g m st NORMAL"
inductive_cases fsm_to_EMERGENCY: "fsm g m st EMERGENCY"

lemma rule_shed_new: "fst (rule_shed g now mn shed flr (new, pl1, w)) = (if s_state (fst w) = EMERGENCY then new else TRIM)"
  by (simp add: rule_shed_def Let_def)

lemma rule_below_new:
  "s_state (fst w) \<noteq> EMERGENCY \<Longrightarrow> fst (rule_below g now mn rec top_w ceil_w (new, pl1, w)) \<in> {NORMAL, TRIM}"
  "s_state (fst w) = EMERGENCY \<Longrightarrow> fst (rule_below g now mn rec top_w ceil_w (new, pl1, w)) =
     (if EMERGENCY_HOLD_S \<le> fsub now (case s_below_shed_since (fst w) of None \<Rightarrow> now | Some t \<Rightarrow> t) then TRIM else new)"
  by (simp_all add: rule_below_def Let_def case_prod_beta)

lemma dyn_proposal_fsm:
  assumes "governed g" "s_state (fst w) = EMERGENCY \<Longrightarrow> s_pl1_w (fst w) \<noteq> None"
  shows "fsm g m (s_state (fst w)) (fst (dyn_proposal g m now w))"
proof (cases rule: dyn_proposal_cases [of g now m w])
  case (invalid c w' new pl1)
  then have "\<not> overload g m" "s_state (fst w') = s_state (fst w)" "s_pl1_w (fst w') = s_pl1_w (fst w)"
    by (simp_all add: overload_def thermal_same_def same_limits_def)
  with invalid assms show ?thesis by (auto simp: needs_resume_def intro: fsm_hold fsm_normal)
next
  case (valid c w' new pl1 pdtr acpw mn)
  then have w': "s_state (fst w') = s_state (fst w)" "s_pl1_w (fst w') = s_pl1_w (fst w)"
    by (simp_all add: thermal_same_def same_limits_def)
  show ?thesis
  proof (cases "overload g m")
    case True
    then have "fst (dyn_proposal g m now w) = EMERGENCY"
      using valid(5,7) by (simp add: overload_def gov_rules_def rule_emergency_def Let_def)
    with True assms(1) show ?thesis by (simp add: fsm_overload)
  next
    case no: False
    define sh where "sh = fmul acpw (g_shed_ratio g)"
    define re where "re = fmul acpw (g_recover_ratio g)"
    have e: "dyn_proposal g m now w = (if sh \<le> mn then rule_shed g now mn sh (gov_floor g) (new, pl1, w')
        else rule_below g now mn re (gov_top g (fst w)) c (new, pl1, w'))"
      using no valid(5,7) by (simp add: overload_def gov_rules_def sh_def re_def)
    show ?thesis
    proof (cases "s_state (fst w) = EMERGENCY")
      case True
      with assms(2) w' valid(4) have "new = EMERGENCY" by (simp add: needs_resume_def)
      then have "fst (dyn_proposal g m now w) \<in> {EMERGENCY, TRIM}" using True w' e
        by (auto simp: rule_shed_new rule_below_new)
      with True assms(1) no valid(5) show ?thesis using fsm_release [OF assms(1) no] by (auto intro: fsm_hold)
    next
      case False
      then have "fst (dyn_proposal g m now w) \<in> {NORMAL, TRIM}"
        using w' e rule_below_new(1) [of w'] by (auto simp: rule_shed_new)
      with False assms(1) no show ?thesis by (intro fsm_normal)
    qed
  qed
qed

text \<open>
  C11: every step of the governor from a reachable state is a step of the abstract machine.
\<close>

theorem gov_step_fsm:
  "fsm g m (s_state (gov_reached t0 fw1 fw2 ins)) (s_state (fst (gov_step (gov_reached t0 fw1 fw2 ins) m g now)))"
proof -
  let ?s = "gov_reached t0 fw1 fw2 ins"
  have wf: "gov_wf ?s" by (rule gov_reached_wf)
  show ?thesis
  proof (cases rule: gov_step_cases [of g ?s m now])
    case off
    then show ?thesis by (simp add: fsm_off)
  next
    case (readback why)
    show ?thesis unfolding gov_step_readback(1) [OF readback(1,2)] using readback(1) by (rule fsm_fallback)
  next
    case (wait t w)
    then show ?thesis by (simp add: gov_wait_state settled_def fsm_fallback)
  next
    case (static w)
    then show ?thesis by (simp add: fsm_static)
  next
    case (stale w b)
    then show ?thesis by (simp add: fsm_fallback)
  next
    case (dynamic w)
    have "s_state (fst w) = EMERGENCY \<Longrightarrow> s_pl1_w (fst w) \<noteq> None" using wf dynamic(4) by (auto simp: gov_wf_def settled_def)
    with dyn_proposal_fsm [of g w m now] dynamic show ?thesis by (simp add: governed_def gov_dynamic_state settled_def)
  qed
qed

text \<open>
  The governor leaves an emergency for \<open>TRIM\<close> only after the input has stayed below the shed
  threshold for five seconds.
\<close>

theorem gov_emergency_hold:
  assumes "s = gov_reached t0 fw1 fw2 ins" "s_state s = EMERGENCY" "s_state (fst (gov_step s m g now)) = TRIM"
  shows "\<exists>t. s_below_shed_since s = Some t \<and> 5 \<le> fsub now t"
proof (cases rule: gov_step_cases [of g s m now])
  case (readback why)
  then show ?thesis using assms(3) gov_step_readback(1) [of g m why s now] by simp
next
  case (dynamic w)
  have w: "s_state (fst w) = EMERGENCY" "s_pl1_w (fst w) \<noteq> None" "s_below_shed_since (fst w) = s_below_shed_since s"
    using gov_reached_wf [of t0 fw1 fw2 ins] assms(1,2) dynamic(4) by (auto simp: gov_wf_def settled_def)
  have t: "fst (dyn_proposal g m now w) = TRIM" using assms(3) dynamic(6) by (simp add: gov_dynamic_state)
  show ?thesis
  proof (cases rule: dyn_proposal_cases [of g now m w])
    case (invalid c w' new pl1)
    with t w show ?thesis by (auto simp: needs_resume_def thermal_same_def same_limits_def)
  next
    case (valid c w' new pl1 pdtr acpw mn)
    have w': "s_state (fst w') = EMERGENCY" "s_below_shed_since (fst w') = s_below_shed_since s" "new = EMERGENCY"
      using valid(3,4) w by (auto simp: thermal_same_def same_limits_def needs_resume_def)
    have "5 \<le> fsub now (case s_below_shed_since s of None \<Rightarrow> now | Some t \<Rightarrow> t)"
      using t w' unfolding valid(7)
      by (auto simp: gov_rules_def rule_emergency_def Let_def rule_shed_new rule_below_new EMERGENCY_HOLD_S_def split: if_splits)
    then show ?thesis by (cases "s_below_shed_since s") auto
  qed
qed (use assms in \<open>auto simp: gov_wait_state settled_def\<close>)

definition demo_em :: "gov_input list" where
  "demo_em = [(demo_sample 62, demo_cfg, 1), (demo_sample 40, demo_cfg, 2)]"

theorem gov_emergency_hold_witness:
  "\<exists>t. s_below_shed_since (gov_reached 0 (Some 44) None demo_em) = Some t \<and> 5 \<le> fsub 7 t"
proof -
  have "s_state (gov_reached 0 (Some 44) None demo_em) = EMERGENCY"
    "s_state (fst (gov_step (gov_reached 0 (Some 44) None demo_em) (demo_sample 40) demo_cfg 7)) = TRIM"
    by (simp_all add: demo_em_def demo_defs gov_defs)
  then show ?thesis by (rule gov_emergency_hold [OF refl])
qed

section \<open>Raising and shedding\<close>

text \<open>When PL1 may rise, seen from the rules.\<close>

lemma rule_recover_raise:
  assumes "pl1 < fst (rule_recover g now mn rec ceil_w (pl1, w))"
  shows "\<exists>t. mn < rec \<and> s_below_recover_since (fst w) = Some t \<and> g_recover_interval_s g \<le> fsub now t \<and>
    fst (rule_recover g now mn rec ceil_w (pl1, w)) \<le> fadd pl1 (g_recover_step_w g)"
  using assms by (cases "s_below_recover_since (fst w)") (auto simp: rule_recover_def Let_def split: if_splits)

lemma rule_below_raise:
  assumes "pl1 < fst (snd (rule_below g now mn rec top_w ceil_w (new, pl1, w)))"
  shows "\<exists>t. s_state (fst w) \<noteq> EMERGENCY \<and> mn < rec \<and> s_below_recover_since (fst w) = Some t \<and>
    g_recover_interval_s g \<le> fsub now t \<and>
    fst (snd (rule_below g now mn rec top_w ceil_w (new, pl1, w))) \<le> fadd pl1 (g_recover_step_w g)"
proof -
  define v where "v = ((fst w)\<lparr>s_below_shed_since := Some (case s_below_shed_since (fst w) of None \<Rightarrow> now | Some t \<Rightarrow> t)\<rparr>, snd w)"
  have e: "s_state (fst w) \<noteq> EMERGENCY" using assms by (auto simp: rule_below_def Let_def split: if_splits)
  then have "fst (snd (rule_below g now mn rec top_w ceil_w (new, pl1, w))) = fst (rule_recover g now mn rec ceil_w (pl1, v))"
    by (simp add: rule_below_def Let_def case_prod_beta v_def)
  with rule_recover_raise [of pl1 g now mn rec ceil_w v] assms e show ?thesis by (simp add: v_def)
qed


definition demo_calm :: "gov_input list" where
  "demo_calm = [(demo_sample 40, demo_cfg, 1), (demo_sample 40, demo_cfg, 2)]"

lemma demo_calm_run:
  "s_state (gov_reached 0 (Some 44) None demo_calm) = TRIM" "s_pl1_w (gov_reached 0 (Some 44) None demo_calm) = Some 30"
  "s_pl1_w (fst (gov_step (gov_reached 0 (Some 44) None demo_calm) (demo_sample 40) demo_cfg 5)) = Some 31"
  by (simp_all add: demo_calm_def demo_defs gov_defs)


text \<open>A sample that sheds: valid, mean input at or above the shed threshold, no emergency, no failed readback.\<close>

definition shed_sample :: "gov_cfg \<Rightarrow> gov_sample \<Rightarrow> bool" where
  "shed_sample g m = (case valid_sample m of None \<Rightarrow> False | Some (pdtr, acpw) \<Rightarrow>
     pdtr < fmul acpw (g_emergency_ratio g) \<and>
     fmul acpw (g_shed_ratio g) \<le> (case num_of (m_input_mean_1s m) of Some x \<Rightarrow> x | None \<Rightarrow> pdtr) \<and>
     (case m_readback m of Some (ok, _) \<Rightarrow> ok | None \<Rightarrow> True))"

text \<open>One shedding step: PL1 is at the floor, or three quarters of a watt lower with the cut noted.\<close>

lemma gov_shed_step:
  assumes g: "gcfg_ok g" "g_mode g = ''dynamic''" and m: "shed_sample g m"
    and s: "s_state s \<in> {NORMAL, TRIM}" "s_pl1_w s = Some p" "p \<le> gov_floor g \<or> elapsed now (s_last_cut s) (1 / 2)"
  shows "\<exists>p'. s_pl1_w (fst (gov_step s m g now)) = Some p' \<and> s_state (fst (gov_step s m g now)) = TRIM \<and>
    (p' \<le> gov_floor g \<or> (s_last_cut (fst (gov_step s m g now)) = Some now \<and> p' \<le> p - 3 / 4))"
proof -
  obtain pdtr acpw where v: "valid_sample m = Some (pdtr, acpw)" "pdtr < fmul acpw (g_emergency_ratio g)"
    "fmul acpw (g_shed_ratio g) \<le> (case num_of (m_input_mean_1s m) of Some x \<Rightarrow> x | None \<Rightarrow> pdtr)"
    "\<And>why. m_readback m \<noteq> Some (False, why)"
    using m by (auto simp: shed_sample_def split: option.splits)
  show ?thesis
  proof (cases rule: gov_step_cases [of g s m now])
    case (stale w b)
    with not_stale_valid [OF g(1) stale(4)] v show ?thesis by simp
  next
    case (dynamic w)
    have w: "s_state (fst w) = s_state s" "s_pl1_w (fst w) = Some p" "s_last_cut (fst w) = s_last_cut s"
      using dynamic(4) s by (auto simp: settled_def)
    have nr: "\<not> needs_resume (fst w)" using w s by (auto simp: needs_resume_def)
    show ?thesis
    proof (cases rule: dyn_proposal_cases [of g now m w])
      case (valid c w' new pl1 pdtr' acpw' mn)
      have w': "s_state (fst w') = s_state s" "s_last_cut (fst w') = s_last_cut s" using valid(3) w by (auto simp: thermal_same_def)
      have "start_pl1 g (fst w') = p"
        using valid(3) w nr by (simp add: start_pl1_def needs_resume_def thermal_same_def same_limits_def)
      then have pl1: "pl1 \<le> max p (gov_floor g)" using valid(2) by auto
      have "c \<le> gov_top g (fst w)" using thermal_upper [OF g(1), of now "m_pkg_c m" w] valid(1) by simp
      then have c: "pl1 \<le> 45" using valid(2) gov_top_max1(2) [of g "fst w"] by linarith
      let ?sh = "fmul acpw (g_shed_ratio g)"
      define P where "P = rule_shed g now mn ?sh (gov_floor g) (new, pl1, w')"
      have eq: "pdtr' = pdtr" "acpw' = acpw" using valid(5) v(1) by auto
      have e: "dyn_proposal g m now w = P" using v(2,3) unfolding P_def valid(6,7) eq by (simp add: gov_rules_def)
      have ne: "s_state (fst w') \<noteq> EMERGENCY" using w' s by auto
      have "fst P = TRIM" using ne by (simp add: P_def rule_shed_new)
      moreover have "fst (snd P) \<le> gov_floor g \<or> (s_last_cut (fst (snd (snd P))) = Some now \<and> fst (snd P) \<le> p - 3 / 4)"
      proof (cases "gov_floor g < pl1")
        case True
        then have "gov_floor g < p" using pl1 by auto
        then have "elapsed now (s_last_cut (fst w')) (1 / 2)" using s(3) w' by simp
        moreover have "fsub pl1 (g_cut_step_w g) \<le> pl1 - g_cut_step_w g + 1 / 1024"
          using True c gcfg_okD(1,6,7) [OF g(1)] by (intro conjunct2 [OF fsub_step]) auto
        moreover have "7 / 8 \<le> g_cut_step_w g" using g(1) by (simp add: gcfg_ok_def near_range_def)
        ultimately show ?thesis using True ne pl1 \<open>gov_floor g < p\<close>
          by (simp add: P_def rule_shed_def Let_def CUT_MIN_INTERVAL_S_def gov_event_def) (rule disjCI, linarith)
      next
        case False
        then show ?thesis using ne by (simp add: P_def rule_shed_def Let_def)
      qed
      moreover have "s_last_cut (fst (gov_step s m g now)) = s_last_cut (fst (snd (snd P)))"
        by (simp add: dynamic(6) gov_dynamic_eq e case_prod_beta)
      ultimately show ?thesis by (auto simp: dynamic(6) gov_dynamic_pl gov_dynamic_state e cap1_def)
    qed (use v in simp)
  qed (use g v s in \<open>auto\<close>)
qed

fun shed_inputs :: "gov_cfg \<Rightarrow> rat option \<Rightarrow> gov_input list \<Rightarrow> bool" where
  "shed_inputs g t [] = True"
| "shed_inputs g t ((m, g', now) # is) = (g' = g \<and> shed_sample g m \<and> elapsed now t (1 / 2) \<and> shed_inputs g (Some now) is)"

definition demo_shed :: "gov_input list" where
  "demo_shed = [(demo_sample 58, demo_cfg, 2), (demo_sample 58, demo_cfg, 3), (demo_sample 58, demo_cfg, 4)]"


end
