(* ===== verification/Sysfs.thy ===== *)
theory Sysfs
  imports Py_Value
begin

text \<open>
  \<open>daemon/sysfs.py\<close> and \<open>daemon/paths.py\<close>: reading and writing small text files, and the paths of
  everything the daemon touches. A file system is a map from paths to contents; a missing entry is
  an \<open>OSError\<close> on reading. What the kernel does on a write is the parameter \<open>drv\<close>: the new file
  system, or the text of the error.
\<close>

section \<open>Paths\<close>

definition path_join :: "string \<Rightarrow> string \<Rightarrow> string" where
  "path_join a b = (if starts_with ''/'' b then b else if a = [] \<or> ends_with ''/'' a then a @ b else a @ ''/'' @ b)"

text \<open>The part of a joined path that does not depend on the relative name.\<close>

definition dir_part :: "string \<Rightarrow> string" where
  "dir_part a = (if a = [] \<or> ends_with ''/'' a then a else a @ ''/'')"

lemma path_join_rel: "\<not> starts_with ''/'' b \<Longrightarrow> path_join a b = dir_part a @ b"
  by (simp add: path_join_def dir_part_def)

definition lstrip_slash :: "string \<Rightarrow> string" where
  "lstrip_slash s = dropWhile (\<lambda>c. c = CHR ''/'') s"

record paths =
  p_sysroot :: string
  p_socket :: string
  p_config :: string
  p_state :: string

definition paths_sys :: "string \<Rightarrow> string \<Rightarrow> string" where
  "paths_sys sysroot rel = path_join sysroot (lstrip_slash rel)"

definition or_str :: "string \<Rightarrow> string \<Rightarrow> string" where
  "or_str a b = (if a = [] then b else a)"

definition paths_init :: "string \<Rightarrow> string \<Rightarrow> string \<Rightarrow> string \<Rightarrow> paths" where
  "paths_init sysroot socket config state =
    \<lparr>p_sysroot = sysroot,
     p_socket = or_str socket (paths_sys sysroot ''run/turbomac/turbomacd.sock''),
     p_config = or_str config (paths_sys sysroot ''etc/turbomac/config.json''),
     p_state = or_str state (paths_sys sysroot ''var/lib/turbomac'')\<rparr>"

definition env_get :: "string dict \<Rightarrow> string \<Rightarrow> string \<Rightarrow> string" where
  "env_get env k dflt = (case dget env k of None \<Rightarrow> dflt | Some v \<Rightarrow> v)"

definition paths_from_env :: "string dict \<Rightarrow> paths" where
  "paths_from_env env = paths_init (env_get env ''TURBOMAC_SYSROOT'' ''/'') (env_get env ''TURBOMAC_SOCKET'' [])
     (env_get env ''TURBOMAC_CONFIG'' []) (env_get env ''TURBOMAC_STATE'' [])"

definition smc_dir :: "globber \<Rightarrow> paths \<Rightarrow> string option" where
  "smc_dir glob p = (case sort (glob (paths_sys (p_sysroot p) ''sys/devices/platform/applesmc.*'')) of
     [] \<Rightarrow> None | h # _ \<Rightarrow> Some h)"

definition p_powercap :: "paths \<Rightarrow> string" where "p_powercap p = paths_sys (p_sysroot p) ''sys/class/powercap/intel-rapl:0''"
definition p_msr_dev :: "paths \<Rightarrow> string" where "p_msr_dev p = paths_sys (p_sysroot p) ''dev/cpu/0/msr''"
definition p_drm :: "paths \<Rightarrow> string" where "p_drm p = paths_sys (p_sysroot p) ''sys/class/drm''"
definition p_hwmon :: "paths \<Rightarrow> string" where "p_hwmon p = paths_sys (p_sysroot p) ''sys/class/hwmon''"
definition p_thermal :: "paths \<Rightarrow> string" where "p_thermal p = paths_sys (p_sysroot p) ''sys/class/thermal''"
definition p_cpu :: "paths \<Rightarrow> string" where "p_cpu p = paths_sys (p_sysroot p) ''sys/devices/system/cpu''"
definition p_proc :: "paths \<Rightarrow> string" where "p_proc p = paths_sys (p_sysroot p) ''proc''"
definition p_switcheroo :: "paths \<Rightarrow> string" where
  "p_switcheroo p = paths_sys (p_sysroot p) ''sys/kernel/debug/vgaswitcheroo/switch''"
definition p_vtconsole :: "paths \<Rightarrow> string" where "p_vtconsole p = paths_sys (p_sysroot p) ''sys/class/vtconsole''"
definition p_boot_id :: "paths \<Rightarrow> string" where "p_boot_id p = paths_sys (p_sysroot p) ''proc/sys/kernel/random/boot_id''"
definition p_samples_dir :: "paths \<Rightarrow> string" where "p_samples_dir p = path_join (p_state p) ''samples''"
definition p_incidents_dir :: "paths \<Rightarrow> string" where "p_incidents_dir p = path_join (p_state p) ''incidents''"
definition p_smc_keys_cache :: "paths \<Rightarrow> string" where "p_smc_keys_cache p = path_join (p_state p) ''smc-keys.json''"
definition p_firmware_limits :: "paths \<Rightarrow> string" where "p_firmware_limits p = path_join (p_state p) ''firmware-limits.json''"
definition p_fan_defaults :: "paths \<Rightarrow> string" where "p_fan_defaults p = path_join (p_state p) ''fan-defaults.json''"
definition p_clean_marker :: "paths \<Rightarrow> string" where "p_clean_marker p = path_join (p_state p) ''clean-shutdown''"
definition p_last_boot_checked :: "paths \<Rightarrow> string" where "p_last_boot_checked p = path_join (p_state p) ''last-boot-checked''"

section \<open>Reading and writing\<close>

text \<open>The keys already warned about, and the lines on standard error.\<close>

record warn_state =
  wn_warned :: "string list"
  wn_stderr :: "string list"

definition warn_once :: "string \<Rightarrow> string \<Rightarrow> warn_state \<Rightarrow> warn_state" where
  "warn_once key msg ws =
    (if key \<in> set (wn_warned ws) then ws
     else \<lparr>wn_warned = key # wn_warned ws, wn_stderr = wn_stderr ws @ [''turbomacd: '' @ msg]\<rparr>)"

text \<open>
  \<open>read_text\<close>: the result depends on the file system alone; \<open>read_text_warn\<close> is the effect on the
  warnings, with the error text \<open>err\<close> of the failed \<open>open\<close>.
\<close>

definition read_text :: "files \<Rightarrow> string \<Rightarrow> string option \<Rightarrow> string option" where
  "read_text fs path dflt = (case fs path of Some t \<Rightarrow> Some (strip t) | None \<Rightarrow> dflt)"

definition read_text_warn :: "files \<Rightarrow> string \<Rightarrow> bool \<Rightarrow> string \<Rightarrow> warn_state \<Rightarrow> warn_state" where
  "read_text_warn fs path quiet err ws =
    (if fs path = None \<and> \<not> quiet then warn_once path (''cannot read '' @ path @ '': '' @ err) ws else ws)"

definition read_int :: "files \<Rightarrow> string \<Rightarrow> int option \<Rightarrow> int option" where
  "read_int fs path dflt = (case read_text fs path None of
     None \<Rightarrow> dflt
   | Some txt \<Rightarrow> (case parse_int txt of Some n \<Rightarrow> Some n | None \<Rightarrow> dflt))"

type_synonym driver = "files \<Rightarrow> string \<Rightarrow> string \<Rightarrow> string + files"

definition write_text :: "driver \<Rightarrow> files \<Rightarrow> string \<Rightarrow> string \<Rightarrow> string option \<times> files" where
  "write_text drv fs path v = (case drv fs path v of
     Inl err \<Rightarrow> (Some (''write '' @ path @ '': '' @ err), fs)
   | Inr fs' \<Rightarrow> (None, fs'))"

text \<open>A driver that stores what is written, as an ordinary file does.\<close>

definition plain_driver :: driver where
  "plain_driver fs path v = Inr (fs(path \<mapsto> v))"

lemma read_int_str: "fs path = Some (str_int n) \<Longrightarrow> read_int fs path d = Some n"
  by (simp add: read_int_def read_text_def strip_str_int parse_int_str_int)

lemma read_text_total: "read_text fs path dflt = None \<Longrightarrow> fs path = None \<and> dflt = None"
  by (auto simp: read_text_def split: option.splits)

text \<open>A path is warned about at most once.\<close>

lemma warn_once_idem: "warn_once k m' (warn_once k m ws) = warn_once k m ws"
  by (simp add: warn_once_def)

end
