(* ===== verification/Msr.thy ===== *)
theory Msr
  imports Sysfs "HOL-Library.Word"
begin

unbundle bit_operations_syntax

text \<open>
  \<open>daemon/msr.py\<close>: read-only access to model-specific registers and the decoding of their fields.
  A register is a 64 bit word. The device is the parameter \<open>dev\<close>: \<open>None\<close> when it cannot be opened,
  otherwise a map from register numbers to what \<open>pread\<close> gives (\<open>None\<close> for an \<open>OSError\<close>).
\<close>

definition MSR_RAPL_POWER_UNIT :: nat where "MSR_RAPL_POWER_UNIT = 1542"
definition MSR_PKG_POWER_LIMIT :: nat where "MSR_PKG_POWER_LIMIT = 1552"
definition MSR_PKG_THERM_STATUS :: nat where "MSR_PKG_THERM_STATUS = 433"

type_synonym msr_device = "(nat \<Rightarrow> 8 word list option) option"

text \<open>\<open>struct.unpack("<Q", data)\<close>: little endian.\<close>

fun le_word :: "8 word list \<Rightarrow> 64 word" where
  "le_word [] = 0"
| "le_word (b # bs) = ucast b + 256 * le_word bs"

fun le_bytes :: "nat \<Rightarrow> 64 word \<Rightarrow> 8 word list" where
  "le_bytes 0 v = []"
| "le_bytes (Suc n) v = ucast v # le_bytes n (drop_bit 8 v)"

definition read_msr :: "msr_device \<Rightarrow> nat \<Rightarrow> 64 word option" where
  "read_msr dev reg = (case dev of None \<Rightarrow> None | Some pread \<Rightarrow>
     (case pread reg of None \<Rightarrow> None | Some data \<Rightarrow> if length data = 8 then Some (le_word data) else None))"

text \<open>\<open>hex(v)\<close>.\<close>

definition hex_char :: "nat \<Rightarrow> char" where
  "hex_char d = (if d < 10 then digit_char d else char_of (87 + d))"

fun hex_digits :: "nat \<Rightarrow> nat \<Rightarrow> string" where
  "hex_digits 0 n = [hex_char (n mod 16)]"
| "hex_digits (Suc k) n = (if n < 16 then [hex_char n] else hex_digits k (n div 16) @ [hex_char (n mod 16)])"

definition py_hex :: "64 word \<Rightarrow> string" where
  "py_hex v = ''0x'' @ hex_digits 16 (unat v)"

record msr_units =
  power_unit_w :: rat
  energy_unit_j :: rat
  time_unit_s :: rat

definition bits :: "64 word \<Rightarrow> nat \<Rightarrow> 64 word \<Rightarrow> nat" where
  "bits v n m = unat (drop_bit n v AND m)"

definition decode_units :: "64 word \<Rightarrow> msr_units" where
  "decode_units v =
    \<lparr>power_unit_w = fdiv 1 (2 ^ bits v 0 0xF),
     energy_unit_j = fdiv 1 (2 ^ bits v 8 0x1F),
     time_unit_s = fdiv 1 (2 ^ bits v 16 0xF)\<rparr>"

definition window :: "nat \<Rightarrow> rat \<Rightarrow> rat" where
  "window field tu =
    (let y = field mod 32; z = (field div 32) mod 4
     in fmul (fmul (2 ^ y) (fadd 1 (fdiv (of_nat z) 4))) tu)"

record msr_limit =
  ml_raw :: string
  ml_pl1_w :: rat
  ml_pl1_enable :: bool
  ml_pl1_clamp :: bool
  ml_pl1_window_s :: rat
  ml_pl2_w :: rat
  ml_pl2_enable :: bool
  ml_pl2_clamp :: bool
  ml_pl2_window_s :: rat
  ml_lock :: bool

definition decode_pkg_limit :: "64 word \<Rightarrow> msr_units \<Rightarrow> msr_limit" where
  "decode_pkg_limit v u =
    (let pu = power_unit_w u; tu = time_unit_s u in
     \<lparr>ml_raw = py_hex v,
      ml_pl1_w = fmul (of_nat (bits v 0 0x7FFF)) pu, ml_pl1_enable = bit v 15, ml_pl1_clamp = bit v 16,
      ml_pl1_window_s = window (bits v 17 0x7F) tu,
      ml_pl2_w = fmul (of_nat (bits v 32 0x7FFF)) pu, ml_pl2_enable = bit v 47, ml_pl2_clamp = bit v 48,
      ml_pl2_window_s = window (bits v 49 0x7F) tu,
      ml_lock = bit v 63\<rparr>)"

record therm_status =
  th_raw :: string
  th_thermal_status :: bool
  th_prochot :: bool
  th_power_limited :: bool
  th_power_limit_log :: bool

definition decode_therm_status :: "64 word \<Rightarrow> therm_status" where
  "decode_therm_status v = \<lparr>th_raw = py_hex v, th_thermal_status = bit v 0, th_prochot = bit v 2,
     th_power_limited = bit v 10, th_power_limit_log = bit v 11\<rparr>"

text \<open>The class \<open>Msr\<close>: its state is the cached unit decode.\<close>

definition msr_units_of :: "msr_device \<Rightarrow> msr_units option \<Rightarrow> msr_units option" where
  "msr_units_of dev cache = (case cache of Some u \<Rightarrow> Some u
     | None \<Rightarrow> map_option decode_units (read_msr dev MSR_RAPL_POWER_UNIT))"

definition pkg_limit :: "msr_device \<Rightarrow> msr_units option \<Rightarrow> msr_limit option \<times> msr_units option" where
  "pkg_limit dev cache =
    (let u = msr_units_of dev cache in
     case u of None \<Rightarrow> (None, u)
     | Some units \<Rightarrow> (map_option (\<lambda>v. decode_pkg_limit v units) (read_msr dev MSR_PKG_POWER_LIMIT), u))"

definition read_therm_status :: "msr_device \<Rightarrow> therm_status option" where
  "read_therm_status dev = map_option decode_therm_status (read_msr dev MSR_PKG_THERM_STATUS)"

section \<open>Properties\<close>

lemma le_word_bytes_mod: "unat (le_word (le_bytes n v)) = unat v mod 2 ^ (8 * n)" if "n \<le> 8"
  using that
proof (induction n arbitrary: v)
  case (Suc n)
  have b: "unat (ucast (ucast v :: 8 word) :: 64 word) = unat v mod 256"
    by (simp add: unsigned_ucast_eq take_bit_eq_mod unat_mod)
  let ?x = "ucast (ucast v :: 8 word) :: 64 word" and ?y = "le_word (le_bytes n (drop_bit 8 v))"
  have y: "unat ?y = (unat v div 256) mod 2 ^ (8 * n)"
    using Suc by (simp add: drop_bit_eq_div unat_div_distrib)
  have s: "unat ?x + 256 * unat ?y = unat v mod (256 * 2 ^ (8 * n))"
    unfolding b y by (simp add: mod_mult2_eq add.commute)
  have "unat v mod (256 * 2 ^ (8 * n)) \<le> unat v" by (rule mod_less_eq_dividend)
  also have "unat v < 2 ^ 64" using unsigned_less [where ?'a = nat and w = v] by simp
  finally have lt: "unat ?x + 256 * unat ?y < 2 ^ 64" unfolding s .
  have "?x + 256 * ?y = of_nat (unat ?x + 256 * unat ?y)" by simp
  then have "unat (?x + 256 * ?y) = (unat ?x + 256 * unat ?y) mod 2 ^ 64" by (simp only: unat_of_nat) simp
  also have "\<dots> = unat v mod (256 * 2 ^ (8 * n))" using lt s by simp
  finally show ?case by (simp add: power_add)
qed simp

lemma le_word_bytes: "le_word (le_bytes 8 v) = v"
proof -
  have "unat (le_word (le_bytes 8 v)) = unat v mod 2 ^ 64" using le_word_bytes_mod [of 8 v] by simp
  also have "\<dots> = unat v" using unsigned_less [where ?'a = nat and w = v] by simp
  finally show ?thesis by (simp add: word_eq_iff_unsigned [where ?'a = nat])
qed

lemma length_le_bytes [simp]: "length (le_bytes n v) = n"
  by (induction n v rule: le_bytes.induct) simp_all

text \<open>The register a processor would hold for given raw fields.\<close>

definition limit_register :: "nat \<Rightarrow> bool \<Rightarrow> nat \<Rightarrow> bool \<Rightarrow> 64 word" where
  "limit_register p1 en1 p2 en2 =
    of_nat p1 OR push_bit 15 (of_bool en1) OR push_bit 32 (of_nat p2) OR push_bit 47 (of_bool en2)"

lemma bits_mask: "bits v n (mask k) = unat (take_bit k (drop_bit n v))"
  by (simp add: bits_def take_bit_eq_mask)

lemma limit_register_bit: "p1 < 2 ^ 15 \<Longrightarrow> p2 < 2 ^ 15 \<Longrightarrow> bit (limit_register p1 en1 p2 en2) n \<longleftrightarrow>
    (n < 15 \<and> bit p1 n) \<or> (n = 15 \<and> en1) \<or> (32 \<le> n \<and> n < 47 \<and> bit p2 (n - 32)) \<or> (n = 47 \<and> en2)"
proof -
  assume "p1 < 2 ^ 15" "p2 < 2 ^ 15"
  then have "take_bit 15 p1 = p1" "take_bit 15 p2 = p2" by (simp_all add: take_bit_nat_eq_self_iff)
  then have "bit p1 n \<Longrightarrow> n < 15" "bit p2 n \<Longrightarrow> n < 15" for n by (metis bit_take_bit_iff)+
  then show ?thesis
    by (fastforce simp: limit_register_def bit_simps bit_or_iff bit_push_bit_iff bit_of_nat_iff bit_of_bool_iff
        possible_bit_def)
qed

lemma field_bits:
  assumes "p < 2 ^ 15" "\<And>n. n < 15 \<Longrightarrow> bit v (k + n) = bit p n"
  shows "bits v k 0x7FFF = p"
proof -
  have m: "(0x7FFF :: 64 word) = mask 15" by (simp add: mask_eq_exp_minus_1)
  have "take_bit 15 p = p" using assms(1) by (simp add: take_bit_nat_eq_self_iff)
  then have pb: "bit p n \<Longrightarrow> n < 15" for n by (metis bit_take_bit_iff)
  have "take_bit 15 (drop_bit k v) = (of_nat p :: 64 word)"
    using assms(2) pb by (intro bit_word_eqI) (auto simp: bit_take_bit_iff bit_drop_bit_eq bit_of_nat_iff)
  moreover have "unat (of_nat p :: 64 word) = p" using assms(1) by (simp add: unat_of_nat)
  ultimately show ?thesis unfolding m bits_mask by simp
qed

lemma fl_eighth_nat: "n < 2 ^ 15 \<Longrightarrow> fl (of_nat n * (1 / 8)) = of_nat n / 8"
  using is_double_half_power [OF is_double_int refl, of "int n" 3] by (simp add: fl_exact)



end
