(* ===== verification/Rapl.thy ===== *)
theory Rapl
  imports Config Msr
begin

text \<open>
  \<open>daemon/rapl.py\<close>: energy counters to watts, clamping, writing and reading back the package power
  limits, and the capture of the firmware's limits. The file system, the kernel's reaction to a
  write (\<open>drv\<close>), the matches of a glob and the JSON codec are parameters.
\<close>

definition MSR_TOLERANCE_W :: rat where "MSR_TOLERANCE_W = 1 / 8"

definition w_to_uw :: "rat \<Rightarrow> int" where
  "w_to_uw w = round_even (fmul w 1000000)"

definition energy_delta_w :: "int \<Rightarrow> int \<Rightarrow> int \<Rightarrow> rat \<Rightarrow> rat option" where
  "energy_delta_w prev_uj cur_uj max_range_uj dt_s =
    (if dt_s \<le> 0 then None
     else let delta = cur_uj - prev_uj in
       if delta < 0 then
         if max_range_uj \<le> 0 then None
         else Some (fdiv (fdiv (fl (of_int (delta + max_range_uj))) 1000000) dt_s)
       else Some (fdiv (fdiv (fl (of_int delta)) 1000000) dt_s))"

definition pos_num :: "pyval \<Rightarrow> rat option" where
  "pos_num v = (case num_of v of Some x \<Rightarrow> if 0 < x then Some x else None | None \<Rightarrow> None)"

text \<open>\<open>valid_firmware\<close>, with the two limits it vouches for.\<close>

definition valid_firmware :: "pyval \<Rightarrow> (rat \<times> rat) option" where
  "valid_firmware fw = (case fw of
     PDict d \<Rightarrow> if truthy (py_get d ''suspect'') then None
       else (case (pos_num (py_get d ''pl1_w''), pos_num (py_get d ''pl2_w'')) of
               (Some a, Some b) \<Rightarrow> Some (a, b) | _ \<Rightarrow> None)
   | _ \<Rightarrow> None)"

definition floor_eighth :: "rat \<Rightarrow> rat" where
  "floor_eighth w = fdiv (of_int \<lfloor>fadd (fmul w 8) (fl (1 / 1000000000))\<rfloor>) 8"

definition clamp_limits :: "rat \<Rightarrow> rat \<Rightarrow> rat \<Rightarrow> pyval \<Rightarrow> rat \<times> rat" where
  "clamp_limits pl1_w pl2_w hard_max_w firmware =
    (let (m1, m2) = (case valid_firmware firmware of
           Some (a, b) \<Rightarrow> (min hard_max_w a, min hard_max_w b)
         | None \<Rightarrow> (hard_max_w, hard_max_w))
     in (floor_eighth (min pl1_w m1), floor_eighth (min pl2_w m2)))"

text \<open>What \<open>read_limits\<close> returns.\<close>

record sysfs_limits =
  sl_pl1_uw :: "int option"
  sl_pl2_uw :: "int option"
  sl_pl1_w :: "rat option"
  sl_pl2_w :: "rat option"
  sl_pl1_window_us :: "int option"
  sl_pl2_window_us :: "int option"
  sl_max_power_uw :: "int option"
  sl_enabled :: "int option"

definition uw_to_w :: "int \<Rightarrow> rat" where
  "uw_to_w n = fdiv (fl (of_int n)) 1000000"

definition compare_limits :: "rat \<Rightarrow> rat \<Rightarrow> sysfs_limits option \<Rightarrow> msr_limit option \<Rightarrow> bool \<times> string" where
  "compare_limits want_pl1 want_pl2 sysfs msr =
    (case sysfs of
       None \<Rightarrow> (False, ''sysfs readback unavailable'')
     | Some sl \<Rightarrow>
         (case (sl_pl1_uw sl, sl_pl2_uw sl) of
            (Some u1, Some u2) \<Rightarrow>
              if u1 \<noteq> w_to_uw want_pl1 \<or> u2 \<noteq> w_to_uw want_pl2 then
                (False, ''sysfs reads PL1 '' @ fmt_g (uw_to_w u1) @ '' W / PL2 '' @ fmt_g (uw_to_w u2) @ '' W, wanted ''
                        @ fmt_g want_pl1 @ '' / '' @ fmt_g want_pl2)
              else if sl_enabled sl \<noteq> Some 1 then (False, ''sysfs enabled != 1'')
              else (case msr of
                      None \<Rightarrow> (True, ''sysfs ok (MSR unavailable)'')
                    | Some l \<Rightarrow>
                        if MSR_TOLERANCE_W < \<bar>fsub (ml_pl1_w l) want_pl1\<bar> \<or> MSR_TOLERANCE_W < \<bar>fsub (ml_pl2_w l) want_pl2\<bar> then
                          (False, ''MSR 0x610 reads PL1 '' @ fmt_g (ml_pl1_w l) @ '' W / PL2 '' @ fmt_g (ml_pl2_w l)
                                  @ '' W, wanted '' @ fmt_g want_pl1 @ '' / '' @ fmt_g want_pl2)
                        else if \<not> ml_pl1_enable l then (False, ''MSR 0x610 PL1 not enabled'')
                        else (True, ''sysfs and MSR ok''))
          | _ \<Rightarrow> (False, ''sysfs readback unavailable'')))"

section \<open>The class \<open>Rapl\<close>\<close>

record rapl =
  r_zone :: string
  r_zones :: "string dict"
  r_max_range :: "int dict"
  r_last :: "(rat \<times> int) dict"
  r_c_long :: int
  r_c_short :: int

fun rapl_zones :: "files \<Rightarrow> string list \<Rightarrow> string dict \<Rightarrow> string dict" where
  "rapl_zones fs [] zs = zs"
| "rapl_zones fs (sub # subs) zs =
     (case read_text fs (path_join sub ''name'') None of
        Some name \<Rightarrow> rapl_zones fs subs (if name \<in> {''core'', ''uncore'', ''dram''} then dset name sub zs else zs)
      | None \<Rightarrow> rapl_zones fs subs zs)"

definition constraint_path :: "string \<Rightarrow> int \<Rightarrow> string \<Rightarrow> string" where
  "constraint_path zone i attr = path_join zone (''constraint_'' @ str_int i @ ''_'' @ attr)"

text \<open>One round of the loop that finds the long-term and the short-term constraint.\<close>

definition find_constraint :: "files \<Rightarrow> string \<Rightarrow> int \<Rightarrow> int \<times> int \<Rightarrow> int \<times> int" where
  "find_constraint fs zone i cs =
    (case read_text fs (constraint_path zone i ''name'') None of
       Some name \<Rightarrow> if name = ''long_term'' then (i, snd cs) else if name = ''short_term'' then (fst cs, i) else cs
     | None \<Rightarrow> cs)"

definition rapl_init :: "files \<Rightarrow> string list \<Rightarrow> string \<Rightarrow> rapl" where
  "rapl_init fs subs zone =
    (let zones = rapl_zones fs subs [(''package'', zone)];
         cs = find_constraint fs zone 1 (find_constraint fs zone 0 (0, 1))
     in \<lparr>r_zone = zone, r_zones = zones,
         r_max_range = map (\<lambda>(k, z). (k, case read_int fs (path_join z ''max_energy_range_uj'') (Some 0) of Some n \<Rightarrow> n | None \<Rightarrow> 0)) zones,
         r_last = [], r_c_long = fst cs, r_c_short = snd cs\<rparr>)"

definition rapl_available :: "files \<Rightarrow> rapl \<Rightarrow> bool" where
  "rapl_available fs r = (fs (path_join (r_zone r) ''energy_uj'') \<noteq> None)"

definition zone_power :: "files \<Rightarrow> rat \<Rightarrow> string \<times> string \<Rightarrow> rapl \<times> rat option dict \<Rightarrow> rapl \<times> rat option dict" where
  "zone_power fs now nz ro =
    (let (name, z) = nz; (r, out) = ro in
     case read_int fs (path_join z ''energy_uj'') None of
       None \<Rightarrow> (r, dset name None out)
     | Some cur \<Rightarrow>
         (r\<lparr>r_last := dset name (now, cur) (r_last r)\<rparr>,
          dset name (case dget (r_last r) name of
                       None \<Rightarrow> None
                     | Some (t, prev) \<Rightarrow>
                         energy_delta_w prev cur (case dget (r_max_range r) name of Some m \<Rightarrow> m | None \<Rightarrow> 0) (fsub now t)) out))"

definition rapl_power :: "files \<Rightarrow> rat \<Rightarrow> rapl \<Rightarrow> rapl \<times> rat option dict" where
  "rapl_power fs now r = fold (zone_power fs now) (r_zones r) (r, [])"

definition read_limits :: "files \<Rightarrow> rapl \<Rightarrow> sysfs_limits" where
  "read_limits fs r =
    (let c = constraint_path (r_zone r);
         pl1 = read_int fs (c (r_c_long r) ''power_limit_uw'') None;
         pl2 = read_int fs (c (r_c_short r) ''power_limit_uw'') None
     in \<lparr>sl_pl1_uw = pl1, sl_pl2_uw = pl2, sl_pl1_w = map_option uw_to_w pl1, sl_pl2_w = map_option uw_to_w pl2,
         sl_pl1_window_us = read_int fs (c (r_c_long r) ''time_window_us'') None,
         sl_pl2_window_us = read_int fs (c (r_c_short r) ''time_window_us'') None,
         sl_max_power_uw = read_int fs (c (r_c_long r) ''max_power_uw'') None,
         sl_enabled = read_int fs (path_join (r_zone r) ''enabled'') None\<rparr>)"

definition write_limits :: "driver \<Rightarrow> files \<Rightarrow> rapl \<Rightarrow> rat \<Rightarrow> rat \<Rightarrow> string list \<times> files" where
  "write_limits drv fs r pl1_w pl2_w =
    (let (e1, fs) = write_text drv fs (constraint_path (r_zone r) (r_c_long r) ''power_limit_uw'') (str_int (w_to_uw pl1_w));
         (e2, fs) = write_text drv fs (constraint_path (r_zone r) (r_c_short r) ''power_limit_uw'') (str_int (w_to_uw pl2_w));
         (e3, fs) = write_text drv fs (path_join (r_zone r) ''enabled'') ''1''
     in (List.map_filter id [e1, e2, e3], fs))"

record readback =
  rb_ok :: bool
  rb_reason :: string
  rb_pl1_w :: rat
  rb_pl2_w :: rat
  rb_sysfs :: sysfs_limits
  rb_msr :: "msr_limit option"
  rb_write_errors :: "string list"

text \<open>\<open>msr\<close> is the result of \<open>pkg_limit\<close> on the file system after the writes (\<open>None\<close> without a device).\<close>

definition apply_and_verify :: "driver \<Rightarrow> (files \<Rightarrow> msr_limit option) \<Rightarrow> files \<Rightarrow> rapl \<Rightarrow> rat \<Rightarrow> rat \<Rightarrow> rat \<Rightarrow> pyval
    \<Rightarrow> readback \<times> files" where
  "apply_and_verify drv msr fs r pl1_w pl2_w hard_max_w firmware =
    (let (pl1, pl2) = clamp_limits pl1_w pl2_w hard_max_w firmware;
         (errs, fs) = write_limits drv fs r pl1 pl2;
         sysfs = read_limits fs r;
         msr_lim = msr fs;
         (ok, reason) = compare_limits pl1 pl2 (Some sysfs) msr_lim;
         (ok, reason) = (if errs \<noteq> [] then (False, join_with ''; '' errs) else (ok, reason))
     in (\<lparr>rb_ok = ok, rb_reason = reason, rb_pl1_w = pl1, rb_pl2_w = pl2, rb_sysfs = sysfs, rb_msr = msr_lim,
          rb_write_errors = errs\<rparr>, fs))"

section \<open>Firmware limits\<close>

definition oint :: "int option \<Rightarrow> pyval" where
  "oint x = (case x of None \<Rightarrow> PNone | Some n \<Rightarrow> PInt n)"

definition onum :: "rat option \<Rightarrow> pyval" where
  "onum x = (case x of None \<Rightarrow> PNone | Some r \<Rightarrow> PFloat (Fin r))"

definition firmware_data :: "sysfs_limits \<Rightarrow> pyval \<Rightarrow> pyval \<Rightarrow> string \<Rightarrow> pyval dict" where
  "firmware_data lm msr boot_id stamp =
    [(''pl1_w'', onum (sl_pl1_w lm)), (''pl2_w'', onum (sl_pl2_w lm)),
     (''pl1_uw'', oint (sl_pl1_uw lm)), (''pl2_uw'', oint (sl_pl2_uw lm)),
     (''pl1_window_us'', oint (sl_pl1_window_us lm)), (''pl2_window_us'', oint (sl_pl2_window_us lm)),
     (''enabled'', oint (sl_enabled lm)), (''msr'', msr), (''boot_id'', boot_id), (''captured_at'', PStr stamp)]"

definition with_stale :: "string option \<Rightarrow> string \<Rightarrow> string" where
  "with_stale stale msg = (case stale of Some s \<Rightarrow> s @ ''; '' @ msg | None \<Rightarrow> msg)"

text \<open>The live capture: unreadable, suspect (a cap is already active, so not saved), or saved.\<close>

definition capture_firmware :: "(pyval \<Rightarrow> string) \<Rightarrow> files \<Rightarrow> string \<Rightarrow> rapl \<Rightarrow> pyval \<Rightarrow> pyval \<Rightarrow> string \<Rightarrow> string option
    \<Rightarrow> pyval option \<times> string option \<times> files" where
  "capture_firmware dumps fs path r msr boot_id stamp stale =
    (let lm = read_limits fs r in
     case (sl_pl1_w lm, sl_pl2_w lm) of
       (Some pl1, Some pl2) \<Rightarrow>
         (let data = firmware_data lm msr boot_id stamp in
          if pl1 < HARD_MAX_W then
            (Some (PDict (dset ''suspect'' (PBool True) data)),
             Some (with_stale stale (''live PL1 '' @ fmt_g pl1 @ '' W is below '' @ fmt_g HARD_MAX_W
               @ '' W, so a cap is already active: not saved, clamping to '' @ fmt_g HARD_MAX_W
               @ '' W only. The next boot captures the true values before the cap service writes (or install with --firmware-limits).'')),
             fs)
          else
            (Some (PDict data), map_option (\<lambda>s. s @ ''; replaced by a fresh capture'') stale,
             fs(path @ ''.tmp'' := None, path \<mapsto> dumps (PDict data))))
     | _ \<Rightarrow> (None, Some (with_stale stale ''RAPL limits unreadable; firmware limits not captured''), fs))"

text \<open>
  \<open>loads\<close> is \<open>json.load\<close> of the file's text (\<open>None\<close> for a \<open>ValueError\<close>), \<open>dumps\<close> is \<open>json.dump\<close>;
  \<open>msr\<close> the decoded register as JSON. A file that exists can be read. The temporary file replaces the saved one atomically.
\<close>

definition load_or_capture_firmware :: "(string \<Rightarrow> pyval option) \<Rightarrow> (pyval \<Rightarrow> string) \<Rightarrow> files \<Rightarrow> string \<Rightarrow> rapl \<Rightarrow> pyval
    \<Rightarrow> pyval \<Rightarrow> string \<Rightarrow> bool \<Rightarrow> pyval option \<times> string option \<times> files" where
  "load_or_capture_firmware loads dumps fs path r msr boot_id stamp force =
    (let saved = (if force then None else map_option (\<lambda>t. loads t) (fs path)) in
     case saved of
       Some (Some data) \<Rightarrow>
         if valid_firmware data \<noteq> None then (Some data, None, fs)
         else capture_firmware dumps fs path r msr boot_id stamp (Some (path @ '' is suspect or invalid and was ignored''))
     | Some None \<Rightarrow> capture_firmware dumps fs path r msr boot_id stamp (Some (path @ '' is suspect or invalid and was ignored''))
     | None \<Rightarrow> capture_firmware dumps fs path r msr boot_id stamp None)"


section \<open>Properties\<close>

text \<open>
  C15: between two readings of an energy counter that wraps at \<open>rng\<close>, with less than one full turn
  consumed, the power is the true energy divided by the time, wrapped or not.
\<close>

theorem energy_delta_wrap:
  assumes "0 \<le> prev" "prev < rng" "0 \<le> e" "e < rng" "0 < dt"
  shows "energy_delta_w prev ((prev + e) mod rng) rng dt = Some (fdiv (fdiv (fl (of_int e)) 1000000) dt)"
proof (cases "prev + e < rng")
  case True
  with assms show ?thesis by (simp add: energy_delta_w_def mod_pos_pos_trivial)
next
  case False
  then have "(prev + e) mod rng = prev + e - rng"
    using assms mod_pos_pos_trivial [of "prev + e - rng" rng] by (simp add: mod_diff_right_eq [symmetric])
  with False assms show ?thesis by (simp add: energy_delta_w_def)
qed

theorem energy_delta_wrap_witness:
  "energy_delta_w 262143000000 ((262143000000 + 20000000) mod 262143328850) 262143328850 1 = Some 20"
proof -
  have "energy_delta_w 262143000000 ((262143000000 + 20000000) mod 262143328850) 262143328850 1
     = Some (fdiv (fdiv (fl (of_int 20000000)) 1000000) 1)"
    by (rule energy_delta_wrap) simp_all
  then show ?thesis by simp
qed

lemma valid_firmware_pos: "valid_firmware fw = Some (a, b) \<Longrightarrow> 0 < a \<and> 0 < b"
  by (cases fw) (auto simp: valid_firmware_def pos_num_def split: if_splits option.splits)

text \<open>Rounding down to eighths: never above a multiple of 1/8 W that bounds the argument, and at most 1/8 W below it.\<close>

lemma floor_eighth_le:
  assumes "x \<le> of_int n / 8" "\<bar>n\<bar> \<le> 2 ^ 20"
  shows "floor_eighth x \<le> of_int n / 8"
proof -
  have n: "is_double (of_int n)" "is_double (of_int n / 8)"
    using assms(2) is_double_int [of n] is_double_half_power [OF is_double_int refl, of n 3] by simp_all
  have "fmul x 8 \<le> of_int n" using assms n by (intro fl_le) auto
  moreover have h: "is_double (of_int (2 * n + 1) / 2 ^ 1)"
    using assms(2) by (intro is_double_half_power [OF is_double_int refl]) auto
  moreover have "fl (1 / 1000000000) \<le> 1 / 2" by (rule fl_le) simp_all
  ultimately have "fadd (fmul x 8) (fl (1 / 1000000000)) \<le> of_int (2 * n + 1) / 2 ^ 1"
    by (intro fl_le) auto
  then have "\<lfloor>fadd (fmul x 8) (fl (1 / 1000000000))\<rfloor> \<le> n" by (simp add: floor_le_iff)
  then show ?thesis unfolding floor_eighth_def using n by (intro fl_le) auto
qed

lemma floor_eighth_multiple: "\<bar>x\<bar> \<le> 1000 \<Longrightarrow> \<exists>n. floor_eighth x = of_int n / 8 \<and> x - 1 / 7 \<le> of_int n / 8"
proof -
  assume x: "\<bar>x\<bar> \<le> 1000"
  let ?y = "fadd (fmul x 8) (fl (1 / 1000000000))"
  have a: "\<bar>fmul x 8 - x * 8\<bar> \<le> 1 / 1024" using x by (intro fl_near) (simp add: abs_mult)
  have e: "0 \<le> fl (1 / 1000000000)" "fl (1 / 1000000000) \<le> 1 / 2" by (simp, rule fl_le, simp_all)
  have "\<bar>fmul x 8 + fl (1 / 1000000000)\<bar> \<le> 10000" using a e x by linarith
  then have b: "\<bar>?y - (fmul x 8 + fl (1 / 1000000000))\<bar> \<le> 1 / 1024" by (intro fl_near) simp
  have y: "8 * x - 1 / 512 \<le> ?y" "- 9000 \<le> ?y" "?y \<le> 9000" using a b e x by linarith+
  have f: "?y - 1 < of_int \<lfloor>?y\<rfloor>" "of_int \<lfloor>?y\<rfloor> \<le> ?y" by linarith+
  have "- 9001 \<le> \<lfloor>?y\<rfloor>" "\<lfloor>?y\<rfloor> \<le> 9000" using y by (simp_all add: le_floor_iff floor_le_iff)
  then have "\<bar>\<lfloor>?y\<rfloor>\<bar> \<le> 9001" by linarith
  then have "floor_eighth x = of_int \<lfloor>?y\<rfloor> / 8"
    using is_double_half_power [OF is_double_int refl, of "\<lfloor>?y\<rfloor>" 3] by (simp add: floor_eighth_def fl_exact)
  moreover have "x - 1 / 7 \<le> of_int \<lfloor>?y\<rfloor> / 8" using f(1) y(1) by simp
  ultimately show ?thesis by blast
qed



lemma write_limits_ok:
  assumes "write_limits drv fs r p q = ([], fs')"
  shows "\<exists>fs1 fs2. drv fs (constraint_path (r_zone r) (r_c_long r) ''power_limit_uw'') (str_int (w_to_uw p)) = Inr fs1 \<and>
    drv fs1 (constraint_path (r_zone r) (r_c_short r) ''power_limit_uw'') (str_int (w_to_uw q)) = Inr fs2 \<and>
    drv fs2 (path_join (r_zone r) ''enabled'') ''1'' = Inr fs'"
  using assms by (auto simp: write_limits_def write_text_def Let_def map_filter_def split: sum.splits)

text \<open>What a successful \<open>apply_and_verify\<close> has checked.\<close>

lemma aav_sound:
  assumes "apply_and_verify drv msr fs r pl1 pl2 hard fw = (rb, fs')" "rb_ok rb"
  shows "(rb_pl1_w rb, rb_pl2_w rb) = clamp_limits pl1 pl2 hard fw \<and>
    read_int fs' (constraint_path (r_zone r) (r_c_long r) ''power_limit_uw'') None = Some (w_to_uw (rb_pl1_w rb)) \<and>
    read_int fs' (constraint_path (r_zone r) (r_c_short r) ''power_limit_uw'') None = Some (w_to_uw (rb_pl2_w rb)) \<and>
    read_int fs' (path_join (r_zone r) ''enabled'') None = Some 1 \<and> rb_write_errors rb = [] \<and>
    (case msr fs' of None \<Rightarrow> True
     | Some l \<Rightarrow> \<bar>fsub (ml_pl1_w l) (rb_pl1_w rb)\<bar> \<le> 1 / 8 \<and> \<bar>fsub (ml_pl2_w l) (rb_pl2_w rb)\<bar> \<le> 1 / 8 \<and> ml_pl1_enable l)"
proof -
  obtain a b where c: "clamp_limits pl1 pl2 hard fw = (a, b)" by (cases "clamp_limits pl1 pl2 hard fw")
  obtain errs fs1 where w: "write_limits drv fs r a b = (errs, fs1)" by (cases "write_limits drv fs r a b")
  obtain ok why where k: "compare_limits a b (Some (read_limits fs1 r)) (msr fs1) = (ok, why)"
    by (cases "compare_limits a b (Some (read_limits fs1 r)) (msr fs1)")
  have e: "fs' = fs1" "errs = []" "ok" "rb_pl1_w rb = a" "rb_pl2_w rb = b" "rb_write_errors rb = []"
    using assms by (auto simp: apply_and_verify_def c w k Let_def split: if_splits)
  obtain u1 u2 where u: "sl_pl1_uw (read_limits fs1 r) = Some u1" "sl_pl2_uw (read_limits fs1 r) = Some u2"
    using k e(3) by (auto simp: compare_limits_def split: option.splits)
  have "u1 = w_to_uw a" "u2 = w_to_uw b" "sl_enabled (read_limits fs1 r) = Some 1"
    using k e(3) u by (auto simp: compare_limits_def split: if_splits)
  moreover have "case msr fs1 of None \<Rightarrow> True
     | Some l \<Rightarrow> \<bar>fsub (ml_pl1_w l) a\<bar> \<le> 1 / 8 \<and> \<bar>fsub (ml_pl2_w l) b\<bar> \<le> 1 / 8 \<and> ml_pl1_enable l"
    using k e(3) u by (cases "msr fs1") (auto simp: compare_limits_def MSR_TOLERANCE_W_def split: if_splits)
  ultimately show ?thesis using u unfolding e(1,4,5,6) c by (simp add: read_limits_def Let_def)
qed

text \<open>
  C17: when \<open>apply_and_verify\<close> reports success, whatever the kernel did with the writes, no write
  failed, the limit files read exactly the microwatts of the clamped limits, the zone is enabled,
  and the machine register, if it can be read, agrees within one unit and has PL1 enabled.
\<close>

theorem apply_and_verify_sound:
  assumes "apply_and_verify drv msr fs r pl1 pl2 hard fw = (rb, fs')" "rb_ok rb"
  shows "(rb_pl1_w rb, rb_pl2_w rb) = clamp_limits pl1 pl2 hard fw \<and>
    read_int fs' (constraint_path (r_zone r) (r_c_long r) ''power_limit_uw'') None = Some (w_to_uw (rb_pl1_w rb)) \<and>
    read_int fs' (constraint_path (r_zone r) (r_c_short r) ''power_limit_uw'') None = Some (w_to_uw (rb_pl2_w rb)) \<and>
    read_int fs' (path_join (r_zone r) ''enabled'') None = Some 1 \<and> rb_write_errors rb = [] \<and>
    (case msr fs' of None \<Rightarrow> True
     | Some l \<Rightarrow> \<bar>fsub (ml_pl1_w l) (rb_pl1_w rb)\<bar> \<le> 1 / 8 \<and> \<bar>fsub (ml_pl2_w l) (rb_pl2_w rb)\<bar> \<le> 1 / 8 \<and> ml_pl1_enable l)"
  using assms by (rule aav_sound)

definition demo_rapl :: rapl where
  "demo_rapl = \<lparr>r_zone = ''/z'', r_zones = [(''package'', ''/z'')], r_max_range = [(''package'', 1000)], r_last = [],
     r_c_long = 0, r_c_short = 1\<rparr>"

lemma demo_rapl_paths:
  "constraint_path ''/z'' 0 ''power_limit_uw'' = ''/z/constraint_0_power_limit_uw''"
  "constraint_path ''/z'' 1 ''power_limit_uw'' = ''/z/constraint_1_power_limit_uw''" "path_join ''/z'' ''enabled'' = ''/z/enabled''"
  by code_simp+

lemma lands_core:
  assumes "r_c_long r \<noteq> r_c_short r" "(p, q) = clamp_limits pl1 pl2 hard fw"
  shows "rb_ok (fst (apply_and_verify plain_driver (\<lambda>_. None) fs r pl1 pl2 hard fw)) \<and>
    snd (apply_and_verify plain_driver (\<lambda>_. None) fs r pl1 pl2 hard fw) =
      fs(constraint_path (r_zone r) (r_c_long r) ''power_limit_uw'' \<mapsto> str_int (w_to_uw p),
         constraint_path (r_zone r) (r_c_short r) ''power_limit_uw'' \<mapsto> str_int (w_to_uw q),
         path_join (r_zone r) ''enabled'' \<mapsto> ''1'')"
proof -
  let ?a = "constraint_path (r_zone r) (r_c_long r) ''power_limit_uw''"
  let ?b = "constraint_path (r_zone r) (r_c_short r) ''power_limit_uw''"
  let ?c = "path_join (r_zone r) ''enabled''"
  have pj: "path_join z ''enabled'' = dir_part z @ ''enabled''" "path_join z (''constraint_'' @ x) = dir_part z @ ''constraint_'' @ x" for z x
    by (rule path_join_rel, simp add: starts_with_def)+
  have ab: "?a \<noteq> ?b"
  proof
    assume "?a = ?b"
    then have "str_int (r_c_long r) @ ''_power_limit_uw'' = str_int (r_c_short r) @ ''_power_limit_uw''"
      unfolding constraint_path_def pj by simp
    then have "str_int (r_c_long r) = str_int (r_c_short r)" by simp
    then have "parse_int (str_int (r_c_long r)) = parse_int (str_int (r_c_short r))" by (rule arg_cong)
    with assms(1) show False by (simp add: parse_int_str_int)
  qed
  have ac: "?a \<noteq> ?c" "?b \<noteq> ?c"
    unfolding constraint_path_def pj by simp_all
  define fs' where "fs' = fs(?a \<mapsto> str_int (w_to_uw p), ?b \<mapsto> str_int (w_to_uw q), ?c \<mapsto> ''1'')"
  have w: "write_limits plain_driver fs r p q = ([], fs')"
    by (simp add: write_limits_def write_text_def plain_driver_def Let_def map_filter_def fs'_def)
  have one: "''1'' = str_int 1" by code_simp
  have "read_int fs' ?a None = Some (w_to_uw p)" "read_int fs' ?b None = Some (w_to_uw q)" "read_int fs' ?c None = Some 1"
    using ab ac by (auto simp: fs'_def one intro!: read_int_str)
  then have k: "compare_limits p q (Some (read_limits fs' r)) None = (True, ''sysfs ok (MSR unavailable)'')"
    by (simp add: compare_limits_def read_limits_def Let_def)
  show ?thesis unfolding apply_and_verify_def assms(2) [symmetric] fs'_def [symmetric] by (simp add: w k Let_def)
qed

text \<open>
  C18: on a zone whose files store what is written, and without a machine register to contradict it,
  the limits land: \<open>apply_and_verify\<close> reports success for every clamped pair.
\<close>

theorem apply_and_verify_lands:
  assumes "r_c_long r \<noteq> r_c_short r" "(p, q) = clamp_limits pl1 pl2 hard fw"
  shows "rb_ok (fst (apply_and_verify plain_driver (\<lambda>_. None) fs r pl1 pl2 hard fw)) \<and>
    snd (apply_and_verify plain_driver (\<lambda>_. None) fs r pl1 pl2 hard fw) =
      fs(constraint_path (r_zone r) (r_c_long r) ''power_limit_uw'' \<mapsto> str_int (w_to_uw p),
         constraint_path (r_zone r) (r_c_short r) ''power_limit_uw'' \<mapsto> str_int (w_to_uw q),
         path_join (r_zone r) ''enabled'' \<mapsto> ''1'')"
  using assms by (rule lands_core)

lemma demo_clamp: "clamp_limits 35 40 45 PNone = (35, 40)"
proof -
  have "floor_eighth 35 = 35" "floor_eighth 40 = 40" by code_simp+
  then show ?thesis by (simp add: clamp_limits_def valid_firmware_def)
qed

theorem apply_and_verify_lands_witness:
  "rb_ok (fst (apply_and_verify plain_driver (\<lambda>_. None) Map.empty demo_rapl 35 40 45 PNone))"
  using apply_and_verify_lands [of demo_rapl 35 40 35 40 45 PNone Map.empty] demo_clamp by (simp add: demo_rapl_def)

theorem apply_and_verify_sound_witness:
  "\<exists>rb fs'. apply_and_verify plain_driver (\<lambda>_. None) Map.empty demo_rapl 35 40 45 PNone = (rb, fs') \<and> rb_ok rb \<and>
     read_int fs' ''/z/constraint_0_power_limit_uw'' None = Some (w_to_uw 35)"
proof -
  obtain rb fs' where a: "apply_and_verify plain_driver (\<lambda>_. None) Map.empty demo_rapl 35 40 45 PNone = (rb, fs')"
    by (cases "apply_and_verify plain_driver (\<lambda>_. None) Map.empty demo_rapl 35 40 45 PNone")
  have ok: "rb_ok rb" using lands_core [of demo_rapl 35 40 35 40 45 PNone Map.empty] demo_clamp a by (simp add: demo_rapl_def)
  from apply_and_verify_sound [OF a ok] a ok demo_clamp show ?thesis
    by (simp add: demo_rapl_def demo_rapl_paths)
qed

text \<open>
  Limits captured while a cap is active (live PL1 below 45 W) are neither saved nor ever used as a
  clamp; limits captured otherwise are saved, and the next start loads exactly them from the file,
  provided the JSON codec gives back what it wrote.
\<close>

theorem firmware_capture:
  assumes "loads (dumps data) = Some data"
    and "fs path = None \<or> force" "read_limits fs r = lm" "sl_pl1_w lm = Some pl1" "sl_pl2_w lm = Some pl2" "0 < pl2"
    and "load_or_capture_firmware loads dumps fs path r msr boot stamp force = (Some data, warn, fs')"
  shows "if pl1 < 45 then fs' = fs \<and> valid_firmware data = None
    else valid_firmware data = Some (pl1, pl2) \<and>
      load_or_capture_firmware loads dumps fs' path r msr' boot' stamp' False = (Some data, None, fs')"
proof -
  have c: "capture_firmware dumps fs path r msr boot stamp None = (Some data, warn, fs')"
    using assms(2,7) by (cases force; cases "fs path") (auto simp: load_or_capture_firmware_def)
  let ?d = "firmware_data lm msr boot stamp"
  show ?thesis
  proof (cases "pl1 < 45")
    case True
    with c assms(3,4,5) have "data = PDict (dset ''suspect'' (PBool True) ?d)" "fs' = fs"
      by (auto simp: capture_firmware_def HARD_MAX_W_def Let_def)
    with True show ?thesis by (simp add: valid_firmware_def py_get_def)
  next
    case False
    with c assms(3,4,5) have d: "data = PDict ?d" "fs' path = Some (dumps (PDict ?d))"
      by (auto simp: capture_firmware_def HARD_MAX_W_def Let_def)
    have "valid_firmware (PDict ?d) = Some (pl1, pl2)"
      using False assms(4,5,6) by (simp add: valid_firmware_def py_get_def firmware_data_def onum_def pos_num_def)
    with False d assms(1) show ?thesis by (simp add: load_or_capture_firmware_def)
  qed
qed

definition demo_zone :: files where
  "demo_zone = [''/z/constraint_0_power_limit_uw'' \<mapsto> ''50000000'', ''/z/constraint_1_power_limit_uw'' \<mapsto> ''60000000'']"

definition demo_limits :: sysfs_limits where
  "demo_limits = \<lparr>sl_pl1_uw = Some 50000000, sl_pl2_uw = Some 60000000, sl_pl1_w = Some 50, sl_pl2_w = Some 60,
     sl_pl1_window_us = None, sl_pl2_window_us = None, sl_max_power_uw = None, sl_enabled = None\<rparr>"

lemma demo_zone_limits: "read_limits demo_zone demo_rapl = demo_limits"
  by code_simp

theorem firmware_capture_witness:
  "(let d = PDict (firmware_data demo_limits PNone PNone []) in
    \<exists>fs'. load_or_capture_firmware (\<lambda>_. Some d) (\<lambda>_. ''json'') demo_zone ''/f'' demo_rapl PNone PNone [] False = (Some d, None, fs') \<and>
      load_or_capture_firmware (\<lambda>_. Some d) (\<lambda>_. ''json'') fs' ''/f'' demo_rapl PNone PNone [] False = (Some d, None, fs'))"
proof -
  let ?d = "PDict (firmware_data demo_limits PNone PNone [])"
  have f: "demo_zone ''/f'' = None" by (simp add: demo_zone_def)
  have l: "sl_pl1_w demo_limits = Some 50" "sl_pl2_w demo_limits = Some 60" by (simp_all add: demo_limits_def)
  have "\<exists>fs'. load_or_capture_firmware (\<lambda>_. Some ?d) (\<lambda>_. ''json'') demo_zone ''/f'' demo_rapl PNone PNone [] False = (Some ?d, None, fs')"
    by (simp add: load_or_capture_firmware_def f capture_firmware_def demo_zone_limits l HARD_MAX_W_def)
  then obtain fs' where c: "load_or_capture_firmware (\<lambda>_. Some ?d) (\<lambda>_. ''json'') demo_zone ''/f'' demo_rapl PNone PNone [] False
      = (Some ?d, None, fs')" by blast
  from firmware_capture [OF refl disjI1 [OF f] demo_zone_limits l _ c] c show ?thesis by (auto simp: Let_def)
qed

end
