(* ===== verification/Smc.thy ===== *)
theory Smc
  imports Msr
begin

text \<open>
  \<open>daemon/smc.py\<close>: reading the keys of the Apple SMC through the \<open>key_at_index\<close> selector, and the
  applesmc temperature and fan sensors. The access object is a parameter, a record of its methods
  over its own state; \<open>sysfs_smc_io\<close> is the one on the applesmc files. JSON text (\<open>loads\<close>, \<open>dumps\<close>)
  and \<open>str\<close> on values other than strings (\<open>strv\<close>) are parameters.
\<close>

definition RESCAN_MIN_INTERVAL_S :: rat where "RESCAN_MIN_INTERVAL_S = 60"
definition SMC_SLOW_EVERY_S :: rat where "SMC_SLOW_EVERY_S = 3"
definition DUE_SLACK_S :: rat where "DUE_SLACK_S = fl (1 / 10)"

definition due :: "rat option \<Rightarrow> rat \<Rightarrow> rat \<Rightarrow> bool" where
  "due last_t now every_s =
    (case last_t of None \<Rightarrow> True | Some t \<Rightarrow> \<not> (0 \<le> fsub now t \<and> fsub now t < fsub every_s DUE_SLACK_S))"

section \<open>Decoding\<close>

type_synonym bytes = "8 word list"

text \<open>\<open>int.from_bytes(data, "big")\<close>, unsigned and signed.\<close>

fun be_uint :: "bytes \<Rightarrow> int" where
  "be_uint [] = 0"
| "be_uint (b # bs) = uint b * 256 ^ length bs + be_uint bs"

definition be_sint :: "bytes \<Rightarrow> int" where
  "be_sint bs = (let u = be_uint bs; n = length bs in if n = 0 then 0 else if u < 128 * 256 ^ (n - 1) then u else u - 256 ^ n)"

text \<open>\<open>struct.unpack("<f", data)\<close>: an IEEE 754 single, whose value is a double.\<close>

definition le_uint :: "bytes \<Rightarrow> nat" where
  "le_uint bs = nat (be_uint (rev bs))"

definition single_of :: "nat \<Rightarrow> pyfloat" where
  "single_of u =
    (let neg = (u div 2 ^ 31 = 1); ex = (u div 2 ^ 23) mod 256; man = u mod 2 ^ 23
     in if ex = 255 then (if man \<noteq> 0 then NaN else if neg then NegInf else PosInf)
        else let m = (if ex = 0 then of_nat man / 2 ^ 149 else of_nat (2 ^ 23 + man) * 2 ^ ex / 2 ^ 150)
             in Fin (if neg then - m else m))"

fun hex_str :: "bytes \<Rightarrow> string" where
  "hex_str [] = []"
| "hex_str (b # bs) = hex_char (unat b div 16) # hex_char (unat b mod 16) # hex_str bs"

text \<open>\<open>int(c, 16)\<close> of one character.\<close>

definition hex_val :: "char \<Rightarrow> nat option" where
  "hex_val c = (let n = (of_char c :: nat) in
     if 48 \<le> n \<and> n \<le> 57 then Some (n - 48) else if 97 \<le> n \<and> n \<le> 102 then Some (n - 87)
     else if 65 \<le> n \<and> n \<le> 70 then Some (n - 55) else None)"

definition decode :: "string \<Rightarrow> bytes \<Rightarrow> pyval" where
  "decode typ data =
    (let t = strip typ in
     if t = ''flt'' \<and> 4 \<le> length data then PFloat (single_of (le_uint (take 4 data)))
     else if t \<in> {''ui8'', ''ui16'', ''ui32'', ''ui64''} then PInt (be_uint data)
     else if t \<in> {''si8'', ''si16'', ''si32'', ''si64''} then PInt (be_sint data)
     else if t = ''sp78'' \<and> 2 \<le> length data then PFloat (Fin (fdiv (of_int (be_sint (take 2 data))) 256))
     else if t = ''fpe2'' \<and> 2 \<le> length data then PFloat (Fin (fdiv (of_int (be_uint (take 2 data))) 4))
     else if length t = 4 \<and> take 2 t \<in> {''fp'', ''sp''} \<and> 2 \<le> length data then
       (case hex_val (t ! 3) of
          None \<Rightarrow> PStr (hex_str data)
        | Some fb \<Rightarrow>
            PFloat (Fin (fdiv (of_int (if take 2 t = ''sp'' then be_sint (take 2 data) else be_uint (take 2 data))) (2 ^ fb))))
     else if t = ''flag'' then PBool (case data of [] \<Rightarrow> False | b # _ \<Rightarrow> b \<noteq> 0)
     else PStr (hex_str data))"

section \<open>The access object\<close>

record 's smc_io =
  sio_key_count :: "'s \<Rightarrow> int"
  sio_get_selector :: "'s \<Rightarrow> string option"
  sio_select :: "'s \<Rightarrow> string \<Rightarrow> string option \<times> 's"
  sio_name :: "'s \<Rightarrow> string"
  sio_type :: "'s \<Rightarrow> string"
  sio_length :: "'s \<Rightarrow> int"
  sio_data :: "'s \<Rightarrow> string + bytes"

definition or_zero :: "int option \<Rightarrow> int" where
  "or_zero x = (case x of Some n \<Rightarrow> n | None \<Rightarrow> 0)"

definition or_empty :: "string option \<Rightarrow> string" where
  "or_empty x = (case x of Some s \<Rightarrow> s | None \<Rightarrow> [])"

definition bytes_of :: "string \<Rightarrow> bytes" where
  "bytes_of s = map (\<lambda>c. word_of_nat (of_char c)) s"

text \<open>\<open>SysfsSmcIO\<close>; an unreadable data file raises \<open>OSError\<close> with the text \<open>ioerr\<close>.\<close>

definition sysfs_smc_io :: "driver \<Rightarrow> string \<Rightarrow> string \<Rightarrow> files smc_io" where
  "sysfs_smc_io drv ioerr base =
    \<lparr>sio_key_count = (\<lambda>fs. or_zero (read_int fs (path_join base ''key_count'') (Some 0))),
     sio_get_selector = (\<lambda>fs. read_text fs (path_join base ''key_at_index'') None),
     sio_select = (\<lambda>fs index. write_text drv fs (path_join base ''key_at_index'') index),
     sio_name = (\<lambda>fs. or_empty (read_text fs (path_join base ''key_at_index_name'') (Some []))),
     sio_type = (\<lambda>fs. or_empty (read_text fs (path_join base ''key_at_index_type'') (Some []))),
     sio_length = (\<lambda>fs. or_zero (read_int fs (path_join base ''key_at_index_data_length'') (Some 0))),
     sio_data = (\<lambda>fs. case fs (path_join base ''key_at_index_data'') of None \<Rightarrow> Inl ioerr | Some t \<Rightarrow> Inr (bytes_of t))\<rparr>"

section \<open>The key table\<close>

type_synonym smc_table = "(string \<times> int \<times> string \<times> int) list"

record smc =
  smc_cache_path :: "string option"
  smc_last_scan :: "rat option"
  smc_table :: smc_table
  smc_original :: "string option"
  smc_ok :: bool

definition smc_init :: "string option \<Rightarrow> smc" where
  "smc_init cache = \<lparr>smc_cache_path = cache, smc_last_scan = None, smc_table = [], smc_original = None, smc_ok = False\<rparr>"

text \<open>\<open>v[i]\<close> and \<open>int(v)\<close> on JSON values.\<close>

definition py_index :: "pyval \<Rightarrow> nat \<Rightarrow> pyval res" where
  "py_index v i =
    (case v of
       PList xs \<Rightarrow> if i < length xs then Inr (xs ! i) else Inl (IndexError ''list index out of range'')
     | PStr s \<Rightarrow> if i < length s then Inr (PStr [s ! i]) else Inl (IndexError ''string index out of range'')
     | PDict _ \<Rightarrow> Inl (KeyError (str_int (int i)))
     | _ \<Rightarrow> Inl (TypeError ''object is not subscriptable''))"

definition py_int :: "pyval \<Rightarrow> int res" where
  "py_int v =
    (case v of
       PInt n \<Rightarrow> Inr n
     | PBool b \<Rightarrow> Inr (if b then 1 else 0)
     | PFloat (Fin x) \<Rightarrow> Inr (trunc_rat x)
     | PFloat NaN \<Rightarrow> Inl (ValueError ''cannot convert float NaN to integer'')
     | PFloat _ \<Rightarrow> Inl (OverflowError ''cannot convert float infinity to integer'')
     | PStr s \<Rightarrow> (case parse_int s of Some n \<Rightarrow> Inr n | None \<Rightarrow> Inl (ValueError ''invalid literal for int() with base 10''))
     | _ \<Rightarrow> Inl (TypeError ''int() argument must be a string, a bytes-like object or a real number''))"

definition str_val :: "(pyval \<Rightarrow> string) \<Rightarrow> pyval \<Rightarrow> string" where
  "str_val strv v = (case v of PStr s \<Rightarrow> s | _ \<Rightarrow> strv v)"

definition cache_entry :: "(pyval \<Rightarrow> string) \<Rightarrow> pyval \<Rightarrow> (int \<times> string \<times> int) res" where
  "cache_entry strv v =
    res_bind (py_index v 0) (\<lambda>a. res_bind (py_int a) (\<lambda>idx. res_bind (py_index v 1) (\<lambda>b.
    res_bind (py_index v 2) (\<lambda>c. res_bind (py_int c) (\<lambda>len. Inr (idx, str_val strv b, len))))))"

fun cache_table :: "(pyval \<Rightarrow> string) \<Rightarrow> pyval dict \<Rightarrow> smc_table \<Rightarrow> smc_table res" where
  "cache_table strv [] t = Inr t"
| "cache_table strv ((k, v) # kvs) t = res_bind (cache_entry strv v) (\<lambda>e. cache_table strv kvs (dset k e t))"

text \<open>The exceptions \<open>_load_cache\<close> handles; the others leave it.\<close>

fun cache_caught :: "py_exn \<Rightarrow> bool" where
  "cache_caught (OSError _) = True"
| "cache_caught (ValueError _) = True"
| "cache_caught (KeyError _) = True"
| "cache_caught (TypeError _) = True"
| "cache_caught (IndexError _) = True"
| "cache_caught _ = False"

definition cached_table :: "(pyval \<Rightarrow> string) \<Rightarrow> pyval \<Rightarrow> int \<Rightarrow> smc_table option res" where
  "cached_table strv raw count =
    (case raw of
       PDict d \<Rightarrow>
         if as_float (py_get d ''key_count'') \<noteq> Some (Fin (of_int count)) \<or> \<not> truthy (py_get d ''keys'') then Inr None
         else (case py_get d ''keys'' of
                 PDict kvs \<Rightarrow> (case cache_table strv kvs [] of
                   Inr t \<Rightarrow> Inr (Some t) | Inl e \<Rightarrow> if cache_caught e then Inr None else Inl e)
               | _ \<Rightarrow> Inl (AttributeError ''items''))
     | _ \<Rightarrow> Inl (AttributeError ''get''))"

text \<open>\<open>_load_cache\<close>: the state and whether a table was loaded, or the exception that leaves it.\<close>

definition load_cache :: "(string \<Rightarrow> pyval option) \<Rightarrow> (pyval \<Rightarrow> string) \<Rightarrow> files \<Rightarrow> int \<Rightarrow> smc \<Rightarrow> (smc \<times> bool) res" where
  "load_cache loads strv cfs count m =
    (case smc_cache_path m of
       None \<Rightarrow> Inr (m, False)
     | Some p \<Rightarrow> if p = [] then Inr (m, False) else
         (case Option.bind (cfs p) loads of
            None \<Rightarrow> Inr (m, False)
          | Some raw \<Rightarrow> res_bind (cached_table strv raw count) (\<lambda>t.
              case t of None \<Rightarrow> Inr (m, False) | Some t \<Rightarrow> Inr (m\<lparr>smc_table := t\<rparr>, True))))"

text \<open>The loop of \<open>_scan\<close> from index \<open>i\<close>, \<open>n\<close> steps: an error of the selector, or the table; and the device.\<close>

fun scan_loop :: "'s smc_io \<Rightarrow> nat \<Rightarrow> nat \<Rightarrow> 's \<Rightarrow> smc_table \<Rightarrow> (string + smc_table) \<times> 's" where
  "scan_loop io i 0 s t = (Inr t, s)"
| "scan_loop io i (Suc n) s t =
    (case sio_select io s (str_int (int i)) of
       (Some err, s) \<Rightarrow> (Inl err, s)
     | (None, s) \<Rightarrow>
         let name = sio_name io s in
         scan_loop io (Suc i) n s (if name = [] then t else dset name (int i, sio_type io s, sio_length io s) t))"

definition cache_doc :: "int \<Rightarrow> smc_table \<Rightarrow> pyval" where
  "cache_doc count t = PDict [(''key_count'', PInt count),
     (''keys'', PDict (map (\<lambda>(k, i, ty, len). (k, PList [PInt i, PStr ty, PInt len])) t))]"

text \<open>\<open>_scan\<close>: \<open>saved\<close> tells whether writing the cache file succeeds; its failure is only warned about.\<close>

definition scan :: "'s smc_io \<Rightarrow> (pyval \<Rightarrow> string) \<Rightarrow> bool \<Rightarrow> rat \<Rightarrow> int \<Rightarrow> smc \<times> 's \<times> files \<Rightarrow> string option \<times> smc \<times> 's \<times> files" where
  "scan io dumps saved clock count w =
    (let (m, s, cfs) = w; m = m\<lparr>smc_last_scan := Some clock\<rparr> in
     case scan_loop io 0 (nat count) s [] of
       (Inl err, s) \<Rightarrow> (Some err, m, s, cfs)
     | (Inr t, s) \<Rightarrow>
         (None, m\<lparr>smc_table := t\<rparr>, s,
          case smc_cache_path m of
            Some p \<Rightarrow> if p \<noteq> [] \<and> t \<noteq> [] \<and> saved then cfs(p @ ''.tmp'' := None, p \<mapsto> dumps (cache_doc count t)) else cfs
          | None \<Rightarrow> cfs))"

definition smc_open :: "'s smc_io \<Rightarrow> (string \<Rightarrow> pyval option) \<Rightarrow> (pyval \<Rightarrow> string) \<Rightarrow> (pyval \<Rightarrow> string) \<Rightarrow> bool \<Rightarrow> rat
    \<Rightarrow> smc \<times> 's \<times> files \<Rightarrow> bool res \<times> smc \<times> 's \<times> files" where
  "smc_open io loads dumps strv saved clock w =
    (let (m, s, cfs) = w; m = m\<lparr>smc_original := sio_get_selector io s\<rparr>; count = sio_key_count io s in
     case load_cache loads strv cfs count m of
       Inl e \<Rightarrow> (case e of OSError _ \<Rightarrow> (Inr False, m\<lparr>smc_ok := False\<rparr>, s, cfs) | _ \<Rightarrow> (Inl e, m, s, cfs))
     | Inr (m, True) \<Rightarrow> (Inr (smc_table m \<noteq> []), m\<lparr>smc_ok := smc_table m \<noteq> []\<rparr>, s, cfs)
     | Inr (m, False) \<Rightarrow>
         (case scan io dumps saved clock count (m, s, cfs) of
            (Some err, m, s, cfs) \<Rightarrow> (Inr False, m\<lparr>smc_ok := False\<rparr>, s, cfs)
          | (None, m, s, cfs) \<Rightarrow> (Inr (smc_table m \<noteq> []), m\<lparr>smc_ok := smc_table m \<noteq> []\<rparr>, s, cfs)))"

section \<open>Reading keys\<close>

text \<open>\<open>data[:n]\<close>.\<close>

definition prefix_to :: "int \<Rightarrow> bytes \<Rightarrow> bytes" where
  "prefix_to n data = (if 0 \<le> n then take (nat n) data else take (length data - nat (- n)) data)"

definition raw_locked :: "'s smc_io \<Rightarrow> smc_table \<Rightarrow> string \<Rightarrow> 's \<Rightarrow> (string + (string \<times> bytes) option) \<times> 's" where
  "raw_locked io t key s =
    (case dget t key of
       None \<Rightarrow> (Inr None, s)
     | Some (index, typ, len) \<Rightarrow>
         (case sio_select io s (str_int index) of
            (Some err, s) \<Rightarrow> (Inl err, s)
          | (None, s) \<Rightarrow>
              if sio_name io s \<noteq> key then (Inr None, s)
              else (case sio_data io s of
                      Inl err \<Rightarrow> (Inl err, s)
                    | Inr data \<Rightarrow> (Inr (Some (typ, if len \<noteq> 0 then prefix_to len data else data)), s))))"

text \<open>\<open>raw\<close>; \<open>now\<close> and \<open>clock\<close> are the two readings of the clock (the second in the rescan).\<close>

definition raw :: "'s smc_io \<Rightarrow> (pyval \<Rightarrow> string) \<Rightarrow> bool \<Rightarrow> rat \<Rightarrow> rat \<Rightarrow> string \<Rightarrow> smc \<times> 's \<times> files
    \<Rightarrow> (string \<times> bytes) option \<times> smc \<times> 's \<times> files" where
  "raw io dumps saved now clock key w =
    (let (m, s, cfs) = w in
     case raw_locked io (smc_table m) key s of
       (Inl err, s) \<Rightarrow> (None, m, s, cfs)
     | (Inr (Some got), s) \<Rightarrow> (Some got, m, s, cfs)
     | (Inr None, s) \<Rightarrow>
         if \<not> dhas (smc_table m) key then (None, m, s, cfs)
         else if (case smc_last_scan m of Some t \<Rightarrow> fsub now t < RESCAN_MIN_INTERVAL_S | None \<Rightarrow> False) then (None, m, s, cfs)
         else (case scan io dumps saved clock (sio_key_count io s) (m, s, cfs) of
                 (Some err, m, s, cfs) \<Rightarrow> (None, m, s, cfs)
               | (None, m, s, cfs) \<Rightarrow>
                   (case raw_locked io (smc_table m) key s of
                      (Inl err, s) \<Rightarrow> (None, m, s, cfs)
                    | (Inr got, s) \<Rightarrow> (got, m, s, cfs))))"

definition smc_read :: "'s smc_io \<Rightarrow> (pyval \<Rightarrow> string) \<Rightarrow> bool \<Rightarrow> rat \<Rightarrow> rat \<Rightarrow> string \<Rightarrow> smc \<times> 's \<times> files \<Rightarrow> pyval \<times> smc \<times> 's \<times> files" where
  "smc_read io dumps saved now clock key w =
    (case raw io dumps saved now clock key w of
       (Some (typ, data), w) \<Rightarrow> (decode typ data, w)
     | (None, w) \<Rightarrow> (PNone, w))"

fun read_many :: "'s smc_io \<Rightarrow> (pyval \<Rightarrow> string) \<Rightarrow> bool \<Rightarrow> rat \<Rightarrow> rat \<Rightarrow> string list \<Rightarrow> pyval dict \<Rightarrow> smc \<times> 's \<times> files
    \<Rightarrow> pyval dict \<times> smc \<times> 's \<times> files" where
  "read_many io dumps saved now clock [] acc w = (acc, w)"
| "read_many io dumps saved now clock (k # ks) acc w =
    (case smc_read io dumps saved now clock k w of (v, w) \<Rightarrow> read_many io dumps saved now clock ks (dset k v acc) w)"

definition smc_has :: "smc \<Rightarrow> string \<Rightarrow> bool" where
  "smc_has m key = dhas (smc_table m) key"

definition keys_info :: "smc \<Rightarrow> pyval list" where
  "keys_info m = map (\<lambda>(k, i, ty, len). PDict [(''name'', PStr k), (''index'', PInt i), (''type'', PStr ty), (''len'', PInt len)])
     (sort_key fst (smc_table m))"

definition smc_restore :: "'s smc_io \<Rightarrow> smc \<Rightarrow> 's \<Rightarrow> 's" where
  "smc_restore io m s = (case smc_original m of None \<Rightarrow> s | Some sel \<Rightarrow> snd (sio_select io s sel))"

section \<open>Sensor files\<close>

text \<open>The first number in the file name, 0 when there is none.\<close>

definition idx :: "string \<Rightarrow> int" where
  "idx path = (let d = takeWhile is_digit (dropWhile (\<lambda>c. \<not> is_digit c) (last (split_char CHR ''/'' path)))
               in if d = [] then 0 else digits_val d)"

record sensor_caches =
  temp_sensors_cache :: "(string \<times> (string \<times> string) list) list"
  fan_sensors_cache :: "(string \<times> (string \<times> string option \<times> string \<times> string \<times> string) list) list"
  fan_limits_cache :: "(string \<times> rat \<times> (int option \<times> int option \<times> int option) list) list"

definition clear_caches :: "sensor_caches \<Rightarrow> sensor_caches" where
  "clear_caches c = \<lparr>temp_sensors_cache = [], fan_sensors_cache = [], fan_limits_cache = []\<rparr>"

definition temp_sensors :: "globber \<Rightarrow> files \<Rightarrow> string \<Rightarrow> sensor_caches \<Rightarrow> (string \<times> string) list \<times> sensor_caches" where
  "temp_sensors glob fs base c =
    (case dget (temp_sensors_cache c) base of
       Some found \<Rightarrow> (found, c)
     | None \<Rightarrow>
         let found = map (\<lambda>p. let n = str_int (idx p) in
               (p, case read_text fs (path_join base (''temp'' @ n @ ''_label'')) (Some (''temp'' @ n)) of
                     Some l \<Rightarrow> or_str l (''temp'' @ n) | None \<Rightarrow> ''temp'' @ n))
               (sort_key idx (glob (path_join base ''temp*_input'')))
         in (found, if found = [] then c else c\<lparr>temp_sensors_cache := dset base found (temp_sensors_cache c)\<rparr>))"

definition fan_sensors :: "globber \<Rightarrow> files \<Rightarrow> string \<Rightarrow> sensor_caches
    \<Rightarrow> (string \<times> string option \<times> string \<times> string \<times> string) list \<times> sensor_caches" where
  "fan_sensors glob fs base c =
    (case dget (fan_sensors_cache c) base of
       Some found \<Rightarrow> (found, c)
     | None \<Rightarrow>
         let found = map (\<lambda>p. let n = str_int (idx p); f = (\<lambda>s. path_join base (''fan'' @ n @ ''_'' @ s)) in
               (p, read_text fs (f ''label'') (Some (''fan'' @ n)), f ''min'', f ''max'', f ''manual''))
               (sort_key idx (glob (path_join base ''fan*_input'')))
         in (found, if found = [] then c else c\<lparr>fan_sensors_cache := dset base found (fan_sensors_cache c)\<rparr>))"

definition temp_of :: "int \<Rightarrow> rat" where
  "temp_of v = fdiv (fl (of_int v)) 1000"

definition read_temps :: "globber \<Rightarrow> files \<Rightarrow> string option \<Rightarrow> sensor_caches \<Rightarrow> rat dict \<times> sensor_caches" where
  "read_temps glob fs base c =
    (case base of
       None \<Rightarrow> ([], c)
     | Some b \<Rightarrow> if b = [] then ([], c) else
         (case temp_sensors glob fs b c of (sensors, c) \<Rightarrow>
           (fold (\<lambda>(p, label) out.
              case read_int fs p None of
                None \<Rightarrow> out
              | Some v \<Rightarrow> if - 100 < temp_of v \<and> temp_of v < 150 then dset label (py_round 1 (temp_of v)) out else out)
              sensors [], c)))"

record fan_reading =
  fr_label :: "string option"
  fr_rpm :: "int option"
  fr_min :: "int option"
  fr_max :: "int option"
  fr_manual :: "int option"

definition fan_limits :: "files \<Rightarrow> string \<Rightarrow> rat \<Rightarrow> rat \<Rightarrow> (string \<times> string option \<times> string \<times> string \<times> string) list \<Rightarrow> sensor_caches
    \<Rightarrow> (int option \<times> int option \<times> int option) list \<times> sensor_caches" where
  "fan_limits fs base now every_s sensors c =
    (let fresh = map (\<lambda>(_, _, mn, mx, man). (read_int fs mn None, read_int fs mx None, read_int fs man None)) sensors;
         again = (fresh, c\<lparr>fan_limits_cache := dset base (now, fresh) (fan_limits_cache c)\<rparr>)
     in case dget (fan_limits_cache c) base of
          None \<Rightarrow> again
        | Some (t, limits) \<Rightarrow>
            if length limits \<noteq> length sensors \<or> due (Some t) now every_s then again else (limits, c))"

definition read_fans :: "globber \<Rightarrow> files \<Rightarrow> string option \<Rightarrow> rat \<Rightarrow> rat \<Rightarrow> sensor_caches \<Rightarrow> fan_reading list \<times> sensor_caches" where
  "read_fans glob fs base now every_s c =
    (case base of
       None \<Rightarrow> ([], c)
     | Some b \<Rightarrow> if b = [] then ([], c) else
         (case fan_sensors glob fs b c of (sensors, c) \<Rightarrow>
          case fan_limits fs b now every_s sensors c of (limits, c) \<Rightarrow>
            (map (\<lambda>((p, label, _), mn, mx, man).
                \<lparr>fr_label = label, fr_rpm = read_int fs p None, fr_min = mn, fr_max = mx, fr_manual = man\<rparr>) (zip sensors limits), c)))"

section \<open>Properties of the decoding\<close>

lemma uint_byte: "0 \<le> uint (b :: 8 word)" "uint (b :: 8 word) \<le> 255"
  using uint_bounded [of b] by simp_all

lemma be_uint_bounds: "0 \<le> be_uint bs \<and> be_uint bs < 256 ^ length bs"
proof (induction bs)
  case (Cons b bs)
  have "uint b * 256 ^ length bs \<le> 255 * 256 ^ length bs" using uint_byte(2) by (intro mult_right_mono) auto
  moreover have "(256 :: int) ^ length (b # bs) = 256 * 256 ^ length bs" by simp
  ultimately have "uint b * 256 ^ length bs + be_uint bs < 256 ^ length (b # bs)" using Cons by linarith
  moreover have "0 \<le> uint b * 256 ^ length bs" using uint_byte(1) [of b] by simp
  ultimately show ?case using Cons by simp
qed simp

lemma be_sint_bounds: "bs \<noteq> [] \<Longrightarrow> - (128 * 256 ^ (length bs - 1)) \<le> be_sint bs \<and> be_sint bs < 128 * 256 ^ (length bs - 1)"
  using be_uint_bounds [of bs] by (cases bs) (auto simp: be_sint_def Let_def)

text \<open>A temperature key decodes exactly, between -128 and 128 degrees.\<close>

lemma decode_sp78: "decode ''sp78'' [hi, lo] = PFloat (Fin (of_int (be_sint [hi, lo]) / 256))"
proof -
  have b: "\<bar>be_sint [hi, lo]\<bar> < 2 ^ 53" using be_sint_bounds [of "[hi, lo]"] by auto
  have "is_double (of_int (be_sint [hi, lo]) / 2 ^ 8)"
    using is_double_half_power [OF is_double_int [OF b] refl b, of 8] by simp
  then have "fl (of_int (be_sint [hi, lo]) / 256) = of_int (be_sint [hi, lo]) / 256" by (intro fl_exact) simp
  moreover have "strip ''sp78'' = ''sp78''" by code_simp
  ultimately show ?thesis by (simp add: decode_def)
qed

section \<open>Properties of the key reader\<close>

lemma raw_locked_key:
  "raw_locked io t key s = (Inr (Some (typ, data)), s') \<Longrightarrow>
     sio_name io s' = key \<and> (\<exists>idx len bs. dget t key = Some (idx, typ, len) \<and> sio_data io s' = Inr bs \<and>
       data = (if len \<noteq> 0 then prefix_to len bs else bs))"
  by (auto simp: raw_locked_def split: option.splits prod.splits if_splits sum.splits)

lemma raw_locked_absent: "\<not> dhas t key \<Longrightarrow> raw_locked io t key s = (Inr None, s)"
  by (auto simp: raw_locked_def dhas_def split: option.split)

lemma raw_from_locked:
  assumes "raw io dumps saved now clock key (m, s, cfs) = (Some got, m', s', cfs')"
  shows "\<exists>s0. raw_locked io (smc_table m') key s0 = (Inr (Some got), s')"
proof -
  obtain r s1 where 1: "raw_locked io (smc_table m) key s = (r, s1)" by (cases "raw_locked io (smc_table m) key s")
  obtain e m2 s2 c2 where 2: "scan io dumps saved clock (sio_key_count io s1) (m, s1, cfs) = (e, m2, s2, c2)" by (metis surj_pair)
  obtain r3 s3 where 3: "raw_locked io (smc_table m2) key s2 = (r3, s3)" by (cases "raw_locked io (smc_table m2) key s2")
  show ?thesis
  proof (cases r)
    case (Inr o1)
    with assms 1 2 3 show ?thesis
      by (cases o1; cases e; cases r3) (auto simp: raw_def split: if_splits)
  qed (use assms 1 in \<open>simp add: raw_def\<close>)
qed


text \<open>Within a minute of a scan, reading never scans again.\<close>

lemma raw_no_rescan:
  assumes "smc_last_scan m = Some t" "fsub now t < RESCAN_MIN_INTERVAL_S"
  shows "fst (snd (raw io dumps saved now clock key (m, s, cfs))) = m"
proof -
  obtain r s1 where 1: "raw_locked io (smc_table m) key s = (r, s1)" by (cases "raw_locked io (smc_table m) key s")
  with assms show ?thesis 
  proof (cases r)
    case (Inr o1)
    with assms 1 show ?thesis by (cases o1) (simp_all add: raw_def)
  qed (simp add: raw_def)
qed

section \<open>The key cache\<close>

lemma cache_table_doc:
  "distinct (map fst (acc @ t)) \<Longrightarrow>
   cache_table strv (map (\<lambda>(k, i, ty, len). (k, PList [PInt i, PStr ty, PInt len])) t) acc = Inr (acc @ t)"
proof (induction t arbitrary: acc)
  case (Cons e t)
  obtain k i ty len where e: "e = (k, i, ty, len)" by (metis surj_pair)
  have "k \<notin> fst ` set acc" using Cons.prems by (auto simp: e)
  then have u: "dset k (i, ty, len) acc = acc @ [(k, i, ty, len)]" by (intro dset_new) (simp add: map_of_eq_None_iff)
  have "cache_entry strv (PList [PInt i, PStr ty, PInt len]) = Inr (i, ty, len)"
    by (simp add: cache_entry_def py_index_def py_int_def str_val_def)
  with Cons.IH [of "acc @ [(k, i, ty, len)]"] Cons.prems show ?case by (simp add: e u)
qed simp

lemma load_cache_doc:
  assumes "smc_cache_path m = Some p" "p \<noteq> []" "cfs p = Some (dumps (cache_doc count t))"
    "loads (dumps (cache_doc count t)) = Some (cache_doc count t)" "dwf t" "t \<noteq> []"
  shows "load_cache loads strv cfs count m = Inr (m\<lparr>smc_table := t\<rparr>, True)"
  using assms cache_table_doc [of "[]" t strv]
  by (simp add: load_cache_def cached_table_def cache_doc_def py_get_def dwf_def)

lemma scan_loop_dwf: "scan_loop io i n s t = (Inr t', s') \<Longrightarrow> dwf t \<Longrightarrow> dwf t'"
  by (induction io i n s t rule: scan_loop.induct) (auto simp: Let_def split: prod.splits option.splits if_splits)

text \<open>
  What a scan saves is what the next start loads: when a scan succeeded, found a key and could
  write the cache, opening the cache with the same number of keys gives back the scanned table.
\<close>

theorem scan_cache_roundtrip:
  assumes "scan io dumps True clock count (m, s, cfs) = (None, m', s', cfs')"
    "smc_cache_path m = Some p" "p \<noteq> []" "smc_table m' \<noteq> []"
    "loads (dumps (cache_doc count (smc_table m'))) = Some (cache_doc count (smc_table m'))"
  shows "load_cache loads strv cfs' count (smc_init (Some p)) = Inr ((smc_init (Some p))\<lparr>smc_table := smc_table m'\<rparr>, True)"
proof -
  obtain t s2 where 1: "scan_loop io 0 (nat count) s [] = (Inr t, s2)"
    using assms(1) by (auto simp: scan_def Let_def split: prod.splits sum.splits)
  then have "smc_table m' = t" "cfs' = (if t \<noteq> [] then cfs(p @ ''.tmp'' := None, p \<mapsto> dumps (cache_doc count t)) else cfs)"
    using assms(1-3) by (auto simp: scan_def Let_def)
  with assms scan_loop_dwf [OF 1] show ?thesis
    by (intro load_cache_doc) (auto simp: smc_init_def)
qed


section \<open>A working device\<close>

text \<open>
  What the reader relies on: the device has the keys \<open>ks\<close> (name, type, bytes), selecting an index in
  range succeeds and then the attributes show that key.
\<close>

locale smc_dev =
  fixes io :: "'s smc_io"
    and ks :: "(string \<times> string \<times> bytes) list"
    and good :: "'s \<Rightarrow> bool"
  assumes names: "distinct (map fst ks)" "[] \<notin> fst ` set ks"
    and count: "good s \<Longrightarrow> sio_key_count io s = int (length ks)"
    and select: "good s \<Longrightarrow> i < length ks \<Longrightarrow> sio_select io s (str_int (int i)) = (e, s') \<Longrightarrow>
      e = None \<and> good s' \<and> sio_name io s' = fst (ks ! i) \<and> sio_type io s' = fst (snd (ks ! i)) \<and>
      sio_length io s' = int (length (snd (snd (ks ! i)))) \<and> sio_data io s' = Inr (snd (snd (ks ! i)))"
begin

definition entry :: "nat \<Rightarrow> string \<times> int \<times> string \<times> int" where
  "entry j = (fst (ks ! j), int j, fst (snd (ks ! j)), int (length (snd (snd (ks ! j)))))"

lemma entry_fst: "fst (entry j) = fst (ks ! j)"
  and entry_snd: "snd (entry j) = (int j, fst (snd (ks ! j)), int (length (snd (snd (ks ! j)))))"
  by (simp_all add: entry_def)

lemma scan_loop_good:
  assumes "good s" "i + n = length ks" "scan_loop io i n s (map entry [0..<i]) = (r, s')"
  shows "good s' \<and> r = Inr (map entry [0..<length ks])"
  using assms
proof (induction n arbitrary: i s)
  case (Suc n)
  obtain e s1 where sel: "sio_select io s (str_int (int i)) = (e, s1)" by (cases "sio_select io s (str_int (int i))")
  have i: "i < length ks" using Suc.prems by simp
  note S = select [OF Suc.prems(1) i sel]
  have ne: "fst (ks ! i) \<noteq> []" using names(2) i by (metis nth_mem image_eqI)
  have "fst (ks ! i) \<notin> fst ` set (map entry [0..<i])"
    using names(1) i by (auto simp: entry_def distinct_conv_nth)
  then have "dget (map entry [0..<i]) (fst (ks ! i)) = None" by (simp only: map_of_eq_None_iff not_False_eq_True)
  from dset_new [OF this] have u: "dset (fst (ks ! i)) (snd (entry i)) (map entry [0..<i]) = map entry [0..<Suc i]"
    by (simp add: entry_def)
  have "scan_loop io (Suc i) n s1 (map entry [0..<Suc i]) = (r, s')"
    unfolding u [symmetric] entry_snd using Suc.prems(3) sel S ne by (simp add: Let_def)
  from Suc.IH [OF _ _ this] S Suc.prems(2) show ?case by simp
qed simp

lemma entry_get:
  assumes "j < length ks"
  shows "dget (map entry [0..<length ks]) (fst (ks ! j)) = Some (int j, fst (snd (ks ! j)), int (length (snd (snd (ks ! j)))))"
proof -
  have "map fst (map entry [0..<length ks]) = map fst ks"
    by (rule nth_equalityI) (auto simp: entry_def)
  with names(1) have d: "distinct (map fst (map entry [0..<length ks]))" by (simp only:)
  have "entry j \<in> set (map entry [0..<length ks])" using assms by auto
  then have "(fst (ks ! j), snd (entry j)) \<in> set (map entry [0..<length ks])" by (simp add: entry_fst [symmetric])
  from map_of_is_SomeI [OF d this] show ?thesis by (simp only: entry_snd)
qed

lemma read_good:
  assumes "good s" "j < length ks"
  shows "\<exists>s'. raw_locked io (map entry [0..<length ks]) (fst (ks ! j)) s = (Inr (Some (snd (ks ! j))), s') \<and> good s'"
proof -
  obtain e s1 where sel: "sio_select io s (str_int (int j)) = (e, s1)" by (cases "sio_select io s (str_int (int j))")
  note S = select [OF assms sel]
  have "raw_locked io (map entry [0..<length ks]) (fst (ks ! j)) s = (Inr (Some (snd (ks ! j))), s1)"
    unfolding raw_locked_def entry_get [OF assms(2)] using S sel
    by (cases "ks ! j"; cases "snd (ks ! j)") (simp add: prefix_to_def)
  with S show ?thesis by blast
qed

lemma open_reads:
  assumes "good s" "ks \<noteq> []" "smc_cache_path m = None"
    "smc_open io loads dumps strv saved clock (m, s, cfs) = (r, m', s', cfs')" "j < length ks"
  shows "r = Inr True \<and> smc_ok m' \<and> good s' \<and> (\<exists>w. raw io dumps saved now clock2 (fst (ks ! j)) (m', s', cfs') = (Some (snd (ks ! j)), w))"
proof -
  obtain r1 s1 where l: "scan_loop io 0 (length ks) s [] = (r1, s1)" by (cases "scan_loop io 0 (length ks) s []")
  have g: "good s1" "r1 = Inr (map entry [0..<length ks])" using scan_loop_good [OF assms(1), of 0 "length ks"] l by simp_all
  have ne: "map entry [0..<length ks] \<noteq> []" using assms(2) by simp
  from assms(4) have m': "r = Inr True" "smc_ok m'" "s' = s1" "smc_table m' = map entry [0..<length ks]"
    using l g ne assms(3) count [OF assms(1)] by (auto simp: smc_open_def load_cache_def scan_def Let_def)
  obtain s2 where "raw_locked io (map entry [0..<length ks]) (fst (ks ! j)) s1 = (Inr (Some (snd (ks ! j))), s2)"
    using read_good [OF g(1) assms(5)] by blast
  then show ?thesis using m' g(1) by (simp add: raw_def)
qed

end

section \<open>The applesmc attributes\<close>

text \<open>
  The kernel's side of the interface: writing an index in range to \<open>key_at_index\<close> makes the other
  attributes show that key; nothing else can be written.
\<close>

definition smc_show :: "string \<Rightarrow> string \<times> string \<times> string \<Rightarrow> files \<Rightarrow> files" where
  "smc_show base k fs = (case k of (name, typ, data) \<Rightarrow>
     fs(path_join base ''key_at_index_name'' \<mapsto> name, path_join base ''key_at_index_type'' \<mapsto> typ,
        path_join base ''key_at_index_data_length'' \<mapsto> str_int (int (length data)), path_join base ''key_at_index_data'' \<mapsto> data))"

definition applesmc_driver :: "string \<Rightarrow> (string \<times> string \<times> string) list \<Rightarrow> driver" where
  "applesmc_driver base ks fs path v =
    (if path = path_join base ''key_at_index'' then
       (case parse_int v of
          Some i \<Rightarrow> if 0 \<le> i \<and> i < int (length ks) then Inr (smc_show base (ks ! nat i) (fs(path \<mapsto> v))) else Inl ''Invalid argument''
        | None \<Rightarrow> Inl ''Invalid argument'')
     else Inl ''Permission denied'')"

definition smc_keys_ok :: "(string \<times> string \<times> string) list \<Rightarrow> bool" where
  "smc_keys_ok ks = (distinct (map fst ks) \<and> list_all (\<lambda>(n, t, _). n \<noteq> [] \<and> strip n = n \<and> strip t = t) ks)"

lemma path_join_attr: "path_join base (''key_'' @ a) = path_join base (''key_'' @ b) \<longleftrightarrow> a = b"
  by (simp add: path_join_rel starts_with_def)

lemma sysfs_smc_dev:
  assumes "smc_keys_ok ks"
  shows "smc_dev (sysfs_smc_io (applesmc_driver base ks) ioerr base) (map (\<lambda>(n, t, d). (n, t, bytes_of d)) ks)
    (\<lambda>fs. fs (path_join base ''key_count'') = Some (str_int (int (length ks))))"
proof
  show "distinct (map fst (map (\<lambda>(n, t, d). (n, t, bytes_of d)) ks))" "[] \<notin> fst ` set (map (\<lambda>(n, t, d). (n, t, bytes_of d)) ks)"
    using assms by (auto simp: smc_keys_ok_def list_all_iff comp_def case_prod_beta)
next
  fix fs :: files
  assume "fs (path_join base ''key_count'') = Some (str_int (int (length ks)))"
  then show "sio_key_count (sysfs_smc_io (applesmc_driver base ks) ioerr base) fs = int (length (map (\<lambda>(n, t, d). (n, t, bytes_of d)) ks))"
    by (simp add: sysfs_smc_io_def or_zero_def read_int_str)
next
  fix fs i e fs'
  assume c: "fs (path_join base ''key_count'') = Some (str_int (int (length ks)))"
    and i: "i < length (map (\<lambda>(n, t, d). (n, t, bytes_of d)) ks)"
    and sel: "sio_select (sysfs_smc_io (applesmc_driver base ks) ioerr base) fs (str_int (int i)) = (e, fs')"
  obtain n t d where k: "ks ! i = (n, t, d)" by (metis surj_pair)
  have st: "strip n = n" "strip t = t" using assms i k by (auto simp: smc_keys_ok_def list_all_length)
  have p: "path_join base ''key_count'' = dir_part base @ ''key_count''" "path_join base ''key_at_index'' = dir_part base @ ''key_at_index''"
    "path_join base ''key_at_index_name'' = dir_part base @ ''key_at_index_name''"
    "path_join base ''key_at_index_type'' = dir_part base @ ''key_at_index_type''"
    "path_join base ''key_at_index_data_length'' = dir_part base @ ''key_at_index_data_length''"
    "path_join base ''key_at_index_data'' = dir_part base @ ''key_at_index_data''"
    by (simp_all add: path_join_rel starts_with_def)
  have e: "e = None" "fs' = smc_show base (n, t, d) (fs(path_join base ''key_at_index'' \<mapsto> str_int (int i)))"
    using sel i by (simp_all add: sysfs_smc_io_def write_text_def applesmc_driver_def parse_int_str_int k)
  have s: "fs' (path_join base ''key_at_index_name'') = Some n" "fs' (path_join base ''key_at_index_type'') = Some t"
    "fs' (path_join base ''key_at_index_data'') = Some d"
    "fs' (path_join base ''key_at_index_data_length'') = Some (str_int (int (length d)))"
    "fs' (path_join base ''key_count'') = fs (path_join base ''key_count'')"
    unfolding e(2) smc_show_def p by simp_all
  show "e = None \<and> fs' (path_join base ''key_count'') = Some (str_int (int (length ks))) \<and>
    sio_name (sysfs_smc_io (applesmc_driver base ks) ioerr base) fs' = fst (map (\<lambda>(n, t, d). (n, t, bytes_of d)) ks ! i) \<and>
    sio_type (sysfs_smc_io (applesmc_driver base ks) ioerr base) fs' = fst (snd (map (\<lambda>(n, t, d). (n, t, bytes_of d)) ks ! i)) \<and>
    sio_length (sysfs_smc_io (applesmc_driver base ks) ioerr base) fs' = int (length (snd (snd (map (\<lambda>(n, t, d). (n, t, bytes_of d)) ks ! i)))) \<and>
    sio_data (sysfs_smc_io (applesmc_driver base ks) ioerr base) fs' = Inr (snd (snd (map (\<lambda>(n, t, d). (n, t, bytes_of d)) ks ! i)))"
    using i k s c e st by (simp add: sysfs_smc_io_def read_text_def or_empty_def or_zero_def read_int_str bytes_of_def)
qed

text \<open>The supply's power (a single) and a temperature, as this machine has them.\<close>

definition demo_smc_keys :: "(string \<times> string \<times> string) list" where
  "demo_smc_keys = [(''PDTR'', ''flt'', [CHR 0x00, CHR 0x00, CHR 0x40, CHR 0x42]), (''TC0P'', ''sp78'', [CHR 0x34, CHR 0x80])]"

lemma demo_smc_keys_ok: "smc_keys_ok demo_smc_keys"
  by code_simp

interpretation applesmc: smc_dev "sysfs_smc_io (applesmc_driver base demo_smc_keys) ioerr base"
  "map (\<lambda>(n, t, d). (n, t, bytes_of d)) demo_smc_keys"
  "\<lambda>fs. fs (path_join base ''key_count'') = Some (str_int (int (length demo_smc_keys)))" for base ioerr
  by (rule sysfs_smc_dev [OF demo_smc_keys_ok])

text \<open>
  On applesmc attributes that behave as the kernel documents them, opening without a cache
  succeeds, and then every key of the machine reads its own type and its own bytes.
\<close>

theorem smc_open_reads:
  assumes "smc_keys_ok ks" "j < length ks" "fs (path_join base ''key_count'') = Some (str_int (int (length ks)))"
    "smc_open (sysfs_smc_io (applesmc_driver base ks) ioerr base) loads dumps strv saved clock (smc_init None, fs, cfs) = (r, m', fs', cfs')"
  shows "r = Inr True \<and> (\<exists>w. raw (sysfs_smc_io (applesmc_driver base ks) ioerr base) dumps saved now clock2 (fst (ks ! j)) (m', fs', cfs')
    = (Some (fst (snd (ks ! j)), bytes_of (snd (snd (ks ! j)))), w))"
proof -
  let ?ks = "map (\<lambda>(n, t, d). (n, t, bytes_of d)) ks"
  have j: "j < length ?ks" "?ks \<noteq> []" using assms(2) by auto
  have "?ks ! j = (fst (ks ! j), fst (snd (ks ! j)), bytes_of (snd (snd (ks ! j))))" using assms(2) by (simp add: case_prod_beta)
  with smc_dev.open_reads [OF sysfs_smc_dev [OF assms(1)] assms(3) j(2) _ assms(4) j(1), of now clock2]
  show ?thesis by (simp add: smc_init_def)
qed

theorem smc_open_reads_witness:
  "\<exists>w. raw (sysfs_smc_io (applesmc_driver ''/s'' demo_smc_keys) [] ''/s'') (\<lambda>_. []) True 5 5 ''TC0P''
     (snd (smc_open (sysfs_smc_io (applesmc_driver ''/s'' demo_smc_keys) [] ''/s'') (\<lambda>_. None) (\<lambda>_. []) (\<lambda>_. []) True 0
       (smc_init None, [path_join ''/s'' ''key_count'' \<mapsto> str_int 2], Map.empty))) = (Some (''sp78'', [0x34, 0x80]), w)"
proof -
  let ?w = "smc_open (sysfs_smc_io (applesmc_driver ''/s'' demo_smc_keys) [] ''/s'') (\<lambda>_. None) (\<lambda>_. []) (\<lambda>_. []) True 0
       (smc_init None, [path_join ''/s'' ''key_count'' \<mapsto> str_int 2], Map.empty)"
  obtain r m' fs' cfs' where o: "?w = (r, m', fs', cfs')" by (metis surj_pair)
  have k: "1 < length demo_smc_keys" "int (length demo_smc_keys) = 2" "demo_smc_keys ! 1 = (''TC0P'', ''sp78'', [CHR 0x34, CHR 0x80])"
    by (simp_all add: demo_smc_keys_def)
  have c: "[path_join ''/s'' ''key_count'' \<mapsto> str_int 2] (path_join ''/s'' ''key_count'') = Some (str_int (int (length demo_smc_keys)))"
    by (simp add: k(2))
  have b: "bytes_of [CHR 0x34, CHR 0x80] = [0x34, 0x80]" by (simp add: bytes_of_def)
  from smc_open_reads [OF demo_smc_keys_ok k(1) c o, of 5 5] show ?thesis unfolding o snd_conv k(3) fst_conv b by (rule conjunct2)
qed

text \<open>The same machine with its table at hand.\<close>

definition demo_smc :: smc where
  "demo_smc = (smc_init None)\<lparr>smc_table := [(''TC0P'', 1, ''sp78'', 2)], smc_ok := True\<rparr>"


definition demo_smc_table :: smc_table where
  "demo_smc_table = [(''PDTR'', 0, ''flt'', 4), (''TC0P'', 1, ''sp78'', 2)]"

theorem scan_cache_roundtrip_witness:
  "load_cache (\<lambda>_. Some (cache_doc 2 demo_smc_table)) (\<lambda>_. [])
     (snd (snd (snd (scan (sysfs_smc_io (applesmc_driver ''/s'' demo_smc_keys) [] ''/s'') (\<lambda>_. ''{}'') True 0 2 (smc_init (Some ''/c''), Map.empty, Map.empty)))))
     2 (smc_init (Some ''/c'')) = Inr ((smc_init (Some ''/c''))\<lparr>smc_table := demo_smc_table\<rparr>, True)"
proof -
  let ?w = "scan (sysfs_smc_io (applesmc_driver ''/s'' demo_smc_keys) [] ''/s'') (\<lambda>_. ''{}'') True 0 2 (smc_init (Some ''/c''), Map.empty, Map.empty)"
  have f: "fst ?w = None" "smc_table (fst (snd ?w)) = demo_smc_table" by code_simp+
  obtain m' s' cfs' where w: "?w = (None, m', s', cfs')" using f(1) by (metis prod.collapse)
  have t: "smc_table m' = demo_smc_table" using f(2) unfolding w by simp
  have c: "smc_cache_path (smc_init (Some ''/c'')) = Some ''/c''" "''/c'' \<noteq> []" "smc_table m' \<noteq> []"
    by (simp_all add: smc_init_def t demo_smc_table_def)
  from scan_cache_roundtrip [OF w c, of "\<lambda>_. Some (cache_doc 2 demo_smc_table)" "\<lambda>_. []"] show ?thesis
    unfolding w by (simp add: t)
qed

text \<open>
  A cache file that holds JSON other than an object is not handled: the \<open>AttributeError\<close> of its
  missing \<open>get\<close> is none of the exceptions caught, and opening raises.
\<close>

lemma smc_open_cache_raises:
  assumes "smc_cache_path m = Some p" "p \<noteq> []" "cfs p = Some txt" "loads txt = Some v" "\<not> is_dict v"
  shows "fst (smc_open io loads dumps strv saved clock (m, s, cfs)) = Inl (AttributeError ''get'')"
  using assms by (cases v) (simp_all add: smc_open_def load_cache_def cached_table_def is_dict_def Let_def)

end
