(* ===== verification/Py_Text.thy ===== *)
theory Py_Text
  imports Py_Value "HOL-Library.Sublist"
begin

text \<open>
  What the sources use of Python's text, date and sequence library: splitting into lines and
  words, UTC timestamps, slices from the end, and sequences that keep their newest elements.
\<close>

section \<open>Lines and words\<close>

text \<open>\<open>str.splitlines\<close>: lines end at a line feed, carriage return (or both), and the other ASCII separators.\<close>

definition is_line_end :: "char \<Rightarrow> bool" where
  "is_line_end c = (let n = (of_char c :: nat) in (10 \<le> n \<and> n \<le> 13) \<or> (28 \<le> n \<and> n \<le> 30))"

fun lines_from :: "bool \<Rightarrow> string \<Rightarrow> string \<Rightarrow> string list" where
  "lines_from cr cur [] = (if cur = [] then [] else [rev cur])"
| "lines_from cr cur (c # s) =
    (if cr \<and> c = CHR 0x0A then lines_from False [] s
     else if is_line_end c then rev cur # lines_from (c = CHR 0x0D) [] s
     else lines_from False (c # cur) s)"

definition splitlines :: "string \<Rightarrow> string list" where
  "splitlines s = lines_from False [] s"

text \<open>\<open>str.split()\<close>: the runs of characters that are not white space.\<close>

fun words_from :: "string \<Rightarrow> string \<Rightarrow> string list" where
  "words_from cur [] = (if cur = [] then [] else [rev cur])"
| "words_from cur (c # s) =
    (if is_space c then (if cur = [] then words_from [] s else rev cur # words_from [] s) else words_from (c # cur) s)"

definition words :: "string \<Rightarrow> string list" where
  "words s = words_from [] s"

lemma words_nonempty: "w \<in> set (words s) \<Longrightarrow> w \<noteq> []"
proof -
  have "w \<in> set (words_from cur s) \<Longrightarrow> w \<noteq> []" for cur
    by (induction cur s rule: words_from.induct) (auto split: if_splits)
  then show "w \<in> set (words s) \<Longrightarrow> w \<noteq> []" by (simp add: words_def)
qed

text \<open>Text without separators is one line.\<close>

lemma lines_from_plain: "\<forall>c \<in> set s. \<not> is_line_end c \<Longrightarrow> lines_from b cur s = (if rev cur @ s = [] then [] else [rev cur @ s])"
proof (induction s arbitrary: b cur)
  case (Cons c s)
  have "\<not> (b \<and> c = CHR 0x0A)" using Cons.prems by (auto simp: is_line_end_def)
  with Cons show ?case by simp
qed simp

section \<open>UTC dates\<close>

text \<open>Year, month and day of a day counted from 1970-01-01 (proleptic Gregorian calendar).\<close>

definition civil :: "int \<Rightarrow> int \<times> int \<times> int" where
  "civil d =
    (let z = d + 719468; era = z div 146097; doe = z mod 146097;
         yoe = (doe - doe div 1460 + doe div 36524 - doe div 146096) div 365;
         doy = doe - (365 * yoe + yoe div 4 - yoe div 100);
         mp = (5 * doy + 2) div 153; dd = doy - (153 * mp + 2) div 5 + 1;
         mm = (if mp < 10 then mp + 3 else mp - 9)
     in (yoe + era * 400 + (if mm \<le> 2 then 1 else 0), mm, dd))"

definition pad2 :: "int \<Rightarrow> string" where
  "pad2 n = (if n < 10 then ''0'' @ str_int n else str_int n)"

text \<open>\<open>time.gmtime\<close> as (year, month, day, hour, minute, second).\<close>

definition gmtime :: "rat \<Rightarrow> int \<times> int \<times> int \<times> int \<times> int \<times> int" where
  "gmtime t = (let s = \<lfloor>t\<rfloor>; (y, m, d) = civil (s div 86400); r = s mod 86400 in (y, m, d, r div 3600, (r mod 3600) div 60, r mod 60))"

definition fmt_compact :: "rat \<Rightarrow> string" where
  "fmt_compact t = (case gmtime t of (y, mo, d, h, mi, s) \<Rightarrow> str_int y @ pad2 mo @ pad2 d @ ''T'' @ pad2 h @ pad2 mi @ pad2 s @ ''Z'')"

definition fmt_iso :: "rat \<Rightarrow> string" where
  "fmt_iso t = (case gmtime t of (y, mo, d, h, mi, s) \<Rightarrow>
     str_int y @ ''-'' @ pad2 mo @ ''-'' @ pad2 d @ ''T'' @ pad2 h @ '':'' @ pad2 mi @ '':'' @ pad2 s @ ''Z'')"

definition fmt_hour :: "rat \<Rightarrow> string" where
  "fmt_hour t = (case gmtime t of (y, mo, d, h, _, _) \<Rightarrow> str_int y @ pad2 mo @ pad2 d @ pad2 h)"

lemma fmt_iso_examples:
  "fmt_iso 0 = ''1970-01-01T00:00:00Z''" "fmt_iso 951827696 = ''2000-02-29T12:34:56Z''"
  "fmt_iso (3551370239 / 2) = ''2026-04-08T21:51:59Z''"
  by code_simp+

text \<open>Two times within the same UTC hour have the same hour stamp.\<close>

lemma fmt_hour_cong: "\<lfloor>t\<rfloor> div 3600 = \<lfloor>u\<rfloor> div 3600 \<Longrightarrow> fmt_hour t = fmt_hour u"
proof -
  have d: "x div 86400 = (x div 3600) div 24" "(x mod 86400) div 3600 = (x div 3600) mod 24" for x :: int
    using zdiv_zmult2_eq [of 24 x 3600] zmod_zmult2_eq [of 24 x 3600] by simp_all
  assume "\<lfloor>t\<rfloor> div 3600 = \<lfloor>u\<rfloor> div 3600"
  then have "\<lfloor>t\<rfloor> div 86400 = \<lfloor>u\<rfloor> div 86400" "(\<lfloor>t\<rfloor> mod 86400) div 3600 = (\<lfloor>u\<rfloor> mod 86400) div 3600"
    unfolding d by simp_all
  moreover have "fmt_hour v = (case civil (\<lfloor>v\<rfloor> div 86400) of (y, mo, d) \<Rightarrow> str_int y @ pad2 mo @ pad2 d @ pad2 ((\<lfloor>v\<rfloor> mod 86400) div 3600))" for v
    unfolding fmt_hour_def gmtime_def Let_def by (simp split: prod.split)
  ultimately show ?thesis by (simp only:)
qed

section \<open>Sequences that keep their newest elements\<close>

definition last_n :: "nat \<Rightarrow> 'a list \<Rightarrow> 'a list" where
  "last_n n xs = drop (length xs - n) xs"

lemma last_n_length [simp]: "length (last_n n xs) = min n (length xs)"
  by (simp add: last_n_def)

lemma last_n_short [simp]: "length xs \<le> n \<Longrightarrow> last_n n xs = xs"
  by (simp add: last_n_def)

lemma last_n_suffix: "suffix (last_n n xs) xs"
  by (simp add: last_n_def suffix_drop)

lemma last_n_snoc: "last_n n (last_n n xs @ [x]) = last_n n (xs @ [x])"
proof (cases "length xs \<le> n")
  case False
  then have "last_n n xs @ [x] = drop (length xs - n) (xs @ [x])" by (simp add: last_n_def)
  moreover have "drop (length (drop (length xs - n) (xs @ [x])) - n) (drop (length xs - n) (xs @ [x])) = drop (length (xs @ [x]) - n) (xs @ [x])"
    using False by (simp add: drop_drop Suc_diff_le)
  ultimately show ?thesis by (simp add: last_n_def)
qed simp

text \<open>
  The contract of a bounded log, shared by the event log, the sample history and the queue of the
  sample writer: pushing keeps the newest \<open>bound\<close> elements, so that after any pushes the log shows
  the last \<open>bound\<close> of everything ever pushed.
\<close>

locale bounded_log =
  fixes push :: "'s \<Rightarrow> 'a \<Rightarrow> 's"
    and view :: "'s \<Rightarrow> 'b list"
    and item :: "'a \<Rightarrow> 'b"
    and bound :: nat
  assumes push_view: "view (push s x) = last_n bound (view s @ [item x])"
begin

lemma run_view: "length (view s) \<le> bound \<Longrightarrow> view (run_steps push s xs) = last_n bound (view s @ map item xs)"
proof (induction xs rule: rev_induct)
  case (snoc x xs)
  have "run_steps push s (xs @ [x]) = push (run_steps push s xs) x" by (induction xs arbitrary: s) simp_all
  then show ?case using snoc by (simp add: push_view last_n_snoc)
qed simp

lemma run_bounded: "length (view s) \<le> bound \<Longrightarrow> length (view (run_steps push s xs)) \<le> bound"
  by (simp add: run_view)

lemma run_newest: "length (view s) \<le> bound \<Longrightarrow> 0 < bound \<Longrightarrow> xs \<noteq> [] \<Longrightarrow> last (view (run_steps push s xs)) = item (last xs)"
proof -
  assume a: "length (view s) \<le> bound" "0 < bound" "xs \<noteq> []"
  then have "length (view s @ map item xs) - bound < length (view s @ map item xs)" by (simp flip: length_greater_0_conv)
  then have "last (last_n bound (view s @ map item xs)) = last (view s @ map item xs)" unfolding last_n_def by (rule last_drop)
  then show ?thesis using a by (simp add: run_view last_map)
qed

end

end
