(* ===== verification/Sampler.thy ===== *)
theory Sampler
  imports Governor Rapl Smc Py_Text
begin

text \<open>
  \<open>daemon/sampler.py\<close>: trailing windows, the 4 Hz and 1 Hz samples, the derived quantities, the
  governor's input and the history. The readings of the other components (RAPL powers, SMC keys,
  the 1 Hz telemetry) are arguments of the step that consumes them; \<open>fast\<close> composes the step with the
  modelled RAPL and SMC readers.
\<close>

definition HISTORY_LEN :: nat where "HISTORY_LEN = 600"
definition EXTRA_SMC_KEYS :: "string list" where
  "EXTRA_SMC_KEYS = [''PSTR'', ''PCPC'', ''PCPG'', ''PCPT'', ''PG0R'', ''PHPC'']"
definition FAST_SMC_KEYS :: "string list" where "FAST_SMC_KEYS = [''PDTR'']"
definition FULL_SMC_KEYS :: "string list" where "FULL_SMC_KEYS = [''PDTR'', ''VD0R'', ''ID0R'', ''ACPW'']"
definition HISTORY_FIELDS :: "string list" where
  "HISTORY_FIELDS = [''ts'', ''input_w'', ''pkg_w'', ''gpu_w'', ''pkg_c'', ''pl1_w'', ''state'']"
definition TEMP_FRESH_S :: rat where "TEMP_FRESH_S = 3"

section \<open>Windows\<close>

text \<open>A window is its values with their times, oldest first; \<open>keep_s\<close> is 12 s throughout.\<close>

type_synonym window = "(rat \<times> rat) list"

definition KEEP_S :: rat where "KEEP_S = 12"

text \<open>\<open>float(v)\<close> of a finite number that is not a \<open>bool\<close>.\<close>

definition float_of :: "pyval \<Rightarrow> rat option" where
  "float_of v = map_option fl (num_of v)"

definition win_push :: "rat \<Rightarrow> pyval \<Rightarrow> window \<Rightarrow> window" where
  "win_push t v d = (case float_of v of
     None \<Rightarrow> d
   | Some x \<Rightarrow> dropWhile (\<lambda>e. fst e < fsub t KEEP_S) (d @ [(t, x)]))"

definition win_values :: "window \<Rightarrow> rat \<Rightarrow> rat \<Rightarrow> rat list" where
  "win_values d now sp = map snd (filter (\<lambda>e. fadd (fsub now sp) (fl (1 / 10 ^ 9)) < fst e) d)"

text \<open>\<open>sum\<close> on floats: compensated summation, as the interpreters from 3.12 on do it.\<close>

definition cs_add :: "rat \<Rightarrow> rat \<times> rat \<Rightarrow> rat \<times> rat" where
  "cs_add x a = (case a of (hi, lo) \<Rightarrow>
     let t = fadd hi x in (t, fadd lo (if \<bar>x\<bar> \<le> \<bar>hi\<bar> then fadd (fsub hi t) x else fadd (fsub x t) hi)))"

definition py_sum :: "rat list \<Rightarrow> rat" where
  "py_sum xs = (case xs of [] \<Rightarrow> 0 | x # xs \<Rightarrow> (case fold cs_add xs (x, 0) of (hi, lo) \<Rightarrow> if lo = 0 then hi else fadd hi lo))"

definition win_mean :: "window \<Rightarrow> rat \<Rightarrow> rat \<Rightarrow> rat option" where
  "win_mean d now sp = (let v = win_values d now sp in if v = [] then None else Some (fdiv (py_sum v) (of_nat (length v))))"

text \<open>\<open>statistics.median\<close>.\<close>

definition median :: "rat list \<Rightarrow> rat" where
  "median xs = (let s = sort xs; n = length s in
     if odd n then s ! (n div 2) else fdiv (fadd (s ! (n div 2 - 1)) (s ! (n div 2))) 2)"

definition win_median :: "window \<Rightarrow> rat \<Rightarrow> rat \<Rightarrow> rat option" where
  "win_median d now sp = (let v = win_values d now sp in if v = [] then None else Some (median v))"

definition win_max :: "window \<Rightarrow> rat \<Rightarrow> rat \<Rightarrow> rat option" where
  "win_max d now sp = (case win_values d now sp of [] \<Rightarrow> None | x # xs \<Rightarrow> Some (fold max xs x))"

section \<open>The sampler\<close>

record held =
  h_v :: pyval
  h_a :: pyval
  h_acpw_w :: pyval

record peak =
  pk_value :: pyfloat
  pk_ts :: rat

record sampler =
  sm_slow_every_s :: rat
  sm_held :: held
  sm_smc_slow :: "pyval dict \<times> pyval dict"
  sm_smc_slow_t :: "rat option"
  sm_extra :: "string list"
  sm_w :: "string \<Rightarrow> window"
  sm_latest :: "pyval dict"
  sm_slow_data :: "pyval dict"
  sm_slow_mono :: "rat option"
  sm_history :: "pyval dict list"
  sm_peaks :: "peak dict"
  sm_last_valid_mono :: "rat option"

definition no_held :: held where "no_held = \<lparr>h_v = PNone, h_a = PNone, h_acpw_w = PNone\<rparr>"

definition sampler_init :: "smc option \<Rightarrow> rat \<Rightarrow> sampler" where
  "sampler_init smc every =
    \<lparr>sm_slow_every_s = every, sm_held = no_held, sm_smc_slow = ([], []), sm_smc_slow_t = None,
     sm_extra = filter (\<lambda>k. case smc of Some m \<Rightarrow> smc_has m k | None \<Rightarrow> False) EXTRA_SMC_KEYS,
     sm_w = (\<lambda>_. []), sm_latest = [], sm_slow_data = [], sm_slow_mono = None, sm_history = [], sm_peaks = [], sm_last_valid_mono = None\<rparr>"

definition valid_input :: "pyval \<Rightarrow> bool" where
  "valid_input v = (case v of PFloat (Fin x) \<Rightarrow> 0 \<le> x \<and> x < 250 | _ \<Rightarrow> False)"

definition round_val :: "nat \<Rightarrow> pyval \<Rightarrow> pyval" where
  "round_val nd v = (case v of PFloat (Fin x) \<Rightarrow> PFloat (Fin (py_round nd x)) | _ \<Rightarrow> v)"

text \<open>\<open>_peak\<close>: numbers other than \<open>bool\<close>, the not-a-number included.\<close>

definition peak_of :: "pyval \<Rightarrow> pyfloat option" where
  "peak_of v = (case v of PInt n \<Rightarrow> Some (Fin (of_int n)) | PFloat f \<Rightarrow> Some f | _ \<Rightarrow> None)"

definition round_pf :: "nat \<Rightarrow> pyfloat \<Rightarrow> pyfloat" where
  "round_pf nd f = (case f of Fin x \<Rightarrow> Fin (py_round nd (fl x)) | _ \<Rightarrow> f)"

definition set_peak :: "string \<Rightarrow> pyval \<Rightarrow> rat \<Rightarrow> sampler \<Rightarrow> sampler" where
  "set_peak key v wall s =
    (case peak_of v of
       None \<Rightarrow> s
     | Some x \<Rightarrow>
         if (case dget (sm_peaks s) key of None \<Rightarrow> True | Some p \<Rightarrow> pf_less (pk_value p) x)
         then s\<lparr>sm_peaks := dset key \<lparr>pk_value = round_pf 2 x, pk_ts = py_round 3 wall\<rparr> (sm_peaks s)\<rparr> else s)"

definition reset_peaks :: "sampler \<Rightarrow> sampler" where
  "reset_peaks s = s\<lparr>sm_peaks := []\<rparr>"

text \<open>The adapter's power from the key \<open>ACPW\<close> (an integer in milliwatts), within 30 to 100 W.\<close>

definition acpw_of :: "pyval \<Rightarrow> pyval" where
  "acpw_of v = (case v of PInt n \<Rightarrow> if 30000 \<le> n \<and> n \<le> 100000 then PFloat (Fin (fdiv (of_int n) 1000)) else PNone | _ \<Rightarrow> PNone)"

definition owatts :: "rat option dict \<Rightarrow> string \<Rightarrow> pyval" where
  "owatts p k = (case dget p k of Some (Some x) \<Rightarrow> PFloat (Fin x) | _ \<Rightarrow> PNone)"

text \<open>\<open>fast\<close> on the powers \<open>p\<close> and the SMC values \<open>smc\<close>.\<close>

definition fast_step :: "rat option dict \<Rightarrow> pyval dict \<Rightarrow> rat \<Rightarrow> rat \<Rightarrow> bool \<Rightarrow> sampler \<Rightarrow> sampler" where
  "fast_step p smc now wall full s =
    (let pdtr_w = (if valid_input (py_get smc ''PDTR'') then py_get smc ''PDTR'' else PNone);
         held = (if full then \<lparr>h_v = py_get smc ''VD0R'', h_a = py_get smc ''ID0R'', h_acpw_w = acpw_of (py_get smc ''ACPW'')\<rparr> else sm_held s);
         fresh = (if full then held else no_held);
         w = fold (\<lambda>(k, v) w. w(k := win_push now v (w k)))
               [(''input'', pdtr_w), (''pkg'', owatts p ''package''), (''core'', owatts p ''core''), (''uncore'', owatts p ''uncore''),
                (''dram'', owatts p ''dram''), (''acpw'', h_acpw_w fresh), (''v'', h_v fresh), (''a'', h_a fresh)] (sm_w s);
         valid = (pdtr_w \<noteq> PNone \<and> win_median (w ''acpw'') now 10 \<noteq> None);
         latest = [(''ts'', PFloat (Fin wall)), (''mono'', PFloat (Fin now)), (''valid'', PBool valid), (''pdtr_w'', pdtr_w),
           (''v'', h_v held), (''a'', h_a held), (''acpw_w'', h_acpw_w held), (''package_w'', owatts p ''package''),
           (''core_w'', owatts p ''core''), (''uncore_w'', owatts p ''uncore''), (''dram_w'', owatts p ''dram'')];
         s = s\<lparr>sm_held := held, sm_w := w, sm_last_valid_mono := (if valid then Some now else sm_last_valid_mono s)\<rparr>;
         s = set_peak ''a'' (h_a fresh) wall (set_peak ''pkg_w'' (owatts p ''package'') wall (set_peak ''input_w'' pdtr_w wall s))
     in s\<lparr>sm_latest := latest\<rparr>)"

text \<open>\<open>fast\<close> with its reads: the RAPL counters and the SMC keys of this tick.\<close>

definition fast :: "files \<Rightarrow> 's smc_io \<Rightarrow> (pyval \<Rightarrow> string) \<Rightarrow> bool \<Rightarrow> rat \<Rightarrow> rat \<Rightarrow> bool
    \<Rightarrow> sampler \<times> rapl option \<times> (smc \<times> 's \<times> files) option \<Rightarrow> sampler \<times> rapl option \<times> (smc \<times> 's \<times> files) option" where
  "fast fs io dumps saved now wall full w =
    (let (s, rapl, smc) = w;
         (rapl, p) = (case rapl of None \<Rightarrow> (None, []) | Some r \<Rightarrow> (case rapl_power fs now r of (r, p) \<Rightarrow> (Some r, p)));
         (smc, vals) = (case smc of
             None \<Rightarrow> (None, [])
           | Some m \<Rightarrow> if smc_ok (fst m)
               then (case read_many io dumps saved now now (if full then FULL_SMC_KEYS else FAST_SMC_KEYS) [] m of (vals, m) \<Rightarrow> (Some m, vals))
               else (Some m, []))
     in (fast_step p vals now wall full s, rapl, smc))"

text \<open>A fast sample that raised (daemon/main.py): marked invalid, so that it is never taken for current.\<close>

definition fast_failed :: "rat \<Rightarrow> rat \<Rightarrow> sampler \<Rightarrow> sampler" where
  "fast_failed now wall s = s\<lparr>sm_latest := [(''ts'', PFloat (Fin wall)), (''mono'', PFloat (Fin now)), (''valid'', PBool False)]\<rparr>"

definition therm_val :: "therm_status option \<Rightarrow> pyval" where
  "therm_val t = (case t of None \<Rightarrow> PNone
     | Some t \<Rightarrow> PDict [(''power_limited'', PBool (th_power_limited t)), (''thermal'', PBool (th_thermal_status t)), (''prochot'', PBool (th_prochot t))])"

definition msr_limit_val :: "msr_limit option \<Rightarrow> pyval" where
  "msr_limit_val m = (case m of None \<Rightarrow> PNone
     | Some l \<Rightarrow> PDict [(''pl1_w'', pnum (ml_pl1_w l)), (''pl2_w'', pnum (ml_pl2_w l)), (''pl1_enable'', PBool (ml_pl1_enable l)),
         (''pl1_clamp'', PBool (ml_pl1_clamp l)), (''pl2_enable'', PBool (ml_pl2_enable l)), (''pl2_clamp'', PBool (ml_pl2_clamp l)),
         (''lock'', PBool (ml_lock l))])"

definition limits_val :: "sysfs_limits option \<Rightarrow> pyval" where
  "limits_val m = (case m of None \<Rightarrow> PNone
     | Some l \<Rightarrow> PDict [(''pl1_uw'', oint (sl_pl1_uw l)), (''pl2_uw'', oint (sl_pl2_uw l)), (''pl1_w'', onum (sl_pl1_w l)), (''pl2_w'', onum (sl_pl2_w l)),
         (''pl1_window_us'', oint (sl_pl1_window_us l)), (''pl2_window_us'', oint (sl_pl2_window_us l)),
         (''max_power_uw'', oint (sl_max_power_uw l)), (''enabled'', oint (sl_enabled l))])"

text \<open>The readings of one slow sample; the rails and temperatures are those read if they are due.\<close>

record slow_reads =
  sr_rails :: "pyval dict"
  sr_smc_temps :: "pyval dict"
  sr_therm :: "therm_status option"
  sr_msr_limits :: "msr_limit option"
  sr_limits :: "sysfs_limits option"
  sr_fans :: pyval
  sr_gpu :: "pyval dict"
  sr_cpu :: "pyval dict"

text \<open>\<open>(d.get("temps", {})).get("pkg_c")\<close>.\<close>

definition pkg_c_of :: "pyval dict \<Rightarrow> pyval" where
  "pkg_c_of cpu = (case dget cpu ''temps'' of Some (PDict t) \<Rightarrow> py_get t ''pkg_c'' | _ \<Rightarrow> PNone)"

definition slow :: "slow_reads \<Rightarrow> rat \<Rightarrow> rat \<Rightarrow> sampler \<Rightarrow> sampler" where
  "slow r now wall s =
    (let s = (if due (sm_smc_slow_t s) now (sm_slow_every_s s)
              then s\<lparr>sm_smc_slow := (if sm_extra s = [] then [] else map (\<lambda>(k, v). (k, round_val 3 v)) (sr_rails r), sr_smc_temps r),
                     sm_smc_slow_t := Some now\<rparr> else s);
         d = [(''smc'', PDict (fst (sm_smc_slow s))), (''msr'', therm_val (sr_therm r)), (''msr_limits'', msr_limit_val (sr_msr_limits r)),
              (''limits'', limits_val (sr_limits r)), (''smc_temps'', PDict (snd (sm_smc_slow s))), (''fans'', sr_fans r),
              (''gpu'', PDict (sr_gpu r)), (''cpu'', PDict (sr_cpu r))];
         s = set_peak ''pkg_c'' (pkg_c_of (sr_cpu r)) wall (set_peak ''gpu_w'' (py_get (sr_gpu r) ''power_w'') wall s)
     in s\<lparr>sm_slow_data := d, sm_slow_mono := Some now\<rparr>)"

record derived =
  d_input_mean_1s :: "rat option"
  d_input_max_1s :: "rat option"
  d_pkg_median_1s :: "rat option"
  d_acpw_median_10s :: "rat option"
  d_noncpu_est_w :: "rat option"
  d_headroom_w :: "rat option"
  d_pred_input_at_ceiling_w :: rat

definition osub :: "rat option \<Rightarrow> rat option \<Rightarrow> rat option" where
  "osub a b = (case (a, b) of (Some x, Some y) \<Rightarrow> Some (fsub x y) | _ \<Rightarrow> None)"

definition derived_of :: "rat \<Rightarrow> rat \<Rightarrow> sampler \<Rightarrow> derived" where
  "derived_of now ceiling_w s =
    (let mean = win_mean (sm_w s ''input'') now 1; pkg_med = win_median (sm_w s ''pkg'') now 1; acpw = win_median (sm_w s ''acpw'') now 10
     in \<lparr>d_input_mean_1s = mean, d_input_max_1s = win_max (sm_w s ''input'') now 1, d_pkg_median_1s = pkg_med, d_acpw_median_10s = acpw,
         d_noncpu_est_w = osub mean pkg_med, d_headroom_w = osub acpw mean, d_pred_input_at_ceiling_w = predicted_input_w ceiling_w\<rparr>)"

definition cpu_of :: "pyval dict \<Rightarrow> pyval dict" where
  "cpu_of sd = (case dget sd ''cpu'' of Some (PDict d) \<Rightarrow> d | _ \<Rightarrow> [])"

text \<open>What the governor step consumes (the readback is the daemon's).\<close>

definition gov_input :: "rat \<Rightarrow> sampler \<Rightarrow> gov_sample" where
  "gov_input now s =
    (let fresh = (case sm_slow_mono s of Some t \<Rightarrow> fsub now t \<le> TEMP_FRESH_S | None \<Rightarrow> False)
     in \<lparr>m_pdtr_w = (if truthy (py_get (sm_latest s) ''valid'') then py_get (sm_latest s) ''pdtr_w'' else PNone),
         m_input_mean_1s = onum (win_mean (sm_w s ''input'') now 1), m_acpw_w = onum (win_median (sm_w s ''acpw'') now 10),
         m_pkg_c = (if fresh then pkg_c_of (cpu_of (sm_slow_data s)) else PNone), m_readback = None\<rparr>)"

text \<open>The part of a status value a record copies: \<open>(sd.get(k) or {}).get(f)\<close>.\<close>

definition sub_get :: "pyval dict \<Rightarrow> string \<Rightarrow> string \<Rightarrow> pyval" where
  "sub_get sd k f = (case dget sd k of Some (PDict d) \<Rightarrow> py_get d f | _ \<Rightarrow> PNone)"

definition aggregate_rec :: "rat \<Rightarrow> rat \<Rightarrow> derived \<Rightarrow> pyval dict \<Rightarrow> pyval option \<Rightarrow> pyval option \<Rightarrow> sampler \<Rightarrow> pyval dict" where
  "aggregate_rec now wall d gov fan meter s =
    (let sd = sm_slow_data s; mean1 = (\<lambda>k. win_mean (sm_w s k) now 1) in
     [(''ts'', PFloat (Fin (py_round 3 wall))), (''time'', PStr (fmt_iso wall)),
      (''input_w'', round_val 2 (onum (d_input_mean_1s d))), (''input_max_w'', round_val 2 (onum (d_input_max_1s d))),
      (''v'', round_val 3 (onum (mean1 ''v''))), (''a'', round_val 3 (onum (mean1 ''a''))),
      (''acpw_w'', round_val 3 (onum (d_acpw_median_10s d))),
      (''pkg_w'', round_val 2 (onum (d_pkg_median_1s d))), (''core_w'', round_val 2 (onum (mean1 ''core''))),
      (''uncore_w'', round_val 2 (onum (mean1 ''uncore''))), (''dram_w'', round_val 2 (onum (mean1 ''dram''))),
      (''noncpu_w'', round_val 2 (onum (d_noncpu_est_w d))), (''headroom_w'', round_val 2 (onum (d_headroom_w d))),
      (''gpu_w'', round_val 2 (sub_get sd ''gpu'' ''power_w'')), (''pkg_c'', pkg_c_of (cpu_of sd)),
      (''pl1_w'', py_get gov ''pl1_w''), (''pl2_w'', py_get gov ''pl2_w''), (''state'', py_get gov ''state''),
      (''thermal_cap_w'', py_get gov ''thermal_cap_w''),
      (''smc_valid'', case dget (sm_latest s) ''valid'' of Some v \<Rightarrow> v | None \<Rightarrow> PBool False)]
     @ map (\<lambda>k. (k, py_get sd k)) [''smc'', ''msr'', ''msr_limits'', ''smc_temps'', ''fans'', ''gpu'', ''cpu'']
     @ [(''sysfs_limits'', PDict [(''pl1_w'', sub_get sd ''limits'' ''pl1_w''), (''pl2_w'', sub_get sd ''limits'' ''pl2_w''),
                                  (''enabled'', sub_get sd ''limits'' ''enabled'')])]
     @ (case fan of Some f \<Rightarrow> [(''fan'', f)] | None \<Rightarrow> []) @ (case meter of Some m \<Rightarrow> [(''self'', m)] | None \<Rightarrow> []))"

definition add_history :: "sampler \<Rightarrow> pyval dict \<Rightarrow> sampler" where
  "add_history s r = s\<lparr>sm_history := last_n HISTORY_LEN (sm_history s @ [r])\<rparr>"

definition aggregate :: "rat \<Rightarrow> rat \<Rightarrow> rat \<Rightarrow> pyval dict \<Rightarrow> pyval option \<Rightarrow> derived option \<Rightarrow> pyval option \<Rightarrow> sampler \<Rightarrow> pyval dict \<times> sampler" where
  "aggregate now wall ceiling_w gov fan der meter s =
    (let d = (case der of Some d \<Rightarrow> d | None \<Rightarrow> derived_of now ceiling_w s); r = aggregate_rec now wall d gov fan meter s
     in (r, add_history s r))"

definition history_slice :: "rat \<Rightarrow> bool \<Rightarrow> sampler \<Rightarrow> pyval dict list" where
  "history_slice seconds full s =
    (let n = nat (max 0 (min (trunc_rat seconds) (int HISTORY_LEN))); rows = last_n n (sm_history s)
     in if full then rows else map (\<lambda>r. map (\<lambda>k. (k, py_get r k)) HISTORY_FIELDS) rows)"

section \<open>What the windows hold\<close>

definition win_in :: "rat \<Rightarrow> rat \<Rightarrow> window \<Rightarrow> bool" where
  "win_in lo hi d = (\<forall>e \<in> set d. lo \<le> snd e \<and> snd e \<le> hi)"

lemma win_push_in: "win_in lo hi d \<Longrightarrow> (\<And>x. float_of v = Some x \<Longrightarrow> lo \<le> x \<and> x \<le> hi) \<Longrightarrow> win_in lo hi (win_push t v d)"
  by (fastforce simp: win_push_def win_in_def split: option.splits dest!: set_dropWhileD)

lemma win_values_in: "win_in lo hi d \<Longrightarrow> x \<in> set (win_values d now sp) \<Longrightarrow> lo \<le> x \<and> x \<le> hi"
  by (auto simp: win_values_def win_in_def)

text \<open>The values of a window are those of the last \<open>keep_s\<close> seconds, when time does not run backwards.\<close>

lemma sorted_dropWhile_less:
  "sorted (map fst d) \<Longrightarrow> e \<in> set (dropWhile (\<lambda>e. fst e < (c :: rat)) d) \<Longrightarrow> c \<le> fst e"
  by (induction d) (auto split: if_splits)

lemma win_push_recent:
  assumes "sorted (map fst d)" "\<forall>e \<in> set d. fst e \<le> t" "float_of v \<noteq> None" "e \<in> set (win_push t v d)"
  shows "fsub t KEEP_S \<le> fst e \<and> fst e \<le> t"
proof -
  obtain x where x: "float_of v = Some x" using assms(3) by auto
  have "sorted (map fst (d @ [(t, x)]))" using assms(1,2) by (auto simp: sorted_append)
  from sorted_dropWhile_less [OF this] assms(2,4) x show ?thesis
    by (auto simp: win_push_def dest!: set_dropWhileD)
qed

text \<open>The median lies between the bounds of the values.\<close>

lemma median_in:
  assumes "xs \<noteq> []" "\<forall>x \<in> set xs. lo \<le> x \<and> x \<le> hi" "is_double lo" "is_double hi" "is_double (2 * lo)" "is_double (2 * hi)"
  shows "lo \<le> median xs \<and> median xs \<le> hi"
proof -
  let ?s = "sort xs" and ?n = "length xs"
  have el: "lo \<le> ?s ! i \<and> ?s ! i \<le> hi" if "i < ?n" for i
    using assms(2) nth_mem [of i ?s] that by simp
  have n: "0 < ?n" using assms(1) by simp
  show ?thesis
  proof (cases "odd ?n")
    case True
    have "?n div 2 < ?n" using n by simp
    then show ?thesis using el True by (simp add: median_def Let_def)
  next
    case False
    have i: "?n div 2 - 1 < ?n" "?n div 2 < ?n" using n by linarith+
    let ?a = "?s ! (?n div 2 - 1)" and ?b = "?s ! (?n div 2)"
    have "2 * lo \<le> fadd ?a ?b" "fadd ?a ?b \<le> 2 * hi" using el [OF i(1)] el [OF i(2)] assms(5,6) by (auto intro: fl_ge fl_le)
    then have "lo \<le> fdiv (fadd ?a ?b) 2" "fdiv (fadd ?a ?b) 2 \<le> hi" using assms(3,4) by (auto intro: fl_ge fl_le)
    then show ?thesis using False by (simp add: median_def Let_def)
  qed
qed

lemma win_median_in:
  assumes "win_in lo hi d" "win_median d now sp = Some x" "is_double lo" "is_double hi" "is_double (2 * lo)" "is_double (2 * hi)"
  shows "lo \<le> x \<and> x \<le> hi"
  using median_in [of "win_values d now sp" lo hi] win_values_in [OF assms(1)] assms(2-)
  by (auto simp: win_median_def Let_def split: if_splits)

section \<open>What the governor is given\<close>

text \<open>
  The invariant of the sampler: adapter powers within 30 to 100 W, input powers within 0 to 250 W,
  and a latest sample that is marked valid has an input power in that range.
\<close>

definition latest_ok :: "pyval dict \<Rightarrow> bool" where
  "latest_ok d = (truthy (py_get d ''valid'') \<longrightarrow> valid_input (py_get d ''pdtr_w''))"

definition sampler_ok :: "sampler \<Rightarrow> bool" where
  "sampler_ok s = (win_in 30 100 (sm_w s ''acpw'') \<and> win_in 0 250 (sm_w s ''input'') \<and> latest_ok (sm_latest s))"

lemma set_peak_frame: "sm_w (set_peak k v t s) = sm_w s" "sm_latest (set_peak k v t s) = sm_latest s"
  "sm_slow_mono (set_peak k v t s) = sm_slow_mono s" "sm_slow_data (set_peak k v t s) = sm_slow_data s"
  by (simp_all add: set_peak_def split: option.splits)

lemma acpw_of_in: "float_of (acpw_of v) = Some x \<Longrightarrow> 30 \<le> x \<and> x \<le> 100"
proof -
  assume a: "float_of (acpw_of v) = Some x"
  then obtain n where n: "30000 \<le> n" "n \<le> 100000" "x = fl (fdiv (of_int n) 1000)"
    by (auto simp: acpw_of_def float_of_def split: pyval.splits if_splits)
  have "(30 :: rat) \<le> of_int n / 1000" "of_int n / 1000 \<le> (100 :: rat)" using n by simp_all
  then show ?thesis using n(3) by (auto intro: fl_ge fl_le)
qed

lemma valid_input_in: "valid_input v \<Longrightarrow> float_of v = Some x \<Longrightarrow> 0 \<le> x \<and> x \<le> 250"
  by (auto simp: valid_input_def float_of_def split: pyval.splits pyfloat.splits intro: fl_le)

lemma fast_step_latest:
  "py_get (sm_latest (fast_step p smc now wall full s)) ''pdtr_w'' = (if valid_input (py_get smc ''PDTR'') then py_get smc ''PDTR'' else PNone)"
  "truthy (py_get (sm_latest (fast_step p smc now wall full s)) ''valid'') \<longleftrightarrow>
     valid_input (py_get smc ''PDTR'') \<and> win_median (sm_w (fast_step p smc now wall full s) ''acpw'') now 10 \<noteq> None"
proof -
  have "py_get smc ''PDTR'' \<noteq> PNone" if "valid_input (py_get smc ''PDTR'')" using that by (auto simp: valid_input_def)
  then show "py_get (sm_latest (fast_step p smc now wall full s)) ''pdtr_w'' = (if valid_input (py_get smc ''PDTR'') then py_get smc ''PDTR'' else PNone)"
    "truthy (py_get (sm_latest (fast_step p smc now wall full s)) ''valid'') \<longleftrightarrow>
       valid_input (py_get smc ''PDTR'') \<and> win_median (sm_w (fast_step p smc now wall full s) ''acpw'') now 10 \<noteq> None"
    by (simp_all add: fast_step_def Let_def py_get_def set_peak_frame)
qed

lemma fast_step_windows:
  "sm_w (fast_step p smc now wall full s) ''input'' =
     win_push now (if valid_input (py_get smc ''PDTR'') then py_get smc ''PDTR'' else PNone) (sm_w s ''input'')"
  "sm_w (fast_step p smc now wall full s) ''acpw'' =
     win_push now (if full then acpw_of (py_get smc ''ACPW'') else PNone) (sm_w s ''acpw'')"
  by (simp_all add: fast_step_def Let_def set_peak_frame no_held_def)

lemma fast_step_ok: "sampler_ok s \<Longrightarrow> sampler_ok (fast_step p smc now wall full s)"
  unfolding sampler_ok_def fast_step_windows latest_ok_def fast_step_latest
  by (auto intro!: win_push_in dest: acpw_of_in valid_input_in split: if_splits simp: float_of_def)

text \<open>A run of the sampler: fast samples, failed ones, slow ones and records.\<close>

datatype sm_event =
    FastE "rat option dict" "pyval dict" rat rat bool
  | FastFailed rat rat
  | SlowE slow_reads rat rat
  | AggregateE rat rat rat "pyval dict" "pyval option" "derived option" "pyval option"
  | ResetPeaks

fun sm_step :: "sampler \<Rightarrow> sm_event \<Rightarrow> sampler" where
  "sm_step s (FastE p smc now wall full) = fast_step p smc now wall full s"
| "sm_step s (FastFailed now wall) = fast_failed now wall s"
| "sm_step s (SlowE r now wall) = slow r now wall s"
| "sm_step s (AggregateE now wall c gov fan der meter) = snd (aggregate now wall c gov fan der meter s)"
| "sm_step s ResetPeaks = reset_peaks s"

lemma slow_frame: "sm_w (slow r now wall s) = sm_w s" "sm_latest (slow r now wall s) = sm_latest s"
  by (simp_all add: slow_def Let_def set_peak_frame)

interpretation sampler_run: step_machine sm_step sampler_ok "\<lambda>_. True"
proof
  fix s i assume s: "sampler_ok s"
  show "sampler_ok (sm_step s i)"
  proof (cases i)
    case (FastE p smc now wall full)
    with s show ?thesis by (simp add: fast_step_ok)
  qed (use s in \<open>simp_all add: sampler_ok_def fast_failed_def latest_ok_def py_get_def slow_frame aggregate_def add_history_def reset_peaks_def Let_def\<close>)
qed

lemma sampler_init_ok: "sampler_ok (sampler_init smc every)"
  by (simp add: sampler_ok_def sampler_init_def win_in_def latest_ok_def py_get_def)

text \<open>
  C28: whatever the SMC returns over any run, failed samples included, the governor is given an
  adapter power between 30 and 100 W or none, and an input power of at least 0 and below 250 W or
  none; an input power is only given for a sample that was complete when it was taken.
\<close>

theorem gov_input_sane:
  "(case m_acpw_w (gov_input now (run_steps sm_step (sampler_init smc every) es)) of
      PNone \<Rightarrow> True | PFloat (Fin a) \<Rightarrow> 30 \<le> a \<and> a \<le> 100 | _ \<Rightarrow> False) \<and>
   (case m_pdtr_w (gov_input now (run_steps sm_step (sampler_init smc every) es)) of
      PNone \<Rightarrow> True | PFloat (Fin w) \<Rightarrow> 0 \<le> w \<and> w < 250 | _ \<Rightarrow> False)"
proof -
  let ?s = "run_steps sm_step (sampler_init smc every) es"
  have ok: "sampler_ok ?s" by (rule sampler_run.run_keeps [OF sampler_init_ok]) (simp add: list_all_iff)
  have a: "30 \<le> x \<and> x \<le> 100" if "win_median (sm_w ?s ''acpw'') now 10 = Some x" for x
    using win_median_in [of 30 100, OF _ that] ok by (simp add: sampler_ok_def)
  have p: "valid_input (py_get (sm_latest ?s) ''pdtr_w'')" if "truthy (py_get (sm_latest ?s) ''valid'')"
    using ok that by (simp add: sampler_ok_def latest_ok_def)
  have 1: "case onum (win_median (sm_w ?s ''acpw'') now 10) of PNone \<Rightarrow> True | PFloat (Fin a) \<Rightarrow> 30 \<le> a \<and> a \<le> 100 | _ \<Rightarrow> False"
    using a by (cases "win_median (sm_w ?s ''acpw'') now 10") (simp_all add: onum_def)
  have 2: "case (if truthy (py_get (sm_latest ?s) ''valid'') then py_get (sm_latest ?s) ''pdtr_w'' else PNone) of
      PNone \<Rightarrow> True | PFloat (Fin w) \<Rightarrow> 0 \<le> w \<and> w < 250 | _ \<Rightarrow> False"
    using p by (auto simp: valid_input_def split: pyval.splits pyfloat.splits)
  show ?thesis using 1 2 by (simp add: gov_input_def Let_def)
qed

text \<open>
  A failed sample is never taken for a current one, and neither is an old temperature: right
  after a failure the governor is given no input power, and it is given a package temperature only
  from a slow sample at most 3 s old.
\<close>

theorem gov_input_fresh:
  "m_pdtr_w (gov_input t (fast_failed now wall s)) = PNone \<and>
   (m_pkg_c (gov_input t s) \<noteq> PNone \<longrightarrow> (\<exists>u. sm_slow_mono s = Some u \<and> fsub t u \<le> 3))"
  by (auto simp: gov_input_def fast_failed_def py_get_def TEMP_FRESH_S_def Let_def split: option.splits)

text \<open>A slow sample with a package at 61 degrees, at time 5.\<close>

definition demo_slow :: sampler where
  "demo_slow = slow \<lparr>sr_rails = [], sr_smc_temps = [], sr_therm = None, sr_msr_limits = None, sr_limits = None, sr_fans = PList [],
     sr_gpu = [], sr_cpu = [(''temps'', PDict [(''pkg_c'', PFloat (Fin 61))])]\<rparr> 5 5 (sampler_init None 3)"

theorem gov_input_fresh_witness:
  "m_pkg_c (gov_input 6 demo_slow) \<noteq> PNone \<and> (\<exists>u. sm_slow_mono demo_slow = Some u \<and> fsub 6 u \<le> 3)"
proof -
  have "m_pkg_c (gov_input 6 demo_slow) = PFloat (Fin 61)" by code_simp
  then have "m_pkg_c (gov_input 6 demo_slow) \<noteq> PNone" by simp
  with gov_input_fresh [of 6 0 0 demo_slow] show ?thesis by blast
qed

section \<open>The history\<close>

interpretation history_ring: bounded_log add_history sm_history "\<lambda>r. r" HISTORY_LEN
  by unfold_locales (simp add: add_history_def)

lemma history_slice_bound: "length (history_slice sec full s) \<le> HISTORY_LEN"
  by (auto simp: history_slice_def Let_def min_le_iff_disj)

text \<open>A not-a-number that arrives first stays the peak: no later reading exceeds it.\<close>

lemma nan_peak_sticks:
  "dget (sm_peaks s) key = None \<Longrightarrow> sm_peaks (set_peak key v w2 (set_peak key (PFloat NaN) w1 s)) = sm_peaks (set_peak key (PFloat NaN) w1 s)"
  by (simp add: set_peak_def peak_of_def round_pf_def split: option.split)

end
