(* ===== verification/Fans.thy ===== *)
theory Fans
  imports Config Sysfs
begin

text \<open>
  \<open>daemon/fans.py\<close>: the fan floor. \<open>decide\<close> is the pure decision; the controller \<open>FanController\<close> is a
  record whose operations take the I/O object as a parameter (a record of its four methods over its
  own state) and return the events they emit. Strings are UTF-8.
\<close>

definition POWER_HYST_W :: rat where "POWER_HYST_W = 5"
definition READBACK_TOL_RPM :: int where "READBACK_TOL_RPM = 50"
definition RETRY_S :: rat where "RETRY_S = 30"
definition KNOWN_HW_MIN :: "(int \<times> int) list" where "KNOWN_HW_MIN = [(1, 2160), (2, 2000)]"
definition CAPTURE_SLACK_RPM :: int where "CAPTURE_SLACK_RPM = 500"

definition deg_c :: string where "deg_c = [CHR '' '', CHR 0xC2, CHR 0xB0, CHR ''C'']"
definition geq_sign :: string where "geq_sign = [CHR '' '', CHR 0xE2, CHR 0x89, CHR 0xA5, CHR '' '']"

section \<open>The decision\<close>

record fan_state =
  fs_power_on :: bool
  fs_power_below_since :: "rat option"
  fs_level :: nat
  fs_temp_below_since :: "rat option"

definition fan_state0 :: fan_state where
  "fan_state0 = \<lparr>fs_power_on = False, fs_power_below_since = None, fs_level = 0, fs_temp_below_since = None\<rparr>"

record fan_cfg =
  fc_mode :: string
  fc_power_floor_w :: rat
  fc_power_floor_rpm :: int
  fc_t1_c :: rat
  fc_t1_rpm :: int
  fc_t2_c :: rat
  fc_t2_rpm :: int
  fc_t3_c :: rat
  fc_t3_rpm :: int
  fc_hysteresis_c :: rat
  fc_step_down_interval_s :: rat
  fc_max_rpm :: int

definition ladder :: "fan_cfg \<Rightarrow> (rat \<times> int) list" where
  "ladder cfg = [(fc_t1_c cfg, fc_t1_rpm cfg), (fc_t2_c cfg, fc_t2_rpm cfg), (fc_t3_c cfg, fc_t3_rpm cfg)]"

text \<open>The power rule (lines 64 to 74): on, and below the release threshold since.\<close>

definition power_rule :: "fan_cfg \<Rightarrow> rat \<Rightarrow> pyval \<Rightarrow> bool \<Rightarrow> rat option \<Rightarrow> bool \<times> rat option" where
  "power_rule cfg now pkg_w on since =
    (case num_of pkg_w of
       None \<Rightarrow> (False, None)
     | Some w \<Rightarrow>
         if fc_power_floor_w cfg \<le> w then (True, None)
         else if on \<and> w < fsub (fc_power_floor_w cfg) POWER_HYST_W then
           let t = (case since of None \<Rightarrow> now | Some t \<Rightarrow> t) in
           if fc_step_down_interval_s cfg \<le> fsub now t then (False, None) else (on, Some t)
         else (on, None))"

text \<open>The highest step of the ladder whose threshold is met, counted from 1.\<close>

definition met_step :: "fan_cfg \<Rightarrow> rat \<Rightarrow> nat" where
  "met_step cfg t = (if fc_t3_c cfg \<le> t then 3 else if fc_t2_c cfg \<le> t then 2 else if fc_t1_c cfg \<le> t then 1 else 0)"

definition step_c :: "fan_cfg \<Rightarrow> nat \<Rightarrow> rat" where
  "step_c cfg level = fst (ladder cfg ! (level - 1))"

definition step_rpm :: "fan_cfg \<Rightarrow> nat \<Rightarrow> int" where
  "step_rpm cfg level = snd (ladder cfg ! (level - 1))"

text \<open>The temperature ladder (lines 76 to 89): level, and below its release threshold since.\<close>

definition temp_rule :: "fan_cfg \<Rightarrow> rat \<Rightarrow> pyval \<Rightarrow> nat \<Rightarrow> rat option \<Rightarrow> nat \<times> rat option" where
  "temp_rule cfg now temp_c level since =
    (case num_of temp_c of
       None \<Rightarrow> (0, None)
     | Some t \<Rightarrow>
         if level \<le> met_step cfg t then (met_step cfg t, None)
         else if t < fsub (step_c cfg level) (fc_hysteresis_c cfg) then
           let b = (case since of None \<Rightarrow> now | Some b \<Rightarrow> b) in
           if fc_step_down_interval_s cfg \<le> fsub now b
           then (level - 1, if level - 1 = 0 then None else Some now)
           else (level, Some b)
         else (level, None))"

definition temp_reason :: "fan_cfg \<Rightarrow> pyval \<Rightarrow> nat \<Rightarrow> string" where
  "temp_reason cfg temp_c level =
    (let c = step_c cfg level; rpm = step_rpm cfg level;
         t = (case num_of temp_c of Some t \<Rightarrow> t | None \<Rightarrow> 0)
     in if c \<le> t then ''pkg '' @ fmt_g t @ deg_c @ geq_sign @ fmt_g c @ deg_c
        else ''cooling: '' @ str_int rpm @ '' rpm until pkg < '' @ fmt_g (fsub c (fc_hysteresis_c cfg)) @ deg_c
             @ '' for '' @ fmt_g (fc_step_down_interval_s cfg) @ '' s'')"

definition power_reason :: "fan_cfg \<Rightarrow> pyval \<Rightarrow> string" where
  "power_reason cfg pkg_w =
    (let w = (case num_of pkg_w of Some w \<Rightarrow> w | None \<Rightarrow> 0); th = fc_power_floor_w cfg
     in if th \<le> w then ''power '' @ fmt_0f w @ '' W'' @ geq_sign @ fmt_g th @ '' W''
        else ''cooling: '' @ str_int (fc_power_floor_rpm cfg) @ '' rpm until power < '' @ fmt_g (fsub th POWER_HYST_W)
             @ '' W for '' @ fmt_g (fc_step_down_interval_s cfg) @ '' s'')"

definition decide :: "fan_state \<Rightarrow> pyval \<Rightarrow> pyval \<Rightarrow> fan_cfg \<Rightarrow> rat \<Rightarrow> fan_state \<times> int \<times> string" where
  "decide st temp_c pkg_w cfg now =
    (let (power_on, p_since) = power_rule cfg now pkg_w (fs_power_on st) (fs_power_below_since st);
         (level, t_since) = temp_rule cfg now temp_c (fs_level st) (fs_temp_below_since st);
         cands = (if level \<noteq> 0 then [(step_rpm cfg level, temp_reason cfg temp_c level)] else [])
               @ (if power_on then [(fc_power_floor_rpm cfg, power_reason cfg pkg_w)] else []);
         new = \<lparr>fs_power_on = power_on, fs_power_below_since = p_since, fs_level = level, fs_temp_below_since = t_since\<rparr>
     in case cands of
          [] \<Rightarrow> (new, 0, if is_num temp_c \<or> is_num pkg_w then ''below thresholds'' else ''no temperature or power data'')
        | c # cs \<Rightarrow>
            (let (target, reason) = fold (\<lambda>x best. if fst best < fst x then x else best) cs c;
                 cap = fc_max_rpm cfg
             in if cap < target then (new, cap, reason @ '' (max '' @ str_int cap @ '' rpm)'')
                else (new, target, reason)))"

section \<open>Fan I/O\<close>

text \<open>The methods of an I/O object over its state.\<close>

record 's fan_io =
  io_numbers :: "'s \<Rightarrow> int list"
  io_read_int :: "'s \<Rightarrow> int \<Rightarrow> string \<Rightarrow> int option"
  io_read_text :: "'s \<Rightarrow> int \<Rightarrow> string \<Rightarrow> string option"
  io_write_min :: "'s \<Rightarrow> int \<Rightarrow> int \<Rightarrow> string option \<times> 's"

definition fan_path :: "string option \<Rightarrow> int \<Rightarrow> string \<Rightarrow> string" where
  "fan_path base n attr = path_join (case base of Some b \<Rightarrow> or_str b ''/nonexistent-applesmc'' | None \<Rightarrow> ''/nonexistent-applesmc'')
     (''fan'' @ str_int n @ ''_'' @ attr)"

text \<open>\<open>re.fullmatch(r"fan(\d+)_input", name)\<close>.\<close>

definition fan_number :: "string \<Rightarrow> int option" where
  "fan_number name =
    (if starts_with ''fan'' name \<and> ends_with ''_input'' name \<and> 9 < length name then
       let d = take (length name - 9) (drop 3 name) in
       if list_all is_digit d then Some (digits_val d) else None
     else None)"

definition basename :: "string \<Rightarrow> string" where
  "basename p = last (split_char CHR ''/'' p)"

text \<open>\<open>SysfsFanIO\<close>; \<open>hits\<close> are the matches of the glob \<open>fan*_input\<close>.\<close>

definition sysfs_fan_io :: "driver \<Rightarrow> string list \<Rightarrow> string option \<Rightarrow> files fan_io" where
  "sysfs_fan_io drv hits base =
    \<lparr>io_numbers = (\<lambda>fs. if base = None \<or> base = Some [] then [] else sort (List.map_filter (\<lambda>p. fan_number (basename p)) hits)),
     io_read_int = (\<lambda>fs n attr. read_int fs (fan_path base n attr) None),
     io_read_text = (\<lambda>fs n attr. read_text fs (fan_path base n attr) None),
     io_write_min = (\<lambda>fs n rpm. write_text drv fs (fan_path base n ''min'') (str_int rpm))\<rparr>"

section \<open>The controller\<close>

record fan =
  fan_label :: string
  fan_max :: "int option"
  fan_rpm :: "int option"

type_synonym fevent = "string \<times> pyval dict"

record fan_ctl =
  c_state :: fan_state
  c_mode :: "string option"
  c_target_rpm :: int
  c_reason :: string
  c_last_change_ts :: "rat option"
  c_write_errors :: nat
  c_fans :: "(int \<times> fan) list"
  c_written :: "(int \<times> int option) list"
  c_failed :: "(int \<times> int \<times> rat) list"
  c_defaults :: "(int \<times> int) list"

text \<open>A controller with its I/O state and the events emitted so far.\<close>

type_synonym 's fworld = "fan_ctl \<times> 's \<times> fevent list"

definition emit :: "string \<Rightarrow> pyval dict \<Rightarrow> 's fworld \<Rightarrow> 's fworld" where
  "emit typ kw w = (case w of (c, s, ev) \<Rightarrow> (c, s, ev @ [(typ, kw)]))"

definition written_of :: "fan_ctl \<Rightarrow> int \<Rightarrow> int option" where
  "written_of c n = (case dget (c_written c) n of Some v \<Rightarrow> v | None \<Rightarrow> None)"

definition fan_max_of :: "fan_ctl \<Rightarrow> int \<Rightarrow> int option" where
  "fan_max_of c n = (case dget (c_fans c) n of Some f \<Rightarrow> fan_max f | None \<Rightarrow> None)"

definition plausible :: "fan_ctl \<Rightarrow> int \<Rightarrow> pyval \<Rightarrow> bool" where
  "plausible c n v =
    (case v of
       PInt k \<Rightarrow> 0 < k \<and> (case fan_max_of c n of Some mx \<Rightarrow> k \<le> mx | None \<Rightarrow> True) \<and>
         (case dget KNOWN_HW_MIN n of None \<Rightarrow> True | Some h \<Rightarrow> k \<le> h + CAPTURE_SLACK_RPM)
     | _ \<Rightarrow> False)"

definition as_int :: "pyval \<Rightarrow> int" where
  "as_int v = (case v of PInt k \<Rightarrow> k | _ \<Rightarrow> 0)"

definition oval :: "int option \<Rightarrow> pyval" where
  "oval x = (case x of Some k \<Rightarrow> PInt k | None \<Rightarrow> PNone)"

text \<open>The minimum saved for each fan: \<open>raw[str(n)]["min"]\<close>, \<open>None\<close> if a lookup raises.\<close>

definition saved_min :: "pyval \<Rightarrow> int \<Rightarrow> pyval option" where
  "saved_min raw n =
    (case raw of
       PDict doc \<Rightarrow> (case dget doc ''fans'' of
         Some (PDict fans) \<Rightarrow> (case dget fans (str_int n) of
           Some (PDict f) \<Rightarrow> dget f ''min'' | _ \<Rightarrow> None)
       | _ \<Rightarrow> None)
     | _ \<Rightarrow> None)"

text \<open>\<open>str\<close> of a dictionary from numbers to numbers or \<open>None\<close>, as the warning prints it.\<close>

definition dict_repr :: "(int \<times> int option) list \<Rightarrow> string" where
  "dict_repr d = ''{'' @ join_with '', '' (map (\<lambda>(n, v). str_int n @ '': '' @ (case v of Some k \<Rightarrow> str_int k | None \<Rightarrow> ''None'')) d) @ ''}''"

definition stale_pre :: "string option \<Rightarrow> string" where
  "stale_pre stale = (case stale of Some s \<Rightarrow> s @ ''; '' | None \<Rightarrow> [])"

text \<open>The minimums of the defaults file, when it has a plausible one for every fan.\<close>

definition saved_defaults :: "fan_ctl \<Rightarrow> pyval \<Rightarrow> (int \<times> int) list option" where
  "saved_defaults c raw =
    (let ns = map fst (c_fans c) in
     if list_all (\<lambda>n. case saved_min raw n of Some v \<Rightarrow> plausible c n v | None \<Rightarrow> False) ns
     then Some (map (\<lambda>n. (n, case saved_min raw n of Some v \<Rightarrow> as_int v | None \<Rightarrow> 0)) ns) else None)"

definition defaults_doc :: "fan_ctl \<Rightarrow> string \<Rightarrow> pyval" where
  "defaults_doc c stamp =
    PDict [(''fans'', PDict (map (\<lambda>(n, f). (str_int n, PDict [(''label'', PStr (fan_label f)), (''min'', oval (written_of c n)),
                                                        (''max'', oval (fan_max f))])) (c_fans c))),
           (''captured_at'', PStr stamp)]"

text \<open>
  \<open>_load_or_capture\<close>. \<open>ex\<close> tells whether the defaults file exists and \<open>dfs\<close> has its contents if it can
  be read; \<open>loads\<close> and \<open>dumps\<close> are the JSON codec, \<open>save_err\<close> the error saving would raise. The result has the defaults, the events and the files.
\<close>

definition load_or_capture :: "(string \<Rightarrow> pyval option) \<Rightarrow> (pyval \<Rightarrow> string) \<Rightarrow> string option \<Rightarrow> string \<Rightarrow> string option
    \<Rightarrow> bool \<Rightarrow> files \<Rightarrow> fan_ctl \<Rightarrow> (int \<times> int) list \<times> fevent list \<times> files" where
  "load_or_capture loads dumps save_err stamp path ex dfs c =
    (let file = (case path of Some p \<Rightarrow> if ex then Some (Option.bind (dfs p) loads) else None | None \<Rightarrow> None);
         from_file = (case file of Some (Some raw) \<Rightarrow> saved_defaults c raw | _ \<Rightarrow> None);
         stale = (case (path, file) of (Some p, Some _) \<Rightarrow> Some (p @ '' is invalid or implausible and was ignored'') | _ \<Rightarrow> None);
         live = c_written c
     in case from_file of
          Some d \<Rightarrow> (d, [], dfs)
        | None \<Rightarrow>
            if list_all (\<lambda>(n, v). plausible c n (oval v)) live then
              let (stale, dfs) =
                    (case path of
                       None \<Rightarrow> (stale, dfs)
                     | Some p \<Rightarrow> (case save_err of
                         None \<Rightarrow> (stale, dfs(p @ ''.tmp'' := None, p \<mapsto> dumps (defaults_doc c stamp)))
                       | Some e \<Rightarrow> (Some (stale_pre stale @ ''cannot save '' @ p @ '': '' @ e), dfs)));
                  ev = (''fan_defaults'', [(''source'', PStr ''captured''),
                          (''mins'', PDict (map (\<lambda>(n, v). (case dget (c_fans c) n of Some f \<Rightarrow> fan_label f | None \<Rightarrow> [], oval v)) live))]
                        @ (case stale of Some m \<Rightarrow> [(''warning'', PStr m)] | None \<Rightarrow> []))
              in (map (\<lambda>(n, v). (n, case v of Some k \<Rightarrow> k | None \<Rightarrow> 0)) live, [ev], dfs)
            else
              let out = List.map_filter (\<lambda>(n, v). if plausible c n (oval v) then Some (n, case v of Some k \<Rightarrow> k | None \<Rightarrow> 0)
                          else map_option (\<lambda>h. (n, h)) (dget KNOWN_HW_MIN n)) live
              in (out, [(''fan_defaults_warning'', [(''message'', PStr (stale_pre stale @ ''live fan minimums '' @ dict_repr live
                     @ '' look like a floor already applied: not saved; restoring to '' @ dict_repr (map (\<lambda>(n, k). (n, Some k)) out)
                     @ '' (known hardware minimums) until a later start captures plausible values''))])], dfs))"

text \<open>\<open>discover\<close>: the fans with their labels and current minimums; the defaults are loaded if there is a fan.\<close>

definition found_fan :: "'s fan_io \<Rightarrow> 's \<Rightarrow> int \<Rightarrow> fan_ctl \<Rightarrow> fan_ctl" where
  "found_fan io s n c =
    c\<lparr>c_fans := dset n \<lparr>fan_label = (case io_read_text io s n ''label'' of
                           Some l \<Rightarrow> or_str l (''fan'' @ str_int n) | None \<Rightarrow> ''fan'' @ str_int n),
                         fan_max = io_read_int io s n ''max'', fan_rpm = io_read_int io s n ''input''\<rparr> (c_fans c),
       c_written := dset n (io_read_int io s n ''min'') (c_written c)\<rparr>"

definition discover :: "'s fan_io \<Rightarrow> 's \<Rightarrow> (fan_ctl \<Rightarrow> (int \<times> int) list \<times> fevent list \<times> files) \<Rightarrow> files \<Rightarrow> fan_ctl
    \<Rightarrow> fan_ctl \<times> fevent list \<times> files" where
  "discover io s defs dfs c =
    (let c = fold (found_fan io s) (io_numbers io s) c in
     if c_fans c = [] then (c\<lparr>c_defaults := []\<rparr>, [], dfs)
     else case defs c of (d, ev, dfs) \<Rightarrow> (c\<lparr>c_defaults := d\<rparr>, ev, dfs))"

definition fan_ctl0 :: fan_ctl where
  "fan_ctl0 = \<lparr>c_state = fan_state0, c_mode = None, c_target_rpm = 0, c_reason = ''not started'', c_last_change_ts = None,
     c_write_errors = 0, c_fans = [], c_written = [], c_failed = [], c_defaults = []\<rparr>"

definition fan_init :: "'s fan_io \<Rightarrow> 's \<Rightarrow> (fan_ctl \<Rightarrow> (int \<times> int) list \<times> fevent list \<times> files) \<Rightarrow> files \<Rightarrow> fan_ctl \<times> fevent list \<times> files" where
  "fan_init io s defs dfs = discover io s defs dfs fan_ctl0"

text \<open>\<open>_clamp\<close>, for a fan with default \<open>lo\<close> and maximum \<open>mx\<close>.\<close>

definition fan_clamp :: "int \<Rightarrow> int option \<Rightarrow> int \<Rightarrow> int \<Rightarrow> int" where
  "fan_clamp lo mx target max_rpm =
    (let hi = max lo (case mx of Some m \<Rightarrow> min max_rpm m | None \<Rightarrow> max_rpm)
     in if target \<le> 0 then lo else min (max target lo) hi)"

definition fan_write :: "'s fan_io \<Rightarrow> int \<Rightarrow> int \<Rightarrow> int option \<Rightarrow> 's \<Rightarrow> string option \<times> 's" where
  "fan_write io n rpm mx s =
    (case io_write_min io s n rpm of
       (Some err, s) \<Rightarrow> (Some err, s)
     | (None, s) \<Rightarrow>
         (case io_read_int io s n ''min'' of
            None \<Rightarrow> (Some (''fan'' @ str_int n @ ''_min unreadable after writing '' @ str_int rpm), s)
          | Some got \<Rightarrow>
              if READBACK_TOL_RPM < \<bar>got - rpm\<bar> then
                (Some (''fan'' @ str_int n @ ''_min reads '' @ str_int got @ '', wanted '' @ str_int rpm), s)
              else if (case mx of Some m \<Rightarrow> m < got | None \<Rightarrow> False) then
                (Some (''fan'' @ str_int n @ ''_min reads '' @ str_int got @ '', above fan'' @ str_int n @ ''_max ''
                       @ str_int (the mx)), s)
              else (None, s)))"

text \<open>One fan of the loop of \<open>apply\<close>; \<open>changed\<close> collects the labels written.\<close>

definition apply_fan :: "'s fan_io \<Rightarrow> rat \<Rightarrow> int \<Rightarrow> int \<Rightarrow> string \<Rightarrow> int \<times> fan
    \<Rightarrow> 's fworld \<times> pyval dict \<Rightarrow> 's fworld \<times> pyval dict" where
  "apply_fan io now target max_rpm reason nf wc =
    (let (n, f) = nf; ((c, s, ev), changed) = wc in
     case dget (c_defaults c) n of
       None \<Rightarrow> wc
     | Some lo \<Rightarrow>
         let want = fan_clamp lo (fan_max f) target max_rpm in
         if written_of c n = Some want then wc
         else if (case dget (c_failed c) n of Some (r, t) \<Rightarrow> r = want \<and> fsub now t < RETRY_S | None \<Rightarrow> False) then wc
         else
           (case fan_write io n want (fan_max f) s of
              (Some err, s) \<Rightarrow>
                ((c\<lparr>c_written := dset n None (c_written c), c_failed := dset n (want, now) (c_failed c),
                   c_write_errors := c_write_errors c + 1\<rparr>, s,
                  ev @ [(''fan_floor_error'', [(''fan'', PStr (fan_label f)), (''rpm'', PInt want), (''error'', PStr err),
                                               (''reason'', PStr reason)])]), changed)
            | (None, s) \<Rightarrow>
                ((c\<lparr>c_written := dset n (Some want) (c_written c), c_failed := dpop n (c_failed c)\<rparr>, s, ev),
                 dset (fan_label f) (PInt want) changed)))"

definition fan_apply :: "'s fan_io \<Rightarrow> rat \<Rightarrow> int \<Rightarrow> int \<Rightarrow> string \<Rightarrow> pyval \<Rightarrow> pyval \<Rightarrow> 's fworld \<Rightarrow> bool \<times> 's fworld" where
  "fan_apply io now target max_rpm reason temp_c pkg_w w =
    (let ((c, s, ev), changed) = fold (apply_fan io now target max_rpm reason) (c_fans (fst w)) (w, []) in
     if changed \<noteq> [] then
       (True, emit ''fan_floor'' [(''target_rpm'', PInt target), (''fans'', PDict changed), (''temp_c'', temp_c),
                 (''pkg_w'', case num_of pkg_w of Some x \<Rightarrow> PFloat (Fin (py_round 2 x)) | None \<Rightarrow> PNone), (''reason'', PStr reason)]
                (c\<lparr>c_last_change_ts := Some now\<rparr>, s, ev))
     else (False, (c, s, ev)))"

definition restore_fan :: "'s fan_io \<Rightarrow> int \<times> fan \<Rightarrow> 's fworld \<times> pyval dict \<times> bool \<Rightarrow> 's fworld \<times> pyval dict \<times> bool" where
  "restore_fan io nf wc =
    (let (n, f) = nf; ((c, s, ev), restored, ok) = wc in
     case dget (c_defaults c) n of
       None \<Rightarrow> wc
     | Some d \<Rightarrow>
         if io_read_int io s n ''min'' = Some d then ((c\<lparr>c_written := dset n (Some d) (c_written c)\<rparr>, s, ev), restored, ok)
         else
           (case fan_write io n d (fan_max f) s of
              (Some err, s) \<Rightarrow>
                ((c\<lparr>c_written := dset n None (c_written c), c_write_errors := c_write_errors c + 1\<rparr>, s,
                  ev @ [(''fan_floor_error'', [(''fan'', PStr (fan_label f)), (''rpm'', PInt d), (''error'', PStr err),
                                               (''reason'', PStr ''restore'')])]), restored, False)
            | (None, s) \<Rightarrow>
                ((c\<lparr>c_written := dset n (Some d) (c_written c), c_failed := dpop n (c_failed c)\<rparr>, s, ev),
                 dset (fan_label f) (PInt d) restored, ok)))"

definition fan_restore :: "'s fan_io \<Rightarrow> rat \<Rightarrow> 's fworld \<Rightarrow> bool \<times> 's fworld" where
  "fan_restore io clock w =
    (let w = ((fst w)\<lparr>c_state := fan_state0, c_target_rpm := 0\<rparr>, snd w);
         ((c, s, ev), restored, ok) = fold (restore_fan io) (c_fans (fst w)) (w, [], True)
     in if restored \<noteq> [] then (ok, emit ''fan_restore'' [(''fans'', PDict restored)] (c\<lparr>c_last_change_ts := Some clock\<rparr>, s, ev))
        else (ok, (c, s, ev)))"

definition set_reason :: "string \<Rightarrow> 's fworld \<Rightarrow> 's fworld" where
  "set_reason r w = ((fst w)\<lparr>c_reason := r\<rparr>, snd w)"

definition fan_start :: "'s fan_io \<Rightarrow> rat \<Rightarrow> fan_cfg \<Rightarrow> 's fworld \<Rightarrow> 's fworld" where
  "fan_start io clock cfg w =
    (let w = ((fst w)\<lparr>c_mode := Some (fc_mode cfg)\<rparr>, snd w) in
     if c_fans (fst w) = [] then set_reason ''no applesmc fans found'' w
     else if fc_mode cfg = ''auto'' then set_reason ''fan.mode auto: SMC curve only'' (snd (fan_restore io clock w))
     else set_reason ''waiting for the first sample'' w)"

definition fan_set_mode :: "'s fan_io \<Rightarrow> rat \<Rightarrow> string \<Rightarrow> 's fworld \<Rightarrow> 's fworld" where
  "fan_set_mode io clock mode w =
    (let w = emit ''fan_mode'' [(''mode'', PStr mode)] ((fst w)\<lparr>c_mode := Some mode, c_state := fan_state0\<rparr>, snd w) in
     if mode = ''auto'' then set_reason ''fan.mode auto: SMC curve only'' (snd (fan_restore io clock w)) else w)"

definition fan_on_config :: "'s fan_io \<Rightarrow> rat \<Rightarrow> fan_cfg \<Rightarrow> 's fworld \<Rightarrow> 's fworld" where
  "fan_on_config io clock cfg w =
    (if fc_mode cfg = ''auto'' \<and> c_mode (fst w) \<noteq> Some ''auto'' then fan_set_mode io clock ''auto'' w else w)"

definition refresh_rpm :: "'s fan_io \<Rightarrow> 's \<Rightarrow> fan_ctl \<Rightarrow> fan_ctl" where
  "refresh_rpm io s c = c\<lparr>c_fans := map (\<lambda>(n, f). (n, f\<lparr>fan_rpm := io_read_int io s n ''input''\<rparr>)) (c_fans c)\<rparr>"

definition fan_tick :: "'s fan_io \<Rightarrow> rat \<Rightarrow> rat \<Rightarrow> pyval \<Rightarrow> pyval \<Rightarrow> fan_cfg \<Rightarrow> 's fworld \<Rightarrow> 's fworld" where
  "fan_tick io clock now temp_c pkg_w cfg w =
    (let w = (if c_mode (fst w) \<noteq> Some (fc_mode cfg) then fan_set_mode io clock (fc_mode cfg) w else w);
         w = (refresh_rpm io (fst (snd w)) (fst w), snd w)
     in if c_fans (fst w) = [] then set_reason ''no applesmc fans found'' w
        else if c_mode (fst w) \<noteq> Some ''floor'' then w
        else
          (case decide (c_state (fst w)) temp_c pkg_w cfg now of
             (st, target, reason) \<Rightarrow>
               snd (fan_apply io clock target (fc_max_rpm cfg) reason temp_c pkg_w
                 ((fst w)\<lparr>c_state := st, c_target_rpm := target, c_reason := reason\<rparr>, snd w))))"

definition fan_status :: "fan_ctl \<Rightarrow> pyval dict" where
  "fan_status c =
    [(''mode'', case c_mode c of Some m \<Rightarrow> PStr m | None \<Rightarrow> PNone), (''target_rpm'', PInt (c_target_rpm c)),
     (''reason'', PStr (c_reason c)),
     (''fans'', PList (map (\<lambda>(n, f). PDict [(''label'', PStr (fan_label f)), (''rpm'', oval (fan_rpm f)),
        (''min_written'', oval (written_of c n)), (''hw_min'', oval (dget (c_defaults c) n)), (''max'', oval (fan_max f))]) (c_fans c))),
     (''last_change_ts'', case c_last_change_ts c of Some t \<Rightarrow> PFloat (Fin t) | None \<Rightarrow> PNone),
     (''write_errors'', PInt (int (c_write_errors c)))]"

definition fan_log_record :: "fan_ctl \<Rightarrow> pyval dict" where
  "fan_log_record c =
    [(''mode'', case c_mode c of Some m \<Rightarrow> PStr m | None \<Rightarrow> PNone), (''target_rpm'', PInt (c_target_rpm c)),
     (''reason'', PStr (c_reason c)),
     (''min_written'', PList (map (\<lambda>(n, _). oval (written_of c n)) (c_fans c))),
     (''hw_min'', PList (map (\<lambda>(n, _). oval (dget (c_defaults c) n)) (c_fans c))),
     (''write_errors'', PInt (int (c_write_errors c)))]"

section \<open>Properties of the decision\<close>

lemma met_step_le: "met_step cfg t \<le> 3"
  by (simp add: met_step_def)

lemma temp_rule_level:
  assumes "fs_level st \<le> 3" "num_of temp_c = Some t"
  shows "fst (temp_rule cfg now temp_c (fs_level st) since) \<le> 3 \<and> met_step cfg t \<le> fst (temp_rule cfg now temp_c (fs_level st) since)"
  using assms met_step_le [of cfg t] by (auto simp: temp_rule_def Let_def)

lemma temp_rule_le3: "l \<le> 3 \<Longrightarrow> fst (temp_rule cfg now temp_c l since) \<le> 3"
  using met_step_le [of cfg] by (auto simp: temp_rule_def Let_def split: option.splits)

text \<open>The target as a function of what the two rules engage.\<close>

definition fan_target :: "fan_cfg \<Rightarrow> nat \<Rightarrow> bool \<Rightarrow> int" where
  "fan_target cfg level on =
    (if level = 0 then (if on then min (fc_power_floor_rpm cfg) (fc_max_rpm cfg) else 0)
     else min (if on then max (step_rpm cfg level) (fc_power_floor_rpm cfg) else step_rpm cfg level) (fc_max_rpm cfg))"

lemma decide_target:
  "decide st temp_c pkg_w cfg now = (st', target, reason) \<Longrightarrow>
     target = fan_target cfg (fs_level st') (fs_power_on st') \<and>
     (fs_level st', fs_temp_below_since st') = temp_rule cfg now temp_c (fs_level st) (fs_temp_below_since st) \<and>
     (fs_power_on st', fs_power_below_since st') = power_rule cfg now pkg_w (fs_power_on st) (fs_power_below_since st)"
  by (auto simp: decide_def fan_target_def Let_def min_def max_def split: prod.splits if_splits)

text \<open>The configurations the validation lets through have a ladder that rises.\<close>

definition fcfg_ok :: "fan_cfg \<Rightarrow> bool" where
  "fcfg_ok cfg = (fc_t1_c cfg < fc_t2_c cfg \<and> fc_t2_c cfg < fc_t3_c cfg \<and> 0 < fc_t1_rpm cfg \<and> fc_t1_rpm cfg \<le> fc_t2_rpm cfg \<and>
     fc_t2_rpm cfg \<le> fc_t3_rpm cfg \<and> 0 < fc_power_floor_rpm cfg \<and> 0 < fc_max_rpm cfg \<and> 0 < fc_step_down_interval_s cfg)"

lemma step_rpm_mono: "fcfg_ok cfg \<Longrightarrow> 1 \<le> i \<Longrightarrow> i \<le> j \<Longrightarrow> j \<le> 3 \<Longrightarrow> step_rpm cfg i \<le> step_rpm cfg j"
proof -
  assume a: "fcfg_ok cfg" "1 \<le> i" "i \<le> j" "j \<le> 3"
  then have "i \<in> {1, 2, 3}" "j \<in> {1, 2, 3}" by auto
  with a show ?thesis by (auto simp: fcfg_ok_def step_rpm_def ladder_def)
qed

text \<open>
  C19: the fan target never exceeds \<open>max_rpm\<close> and is never negative; at a package temperature at or
  above a step of the ladder it is at least that step's speed (or \<open>max_rpm\<close>), and at a package
  power at or above the floor threshold at least the power floor's speed, whatever came before.
\<close>

theorem decide_safe:
  assumes "fcfg_ok cfg" "fs_level st \<le> 3" "decide st temp_c pkg_w cfg now = (st', target, reason)"
  shows "0 \<le> target \<and> target \<le> fc_max_rpm cfg \<and> fs_level st' \<le> 3 \<and>
    (\<forall>t i. num_of temp_c = Some t \<and> 1 \<le> i \<and> i \<le> 3 \<and> step_c cfg i \<le> t \<longrightarrow> min (step_rpm cfg i) (fc_max_rpm cfg) \<le> target) \<and>
    (\<forall>x. num_of pkg_w = Some x \<and> fc_power_floor_w cfg \<le> x \<longrightarrow> min (fc_power_floor_rpm cfg) (fc_max_rpm cfg) \<le> target)"
proof -
  note D = decide_target [OF assms(3)]
  have l3: "fs_level st' \<le> 3" using D temp_rule_le3 [OF assms(2)] by (metis fst_conv)
  have pos: "0 < step_rpm cfg i" if "1 \<le> i" "i \<le> 3" for i
    using step_rpm_mono [OF assms(1) order_refl that] assms(1) by (simp add: fcfg_ok_def step_rpm_def ladder_def)
  have 1: "0 \<le> target \<and> target \<le> fc_max_rpm cfg"
    using D pos [of "fs_level st'"] l3 assms(1) by (auto simp: fan_target_def Let_def fcfg_ok_def)
  have 2: "min (step_rpm cfg i) (fc_max_rpm cfg) \<le> target"
    if t: "num_of temp_c = Some t" "1 \<le> i" "i \<le> 3" "step_c cfg i \<le> t" for t i
  proof -
    have "i \<in> {1, 2, 3}" using t by auto
    then have "i \<le> met_step cfg t" using t(4) assms(1) by (auto simp: met_step_def step_c_def ladder_def fcfg_ok_def)
    also have "\<dots> \<le> fs_level st'" using temp_rule_level [OF assms(2) t(1)] D by (metis fst_conv)
    finally have "step_rpm cfg i \<le> step_rpm cfg (fs_level st')" "fs_level st' \<noteq> 0"
      using step_rpm_mono [OF assms(1) t(2)] l3 t(2) by auto
    then show ?thesis using D by (auto simp: fan_target_def Let_def)
  qed
  have 3: "min (fc_power_floor_rpm cfg) (fc_max_rpm cfg) \<le> target" if "num_of pkg_w = Some x" "fc_power_floor_w cfg \<le> x" for x
  proof -
    have "fs_power_on st'" using D that by (simp add: power_rule_def)
    then show ?thesis using D by (auto simp: fan_target_def Let_def)
  qed
  show ?thesis using 1 2 3 l3 by blast
qed

text \<open>
  With a temperature at hand the ladder steps down one step at a time, and only after the
  temperature was below the step's release threshold for the whole interval.
\<close>

theorem decide_step_down:
  assumes "fcfg_ok cfg" "num_of temp_c = Some t" "decide st temp_c pkg_w cfg now = (st', target, reason)"
    "fs_level st' < fs_level st"
  shows "fs_level st' = fs_level st - 1 \<and> t < fsub (step_c cfg (fs_level st)) (fc_hysteresis_c cfg) \<and>
    (\<exists>b. fs_temp_below_since st = Some b \<and> fc_step_down_interval_s cfg \<le> fsub now b)"
proof -
  have e: "fs_level st' = fst (temp_rule cfg now temp_c (fs_level st) (fs_temp_below_since st))"
    using decide_target [OF assms(3)] by (metis fst_conv)
  have "\<not> fc_step_down_interval_s cfg \<le> fsub now now" using assms(1) by (simp add: fcfg_ok_def)
  then show ?thesis using e assms(2,4)
    by (cases "fs_temp_below_since st") (auto simp: temp_rule_def Let_def split: if_splits)
qed

definition demo_fan_cfg :: fan_cfg where
  "demo_fan_cfg = \<lparr>fc_mode = ''floor'', fc_power_floor_w = 25, fc_power_floor_rpm = 3500, fc_t1_c = 78, fc_t1_rpm = 3500,
     fc_t2_c = 84, fc_t2_rpm = 4500, fc_t3_c = 90, fc_t3_rpm = 5900, fc_hysteresis_c = 6, fc_step_down_interval_s = 20,
     fc_max_rpm = 5900\<rparr>"

theorem decide_safe_witness:
  "(\<lambda>(st', target, reason). 4500 \<le> target \<and> target \<le> 5900) (decide fan_state0 (PInt 85) PNone demo_fan_cfg 0)"
proof -
  obtain st' target reason where d: "decide fan_state0 (PInt 85) PNone demo_fan_cfg 0 = (st', target, reason)"
    by (cases "decide fan_state0 (PInt 85) PNone demo_fan_cfg 0") auto
  have ok: "fcfg_ok demo_fan_cfg" "fs_level fan_state0 \<le> 3" by (simp_all add: fcfg_ok_def demo_fan_cfg_def fan_state0_def)
  have "step_c demo_fan_cfg 2 = 84" "step_rpm demo_fan_cfg 2 = 4500" "fc_max_rpm demo_fan_cfg = 5900"
    by (simp_all add: step_c_def step_rpm_def ladder_def demo_fan_cfg_def)
  with decide_safe [OF ok d] show ?thesis
    unfolding d by (auto dest: spec [of _ 2] spec [of _ 85])
qed

theorem decide_step_down_witness:
  "fs_level (fst (decide (fan_state0\<lparr>fs_level := 3, fs_temp_below_since := Some 5\<rparr>) (PInt 80) PNone demo_fan_cfg 30)) = 2"
proof -
  let ?s = "fan_state0\<lparr>fs_level := 3, fs_temp_below_since := Some 5\<rparr>"
  obtain st' target reason where d: "decide ?s (PInt 80) PNone demo_fan_cfg 30 = (st', target, reason)"
    by (cases "decide ?s (PInt 80) PNone demo_fan_cfg 30") auto
  have ok: "fcfg_ok demo_fan_cfg" by (simp add: fcfg_ok_def demo_fan_cfg_def)
  have "temp_rule demo_fan_cfg 30 (PInt 80) 3 (Some 5) = (2, Some 30)"
    by (simp add: temp_rule_def met_step_def step_c_def ladder_def demo_fan_cfg_def Let_def)
  then have "fs_level st' < fs_level ?s" using decide_target [OF d] by simp
  from decide_step_down [OF ok _ d this] show ?thesis by (simp add: d)
qed

section \<open>What the controller relies on\<close>

text \<open>
  What the controller believes a fan's minimum to be is what the device reads, up to the tolerance;
  a fan is at its default when the device reads the default, up to the tolerance.
\<close>

definition in_sync :: "'s fan_io \<Rightarrow> fan_ctl \<Rightarrow> 's \<Rightarrow> bool" where
  "in_sync io c s = (\<forall>n v. dget (c_written c) n = Some (Some v) \<longrightarrow>
     (\<exists>got. io_read_int io s n ''min'' = Some got \<and> \<bar>got - v\<bar> \<le> READBACK_TOL_RPM))"

definition at_default :: "'s fan_io \<Rightarrow> fan_ctl \<Rightarrow> 's \<Rightarrow> int \<Rightarrow> bool" where
  "at_default io c s n = (\<forall>d. dget (c_defaults c) n = Some d \<longrightarrow>
     (\<exists>got. io_read_int io s n ''min'' = Some got \<and> \<bar>got - d\<bar> \<le> READBACK_TOL_RPM))"

text \<open>
  The interface of a fan device: writing the minimum of one fan leaves every other attribute as it
  was. What the written attribute reads afterwards is up to the device.
\<close>

locale fan_dev =
  fixes io :: "'s fan_io"
  assumes write_local: "io_write_min io s n r = (e, s') \<Longrightarrow> (k, a) \<noteq> (n, ''min'') \<Longrightarrow> io_read_int io s' k a = io_read_int io s k a"
begin

lemma fan_write_frame: "fan_write io n r mx s = (e, s') \<Longrightarrow> (k, a) \<noteq> (n, ''min'') \<Longrightarrow> io_read_int io s' k a = io_read_int io s k a"
  using write_local [of s n r] by (auto simp: fan_write_def split: prod.splits option.splits if_splits)

lemma fan_write_lands: "fan_write io n r mx s = (None, s') \<Longrightarrow>
    \<exists>got. io_read_int io s' n ''min'' = Some got \<and> \<bar>got - r\<bar> \<le> READBACK_TOL_RPM \<and> (\<forall>m. mx = Some m \<longrightarrow> got \<le> m)"
  by (auto simp: fan_write_def split: prod.splits option.splits if_splits)

lemma sync_write:
  assumes "in_sync io c s" "fan_write io n r mx s = (e, s')"
  shows "in_sync io (c\<lparr>c_written := dset n (if e = None then Some r else None) (c_written c)\<rparr>) s'"
  unfolding in_sync_def
proof (intro allI impI)
  fix k v
  assume w: "dget (c_written (c\<lparr>c_written := dset n (if e = None then Some r else None) (c_written c)\<rparr>)) k = Some (Some v)"
  show "\<exists>got. io_read_int io s' k ''min'' = Some got \<and> \<bar>got - v\<bar> \<le> READBACK_TOL_RPM"
  proof (cases "k = n")
    case True
    then show ?thesis using w fan_write_lands [of n r mx s s'] assms(2) by (cases e) auto
  next
    case False
    then have "dget (c_written c) k = Some (Some v)" using w by simp
    then show ?thesis using assms(1) fan_write_frame [OF assms(2), of k "''min''"] False by (auto simp: in_sync_def)
  qed
qed

lemma in_sync_cong: "c_written c' = c_written c \<Longrightarrow> in_sync io c' s = in_sync io c s"
  by (simp add: in_sync_def)

lemma apply_fan_sync:
  assumes "in_sync io (fst (fst wc)) (fst (snd (fst wc)))"
  shows "in_sync io (fst (fst (apply_fan io now target mx reason nf wc))) (fst (snd (fst (apply_fan io now target mx reason nf wc))))"
proof -
  obtain n f c s ev ch where e: "nf = (n, f)" "wc = ((c, s, ev), ch)" by (metis surj_pair)
  show ?thesis
  proof (cases "dget (c_defaults c) n")
    case None
    then show ?thesis using assms by (simp add: apply_fan_def e)
  next
    case (Some lo)
    obtain er s' where w: "fan_write io n (fan_clamp lo (fan_max f) target mx) (fan_max f) s = (er, s')"
      by (cases "fan_write io n (fan_clamp lo (fan_max f) target mx) (fan_max f) s")
    from sync_write [OF _ w] assms have
      "in_sync io (c\<lparr>c_written := dset n (if er = None then Some (fan_clamp lo (fan_max f) target mx) else None) (c_written c)\<rparr>) s'"
      by (simp add: e)
    with Some w assms show ?thesis
      by (cases er) (auto simp: apply_fan_def e Let_def in_sync_def)
  qed
qed

lemma restore_fan_sync:
  assumes "in_sync io (fst (fst wc)) (fst (snd (fst wc)))"
  shows "in_sync io (fst (fst (restore_fan io nf wc))) (fst (snd (fst (restore_fan io nf wc))))"
proof -
  obtain n f c s ev ch ok where e: "nf = (n, f)" "wc = ((c, s, ev), ch, ok)" by (metis surj_pair)
  show ?thesis
  proof (cases "dget (c_defaults c) n")
    case None
    then show ?thesis using assms by (simp add: restore_fan_def e)
  next
    case (Some d)
    obtain er s' where w: "fan_write io n d (fan_max f) s = (er, s')" by (cases "fan_write io n d (fan_max f) s")
    from sync_write [OF _ w] assms have "in_sync io (c\<lparr>c_written := dset n (if er = None then Some d else None) (c_written c)\<rparr>) s'"
      by (simp add: e)
    with Some w assms show ?thesis
      by (cases er) (auto simp: restore_fan_def e Let_def in_sync_def READBACK_TOL_RPM_def)
  qed
qed

lemma fold_apply_sync: "in_sync io (fst (fst wc)) (fst (snd (fst wc))) \<Longrightarrow>
    in_sync io (fst (fst (fold (apply_fan io now target mx reason) fans wc))) (fst (snd (fst (fold (apply_fan io now target mx reason) fans wc))))"
  by (induction fans arbitrary: wc) (simp_all add: apply_fan_sync)

lemma fold_restore_sync: "in_sync io (fst (fst wc)) (fst (snd (fst wc))) \<Longrightarrow>
    in_sync io (fst (fst (fold (restore_fan io) fans wc))) (fst (snd (fst (fold (restore_fan io) fans wc))))"
  by (induction fans arbitrary: wc) (simp_all add: restore_fan_sync)

lemma fan_apply_sync:
  assumes "in_sync io (fst w) (fst (snd w))"
  shows "in_sync io (fst (snd (fan_apply io now target mx reason t p w))) (fst (snd (snd (fan_apply io now target mx reason t p w))))"
proof -
  obtain c s ev ch where f: "fold (apply_fan io now target mx reason) (c_fans (fst w)) (w, []) = ((c, s, ev), ch)" by (metis surj_pair)
  have "in_sync io c s" using fold_apply_sync [of "(w, [])" now target mx reason "c_fans (fst w)"] assms f by simp
  then show ?thesis by (simp add: fan_apply_def f Let_def emit_def in_sync_def)
qed

lemma fan_restore_sync:
  assumes "in_sync io (fst w) (fst (snd w))"
  shows "in_sync io (fst (snd (fan_restore io clock w))) (fst (snd (snd (fan_restore io clock w))))"
proof -
  let ?w = "((fst w)\<lparr>c_state := fan_state0, c_target_rpm := 0\<rparr>, snd w)"
  obtain c s ev r ok where f: "fold (restore_fan io) (c_fans (fst w)) (?w, [], True) = ((c, s, ev), r, ok)" by (metis surj_pair)
  have "in_sync io c s" using fold_restore_sync [of "(?w, [], True)" "c_fans (fst w)"] assms f by (simp add: in_sync_def)
  then show ?thesis by (simp add: fan_restore_def f Let_def emit_def in_sync_def)
qed

lemma fan_set_mode_sync:
  assumes "in_sync io (fst w) (fst (snd w))"
  shows "in_sync io (fst (fan_set_mode io clock mode w)) (fst (snd (fan_set_mode io clock mode w)))"
proof -
  obtain c s ev where w: "w = (c, s, ev)" by (metis surj_pair)
  let ?w = "(c\<lparr>c_mode := Some mode, c_state := fan_state0\<rparr>, s, ev @ [(''fan_mode'', [(''mode'', PStr mode)])])"
  have "in_sync io (fst ?w) (fst (snd ?w))" using assms by (simp add: w in_sync_def)
  from fan_restore_sync [OF this, of clock] this show ?thesis
    by (cases "mode = ''auto''") (simp_all add: fan_set_mode_def w emit_def Let_def set_reason_def in_sync_def)
qed

lemma fan_tick_sync:
  assumes "in_sync io (fst w) (fst (snd w))"
  shows "in_sync io (fst (fan_tick io clock now t p cfg w)) (fst (snd (fan_tick io clock now t p cfg w)))"
proof -
  define w1 where "w1 = (if c_mode (fst w) \<noteq> Some (fc_mode cfg) then fan_set_mode io clock (fc_mode cfg) w else w)"
  define w2 where "w2 = (refresh_rpm io (fst (snd w1)) (fst w1), snd w1)"
  have 1: "in_sync io (fst w1) (fst (snd w1))" using assms fan_set_mode_sync by (simp add: w1_def)
  have 2: "in_sync io (fst w2) (fst (snd w2))" using 1 by (simp add: w2_def refresh_rpm_def in_sync_def)
  obtain st target reason where d: "decide (c_state (fst w2)) t p cfg now = (st, target, reason)"
    by (cases "decide (c_state (fst w2)) t p cfg now") auto
  let ?w3 = "((fst w2)\<lparr>c_state := st, c_target_rpm := target, c_reason := reason\<rparr>, snd w2)"
  have "in_sync io (fst ?w3) (fst (snd ?w3))" using 2 by (simp add: in_sync_def)
  from fan_apply_sync [OF this] 2 show ?thesis
    unfolding fan_tick_def Let_def w1_def [symmetric] w2_def [symmetric] d prod.case
    by (simp add: set_reason_def in_sync_def)
qed

text \<open>A restore that reports success leaves every fan with a known default at it, up to the tolerance.\<close>

lemma restored_frame:
  "\<forall>k. k \<noteq> n \<longrightarrow> io_read_int io (fst (snd (fst (restore_fan io (n, f) wc)))) k ''min'' = io_read_int io (fst (snd (fst wc))) k ''min''"
proof -
  obtain c s ev ch ok where e: "wc = ((c, s, ev), ch, ok)" by (metis surj_pair)
  show ?thesis
  proof (cases "dget (c_defaults c) n")
    case None
    then show ?thesis by (simp add: restore_fan_def e)
  next
    case (Some d)
    obtain er s' where w: "fan_write io n d (fan_max f) s = (er, s')" by (cases "fan_write io n d (fan_max f) s")
    with Some fan_write_frame [OF w] show ?thesis by (cases er) (auto simp: restore_fan_def e Let_def)
  qed
qed

lemma restore_fan_ok:
  assumes "snd (snd (restore_fan io (n, f) wc))"
  shows "snd (snd wc)" "at_default io (fst (fst wc)) (fst (snd (fst (restore_fan io (n, f) wc)))) n"
    "c_defaults (fst (fst (restore_fan io (n, f) wc))) = c_defaults (fst (fst wc))"
proof -
  obtain c s ev ch ok where e: "wc = ((c, s, ev), ch, ok)" by (metis surj_pair)
  have "snd (snd wc) \<and> at_default io (fst (fst wc)) (fst (snd (fst (restore_fan io (n, f) wc)))) n \<and>
    c_defaults (fst (fst (restore_fan io (n, f) wc))) = c_defaults (fst (fst wc))"
  proof (cases "dget (c_defaults c) n")
    case None
    then show ?thesis using assms by (simp add: restore_fan_def e at_default_def)
  next
    case (Some d)
    obtain er s' where w: "fan_write io n d (fan_max f) s = (er, s')" by (cases "fan_write io n d (fan_max f) s")
    with Some assms fan_write_lands [of n d "fan_max f" s s'] show ?thesis
      by (cases er) (auto simp: restore_fan_def e Let_def at_default_def READBACK_TOL_RPM_def split: if_splits)
  qed
  then show "snd (snd wc)" "at_default io (fst (fst wc)) (fst (snd (fst (restore_fan io (n, f) wc)))) n"
    "c_defaults (fst (fst (restore_fan io (n, f) wc))) = c_defaults (fst (fst wc))" by auto
qed

lemma fold_restore_ok:
  assumes "snd (snd (fold (restore_fan io) fans wc))" "distinct (map fst fans)"
  shows "snd (snd wc) \<and> (\<forall>n \<in> fst ` set fans. at_default io (fst (fst wc)) (fst (snd (fst (fold (restore_fan io) fans wc)))) n) \<and>
    (\<forall>k. k \<notin> fst ` set fans \<longrightarrow> io_read_int io (fst (snd (fst (fold (restore_fan io) fans wc)))) k ''min'' = io_read_int io (fst (snd (fst wc))) k ''min'')"
  using assms
proof (induction fans arbitrary: wc)
  case (Cons nf fans)
  obtain n f where nf: "nf = (n, f)" by (cases nf)
  let ?w = "restore_fan io (n, f) wc"
  have IH: "snd (snd ?w)" "\<forall>k \<in> fst ` set fans. at_default io (fst (fst ?w)) (fst (snd (fst (fold (restore_fan io) fans ?w)))) k"
    "\<forall>k. k \<notin> fst ` set fans \<longrightarrow> io_read_int io (fst (snd (fst (fold (restore_fan io) fans ?w)))) k ''min'' = io_read_int io (fst (snd (fst ?w))) k ''min''"
    using Cons.IH [of ?w] Cons.prems nf by auto
  note R = restore_fan_ok [OF IH(1)]
  have n: "n \<notin> fst ` set fans" using Cons.prems nf by auto
  have "at_default io (fst (fst wc)) (fst (snd (fst (fold (restore_fan io) fans ?w)))) n"
    using R(2) IH(3) n by (simp add: at_default_def)
  moreover have "\<forall>k \<in> fst ` set fans. at_default io (fst (fst wc)) (fst (snd (fst (fold (restore_fan io) fans ?w)))) k"
    using IH(2) R(3) by (simp add: at_default_def)
  ultimately show ?case using R(1) IH(3) restored_frame [of n f wc] by (simp add: nf)
qed simp

lemma fan_restore_ok:
  assumes "fst (fan_restore io clock w)" "distinct (map fst (c_fans (fst w)))" "n \<in> fst ` set (c_fans (fst w))"
  shows "at_default io (fst w) (fst (snd (snd (fan_restore io clock w)))) n"
proof -
  let ?w = "((fst w)\<lparr>c_state := fan_state0, c_target_rpm := 0\<rparr>, snd w)"
  obtain c s ev r ok where f: "fold (restore_fan io) (c_fans (fst w)) (?w, [], True) = ((c, s, ev), r, ok)" by (metis surj_pair)
  have "ok" using assms(1) by (simp add: fan_restore_def f Let_def split: if_splits)
  with fold_restore_ok [of "c_fans (fst w)" "(?w, [], True)"] assms(2) f
  have "\<forall>n \<in> fst ` set (c_fans (fst w)). at_default io (fst ?w) s n" by simp
  with assms(3) have "at_default io (fst ?w) s n" by blast
  then have "at_default io (fst w) s n" by (simp add: at_default_def)
  then show ?thesis by (simp add: fan_restore_def f Let_def emit_def)
qed

end

section \<open>The sysfs device\<close>

text \<open>A driver is local when a write to one file leaves the others alone.\<close>

definition drv_local :: "driver \<Rightarrow> bool" where
  "drv_local drv = (\<forall>fs p v fs'. drv fs p v = Inr fs' \<longrightarrow> (\<forall>q. q \<noteq> p \<longrightarrow> fs' q = fs q))"

lemma plain_driver_local: "drv_local plain_driver"
  by (simp add: drv_local_def plain_driver_def)

lemma str_int_no_us: "CHR ''_'' \<notin> set (str_int n)"
proof -
  have "list_all is_digit (str_nat \<bar>n\<bar>)" using str_nat_digits [of "\<bar>n\<bar>"] by simp
  then have "CHR ''_'' \<notin> set (str_nat \<bar>n\<bar>)" using digit_not by (force simp: list_all_iff)
  then show ?thesis by (simp add: str_int_def abs_if split: if_splits)
qed

lemma fan_path_inj: "fan_path base n a = fan_path base k b \<longleftrightarrow> n = k \<and> a = b"
proof
  assume "fan_path base n a = fan_path base k b"
  then have e: "str_int n @ CHR ''_'' # a = str_int k @ CHR ''_'' # b"
    by (simp add: fan_path_def path_join_rel starts_with_def)
  have tw: "takeWhile (\<lambda>c. c \<noteq> CHR ''_'') (str_int m @ CHR ''_'' # x) = str_int m" for m x
    using str_int_no_us [of m] by (subst takeWhile_append2) auto
  from arg_cong [OF e, of "takeWhile (\<lambda>c. c \<noteq> CHR ''_'')"] have "str_int n = str_int k" unfolding tw .
  with e have "a = b" by simp
  moreover have "n = k" using arg_cong [OF \<open>str_int n = str_int k\<close>, of parse_int] by (simp add: parse_int_str_int)
  ultimately show "n = k \<and> a = b" by simp
qed simp

lemma read_int_cong: "fs' p = fs p \<Longrightarrow> read_int fs' p d = read_int fs p d"
  by (simp add: read_int_def read_text_def)

lemma write_text_local: "drv_local drv \<Longrightarrow> write_text drv fs p v = (e, fs') \<Longrightarrow> q \<noteq> p \<Longrightarrow> fs' q = fs q"
  by (auto simp: write_text_def drv_local_def split: sum.splits)

lemma sysfs_fan_dev:
  assumes "drv_local drv"
  shows "fan_dev (sysfs_fan_io drv hits base)"
proof
  fix s :: files and n r e s' k a
  assume w: "io_write_min (sysfs_fan_io drv hits base) s n r = (e, s')" and ne: "(k, a) \<noteq> (n, ''min'')"
  have "fan_path base k a \<noteq> fan_path base n ''min''" using ne by (simp add: fan_path_inj)
  with w have "s' (fan_path base k a) = s (fan_path base k a)"
    using write_text_local [OF assms, of s "fan_path base n ''min''"] by (simp add: sysfs_fan_io_def)
  from read_int_cong [of s' "fan_path base k a" s None, OF this] show "io_read_int (sysfs_fan_io drv hits base) s' k a = io_read_int (sysfs_fan_io drv hits base) s k a"
    by (simp add: sysfs_fan_io_def)
qed

interpretation sysfs_fans: fan_dev "sysfs_fan_io plain_driver hits base" for hits base
  by (rule sysfs_fan_dev [OF plain_driver_local])

text \<open>A run of the controller: ticks with their clock, time, temperature, power and configuration.\<close>

type_synonym fan_input = "rat \<times> rat \<times> pyval \<times> pyval \<times> fan_cfg"

definition fan_mstep :: "'s fan_io \<Rightarrow> 's fworld \<Rightarrow> fan_input \<Rightarrow> 's fworld" where
  "fan_mstep io w i = (case i of (clock, now, t, p, cfg) \<Rightarrow> fan_tick io clock now t p cfg w)"

context fan_dev
begin

lemma run_sync: "in_sync io (fst w) (fst (snd w)) \<Longrightarrow>
    in_sync io (fst (run_steps (fan_mstep io) w is)) (fst (snd (run_steps (fan_mstep io) w is)))"
proof (induction "is" arbitrary: w)
  case (Cons i "is")
  have "in_sync io (fst (fan_mstep io w i)) (fst (snd (fan_mstep io w i)))"
    using fan_tick_sync [OF Cons.prems] by (simp add: fan_mstep_def split: prod.splits)
  from Cons.IH [OF this] show ?case by simp
qed simp

end

text \<open>
  C20: over every run of the controller on a driver that only changes the file it is asked to write,
  the minimum the controller believes in force for a fan is the one the file shows, within 50 rpm,
  however the writes fail or are altered by the driver.
\<close>

theorem fan_run_in_sync:
  assumes "drv_local drv" "in_sync (sysfs_fan_io drv hits base) c fs"
    "run_steps (fan_mstep (sysfs_fan_io drv hits base)) (c, fs, ev) is = (c', fs', ev')"
    "written_of c' n = Some v"
  shows "\<exists>got. read_int fs' (fan_path base n ''min'') None = Some got \<and> \<bar>got - v\<bar> \<le> 50"
proof -
  have "in_sync (sysfs_fan_io drv hits base) c' fs'"
    using fan_dev.run_sync [OF sysfs_fan_dev [OF assms(1)], of hits base "(c, fs, ev)" "is"] assms(2,3) by simp
  moreover have "dget (c_written c') n = Some (Some v)" using assms(4) by (simp add: written_of_def split: option.splits)
  ultimately show ?thesis by (auto simp: in_sync_def sysfs_fan_io_def READBACK_TOL_RPM_def)
qed

text \<open>
  A restore that reports success leaves every fan with a known default at that default, within
  50 rpm of it on the device, on any driver that only changes the file it is asked to write.
\<close>

theorem fan_restore_success:
  assumes "drv_local drv" "fan_restore (sysfs_fan_io drv hits base) clock (c, fs, ev) = (True, c', fs', ev')"
    "distinct (map fst (c_fans c))" "n \<in> fst ` set (c_fans c)" "dget (c_defaults c) n = Some d"
  shows "\<exists>got. read_int fs' (fan_path base n ''min'') None = Some got \<and> \<bar>got - d\<bar> \<le> 50"
  using fan_dev.fan_restore_ok [OF sysfs_fan_dev [OF assms(1)], of hits base clock "(c, fs, ev)" n] assms(2-)
  by (auto simp: at_default_def sysfs_fan_io_def READBACK_TOL_RPM_def)

text \<open>A one-fan machine.\<close>

definition demo_fan_base :: "string option" where "demo_fan_base = Some ''/a''"

definition demo_ctl :: fan_ctl where
  "demo_ctl = fan_ctl0\<lparr>c_mode := Some ''floor'', c_fans := [(1, \<lparr>fan_label = ''Left'', fan_max = Some 6156, fan_rpm = None\<rparr>)],
     c_written := [(1, Some 2160)], c_defaults := [(1, 2160)]\<rparr>"

definition demo_fan_fs :: files where
  "demo_fan_fs = [fan_path demo_fan_base 1 ''min'' \<mapsto> str_int 2160]"

definition demo_fan_io :: "files fan_io" where
  "demo_fan_io = sysfs_fan_io plain_driver [] demo_fan_base"

lemma demo_io_simps:
  "io_read_int demo_fan_io fs n a = read_int fs (fan_path demo_fan_base n a) None"
  "io_write_min demo_fan_io fs n r = (None, fs(fan_path demo_fan_base n ''min'' \<mapsto> str_int r))"
  by (simp_all add: demo_fan_io_def sysfs_fan_io_def write_text_def plain_driver_def)

lemma read_int_upd: "read_int (fs(p \<mapsto> str_int n)) p d = Some n"
  by (simp add: read_int_str)

lemma demo_in_sync: "in_sync demo_fan_io demo_ctl demo_fan_fs"
  by (simp add: in_sync_def demo_ctl_def demo_io_simps demo_fan_fs_def read_int_upd READBACK_TOL_RPM_def)

lemma demo_fan_write: "r \<le> 6156 \<Longrightarrow> fan_write demo_fan_io 1 r (Some 6156) fs = (None, fs(fan_path demo_fan_base 1 ''min'' \<mapsto> str_int r))"
  by (simp add: fan_write_def demo_io_simps read_int_upd READBACK_TOL_RPM_def)

lemma demo_decide: "\<exists>st r. decide fan_state0 (PInt 85) PNone demo_fan_cfg 0 = (st, 4500, r)"
  by (simp add: decide_def power_rule_def temp_rule_def met_step_def fan_state0_def demo_fan_cfg_def step_rpm_def ladder_def Let_def)

lemma demo_tick: "written_of (fst (fan_tick demo_fan_io 0 0 (PInt 85) PNone demo_fan_cfg (demo_ctl, demo_fan_fs, []))) 1 = Some 4500"
proof -
  obtain st r where d: "decide fan_state0 (PInt 85) PNone demo_fan_cfg 0 = (st, 4500, r)" using demo_decide by blast
  have m: "fc_mode demo_fan_cfg = ''floor''" "fc_max_rpm demo_fan_cfg = 5900" by (simp_all add: demo_fan_cfg_def)
  show ?thesis
    by (simp add: fan_tick_def demo_ctl_def fan_ctl0_def m d Let_def refresh_rpm_def fan_apply_def apply_fan_def fan_clamp_def
        written_of_def demo_fan_write emit_def)
qed

theorem fan_run_in_sync_witness:
  "\<exists>got. read_int (fst (snd (run_steps (fan_mstep demo_fan_io) (demo_ctl, demo_fan_fs, []) [(0, 0, PInt 85, PNone, demo_fan_cfg)])))
     (fan_path demo_fan_base 1 ''min'') None = Some got \<and> \<bar>got - 4500\<bar> \<le> 50"
proof -
  obtain c' fs' ev' where t: "fan_tick demo_fan_io 0 0 (PInt 85) PNone demo_fan_cfg (demo_ctl, demo_fan_fs, []) = (c', fs', ev')"
    by (metis surj_pair)
  have r: "run_steps (fan_mstep demo_fan_io) (demo_ctl, demo_fan_fs, []) [(0, 0, PInt 85, PNone, demo_fan_cfg)] = (c', fs', ev')"
    by (simp add: fan_mstep_def t)
  have "written_of c' 1 = Some 4500" using demo_tick by (simp add: t)
  from fan_run_in_sync [OF plain_driver_local demo_in_sync [unfolded demo_fan_io_def] r [unfolded demo_fan_io_def] this]
  show ?thesis using r by simp
qed

theorem fan_restore_success_witness:
  "\<exists>got. read_int (fst (snd (snd (fan_restore demo_fan_io 0 (demo_ctl, demo_fan_fs(fan_path demo_fan_base 1 ''min'' \<mapsto> str_int 4500), [])))))
     (fan_path demo_fan_base 1 ''min'') None = Some got \<and> \<bar>got - 2160\<bar> \<le> 50"
proof -
  let ?w = "(demo_ctl, demo_fan_fs(fan_path demo_fan_base 1 ''min'' \<mapsto> str_int 4500), [])"
  obtain ok c' fs' ev' where t: "fan_restore demo_fan_io 0 ?w = (ok, c', fs', ev')" by (metis surj_pair)
  have "fst (fan_restore demo_fan_io 0 ?w)"
    by (simp add: fan_restore_def demo_ctl_def fan_ctl0_def restore_fan_def demo_io_simps read_int_upd demo_fan_write Let_def emit_def)
  then have t': "fan_restore demo_fan_io 0 ?w = (True, c', fs', ev')" using t by simp
  have "distinct (map fst (c_fans demo_ctl))" "1 \<in> fst ` set (c_fans demo_ctl)" "dget (c_defaults demo_ctl) 1 = Some 2160"
    by (simp_all add: demo_ctl_def)
  from fan_restore_success [OF plain_driver_local t' [unfolded demo_fan_io_def] this] show ?thesis by (simp add: t)
qed

end
