(* ===== verification/Gpu.thy ===== *)
theory Gpu
  imports Sysfs Py_Text
begin

text \<open>
  \<open>daemon/gpu.py\<close>: telemetry and power mode of the discrete GPU. The files, the globbing and the
  driver are parameters; every operation returns the new file system, so that the order of the
  writes is part of the model. \<open>real\<close> is \<open>os.path.realpath\<close>; \<open>sleep\<close> is what happens to the files
  while the code waits.
\<close>

definition LOW_CAP_W :: rat where "LOW_CAP_W = 10"

section \<open>Parsing\<close>

record switch_entry =
  sw_id :: pyval
  sw_active :: bool
  sw_power :: string
  sw_pci :: "string option"

definition switch_line :: "string list \<Rightarrow> switch_entry" where
  "switch_line parts =
    \<lparr>sw_id = (let p = parts ! 0 in if p \<noteq> [] \<and> list_all is_digit p then PInt (digits_val p) else PStr p),
     sw_active = (parts ! 2 = ''+''), sw_power = parts ! 3,
     sw_pci = (if 4 < length parts then Some (parts ! 4) else None)\<rparr>"

definition parse_switcheroo :: "string option \<Rightarrow> (string \<times> switch_entry) list option" where
  "parse_switcheroo txt = map_option (\<lambda>t.
     fold (\<lambda>line out. let parts = split_max CHR '':'' 4 (strip line) in
       if length parts < 4 then out else dset (parts ! 1) (switch_line parts) out) (splitlines t) []) txt"

fun first_star :: "string list \<Rightarrow> string option" where
  "first_star [] = None"
| "first_star (l # ls) = (if ends_with ''*'' (strip l) then Some l else first_star ls)"

definition parse_sclk :: "string option \<Rightarrow> int option" where
  "parse_sclk txt =
    (case first_star (splitlines (case txt of Some t \<Rightarrow> t | None \<Rightarrow> [])) of
       None \<Rightarrow> None
     | Some l \<Rightarrow> (let d = List.filter is_digit (last (split_max CHR '':'' 1 l)) in if d = [] then None else Some (digits_val d)))"

section \<open>State and telemetry\<close>

record gpu =
  gp_dev :: "string option"
  gp_hwmon :: "string option"
  gp_pci :: "string option"
  gp_mode :: "string option"
  gp_busy :: bool

text \<open>The environment of the operations.\<close>

record gpu_env =
  ge_paths :: paths
  ge_glob :: "files \<Rightarrow> globber"
  ge_real :: "string \<Rightarrow> string"
  ge_drv :: driver

definition base_name :: "string \<Rightarrow> string" where
  "base_name p = last (split_char CHR ''/'' p)"

definition gpu_find :: "gpu_env \<Rightarrow> files \<Rightarrow> gpu \<Rightarrow> gpu \<times> bool" where
  "gpu_find env fs g =
    (case List.find (\<lambda>crd. read_text fs (path_join crd ''vendor'') None = Some ''0x1002'')
        (sort (ge_glob env fs (path_join (path_join (p_drm (ge_paths env)) ''card*'') ''device''))) of
       None \<Rightarrow> (g, False)
     | Some crd \<Rightarrow>
         (g\<lparr>gp_dev := Some crd,
            gp_hwmon := (case sort (ge_glob env fs (path_join (path_join crd ''hwmon'') ''hwmon*'')) of [] \<Rightarrow> None | h # _ \<Rightarrow> Some h),
            gp_pci := Some (base_name (ge_real env crd))\<rparr>, True))"

definition switcheroo :: "gpu_env \<Rightarrow> files \<Rightarrow> (string \<times> switch_entry) list option" where
  "switcheroo env fs = parse_switcheroo (read_text fs (p_switcheroo (ge_paths env)) None)"

definition dis_off :: "gpu_env \<Rightarrow> files \<Rightarrow> bool" where
  "dis_off env fs = (case switcheroo env fs of
     None \<Rightarrow> False | Some sw \<Rightarrow> (case dget sw ''DIS'' of None \<Rightarrow> False | Some e \<Rightarrow> sw_power e = ''Off''))"

definition gpu_init :: "gpu_env \<Rightarrow> files \<Rightarrow> gpu" where
  "gpu_init env fs =
    (let g = fst (gpu_find env fs \<lparr>gp_dev = None, gp_hwmon = None, gp_pci = None, gp_mode = None, gp_busy = False\<rparr>)
     in if dis_off env fs then g\<lparr>gp_mode := Some ''off''\<rparr> else g)"

definition none_or :: "string option \<Rightarrow> string \<Rightarrow> string" where
  "none_or x dflt = (case x of Some s \<Rightarrow> or_str s dflt | None \<Rightarrow> dflt)"

definition gpu_d :: "gpu \<Rightarrow> string \<Rightarrow> string" where
  "gpu_d g name = path_join (none_or (gp_dev g) ''/nonexistent-amdgpu'') name"

definition gpu_h :: "gpu \<Rightarrow> string \<Rightarrow> string" where
  "gpu_h g name = path_join (none_or (gp_hwmon g) ''/nonexistent-amdgpu-hwmon'') name"

definition has_str :: "string option \<Rightarrow> bool" where
  "has_str x = (x \<noteq> None \<and> x \<noteq> Some [])"

definition power_state :: "files \<Rightarrow> gpu \<Rightarrow> string option" where
  "power_state fs g = (if has_str (gp_dev g) then read_text fs (gpu_d g ''power_state'') None else None)"

definition ostr :: "string option \<Rightarrow> pyval" where
  "ostr x = (case x of Some s \<Rightarrow> PStr s | None \<Rightarrow> PNone)"

definition uw :: "files \<Rightarrow> gpu \<Rightarrow> string \<Rightarrow> pyval" where
  "uw fs g name = (case read_int fs (gpu_h g name) None of Some v \<Rightarrow> PFloat (Fin (fdiv (fl (of_int v)) 1000000)) | None \<Rightarrow> PNone)"

definition oint_val :: "int option \<Rightarrow> pyval" where
  "oint_val x = (case x of Some n \<Rightarrow> PInt n | None \<Rightarrow> PNone)"

definition gpu_base :: "gpu_env \<Rightarrow> files \<Rightarrow> gpu \<Rightarrow> pyval dict" where
  "gpu_base env fs g =
    [(''mode'', ostr (gp_mode g)), (''present'', PBool (gp_dev g \<noteq> None)), (''power_state'', ostr (power_state fs g))]
    @ (case switcheroo env fs of
         None \<Rightarrow> []
       | Some sw \<Rightarrow> [(''switcheroo'', PDict (map (\<lambda>(k, v). (k, PStr ((if sw_active v then ''+'' else '' '') @ '':'' @ sw_power v))) sw))])"

definition gpu_read :: "gpu_env \<Rightarrow> files \<Rightarrow> gpu \<Rightarrow> pyval dict" where
  "gpu_read env fs g =
    (if gp_mode g = Some ''off'' \<or> gp_busy g \<or> \<not> has_str (gp_dev g) then gpu_base env fs g
     else gpu_base env fs g @
       [(''power_w'', if fs (gpu_h g ''power1_input'') \<noteq> None then uw fs g ''power1_input'' else uw fs g ''power1_average''),
        (''cap_w'', uw fs g ''power1_cap''), (''cap_min_w'', uw fs g ''power1_cap_min''), (''cap_max_w'', uw fs g ''power1_cap_max''),
        (''temp_c'', case read_int fs (gpu_h g ''temp1_input'') None of Some t \<Rightarrow> PFloat (Fin (fdiv (fl (of_int t)) 1000)) | None \<Rightarrow> PNone),
        (''busy_pct'', oint_val (read_int fs (gpu_d g ''gpu_busy_percent'') None)),
        (''sclk_mhz'', oint_val (parse_sclk (read_text fs (gpu_d g ''pp_dpm_sclk'') None))),
        (''dpm_level'', ostr (read_text fs (gpu_d g ''power_dpm_force_performance_level'') None)),
        (''runtime_status'', ostr (read_text fs (gpu_d g ''power/runtime_status'') None))])"

section \<open>Control\<close>

definition fbcon_bind :: "gpu_env \<Rightarrow> string \<Rightarrow> files \<Rightarrow> string option \<times> files" where
  "fbcon_bind env val fs =
    (case List.find (\<lambda>vt. substr_of ''frame buffer'' (case read_text fs (path_join vt ''name'') (Some []) of Some t \<Rightarrow> t | None \<Rightarrow> []))
        (sort (ge_glob env fs (path_join (p_vtconsole (ge_paths env)) ''vtcon*''))) of
       Some vt \<Rightarrow> write_text (ge_drv env) fs (path_join vt ''bind'') val
     | None \<Rightarrow> (Some ''no frame buffer vtconsole found'', fs))"

definition step_msg :: "string \<Rightarrow> string option \<Rightarrow> string" where
  "step_msg s err = s @ (case err of Some e \<Rightarrow> '' FAILED: '' @ e | None \<Rightarrow> [])"

type_synonym gsteps = "files \<times> string list"

definition or_default :: "int option \<Rightarrow> int \<Rightarrow> int" where
  "or_default x d = (case x of Some n \<Rightarrow> if n = 0 then d else n | None \<Rightarrow> d)"

definition gpu_cap :: "files \<Rightarrow> gpu \<Rightarrow> rat \<Rightarrow> rat" where
  "gpu_cap fs g cap_w =
    (let lo = fdiv (fl (of_int (or_default (read_int fs (gpu_h g ''power1_cap_min'') None) 0))) 1000000;
         hi = fdiv (fl (of_int (or_default (read_int fs (gpu_h g ''power1_cap_max'') None) 35000000))) 1000000
     in min (max cap_w lo) hi)"

definition set_cap_dpm :: "gpu_env \<Rightarrow> gpu \<Rightarrow> rat \<Rightarrow> string \<Rightarrow> gsteps \<Rightarrow> string option \<times> gsteps" where
  "set_cap_dpm env g cap_w level w =
    (let (fs, steps) = w; cap = gpu_cap fs g cap_w; v = str_int (round_even (fmul cap 1000000)) in
     case write_text (ge_drv env) fs (gpu_h g ''power1_cap'') v of
       (Some err, fs) \<Rightarrow> (Some err, fs, steps @ [step_msg (''write '' @ v @ '' -> power1_cap'') (Some err)])
     | (None, fs) \<Rightarrow>
         (let steps = steps @ [''write '' @ v @ '' -> power1_cap''] in
          case write_text (ge_drv env) fs (gpu_d g ''power_dpm_force_performance_level'') level of
            (Some err, fs) \<Rightarrow>
              (Some err, fs, steps @ [step_msg (''write '' @ level @ '' -> power_dpm_force_performance_level'') (Some err)])
          | (None, fs) \<Rightarrow>
              (let steps = steps @ [''write '' @ level @ '' -> power_dpm_force_performance_level''];
                   got = read_int fs (gpu_h g ''power1_cap'') None;
                   lvl = read_text fs (gpu_d g ''power_dpm_force_performance_level'') None
               in (if (case got of None \<Rightarrow> True | Some n \<Rightarrow> 1000000 \<le> \<bar>fsub (fl (of_int n)) (fmul cap 1000000)\<bar>) then
                     Some (''power1_cap reads '' @ (case got of Some n \<Rightarrow> str_int n | None \<Rightarrow> ''None'') @ '', wanted '' @ fmt_g cap @ '' W'')
                   else if lvl \<noteq> Some level then
                     Some (''dpm level reads '' @ (case lvl of Some l \<Rightarrow> l | None \<Rightarrow> ''None'') @ '', wanted '' @ level)
                   else None, fs, steps))))"

definition switch_write :: "gpu_env \<Rightarrow> string \<Rightarrow> gsteps \<Rightarrow> string option \<times> gsteps" where
  "switch_write env cmd w =
    (case write_text (ge_drv env) (fst w) (p_switcheroo (ge_paths env)) cmd of
       (err, fs) \<Rightarrow> (err, fs, snd w @ [step_msg (''switcheroo '' @ cmd) err]))"

definition bind_step :: "gpu_env \<Rightarrow> string \<Rightarrow> string \<Rightarrow> gsteps \<Rightarrow> string option \<times> gsteps" where
  "bind_step env val name w = (case fbcon_bind env val (fst w) of (err, fs) \<Rightarrow> (err, fs, snd w @ [step_msg name err]))"

definition power_on :: "gpu_env \<Rightarrow> gsteps \<Rightarrow> gsteps" where
  "power_on env w = snd (bind_step env ''1'' ''fbcon bind'' (snd (switch_write env ''DIS'' (snd (switch_write env ''ON'' w)))))"

definition apply_on :: "gpu_env \<Rightarrow> string \<Rightarrow> rat \<Rightarrow> gpu \<times> gsteps \<Rightarrow> string option \<times> gpu \<times> gsteps" where
  "apply_on env mode cap_w gw =
    (let (g, w) = gw;
         w = (if dis_off env (fst w) then power_on env w else w);
         (g, found) = (if has_str (gp_dev g) \<and> has_str (gp_hwmon g) then (g, True) else gpu_find env (fst w) g)
     in if \<not> found then (Some ''amdgpu device not found'', g, w)
        else if \<not> has_str (gp_hwmon g) then (Some ''amdgpu hwmon not found'', g, w)
        else (case set_cap_dpm env g (if mode = ''low'' then LOW_CAP_W else cap_w) (if mode = ''low'' then ''low'' else ''auto'') w of
                (err, w) \<Rightarrow> (err, g, w)))"

text \<open>What a failed power-off has already done: the second component of the result.\<close>

datatype off_done = NothingDone | FbconDone | SwitcherooDone

definition verify_off :: "gpu_env \<Rightarrow> gpu \<Rightarrow> string \<Rightarrow> gsteps \<Rightarrow> string option \<times> gsteps" where
  "verify_off env g phase w =
    (if \<not> dis_off env (fst w) then (Some (''switcheroo does not report DIS Off ('' @ phase @ '')''), w)
     else (let ps = power_state (fst w) g in
       if ps = Some ''D0'' then (Some (''PCI power_state still D0 ('' @ phase @ '')''), w)
       else (None, fst w, snd w @ [''verified '' @ phase @ '': DIS Off, power_state '' @ none_or ps ''n/a''])))"

definition apply_off :: "gpu_env \<Rightarrow> (files \<Rightarrow> files) \<Rightarrow> rat \<Rightarrow> gpu \<Rightarrow> gsteps \<Rightarrow> string option \<times> off_done \<times> gsteps" where
  "apply_off env sleep wait_s g w =
    (case switcheroo env (fst w) of
       None \<Rightarrow> (Some ''vga_switcheroo not available (is debugfs mounted?)'', NothingDone, w)
     | Some sw \<Rightarrow>
         if \<not> dhas sw ''DIS'' \<or> \<not> dhas sw ''IGD'' then (Some ''vga_switcheroo not available (is debugfs mounted?)'', NothingDone, w)
         else if dis_off env (fst w) then (None, NothingDone, fst w, snd w @ [''already off''])
         else
           (case bind_step env ''0'' ''fbcon unbind'' w of
              (Some err, w) \<Rightarrow> (Some (''fbcon unbind: '' @ err), NothingDone, w)
            | (None, w) \<Rightarrow>
                (case switch_write env ''IGD'' w of
                   (Some err, w) \<Rightarrow> (Some (''switcheroo IGD: '' @ err), SwitcherooDone, w)
                 | (None, w) \<Rightarrow>
                     (case switch_write env ''OFF'' w of
                        (Some err, w) \<Rightarrow> (Some (''switcheroo OFF: '' @ err), SwitcherooDone, w)
                      | (None, w) \<Rightarrow>
                          (case verify_off env g ''immediate'' w of
                             (Some err, w) \<Rightarrow> (Some err, SwitcherooDone, w)
                           | (None, w) \<Rightarrow>
                               (case verify_off env g (''after '' @ fmt_g wait_s @ '' s'') (sleep (fst w), snd w) of
                                  (err, w) \<Rightarrow> (err, SwitcherooDone, w)))))))"

record gpu_result =
  gr_ok :: bool
  gr_mode :: string
  gr_reason :: string
  gr_steps :: "string list"

definition apply_mode :: "gpu_env \<Rightarrow> (files \<Rightarrow> files) \<Rightarrow> string \<Rightarrow> rat \<Rightarrow> rat \<Rightarrow> gpu \<times> files \<Rightarrow> gpu_result \<times> gpu \<times> files" where
  "apply_mode env sleep mode cap_w wait_s gf =
    (let (g, fs) = gf;
         g = (if has_str (gp_dev g) \<and> has_str (gp_hwmon g) then g else fst (gpu_find env fs g))
     in if mode = ''off'' then
          (case apply_off env sleep wait_s g (fs, []) of
             (None, _, fs, steps) \<Rightarrow>
               (\<lparr>gr_ok = True, gr_mode = ''off'', gr_reason = ''dGPU off (switcheroo DIS Off)'', gr_steps = steps\<rparr>,
                g\<lparr>gp_mode := Some ''off''\<rparr>, fs)
           | (Some res, done, fs, steps) \<Rightarrow>
               (let w = (fs, steps @ [''off failed: '' @ res @ ''; reverting to low'']);
                    w = (case done of SwitcherooDone \<Rightarrow> power_on env w
                         | FbconDone \<Rightarrow> snd (bind_step env ''1'' ''fbcon bind'' w) | NothingDone \<Rightarrow> w)
                in case apply_on env ''low'' cap_w (g, w) of
                     (err, g, fs, steps) \<Rightarrow>
                       (\<lparr>gr_ok = False, gr_mode = ''low'',
                         gr_reason = res @ (case err of Some e \<Rightarrow> ''; revert: '' @ e | None \<Rightarrow> []), gr_steps = steps\<rparr>,
                        g\<lparr>gp_mode := Some ''low''\<rparr>, fs)))
        else
          (case apply_on env mode cap_w (g, fs, []) of
             (err, g, fs, steps) \<Rightarrow>
               (\<lparr>gr_ok = (err = None), gr_mode = mode, gr_reason = (case err of Some e \<Rightarrow> e | None \<Rightarrow> mode @ '' applied''),
                 gr_steps = steps\<rparr>, g\<lparr>gp_mode := Some mode\<rparr>, fs)))"

section \<open>Properties\<close>

lemma read_text_cong: "fs' p = fs p \<Longrightarrow> read_text fs' p d = read_text fs p d"
  by (simp add: read_text_def)

text \<open>
  C22: while the mode is off (or a mode change runs) the telemetry depends on two files only, the
  switcheroo file and the PCI power state: nothing that could wake the powered-down GPU is read.
\<close>

theorem gpu_read_off_quiet:
  assumes "gp_mode g = Some ''off'' \<or> gp_busy g"
    "fs' (p_switcheroo (ge_paths env)) = fs (p_switcheroo (ge_paths env))"
    "fs' (gpu_d g ''power_state'') = fs (gpu_d g ''power_state'')"
  shows "gpu_read env fs' g = gpu_read env fs g"
proof -
  have 1: "power_state fs' g = power_state fs g"
    using read_text_cong [of fs' "gpu_d g ''power_state''" fs None, OF assms(3)] by (simp add: power_state_def)
  have 2: "switcheroo env fs' = switcheroo env fs"
    using read_text_cong [of fs' "p_switcheroo (ge_paths env)" fs None, OF assms(2)] by (simp add: switcheroo_def)
  have "gpu_read env f g = gpu_base env f g" for f using assms(1) by (auto simp: gpu_read_def)
  moreover have "gpu_base env fs' g = gpu_base env fs g" by (simp add: gpu_base_def 1 2)
  ultimately show ?thesis by simp
qed

lemma verify_off_ok: "verify_off env g phase w = (None, w') \<Longrightarrow> fst w' = fst w \<and> dis_off env (fst w) \<and> power_state (fst w) g \<noteq> Some ''D0''"
  by (auto simp: verify_off_def Let_def split: if_splits)

lemma apply_off_ok:
  assumes "apply_off env sleep wait_s g w = (None, d, w')"
  shows "dis_off env (fst w') \<and> (\<not> dis_off env (fst w) \<longrightarrow> power_state (fst w') g \<noteq> Some ''D0'')"
proof -
  obtain sw where sw: "switcheroo env (fst w) = Some sw" using assms by (cases "switcheroo env (fst w)") (auto simp: apply_off_def)
  obtain e1 w1 where 1: "bind_step env ''0'' ''fbcon unbind'' w = (e1, w1)" by (metis surj_pair)
  obtain e2 w2 where 2: "switch_write env ''IGD'' w1 = (e2, w2)" by (metis surj_pair)
  obtain e3 w3 where 3: "switch_write env ''OFF'' w2 = (e3, w3)" by (metis surj_pair)
  obtain e4 w4 where 4: "verify_off env g ''immediate'' w3 = (e4, w4)" by (metis surj_pair)
  obtain e5 w5 where 5: "verify_off env g (''after '' @ fmt_g wait_s @ '' s'') (sleep (fst w4), snd w4) = (e5, w5)" by (metis surj_pair)
  show ?thesis
  proof (cases "dis_off env (fst w)")
    case True
    with assms sw show ?thesis by (auto simp: apply_off_def split: if_splits)
  next
    case False
    with assms sw 1 2 3 4 5 have "e5 = None" "w' = w5"
      by (cases e1; cases e2; cases e3; cases e4; simp add: apply_off_def split: if_splits)+
    with verify_off_ok [of env g _ _ w5] 5 show ?thesis by (metis fst_conv)
  qed
qed


text \<open>A mode that is reported applied reads back: the power cap within 1 W of the clamped request, and the level.\<close>

lemma set_cap_dpm_ok:
  assumes "set_cap_dpm env g cap_w level (fs, st) = (None, fs', st')"
  shows "read_text fs' (gpu_d g ''power_dpm_force_performance_level'') None = Some level \<and>
    (\<exists>n. read_int fs' (gpu_h g ''power1_cap'') None = Some n \<and> \<bar>fsub (fl (of_int n)) (fmul (gpu_cap fs g cap_w) 1000000)\<bar> < 1000000)"
proof -
  let ?v = "str_int (round_even (fmul (gpu_cap fs g cap_w) 1000000))"
  obtain e1 fs1 where 1: "write_text (ge_drv env) fs (gpu_h g ''power1_cap'') ?v = (e1, fs1)" by (metis surj_pair)
  obtain e2 fs2 where 2: "write_text (ge_drv env) fs1 (gpu_d g ''power_dpm_force_performance_level'') level = (e2, fs2)" by (metis surj_pair)
  have "e1 = None" using assms 1 by (cases e1) (auto simp: set_cap_dpm_def Let_def)
  moreover have "e2 = None" using assms 1 2 calculation by (cases e2) (auto simp: set_cap_dpm_def Let_def)
  ultimately show ?thesis using assms 1 2 by (auto simp: set_cap_dpm_def Let_def split: if_splits option.splits)
qed

text \<open>A machine with one discrete GPU behind a switcheroo that obeys.\<close>

definition demo_switch :: "string \<Rightarrow> string" where
  "demo_switch pwr = ''0:IGD:+:Pwr:0000:00:02.0'' @ [CHR 0x0A] @ ''1:DIS: :'' @ pwr @ '':0000:01:00.0''"

definition demo_gpu_driver :: driver where
  "demo_gpu_driver fs p v =
    Inr (if p = ''/sys/kernel/debug/vgaswitcheroo/switch'' then
           (if v = ''OFF'' then fs(p \<mapsto> demo_switch ''Off'', ''/g/power_state'' \<mapsto> ''D3cold'') else fs)
         else fs(p \<mapsto> v))"

definition demo_gpu_env :: gpu_env where
  "demo_gpu_env = \<lparr>ge_paths = paths_init ''/'' [] [] [],
     ge_glob = (\<lambda>fs pat. if pat = ''/sys/class/drm/card*/device'' then [''/g''] else if pat = ''/g/hwmon/hwmon*'' then [''/g/h'']
       else if pat = ''/sys/class/vtconsole/vtcon*'' then [''/v''] else []),
     ge_real = (\<lambda>p. p), ge_drv = demo_gpu_driver\<rparr>"

definition demo_gpu_fs :: files where
  "demo_gpu_fs = [''/sys/kernel/debug/vgaswitcheroo/switch'' \<mapsto> demo_switch ''Pwr'', ''/g/vendor'' \<mapsto> ''0x1002'',
     ''/g/power_state'' \<mapsto> ''D0'', ''/v/name'' \<mapsto> ''(M) frame buffer device'']"

definition demo_gpu :: gpu where
  "demo_gpu = \<lparr>gp_dev = Some ''/g'', gp_hwmon = Some ''/g/h'', gp_pci = None, gp_mode = Some ''auto'', gp_busy = False\<rparr>"


theorem gpu_read_off_quiet_witness:
  "gpu_read demo_gpu_env (demo_gpu_fs(''/g/h/power1_average'' \<mapsto> ''9000000'')) (demo_gpu\<lparr>gp_mode := Some ''off''\<rparr>)
     = gpu_read demo_gpu_env demo_gpu_fs (demo_gpu\<lparr>gp_mode := Some ''off''\<rparr>)"
proof (rule gpu_read_off_quiet)
  show "(demo_gpu_fs(''/g/h/power1_average'' \<mapsto> ''9000000'')) (p_switcheroo (ge_paths demo_gpu_env)) = demo_gpu_fs (p_switcheroo (ge_paths demo_gpu_env))"
    by code_simp
  show "(demo_gpu_fs(''/g/h/power1_average'' \<mapsto> ''9000000'')) (gpu_d (demo_gpu\<lparr>gp_mode := Some ''off''\<rparr>) ''power_state'')
      = demo_gpu_fs (gpu_d (demo_gpu\<lparr>gp_mode := Some ''off''\<rparr>) ''power_state'')"
    by code_simp
qed simp

end
