(* ===== verification/Cpu.thy ===== *)
theory Cpu
  imports Sysfs Py_Text
begin

text \<open>
  \<open>daemon/cpu.py\<close>: temperatures, frequencies, load, throttle counters and the busiest processes, and
  the \<open>cpu.*\<close> settings. Malformed kernel text raises, as in the source: such results are of type \<open>res\<close>.
  \<open>scan\<close> gives the entries of \<open>/proc\<close> with their \<open>stat\<close> text (\<open>None\<close> for an entry that cannot be read).
\<close>

definition TOP_EVERY_S :: rat where "TOP_EVERY_S = 5"

definition find_hwmon :: "globber \<Rightarrow> files \<Rightarrow> string \<Rightarrow> string \<Rightarrow> string option" where
  "find_hwmon glob fs hroot name = List.find (\<lambda>d. read_text fs (path_join d ''name'') None = Some name) (sort (glob (path_join hroot ''hwmon*'')))"

definition int_res :: "string \<Rightarrow> int res" where
  "int_res s = (case parse_int s of Some n \<Rightarrow> Inr n | None \<Rightarrow> Inl (ValueError (''invalid literal for int() with base 10: '' @ s)))"

fun map_res :: "('a \<Rightarrow> 'b res) \<Rightarrow> 'a list \<Rightarrow> 'b list res" where
  "map_res f [] = Inr []"
| "map_res f (x # xs) = res_bind (f x) (\<lambda>y. res_bind (map_res f xs) (\<lambda>ys. Inr (y # ys)))"

text \<open>One line of \<open>/proc/stat\<close>: the name with (busy, total) ticks.\<close>

definition stat_line :: "string \<Rightarrow> (string \<times> int \<times> int) res" where
  "stat_line line =
    (let parts = words line in
     res_bind (map_res int_res (take 8 (drop 1 parts))) (\<lambda>vals.
       if length vals < 4 then Inl (IndexError ''list index out of range'')
       else let tot = sum_list vals; idle = vals ! 3 + (if 4 < length vals then vals ! 4 else 0)
            in Inr (parts ! 0, tot - idle, tot)))"

fun stat_lines :: "string list \<Rightarrow> (string \<times> int \<times> int) list \<Rightarrow> (string \<times> int \<times> int) list res" where
  "stat_lines [] out = Inr out"
| "stat_lines (l # ls) out =
    (if starts_with ''cpu'' l then res_bind (stat_line l) (\<lambda>e. stat_lines ls (dset (fst e) (snd e) out)) else stat_lines ls out)"

definition parse_proc_stat :: "string \<Rightarrow> (string \<times> int \<times> int) list res" where
  "parse_proc_stat txt = stat_lines (splitlines txt) []"

definition milli :: "files \<Rightarrow> string \<Rightarrow> rat option" where
  "milli fs p = map_option (\<lambda>v. fdiv (fl (of_int v)) 1000) (read_int fs p None)"

section \<open>The reader\<close>

record cpu_reader =
  cr_paths :: paths
  cr_top_n :: nat
  cr_top_every_s :: rat
  cr_coretemp :: "string option"
  cr_nvme :: "string option"
  cr_pkg_zone :: "string option"
  cr_cpus :: "string list"
  cr_coretemp_sensors :: "(string \<times> string) list option"
  cr_stat_prev :: "(string \<times> int \<times> int) list option"
  cr_procs_prev :: "(int \<times> int) list"
  cr_procs_t :: "rat option"
  cr_top_cache :: "pyval list"
  cr_hz :: int

definition cr_pstate :: "cpu_reader \<Rightarrow> string" where
  "cr_pstate c = path_join (p_cpu (cr_paths c)) ''intel_pstate''"

definition base_of :: "string \<Rightarrow> string" where
  "base_of p = last (split_char CHR ''/'' p)"

text \<open>The names that match \<open>cpu[0-9]*\<close> end in the number they are sorted by; \<open>hz\<close> is the clock tick rate.\<close>

definition cpu_init :: "globber \<Rightarrow> files \<Rightarrow> paths \<Rightarrow> nat \<Rightarrow> rat \<Rightarrow> int \<Rightarrow> cpu_reader" where
  "cpu_init glob fs p top_n top_every hz =
    \<lparr>cr_paths = p, cr_top_n = top_n, cr_top_every_s = top_every,
     cr_coretemp = find_hwmon glob fs (p_hwmon p) ''coretemp'', cr_nvme = find_hwmon glob fs (p_hwmon p) ''nvme'',
     cr_pkg_zone = List.find (\<lambda>z. read_text fs (path_join z ''type'') None = Some ''x86_pkg_temp'') (rev (sort (glob (path_join (p_thermal p) ''thermal_zone*'')))),
     cr_cpus = sort_key (\<lambda>c. digits_val (drop 3 (base_of c))) (glob (path_join (p_cpu p) ''cpu[0-9]*'')),
     cr_coretemp_sensors = None, cr_stat_prev = None, cr_procs_prev = [], cr_procs_t = None, cr_top_cache = [], cr_hz = hz\<rparr>"

text \<open>\<open>s.replace(a, b)\<close> for a non-empty \<open>a\<close>, left to right.\<close>

function replace_str :: "string \<Rightarrow> string \<Rightarrow> string \<Rightarrow> string" where
  "replace_str a b s =
    (case s of [] \<Rightarrow> [] | c # r \<Rightarrow>
       if a \<noteq> [] \<and> starts_with a s then b @ replace_str a b (drop (length a) s) else c # replace_str a b r)"
  by pat_completeness auto
termination
  by (relation "measure (\<lambda>(a, b, s). length s)") auto

declare replace_str.simps [simp del]

definition coretemp :: "globber \<Rightarrow> files \<Rightarrow> cpu_reader \<Rightarrow> (string \<times> string) list \<times> cpu_reader" where
  "coretemp glob fs c =
    (case (cr_coretemp_sensors c, cr_coretemp c) of
       (None, Some d) \<Rightarrow> if d = [] then ([], c) else
         (let found = map (\<lambda>p. (p, case read_text fs (replace_str ''_input'' ''_label'' p) (Some []) of
                Some l \<Rightarrow> or_str l (base_of p) | None \<Rightarrow> base_of p)) (sort (glob (path_join d ''temp*_input'')))
          in (found, if found = [] then c else c\<lparr>cr_coretemp_sensors := Some found\<rparr>))
     | (Some found, _) \<Rightarrow> (found, c)
     | (None, None) \<Rightarrow> ([], c))"

definition orat :: "rat option \<Rightarrow> pyval" where
  "orat x = (case x of Some r \<Rightarrow> PFloat (Fin r) | None \<Rightarrow> PNone)"

definition temps :: "globber \<Rightarrow> files \<Rightarrow> cpu_reader \<Rightarrow> pyval dict \<times> cpu_reader" where
  "temps glob fs c =
    (let (sensors, c) = (if cr_coretemp c = None \<or> cr_coretemp c = Some [] then ([], c) else coretemp glob fs c);
         (cores, pkg) = fold (\<lambda>(p, label) (cores, pkg).
             if starts_with ''Package'' label then (cores, [(''pkg_c'', orat (milli fs p))])
             else (dset (replace_str ''Core '' ''c'' label) (orat (milli fs p)) cores, pkg)) sensors ([], [])
     in ([(''cores'', PDict cores)] @ pkg
         @ (case cr_pkg_zone c of Some z \<Rightarrow> [(''x86_pkg_c'', orat (milli fs (path_join z ''temp'')))] | None \<Rightarrow> [])
         @ (case cr_nvme c of Some n \<Rightarrow> [(''nvme_c'', orat (milli fs (path_join n ''temp1_input'')))] | None \<Rightarrow> []), c))"

text \<open>The share of busy ticks between two readings, in percent.\<close>

definition pct :: "int \<times> int \<Rightarrow> int \<times> int \<Rightarrow> rat option" where
  "pct prev cur =
    (let db = fst cur - fst prev; dt = snd cur - snd prev
     in if 0 < dt then Some (py_round 1 (fdiv (fmul 100 (fl (of_int db))) (fl (of_int dt)))) else None)"

definition pct_of :: "(string \<times> int \<times> int) list \<Rightarrow> (string \<times> int \<times> int) list \<Rightarrow> string \<Rightarrow> rat option" where
  "pct_of prev cur name = (case (dget prev name, dget cur name) of (Some p, Some q) \<Rightarrow> pct p q | _ \<Rightarrow> None)"

definition busy :: "files \<Rightarrow> cpu_reader \<Rightarrow> (rat option \<times> rat option list) res \<times> cpu_reader" where
  "busy fs c =
    (case read_text fs (path_join (p_proc (cr_paths c)) ''stat'') None of
       None \<Rightarrow> (Inr (None, []), c)
     | Some txt \<Rightarrow>
         (case parse_proc_stat txt of
            Inl e \<Rightarrow> (Inl e, c)
          | Inr cur \<Rightarrow>
              (let prev = cr_stat_prev c; c = c\<lparr>cr_stat_prev := Some cur\<rparr> in
               case prev of
                 None \<Rightarrow> (Inr (None, []), c)
               | Some prev \<Rightarrow>
                   (res_bind (map_res (\<lambda>n. res_bind (int_res (drop 3 n)) (\<lambda>k. Inr (k, n))) (filter (\<lambda>n. n \<noteq> ''cpu'') (map fst cur)))
                      (\<lambda>ns. Inr (pct_of prev cur ''cpu'', map (\<lambda>kn. pct_of prev cur (snd kn)) (sort_key fst ns))), c))))"

text \<open>The CPU time of a process: fields 11 and 12 after the last parenthesis of its \<open>stat\<close> line.\<close>

definition after_paren :: "string \<Rightarrow> string option" where
  "after_paren s = (if CHR '')'' \<in> set s then Some (rev (takeWhile (\<lambda>c. c \<noteq> CHR '')'') (rev s))) else None)"

definition proc_ticks :: "string \<Rightarrow> int option" where
  "proc_ticks txt =
    (case after_paren txt of
       None \<Rightarrow> None
     | Some r \<Rightarrow> (let f = words r in
         if length f < 13 then None
         else case (parse_int (f ! 11), parse_int (f ! 12)) of (Some a, Some b) \<Rightarrow> Some (a + b) | _ \<Rightarrow> None))"

definition all_digits :: "string \<Rightarrow> bool" where
  "all_digits s = (s \<noteq> [] \<and> list_all is_digit s)"

definition top_deltas :: "(int \<times> int) list \<Rightarrow> (int \<times> int) list \<Rightarrow> (int \<times> int) list" where
  "top_deltas prev cur =
    rev (sort_key fst (sort_key snd (List.map_filter (\<lambda>(p, t). case dget prev p of
       Some u \<Rightarrow> if u < t then Some (t - u, p) else None | None \<Rightarrow> None) cur)))"

definition top_procs :: "files \<Rightarrow> (string \<times> string option) list \<Rightarrow> rat \<Rightarrow> cpu_reader \<Rightarrow> pyval list \<times> cpu_reader" where
  "top_procs fs scan now c =
    (if (case cr_procs_t c of Some t \<Rightarrow> 0 \<le> fsub now t \<and> fsub now t < cr_top_every_s c | None \<Rightarrow> False) then (cr_top_cache c, c)
     else
       let cur = fold (\<lambda>(name, st) cur. if all_digits name
                  then (case Option.bind st proc_ticks of Some t \<Rightarrow> dset (digits_val name) t cur | None \<Rightarrow> cur) else cur) scan [];
           prev = cr_procs_prev c; prev_t = cr_procs_t c;
           c = c\<lparr>cr_procs_prev := cur, cr_procs_t := Some now, cr_top_cache := []\<rparr>
       in case prev_t of
            None \<Rightarrow> ([], c)
          | Some t \<Rightarrow>
              if now \<le> t then ([], c)
              else
                let scale = fdiv 100 (fmul (of_int (cr_hz c)) (fsub now t));
                    out = map (\<lambda>(d, pid). PDict [(''pid'', PInt pid),
                        (''name'', case read_text fs (path_join (path_join (p_proc (cr_paths c)) (str_int pid)) ''comm'') (Some ''?'') of
                           Some n \<Rightarrow> PStr n | None \<Rightarrow> PNone),
                        (''cpu_pct'', PFloat (Fin (py_round 1 (fmul (fl (of_int d)) scale))))]) (take (cr_top_n c) (top_deltas prev cur))
                in (out, c\<lparr>cr_top_cache := out\<rparr>))"

text \<open>\<open>MemTotal\<close> and \<open>MemAvailable\<close> of \<open>meminfo\<close>, in MiB.\<close>

fun mem_lines :: "string list \<Rightarrow> (string \<times> int) list \<Rightarrow> (string \<times> int) list res" where
  "mem_lines [] mem = Inr mem"
| "mem_lines (l # ls) mem =
    (let k = takeWhile (\<lambda>c. c \<noteq> CHR '':'') l; v = drop 1 (dropWhile (\<lambda>c. c \<noteq> CHR '':'') l) in
     if k = ''MemTotal'' \<or> k = ''MemAvailable'' then
       (case words v of
          [] \<Rightarrow> Inl (IndexError ''list index out of range'')
        | w # _ \<Rightarrow> res_bind (int_res w) (\<lambda>n. mem_lines ls (dset k (n div 1024) mem)))
     else mem_lines ls mem)"

definition proc_text :: "files \<Rightarrow> cpu_reader \<Rightarrow> string \<Rightarrow> string" where
  "proc_text fs c name = (case read_text fs (path_join (p_proc (cr_paths c)) name) (Some []) of Some t \<Rightarrow> t | None \<Rightarrow> [])"

definition mhz :: "int option \<Rightarrow> pyval" where
  "mhz f = (case f of Some n \<Rightarrow> if n = 0 then PNone else PInt (round_even (fdiv (of_int n) 1000)) | None \<Rightarrow> PNone)"

definition oint_of :: "int option \<Rightarrow> pyval" where
  "oint_of x = (case x of Some n \<Rightarrow> PInt n | None \<Rightarrow> PNone)"

definition otext :: "string option \<Rightarrow> pyval" where
  "otext x = (case x of Some s \<Rightarrow> PStr s | None \<Rightarrow> PNone)"

definition max_present :: "int option list \<Rightarrow> pyval" where
  "max_present xs = (case List.map_filter id xs of [] \<Rightarrow> PNone | y # ys \<Rightarrow> PInt (fold max ys y))"

text \<open>\<open>read\<close>; \<open>float_text\<close> is \<open>float\<close> of a text.\<close>

definition cpu_read :: "(string \<Rightarrow> rat res) \<Rightarrow> globber \<Rightarrow> files \<Rightarrow> (string \<times> string option) list \<Rightarrow> rat \<Rightarrow> cpu_reader \<Rightarrow> pyval dict res \<times> cpu_reader" where
  "cpu_read float_text glob fs scan now c =
    (case busy fs c of
       (Inl e, c) \<Rightarrow> (Inl e, c)
     | (Inr (tot, per_cpu), c) \<Rightarrow>
         (let per = (\<lambda>d n. map (\<lambda>p. read_int fs (path_join (path_join p d) n) None) (cr_cpus c));
              freqs = per ''cpufreq'' ''scaling_cur_freq''; load3 = take 3 (words (proc_text fs c ''loadavg''));
              up = words (proc_text fs c ''uptime'');
              core_thr = per ''thermal_throttle'' ''core_throttle_count''; pkg_thr = per ''thermal_throttle'' ''package_throttle_count''
          in case mem_lines (splitlines (proc_text fs c ''meminfo'')) [] of
               Inl e \<Rightarrow> (Inl e, c)
             | Inr mem \<Rightarrow>
                 (case temps glob fs c of (tmp, c) \<Rightarrow>
                   (case map_res float_text load3 of
                      Inl e \<Rightarrow> (Inl e, c)
                    | Inr ld \<Rightarrow>
                        (case (case up of [] \<Rightarrow> Inr PNone | u # _ \<Rightarrow> res_bind (float_text u) (\<lambda>x. Inr (PFloat (Fin x)))) of
                           Inl e \<Rightarrow> (Inl e, c)
                         | Inr uptm \<Rightarrow>
                             (case top_procs fs scan now c of (tp, c) \<Rightarrow>
                               (Inr [(''temps'', PDict tmp), (''mhz'', PList (map mhz freqs)), (''busy_pct'', orat tot),
                                 (''busy_per_cpu'', PList (map orat per_cpu)),
                                 (''load'', if load3 = [] then PNone else PList (map (\<lambda>x. PFloat (Fin x)) ld)),
                                 (''mem_total_mib'', oint_of (dget mem ''MemTotal'')), (''mem_avail_mib'', oint_of (dget mem ''MemAvailable'')),
                                 (''uptime_s'', uptm), (''no_turbo'', oint_of (read_int fs (path_join (cr_pstate c) ''no_turbo'') None)),
                                 (''max_perf_pct'', oint_of (read_int fs (path_join (cr_pstate c) ''max_perf_pct'') None)),
                                 (''min_perf_pct'', oint_of (read_int fs (path_join (cr_pstate c) ''min_perf_pct'') None)),
                                 (''pstate'', otext (read_text fs (path_join (cr_pstate c) ''status'') None)),
                                 (''epp'', case cr_cpus c of [] \<Rightarrow> PNone
                                    | d # _ \<Rightarrow> otext (read_text fs (path_join (path_join d ''cpufreq'') ''energy_performance_preference'') None)),
                                 (''throttle_core'', PInt (sum_list (map (\<lambda>x. case x of Some n \<Rightarrow> n | None \<Rightarrow> 0) core_thr))),
                                 (''throttle_pkg'', max_present pkg_thr), (''top'', PList tp)], c)))))))"

section \<open>Settings\<close>

text \<open>\<open>put\<close>: write a value that the file does not already hold.\<close>

definition put_setting :: "driver \<Rightarrow> string \<Rightarrow> string \<Rightarrow> files \<times> string list \<Rightarrow> files \<times> string list" where
  "put_setting drv path val w =
    (if fst w path = None \<or> read_text (fst w) path None = Some val then w
     else (case write_text drv (fst w) path val of
             (err, fs) \<Rightarrow> (fs, snd w @ [case err of Some e \<Rightarrow> or_str e (path @ '' = '' @ val) | None \<Rightarrow> path @ '' = '' @ val])))"

record cpu_cfg =
  cc_no_turbo :: "bool option"
  cc_max_perf_pct :: "int option"
  cc_epp :: "string option"

definition apply_settings :: "driver \<Rightarrow> cpu_cfg \<Rightarrow> cpu_reader \<Rightarrow> files \<Rightarrow> files \<times> string list" where
  "apply_settings drv cfg c fs =
    (let w = (fs, []);
         w = (case cc_no_turbo cfg of Some b \<Rightarrow> put_setting drv (path_join (cr_pstate c) ''no_turbo'') (if b then ''1'' else ''0'') w | None \<Rightarrow> w);
         w = (case cc_max_perf_pct cfg of Some n \<Rightarrow> put_setting drv (path_join (cr_pstate c) ''max_perf_pct'') (str_int n) w | None \<Rightarrow> w)
     in case cc_epp cfg of
          Some e \<Rightarrow> fold (\<lambda>d. put_setting drv (path_join (path_join d ''cpufreq'') ''energy_performance_preference'') e) (cr_cpus c) w
        | None \<Rightarrow> w)"

section \<open>Properties\<close>

lemma py_round_bounds:
  assumes "of_int a \<le> x" "x \<le> of_int b" "\<bar>a\<bar> < 2 ^ 53" "\<bar>b\<bar> < 2 ^ 53"
  shows "of_int a \<le> py_round nd x \<and> py_round nd x \<le> of_int b"
proof -
  have p: "(0 :: rat) < 10 ^ nd" by simp
  have "of_int (a * 10 ^ nd) \<le> x * 10 ^ nd" "x * 10 ^ nd \<le> of_int (b * 10 ^ nd)" using assms(1,2) by (simp_all add: mult_right_mono)
  then have "a * 10 ^ nd \<le> round_even (x * 10 ^ nd)" "round_even (x * 10 ^ nd) \<le> b * 10 ^ nd"
    using round_even_mono [of "of_int (a * 10 ^ nd)" "x * 10 ^ nd"] round_even_mono [of "x * 10 ^ nd" "of_int (b * 10 ^ nd)"]
    by (simp_all only: round_even_of_int)
  then have "(of_int (a * 10 ^ nd) :: rat) \<le> of_int (round_even (x * 10 ^ nd))" "of_int (round_even (x * 10 ^ nd)) \<le> (of_int (b * 10 ^ nd) :: rat)"
    by (simp_all only: of_int_le_iff)
  then have "of_int a \<le> of_int (round_even (x * 10 ^ nd)) / (10 ^ nd :: rat)" "of_int (round_even (x * 10 ^ nd)) / (10 ^ nd :: rat) \<le> of_int b"
    using p by (simp_all add: field_simps)
  then show ?thesis unfolding py_round_def
    using fl_ge [OF is_double_int [OF assms(3)]] fl_le [OF is_double_int [OF assms(4)]] by blast
qed

text \<open>
  The load of a processor between two readings of monotonic counters is between 0 and 100
  percent, for any interval of less than \<open>10 ^ 13\<close> ticks.
\<close>

theorem pct_bounds:
  assumes "pct prev cur = Some x" "fst prev \<le> fst cur" "fst cur - fst prev \<le> snd cur - snd prev" "snd cur - snd prev < 10 ^ 13"
  shows "0 \<le> x \<and> x \<le> 100"
proof -
  define db where "db = fst cur - fst prev"
  define dt where "dt = snd cur - snd prev"
  have d: "0 < dt" "0 \<le> db" "db \<le> dt" "dt < 10 ^ 13" using assms by (auto simp: pct_def Let_def db_def dt_def split: if_splits)
  have e: "fl (of_int db) = of_int db" "fl (of_int dt) = of_int dt" "fl (100 * of_int db) = 100 * of_int db"
    using d fl_of_int [of db] fl_of_int [of dt] fl_of_int [of "100 * db"] by simp_all
  have "of_int 0 \<le> (100 * of_int db) / (of_int dt :: rat)" "(100 * of_int db) / (of_int dt :: rat) \<le> of_int 100"
    using d by (simp_all add: divide_simps)
  then have "of_int 0 \<le> fl ((100 * of_int db) / of_int dt)" "fl ((100 * of_int db) / of_int dt) \<le> of_int 100" by (auto intro: fl_ge fl_le)
  from py_round_bounds [OF this, of 1] assms(1) d(1) show ?thesis
    by (simp add: pct_def Let_def db_def [symmetric] dt_def [symmetric] e)
qed

theorem pct_bounds_witness: "\<exists>x. pct (40, 100) (75, 200) = Some x \<and> 0 \<le> x \<and> x \<le> 100"
proof -
  obtain x where "pct (40, 100) (75, 200) = Some x" by (simp add: pct_def Let_def)
  with pct_bounds [OF this] show ?thesis by simp
qed

text \<open>A setting that is absent leaves the kernel's value alone.\<close>

lemma apply_settings_none: "apply_settings drv \<lparr>cc_no_turbo = None, cc_max_perf_pct = None, cc_epp = None\<rparr> c fs = (fs, [])"
  by (simp add: apply_settings_def)

text \<open>On a plain driver the settings that have a file read back as asked.\<close>

lemma put_setting_reads: "fst w path \<noteq> None \<Longrightarrow> strip val = val \<Longrightarrow> read_text (fst (put_setting plain_driver path val w)) path None = Some val"
  by (simp add: put_setting_def write_text_def plain_driver_def read_text_def)

end
