(* ===== verification/Logger.thy ===== *)
theory Logger
  imports Sysfs Py_Text "HOL-Library.Multiset"
begin

text \<open>
  \<open>daemon/logger.py\<close>: the event log, and the sample log with its writer queue, hourly rotation,
  compression and retention. JSON text, gzip, \<open>stat\<close> and the errors of the file system are
  parameters (\<open>log_env\<close>); the threads are interleaved steps.
\<close>

definition EVENT_PREFIX :: string where "EVENT_PREFIX = ''TURBOMAC_EVENT ''"
definition QUEUE_MAX :: nat where "QUEUE_MAX = 120"

section \<open>The event log\<close>

record event_log =
  el_events :: "pyval dict list"
  el_out :: "string list"

definition event_rec :: "rat \<Rightarrow> string \<Rightarrow> pyval dict \<Rightarrow> pyval dict" where
  "event_rec now typ kw = dmerge [(''ts'', PFloat (Fin (py_round 3 now))), (''type'', PStr typ)] kw"

text \<open>\<open>emit\<close> on a log created with \<open>maxlen\<close> (1000 in the daemon); \<open>out_ok\<close> tells whether the stream takes the line. Printing never fails the caller.\<close>

definition log_emit :: "nat \<Rightarrow> (pyval \<Rightarrow> string) \<Rightarrow> bool \<Rightarrow> rat \<Rightarrow> string \<Rightarrow> pyval dict \<Rightarrow> event_log \<Rightarrow> event_log" where
  "log_emit maxlen dumps out_ok now typ kw l =
    (let r = event_rec now typ kw in
     l\<lparr>el_events := last_n maxlen (el_events l @ [r]),
       el_out := (if out_ok then el_out l @ [EVENT_PREFIX @ dumps (PDict r)] else el_out l)\<rparr>)"

text \<open>\<open>xs[-max(0, n):]\<close>: the slice from \<open>-0\<close> is the whole list.\<close>

definition recent :: "event_log \<Rightarrow> int \<Rightarrow> pyval dict list" where
  "recent l n = (if n = 0 then [] else if n < 0 then el_events l else last_n (nat n) (el_events l))"

section \<open>Compression\<close>

datatype gz_fault = GzOk | GzStat | GzOpen | GzWrite string | GzUtime | GzReplace | GzDirSync | GzUnlink

definition drop_tmp :: "bool \<Rightarrow> string \<Rightarrow> files \<Rightarrow> files" where
  "drop_tmp ok tmp fs = (if ok then fs(tmp := None) else fs)"

text \<open>
  \<open>compress_file\<close>: the result and every state the directory goes through, with the step that fails
  and whether removing the temporary file works. A failed write leaves a part of the text.
\<close>

definition compress_file :: "(string \<Rightarrow> string) \<Rightarrow> gz_fault \<Rightarrow> bool \<Rightarrow> string \<Rightarrow> files \<Rightarrow> files list \<times> string option" where
  "compress_file gzip fault ul path fs =
    (let gz = path @ ''.gz''; tmp = path @ ''.gz.tmp'' in
     case fs path of
       None \<Rightarrow> ([fs, drop_tmp ul tmp fs], None)
     | Some t \<Rightarrow>
         let f1 = fs(tmp \<mapsto> []); f2 = fs(tmp \<mapsto> gzip t); f3 = f2(tmp := None, gz \<mapsto> gzip t); f4 = f3(path := None) in
         (case fault of
            GzStat \<Rightarrow> ([fs, drop_tmp ul tmp fs], None)
          | GzOpen \<Rightarrow> ([fs, drop_tmp ul tmp fs], None)
          | GzWrite part \<Rightarrow> ([fs, f1, fs(tmp \<mapsto> part), drop_tmp ul tmp (fs(tmp \<mapsto> part))], None)
          | GzUtime \<Rightarrow> ([fs, f1, f2, drop_tmp ul tmp f2], None)
          | GzReplace \<Rightarrow> ([fs, f1, f2, drop_tmp ul tmp f2], None)
          | GzDirSync \<Rightarrow> ([fs, f1, f2, f3, drop_tmp ul tmp f3], None)
          | GzUnlink \<Rightarrow> ([fs, f1, f2, f3, drop_tmp ul tmp f3], None)
          | GzOk \<Rightarrow> ([fs, f1, f2, f3, f4], Some gz)))"

section \<open>The sample log\<close>

type_synonym log_item = "pyval dict \<times> rat option"

record slogger =
  lg_dir :: string
  lg_retention_days :: rat
  lg_max_mib :: rat
  lg_boot_id :: "string option"
  lg_background :: bool
  lg_fh :: "string option"
  lg_path :: "string option"
  lg_hour :: "string option"
  lg_again :: bool
  lg_q :: "log_item list"
  lg_backlog :: bool
  lg_write_error :: bool

record log_env =
  le_dumps :: "pyval \<Rightarrow> string"
  le_gzip :: "string \<Rightarrow> string"
  le_open_err :: "string \<Rightarrow> string option"
  le_write_err :: "string \<Rightarrow> string option"
  le_glob :: "files \<Rightarrow> globber"
  le_stat :: "files \<Rightarrow> string \<Rightarrow> (rat \<times> int) option"
  le_gz_fault :: "string \<Rightarrow> gz_fault"
  le_unlink_ok :: "string \<Rightarrow> bool"
  le_now :: rat

subsection \<open>Retention\<close>

text \<open>The first loop of \<open>prune\<close>: too old, or kept with its size.\<close>

fun prune_age :: "(string \<Rightarrow> (rat \<times> int) option) \<Rightarrow> rat \<Rightarrow> slogger \<Rightarrow> string list \<Rightarrow> string list \<times> (string \<times> int) list" where
  "prune_age stat now l [] = ([], [])"
| "prune_age stat now l (f # fs) =
    (let (removed, keep) = prune_age stat now l fs in
     case stat f of
       None \<Rightarrow> (removed, keep)
     | Some (mtime, sz) \<Rightarrow>
         if Some f \<noteq> lg_path l \<and> fmul (lg_retention_days l) 86400 < fsub now mtime then (f # removed, keep)
         else (removed, (f, sz) # keep))"

text \<open>The second loop: the oldest until the total is within the bound, never the current file.\<close>

fun prune_size :: "slogger \<Rightarrow> (string \<times> int) list \<Rightarrow> int \<Rightarrow> string list \<times> int" where
  "prune_size l [] tot = ([], tot)"
| "prune_size l ((f, sz) # keep) tot =
    (if of_int tot \<le> fmul (fmul (lg_max_mib l) 1024) 1024 \<or> Some f = lg_path l then prune_size l keep tot
     else (let (removed, t) = prune_size l keep (tot - sz) in (f # removed, t)))"

definition prune :: "log_env \<Rightarrow> slogger \<Rightarrow> files \<Rightarrow> string list \<times> files" where
  "prune env l fs =
    (let found = sort (le_glob env fs (path_join (lg_dir l) ''samples-*.jsonl'') @ le_glob env fs (path_join (lg_dir l) ''samples-*.jsonl.gz''));
         (old, keep) = prune_age (le_stat env fs) (le_now env) l found;
         removed = old @ fst (prune_size l keep (sum_list (map snd keep)))
     in (removed, fold (\<lambda>f fs. if le_unlink_ok env f then fs(f := None) else fs) removed fs))"

definition housekeep_now :: "log_env \<Rightarrow> slogger \<Rightarrow> files \<Rightarrow> files" where
  "housekeep_now env l fs =
    snd (prune env l (fold (\<lambda>f fs. if Some f \<noteq> lg_path l
        then last (fst (compress_file (le_gzip env) (le_gz_fault env f) (le_unlink_ok env (f @ ''.gz.tmp'')) f fs)) else fs)
      (sort (le_glob env fs (path_join (lg_dir l) ''samples-*.jsonl''))) fs))"

text \<open>\<open>housekeep\<close>: in the background the worker is asked to run (again).\<close>

definition housekeep :: "log_env \<Rightarrow> slogger \<times> files \<Rightarrow> slogger \<times> files" where
  "housekeep env w = (if lg_background (fst w) then ((fst w)\<lparr>lg_again := True\<rparr>, snd w) else (fst w, housekeep_now env (fst w) (snd w)))"

definition slogger_init :: "log_env \<Rightarrow> string \<Rightarrow> rat \<Rightarrow> rat \<Rightarrow> string option \<Rightarrow> bool \<Rightarrow> files \<Rightarrow> slogger \<times> files" where
  "slogger_init env dir ret mib boot bg fs =
    housekeep env (\<lparr>lg_dir = dir, lg_retention_days = ret, lg_max_mib = mib, lg_boot_id = boot, lg_background = bg, lg_fh = None,
      lg_path = None, lg_hour = None, lg_again = False, lg_q = [], lg_backlog = False, lg_write_error = False\<rparr>, fs)"

subsection \<open>Writing\<close>

definition log_line :: "log_env \<Rightarrow> string \<Rightarrow> pyval dict \<Rightarrow> files \<Rightarrow> string option \<times> files" where
  "log_line env path r fs =
    (case le_write_err env path of
       Some e \<Rightarrow> (Some e, fs)
     | None \<Rightarrow> (None, fs(path \<mapsto> (case fs path of Some t \<Rightarrow> t | None \<Rightarrow> []) @ le_dumps env (PDict r) @ [CHR 0x0A])))"

definition log_open :: "log_env \<Rightarrow> rat \<Rightarrow> slogger \<times> files \<Rightarrow> string option \<times> slogger \<times> files" where
  "log_open env wall w =
    (let (l, fs) = w; path = path_join (lg_dir l) (''samples-'' @ fmt_compact wall @ ''.jsonl'');
         l = l\<lparr>lg_fh := None, lg_path := Some path\<rparr>
     in case le_open_err env path of
          Some e \<Rightarrow> (Some e, l, fs)
        | None \<Rightarrow>
            let fs = fs(path \<mapsto> (case fs path of Some t \<Rightarrow> t | None \<Rightarrow> []));
                l = l\<lparr>lg_fh := Some path, lg_hour := Some (fmt_hour wall)\<rparr>
            in (case log_line env path [(''kind'', PStr ''header''),
                     (''boot_id'', case lg_boot_id l of Some b \<Rightarrow> PStr b | None \<Rightarrow> PNone), (''ts'', PFloat (Fin (py_round 3 wall)))] fs of
                  (Some e, fs) \<Rightarrow> (Some e, l, fs)
                | (None, fs) \<Rightarrow> (None, housekeep env (l, fs))))"

text \<open>The time of a record: given, else its own \<open>ts\<close> (a number, as the sampler writes it), else now.\<close>

definition rec_wall :: "log_env \<Rightarrow> log_item \<Rightarrow> rat" where
  "rec_wall env it = (case snd it of Some w \<Rightarrow> w | None \<Rightarrow> (case Option.bind (dget (fst it) ''ts'') num_of of Some w \<Rightarrow> w | None \<Rightarrow> le_now env))"

definition write_now :: "log_env \<Rightarrow> log_item \<Rightarrow> slogger \<times> files \<Rightarrow> string option \<times> slogger \<times> files" where
  "write_now env it w =
    (let wall = rec_wall env it;
         (e, w) = (if lg_fh (fst w) = None \<or> lg_hour (fst w) \<noteq> Some (fmt_hour wall) then log_open env wall w else (None, w))
     in case e of
          Some e \<Rightarrow> (Some e, w)
        | None \<Rightarrow> (case lg_fh (fst w) of
            None \<Rightarrow> (Some ''AssertionError'', w)
          | Some path \<Rightarrow> (case log_line env path (fst it) (snd w) of (e, fs) \<Rightarrow> (e, fst w, fs))))"

text \<open>\<open>put_nowait\<close>: \<open>None\<close> when the queue is full.\<close>

definition put_nowait :: "'a \<Rightarrow> 'a list \<Rightarrow> 'a list option" where
  "put_nowait x q = (if length q < QUEUE_MAX then Some (q @ [x]) else None)"

definition backlog_event :: "string \<times> pyval dict" where
  "backlog_event = (''log_backlog'', [(''queued'', PInt (int QUEUE_MAX)), (''message'', PStr ''sample writer is behind; dropping oldest'')])"

text \<open>\<open>write\<close> with no step of the writer in between: the state, the files and the events.\<close>

definition log_write :: "log_env \<Rightarrow> log_item \<Rightarrow> slogger \<times> files \<Rightarrow> (string option \<times> slogger \<times> files) \<times> (string \<times> pyval dict) list" where
  "log_write env it w =
    (let (l, fs) = w in
     if \<not> lg_background l then (write_now env it w, [])
     else case put_nowait it (lg_q l) of
       Some q \<Rightarrow> ((None, l\<lparr>lg_q := q\<rparr>, fs), [])
     | None \<Rightarrow>
         let q = tl (lg_q l);
             ev = (if lg_backlog l then [] else [backlog_event])
         in ((None, l\<lparr>lg_q := (case put_nowait it q of Some q \<Rightarrow> q | None \<Rightarrow> q), lg_backlog := True\<rparr>, fs), ev))"

text \<open>One turn of the writer thread on a non-empty queue.\<close>

definition writer_turn :: "log_env \<Rightarrow> slogger \<times> files \<Rightarrow> (slogger \<times> files) \<times> (string \<times> pyval dict) list" where
  "writer_turn env w =
    (case lg_q (fst w) of
       [] \<Rightarrow> (w, [])
     | it # q \<Rightarrow>
         (case write_now env it ((fst w)\<lparr>lg_q := q\<rparr>, snd w) of
            (e, l, fs) \<Rightarrow>
              let ev = (case e of Some m \<Rightarrow> if lg_write_error l then [] else [(''log_error'', [(''error'', PStr m)])] | None \<Rightarrow> []);
                  l = l\<lparr>lg_write_error := (e \<noteq> None)\<rparr>;
                  l = (if lg_backlog l \<and> length (lg_q l) < QUEUE_MAX div 2 then l\<lparr>lg_backlog := False\<rparr> else l)
              in ((l, fs), ev)))"

text \<open>
  \<open>close\<close>: the writer gets through \<open>n\<close> records before the timeout; if the queue is then still full,
  the oldest record makes room for the end marker. The file is closed.
\<close>

fun writer_turns :: "log_env \<Rightarrow> nat \<Rightarrow> slogger \<times> files \<Rightarrow> (slogger \<times> files) \<times> (string \<times> pyval dict) list" where
  "writer_turns env 0 w = (w, [])"
| "writer_turns env (Suc n) w = (case writer_turn env w of (w, ev) \<Rightarrow> (case writer_turns env n w of (w, ev') \<Rightarrow> (w, ev @ ev')))"

definition log_close :: "log_env \<Rightarrow> nat \<Rightarrow> slogger \<times> files \<Rightarrow> (slogger \<times> files) \<times> (string \<times> pyval dict) list" where
  "log_close env n w =
    (case (if lg_background (fst w) then writer_turns env n w else (w, [])) of
       ((l, fs), ev) \<Rightarrow> ((l\<lparr>lg_q := (if length (lg_q l) < QUEUE_MAX then lg_q l else tl (lg_q l)), lg_fh := None\<rparr>, fs), ev))"

section \<open>The bounded event log\<close>

definition emit_step :: "nat \<Rightarrow> (pyval \<Rightarrow> string) \<Rightarrow> event_log \<Rightarrow> bool \<times> rat \<times> string \<times> pyval dict \<Rightarrow> event_log" where
  "emit_step maxlen dumps l e = (case e of (ok, now, typ, kw) \<Rightarrow> log_emit maxlen dumps ok now typ kw l)"

interpretation event_ring: bounded_log "emit_step maxlen dumps" el_events "\<lambda>(ok, now, typ, kw). event_rec now typ kw" maxlen for maxlen dumps
  by unfold_locales (auto simp: emit_step_def log_emit_def Let_def split: prod.splits)

section \<open>Compression loses nothing\<close>

text \<open>
  C25: at every moment of compressing a file, whatever step fails or wherever the machine stops, the
  samples are there in full: under their name, or compressed under the final name; no other file
  than those three is touched, and a success is reported only when the compressed file is in place.
\<close>

theorem compress_keeps_samples:
  assumes "compress_file gzip fault ul path fs = (trace, r)" "fs path = Some t" "f \<in> set trace"
  shows "(f path = Some t \<or> f (path @ ''.gz'') = Some (gzip t)) \<and>
    (\<forall>q. q \<notin> {path, path @ ''.gz'', path @ ''.gz.tmp''} \<longrightarrow> f q = fs q) \<and>
    (r \<noteq> None \<longrightarrow> last trace (path @ ''.gz'') = Some (gzip t))"
  using assms by (cases fault) (auto simp: compress_file_def drop_tmp_def Let_def)

section \<open>Retention\<close>

lemma prune_age_current: "lg_path l = Some p \<Longrightarrow> p \<notin> set (fst (prune_age stat now l fs))"
  by (induction fs) (auto simp: Let_def case_prod_beta split: option.splits)

lemma prune_age_keep: "(f, s) \<in> set (snd (prune_age stat now l fs)) \<Longrightarrow>
    \<exists>m. stat f = Some (m, s) \<and> (Some f = lg_path l \<or> fsub now m \<le> fmul (lg_retention_days l) 86400)"
  by (induction fs) (auto simp: Let_def case_prod_beta split: option.splits if_splits)

lemma prune_size_current: "lg_path l = Some p \<Longrightarrow> p \<notin> set (fst (prune_size l keep tot))"
  by (induction l keep tot rule: prune_size.induct) (auto simp: Let_def case_prod_beta)

lemma prune_size_bound:
  assumes "\<forall>(f, s) \<in> set keep. 0 \<le> s"
  shows "snd (prune_size l keep tot) \<le> tot \<and>
    (of_int (snd (prune_size l keep tot)) \<le> fmul (fmul (lg_max_mib l) 1024) 1024 \<or>
     (\<forall>f \<in> fst ` set keep. Some f = lg_path l \<or> f \<in> set (fst (prune_size l keep tot))))"
  using assms
proof (induction l keep tot rule: prune_size.induct)
  case (2 l f sz keep tot)
  let ?m = "fmul (fmul (lg_max_mib l) 1024) 1024"
  show ?case
  proof (cases "of_int tot \<le> ?m \<or> Some f = lg_path l")
    case True
    have IH: "snd (prune_size l keep tot) \<le> tot" "of_int (snd (prune_size l keep tot)) \<le> ?m \<or>
        (\<forall>f \<in> fst ` set keep. Some f = lg_path l \<or> f \<in> set (fst (prune_size l keep tot)))"
      using "2.IH"(1) [OF True] "2.prems" by auto
    have "of_int (snd (prune_size l keep tot)) \<le> (of_int tot :: rat)" using IH(1) by simp
    then show ?thesis using True IH by auto
  next
    case False
    then show ?thesis using "2.IH"(2) [OF False] "2.prems" by (auto simp: Let_def case_prod_beta)
  qed
qed simp

lemma prune_size_removed: "set (fst (prune_size l keep tot)) \<subseteq> fst ` set keep"
  by (induction l keep tot rule: prune_size.induct) (auto simp: Let_def case_prod_beta)

lemma prune_size_sum:
  assumes "distinct (map fst keep)"
  shows "snd (prune_size l keep tot) = tot - sum_list (map snd keep)
    + sum_list (map snd (filter (\<lambda>x. fst x \<notin> set (fst (prune_size l keep tot))) keep))"
  using assms
proof (induction l keep tot rule: prune_size.induct)
  case (2 l f sz keep tot)
  let ?m = "of_int tot \<le> fmul (fmul (lg_max_mib l) 1024) 1024 \<or> Some f = lg_path l"
  have nf: "f \<notin> fst ` set keep" using "2.prems" by auto
  show ?case
  proof (cases ?m)
    case True
    moreover have "f \<notin> set (fst (prune_size l keep tot))" using prune_size_removed nf by blast
    ultimately show ?thesis using "2.IH"(1) [OF True] "2.prems" by simp
  next
    case False
    let ?r = "set (fst (prune_size l keep (tot - sz)))"
    have "filter (\<lambda>x. fst x \<notin> insert f ?r) keep = filter (\<lambda>x. fst x \<notin> ?r) keep"
      using nf by (intro filter_cong) auto
    then show ?thesis using False "2.IH"(2) [OF False] "2.prems" by (simp add: Let_def case_prod_beta)
  qed
qed simp

text \<open>The files of the log, oldest name first, and those of them that a pruning leaves.\<close>

definition log_files :: "log_env \<Rightarrow> slogger \<Rightarrow> files \<Rightarrow> string list" where
  "log_files env l fs = sort (le_glob env fs (path_join (lg_dir l) ''samples-*.jsonl'') @ le_glob env fs (path_join (lg_dir l) ''samples-*.jsonl.gz''))"

definition sized :: "(string \<Rightarrow> (rat \<times> int) option) \<Rightarrow> string \<Rightarrow> (string \<times> int) option" where
  "sized stat f = map_option (\<lambda>st. (f, snd st)) (stat f)"

definition log_sizes :: "log_env \<Rightarrow> files \<Rightarrow> string list \<Rightarrow> (string \<times> int) list" where
  "log_sizes env fs names = List.map_filter (sized (le_stat env fs)) names"

lemma sized_sub: "fst ` set (List.map_filter (sized stat) nms) \<subseteq> set nms"
  by (induction nms) (auto simp: List.map_filter_simps sized_def split: option.splits)

lemma prune_age_split:
  "distinct nms \<Longrightarrow> snd (prune_age stat now l nms) = filter (\<lambda>x. fst x \<notin> set (fst (prune_age stat now l nms))) (List.map_filter (sized stat) nms) \<and>
   set (fst (prune_age stat now l nms)) \<subseteq> set nms"
proof (induction nms)
  case (Cons f nms)
  let ?r = "prune_age stat now l nms"
  have nf: "f \<notin> set nms" "distinct nms" using Cons.prems by auto
  have c: "filter (\<lambda>x. fst x \<noteq> f \<and> fst x \<notin> set (fst ?r)) (List.map_filter (sized stat) nms)
      = filter (\<lambda>x. fst x \<notin> set (fst ?r)) (List.map_filter (sized stat) nms)"
    using sized_sub [of stat nms] nf by (intro filter_cong) auto
  have "f \<notin> set (fst ?r)" using Cons.IH [OF nf(2)] nf(1) by blast
  moreover have "sized stat f = (case stat f of None \<Rightarrow> None | Some st \<Rightarrow> Some (f, snd st))" by (simp add: sized_def split: option.split)
  ultimately show ?case using Cons.IH [OF nf(2)] c
    by (cases "stat f") (auto simp: Let_def case_prod_beta List.map_filter_simps)
qed simp

lemma prune_age_distinct:
  "distinct nms \<Longrightarrow> distinct (map fst (snd (prune_age stat now l nms))) \<and> fst ` set (snd (prune_age stat now l nms)) \<subseteq> set nms"
  by (induction nms) (auto simp: Let_def case_prod_beta split: option.splits)

lemma prune_unfold:
  assumes "prune env l fs = (removed, fs')"
  shows "removed = fst (prune_age (le_stat env fs) (le_now env) l (log_files env l fs)) @
      fst (prune_size l (snd (prune_age (le_stat env fs) (le_now env) l (log_files env l fs)))
        (sum_list (map snd (snd (prune_age (le_stat env fs) (le_now env) l (log_files env l fs)))))) \<and>
    fs' = fold (\<lambda>f fs. if le_unlink_ok env f then fs(f := None) else fs) removed fs"
  using assms by (auto simp: prune_def log_files_def Let_def case_prod_beta)

lemma fold_unlink_other: "p \<notin> set nms \<Longrightarrow> fold (\<lambda>f fs. if ok f then fs(f := None) else fs) nms fs p = fs p"
  by (induction nms arbitrary: fs) auto

text \<open>
  C26: pruning never removes the file being written, removes only files of the log, and what it
  leaves is within the size bound unless only the current file is left.
\<close>

theorem prune_bounds:
  assumes "prune env l fs = (removed, fs')" "distinct (log_files env l fs)"
    "\<forall>f m s. le_stat env fs f = Some (m, s) \<longrightarrow> 0 \<le> s"
  defines "left \<equiv> filter (\<lambda>x. fst x \<notin> set removed) (log_sizes env fs (log_files env l fs))"
  shows "(\<forall>p. lg_path l = Some p \<longrightarrow> p \<notin> set removed \<and> fs' p = fs p) \<and> set removed \<subseteq> set (log_files env l fs) \<and>
    (of_int (sum_list (map snd left)) \<le> fmul (fmul (lg_max_mib l) 1024) 1024 \<or> (\<forall>x \<in> set left. Some (fst x) = lg_path l))"
proof -
  define old where "old = fst (prune_age (le_stat env fs) (le_now env) l (log_files env l fs))"
  define keep where "keep = snd (prune_age (le_stat env fs) (le_now env) l (log_files env l fs))"
  define more where "more = fst (prune_size l keep (sum_list (map snd keep)))"
  note U = prune_unfold [OF assms(1), folded old_def keep_def more_def]
  note A = prune_age_split [OF assms(2), of "le_stat env fs" "le_now env" l, folded old_def keep_def log_sizes_def]
  note D = prune_age_distinct [OF assms(2), of "le_stat env fs" "le_now env" l, folded keep_def]
  have r: "removed = old @ more" using U by blast
  have "keep = filter (\<lambda>x. fst x \<notin> set old) (log_sizes env fs (log_files env l fs))" using A by blast
  then have lf: "left = filter (\<lambda>x. fst x \<notin> set more) keep" by (simp add: left_def r conj_commute)
  have "\<forall>(f, s) \<in> set keep. 0 \<le> s" using prune_age_keep assms(3) unfolding keep_def by fastforce
  note B = prune_size_bound [OF this, of l "sum_list (map snd keep)", folded more_def]
  have S: "snd (prune_size l keep (sum_list (map snd keep))) = sum_list (map snd left)"
    using prune_size_sum [OF conjunct1 [OF D], of l "sum_list (map snd keep)"] by (simp add: lf more_def)
  have "p \<notin> set removed" if "lg_path l = Some p" for p
    using prune_age_current [OF that] prune_size_current [OF that] by (simp add: r old_def more_def)
  moreover have "fs' p = fs p" if "lg_path l = Some p" for p
    using fold_unlink_other [of p removed "le_unlink_ok env" fs] calculation [OF that] U by simp
  moreover have "set removed \<subseteq> set (log_files env l fs)"
    using conjunct2 [OF A] conjunct2 [OF D] prune_size_removed [of l keep "sum_list (map snd keep)", folded more_def]
    unfolding r set_append by blast
  moreover have "of_int (sum_list (map snd left)) \<le> fmul (fmul (lg_max_mib l) 1024) 1024 \<or> (\<forall>x \<in> set left. Some (fst x) = lg_path l)"
    using B unfolding S by (auto simp: lf)
  ultimately show ?thesis by blast
qed

section \<open>The queue between the control loop and the writer\<close>

text \<open>
  The two threads interleave between the operations of the queue. The producer is in \<open>write\<close> with a
  record: after a full queue it takes the oldest away and puts again. \<open>wq_in\<close>, \<open>wq_done\<close> and \<open>wq_lost\<close>
  are all records handed to \<open>write\<close>, those the writer took and those given up.
\<close>

datatype 'a qpc = QIdle | QFull 'a | QPopped 'a

record 'a wq =
  wq_q :: "'a list"
  wq_pc :: "'a qpc"
  wq_in :: "'a list"
  wq_done :: "'a list"
  wq_lost :: "'a list"

definition wq0 :: "'a wq" where
  "wq0 = \<lparr>wq_q = [], wq_pc = QIdle, wq_in = [], wq_done = [], wq_lost = []\<rparr>"

inductive q_step :: "'a wq \<Rightarrow> 'a wq \<Rightarrow> bool" where
  submit: "wq_pc s = QIdle \<Longrightarrow> put_nowait x (wq_q s) = Some q \<Longrightarrow> q_step s (s\<lparr>wq_q := q, wq_in := wq_in s @ [x]\<rparr>)"
| submit_full: "wq_pc s = QIdle \<Longrightarrow> put_nowait x (wq_q s) = None \<Longrightarrow> q_step s (s\<lparr>wq_pc := QFull x, wq_in := wq_in s @ [x]\<rparr>)"
| pop: "wq_pc s = QFull x \<Longrightarrow> wq_q s = y # q \<Longrightarrow> q_step s (s\<lparr>wq_q := q, wq_pc := QPopped x, wq_lost := wq_lost s @ [y]\<rparr>)"
| pop_empty: "wq_pc s = QFull x \<Longrightarrow> wq_q s = [] \<Longrightarrow> q_step s (s\<lparr>wq_pc := QPopped x\<rparr>)"
| put: "wq_pc s = QPopped x \<Longrightarrow> put_nowait x (wq_q s) = Some q \<Longrightarrow> q_step s (s\<lparr>wq_q := q, wq_pc := QIdle\<rparr>)"
| put_full: "wq_pc s = QPopped x \<Longrightarrow> put_nowait x (wq_q s) = None \<Longrightarrow> q_step s (s\<lparr>wq_pc := QIdle, wq_lost := wq_lost s @ [x]\<rparr>)"
| take: "wq_q s = y # q \<Longrightarrow> q_step s (s\<lparr>wq_q := q, wq_done := wq_done s @ [y]\<rparr>)"

fun pending :: "'a qpc \<Rightarrow> 'a list" where
  "pending QIdle = []"
| "pending (QFull x) = [x]"
| "pending (QPopped x) = [x]"

definition wq_inv :: "'a wq \<Rightarrow> bool" where
  "wq_inv s = (length (wq_q s) \<le> QUEUE_MAX \<and>
     mset (wq_in s) = mset (wq_done s) + mset (wq_lost s) + mset (wq_q s) + mset (pending (wq_pc s)) \<and>
     subseq (wq_done s @ wq_q s @ pending (wq_pc s)) (wq_in s) \<and>
     (wq_in s \<noteq> [] \<longrightarrow> wq_done s @ wq_q s @ pending (wq_pc s) \<noteq> [] \<and> last (wq_done s @ wq_q s @ pending (wq_pc s)) = last (wq_in s)) \<and>
     (\<forall>x. wq_pc s = QPopped x \<longrightarrow> length (wq_q s) < QUEUE_MAX))"

lemma put_nowait_Some: "put_nowait x q = Some q' \<longleftrightarrow> length q < QUEUE_MAX \<and> q' = q @ [x]"
  by (auto simp: put_nowait_def)

lemma put_nowait_None: "put_nowait x q = None \<longleftrightarrow> QUEUE_MAX \<le> length q"
  by (auto simp: put_nowait_def)

lemma subseq_mid: "subseq (a @ b) (a @ y # b)"
  by (metis subseq_order.order_refl list_emb_Cons subseq_append')

lemma q_step_inv: "q_step s s' \<Longrightarrow> wq_inv s \<Longrightarrow> wq_inv s'"
proof (induction rule: q_step.induct)
  case (submit s x q)
  then have "subseq (wq_done s @ wq_q s) (wq_in s)" by (simp add: wq_inv_def)
  then have "subseq ((wq_done s @ wq_q s) @ [x]) (wq_in s @ [x])" by (intro list_emb_append_mono) simp_all
  with submit show ?case by (simp add: wq_inv_def put_nowait_Some)
next
  case (submit_full s x)
  then have "subseq (wq_done s @ wq_q s) (wq_in s)" by (simp add: wq_inv_def)
  then have "subseq ((wq_done s @ wq_q s) @ [x]) (wq_in s @ [x])" by (intro list_emb_append_mono) simp_all
  with submit_full show ?case by (simp add: wq_inv_def)
next
  case (pop s x y q)
  have "subseq (wq_done s @ q @ [x]) (wq_done s @ y # q @ [x])" by (rule subseq_mid)
  with pop show ?case by (auto simp: wq_inv_def intro: subseq_order.order_trans)
next
  case (pop_empty s x)
  then show ?case by (auto simp: wq_inv_def QUEUE_MAX_def)
next
  case (put s x q)
  then show ?case by (auto simp: wq_inv_def put_nowait_Some)
next
  case (put_full s x)
  then show ?case by (auto simp: wq_inv_def put_nowait_None)
next
  case (take s y q)
  then show ?case by (auto simp: wq_inv_def)
qed

text \<open>
  C27: however the control loop and the writer thread interleave, the queue never exceeds its bound;
  every record handed in is written, queued, in flight or counted as dropped; what is written and
  queued keeps the order it was handed in; and once \<open>write\<close> returns, the newest record is in.
\<close>

theorem log_queue_safe:
  assumes "q_step\<^sup>*\<^sup>* wq0 s"
  shows "length (wq_q s) \<le> QUEUE_MAX \<and>
    mset (wq_in s) = mset (wq_done s) + mset (wq_lost s) + mset (wq_q s) + mset (pending (wq_pc s)) \<and>
    subseq (wq_done s @ wq_q s) (wq_in s) \<and>
    (wq_pc s = QIdle \<and> wq_in s \<noteq> [] \<longrightarrow> wq_done s @ wq_q s \<noteq> [] \<and> last (wq_done s @ wq_q s) = last (wq_in s))"
proof -
  have "wq_inv s" using assms
    by (induction rule: rtranclp_induct) (auto simp: q_step_inv, simp add: wq_inv_def wq0_def)
  then have I: "length (wq_q s) \<le> QUEUE_MAX"
    "mset (wq_in s) = mset (wq_done s) + mset (wq_lost s) + mset (wq_q s) + mset (pending (wq_pc s))"
    "subseq (wq_done s @ wq_q s @ pending (wq_pc s)) (wq_in s)"
    "wq_in s \<noteq> [] \<Longrightarrow> wq_done s @ wq_q s @ pending (wq_pc s) \<noteq> [] \<and> last (wq_done s @ wq_q s @ pending (wq_pc s)) = last (wq_in s)"
    unfolding wq_inv_def by blast+
  have "subseq (wq_done s @ wq_q s) ((wq_done s @ wq_q s) @ pending (wq_pc s))" by (rule subseq_rev_drop_many) simp
  with I(3) have "subseq (wq_done s @ wq_q s) (wq_in s)" by (metis append_assoc subseq_order.order_trans)
  moreover have "wq_done s @ wq_q s \<noteq> [] \<and> last (wq_done s @ wq_q s) = last (wq_in s)" if "wq_pc s = QIdle" "wq_in s \<noteq> []"
    using I(4) [OF that(2)] that(1) by simp
  ultimately show ?thesis using I(1,2) by blast
qed


theorem compress_keeps_samples_witness:
  "last (fst (compress_file rev GzUnlink True ''/a.jsonl'' [''/a.jsonl'' \<mapsto> ''xyz''])) ''/a.jsonl'' = Some ''xyz'' \<or>
   last (fst (compress_file rev GzUnlink True ''/a.jsonl'' [''/a.jsonl'' \<mapsto> ''xyz''])) ''/a.jsonl.gz'' = Some ''zyx''"
proof -
  let ?c = "compress_file rev GzUnlink True ''/a.jsonl'' [''/a.jsonl'' \<mapsto> ''xyz'']"
  have "last (fst ?c) \<in> set (fst ?c)" by (simp add: compress_file_def Let_def)
  from compress_keeps_samples [OF prod.collapse [symmetric] _ this, of "''xyz''"] show ?thesis by simp
qed

text \<open>Three files of 2 MiB each with a bound of 4 MiB, the newest being written.\<close>

definition demo_log_env :: log_env where
  "demo_log_env = \<lparr>le_dumps = (\<lambda>_. []), le_gzip = id, le_open_err = Map.empty, le_write_err = Map.empty,
     le_glob = (\<lambda>fs p. if p = ''/d/samples-*.jsonl'' then [''/d/c''] else [''/d/b'', ''/d/a'']),
     le_stat = (\<lambda>fs f. Some (0, 2097152)), le_gz_fault = (\<lambda>_. GzOk), le_unlink_ok = (\<lambda>_. True), le_now = 100\<rparr>"

definition demo_logger :: slogger where
  "demo_logger = (fst (slogger_init demo_log_env ''/d'' 14 4 None True Map.empty))\<lparr>lg_path := Some ''/d/c''\<rparr>"

lemma demo_prune: "fst (prune demo_log_env demo_logger Map.empty) = [''/d/a'']"
  by code_simp

theorem prune_bounds_witness:
  "of_int (sum_list (map snd (filter (\<lambda>x. fst x \<notin> {''/d/a''}) (log_sizes demo_log_env Map.empty (log_files demo_log_env demo_logger Map.empty)))))
     \<le> fmul (fmul (lg_max_mib demo_logger) 1024) 1024"
proof -
  obtain fs' where p: "prune demo_log_env demo_logger Map.empty = ([''/d/a''], fs')" using demo_prune by (metis prod.collapse)
  have d: "distinct (log_files demo_log_env demo_logger Map.empty)" by code_simp
  have z: "\<forall>f m s. le_stat demo_log_env Map.empty f = Some (m, s) \<longrightarrow> 0 \<le> s" by (simp add: demo_log_env_def)
  have b: "(''/d/b'', 2097152) \<in> set (filter (\<lambda>x. fst x \<notin> set [''/d/a'']) (log_sizes demo_log_env Map.empty (log_files demo_log_env demo_logger Map.empty)))"
    by code_simp
  have c: "lg_path demo_logger = Some ''/d/c''" by (simp add: demo_logger_def)
  from conjunct2 [OF conjunct2 [OF prune_bounds [OF p d z]]] b c show ?thesis by fastforce
qed

theorem log_queue_safe_witness:
  "\<exists>s :: nat wq. q_step\<^sup>*\<^sup>* wq0 s \<and> wq_done s = [7] \<and> subseq (wq_done s @ wq_q s) (wq_in s) \<and> last (wq_done s @ wq_q s) = 8"
proof -
  let ?s1 = "wq0\<lparr>wq_q := [7 :: nat], wq_in := [7]\<rparr>"
  let ?s2 = "?s1\<lparr>wq_q := [], wq_done := [7]\<rparr>"
  let ?s3 = "?s2\<lparr>wq_q := [8], wq_in := [7, 8]\<rparr>"
  have "q_step wq0 ?s1" using q_step.submit [of wq0 7 "[7]"] by (simp add: wq0_def put_nowait_def QUEUE_MAX_def)
  moreover have "q_step ?s1 ?s2" using q_step.take [of ?s1 7 "[]"] by (simp add: wq0_def)
  moreover have "q_step ?s2 ?s3" using q_step.submit [of ?s2 8 "[8]"] by (simp add: wq0_def put_nowait_def QUEUE_MAX_def)
  ultimately have r: "q_step\<^sup>*\<^sup>* wq0 ?s3" by (meson converse_rtranclp_into_rtranclp rtranclp.rtrancl_refl)
  from log_queue_safe [OF r] r show ?thesis by (intro exI [of _ ?s3]) (simp add: wq0_def)
qed

text \<open>A negative count asks \<open>recent\<close> for everything.\<close>

lemma recent_negative: "n < 0 \<Longrightarrow> recent l n = el_events l"
  by (simp add: recent_def)

lemma recent_newest: "0 < n \<Longrightarrow> suffix (recent l n) (el_events l) \<and> length (recent l n) = min (nat n) (length (el_events l))"
  by (simp add: recent_def last_n_suffix)

end
