(* ===== verification/Incidents.thy ===== *)
theory Incidents
  imports Sysfs Py_Text
begin

text \<open>
  \<open>daemon/incidents.py\<close>: the clean-shutdown marker and the capture of abrupt power losses. The
  journal (\<open>runner\<close>), JSON (\<open>loads\<close>, \<open>dumps\<close>), gzip (\<open>gunzip\<close>, \<open>None\<close> for a file that is not readable as
  such), globbing and the clock are parameters. Boot ids in JSON are strings.
\<close>

type_synonym runner = "string list \<Rightarrow> string option"
type_synonym json_loads = "string \<Rightarrow> pyval option"

definition attr_error :: "'a res" where
  "attr_error = Inl (AttributeError ''get'')"

text \<open>The boot with index (or, absent that, offset) -1.\<close>

fun find_boot :: "pyval list \<Rightarrow> pyval res" where
  "find_boot [] = Inr PNone"
| "find_boot (b # bs) =
    (case b of
       PDict d \<Rightarrow> if as_float (case dget d ''index'' of Some v \<Rightarrow> v | None \<Rightarrow> py_get d ''offset'') = Some (Fin (- 1))
                  then Inr (py_get d ''boot_id'') else find_boot bs
     | _ \<Rightarrow> attr_error)"

definition previous_boot_id :: "json_loads \<Rightarrow> runner \<Rightarrow> pyval res" where
  "previous_boot_id loads run =
    (case run [''--list-boots'', ''--no-pager'', ''-o'', ''json''] of
       None \<Rightarrow> Inr PNone
     | Some out \<Rightarrow> if out = [] then Inr PNone else
         (case loads out of Some (PList bs) \<Rightarrow> find_boot bs | _ \<Rightarrow> Inr PNone))"

definition nl :: string where "nl = [CHR 0x0A]"

definition journal_clean :: "string \<Rightarrow> bool" where
  "journal_clean tail = substr_of ''Journal stopped'' (join_with nl (last_n 3 (splitlines (strip tail))))"

definition mark_clean :: "(pyval \<Rightarrow> string) \<Rightarrow> rat \<Rightarrow> paths \<Rightarrow> files \<Rightarrow> files" where
  "mark_clean dumps now p fs = fs(p_clean_marker p \<mapsto>
     dumps (PDict [(''ts'', PFloat (Fin (py_round 3 now))),
       (''boot_id'', case read_text fs (p_boot_id p) None of Some b \<Rightarrow> PStr b | None \<Rightarrow> PNone)]))"

definition read_marker :: "json_loads \<Rightarrow> files \<Rightarrow> string \<Rightarrow> pyval dict option" where
  "read_marker loads fs path = (case fs path of
     None \<Rightarrow> None
   | Some txt \<Rightarrow> (case loads txt of Some (PDict d) \<Rightarrow> Some d | _ \<Rightarrow> Some []))"

section \<open>The last samples\<close>

text \<open>The lines of a text, without their ends.\<close>

definition text_lines :: "string \<Rightarrow> string list" where
  "text_lines t = (let ls = split_char CHR 0x0A t in if last ls = [] then butlast ls else ls)"

text \<open>The sample files by base name, newest first; uncompressed wins if both exist.\<close>

definition sample_files :: "globber \<Rightarrow> string \<Rightarrow> (string \<times> string) list" where
  "sample_files glob dir =
    (let fs = fold (\<lambda>f d. dset (take (length f - 3) f) f d) (glob (path_join dir ''samples-*.jsonl.gz'')) [];
         fs = fold (\<lambda>f d. dset f f d) (glob (path_join dir ''samples-*.jsonl'')) fs
     in rev (sort_key fst fs))"

definition open_lines :: "(string \<Rightarrow> string option) \<Rightarrow> files \<Rightarrow> string \<Rightarrow> string list option" where
  "open_lines gunzip fs f = map_option text_lines (if ends_with ''.gz'' f then Option.bind (fs f) gunzip else fs f)"

text \<open>The head of a file: its first line, or an empty object; \<open>None\<close> when it is not JSON.\<close>

definition head_of :: "json_loads \<Rightarrow> string list \<Rightarrow> pyval option" where
  "head_of loads ls = loads (case ls of [] \<Rightarrow> ''{}'' | l # _ \<Rightarrow> l)"

fun collect :: "json_loads \<Rightarrow> (string \<Rightarrow> string option) \<Rightarrow> files \<Rightarrow> nat \<Rightarrow> string option \<Rightarrow> (string \<times> string) list \<Rightarrow> pyval list \<Rightarrow> pyval
    \<Rightarrow> (pyval list \<times> pyval) res" where
  "collect loads gunzip fs n exclude [] rows boot = Inr (rows, boot)"
| "collect loads gunzip fs n exclude ((b, f) # bs) rows boot =
    (case open_lines gunzip fs f of
       None \<Rightarrow> collect loads gunzip fs n exclude bs rows boot
     | Some ls \<Rightarrow>
         (case head_of loads ls of
            None \<Rightarrow> collect loads gunzip fs n exclude bs rows boot
          | Some (PDict head) \<Rightarrow>
              (let fboot = (if py_get head ''kind'' = PStr ''header'' then py_get head ''boot_id'' else PNone) in
               if exclude \<noteq> None \<and> exclude \<noteq> Some [] \<and> fboot = PStr (the exclude) then collect loads gunzip fs n exclude bs rows boot
               else if boot \<noteq> PNone \<and> fboot \<noteq> boot then Inr (rows, boot)
               else
                 let rows = List.map_filter loads (last_n n (drop 1 ls)) @ rows in
                 if n \<le> length rows then Inr (rows, fboot) else collect loads gunzip fs n exclude bs rows fboot)
          | Some _ \<Rightarrow> attr_error))"

definition last_samples :: "json_loads \<Rightarrow> (string \<Rightarrow> string option) \<Rightarrow> globber \<Rightarrow> files \<Rightarrow> string \<Rightarrow> nat \<Rightarrow> string option \<Rightarrow> (pyval list \<times> pyval) res" where
  "last_samples loads gunzip glob fs dir n exclude =
    res_bind (collect loads gunzip fs n exclude (sample_files glob dir) [] PNone) (\<lambda>(rows, boot). Inr (last_n n rows, boot))"

section \<open>The check of the previous boot\<close>

record boot_check =
  bc_verdict :: string
  bc_reason :: string
  bc_incident_id :: "string option"

record inc_env =
  ie_loads :: json_loads
  ie_dumps :: "pyval \<Rightarrow> string"
  ie_gunzip :: "string \<Rightarrow> string option"
  ie_glob :: globber
  ie_runner :: runner
  ie_now :: rat
  ie_unlink_ok :: bool
  ie_write_err :: "string \<Rightarrow> string option"

text \<open>The text of the id: the first eight characters of the boot id, or \<open>unknown\<close>.\<close>

definition boot_tag :: "pyval \<Rightarrow> string res" where
  "boot_tag prev = (if \<not> truthy prev then Inr ''unknown'' else case prev of PStr s \<Rightarrow> Inr (take 8 s) | _ \<Rightarrow> Inl (TypeError ''not subscriptable''))"

definition abrupt_reason :: string where
  "abrupt_reason = ''previous boot journal does not end in '' @ [CHR 0x27] @ ''Journal stopped'' @ [CHR 0x27]"

definition last_time :: "pyval list \<Rightarrow> pyval res" where
  "last_time rows = (if rows = [] then Inr PNone else case last rows of PDict d \<Rightarrow> Inr (py_get d ''time'') | _ \<Rightarrow> attr_error)"

definition opt_text :: "string option \<Rightarrow> pyval" where
  "opt_text x = (case x of Some s \<Rightarrow> PStr s | None \<Rightarrow> PNone)"

definition capture_incident :: "inc_env \<Rightarrow> paths \<Rightarrow> string option \<Rightarrow> bool \<Rightarrow> string \<Rightarrow> files \<Rightarrow> (boot_check \<times> files) res" where
  "capture_incident env p boot_id marker tail fs =
    res_bind (last_samples (ie_loads env) (ie_gunzip env) (ie_glob env) fs (p_samples_dir p) 60 boot_id) (\<lambda>(rows, sample_boot).
    res_bind (previous_boot_id (ie_loads env) (ie_runner env)) (\<lambda>pb.
    let prev = (if truthy pb then pb else sample_boot); stamp = fmt_compact (ie_now env) in
    res_bind (boot_tag prev) (\<lambda>tag.
    res_bind (last_time rows) (\<lambda>lt.
    let iid = stamp @ ''-'' @ tag; f = path_join (p_incidents_dir p) (iid @ ''.json'');
        inc = PDict [(''id'', PStr iid), (''detected_at'', PStr stamp), (''boot_id'', prev), (''current_boot_id'', opt_text boot_id),
                     (''reason'', PStr abrupt_reason), (''marker_present'', PBool marker), (''last_sample_time'', lt), (''samples'', PList rows),
                     (''journal_tail'', PList (map PStr (last_n 20 (splitlines (strip tail)))))]
    in case ie_write_err env f of
         Some e \<Rightarrow> Inl (OSError e)
       | None \<Rightarrow> Inr (\<lparr>bc_verdict = ''abrupt'', bc_reason = abrupt_reason, bc_incident_id = Some iid\<rparr>, fs(f \<mapsto> ie_dumps env inc))))))"

definition clean_reason :: string where
  "clean_reason = ''previous boot journal ends with '' @ [CHR 0x27] @ ''Journal stopped'' @ [CHR 0x27]"

text \<open>The verdict on a boot that was not checked yet.\<close>

definition boot_verdict :: "inc_env \<Rightarrow> paths \<Rightarrow> string option \<Rightarrow> pyval dict option \<Rightarrow> files \<Rightarrow> (boot_check \<times> files) res" where
  "boot_verdict env p boot_id marker fs =
    (let tail = (case ie_runner env [''-b'', ''-1'', ''-n'', ''20'', ''--no-pager'', ''-o'', ''cat''] of
           Some t \<Rightarrow> if strip t = [] then None else Some t | None \<Rightarrow> None)
     in case tail of
          None \<Rightarrow>
            res_bind (previous_boot_id (ie_loads env) (ie_runner env)) (\<lambda>pb.
              Inr (if marker \<noteq> None \<and> truthy pb \<and> py_get (the marker) ''boot_id'' = pb
                   then \<lparr>bc_verdict = ''clean'', bc_reason = ''journal unavailable; clean-shutdown marker from the previous boot'', bc_incident_id = None\<rparr>
                   else \<lparr>bc_verdict = ''unknown'', bc_reason = ''previous boot journal unavailable'', bc_incident_id = None\<rparr>, fs))
        | Some t \<Rightarrow>
            if journal_clean t then Inr (\<lparr>bc_verdict = ''clean'', bc_reason = clean_reason, bc_incident_id = None\<rparr>, fs)
            else capture_incident env p boot_id (marker \<noteq> None) t fs)"

definition check_previous_boot :: "inc_env \<Rightarrow> paths \<Rightarrow> string option \<Rightarrow> files \<Rightarrow> (boot_check \<times> files) res" where
  "check_previous_boot env p boot_id fs =
    (let marker = read_marker (ie_loads env) fs (p_clean_marker p);
         fs = (if marker \<noteq> None \<and> ie_unlink_ok env then fs(p_clean_marker p := None) else fs)
     in if boot_id \<noteq> None \<and> boot_id \<noteq> Some [] \<and> read_text fs (p_last_boot_checked p) None = boot_id
        then Inr (\<lparr>bc_verdict = ''skipped'', bc_reason = ''previous boot already checked'', bc_incident_id = None\<rparr>, fs)
        else res_bind (boot_verdict env p boot_id marker fs) (\<lambda>(r, fs).
          Inr (r, case boot_id of
                    Some b \<Rightarrow> if b = [] \<or> ie_write_err env (p_last_boot_checked p) \<noteq> None then fs else fs(p_last_boot_checked p \<mapsto> b @ nl)
                  | None \<Rightarrow> fs)))"

section \<open>Listing and loading\<close>

definition incident_summary :: "pyval dict \<Rightarrow> pyval dict" where
  "incident_summary inc = map (\<lambda>k. (k, py_get inc k)) [''id'', ''detected_at'', ''boot_id'', ''last_sample_time'', ''reason'']
     @ [(''n_samples'', PInt (case py_get inc ''samples'' of PList l \<Rightarrow> int (length l) | PDict d \<Rightarrow> int (length d) | PStr s \<Rightarrow> int (length s) | _ \<Rightarrow> 0))]"

fun incident_rows :: "json_loads \<Rightarrow> files \<Rightarrow> string list \<Rightarrow> pyval dict list res" where
  "incident_rows loads fs [] = Inr []"
| "incident_rows loads fs (f # rest) =
    (case Option.bind (fs f) loads of
       None \<Rightarrow> incident_rows loads fs rest
     | Some (PDict inc) \<Rightarrow> res_bind (incident_rows loads fs rest) (\<lambda>r. Inr (incident_summary inc # r))
     | Some _ \<Rightarrow> attr_error)"

definition list_incidents :: "json_loads \<Rightarrow> globber \<Rightarrow> files \<Rightarrow> string \<Rightarrow> pyval dict list res" where
  "list_incidents loads glob fs dir = incident_rows loads fs (rev (sort (glob (path_join dir ''*.json''))))"

definition id_char :: "char \<Rightarrow> bool" where
  "id_char c = (let n = (of_char c :: nat) in (48 \<le> n \<and> n \<le> 57) \<or> (65 \<le> n \<and> n \<le> 90) \<or> (97 \<le> n \<and> n \<le> 122) \<or> n = 95 \<or> n = 45)"

text \<open>\<open>_ID_RE\<close>: the end anchor also matches before a final line feed.\<close>

definition id_ok :: "string \<Rightarrow> bool" where
  "id_ok s = (let t = (if s \<noteq> [] \<and> last s = CHR 0x0A then butlast s else s) in 1 \<le> length t \<and> length t \<le> 80 \<and> list_all id_char t)"

definition load_incident :: "json_loads \<Rightarrow> files \<Rightarrow> string \<Rightarrow> string \<Rightarrow> pyval option" where
  "load_incident loads fs dir iid = (if id_ok iid then Option.bind (fs (path_join dir (iid @ ''.json''))) loads else None)"

section \<open>Properties\<close>

lemma id_ok_plain: "id_ok s \<Longrightarrow> s \<noteq> [] \<and> CHR ''/'' \<notin> set s \<and> CHR ''.'' \<notin> set s \<and> length s \<le> 81"
proof -
  assume s: "id_ok s"
  have c: "\<not> id_char CHR ''/''" "\<not> id_char CHR ''.''" by (simp_all add: id_char_def)
  show ?thesis
  proof (cases "s \<noteq> [] \<and> last s = CHR 0x0A")
    case True
    then obtain t where t: "s = t @ [CHR 0x0A]" by (metis append_butlast_last_id)
    with s c show ?thesis by (auto simp: id_ok_def Let_def list_all_iff)
  next
    case False
    with s c show ?thesis by (auto simp: id_ok_def Let_def list_all_iff)
  qed
qed

text \<open>
  C29: whatever id a client sends, an incident is only ever read from a file directly in the
  incident directory: an id that is accepted has no slash and no dot, so the path read is the
  directory, the id and \<open>.json\<close>; every other id gives nothing.
\<close>

theorem load_incident_confined:
  "(id_ok iid \<longrightarrow> CHR ''/'' \<notin> set iid \<and> CHR ''.'' \<notin> set iid \<and> length iid \<le> 81 \<and>
     load_incident loads fs dir iid = Option.bind (fs (dir_part dir @ iid @ ''.json'')) loads) \<and>
   (\<not> id_ok iid \<longrightarrow> load_incident loads fs dir iid = None)"
proof -
  have "load_incident loads fs dir iid = Option.bind (fs (dir_part dir @ iid @ ''.json'')) loads" if "id_ok iid"
  proof -
    have "\<not> starts_with ''/'' (iid @ ''.json'')" using id_ok_plain [OF that] by (cases iid) (auto simp: starts_with_def)
    then show ?thesis using that by (simp add: load_incident_def path_join_rel)
  qed
  then show ?thesis using id_ok_plain [of iid] by (auto simp: load_incident_def)
qed

theorem load_incident_confined_witness:
  "load_incident (\<lambda>t. Some (PStr t)) [''/i/a-1.json'' \<mapsto> ''x''] ''/i'' ''a-1'' = Some (PStr ''x'') \<and>
   load_incident (\<lambda>t. Some (PStr t)) [''/i/../x.json'' \<mapsto> ''x''] ''/i'' ''../x'' = None"
proof -
  have i: "id_ok ''a-1''" "\<not> id_ok ''../x''" by code_simp+
  have d: "dir_part ''/i'' = ''/i/''" by code_simp
  show ?thesis
    using load_incident_confined [of "''a-1''" "\<lambda>t. Some (PStr t)" "[''/i/a-1.json'' \<mapsto> ''x'']" "''/i''"]
      load_incident_confined [of "''../x''" "\<lambda>t. Some (PStr t)" "[''/i/../x.json'' \<mapsto> ''x'']" "''/i''"] i
    by (simp add: d)
qed

text \<open>What a verdict means.\<close>

lemma capture_incident_abrupt:
  "capture_incident env p boot_id mk t fs = Inr (r, fs') \<Longrightarrow> bc_verdict r = ''abrupt'' \<and>
     (\<exists>iid. bc_incident_id r = Some iid \<and> fs' (path_join (p_incidents_dir p) (iid @ ''.json'')) \<noteq> None)"
  by (auto simp: capture_incident_def res_bind_Inr Let_def case_prod_beta split: option.splits)

lemma boot_verdict_meaning:
  assumes "boot_verdict env p boot_id marker fs = Inr (r, fs')"
    "ie_runner env [''-b'', ''-1'', ''-n'', ''20'', ''--no-pager'', ''-o'', ''cat''] = Some t" "strip t \<noteq> []"
  shows "bc_verdict r = (if journal_clean t then ''clean'' else ''abrupt'')"
  using assms capture_incident_abrupt [of env p boot_id "marker \<noteq> None" t fs r fs']
  by (auto simp: boot_verdict_def Let_def split: if_splits)

lemma boot_verdict_no_journal:
  assumes "boot_verdict env p boot_id marker fs = Inr (r, fs')"
    "ie_runner env [''-b'', ''-1'', ''-n'', ''20'', ''--no-pager'', ''-o'', ''cat''] = None"
  shows "bc_verdict r = ''unknown'' \<or> bc_verdict r = ''clean'' \<and>
    (\<exists>m pb. marker = Some m \<and> previous_boot_id (ie_loads env) (ie_runner env) = Inr pb \<and> truthy pb \<and> py_get m ''boot_id'' = pb)"
  using assms by (auto simp: boot_verdict_def Let_def res_bind_Inr split: if_splits)

lemma strip_nl: "strip b = b \<Longrightarrow> strip (b @ nl) = b"
proof (cases "b = []")
  case False
  assume a: "strip b = b"
  have "dropWhile is_space b = b"
  proof (rule ccontr)
    assume "dropWhile is_space b \<noteq> b"
    then have "length (dropWhile is_space b) < length b"
      by (cases b) (auto simp: le_imp_less_Suc length_dropWhile_le split: if_splits)
    moreover have "length (strip b) \<le> length (dropWhile is_space b)" unfolding strip_def by (metis length_dropWhile_le length_rev)
    ultimately show False using a by simp
  qed
  moreover have "is_space CHR 0x0A" by (simp add: is_space_def)
  moreover have "\<not> is_space (hd b)" using False calculation(1) by (simp add: dropWhile_eq_self_iff)
  then have "dropWhile is_space (b @ nl) = dropWhile is_space b @ nl" using False by (cases b) simp_all
  moreover note this
  ultimately show ?thesis using a by (simp add: strip_def nl_def)
qed (simp add: strip_def nl_def is_space_def)

lemma state_paths_differ: "p_last_boot_checked p \<noteq> p_clean_marker p"
  by (simp add: p_last_boot_checked_def p_clean_marker_def path_join_def starts_with_def)

text \<open>
  The previous boot is examined once: after a check that could record the boot id, every later
  check during the same boot is skipped, whatever the journal or the marker then say.
\<close>

theorem boot_checked_once:
  assumes "check_previous_boot env p (Some b) fs = Inr (r, fs')" "b \<noteq> []" "strip b = b" "ie_write_err env (p_last_boot_checked p) = None"
  shows "\<exists>fs2. check_previous_boot env2 p (Some b) fs' = Inr (\<lparr>bc_verdict = ''skipped'', bc_reason = ''previous boot already checked'', bc_incident_id = None\<rparr>, fs2)"
proof -
  have r: "read_text fs' (p_last_boot_checked p) None = Some b"
    using assms strip_nl [OF assms(3)]
    by (auto simp: check_previous_boot_def Let_def res_bind_Inr read_text_def state_paths_differ split: if_splits option.splits)
  then show ?thesis
    using assms(2) by (auto simp: check_previous_boot_def Let_def read_text_def state_paths_differ split: option.splits)
qed

definition demo_inc_env :: inc_env where
  "demo_inc_env = \<lparr>ie_loads = (\<lambda>_. None), ie_dumps = (\<lambda>_. []), ie_gunzip = (\<lambda>_. None), ie_glob = (\<lambda>_. []), ie_runner = (\<lambda>_. Some ''Journal stopped''),
     ie_now = 0, ie_unlink_ok = True, ie_write_err = (\<lambda>_. None)\<rparr>"

theorem boot_checked_once_witness:
  "\<exists>fs2. check_previous_boot demo_inc_env (paths_init ''/'' [] [] []) (Some ''b1'')
      (snd (projr (check_previous_boot demo_inc_env (paths_init ''/'' [] [] []) (Some ''b1'') Map.empty)))
    = Inr (\<lparr>bc_verdict = ''skipped'', bc_reason = ''previous boot already checked'', bc_incident_id = None\<rparr>, fs2)"
proof -
  let ?c = "check_previous_boot demo_inc_env (paths_init ''/'' [] [] []) (Some ''b1'') Map.empty"
  have "is_ok ?c" by code_simp
  then obtain r fs' where c: "?c = Inr (r, fs')" by (cases ?c) auto
  have "strip ''b1'' = ''b1''" "ie_write_err demo_inc_env (p_last_boot_checked (paths_init ''/'' [] [] [])) = None"
    by code_simp+
  from boot_checked_once [OF c _ this] show ?thesis unfolding c by simp
qed

end
