(* ===== verification/Daemon.thy ===== *)
theory Daemon
  imports Sampler Fans Gpu Cpu Logger Incidents
begin

text \<open>
  \<open>daemon/main.py\<close>: the daemon that ties the components together. Its state has the files it reads
  and writes; what the sensors return in a tick, the clocks and the errors of the environment are
  arguments. A GPU mode change runs on its own thread: \<open>dm_gpu_job\<close> is the attempt under way.
\<close>

definition WATCHDOG_EVERY_S :: rat where "WATCHDOG_EVERY_S = 2"
definition WATCHDOG_MAX_STEP_AGE_S :: rat where "WATCHDOG_MAX_STEP_AGE_S = 5"
definition GPU_RETRY_EVERY_S :: rat where "GPU_RETRY_EVERY_S = 15"
definition GPU_RETRIES :: int where "GPU_RETRIES = 12"
definition GPU_RETRYABLE :: "string list" where
  "GPU_RETRYABLE = [''amdgpu device not found'', ''amdgpu hwmon not found'', ''vga_switcheroo not available'']"
definition SLOW_EVERY :: nat where "SLOW_EVERY = 4"

record dstate =
  dm_config :: "pyval dict"
  dm_fs :: files
  dm_events :: "(rat \<times> fevent) list"
  dm_sampler :: sampler
  dm_gov :: gov_state
  dm_rapl :: rapl
  dm_firmware :: pyval
  dm_readback :: "(bool \<times> string) option"
  dm_last_write :: "pyval dict option"
  dm_fan :: "fan_ctl option"
  dm_gpu :: gpu
  dm_gpu_result :: "gpu_result option"
  dm_gpu_retry_left :: int
  dm_gpu_retry_next :: "rat option"
  dm_gpu_job :: "int option"
  dm_gpu_old :: "int list"
  dm_logger :: "slogger option"
  dm_meter :: "pyval option"
  dm_meter_prev :: "rat \<times> rat"
  dm_errors :: "(string \<times> string \<times> rat) list"
  dm_last_step_ok :: "rat option"
  dm_loop_start :: "rat option"
  dm_ready :: bool
  dm_last_wd :: "rat option"
  dm_sent :: "string list"
  dm_reload :: bool
  dm_status :: "pyval dict"
  dm_boot_id :: "string option"
  dm_started_wall :: rat
  dm_incident_check :: "pyval dict"
  dm_cpu :: cpu_reader
  dm_smc :: "smc option"

record denv =
  dv_paths :: paths
  dv_drv :: driver
  dv_msr :: "files \<Rightarrow> msr_limit option"
  dv_fan_io :: "files fan_io"
  dv_gpu :: gpu_env
  dv_sleep :: "files \<Rightarrow> files"
  dv_log :: log_env
  dv_dumps :: "pyval \<Rightarrow> string"
  dv_digest :: "pyval dict \<Rightarrow> string"
  dv_exc_repr :: "py_exn \<Rightarrow> string"
  dv_exc_str :: "py_exn \<Rightarrow> string"
  dv_read_config :: "files \<Rightarrow> read_outcome"
  dv_save_fault :: save_fault
  dv_save_unlink :: bool
  dv_tmp :: string
  dv_page_size :: int
  dv_clients :: nat
  dv_wall :: rat
  dv_host :: string
  dv_version :: string
  dv_glob :: globber
  dv_smc_io :: "string \<Rightarrow> files smc_io"
  dv_inc :: inc_env
  dv_val_repr :: "pyval \<Rightarrow> string"

text \<open>\<open>dm_events\<close> has every event in the order of emission; the event log keeps the last 1000.\<close>

definition d_emits :: "denv \<Rightarrow> fevent list \<Rightarrow> dstate \<Rightarrow> dstate" where
  "d_emits env evs d = d\<lparr>dm_events := dm_events d @ map (Pair (dv_wall env)) evs\<rparr>"

definition d_emit :: "denv \<Rightarrow> string \<Rightarrow> pyval dict \<Rightarrow> dstate \<Rightarrow> dstate" where
  "d_emit env typ kw d = d_emits env [(typ, kw)] d"

text \<open>\<open>_error\<close>: at most once a minute per distinct message.\<close>

definition d_error :: "denv \<Rightarrow> string \<Rightarrow> string \<Rightarrow> rat \<Rightarrow> dstate \<Rightarrow> dstate" where
  "d_error env typ msg now d =
    (if (case dget (dm_errors d) typ of None \<Rightarrow> True | Some (m, t) \<Rightarrow> msg \<noteq> m \<or> 60 < fsub now t)
     then (d_emit env typ [(''error'', PStr msg)] d)\<lparr>dm_errors := dset typ (msg, now) (dm_errors d)\<rparr> else d)"

section \<open>Applying the governor's actions\<close>

definition write_rec :: "rat \<Rightarrow> string \<Rightarrow> bool \<Rightarrow> string \<Rightarrow> rat \<Rightarrow> rat \<Rightarrow> pyval dict" where
  "write_rec wall why ok reason pl1 pl2 =
    [(''ts'', pnum (py_round 3 wall)), (''why'', PStr why), (''ok'', PBool ok), (''reason'', PStr reason), (''pl1_w'', pnum pl1), (''pl2_w'', pnum pl2)]"

definition apply_action :: "denv \<Rightarrow> action \<Rightarrow> dstate \<Rightarrow> dstate" where
  "apply_action env a d =
    (case a of
       Event typ kw \<Rightarrow> d_emit env typ kw d
     | SetLimits pl1 pl2 why \<Rightarrow>
         (let (ok, reason, a1, a2, fs) =
                (if \<not> rapl_available (dm_fs d) (dm_rapl d) then (False, ''RAPL powercap unavailable'', pl1, pl2, dm_fs d)
                 else case apply_and_verify (dv_drv env) (dv_msr env) (dm_fs d) (dm_rapl d) pl1 pl2 HARD_MAX_W (dm_firmware d) of
                        (rb, fs) \<Rightarrow> (rb_ok rb, rb_reason rb, rb_pl1_w rb, rb_pl2_w rb, fs));
              lw = write_rec (dv_wall env) why ok reason a1 a2
          in d_emit env ''write'' lw (d\<lparr>dm_readback := Some (ok, reason), dm_last_write := Some lw, dm_fs := fs\<rparr>)))"

text \<open>\<open>governor.summary\<close>.\<close>

definition gov_summary :: "gov_state \<Rightarrow> pyval dict" where
  "gov_summary s =
    [(''state'', PStr (state_name (s_state s))), (''since'', pnum (s_since s)), (''pl1_w'', onum (s_pl1_w s)), (''pl2_w'', onum (s_pl2_w s)),
     (''fallback_reason'', ostr (s_fallback_reason s)), (''retry_at'', onum (s_retry_at s)), (''backoff_s'', pnum (s_backoff_s s)),
     (''last_action'', ostr (s_last_action s)), (''thermal_cap_w'', onum (s_thermal_cap_w s)),
     (''counters'', PDict [(''cuts'', PInt (int (cuts (s_counters s)))), (''emergencies'', PInt (int (emergencies (s_counters s)))),
        (''fallbacks'', PInt (int (fallbacks (s_counters s)))), (''recoveries'', PInt (int (recoveries (s_counters s)))),
        (''writes'', PInt (int (writes (s_counters s)))), (''readback_failures'', PInt (int (readback_failures (s_counters s)))),
        (''thermal_trims'', PInt (int (thermal_trims (s_counters s))))]),
     (''time_in_state'', PDict (map (\<lambda>(k, v). (state_name k, pnum (py_round 1 v))) (s_time_in_state s)))]"

section \<open>The fan step and self-metering\<close>

definition sect_int :: "pyval dict \<Rightarrow> string \<Rightarrow> int res" where
  "sect_int d k = res_bind (sect_num d k) (\<lambda>x. Inr (trunc_rat x))"

definition fan_cfg_of :: "pyval dict \<Rightarrow> fan_cfg res" where
  "fan_cfg_of cfg =
    res_bind (cfg_section cfg ''fan'') (\<lambda>d.
    res_bind (sect_str d ''mode'') (\<lambda>mode.
    res_bind (sect_num d ''power_floor_w'') (\<lambda>pw.
    res_bind (sect_int d ''power_floor_rpm'') (\<lambda>prpm.
    res_bind (sect_num d ''t1_c'') (\<lambda>t1. res_bind (sect_int d ''t1_rpm'') (\<lambda>r1.
    res_bind (sect_num d ''t2_c'') (\<lambda>t2. res_bind (sect_int d ''t2_rpm'') (\<lambda>r2.
    res_bind (sect_num d ''t3_c'') (\<lambda>t3. res_bind (sect_int d ''t3_rpm'') (\<lambda>r3.
    res_bind (sect_num d ''hysteresis_c'') (\<lambda>h.
    res_bind (sect_num d ''step_down_interval_s'') (\<lambda>i.
    res_bind (sect_int d ''max_rpm'') (\<lambda>mx.
      Inr \<lparr>fc_mode = mode, fc_power_floor_w = pw, fc_power_floor_rpm = prpm, fc_t1_c = t1, fc_t1_rpm = r1, fc_t2_c = t2, fc_t2_rpm = r2,
           fc_t3_c = t3, fc_t3_rpm = r3, fc_hysteresis_c = h, fc_step_down_interval_s = i, fc_max_rpm = mx\<rparr>)))))))))))))"

text \<open>An operation of the fan controller on the daemon's files and events.\<close>

definition with_fan :: "denv \<Rightarrow> (files fworld \<Rightarrow> files fworld) \<Rightarrow> fan_ctl \<Rightarrow> dstate \<Rightarrow> dstate" where
  "with_fan env f c d = (case f (c, dm_fs d, []) of (c, fs, ev) \<Rightarrow> d_emits env ev (d\<lparr>dm_fan := Some c, dm_fs := fs\<rparr>))"

definition fan_step :: "denv \<Rightarrow> rat \<Rightarrow> bool \<Rightarrow> derived \<Rightarrow> dstate \<Rightarrow> dstate" where
  "fan_step env now fresh der d =
    (case dm_fan d of
       None \<Rightarrow> d
     | Some c \<Rightarrow>
         (case fan_cfg_of (dm_config d) of
            Inl e \<Rightarrow> d_error env ''fan_error'' (dv_exc_repr env e) now d
          | Inr fc \<Rightarrow>
              with_fan env (fan_tick (dv_fan_io env) (dv_wall env) now
                 (if fresh then pkg_c_of (cpu_of (sm_slow_data (dm_sampler d))) else PNone) (onum (d_pkg_median_1s der)) fc) c d))"

definition rss_mib :: "denv \<Rightarrow> files \<Rightarrow> pyval" where
  "rss_mib env fs =
    (let f = words (case read_text fs (path_join (path_join (p_proc (dv_paths env)) ''self'') ''statm'') (Some []) of Some t \<Rightarrow> t | None \<Rightarrow> [])
     in if length f < 2 then PNone
        else case parse_int (f ! 1) of Some n \<Rightarrow> pnum (py_round 1 (fdiv (of_int (n * dv_page_size env)) (2 ^ 20))) | None \<Rightarrow> PNone)"

definition meter_step :: "denv \<Rightarrow> rat \<Rightarrow> rat \<Rightarrow> dstate \<Rightarrow> dstate" where
  "meter_step env now cpu_s d =
    (case dm_meter_prev d of (pt, pc) \<Rightarrow>
      let dt = fsub now pt in
      d\<lparr>dm_meter_prev := (now, cpu_s),
        dm_meter := Some (PDict [(''cpu_pct'', if 0 < dt then pnum (py_round 1 (fdiv (fmul 100 (fsub cpu_s pc)) dt)) else PNone),
                                 (''rss_mib'', rss_mib env (dm_fs d))])\<rparr>)"

section \<open>GPU retries\<close>

definition gpu_event :: "string \<Rightarrow> int option \<Rightarrow> gpu_result \<Rightarrow> pyval dict" where
  "gpu_event req attempt r =
    [(''requested'', PStr req)] @ (case attempt of Some a \<Rightarrow> [(''attempt'', PInt a)] | None \<Rightarrow> [])
    @ [(''ok'', PBool (gr_ok r)), (''mode'', PStr (gr_mode r)), (''reason'', PStr (gr_reason r)), (''steps'', PList (map PStr (gr_steps r)))]"

text \<open>\<open>_apply_gpu_from_config\<close>: the body of the GPU thread, started with \<open>attempt\<close>. An exception ends the thread.\<close>

definition gpu_section :: "pyval dict \<Rightarrow> (string \<times> rat) res" where
  "gpu_section cfg = res_bind (cfg_section cfg ''gpu'') (\<lambda>g. res_bind (sect_str g ''mode'') (\<lambda>m. res_bind (sect_num g ''cap_w'') (\<lambda>c. Inr (m, c))))"

definition apply_gpu_from_config :: "denv \<Rightarrow> int \<Rightarrow> dstate \<Rightarrow> dstate" where
  "apply_gpu_from_config env attempt d =
    (case gpu_section (dm_config d) of
       Inl e \<Rightarrow> d
     | Inr (mode, cap_w) \<Rightarrow>
         (case apply_mode (dv_gpu env) (dv_sleep env) mode cap_w 10 (dm_gpu d, dm_fs d) of
            (r, g, fs) \<Rightarrow>
              let d = d_emit env ''gpu_mode'' (gpu_event mode (Some attempt) r) (d\<lparr>dm_gpu := g, dm_fs := fs, dm_gpu_result := Some r\<rparr>);
                  retryable = (\<not> gr_ok r \<and> list_ex (\<lambda>s. substr_of s (gr_reason r)) GPU_RETRYABLE)
              in if attempt = 0 then (if retryable then d\<lparr>dm_gpu_retry_left := GPU_RETRIES, dm_gpu_retry_next := None\<rparr> else d)
                 else if gr_ok r then
                   d_emit env ''gpu_retry_succeeded'' [(''attempt'', PInt attempt), (''mode'', PStr (gr_mode r))] (d\<lparr>dm_gpu_retry_left := 0\<rparr>)
                 else if \<not> retryable \<or> dm_gpu_retry_left d \<le> 0 then
                   d_emit env ''gpu_retry_gave_up'' [(''attempt'', PInt attempt), (''reason'', PStr (gr_reason r))] (d\<lparr>dm_gpu_retry_left := 0\<rparr>)
                 else d))"

text \<open>
  The threads: \<open>dm_gpu_job\<close> is the attempt of the thread in \<open>gpu_thread\<close> while it is alive,
  \<open>dm_gpu_old\<close> those of threads it has replaced. A thread first takes the lock (\<open>gpu_lock\<close>; from then
  on \<open>busy\<close> holds) and later ends (\<open>gpu_done\<close>), which applies the mode in one go.
\<close>

definition start_gpu_thread :: "int \<Rightarrow> dstate \<Rightarrow> dstate" where
  "start_gpu_thread attempt d =
    d\<lparr>dm_gpu_old := dm_gpu_old d @ (case dm_gpu_job d of Some a \<Rightarrow> [a] | None \<Rightarrow> []), dm_gpu_job := Some attempt\<rparr>"

definition set_busy :: "bool \<Rightarrow> dstate \<Rightarrow> dstate" where
  "set_busy b d = d\<lparr>dm_gpu := (dm_gpu d)\<lparr>gp_busy := b\<rparr>\<rparr>"

definition gpu_lock :: "dstate \<Rightarrow> dstate" where
  "gpu_lock d = (if dm_gpu_job d = None \<and> dm_gpu_old d = [] then d else set_busy True d)"

definition gpu_done :: "denv \<Rightarrow> bool \<Rightarrow> dstate \<Rightarrow> dstate" where
  "gpu_done env newest d =
    (if newest then (case dm_gpu_job d of
        Some a \<Rightarrow> (apply_gpu_from_config env a (set_busy False d))\<lparr>dm_gpu_job := None\<rparr> | None \<Rightarrow> d)
     else (case dm_gpu_old d of
        a # rest \<Rightarrow> (apply_gpu_from_config env a (set_busy False d))\<lparr>dm_gpu_old := rest\<rparr> | [] \<Rightarrow> d))"

definition maybe_retry_gpu :: "denv \<Rightarrow> rat \<Rightarrow> dstate \<Rightarrow> dstate" where
  "maybe_retry_gpu env now d =
    (if dm_gpu_retry_left d \<le> 0 \<or> dm_gpu_job d \<noteq> None \<or> gp_busy (dm_gpu d) then d
     else case dm_gpu_retry_next d of
       None \<Rightarrow> d\<lparr>dm_gpu_retry_next := Some (fadd now GPU_RETRY_EVERY_S)\<rparr>
     | Some t \<Rightarrow>
         if now < t then d
         else
           let attempt = GPU_RETRIES - dm_gpu_retry_left d + 1 in
           start_gpu_thread attempt
             (d_emit env ''gpu_retry'' [(''attempt'', PInt attempt), (''of'', PInt GPU_RETRIES),
               (''reason'', case dm_gpu_result d of Some r \<Rightarrow> PStr (gr_reason r) | None \<Rightarrow> PNone)]
             (d\<lparr>dm_gpu_retry_left := dm_gpu_retry_left d - 1, dm_gpu_retry_next := Some (fadd now GPU_RETRY_EVERY_S)\<rparr>)))"

section \<open>The status\<close>

definition derived_val :: "derived \<Rightarrow> pyval" where
  "derived_val d = PDict [(''input_mean_1s'', onum (d_input_mean_1s d)), (''input_max_1s'', onum (d_input_max_1s d)),
     (''pkg_median_1s'', onum (d_pkg_median_1s d)), (''acpw_median_10s'', onum (d_acpw_median_10s d)),
     (''noncpu_est_w'', onum (d_noncpu_est_w d)), (''headroom_w'', onum (d_headroom_w d)),
     (''pred_input_at_ceiling_w'', pnum (d_pred_input_at_ceiling_w d))]"

definition thresholds_val :: "(rat \<times> rat \<times> rat) option \<Rightarrow> pyval" where
  "thresholds_val t = (case t of None \<Rightarrow> PNone
     | Some (s, e, r) \<Rightarrow> PDict [(''shed_w'', pnum s), (''emergency_w'', pnum e), (''recover_w'', pnum r)])"

definition gpu_result_val :: "gpu_result option \<Rightarrow> pyval" where
  "gpu_result_val r = (case r of None \<Rightarrow> PNone
     | Some r \<Rightarrow> PDict [(''ok'', PBool (gr_ok r)), (''mode'', PStr (gr_mode r)), (''reason'', PStr (gr_reason r)), (''steps'', PList (map PStr (gr_steps r)))])"

text \<open>\<open>cfg[sec][k]\<close> of a configuration that has it.\<close>

definition cfg_at :: "pyval dict \<Rightarrow> string \<Rightarrow> string \<Rightarrow> pyval" where
  "cfg_at cfg sec k = (case res_bind (cfg_section cfg sec) (\<lambda>d. sect_val d k) of Inr v \<Rightarrow> v | Inl _ \<Rightarrow> PNone)"

definition build_status :: "denv \<Rightarrow> rat \<Rightarrow> derived option \<Rightarrow> dstate \<Rightarrow> pyval dict res" where
  "build_status env now der d =
    res_bind (gov_cfg_of (dm_config d)) (\<lambda>g.
    res_bind (gpu_section (dm_config d)) (\<lambda>(gmode, gcap).
    res_bind (fan_cfg_of (dm_config d)) (\<lambda>fc.
    let sm = dm_sampler d; sd = sm_slow_data sm;
        der = (case der of Some x \<Rightarrow> x | None \<Rightarrow> derived_of now (g_ceiling_w g) sm)
    in Inr
     [(''ts'', pnum (py_round 3 (dv_wall env))), (''host'', PStr (dv_host env)), (''version'', PStr (dv_version env)),
      (''boot_id'', ostr (dm_boot_id d)), (''daemon_uptime_s'', pnum (py_round 1 (fsub (dv_wall env) (dm_started_wall d)))),
      (''self'', case dm_meter d of Some m \<Rightarrow> m | None \<Rightarrow> PNone),
      (''latest'', PDict (sm_latest sm)), (''derived'', derived_val der),
      (''thresholds'', thresholds_val (thresholds (d_acpw_median_10s der) g)),
      (''governor'', PDict ([(''mode'', PStr (g_mode g))] @ gov_summary (dm_gov d)
         @ [(''in_state_s'', pnum (py_round 1 (fsub now (s_since (dm_gov d))))), (''ceiling_w'', cfg_at (dm_config d) ''governor'' ''ceiling_w''),
            (''static_cap_w'', cfg_at (dm_config d) ''governor'' ''static_cap_w''), (''floor_w'', cfg_at (dm_config d) ''governor'' ''floor_w''),
            (''last_write'', case dm_last_write d of Some w \<Rightarrow> PDict w | None \<Rightarrow> PNone)])),
      (''limits'', PDict [(''sysfs'', py_get sd ''limits''), (''msr'', py_get sd ''msr_limits''), (''firmware'', dm_firmware d),
         (''hard_max_w'', pnum HARD_MAX_W)]),
      (''msr'', py_get sd ''msr''), (''smc'', py_get sd ''smc''), (''smc_temps'', py_get sd ''smc_temps''), (''fans'', py_get sd ''fans''),
      (''gpu'', PDict (dmerge (case dget sd ''gpu'' of Some (PDict x) \<Rightarrow> x | _ \<Rightarrow> [])
         [(''config_mode'', PStr gmode), (''cap_cfg_w'', cfg_at (dm_config d) ''gpu'' ''cap_w''), (''busy'', PBool (gp_busy (dm_gpu d))),
          (''last_result'', gpu_result_val (dm_gpu_result d))])),
      (''fan'', PDict (case dm_fan d of Some c \<Rightarrow> fan_status c
         | None \<Rightarrow> [(''mode'', PStr (fc_mode fc)), (''target_rpm'', PInt 0), (''reason'', PStr ''fan controller unavailable''), (''fans'', PList []),
              (''last_change_ts'', PNone), (''write_errors'', PInt 0)])),
      (''cpu'', py_get sd ''cpu''),
      (''peaks'', PDict (map (\<lambda>(k, p). (k, PDict [(''value'', PFloat (pk_value p)), (''ts'', pnum (pk_ts p))])) (sm_peaks sm))),
      (''smc_ok'', PBool (case dm_smc d of Some m \<Rightarrow> smc_ok m | None \<Rightarrow> False)),
      (''config_digest'', PStr (dv_digest env (dm_config d))), (''incident_check'', PDict (dm_incident_check d))])))"

section \<open>The control loop\<close>

text \<open>
  What the machine gives to one tick: the powers and SMC values of the fast sample, or what reading
  them raised; the readings of the slow sample, or what it raised and the rails and temperatures if
  they had been read by then; the process time.
\<close>

record tick_in =
  ti_fast :: "(rat option dict \<times> pyval dict) res"
  ti_slow :: "slow_reads res"
  ti_slow_part :: "(pyval dict \<times> pyval dict) option"
  ti_cpu_s :: rat

definition fast_phase :: "denv \<Rightarrow> tick_in \<Rightarrow> rat \<Rightarrow> bool \<Rightarrow> dstate \<Rightarrow> dstate" where
  "fast_phase env i now slow_tick d =
    (case ti_fast i of
       Inr (p, vals) \<Rightarrow> d\<lparr>dm_sampler := fast_step p vals now (dv_wall env) slow_tick (dm_sampler d)\<rparr>
     | Inl e \<Rightarrow> d_error env ''sample_error'' (dv_exc_repr env e) now (d\<lparr>dm_sampler := fast_failed now (dv_wall env) (dm_sampler d)\<rparr>))"

text \<open>A slow sample that raised may have renewed the slow SMC values first.\<close>

definition slow_failed :: "(pyval dict \<times> pyval dict) option \<Rightarrow> rat \<Rightarrow> sampler \<Rightarrow> sampler" where
  "slow_failed part now s =
    (case part of
       Some (rails, tmps) \<Rightarrow>
         if due (sm_smc_slow_t s) now (sm_slow_every_s s)
         then s\<lparr>sm_smc_slow := (if sm_extra s = [] then [] else map (\<lambda>(k, v). (k, round_val 3 v)) rails, tmps), sm_smc_slow_t := Some now\<rparr> else s
     | None \<Rightarrow> s)"

definition slow_phase :: "denv \<Rightarrow> tick_in \<Rightarrow> rat \<Rightarrow> bool \<Rightarrow> dstate \<Rightarrow> bool \<times> dstate" where
  "slow_phase env i now slow_tick d =
    (if \<not> slow_tick then (False, d)
     else case ti_slow i of
       Inr r \<Rightarrow> (True, d\<lparr>dm_sampler := slow r now (dv_wall env) (dm_sampler d)\<rparr>)
     | Inl e \<Rightarrow> (False, d_error env ''slow_sample_error'' (dv_exc_repr env e) now (d\<lparr>dm_sampler := slow_failed (ti_slow_part i) now (dm_sampler d)\<rparr>)))"

text \<open>The governor's part: its input with the last readback, the step, its actions in order.\<close>

definition gov_phase :: "denv \<Rightarrow> rat \<Rightarrow> gov_cfg \<Rightarrow> dstate \<Rightarrow> dstate" where
  "gov_phase env now g d =
    (case gov_step (dm_gov d) ((gov_input now (dm_sampler d))\<lparr>m_readback := dm_readback d\<rparr>) g now of
       (gs, acts) \<Rightarrow> (fold (apply_action env) acts (d\<lparr>dm_readback := None, dm_gov := gs\<rparr>))\<lparr>dm_last_step_ok := Some now\<rparr>)"

definition log_phase :: "denv \<Rightarrow> rat \<Rightarrow> gov_cfg \<Rightarrow> derived option \<Rightarrow> dstate \<Rightarrow> dstate" where
  "log_phase env now g der d =
    (case dm_logger d of
       None \<Rightarrow> d
     | Some l \<Rightarrow>
         (case aggregate now (dv_wall env) (g_ceiling_w g) (gov_summary (dm_gov d)) (map_option (\<lambda>c. PDict (fan_log_record c)) (dm_fan d)) der (dm_meter d) (dm_sampler d) of
            (r, sm) \<Rightarrow>
              (case log_write (dv_log env) (r, None) (l, dm_fs d) of
                 ((err, l, fs), ev) \<Rightarrow>
                   let d = d_emits env ev (d\<lparr>dm_sampler := sm, dm_logger := Some l, dm_fs := fs\<rparr>)
                   in (case err of Some e \<Rightarrow> d_error env ''log_error'' (dv_exc_repr env (OSError e)) now d | None \<Rightarrow> d))))"

definition status_phase :: "denv \<Rightarrow> rat \<Rightarrow> derived option \<Rightarrow> dstate \<Rightarrow> dstate" where
  "status_phase env now der d =
    (case build_status env now der d of
       Inr st \<Rightarrow> d\<lparr>dm_status := st\<rparr>
     | Inl e \<Rightarrow> d_error env ''status_error'' (dv_exc_repr env e) now d)"

text \<open>\<open>tick\<close>: the exception that leaves it, if any, and the state.\<close>

definition tick :: "denv \<Rightarrow> tick_in \<Rightarrow> rat \<Rightarrow> bool \<Rightarrow> dstate \<Rightarrow> py_exn option \<times> dstate" where
  "tick env i now slow_tick d =
    (let d = fast_phase env i now slow_tick d;
         (fresh, d) = slow_phase env i now slow_tick d
     in case gov_cfg_of (dm_config d) of
          Inl e \<Rightarrow> (Some e, d\<lparr>dm_readback := None\<rparr>)
        | Inr g \<Rightarrow>
            let d = gov_phase env now g d;
                snap = (slow_tick \<or> 0 < dv_clients env);
                der = derived_of now (g_ceiling_w g) (dm_sampler d);
                d = (if slow_tick then meter_step env now (ti_cpu_s i) (fan_step env now fresh der d) else d);
                d = (if slow_tick then log_phase env now g (Some der) d else d);
                d = maybe_retry_gpu env now d;
                d = (if snap then status_phase env now (Some der) d else d)
            in (None, d))"

definition reload_config :: "denv \<Rightarrow> dstate \<Rightarrow> dstate res" where
  "reload_config env d =
    res_bind (load (dv_read_config env (dm_fs d))) (\<lambda>(cfg, problems).
      Inr (d_emit env ''config_reload'' [(''problems'', PDict (map (\<lambda>(k, r). (k, PStr r)) problems)), (''digest'', PStr (dv_digest env cfg))]
        (d\<lparr>dm_config := cfg\<rparr>)))"

definition d_notify :: "string \<Rightarrow> dstate \<Rightarrow> dstate" where
  "d_notify msg d = d\<lparr>dm_sent := dm_sent d @ [msg]\<rparr>"

definition step_recent :: "rat \<Rightarrow> dstate \<Rightarrow> bool" where
  "step_recent now d = (case dm_last_step_ok d of Some t \<Rightarrow> fsub now t \<le> WATCHDOG_MAX_STEP_AGE_S | None \<Rightarrow> False)"

text \<open>Whether \<open>READY=1\<close> is due: a valid sample, or no sample for longer than the stale timeout and a second.\<close>

definition ready_due :: "rat \<Rightarrow> dstate \<Rightarrow> bool res" where
  "ready_due now d =
    (if truthy (py_get (sm_latest (dm_sampler d)) ''valid'') then Inr True
     else res_bind (cfg_section (dm_config d) ''governor'') (\<lambda>s. res_bind (sect_num s ''stale_timeout_s'') (\<lambda>x.
       Inr (case dm_loop_start d of Some t \<Rightarrow> fadd x 1 < fsub now t | None \<Rightarrow> False))))"

definition systemd_phase :: "rat \<Rightarrow> dstate \<Rightarrow> dstate res" where
  "systemd_phase now d =
    (let ok = step_recent now d in
     res_bind (if ok \<and> \<not> dm_ready d then ready_due now d else Inr False) (\<lambda>rdy.
       let d = (if rdy then (d_notify ''READY=1'' d)\<lparr>dm_ready := True\<rparr> else d)
       in Inr (if ok \<and> (case dm_last_wd d of Some t \<Rightarrow> WATCHDOG_EVERY_S \<le> fsub now t | None \<Rightarrow> True)
               then (d_notify ''WATCHDOG=1'' d)\<lparr>dm_last_wd := Some now\<rparr> else d)))"

definition loop_once :: "denv \<Rightarrow> tick_in \<Rightarrow> rat \<Rightarrow> nat \<Rightarrow> dstate \<Rightarrow> dstate res" where
  "loop_once env i now n d =
    (let d = (if dm_loop_start d = None then d\<lparr>dm_loop_start := Some now\<rparr> else d) in
     res_bind (if dm_reload d then reload_config env (d\<lparr>dm_reload := False\<rparr>) else Inr d) (\<lambda>d.
       let d = (case tick env i now (n mod SLOW_EVERY = 0) d of
                  (None, d) \<Rightarrow> d | (Some e, d) \<Rightarrow> d_error env ''tick_error'' (dv_exc_repr env e) now d)
       in systemd_phase now d))"

text \<open>
  \<open>run\<close>, over the readings of the clock at the top of the loop: too early, it waits; else it sets
  the next deadline and runs one iteration. The list ends when the stop event is set.
\<close>

definition FAST_PERIOD_S :: rat where "FAST_PERIOD_S = 1 / 4"

definition next_deadline :: "rat \<Rightarrow> rat \<Rightarrow> rat" where
  "next_deadline next_t now = max (fadd next_t FAST_PERIOD_S) (fadd now (fdiv FAST_PERIOD_S 2))"

fun run_loop :: "(rat \<times> denv \<times> tick_in) list \<Rightarrow> rat \<Rightarrow> nat \<Rightarrow> dstate \<Rightarrow> rat list \<times> dstate res" where
  "run_loop [] next_t n d = ([], Inr d)"
| "run_loop ((now, env, i) # rest) next_t n d =
    (if now < next_t then run_loop rest next_t n d
     else case loop_once env i now n d of
       Inl e \<Rightarrow> ([now], Inl e)
     | Inr d \<Rightarrow> (case run_loop rest (next_deadline next_t now) (n + 1) d of (ts, r) \<Rightarrow> (now # ts, r)))"

section \<open>Requests\<close>

definition str_vals :: "string dict \<Rightarrow> pyval" where
  "str_vals d = PDict (map (\<lambda>(k, r). (k, PStr r)) d)"

definition save_config :: "denv \<Rightarrow> pyval dict \<Rightarrow> files \<Rightarrow> files \<times> unit res" where
  "save_config env cfg fs =
    (case save (dv_save_fault env) (dv_save_unlink env) (dv_tmp env) (p_config (dv_paths env)) (dv_dumps env (PDict cfg)) fs of
       (trace, r) \<Rightarrow> (last trace, r))"

text \<open>\<open>set_gpu\<close>: the mode change and the persisted mode, the one actually reached.\<close>

definition set_gpu :: "denv \<Rightarrow> pyval \<Rightarrow> dstate \<Rightarrow> pyval dict res \<times> dstate" where
  "set_gpu env mode d =
    (case mode of
       PStr m \<Rightarrow>
         if m \<notin> {''auto'', ''low'', ''off''} then (Inl (ValueError ''mode must be auto, low or off''), d)
         else if gp_busy (dm_gpu d) then (Inl (ValueError ''a GPU mode change is already running''), d)
         else
           let d = d_emit env ''gpu_mode_request'' [(''mode'', mode)] (d\<lparr>dm_gpu_retry_left := 0\<rparr>) in
           (case gpu_section (dm_config d) of
              Inl e \<Rightarrow> (Inl e, d)
            | Inr (_, cap_w) \<Rightarrow>
                (case apply_mode (dv_gpu env) (dv_sleep env) m cap_w 10 (dm_gpu d, dm_fs d) of
                   (r, g, fs) \<Rightarrow>
                     let d = d\<lparr>dm_gpu := g, dm_fs := fs, dm_gpu_result := Some r\<rparr> in
                     (case apply_updates (dm_config d) [(''gpu.mode'', PStr (gr_mode r))] of
                        Inl e \<Rightarrow> (Inl e, d)
                      | Inr cfg \<Rightarrow>
                          (case save_config env cfg fs of
                             (fs, saved) \<Rightarrow>
                               let res = (case gpu_result_val (Some r) of PDict x \<Rightarrow> x | _ \<Rightarrow> [])
                                     @ (case saved of Inr _ \<Rightarrow> [(''persisted'', PBool True)]
                                        | Inl e \<Rightarrow> [(''persisted'', PBool False), (''persist_error'', PStr (dv_exc_str env e))])
                               in (Inr res, d_emit env ''gpu_mode'' ((''requested'', mode) # res) (d\<lparr>dm_config := cfg, dm_fs := fs\<rparr>))))))
     | _ \<Rightarrow> (Inl (ValueError ''mode must be auto, low or off''), d))"

definition has_prefix :: "string \<Rightarrow> pyval dict \<Rightarrow> bool" where
  "has_prefix p acc = list_ex (\<lambda>(k, _). starts_with p k) acc"

definition cpu_cfg_of :: "pyval dict \<Rightarrow> cpu_cfg res" where
  "cpu_cfg_of cfg =
    res_bind (cfg_section cfg ''cpu'') (\<lambda>d. Inr
      \<lparr>cc_no_turbo = (case py_get d ''no_turbo'' of PNone \<Rightarrow> None | v \<Rightarrow> Some (truthy v)),
       cc_max_perf_pct = (case num_of (py_get d ''max_perf_pct'') of Some x \<Rightarrow> Some (trunc_rat x) | None \<Rightarrow> None),
       cc_epp = (case py_get d ''epp'' of PStr e \<Rightarrow> Some e | _ \<Rightarrow> None)\<rparr>)"

definition apply_cpu :: "denv \<Rightarrow> dstate \<Rightarrow> dstate res" where
  "apply_cpu env d =
    res_bind (cpu_cfg_of (dm_config d)) (\<lambda>c.
      case apply_settings (dv_drv env) c (dm_cpu d) (dm_fs d) of
        (fs, msgs) \<Rightarrow> Inr (d_emits env (map (\<lambda>m. (''cpu_setting'', [(''message'', PStr m)])) msgs) (d\<lparr>dm_fs := fs\<rparr>)))"

definition log_limits :: "dstate \<Rightarrow> dstate res" where
  "log_limits d =
    (case dm_logger d of
       None \<Rightarrow> Inr d
     | Some l \<Rightarrow>
         res_bind (cfg_section (dm_config d) ''logging'') (\<lambda>s. res_bind (sect_num s ''retention_days'') (\<lambda>r. res_bind (sect_num s ''max_mib'') (\<lambda>m.
           Inr (d\<lparr>dm_logger := Some (l\<lparr>lg_retention_days := r, lg_max_mib := m\<rparr>)\<rparr>)))))"

definition fan_config :: "denv \<Rightarrow> dstate \<Rightarrow> dstate res" where
  "fan_config env d =
    (case dm_fan d of
       None \<Rightarrow> Inr d
     | Some c \<Rightarrow> res_bind (fan_cfg_of (dm_config d)) (\<lambda>fc. Inr (with_fan env (fan_on_config (dv_fan_io env) (dv_wall env) fc) c d)))"

definition side_effects :: "denv \<Rightarrow> pyval dict \<Rightarrow> dstate \<Rightarrow> dstate res" where
  "side_effects env acc d =
    res_bind (if has_prefix ''cpu.'' acc then apply_cpu env d else Inr d) (\<lambda>d.
    res_bind (if has_prefix ''logging.'' acc then log_limits d else Inr d) (\<lambda>d.
    res_bind (if has_prefix ''fan.'' acc then fan_config env d else Inr d) (\<lambda>d.
      if dhas acc ''gpu.cap_w'' then
        res_bind (gpu_section (dm_config d)) (\<lambda>(m, _).
          Inr (if m = ''auto'' \<and> \<not> gp_busy (dm_gpu d) then start_gpu_thread 0 d else d))
      else Inr d)))"

text \<open>The part of \<open>set_config\<close> under the lock and the side effects, for updates without \<open>gpu.mode\<close>.\<close>

definition store_updates :: "denv \<Rightarrow> pyval dict \<Rightarrow> dstate \<Rightarrow> (pyval dict \<times> string dict \<times> bool \<times> pyval) res \<times> dstate" where
  "store_updates env updates d =
    (case validate updates (dm_config d) of
       Inl e \<Rightarrow> (Inl e, d)
     | Inr (acc, rej) \<Rightarrow>
         if acc = [] then (Inr (acc, rej, True, PNone), d)
         else (case apply_updates (dm_config d) acc of
           Inl e \<Rightarrow> (Inl e, d)
         | Inr cfg \<Rightarrow>
             (case save_config env cfg (dm_fs d) of
                (fs, saved) \<Rightarrow>
                  let persisted = (case saved of Inr _ \<Rightarrow> True | Inl _ \<Rightarrow> False);
                      err = (case saved of Inr _ \<Rightarrow> PNone | Inl e \<Rightarrow> PStr (dv_exc_str env e));
                      d = d_emit env ''config_change'' [(''accepted'', PDict acc), (''rejected'', str_vals rej), (''persisted'', PBool persisted)]
                            (d\<lparr>dm_config := cfg, dm_fs := fs\<rparr>)
                  in (case side_effects env acc d of
                        Inl e \<Rightarrow> (Inl e, d)
                      | Inr d \<Rightarrow> (Inr (acc, rej, persisted, err), d)))))"

definition set_config :: "denv \<Rightarrow> pyval dict \<Rightarrow> dstate \<Rightarrow> pyval dict res \<times> dstate" where
  "set_config env updates d =
    (let gm = py_get updates ''gpu.mode'' in
     case store_updates env (dpop ''gpu.mode'' updates) d of
       (Inl e, d) \<Rightarrow> (Inl e, d)
     | (Inr (acc, rej, persisted, err), d) \<Rightarrow>
         let digest = dv_digest env (dm_config d);
             out = (\<lambda>acc rej. [(''accepted'', PDict acc), (''rejected'', str_vals rej), (''persisted'', PBool persisted), (''error'', err), (''digest'', PStr digest)])
         in if gm = PNone then (Inr (out acc rej), d)
            else (case gpu_section (dm_config d) of
              Inl e \<Rightarrow> (Inl e, d)
            | Inr (m, _) \<Rightarrow>
                if gm = PStr m then (Inr (out (dset ''gpu.mode'' gm acc) rej), d)
                else (case set_gpu env gm d of
                  (Inr res, d) \<Rightarrow> (Inr (out (dset ''gpu.mode'' (py_get res ''mode'') acc) rej @ [(''gpu'', PDict res)]), d)
                | (Inl (ValueError m), d) \<Rightarrow> (Inr (out acc (dset ''gpu.mode'' m rej)), d)
                | (Inl e, d) \<Rightarrow> (Inl e, d))))"

text \<open>\<open>float(x)\<close> and \<open>int(x)\<close> of a request's argument; text is converted by \<open>of_text\<close>.\<close>

definition arg_float :: "(string \<Rightarrow> rat res) \<Rightarrow> pyval \<Rightarrow> rat res" where
  "arg_float of_text v = (case v of PStr s \<Rightarrow> of_text s
     | _ \<Rightarrow> (case as_float v of Some (Fin x) \<Rightarrow> Inr (fl x) | Some NaN \<Rightarrow> Inl (ValueError ''cannot convert float NaN to integer'')
        | Some _ \<Rightarrow> Inl (OverflowError ''cannot convert float infinity to integer'') | None \<Rightarrow> Inl (TypeError ''float() argument'')))"

definition arg_int :: "pyval \<Rightarrow> int res" where
  "arg_int v = (case v of PStr s \<Rightarrow> (case parse_int s of Some n \<Rightarrow> Inr n | None \<Rightarrow> Inl (ValueError ''invalid literal for int()''))
     | _ \<Rightarrow> (case as_float v of Some (Fin x) \<Rightarrow> Inr (trunc_rat x) | Some NaN \<Rightarrow> Inl (ValueError ''cannot convert float NaN to integer'')
        | Some _ \<Rightarrow> Inl (OverflowError ''cannot convert float infinity to integer'') | None \<Rightarrow> Inl (TypeError ''int() argument'')))"

definition arg_of :: "pyval dict \<Rightarrow> string \<Rightarrow> pyval \<Rightarrow> pyval" where
  "arg_of args k dflt = (case dget args k of Some v \<Rightarrow> v | None \<Rightarrow> dflt)"

text \<open>The event log after these events (\<open>EventLog\<close> with its 1000 entries).\<close>

definition EVENTS_MAX :: nat where "EVENTS_MAX = 1000"

definition event_ring_of :: "(rat \<times> fevent) list \<Rightarrow> event_log" where
  "event_ring_of evs = \<lparr>el_events = last_n EVENTS_MAX (map (\<lambda>(t, typ, kw). event_rec t typ kw) evs), el_out = []\<rparr>"

definition reset_updates :: "pyval dict" where
  "reset_updates = filter (\<lambda>(k, _). k \<noteq> ''schema'') (flatten DEFAULTS [])"

definition dispatch :: "denv \<Rightarrow> (string \<Rightarrow> rat res) \<Rightarrow> string \<Rightarrow> pyval dict \<Rightarrow> dstate \<Rightarrow> pyval res \<times> dstate" where
  "dispatch env of_text cmd args d =
    (if cmd = ''status'' then (Inr (PDict (dm_status d)), d)
     else if cmd = ''history'' then
       (res_bind (arg_float of_text (arg_of args ''seconds'' (PInt 600))) (\<lambda>s.
          Inr (PList (map PDict (history_slice s (truthy (py_get args ''full'')) (dm_sampler d))))), d)
     else if cmd = ''config.get'' then
       (Inr (PDict [(''config'', PDict (dm_config d)), (''defaults'', PDict DEFAULTS), (''digest'', PStr (dv_digest env (dm_config d))),
                    (''path'', PStr (p_config (dv_paths env))), (''hard_max_w'', pnum HARD_MAX_W)]), d)
     else if cmd = ''config.set'' then (case set_config env args d of (r, d) \<Rightarrow> (map_sum id PDict r, d))
     else if cmd = ''config.reset'' then (case set_config env reset_updates d of (r, d) \<Rightarrow> (map_sum id PDict r, d))
     else if cmd = ''gpu.set'' then (case set_gpu env (py_get args ''mode'') d of (r, d) \<Rightarrow> (map_sum id PDict r, d))
     else if cmd = ''incidents'' then
       (map_sum id (\<lambda>rows. PList (map PDict rows))
          (list_incidents (ie_loads (dv_inc env)) (ie_glob (dv_inc env)) (dm_fs d) (p_incidents_dir (dv_paths env))), d)
     else if cmd = ''incident'' then
       (let i = arg_of args ''id'' (PStr []) in
        case load_incident (ie_loads (dv_inc env)) (dm_fs d) (p_incidents_dir (dv_paths env)) (case i of PStr s \<Rightarrow> s | _ \<Rightarrow> dv_val_repr env i) of
          Some inc \<Rightarrow> if inc = PNone then (Inl (KeyError (''no incident '' @ dv_val_repr env (py_get args ''id''))), d) else (Inr inc, d)
        | None \<Rightarrow> (Inl (KeyError (''no incident '' @ dv_val_repr env (py_get args ''id''))), d))
     else if cmd = ''events'' then
       (res_bind (arg_int (arg_of args ''n'' (PInt 100))) (\<lambda>n.
          Inr (PList (map PDict (recent (event_ring_of (dm_events d)) n)))), d)
     else if cmd = ''smc.keys'' then (Inr (PList (case dm_smc d of Some m \<Rightarrow> keys_info m | None \<Rightarrow> [])), d)
     else (Inl (ValueError (''unknown command '' @ dv_val_repr env (PStr cmd))), d))"

section \<open>Start and stop\<close>

text \<open>
  \<open>__init__\<close> and \<open>setup\<close>. What they take from outside beside the environment: the clocks, the MSR
  value and the stamp a captured firmware file gets, the sub-zones of RAPL, whether the caches can
  be saved, and the outcome of building the fan controller (an exception leaves the daemon without one).
\<close>

record setup_in =
  su_mono :: rat
  su_cpu_s :: rat
  su_hz :: int
  su_msr_val :: pyval
  su_stamp :: string
  su_subzones :: "string list"
  su_cache_saved :: bool
  su_fan_raises :: "py_exn option"
  su_fan_save_err :: "string option"
  su_server :: bool
  su_blank :: dstate

definition daemon_init :: "denv \<Rightarrow> setup_in \<Rightarrow> files \<Rightarrow> dstate res" where
  "daemon_init env u fs =
    res_bind (load (dv_read_config env fs)) (\<lambda>(cfg, problems).
      Inr (d_emits env (map (\<lambda>(k, r). (''config_problem'', [(''key'', PStr k), (''reason'', PStr r)])) problems)
        ((su_blank u)\<lparr>dm_config := cfg, dm_fs := fs, dm_events := [], dm_boot_id := read_text fs (p_boot_id (dv_paths env)) None,
           dm_readback := None, dm_last_write := None, dm_gpu_result := None, dm_incident_check := [], dm_status := [],
           dm_started_wall := dv_wall env, dm_logger := None, dm_last_step_ok := None, dm_loop_start := None, dm_ready := False,
           dm_last_wd := None, dm_sent := [], dm_reload := False, dm_errors := [], dm_gpu_job := None, dm_gpu_old := [], dm_gpu_retry_left := 0,
           dm_gpu_retry_next := None, dm_fan := None, dm_meter := None, dm_meter_prev := (su_mono u, su_cpu_s u)\<rparr>)))"

text \<open>The SMC: its selector files and its key cache are two parts of the same file system.\<close>

definition setup_smc :: "denv \<Rightarrow> setup_in \<Rightarrow> dstate \<Rightarrow> dstate res" where
  "setup_smc env u d =
    (let dir = smc_dir (dv_glob env) (dv_paths env); cache = p_smc_keys_cache (dv_paths env) in
     case dir of
       None \<Rightarrow> Inr (d_emit env ''smc_unavailable'' [(''dir'', PNone)] (d\<lparr>dm_smc := None\<rparr>))
     | Some b \<Rightarrow>
         (case smc_open (dv_smc_io env b) (ie_loads (dv_inc env)) (dv_dumps env) (dv_val_repr env) (su_cache_saved u) (su_mono u)
                 (smc_init (Some cache), dm_fs d, dm_fs d) of
            (r, m, s, cfs) \<Rightarrow>
              let d = d\<lparr>dm_smc := Some m, dm_fs := (\<lambda>p. if p = cache then cfs p else s p)\<rparr> in
              res_bind r (\<lambda>ok. Inr (if ok then d else d_emit env ''smc_unavailable'' [(''dir'', PStr b)] d))))"

definition setup_firmware :: "denv \<Rightarrow> setup_in \<Rightarrow> dstate \<Rightarrow> dstate" where
  "setup_firmware env u d =
    (case load_or_capture_firmware (ie_loads (dv_inc env)) (dv_dumps env) (dm_fs d) (p_firmware_limits (dv_paths env)) (dm_rapl d)
            (su_msr_val u) (ostr (dm_boot_id d)) (su_stamp u) False of
       (fw, warn, fs) \<Rightarrow>
         let d = d\<lparr>dm_firmware := (case fw of Some v \<Rightarrow> v | None \<Rightarrow> PNone), dm_fs := fs\<rparr>
         in (case warn of Some w \<Rightarrow> if w = [] then d else d_emit env ''firmware_limits_warning'' [(''message'', PStr w)] d | None \<Rightarrow> d))"

definition boot_check_val :: "boot_check \<Rightarrow> pyval dict" where
  "boot_check_val r = [(''verdict'', PStr (bc_verdict r)), (''reason'', PStr (bc_reason r))]
     @ (case bc_incident_id r of Some i \<Rightarrow> [(''incident_id'', PStr i)] | None \<Rightarrow> [])"

definition setup_boot_check :: "denv \<Rightarrow> dstate \<Rightarrow> dstate res" where
  "setup_boot_check env d =
    res_bind (check_previous_boot (dv_inc env) (dv_paths env) (dm_boot_id d) (dm_fs d)) (\<lambda>(r, fs).
      Inr (d_emit env ''boot_check'' (boot_check_val r) (d\<lparr>dm_incident_check := boot_check_val r, dm_fs := fs\<rparr>)))"

definition setup_logger :: "denv \<Rightarrow> dstate \<Rightarrow> dstate res" where
  "setup_logger env d =
    res_bind (cfg_section (dm_config d) ''logging'') (\<lambda>s. res_bind (sect_num s ''retention_days'') (\<lambda>r. res_bind (sect_num s ''max_mib'') (\<lambda>m.
      case slogger_init (dv_log env) (p_samples_dir (dv_paths env)) r m (dm_boot_id d) True (dm_fs d) of
        (l, fs) \<Rightarrow> Inr (d\<lparr>dm_logger := Some l, dm_fs := fs\<rparr>))))"

definition setup_fan :: "denv \<Rightarrow> setup_in \<Rightarrow> dstate \<Rightarrow> dstate" where
  "setup_fan env u d =
    (case (su_fan_raises u, fan_cfg_of (dm_config d)) of
       (Some e, _) \<Rightarrow> d_emit env ''fan_error'' [(''error'', PStr (dv_exc_repr env e))] (d\<lparr>dm_fan := None\<rparr>)
     | (None, Inl e) \<Rightarrow> d_emit env ''fan_error'' [(''error'', PStr (dv_exc_repr env e))] (d\<lparr>dm_fan := None\<rparr>)
     | (None, Inr fc) \<Rightarrow>
         let path = p_fan_defaults (dv_paths env) in
         (case fan_init (dv_fan_io env) (dm_fs d)
                 (\<lambda>c. load_or_capture (ie_loads (dv_inc env)) (dv_dumps env) (su_fan_save_err u) (su_stamp u) (Some path) (dm_fs d path \<noteq> None) (dm_fs d) c)
                 (dm_fs d) of
            (c, ev, fs) \<Rightarrow> with_fan env (fan_start (dv_fan_io env) (dv_wall env) fc) c (d_emits env ev (d\<lparr>dm_fs := fs\<rparr>))))"

definition setup_devices :: "denv \<Rightarrow> setup_in \<Rightarrow> dstate \<Rightarrow> dstate" where
  "setup_devices env u d =
    d\<lparr>dm_rapl := rapl_init (dm_fs d) (su_subzones u) (p_powercap (dv_paths env)), dm_gpu := gpu_init (dv_gpu env) (dm_fs d),
      dm_cpu := cpu_init (dv_glob env) (dm_fs d) (dv_paths env) 8 TOP_EVERY_S (su_hz u),
      dm_sampler := sampler_init (case dm_smc d of Some m \<Rightarrow> if smc_ok m then Some m else None | None \<Rightarrow> None) SMC_SLOW_EVERY_S\<rparr>"

definition setup_gov :: "setup_in \<Rightarrow> dstate \<Rightarrow> dstate" where
  "setup_gov u d =
    (let fw = valid_firmware (dm_firmware d) in d\<lparr>dm_gov := gov_initial (su_mono u) (map_option fst fw) (map_option snd fw)\<rparr>)"

definition emit_started :: "denv \<Rightarrow> gov_cfg \<Rightarrow> dstate \<Rightarrow> dstate" where
  "emit_started env g d =
    d_emit env ''started'' [(''version'', PStr (dv_version env)), (''mode'', PStr (g_mode g)),
      (''smc_keys'', PInt (case dm_smc d of Some m \<Rightarrow> int (length (smc_table m)) | None \<Rightarrow> 0)), (''firmware'', dm_firmware d)] d"

definition daemon_setup :: "denv \<Rightarrow> setup_in \<Rightarrow> dstate \<Rightarrow> dstate res" where
  "daemon_setup env u d =
    res_bind (setup_smc env u d) (\<lambda>d.
    res_bind (setup_boot_check env (setup_firmware env u (setup_devices env u d))) (\<lambda>d.
    res_bind (setup_logger env d) (\<lambda>d.
    res_bind (apply_cpu env (setup_gov u d)) (\<lambda>d.
    res_bind (gov_cfg_of (dm_config d)) (\<lambda>g.
      Inr (emit_started env g (setup_fan env u (start_gpu_thread 0 d))))))))"

text \<open>\<open>shutdown\<close>; \<open>written\<close> is the number of queued records the log writer still gets to.\<close>

definition shutdown_parts :: "denv \<Rightarrow> nat \<Rightarrow> dstate \<Rightarrow> dstate" where
  "shutdown_parts env written d =
    (let d = d_notify ''STOPPING=1'' d;
         d = (case dm_logger d of
                Some l \<Rightarrow> (case log_close (dv_log env) written (l, dm_fs d) of ((l, fs), ev) \<Rightarrow> d_emits env ev (d\<lparr>dm_logger := Some l, dm_fs := fs\<rparr>))
              | None \<Rightarrow> d);
         d = (case (dm_smc d, smc_dir (dv_glob env) (dv_paths env)) of
                (Some m, Some b) \<Rightarrow> d\<lparr>dm_fs := smc_restore (dv_smc_io env b) m (dm_fs d)\<rparr> | _ \<Rightarrow> d)
     in case dm_fan d of Some c \<Rightarrow> with_fan env (\<lambda>w. snd (fan_restore (dv_fan_io env) (dv_wall env) w)) c d | None \<Rightarrow> d)"

definition shutdown :: "denv \<Rightarrow> nat \<Rightarrow> dstate \<Rightarrow> dstate" where
  "shutdown env written d =
    (let d = shutdown_parts env written d;
         d = (case ie_write_err (dv_inc env) (p_clean_marker (dv_paths env)) of
                None \<Rightarrow> d\<lparr>dm_fs := mark_clean (dv_dumps env) (dv_wall env) (dv_paths env) (dm_fs d)\<rparr>
              | Some e \<Rightarrow> d_emit env ''mark_clean_failed'' [(''error'', PStr e)] d)
     in d_emit env ''stopped'' [] d)"

text \<open>\<open>sd_notify\<close>: where a message goes, given the variable \<open>NOTIFY_SOCKET\<close>: a leading \<open>@\<close> names the abstract namespace.\<close>

definition sd_notify_addr :: "string option \<Rightarrow> string option" where
  "sd_notify_addr v = (case v of None \<Rightarrow> None | Some [] \<Rightarrow> None
     | Some (c # r) \<Rightarrow> Some (if c = CHR ''@'' then CHR 0x00 # r else c # r))"

end
