(* ===== verification/Control.thy ===== *)
theory Control
  imports Sysfs Py_Text
begin

text \<open>
  \<open>protocol.py\<close> and the request side of \<open>daemon/server.py\<close>: newline-delimited JSON over a stream. The
  bytes a peer sends are one string (its end is the end of the connection, or the idle timeout);
  JSON is the parameters \<open>loads\<close> and \<open>dumps\<close>, and what the daemon does with a command is the
  parameter \<open>dispatch\<close> over its state.
\<close>

definition DEFAULT_SOCKET :: string where "DEFAULT_SOCKET = ''/run/turbomac/turbomacd.sock''"
definition MAX_REQUEST :: nat where "MAX_REQUEST = 64 * 1024"
definition COMMANDS :: "string list" where
  "COMMANDS = [''status'', ''history'', ''subscribe'', ''config.get'', ''config.set'', ''config.reset'', ''gpu.set'', ''incidents'',
     ''incident'', ''events'', ''smc.keys'']"

definition default_socket :: "string dict \<Rightarrow> string" where
  "default_socket env = or_str (env_get env ''TURBOMAC_SOCKET'' []) DEFAULT_SOCKET"

abbreviation LF :: char where "LF \<equiv> CHR 0x0A"

section \<open>Messages\<close>

definition encode :: "(pyval \<Rightarrow> string) \<Rightarrow> pyval \<Rightarrow> string" where
  "encode dumps obj = dumps obj @ [LF]"

text \<open>\<open>decode\<close>: the \<open>ValueError\<close> of a text that is not JSON (or not UTF-8) carries the message \<open>bad\<close>.\<close>

definition decode_msg :: "(string \<Rightarrow> pyval option) \<Rightarrow> string \<Rightarrow> string \<Rightarrow> pyval dict res" where
  "decode_msg loads bad line = (case loads line of
     None \<Rightarrow> Inl (ValueError bad)
   | Some (PDict d) \<Rightarrow> Inr d
   | Some _ \<Rightarrow> Inl (ValueError ''message must be a JSON object''))"

definition ok_msg :: "pyval \<Rightarrow> pyval \<Rightarrow> pyval dict" where
  "ok_msg result rid = [(''ok'', PBool True), (''result'', result), (''id'', rid)]"

definition error_msg :: "string \<Rightarrow> pyval \<Rightarrow> pyval dict" where
  "error_msg msg rid = [(''ok'', PBool False), (''error'', PStr msg), (''id'', rid)]"

section \<open>The connection handler\<close>

text \<open>\<open>readline(n)\<close>: up to and with the next line feed, at most \<open>n\<close> bytes; and the rest.\<close>

definition readline :: "nat \<Rightarrow> string \<Rightarrow> string \<times> string" where
  "readline n inp =
    (let l = takeWhile (\<lambda>c. c \<noteq> LF) inp; k = min n (if length l < length inp then length l + 1 else length l)
     in (take k inp, drop k inp))"

record conn_env =
  ce_loads :: "string \<Rightarrow> pyval option"
  ce_bad :: "string \<Rightarrow> string"
  ce_repr :: "string \<Rightarrow> string"
  ce_exc_repr :: "py_exn \<Rightarrow> string"

text \<open>The text of an exception raised by a command.\<close>

definition exn_reply :: "conn_env \<Rightarrow> py_exn \<Rightarrow> string" where
  "exn_reply env e = (case e of
     KeyError m \<Rightarrow> ce_repr env m
   | ValueError m \<Rightarrow> m
   | TypeError m \<Rightarrow> m
   | _ \<Rightarrow> ''internal error: '' @ ce_exc_repr env e)"

text \<open>What a request asks for: a reply at once, a subscription, or a command.\<close>

datatype request = Reject "pyval dict" | Subscribe pyval | Command string "pyval dict" pyval

definition parse_request :: "conn_env \<Rightarrow> string \<Rightarrow> request" where
  "parse_request env line =
    (case decode_msg (ce_loads env) (ce_bad env line) line of
       Inl e \<Rightarrow> Reject (error_msg (''bad request: '' @ (case e of ValueError m \<Rightarrow> m | _ \<Rightarrow> [])) PNone)
     | Inr req \<Rightarrow>
         (let rid = py_get req ''id''; args = (if truthy (py_get req ''args'') then py_get req ''args'' else PDict []) in
          case (py_get req ''cmd'', args) of
            (PStr cmd, PDict a) \<Rightarrow> if cmd = ''subscribe'' then Subscribe rid else Command cmd a rid
          | _ \<Rightarrow> Reject (error_msg ''cmd must be a string and args an object'' rid)))"

type_synonym 'st dispatcher = "string \<Rightarrow> pyval dict \<Rightarrow> 'st \<Rightarrow> pyval res \<times> 'st"

definition run_command :: "conn_env \<Rightarrow> 'st dispatcher \<Rightarrow> string \<Rightarrow> pyval dict \<Rightarrow> pyval \<Rightarrow> 'st \<Rightarrow> pyval dict \<times> 'st" where
  "run_command env dispatch cmd args rid st =
    (case dispatch cmd args st of
       (Inr v, st) \<Rightarrow> (ok_msg v rid, st)
     | (Inl e, st) \<Rightarrow> (error_msg (exn_reply env e) rid, st))"

text \<open>How a connection ends: closed by either side, or turned into a stream of statuses.\<close>

datatype conn_end = Closed | Subscribed pyval

lemma readline_rest: "n \<noteq> 0 \<Longrightarrow> fst (readline n inp) \<noteq> [] \<Longrightarrow> length (snd (readline n inp)) < length inp"
  by (cases inp) (auto simp: readline_def Let_def)

text \<open>\<open>_serve\<close>: the replies in order, how the connection ends, and the state.\<close>

function serve :: "conn_env \<Rightarrow> 'st dispatcher \<Rightarrow> string \<Rightarrow> 'st \<Rightarrow> pyval dict list \<times> conn_end \<times> 'st" where
  "serve env dispatch inp st =
    (case readline (MAX_REQUEST + 1) inp of (line, rest) \<Rightarrow>
       if line = [] then ([], Closed, st)
       else if MAX_REQUEST < length line \<or> last line \<noteq> LF then
         ([error_msg (''request exceeds '' @ str_int (int MAX_REQUEST) @ '' bytes'') PNone], Closed, st)
       else (case parse_request env line of
               Reject m \<Rightarrow> (case serve env dispatch rest st of (ms, e, st) \<Rightarrow> (m # ms, e, st))
             | Subscribe rid \<Rightarrow> ([], Subscribed rid, st)
             | Command cmd args rid \<Rightarrow>
                 (case run_command env dispatch cmd args rid st of (m, st) \<Rightarrow>
                   (case serve env dispatch rest st of (ms, e, st) \<Rightarrow> (m # ms, e, st)))))"
  by pat_completeness auto
termination
proof (relation "measure (\<lambda>(env, dispatch, inp, st). length inp)", goal_cases)
  case (2 env dispatch inp st line rest)
  then show ?case using readline_rest [of "MAX_REQUEST + 1" inp] by (cases "readline (MAX_REQUEST + 1) inp") auto
next
  case (3 env dispatch inp st line rest)
  then show ?case using readline_rest [of "MAX_REQUEST + 1" inp] by (cases "readline (MAX_REQUEST + 1) inp") auto
qed simp

declare serve.simps [simp del]

text \<open>One status of a subscription: its reply is the result of the command \<open>status\<close>; an exception ends it.\<close>

definition push_status :: "'st dispatcher \<Rightarrow> pyval \<Rightarrow> 'st \<Rightarrow> pyval dict option" where
  "push_status dispatch rid st = (case fst (dispatch ''status'' [] st) of Inr v \<Rightarrow> Some (ok_msg v rid) | Inl _ \<Rightarrow> None)"

section \<open>The client\<close>

text \<open>\<open>stream\<close> on the reply lines: the results up to the first refusal.\<close>

fun stream :: "(string \<Rightarrow> pyval option) \<Rightarrow> string list \<Rightarrow> pyval list \<times> py_exn option" where
  "stream loads [] = ([], None)"
| "stream loads (l # ls) =
    (case decode_msg loads [] l of
       Inl e \<Rightarrow> ([], Some e)
     | Inr msg \<Rightarrow>
         if \<not> truthy (py_get msg ''ok'') then
           ([], Some (ProtocolError (case dget msg ''error'' of Some (PStr m) \<Rightarrow> m | _ \<Rightarrow> ''request failed'')))
         else (case stream loads ls of (rs, e) \<Rightarrow> (py_get msg ''result'' # rs, e)))"

definition call :: "(string \<Rightarrow> pyval option) \<Rightarrow> string list \<Rightarrow> pyval res" where
  "call loads ls = (case stream loads ls of
     (r # _, _) \<Rightarrow> Inr r
   | ([], Some e) \<Rightarrow> Inl e
   | ([], None) \<Rightarrow> Inl (ProtocolError ''connection closed without a reply''))"

definition request_line :: "(pyval \<Rightarrow> string) \<Rightarrow> string \<Rightarrow> pyval dict \<Rightarrow> string" where
  "request_line dumps cmd args = encode dumps (PDict [(''cmd'', PStr cmd), (''args'', PDict args)])"

section \<open>Properties\<close>

text \<open>A request on its own.\<close>

definition handle_line :: "conn_env \<Rightarrow> 'st dispatcher \<Rightarrow> string \<Rightarrow> 'st \<Rightarrow> pyval dict \<times> 'st" where
  "handle_line env dispatch line st = (case parse_request env line of
     Reject m \<Rightarrow> (m, st) | Subscribe rid \<Rightarrow> (error_msg [] rid, st) | Command cmd args rid \<Rightarrow> run_command env dispatch cmd args rid st)"

fun handle_lines :: "conn_env \<Rightarrow> 'st dispatcher \<Rightarrow> string list \<Rightarrow> 'st \<Rightarrow> pyval dict list \<times> 'st" where
  "handle_lines env dispatch [] st = ([], st)"
| "handle_lines env dispatch (l # ls) st =
    (case handle_line env dispatch l st of (m, st) \<Rightarrow> (case handle_lines env dispatch ls st of (ms, st) \<Rightarrow> (m # ms, st)))"

definition whole_line :: "string \<Rightarrow> bool" where
  "whole_line l = (l \<noteq> [] \<and> last l = LF \<and> LF \<notin> set (butlast l) \<and> length l \<le> MAX_REQUEST)"

lemma readline_whole: "whole_line l \<Longrightarrow> readline (MAX_REQUEST + 1) (l @ rest) = (l, rest)"
proof -
  assume w: "whole_line l"
  then obtain k where k: "l = k @ [LF]" "LF \<notin> set k" by (metis whole_line_def append_butlast_last_id)
  have "takeWhile (\<lambda>c. c \<noteq> LF) (l @ rest) = k" unfolding k(1) append_assoc
    by (subst takeWhile_append2) (use k(2) in auto)
  then show ?thesis using k w by (simp add: readline_def whole_line_def Let_def)
qed

lemma serve_lines:
  assumes "list_all whole_line ls" "\<forall>l \<in> set ls. \<forall>rid. parse_request env l \<noteq> Subscribe rid"
  shows "serve env dispatch (concat ls) st = (fst (handle_lines env dispatch ls st), Closed, snd (handle_lines env dispatch ls st)) \<and>
    length (fst (handle_lines env dispatch ls st)) = length ls"
  using assms
proof (induction ls arbitrary: st)
  case Nil
  show ?case by (subst serve.simps) (simp add: readline_def)
next
  case (Cons l ls)
  have l: "whole_line l" "list_all whole_line ls" using Cons.prems by auto
  have s: "parse_request env l \<noteq> Subscribe rid" for rid using Cons.prems(2) by simp
  have rl: "readline (MAX_REQUEST + 1) (concat (l # ls)) = (l, concat ls)" using readline_whole [OF l(1)] by simp
  have ne: "l \<noteq> []" "\<not> MAX_REQUEST < length l" "last l = LF" using l(1) by (auto simp: whole_line_def)
  have "\<forall>l \<in> set ls. \<forall>rid. parse_request env l \<noteq> Subscribe rid" using Cons.prems(2) by simp
  note IH = Cons.IH [OF l(2) this]
  show ?case
  proof (cases "parse_request env l")
    case (Reject m)
    obtain ms st' where h: "handle_lines env dispatch ls st = (ms, st')" by (metis surj_pair)
    with IH [of st] rl ne Reject show ?thesis by (subst serve.simps) (simp add: handle_line_def)
  next
    case (Command cmd args rid)
    obtain m st1 where r: "run_command env dispatch cmd args rid st = (m, st1)" by (metis surj_pair)
    obtain ms st' where h: "handle_lines env dispatch ls st1 = (ms, st')" by (metis surj_pair)
    with IH [of st1] rl ne Command r show ?thesis by (subst serve.simps) (simp add: handle_line_def)
  qed (use s in blast)
qed

text \<open>
  Framing is right: on a stream of complete lines within the size limit, none of them a
  subscription, the handler gives exactly one reply to each line, in order, each the reply the line
  would get on its own, and stays open for all of them whatever the commands raise.
\<close>

theorem serve_one_reply_per_line:
  assumes "list_all whole_line ls" "\<forall>l \<in> set ls. \<forall>rid. parse_request env l \<noteq> Subscribe rid"
  shows "serve env dispatch (concat ls) st = (fst (handle_lines env dispatch ls st), Closed, snd (handle_lines env dispatch ls st)) \<and>
    length (fst (handle_lines env dispatch ls st)) = length ls"
  using serve_lines [OF assms] .

text \<open>A codec for the example: two commands, one of them unknown to the daemon.\<close>

definition demo_conn :: conn_env where
  "demo_conn = \<lparr>ce_loads = (\<lambda>l. if l = ''s'' @ [LF] then Some (PDict [(''cmd'', PStr ''status''), (''id'', PInt 7)])
       else if l = ''u'' @ [LF] then Some (PDict [(''cmd'', PStr ''nope'')]) else None),
     ce_bad = (\<lambda>_. ''not JSON''), ce_repr = id, ce_exc_repr = (\<lambda>_. [])\<rparr>"

definition demo_dispatch :: "nat dispatcher" where
  "demo_dispatch cmd args n = (if cmd = ''status'' then Inr (PInt (int n)) else Inl (ValueError ''unknown command''), n + 1)"

theorem serve_one_reply_per_line_witness:
  "serve demo_conn demo_dispatch (''s'' @ [LF] @ ''x'' @ [LF] @ ''u'' @ [LF]) 0 =
    ([ok_msg (PInt 0) (PInt 7), error_msg ''bad request: not JSON'' PNone, error_msg ''unknown command'' PNone], Closed, 2)"
proof -
  let ?ls = "[''s'' @ [LF], ''x'' @ [LF], ''u'' @ [LF]]"
  have "list_all whole_line ?ls" by (simp add: whole_line_def MAX_REQUEST_def)
  moreover have "\<forall>l \<in> set ?ls. \<forall>rid. parse_request demo_conn l \<noteq> Subscribe rid"
    by (simp add: parse_request_def demo_conn_def decode_msg_def py_get_def)
  ultimately have "serve demo_conn demo_dispatch (concat ?ls) 0 =
      (fst (handle_lines demo_conn demo_dispatch ?ls 0), Closed, snd (handle_lines demo_conn demo_dispatch ?ls 0))"
    using serve_one_reply_per_line [of ?ls demo_conn demo_dispatch 0] by blast
  then show ?thesis
    by (simp add: handle_line_def parse_request_def demo_conn_def decode_msg_def py_get_def run_command_def demo_dispatch_def exn_reply_def)
qed

text \<open>
  C40: a client's call reaches the daemon and its result comes back: on a codec that reads what it
  wrote, the reply to a call is the value the command returned, or the refusal it raised.
\<close>

theorem call_roundtrip:
  fixes args :: "pyval dict" and cmd :: string
  defines "req \<equiv> PDict [(''cmd'', PStr cmd), (''args'', PDict args)]"
  assumes "ce_loads env (encode dumps req) = Some req" "whole_line (encode dumps req)" "cmd \<noteq> ''subscribe''"
    "dispatch cmd args st = (r, st')"
    "loads (encode dumps (PDict (fst (run_command env dispatch cmd args PNone st)))) = Some (PDict (fst (run_command env dispatch cmd args PNone st)))"
  shows "call loads (map (\<lambda>m. encode dumps (PDict m)) (fst (serve env dispatch (request_line dumps cmd args) st)))
      = (case r of Inr v \<Rightarrow> Inr v | Inl e \<Rightarrow> Inl (ProtocolError (exn_reply env e)))"
proof -
  let ?l = "encode dumps req"
  have p: "parse_request env ?l = Command cmd args PNone"
    using assms(2,4) by (cases args) (simp_all add: parse_request_def decode_msg_def py_get_def req_def)
  have "\<forall>l \<in> set [?l]. \<forall>rid. parse_request env l \<noteq> Subscribe rid" "list_all whole_line [?l]" using p assms(3) by simp_all
  then have s: "fst (serve env dispatch (concat [?l]) st) = [fst (run_command env dispatch cmd args PNone st)]"
    using serve_lines [of "[?l]" env dispatch st] p by (simp add: handle_line_def split: prod.splits)
  then have "fst (serve env dispatch (request_line dumps cmd args) st) = [fst (run_command env dispatch cmd args PNone st)]"
    by (simp add: request_line_def req_def)
  with assms(5,6) show ?thesis
    by (cases r) (simp_all add: call_def decode_msg_def run_command_def ok_msg_def error_msg_def py_get_def)
qed

theorem call_roundtrip_witness:
  "call (\<lambda>l. Some (PDict (ok_msg (PInt 5) PNone)))
     (map (\<lambda>m. encode (\<lambda>_. ''m'') (PDict m)) (fst (serve (demo_conn\<lparr>ce_loads := (\<lambda>_. Some (PDict [(''cmd'', PStr ''status''), (''args'', PDict [])]))\<rparr>)
        demo_dispatch (request_line (\<lambda>_. ''m'') ''status'' []) 5))) = Inr (PInt 5)"
proof -
  let ?env = "demo_conn\<lparr>ce_loads := (\<lambda>_. Some (PDict [(''cmd'', PStr ''status''), (''args'', PDict [])]))\<rparr>"
  have d: "demo_dispatch ''status'' [] 5 = (Inr (PInt 5), 6)" by (simp add: demo_dispatch_def)
  have r: "fst (run_command ?env demo_dispatch ''status'' [] PNone 5) = ok_msg (PInt 5) PNone" by (simp add: run_command_def d)
  have w: "whole_line (encode (\<lambda>_. ''m'') (PDict [(''cmd'', PStr ''status''), (''args'', PDict [])]))"
    by (simp add: whole_line_def encode_def MAX_REQUEST_def)
  from call_roundtrip [of ?env "\<lambda>_. ''m''" "''status''" "[]" demo_dispatch 5 _ _ "\<lambda>l. Some (PDict (ok_msg (PInt 5) PNone))", OF _ w _ d]
  show ?thesis by (simp add: r)
qed

end
