(* ===== verification/Daemon_Props.thy ===== *)
theory Daemon_Props
  imports Daemon Control
begin

text \<open>
  The daemon as a whole: which parts of its state each operation leaves alone, the invariant every
  step keeps (configuration, sampler, limits written), and the properties of the control loop, of
  the requests and of start and stop.
\<close>

section \<open>Frames\<close>

text \<open>The parts of the state the invariants are about, and the operations that leave them alone.\<close>

lemma d_emits_frame [simp]:
  "dm_config (d_emits env ev d) = dm_config d" "dm_fs (d_emits env ev d) = dm_fs d" "dm_sampler (d_emits env ev d) = dm_sampler d"
  "dm_gov (d_emits env ev d) = dm_gov d" "dm_rapl (d_emits env ev d) = dm_rapl d" "dm_firmware (d_emits env ev d) = dm_firmware d"
  "dm_readback (d_emits env ev d) = dm_readback d" "dm_last_write (d_emits env ev d) = dm_last_write d" "dm_fan (d_emits env ev d) = dm_fan d"
  "dm_gpu (d_emits env ev d) = dm_gpu d" "dm_gpu_result (d_emits env ev d) = dm_gpu_result d" "dm_gpu_retry_left (d_emits env ev d) = dm_gpu_retry_left d"
  "dm_gpu_retry_next (d_emits env ev d) = dm_gpu_retry_next d" "dm_gpu_job (d_emits env ev d) = dm_gpu_job d" "dm_gpu_old (d_emits env ev d) = dm_gpu_old d"
  "dm_logger (d_emits env ev d) = dm_logger d" "dm_meter (d_emits env ev d) = dm_meter d" "dm_errors (d_emits env ev d) = dm_errors d"
  "dm_last_step_ok (d_emits env ev d) = dm_last_step_ok d" "dm_loop_start (d_emits env ev d) = dm_loop_start d" "dm_ready (d_emits env ev d) = dm_ready d"
  "dm_last_wd (d_emits env ev d) = dm_last_wd d" "dm_sent (d_emits env ev d) = dm_sent d" "dm_reload (d_emits env ev d) = dm_reload d"
  "dm_smc (d_emits env ev d) = dm_smc d" "dm_events (d_emits env ev d) = dm_events d @ map (Pair (dv_wall env)) ev"
  "dm_boot_id (d_emits env ev d) = dm_boot_id d"
  by (simp_all add: d_emits_def)

lemma d_emit_emits [simp]: "d_emit env typ kw d = d_emits env [(typ, kw)] d"
  by (simp add: d_emit_def)

text \<open>What the safety of the power limits rests on: the configuration, the sampler and the last write; and the governor's own state.\<close>

definition core_of :: "dstate \<Rightarrow> pyval dict \<times> sampler \<times> pyval dict option \<times> gov_state" where
  "core_of d = (dm_config d, dm_sampler d, dm_last_write d, dm_gov d)"

text \<open>What systemd's view rests on.\<close>

definition sd_of :: "dstate \<Rightarrow> rat option \<times> rat option \<times> bool \<times> rat option \<times> string list" where
  "sd_of d = (dm_last_step_ok d, dm_loop_start d, dm_ready d, dm_last_wd d, dm_sent d)"

lemma d_emits_core [simp]: "core_of (d_emits env ev d) = core_of d" "sd_of (d_emits env ev d) = sd_of d"
  by (simp_all add: core_of_def sd_of_def)

lemma d_error_frame [simp]: "core_of (d_error env typ msg now d) = core_of d" "sd_of (d_error env typ msg now d) = sd_of d"
  "dm_reload (d_error env typ msg now d) = dm_reload d" "dm_gpu_retry_left (d_error env typ msg now d) = dm_gpu_retry_left d"
  by (simp_all add: d_error_def core_of_def sd_of_def)

lemma with_fan_frame [simp]: "core_of (with_fan env f c d) = core_of d" "sd_of (with_fan env f c d) = sd_of d"
  by (simp_all add: with_fan_def core_of_def sd_of_def split: prod.split)

lemma fan_step_frame [simp]: "core_of (fan_step env now fresh der d) = core_of d" "sd_of (fan_step env now fresh der d) = sd_of d"
  by (simp_all add: fan_step_def split: option.split sum.split)

lemma meter_step_frame [simp]: "core_of (meter_step env now c d) = core_of d" "sd_of (meter_step env now c d) = sd_of d"
  by (simp_all add: meter_step_def core_of_def sd_of_def Let_def split: prod.split)

lemma start_gpu_thread_frame [simp]: "core_of (start_gpu_thread a d) = core_of d" "sd_of (start_gpu_thread a d) = sd_of d"
  by (simp_all add: start_gpu_thread_def core_of_def sd_of_def)

lemma core_upd [simp]:
  "core_of (d\<lparr>dm_gpu_retry_left := l\<rparr>) = core_of d" "core_of (d\<lparr>dm_gpu_retry_next := t\<rparr>) = core_of d"
  "core_of (d\<lparr>dm_status := st\<rparr>) = core_of d" "core_of (d\<lparr>dm_fs := fs\<rparr>) = core_of d" "core_of (d\<lparr>dm_logger := lg\<rparr>) = core_of d"
  "core_of (d\<lparr>dm_gpu := gp\<rparr>) = core_of d" "core_of (d\<lparr>dm_gpu_result := gr\<rparr>) = core_of d" "core_of (d\<lparr>dm_readback := rb\<rparr>) = core_of d"
  "core_of (d\<lparr>dm_gpu_job := j\<rparr>) = core_of d" "core_of (d\<lparr>dm_gpu_old := js\<rparr>) = core_of d" "core_of (d\<lparr>dm_last_step_ok := t\<rparr>) = core_of d"
  "core_of (d\<lparr>dm_loop_start := t\<rparr>) = core_of d" "core_of (d\<lparr>dm_ready := b\<rparr>) = core_of d" "core_of (d\<lparr>dm_last_wd := t\<rparr>) = core_of d"
  "core_of (d\<lparr>dm_sent := ms\<rparr>) = core_of d" "core_of (d\<lparr>dm_reload := b\<rparr>) = core_of d" "core_of (d\<lparr>dm_fan := f\<rparr>) = core_of d"
  by (simp_all add: core_of_def)

lemma sd_upd [simp]:
  "sd_of (d\<lparr>dm_gpu_retry_left := l\<rparr>) = sd_of d" "sd_of (d\<lparr>dm_gpu_retry_next := t\<rparr>) = sd_of d"
  "sd_of (d\<lparr>dm_status := st\<rparr>) = sd_of d" "sd_of (d\<lparr>dm_fs := fs\<rparr>) = sd_of d" "sd_of (d\<lparr>dm_logger := lg\<rparr>) = sd_of d"
  "sd_of (d\<lparr>dm_gpu := gp\<rparr>) = sd_of d" "sd_of (d\<lparr>dm_gpu_result := gr\<rparr>) = sd_of d" "sd_of (d\<lparr>dm_readback := rb\<rparr>) = sd_of d"
  "sd_of (d\<lparr>dm_gpu_job := j\<rparr>) = sd_of d" "sd_of (d\<lparr>dm_gpu_old := js\<rparr>) = sd_of d" "sd_of (d\<lparr>dm_reload := b\<rparr>) = sd_of d"
  "sd_of (d\<lparr>dm_config := cfg\<rparr>) = sd_of d" "sd_of (d\<lparr>dm_sampler := sm\<rparr>) = sd_of d" "sd_of (d\<lparr>dm_gov := gs\<rparr>) = sd_of d"
  "sd_of (d\<lparr>dm_last_write := lw\<rparr>) = sd_of d"
  by (simp_all add: sd_of_def)

lemma maybe_retry_frame [simp]: "core_of (maybe_retry_gpu env now d) = core_of d" "sd_of (maybe_retry_gpu env now d) = sd_of d"
  by (simp_all add: maybe_retry_gpu_def Let_def split: option.split)

lemma status_phase_frame [simp]: "core_of (status_phase env now der d) = core_of d" "sd_of (status_phase env now der d) = sd_of d"
  by (simp_all add: status_phase_def split: sum.split)

lemma apply_gpu_frame [simp]: "core_of (apply_gpu_from_config env a d) = core_of d" "sd_of (apply_gpu_from_config env a d) = sd_of d"
  by (simp_all add: apply_gpu_from_config_def Let_def split: sum.split prod.split)

lemma gpu_done_frame [simp]: "core_of (gpu_done env newest d) = core_of d" "sd_of (gpu_done env newest d) = sd_of d"
  by (simp_all add: gpu_done_def set_busy_def split: option.split list.split)

lemma gpu_lock_frame [simp]: "core_of (gpu_lock d) = core_of d" "sd_of (gpu_lock d) = sd_of d"
  by (simp_all add: gpu_lock_def set_busy_def)
section \<open>The invariant\<close>

text \<open>The limits of a write as recorded for the status, the events and the log.\<close>

definition lw_ok :: "pyval dict option \<Rightarrow> bool" where
  "lw_ok w = (case w of None \<Rightarrow> True
     | Some kw \<Rightarrow> (case (num_of (py_get kw ''pl1_w''), num_of (py_get kw ''pl2_w'')) of
         (Some a, Some b) \<Rightarrow> a \<le> HARD_MAX_W \<and> b \<le> HARD_MAX_W | _ \<Rightarrow> False))"

definition pl_ok :: "gov_state \<Rightarrow> bool" where
  "pl_ok s = ((case s_pl1_w s of Some p \<Rightarrow> p \<le> HARD_MAX_W | None \<Rightarrow> True) \<and> (case s_pl2_w s of Some q \<Rightarrow> q \<le> HARD_MAX_W | None \<Rightarrow> True))"

definition d_inv :: "dstate \<Rightarrow> bool" where
  "d_inv d = (cfg_wf (dm_config d) \<and> sampler_ok (dm_sampler d) \<and> lw_ok (dm_last_write d) \<and> pl_ok (dm_gov d))"

lemma d_inv_core: "core_of d = core_of d' \<Longrightarrow> d_inv d = d_inv d'"
  by (simp add: core_of_def d_inv_def)

lemma floor_eighth_45: "x \<le> 45 \<Longrightarrow> floor_eighth x \<le> 45"
  using floor_eighth_le [of x 360] by simp

lemma clamp_45: "clamp_limits pl1 pl2 HARD_MAX_W fw = (a, b) \<Longrightarrow> a \<le> HARD_MAX_W \<and> b \<le> HARD_MAX_W"
  by (auto simp: clamp_limits_def HARD_MAX_W_def split: option.splits intro!: floor_eighth_45)

lemma readback_clamped:
  assumes "apply_and_verify drv msr fs r pl1 pl2 hard fw = (rb, fs')"
  shows "(rb_pl1_w rb, rb_pl2_w rb) = clamp_limits pl1 pl2 hard fw"
  using assms by (auto simp: apply_and_verify_def Let_def split: prod.splits if_splits)

lemma write_rec_ok: "p \<le> HARD_MAX_W \<Longrightarrow> q \<le> HARD_MAX_W \<Longrightarrow> lw_ok (Some (write_rec wall why ok reason p q))"
  by (simp add: lw_ok_def write_rec_def py_get_def)

lemma apply_action_frame:
  "dm_config (apply_action env a d) = dm_config d" "dm_sampler (apply_action env a d) = dm_sampler d"
  "dm_gov (apply_action env a d) = dm_gov d" "sd_of (apply_action env a d) = sd_of d"
  "dm_gpu_retry_left (apply_action env a d) = dm_gpu_retry_left d" "dm_reload (apply_action env a d) = dm_reload d"
  by (simp_all add: apply_action_def Let_def split: action.split prod.split)

lemma apply_action_lw:
  assumes "lw_ok (dm_last_write d)" "\<forall>p q r. a = SetLimits p q r \<longrightarrow> p \<le> HARD_MAX_W \<and> q \<le> HARD_MAX_W"
  shows "lw_ok (dm_last_write (apply_action env a d))"
proof (cases a)
  case (SetLimits p q r)
  show ?thesis
  proof (cases "rapl_available (dm_fs d) (dm_rapl d)")
    case True
    obtain rb fs where av: "apply_and_verify (dv_drv env) (dv_msr env) (dm_fs d) (dm_rapl d) p q HARD_MAX_W (dm_firmware d) = (rb, fs)"
      by (metis surj_pair)
    have "rb_pl1_w rb \<le> HARD_MAX_W" "rb_pl2_w rb \<le> HARD_MAX_W"
      using clamp_45 [OF sym [OF readback_clamped [OF av]]] by auto
    then show ?thesis using True by (simp add: SetLimits apply_action_def av write_rec_ok Let_def)
  next
    case False
    then show ?thesis using assms(2) SetLimits by (simp add: apply_action_def write_rec_ok Let_def)
  qed
qed (use assms in \<open>simp add: apply_action_def\<close>)

lemma limits_of_set: "(p, q) \<in> set (limits_of acts) \<longleftrightarrow> (\<exists>r. SetLimits p q r \<in> set acts)"
  by (induction acts rule: limits_of.induct) auto

lemma apply_actions_frame:
  "dm_config (fold (apply_action env) acts d) = dm_config d" "dm_sampler (fold (apply_action env) acts d) = dm_sampler d"
  "dm_gov (fold (apply_action env) acts d) = dm_gov d" "sd_of (fold (apply_action env) acts d) = sd_of d"
  "dm_gpu_retry_left (fold (apply_action env) acts d) = dm_gpu_retry_left d" "dm_reload (fold (apply_action env) acts d) = dm_reload d"
  by (induction acts arbitrary: d) (simp_all add: apply_action_frame)

lemma apply_actions_lw:
  "lw_ok (dm_last_write d) \<Longrightarrow> \<forall>(p, q) \<in> set (limits_of acts). p \<le> HARD_MAX_W \<and> q \<le> HARD_MAX_W \<Longrightarrow>
     lw_ok (dm_last_write (fold (apply_action env) acts d))"
proof (induction acts arbitrary: d)
  case (Cons a acts)
  have "lw_ok (dm_last_write (apply_action env a d))" using Cons.prems by (intro apply_action_lw) auto
  moreover have "\<forall>(p, q) \<in> set (limits_of acts). p \<le> HARD_MAX_W \<and> q \<le> HARD_MAX_W" using Cons.prems(2) by (cases a) auto
  ultimately show ?case using Cons.IH by simp
qed simp

lemma gov_step_45:
  assumes "gov_step s m g now = (s', acts)"
  shows "\<forall>(p, q) \<in> set (limits_of acts). p \<le> HARD_MAX_W \<and> q \<le> HARD_MAX_W" "pl_ok s \<Longrightarrow> pl_ok s'"
proof -
  have a: "agrees s (s', acts)" using gov_step_agrees [of s m g now] assms by simp
  have m: "max1 s \<le> HARD_MAX_W" "max2 s \<le> HARD_MAX_W" by (simp_all add: max1_def max2_def)
  have "list_all (\<lambda>(p, q). p \<le> max1 s \<and> q \<le> max2 s) (limits_of acts)" using a by (simp add: agrees_def)
  then show l: "\<forall>(p, q) \<in> set (limits_of acts). p \<le> HARD_MAX_W \<and> q \<le> HARD_MAX_W"
    using m by (force simp: list_all_iff)
  have "(s_pl1_w s', s_pl2_w s') = last ((s_pl1_w s, s_pl2_w s) # map (\<lambda>(p, q). (Some p, Some q)) (limits_of acts))" "length (limits_of acts) \<le> 1"
    using a by (simp_all add: agrees_def)
  then show "pl_ok s \<Longrightarrow> pl_ok s'" using l by (cases "limits_of acts") (auto simp: pl_ok_def)
qed

lemma gov_phase_inv: "d_inv d \<Longrightarrow> d_inv (gov_phase env now g d)"
proof -
  assume i: "d_inv d"
  obtain gs acts where g: "gov_step (dm_gov d) ((gov_input now (dm_sampler d))\<lparr>m_readback := dm_readback d\<rparr>) g now = (gs, acts)"
    by (metis surj_pair)
  note s = gov_step_45 [OF g]
  have "lw_ok (dm_last_write (fold (apply_action env) acts (d\<lparr>dm_readback := None, dm_gov := gs\<rparr>)))"
    using i s(1) by (intro apply_actions_lw) (simp_all add: d_inv_def)
  with i s(2) show ?thesis by (simp add: gov_phase_def g d_inv_def apply_actions_frame)
qed

lemma gov_phase_frame: "dm_gpu_retry_left (gov_phase env now g d) = dm_gpu_retry_left d" "dm_reload (gov_phase env now g d) = dm_reload d"
  "dm_config (gov_phase env now g d) = dm_config d" "dm_sampler (gov_phase env now g d) = dm_sampler d"
  "dm_last_step_ok (gov_phase env now g d) = Some now"
  "dm_gov (gov_phase env now g d) = fst (gov_step (dm_gov d) ((gov_input now (dm_sampler d))\<lparr>m_readback := dm_readback d\<rparr>) g now)"
  by (simp_all add: gov_phase_def apply_actions_frame split: prod.split)

section \<open>A tick\<close>

lemma slow_ok: "sampler_ok s \<Longrightarrow> sampler_ok (slow r now wall s)"
  using sampler_run.step_keeps [of s "SlowE r now wall"] by simp

lemma fast_failed_ok: "sampler_ok s \<Longrightarrow> sampler_ok (fast_failed now wall s)"
  using sampler_run.step_keeps [of s "FastFailed now wall"] by simp

lemma fast_ok: "sampler_ok s \<Longrightarrow> sampler_ok (fast_step p vals now wall full s)"
  using sampler_run.step_keeps [of s "FastE p vals now wall full"] by simp

lemma slow_failed_ok: "sampler_ok s \<Longrightarrow> sampler_ok (slow_failed part now s)"
  by (simp add: slow_failed_def sampler_ok_def split: option.split)

lemma aggregate_ok: "sampler_ok s \<Longrightarrow> aggregate now wall c gov fan der meter s = (r, s') \<Longrightarrow> sampler_ok s'"
  using sampler_run.step_keeps [of s "AggregateE now wall c gov fan der meter"] by simp

lemma d_error_core: "dm_config (d_error env typ msg now d) = dm_config d" "dm_sampler (d_error env typ msg now d) = dm_sampler d"
  "dm_gov (d_error env typ msg now d) = dm_gov d" "dm_last_write (d_error env typ msg now d) = dm_last_write d"
  "dm_readback (d_error env typ msg now d) = dm_readback d"
  by (simp_all add: d_error_def)

lemma fast_phase_frame: "dm_config (fast_phase env i now sl d) = dm_config d" "dm_gov (fast_phase env i now sl d) = dm_gov d"
  "dm_last_write (fast_phase env i now sl d) = dm_last_write d" "dm_readback (fast_phase env i now sl d) = dm_readback d"
  "sd_of (fast_phase env i now sl d) = sd_of d" "dm_reload (fast_phase env i now sl d) = dm_reload d"
  "dm_gpu_retry_left (fast_phase env i now sl d) = dm_gpu_retry_left d"
  by (simp_all add: fast_phase_def d_error_core split: sum.split prod.split)

lemma slow_phase_frame: "dm_config (snd (slow_phase env i now sl d)) = dm_config d" "dm_gov (snd (slow_phase env i now sl d)) = dm_gov d"
  "dm_last_write (snd (slow_phase env i now sl d)) = dm_last_write d" "dm_readback (snd (slow_phase env i now sl d)) = dm_readback d"
  "sd_of (snd (slow_phase env i now sl d)) = sd_of d" "dm_reload (snd (slow_phase env i now sl d)) = dm_reload d"
  "dm_gpu_retry_left (snd (slow_phase env i now sl d)) = dm_gpu_retry_left d"
  by (simp_all add: slow_phase_def d_error_core split: sum.split)

lemma fast_phase_inv: "d_inv d \<Longrightarrow> d_inv (fast_phase env i now sl d)"
  by (simp add: d_inv_def fast_phase_frame) (auto simp: fast_phase_def d_error_core fast_ok fast_failed_ok split: sum.split)

lemma slow_phase_inv: "d_inv d \<Longrightarrow> d_inv (snd (slow_phase env i now sl d))"
  by (simp add: d_inv_def slow_phase_frame) (auto simp: slow_phase_def d_error_core slow_ok slow_failed_ok split: sum.split)

lemma log_phase_frame: "dm_config (log_phase env now g der d) = dm_config d" "dm_gov (log_phase env now g der d) = dm_gov d"
  "dm_last_write (log_phase env now g der d) = dm_last_write d" "sd_of (log_phase env now g der d) = sd_of d"
  by (simp_all add: log_phase_def d_error_core Let_def split: option.split prod.split)

lemma log_phase_inv: "d_inv d \<Longrightarrow> d_inv (log_phase env now g der d)"
proof (cases "dm_logger d")
  case (Some l)
  assume "d_inv d"
  obtain r sm where a: "aggregate now (dv_wall env) (g_ceiling_w g) (gov_summary (dm_gov d)) (map_option (\<lambda>c. PDict (fan_log_record c)) (dm_fan d)) der (dm_meter d) (dm_sampler d) = (r, sm)"
    by (metis surj_pair)
  obtain err l' fs ev where w: "log_write (dv_log env) (r, None) (l, dm_fs d) = ((err, l', fs), ev)" by (metis surj_pair)
  have "sampler_ok sm" using \<open>d_inv d\<close> aggregate_ok [OF _ a] by (simp add: d_inv_def)
  moreover have "dm_sampler (log_phase env now g der d) = sm" by (simp add: log_phase_def Some a w Let_def d_error_core split: option.split)
  ultimately show ?thesis using \<open>d_inv d\<close> by (simp add: d_inv_def log_phase_frame)
qed (simp add: log_phase_def)

text \<open>The phases after the governor's: none of them touches what the governor's phase established.\<close>

definition after_gov :: "denv \<Rightarrow> tick_in \<Rightarrow> rat \<Rightarrow> bool \<Rightarrow> bool \<Rightarrow> gov_cfg \<Rightarrow> dstate \<Rightarrow> dstate" where
  "after_gov env i now sl fresh g d =
    (let der = derived_of now (g_ceiling_w g) (dm_sampler d);
         d = (if sl then log_phase env now g (Some der) (meter_step env now (ti_cpu_s i) (fan_step env now fresh der d)) else d);
         d = maybe_retry_gpu env now d
     in if sl \<or> 0 < dv_clients env then status_phase env now (Some der) d else d)"

lemma tick_eq:
  "tick env i now sl d =
    (case slow_phase env i now sl (fast_phase env i now sl d) of (fresh, d) \<Rightarrow>
       (case gov_cfg_of (dm_config d) of
          Inl e \<Rightarrow> (Some e, d\<lparr>dm_readback := None\<rparr>) | Inr g \<Rightarrow> (None, after_gov env i now sl fresh g (gov_phase env now g d))))"
  by (simp add: tick_def after_gov_def Let_def split: prod.split sum.split)

lemma core_parts: "core_of d = core_of d' \<Longrightarrow> dm_config d = dm_config d' \<and> dm_sampler d = dm_sampler d' \<and> dm_last_write d = dm_last_write d' \<and> dm_gov d = dm_gov d'"
  by (simp add: core_of_def)

lemma after_gov_frame: "dm_config (after_gov env i now sl fresh g d) = dm_config d" "dm_gov (after_gov env i now sl fresh g d) = dm_gov d"
  "dm_last_write (after_gov env i now sl fresh g d) = dm_last_write d" "sd_of (after_gov env i now sl fresh g d) = sd_of d"
proof -
  let ?der = "derived_of now (g_ceiling_w g) (dm_sampler d)"
  let ?l = "if sl then log_phase env now g (Some ?der) (meter_step env now (ti_cpu_s i) (fan_step env now fresh ?der d)) else d"
  have c: "core_of (after_gov env i now sl fresh g d) = core_of ?l" "sd_of (after_gov env i now sl fresh g d) = sd_of ?l"
    by (simp_all add: after_gov_def Let_def)
  have m: "core_of (meter_step env now (ti_cpu_s i) (fan_step env now fresh ?der d)) = core_of d" by simp
  show "dm_config (after_gov env i now sl fresh g d) = dm_config d" "dm_gov (after_gov env i now sl fresh g d) = dm_gov d"
    "dm_last_write (after_gov env i now sl fresh g d) = dm_last_write d" "sd_of (after_gov env i now sl fresh g d) = sd_of d"
    using core_parts [OF c(1)] core_parts [OF m] c(2) by (auto simp: log_phase_frame)
qed

lemma after_gov_inv:
  assumes "d_inv d" shows "d_inv (after_gov env i now sl fresh g d)"
proof -
  let ?der = "derived_of now (g_ceiling_w g) (dm_sampler d)"
  let ?m = "meter_step env now (ti_cpu_s i) (fan_step env now fresh ?der d)"
  have "core_of ?m = core_of d" by simp
  then have "d_inv ?m" using assms d_inv_core [of ?m d] by simp
  then have "d_inv (if sl then log_phase env now g (Some ?der) ?m else d)" using assms log_phase_inv by simp
  moreover have "core_of (after_gov env i now sl fresh g d) = core_of (if sl then log_phase env now g (Some ?der) ?m else d)"
    by (simp add: after_gov_def Let_def)
  ultimately show ?thesis using d_inv_core by blast
qed

lemma tick_inv: "d_inv d \<Longrightarrow> d_inv (snd (tick env i now sl d))"
proof -
  assume d: "d_inv d"
  obtain fresh d1 where s: "slow_phase env i now sl (fast_phase env i now sl d) = (fresh, d1)" by (metis surj_pair)
  have "d_inv d1" using slow_phase_inv [OF fast_phase_inv [OF d], of env i now sl env i now sl] s by simp
  moreover have "d_inv (d1\<lparr>dm_readback := None\<rparr>)" using calculation d_inv_core [of "d1\<lparr>dm_readback := None\<rparr>" d1] by simp
  ultimately show ?thesis by (cases "gov_cfg_of (dm_config d1)") (simp_all add: tick_eq s after_gov_inv gov_phase_inv)
qed

lemma tick_steps:
  assumes "gov_cfg_of (dm_config d) = Inr g"
  shows "fst (tick env i now sl d) = None \<and> dm_last_step_ok (snd (tick env i now sl d)) = Some now \<and>
    (\<exists>m. dm_gov (snd (tick env i now sl d)) = fst (gov_step (dm_gov d) m g now) \<and> m_readback m = dm_readback d \<and>
       (\<forall>e. ti_fast i = Inl e \<longrightarrow> m_pdtr_w m = PNone))"
proof -
  obtain fresh d1 where s: "slow_phase env i now sl (fast_phase env i now sl d) = (fresh, d1)" by (metis surj_pair)
  note S = slow_phase_frame [of env i now sl "fast_phase env i now sl d", unfolded s fast_phase_frame, simplified]
  have t: "tick env i now sl d = (None, after_gov env i now sl fresh g (gov_phase env now g d1))"
    using assms S(1) by (simp add: tick_eq s)
  have "sd_of (after_gov env i now sl fresh g (gov_phase env now g d1)) = sd_of (gov_phase env now g d1)" by (rule after_gov_frame)
  then have l: "dm_last_step_ok (after_gov env i now sl fresh g (gov_phase env now g d1)) = Some now"
    by (simp add: sd_of_def gov_phase_frame)
  let ?m = "(gov_input now (dm_sampler d1))\<lparr>m_readback := dm_readback d1\<rparr>"
  have "sm_latest (dm_sampler d1) = sm_latest (dm_sampler (fast_phase env i now sl d))"
    using s by (auto simp: slow_phase_def d_error_core slow_frame slow_failed_def split: if_splits sum.splits option.splits)
  moreover have "sm_latest (dm_sampler (fast_phase env i now sl d)) = sm_latest (fast_failed now (dv_wall env) (dm_sampler d))" if "ti_fast i = Inl e" for e
    using that by (simp add: fast_phase_def d_error_core)
  ultimately have "m_pdtr_w ?m = PNone" if "ti_fast i = Inl e" for e
    using that by (simp add: gov_input_def Let_def fast_failed_def py_get_def)
  then show ?thesis using l S by (auto simp: t after_gov_frame gov_phase_frame intro!: exI [of _ ?m])
qed

text \<open>
  C8: with a well-formed configuration every tick runs the governor and lets no exception out,
  whatever reading the sensors, the slow sample, the fans, the log or the status raise; the step
  gets the readback of the previous write, and no input power when the fast sample failed.
\<close>

theorem tick_runs_governor:
  assumes "cfg_wf (dm_config d)"
  shows "\<exists>g m. gov_cfg_of (dm_config d) = Inr g \<and> fst (tick env i now sl d) = None \<and>
    dm_last_step_ok (snd (tick env i now sl d)) = Some now \<and>
    dm_gov (snd (tick env i now sl d)) = fst (gov_step (dm_gov d) m g now) \<and> m_readback m = dm_readback d \<and>
    (\<forall>e. ti_fast i = Inl e \<longrightarrow> m_pdtr_w m = PNone)"
  using gov_cfg_of_wf [OF assms] tick_steps by blast

section \<open>The loop\<close>

lemma reload_config_inv: "d_inv d \<Longrightarrow> reload_config env d = Inr d' \<Longrightarrow> d_inv d'"
  by (auto simp: reload_config_def res_bind_Inr d_inv_def load_wf)

lemma reload_config_sd: "reload_config env d = Inr d' \<Longrightarrow> sd_of d' = sd_of d"
  by (auto simp: reload_config_def res_bind_Inr)

lemma d_error_inv: "d_inv (d_error env typ msg now d) = d_inv d"
  by (rule d_inv_core) simp

text \<open>One iteration's messages: \<open>READY=1\<close> if \<open>rdy\<close>, then \<open>WATCHDOG=1\<close> if \<open>wd\<close>.\<close>

definition sd_send :: "rat \<Rightarrow> bool \<Rightarrow> bool \<Rightarrow> dstate \<Rightarrow> dstate" where
  "sd_send now rdy wd d =
    (let d = (if rdy then (d_notify ''READY=1'' d)\<lparr>dm_ready := True\<rparr> else d)
     in if wd then (d_notify ''WATCHDOG=1'' d)\<lparr>dm_last_wd := Some now\<rparr> else d)"

definition wd_due :: "rat \<Rightarrow> dstate \<Rightarrow> bool" where
  "wd_due now d = (step_recent now d \<and> (case dm_last_wd d of Some t \<Rightarrow> WATCHDOG_EVERY_S \<le> fsub now t | None \<Rightarrow> True))"

lemma systemd_phase_eq:
  "systemd_phase now d = map_sum id (\<lambda>rdy. sd_send now rdy (wd_due now d) d) (if step_recent now d \<and> \<not> dm_ready d then ready_due now d else Inr False)"
  by (cases "if step_recent now d \<and> \<not> dm_ready d then ready_due now d else Inr False")
    (simp_all add: systemd_phase_def sd_send_def wd_due_def d_notify_def Let_def)

lemma sd_send_core: "core_of (sd_send now rdy wd d) = core_of d" "dm_last_step_ok (sd_send now rdy wd d) = dm_last_step_ok d"
  "dm_sent (sd_send now rdy wd d) = dm_sent d @ (if rdy then [''READY=1''] else []) @ (if wd then [''WATCHDOG=1''] else [])"
  "dm_ready (sd_send now rdy wd d) = (rdy \<or> dm_ready d)" "dm_last_wd (sd_send now rdy wd d) = (if wd then Some now else dm_last_wd d)"
  by (simp_all add: sd_send_def d_notify_def Let_def)

lemma map_sum_Inr: "map_sum id f r = Inr y \<longleftrightarrow> (\<exists>x. r = Inr x \<and> y = f x)"
  by (cases r) auto

lemma systemd_phase_send:
  assumes "systemd_phase now d = Inr d'"
  obtains rdy where "d' = sd_send now rdy (wd_due now d) d" "rdy \<longleftrightarrow> step_recent now d \<and> \<not> dm_ready d \<and> ready_due now d = Inr True"
  using assms unfolding systemd_phase_eq map_sum_Inr by (auto split: if_splits)

lemma systemd_phase_inv: "systemd_phase now d = Inr d' \<Longrightarrow> d_inv d' = d_inv d"
  by (erule systemd_phase_send) (simp add: d_inv_core [OF sd_send_core(1)])

lemma loop_once_inv:
  assumes "d_inv d" "loop_once env i now n d = Inr d'"
  shows "d_inv d'"
proof -
  define d0 where "d0 = (if dm_loop_start d = None then d\<lparr>dm_loop_start := Some now\<rparr> else d)"
  have i0: "d_inv d0" unfolding d0_def using assms(1) d_inv_core [of "d\<lparr>dm_loop_start := Some now\<rparr>" d] by simp
  obtain d1 where d1: "(if dm_reload d0 then reload_config env (d0\<lparr>dm_reload := False\<rparr>) else Inr d0) = Inr d1"
    and s: "systemd_phase now (case tick env i now (n mod SLOW_EVERY = 0) d1 of
        (None, d) \<Rightarrow> d | (Some e, d) \<Rightarrow> d_error env ''tick_error'' (dv_exc_repr env e) now d) = Inr d'"
    using assms(2) by (auto simp: loop_once_def d0_def [symmetric] Let_def res_bind_Inr)
  have "d_inv (d0\<lparr>dm_reload := False\<rparr>)" using i0 d_inv_core [of "d0\<lparr>dm_reload := False\<rparr>" d0] by simp
  then have "d_inv d1" using d1 i0 reload_config_inv by (auto split: if_splits)
  moreover obtain e d2 where t: "tick env i now (n mod SLOW_EVERY = 0) d1 = (e, d2)" by (metis surj_pair)
  ultimately have "d_inv d2" using tick_inv [of d1 env i now "n mod SLOW_EVERY = 0"] by simp
  then have "d_inv (case tick env i now (n mod SLOW_EVERY = 0) d1 of (None, d) \<Rightarrow> d | (Some e, d) \<Rightarrow> d_error env ''tick_error'' (dv_exc_repr env e) now d)"
    unfolding t by (cases e) (simp_all add: d_error_inv)
  then show ?thesis using systemd_phase_inv [OF s] by simp
qed

lemma systemd_phase_total:
  assumes "cfg_wf (dm_config d)" shows "\<exists>d'. systemd_phase now d = Inr d'"
proof -
  obtain s x where "cfg_section (dm_config d) ''governor'' = Inr s" "sect_num s ''stale_timeout_s'' = Inr x"
    using gov_cfg_of_wf [OF assms] by (auto simp: gov_cfg_of_def res_bind_Inr)
  then show ?thesis by (auto simp: systemd_phase_eq ready_due_def map_sum_Inr)
qed

section \<open>Requests\<close>

lemma set_mode_wf:
  assumes "cfg_wf cfg" "m \<in> {''auto'', ''low'', ''off''}"
  shows "\<exists>cfg'. apply_updates cfg [(''gpu.mode'', PStr m)] = Inr cfg' \<and> cfg_wf cfg' \<and>
    (\<forall>k x. dget SPEC k = Some x \<longrightarrow> dget (flatten cfg' []) k = (if k = ''gpu.mode'' then Some (PStr m) else dget (flatten cfg []) k))"
proof -
  let ?acc = "[(''gpu.mode'', PStr m)]"
  have f: "flat_ok (flatten cfg [])" "shape cfg" using assms(1) by (simp_all add: cfg_wf_def)
  have "val_ok ''gpu.mode'' (PStr m)" using assms(2) by (intro val_okI [of _ False "Choice [''auto'', ''low'', ''off'']"]) (auto simp: SPEC_def check_kind_def)
  then have acc: "accepted_ok ?acc" by (simp add: accepted_ok_def dwf_def)
  have "rule_ok r (dmerge (flatten cfg []) ?acc) = Inr True" if r: "r \<in> set CROSS_RULES" for r
  proof -
    have "''gpu.mode'' \<notin> rule_keys r" using r by (auto simp: CROSS_RULES_def rule_keys_def)
    then have "rule_ok r (dmerge (flatten cfg []) ?acc) = rule_ok r (flatten cfg [])" by (intro CROSS_RULES_local [OF r]) auto
    then show ?thesis using f(1) r by (simp add: flat_ok_def rules_ok_def list_all_iff)
  qed
  then have m: "flat_ok (dmerge (flatten cfg []) ?acc)" by (intro flat_ok_merge f acc) simp
  have h: "dhas (flatten cfg []) k" if "dget SPEC k = Some x" for k x using cfg_wf_has [OF assms(1) that] by (auto simp: dhas_def)
  have "\<exists>cfg'. apply_updates cfg ?acc = Inr cfg' \<and> shape cfg' \<and>
    (\<forall>k x. dget SPEC k = Some x \<longrightarrow> dget (flatten cfg' []) k = dget (dmerge (flatten cfg []) ?acc) k)"
    by (rule apply_updates_accepted [OF f(2) _ acc]) (rule h)
  then obtain cfg' where c: "apply_updates cfg ?acc = Inr cfg'" "shape cfg'"
    "\<forall>k x. dget SPEC k = Some x \<longrightarrow> dget (flatten cfg' []) k = dget (dmerge (flatten cfg []) ?acc) k" by blast
  have "flat_ok (flatten cfg' [])" using flat_ok_cong [of "flatten cfg' []" "dmerge (flatten cfg []) ?acc"] c(3) m by simp
  with c(2) have "cfg_wf cfg'" by (simp add: cfg_wf_def)
  moreover have "\<forall>k x. dget SPEC k = Some x \<longrightarrow> dget (flatten cfg' []) k = (if k = ''gpu.mode'' then Some (PStr m) else dget (flatten cfg []) k)"
    using c(3) by simp
  ultimately show ?thesis using c(1) by blast
qed

lemma apply_mode_reached:
  assumes "apply_mode env sleep m cap w (g, fs) = (r, g', fs')" "m \<in> {''auto'', ''low'', ''off''}"
  shows "gr_mode r \<in> {''auto'', ''low'', ''off''}"
  using assms by (auto simp: apply_mode_def Let_def split: if_splits option.splits prod.splits)

lemma SPEC_gpu: "dget SPEC (''gpu'' @ ''.'' @ ''mode'') = Some (False, Choice [''auto'', ''low'', ''off''])"
  "dget SPEC (''gpu'' @ ''.'' @ ''cap_w'') = Some (False, Num 5 35)"
  by (simp_all add: SPEC_def)

lemma gpu_section_wf: "cfg_wf cfg \<Longrightarrow> \<exists>m c. gpu_section cfg = Inr (m, c)"
proof -
  assume wf: "cfg_wf cfg"
  obtain d where d: "cfg_section cfg ''gpu'' = Inr d" using cfg_wf_key [OF wf SPEC_gpu(1)] by auto
  obtain m where "sect_str d ''mode'' = Inr m" using cfg_wf_choice [OF wf d SPEC_gpu(1)] by auto
  moreover obtain c where "sect_num d ''cap_w'' = Inr c" using cfg_wf_num [OF wf d SPEC_gpu(2)] by auto
  ultimately show ?thesis by (simp add: gpu_section_def d)
qed

text \<open>A GPU request either is refused and changes nothing, or ends with the mode that was reached in the configuration.\<close>

lemma set_gpu_cases:
  assumes "cfg_wf (dm_config d)" "set_gpu env mode d = (r, d')"
  obtains (refused) e where "r = Inl (ValueError e)" "d' = d"
  | (changed) m g fs res cfg where "mode = PStr m" "m \<in> {''auto'', ''low'', ''off''}" "\<not> gp_busy (dm_gpu d)" "is_ok r"
      "apply_mode (dv_gpu env) (dv_sleep env) m (snd (projr (gpu_section (dm_config d)))) 10 (dm_gpu d, dm_fs d) = (res, g, fs)"
      "apply_updates (dm_config d) [(''gpu.mode'', PStr (gr_mode res))] = Inr cfg" "cfg_wf cfg"
      "dm_config d' = cfg" "dm_fs d' = fst (save_config env cfg fs)" "dm_sampler d' = dm_sampler d" "dm_last_write d' = dm_last_write d"
      "dm_gov d' = dm_gov d" "dm_gpu_retry_left d' = 0" "dm_gpu d' = g" "sd_of d' = sd_of d" "py_get (projr r) ''mode'' = PStr (gr_mode res)"
proof (cases mode)
  case (PStr m)
  show thesis
  proof (cases "m \<in> {''auto'', ''low'', ''off''} \<and> \<not> gp_busy (dm_gpu d)")
    case True
    obtain md cap where s: "gpu_section (dm_config d) = Inr (md, cap)" using gpu_section_wf [OF assms(1)] by blast
    obtain res g fs where a: "apply_mode (dv_gpu env) (dv_sleep env) m cap 10 (dm_gpu d, dm_fs d) = (res, g, fs)" by (metis surj_pair)
    have "gr_mode res \<in> {''auto'', ''low'', ''off''}" using apply_mode_reached [OF a] True by blast
    from set_mode_wf [OF assms(1) this] obtain cfg where c: "apply_updates (dm_config d) [(''gpu.mode'', PStr (gr_mode res))] = Inr cfg" "cfg_wf cfg" by blast
    obtain fs' sv where v: "save_config env cfg fs = (fs', sv)" by (metis surj_pair)
    have m: "(m \<notin> {''auto'', ''low'', ''off''}) = False" "gp_busy (dm_gpu d) = False" using True by blast+
    have "is_ok (fst (set_gpu env mode d)) \<and> dm_config (snd (set_gpu env mode d)) = cfg \<and> dm_fs (snd (set_gpu env mode d)) = fs' \<and>
        dm_sampler (snd (set_gpu env mode d)) = dm_sampler d \<and> dm_last_write (snd (set_gpu env mode d)) = dm_last_write d \<and>
        dm_gov (snd (set_gpu env mode d)) = dm_gov d \<and> dm_gpu_retry_left (snd (set_gpu env mode d)) = 0 \<and>
        dm_gpu (snd (set_gpu env mode d)) = g \<and> sd_of (snd (set_gpu env mode d)) = sd_of d \<and> py_get (projr (fst (set_gpu env mode d))) ''mode'' = PStr (gr_mode res)"
      by (simp add: set_gpu_def PStr m s a c v Let_def gpu_result_val_def py_get_def del: apply_updates.simps insert_iff)
    with changed [of m res g fs cfg] True PStr s a c v show thesis unfolding assms(2) by simp
  next
    case False
    then consider "m \<notin> {''auto'', ''low'', ''off''}" | "m \<in> {''auto'', ''low'', ''off''}" "gp_busy (dm_gpu d)" by blast
    then have "(\<exists>e. fst (set_gpu env mode d) = Inl (ValueError e)) \<and> snd (set_gpu env mode d) = d"
      by cases (simp_all add: PStr set_gpu_def)
    then show thesis using refused unfolding assms(2) by auto
  qed
qed (use assms(2) refused in \<open>auto simp: set_gpu_def\<close>)

lemma set_gpu_inv:
  assumes "d_inv d" "set_gpu env mode d = (r, d')"
  shows "d_inv d'"
proof -
  have "cfg_wf (dm_config d)" using assms(1) by (simp add: d_inv_def)
  from this assms(2) show ?thesis by (cases rule: set_gpu_cases) (use assms(1) in \<open>simp_all add: d_inv_def\<close>)
qed

lemma apply_cpu_frame: "apply_cpu env d = Inr d' \<Longrightarrow> core_of d' = core_of d"
  unfolding apply_cpu_def res_bind_Inr by (metis (no_types, lifting) Inr_inject core_upd(4) d_emits_core(1) old.prod.case surj_pair)

lemma log_limits_frame: "log_limits d = Inr d' \<Longrightarrow> core_of d' = core_of d"
  unfolding log_limits_def by (cases "dm_logger d") (auto simp: res_bind_Inr)

lemma fan_config_frame: "fan_config env d = Inr d' \<Longrightarrow> core_of d' = core_of d"
  unfolding fan_config_def by (cases "dm_fan d") (auto simp: res_bind_Inr)

lemma side_effects_frame:
  assumes "side_effects env acc d = Inr d'" shows "core_of d' = core_of d"
proof -
  obtain d1 d2 d3 where s: "(if has_prefix ''cpu.'' acc then apply_cpu env d else Inr d) = Inr d1"
      "(if has_prefix ''logging.'' acc then log_limits d1 else Inr d1) = Inr d2"
      "(if has_prefix ''fan.'' acc then fan_config env d2 else Inr d2) = Inr d3"
    and t: "(if dhas acc ''gpu.cap_w'' then res_bind (gpu_section (dm_config d3)) (\<lambda>(m, _).
          Inr (if m = ''auto'' \<and> \<not> gp_busy (dm_gpu d3) then start_gpu_thread 0 d3 else d3)) else Inr d3) = Inr d'"
    using assms unfolding side_effects_def res_bind_Inr by blast
  have "core_of d1 = core_of d" using s(1) apply_cpu_frame by (auto split: if_splits)
  moreover have "core_of d2 = core_of d1" using s(2) log_limits_frame by (auto split: if_splits)
  moreover have "core_of d3 = core_of d2" using s(3) fan_config_frame by (auto split: if_splits)
  moreover have "core_of d' = core_of d3" using t by (auto simp: res_bind_Inr split: if_splits)
  ultimately show ?thesis by simp
qed

text \<open>Updates either leave the state as it was or store what \<open>validate\<close> accepted.\<close>

lemma store_updates_cases:
  assumes "cfg_wf (dm_config d)" "store_updates env updates d = (r, d')"
  obtains (same) "d' = d" "\<forall>acc rej p e. r = Inr (acc, rej, p, e) \<longrightarrow> acc = [] \<and> p"
  | (stored) acc rej cfg where "validate updates (dm_config d) = Inr (acc, rej)" "acc \<noteq> []" "apply_updates (dm_config d) acc = Inr cfg" "cfg_wf cfg"
      "dm_config d' = cfg" "dm_sampler d' = dm_sampler d" "dm_last_write d' = dm_last_write d" "dm_gov d' = dm_gov d"
      "\<forall>a j p e. r = Inr (a, j, p, e) \<longrightarrow> a = acc \<and> j = rej \<and> p = is_ok (snd (save_config env cfg (dm_fs d)))"
proof (cases "validate updates (dm_config d)")
  case (Inr ar)
  obtain acc rej where ar: "ar = (acc, rej)" by (cases ar)
  show thesis
  proof (cases "acc = []")
    case False
    from validate_apply [OF assms(1) Inr [unfolded ar]] obtain cfg where c: "apply_updates (dm_config d) acc = Inr cfg" "cfg_wf cfg" by blast
    obtain fs sv where v: "save_config env cfg (dm_fs d) = (fs, sv)" by (metis surj_pair)
    define d1 where "d1 = d_emits env [(''config_change'', [(''accepted'', PDict acc), (''rejected'', str_vals rej), (''persisted'', PBool (case sv of Inr _ \<Rightarrow> True | Inl _ \<Rightarrow> False))])]
        (d\<lparr>dm_config := cfg, dm_fs := fs\<rparr>)"
    have s: "store_updates env updates d = (case side_effects env acc d1 of Inl e \<Rightarrow> (Inl e, d1)
        | Inr d2 \<Rightarrow> (Inr (acc, rej, case sv of Inr _ \<Rightarrow> True | Inl _ \<Rightarrow> False, case sv of Inr _ \<Rightarrow> PNone | Inl e \<Rightarrow> PStr (dv_exc_str env e)), d2))"
      unfolding d1_def using False by (simp add: store_updates_def Inr ar c v Let_def)
    have "core_of d' = core_of d1" using assms(2) side_effects_frame [of env acc d1] unfolding s by (auto split: sum.splits)
    then have "core_of d' = (cfg, dm_sampler d, dm_last_write d, dm_gov d)" by (simp add: d1_def core_of_def)
    moreover have "\<forall>a j p e. r = Inr (a, j, p, e) \<longrightarrow> a = acc \<and> j = rej \<and> p = is_ok sv"
      using assms(2) unfolding s by (auto simp: is_ok_def split: sum.splits)
    ultimately show thesis using stored [OF Inr [unfolded ar] False c] v by (simp add: core_of_def)
  qed (use assms(2) same in \<open>auto simp: store_updates_def Inr ar\<close>)
qed (use assms(2) same in \<open>auto simp: store_updates_def\<close>)

lemma store_updates_inv: "d_inv d \<Longrightarrow> store_updates env updates d = (r, d') \<Longrightarrow> d_inv d'"
proof -
  assume i: "d_inv d" and s: "store_updates env updates d = (r, d')"
  then have "cfg_wf (dm_config d)" by (simp add: d_inv_def)
  from this s show ?thesis by (cases rule: store_updates_cases) (use i in \<open>simp_all add: d_inv_def\<close>)
qed

text \<open>The reply of a configuration request with its two dictionaries.\<close>

definition config_reply :: "pyval dict \<Rightarrow> string dict \<Rightarrow> bool \<Rightarrow> pyval \<Rightarrow> string \<Rightarrow> pyval dict" where
  "config_reply acc rej persisted err digest =
    [(''accepted'', PDict acc), (''rejected'', str_vals rej), (''persisted'', PBool persisted), (''error'', err), (''digest'', PStr digest)]"

lemma set_config_cases:
  assumes "cfg_wf (dm_config d)" "set_config env updates d = (r, d')"
  obtains (failed) e where "r = Inl e" "store_updates env (dpop ''gpu.mode'' updates) d = (Inl e, d')"
  | (plain) acc rej p err where "store_updates env (dpop ''gpu.mode'' updates) d = (Inr (acc, rej, p, err), d')"
      "r = Inr (config_reply acc rej p err (dv_digest env (dm_config d')))"
  | (kept) acc rej p err m c where "store_updates env (dpop ''gpu.mode'' updates) d = (Inr (acc, rej, p, err), d')"
      "gpu_section (dm_config d') = Inr (m, c)" "py_get updates ''gpu.mode'' = PStr m"
      "r = Inr (config_reply (dset ''gpu.mode'' (PStr m) acc) rej p err (dv_digest env (dm_config d')))"
  | (mode) acc rej p err d1 res where "store_updates env (dpop ''gpu.mode'' updates) d = (Inr (acc, rej, p, err), d1)"
      "set_gpu env (py_get updates ''gpu.mode'') d1 = (Inr res, d')"
      "r = Inr (config_reply (dset ''gpu.mode'' (py_get res ''mode'') acc) rej p err (dv_digest env (dm_config d1)) @ [(''gpu'', PDict res)])"
  | (refused) acc rej p err msg where "store_updates env (dpop ''gpu.mode'' updates) d = (Inr (acc, rej, p, err), d')"
      "set_gpu env (py_get updates ''gpu.mode'') d' = (Inl (ValueError msg), d')"
      "r = Inr (config_reply acc (dset ''gpu.mode'' msg rej) p err (dv_digest env (dm_config d')))"
proof -
  obtain r1 d1 where s: "store_updates env (dpop ''gpu.mode'' updates) d = (r1, d1)" by (metis surj_pair)
  show thesis
  proof (cases r1)
    case (Inl e)
    with assms(2) failed [of e] s show thesis by (auto simp: set_config_def)
  next
    case (Inr x)
    obtain acc rej p err where x: "x = (acc, rej, p, err)" by (metis surj_pair)
    note S = s [unfolded Inr x]
    have wf1: "cfg_wf (dm_config d1)" using assms(1) S by (cases rule: store_updates_cases) (use assms(1) in simp_all)
    obtain m c where g: "gpu_section (dm_config d1) = Inr (m, c)" using gpu_section_wf [OF wf1] by blast
    consider "py_get updates ''gpu.mode'' = PNone" | "py_get updates ''gpu.mode'' = PStr m"
      | "py_get updates ''gpu.mode'' \<noteq> PNone" "py_get updates ''gpu.mode'' \<noteq> PStr m" by blast
    then show thesis
    proof cases
      case 1
      with assms(2) plain [of acc rej p err] S show thesis by (auto simp: set_config_def config_reply_def Let_def)
    next
      case 2
      with assms(2) kept [of acc rej p err m c] S g show thesis by (auto simp: set_config_def config_reply_def Let_def)
    next
      case 3
      obtain rg d2 where sg: "set_gpu env (py_get updates ''gpu.mode'') d1 = (rg, d2)" by (metis surj_pair)
      from wf1 sg show thesis
      proof (cases rule: set_gpu_cases)
        case (refused e)
        with assms(2) 3 S g sg that(5) [of acc rej p err e] show thesis by (auto simp: set_config_def config_reply_def Let_def)
      next
        case (changed m' g' fs res cfg)
        then obtain out where "rg = Inr out" by (cases rg) simp_all
        with assms(2) 3 S g sg mode [of acc rej p err d1 out] show thesis by (auto simp: set_config_def config_reply_def Let_def)
      qed
    qed
  qed
qed

lemma set_config_inv:
  assumes "d_inv d" "set_config env updates d = (r, d')"
  shows "d_inv d'"
proof -
  have wf: "cfg_wf (dm_config d)" using assms(1) by (simp add: d_inv_def)
  note S = store_updates_inv [OF assms(1)]
  from wf assms(2) show ?thesis
    by (cases rule: set_config_cases) (use S in blast, use S in blast, use S in blast, use S set_gpu_inv in blast, use S in blast)
qed

lemma dispatch_cases:
  assumes "dispatch env of_text cmd args d = (r, d')"
  obtains "d' = d" | u r' where "set_config env u d = (r', d')" | r' where "set_gpu env (py_get args ''mode'') d = (r', d')"
proof -
  let ?c = "set_config env args d" and ?s = "set_config env reset_updates d" and ?g = "set_gpu env (py_get args ''mode'') d"
  have "d' \<in> {d, snd ?c, snd ?s, snd ?g}"
    using assms unfolding dispatch_def Let_def by (auto split: if_splits option.splits prod.splits)
  then show thesis using that by (metis insert_iff prod.collapse singletonD)
qed

lemma dispatch_inv: "d_inv d \<Longrightarrow> d_inv (snd (dispatch env of_text cmd args d))"
  by (cases rule: dispatch_cases [OF prod.collapse [symmetric], of env of_text cmd args d]) (auto dest: set_config_inv set_gpu_inv)

section \<open>Start\<close>

lemma daemon_init_start:
  assumes "daemon_init env u fs = Inr d"
  shows "cfg_wf (dm_config d)" "dm_last_write d = None" "dm_sent d = []" "\<not> dm_ready d" "dm_last_step_ok d = None"
  using assms by (auto simp: daemon_init_def res_bind_Inr load_wf)

lemma setup_smc_frame:
  assumes "setup_smc env u d = Inr d'"
  shows "core_of d' = core_of d"
proof (cases "smc_dir (dv_glob env) (dv_paths env)")
  case None
  with assms show ?thesis by (auto simp: setup_smc_def core_of_def)
next
  case (Some b)
  obtain r m s cfs where o: "smc_open (dv_smc_io env b) (ie_loads (dv_inc env)) (dv_dumps env) (dv_val_repr env) (su_cache_saved u) (su_mono u)
      (smc_init (Some (p_smc_keys_cache (dv_paths env))), dm_fs d, dm_fs d) = (r, m, s, cfs)" by (metis surj_pair)
  show ?thesis using assms by (auto simp: setup_smc_def Some o Let_def res_bind_Inr core_of_def)
qed

lemma setup_firmware_frame: "core_of (setup_firmware env u d) = core_of d"
  by (simp add: setup_firmware_def core_of_def Let_def split: prod.split option.split)

lemma setup_boot_check_frame: "setup_boot_check env d = Inr d' \<Longrightarrow> core_of d' = core_of d"
  by (auto simp: setup_boot_check_def res_bind_Inr core_of_def)

lemma setup_logger_frame:
  assumes "setup_logger env d = Inr d'" shows "core_of d' = core_of d"
proof -
  obtain s r m where c: "cfg_section (dm_config d) ''logging'' = Inr s" "sect_num s ''retention_days'' = Inr r" "sect_num s ''max_mib'' = Inr m"
    using assms unfolding setup_logger_def res_bind_Inr by blast
  obtain l fs where i: "slogger_init (dv_log env) (p_samples_dir (dv_paths env)) r m (dm_boot_id d) True (dm_fs d) = (l, fs)" by (metis surj_pair)
  show ?thesis using assms by (auto simp: setup_logger_def c i)
qed

lemma setup_fan_frame: "core_of (setup_fan env u d) = core_of d"
  by (simp add: setup_fan_def Let_def split: option.split sum.split prod.split)

lemma daemon_setup_inv:
  assumes "daemon_setup env u d = Inr d'" "cfg_wf (dm_config d)" "dm_last_write d = None"
  shows "d_inv d'"
proof -
  obtain d1 d4 d5 d6 g where 1: "setup_smc env u d = Inr d1"
    and 4: "setup_boot_check env (setup_firmware env u (setup_devices env u d1)) = Inr d4" "setup_logger env d4 = Inr d5"
    and 6: "apply_cpu env (setup_gov u d5) = Inr d6"
    and e: "d' = emit_started env g (setup_fan env u (start_gpu_thread 0 d6))"
    using assms(1) unfolding daemon_setup_def res_bind_Inr by blast
  let ?d3 = "setup_devices env u d1"
  have c1: "dm_config d1 = dm_config d" "dm_last_write d1 = None" using core_parts [OF setup_smc_frame [OF 1]] assms(3) by auto
  have c3: "dm_config ?d3 = dm_config d" "dm_last_write ?d3 = None" "sampler_ok (dm_sampler ?d3)"
    using c1 by (simp_all add: setup_devices_def sampler_init_ok)
  have "core_of d5 = core_of ?d3"
    using setup_boot_check_frame [OF 4(1)] setup_logger_frame [OF 4(2)] setup_firmware_frame [of env u ?d3] by simp
  then have c5: "dm_config d5 = dm_config d" "dm_last_write d5 = None" "sampler_ok (dm_sampler d5)" using core_parts [of d5 ?d3] c3 by auto
  have "core_of d' = core_of d6" by (simp add: e emit_started_def setup_fan_frame)
  with apply_cpu_frame [OF 6] show ?thesis using c5 assms(2)
    by (simp add: d_inv_def core_of_def lw_ok_def pl_ok_def gov_initial_def setup_gov_def Let_def)
qed

section \<open>Runs of the daemon\<close>

text \<open>
  What can happen to a running daemon: an iteration of its loop, a GPU thread taking the lock or
  ending, a request on the socket, a SIGHUP. An iteration that raises ends the daemon.
\<close>

datatype d_event =
    DLoop denv tick_in rat nat
  | DGpuLock
  | DGpuDone denv bool
  | DRequest denv "string \<Rightarrow> rat res" string "pyval dict"
  | DHup

fun d_step :: "dstate \<Rightarrow> d_event \<Rightarrow> dstate" where
  "d_step d (DLoop env i now n) = (case loop_once env i now n d of Inr d' \<Rightarrow> d' | Inl _ \<Rightarrow> d)"
| "d_step d DGpuLock = gpu_lock d"
| "d_step d (DGpuDone env newest) = gpu_done env newest d"
| "d_step d (DRequest env of_text cmd args) = snd (dispatch env of_text cmd args d)"
| "d_step d DHup = d\<lparr>dm_reload := True\<rparr>"

interpretation daemon: step_machine d_step d_inv "\<lambda>_. True"
proof
  fix d ev assume i: "d_inv d"
  show "d_inv (d_step d ev)"
  proof (cases ev)
    case (DLoop env i' now n)
    then show ?thesis using i loop_once_inv [of d env i' now n] by (auto split: sum.split)
  next
    case (DRequest env of_text cmd args)
    then show ?thesis using i by (simp add: dispatch_inv)
  next
    case DGpuLock
    then show ?thesis using i d_inv_core [OF gpu_lock_frame(1)] by simp
  next
    case (DGpuDone env newest)
    then show ?thesis using i d_inv_core [OF gpu_done_frame(1)] by simp
  next
    case DHup
    then show ?thesis using i d_inv_core [OF core_upd(16)] by simp
  qed
qed

section \<open>The watchdog\<close>

lemma tick_sd: "dm_loop_start (snd (tick env i now sl d)) = dm_loop_start d" "dm_ready (snd (tick env i now sl d)) = dm_ready d"
  "dm_last_wd (snd (tick env i now sl d)) = dm_last_wd d" "dm_sent (snd (tick env i now sl d)) = dm_sent d"
proof -
  obtain fresh d1 where s: "slow_phase env i now sl (fast_phase env i now sl d) = (fresh, d1)" by (metis surj_pair)
  have 1: "sd_of d1 = sd_of d" using slow_phase_frame(5) [of env i now sl "fast_phase env i now sl d"] by (simp add: s fast_phase_frame)
  have 2: "sd_of (after_gov env i now sl fresh g (gov_phase env now g d1)) = sd_of (gov_phase env now g d1)" for g by (rule after_gov_frame)
  have 3: "snd (sd_of (gov_phase env now g d1)) = snd (sd_of d1)" for g
    using apply_actions_frame(4) [of env _ "d1\<lparr>dm_readback := None, dm_gov := _\<rparr>"]
    by (simp add: gov_phase_def sd_of_def split: prod.split)
  have "snd (sd_of (snd (tick env i now sl d))) = snd (sd_of d)"
    using 1 2 3 by (simp add: tick_eq s split: sum.split)
  then show "dm_loop_start (snd (tick env i now sl d)) = dm_loop_start d" "dm_ready (snd (tick env i now sl d)) = dm_ready d"
    "dm_last_wd (snd (tick env i now sl d)) = dm_last_wd d" "dm_sent (snd (tick env i now sl d)) = dm_sent d"
    by (simp_all add: sd_of_def)
qed

text \<open>An iteration of the loop: reload if asked, a tick, an error event if it raised, the messages.\<close>

lemma loop_once_cases:
  assumes "loop_once env i now n d = Inr d'"
  obtains d1 e d2 d3 where "\<not> dm_reload d \<longrightarrow> dm_config d1 = dm_config d" "dm_sent d1 = dm_sent d" "dm_ready d1 = dm_ready d" "dm_last_wd d1 = dm_last_wd d"
    "tick env i now (n mod SLOW_EVERY = 0) d1 = (e, d2)" "sd_of d3 = sd_of d2" "core_of d3 = core_of d2" "systemd_phase now d3 = Inr d'"
proof -
  define d0 where "d0 = (if dm_loop_start d = None then d\<lparr>dm_loop_start := Some now\<rparr> else d)"
  obtain d1 where d1: "(if dm_reload d0 then reload_config env (d0\<lparr>dm_reload := False\<rparr>) else Inr d0) = Inr d1"
    and s: "systemd_phase now (case tick env i now (n mod SLOW_EVERY = 0) d1 of
        (None, d) \<Rightarrow> d | (Some e, d) \<Rightarrow> d_error env ''tick_error'' (dv_exc_repr env e) now d) = Inr d'"
    using assms by (auto simp: loop_once_def d0_def [symmetric] Let_def res_bind_Inr)
  have r: "sd_of d1 = sd_of d0" using d1 reload_config_sd [of env "d0\<lparr>dm_reload := False\<rparr>" d1] by (auto split: if_splits)
  have 0: "dm_sent d0 = dm_sent d" "dm_ready d0 = dm_ready d" "dm_last_wd d0 = dm_last_wd d" "dm_reload d0 = dm_reload d" "dm_config d0 = dm_config d"
    by (simp_all add: d0_def)
  obtain e d2 where t: "tick env i now (n mod SLOW_EVERY = 0) d1 = (e, d2)" by (metis surj_pair)
  define d3 where "d3 = (case e of None \<Rightarrow> d2 | Some x \<Rightarrow> d_error env ''tick_error'' (dv_exc_repr env x) now d2)"
  have "sd_of d3 = sd_of d2" "core_of d3 = core_of d2" by (simp_all add: d3_def split: option.split)
  moreover have "systemd_phase now d3 = Inr d'" using s by (cases e) (simp_all add: t d3_def)
  moreover have "\<not> dm_reload d \<longrightarrow> dm_config d1 = dm_config d" using d1 0 by auto
  moreover have "dm_sent d1 = dm_sent d" "dm_ready d1 = dm_ready d" "dm_last_wd d1 = dm_last_wd d" using r 0 by (simp_all add: sd_of_def)
  ultimately show thesis using t that by blast
qed

text \<open>
  C10: the watchdog is pinged exactly when a governor step succeeded within the last five seconds and
  the last ping is at least two seconds old: a failing or wedged governor stops the pings. Readiness
  is announced at most once, and never before such a step.
\<close>

theorem watchdog_ping:
  assumes "loop_once env i now n d = Inr d'"
  shows "\<exists>rdy wd. dm_sent d' = dm_sent d @ (if rdy then [''READY=1''] else []) @ (if wd then [''WATCHDOG=1''] else []) \<and>
    (wd \<longleftrightarrow> (\<exists>t. dm_last_step_ok d' = Some t \<and> fsub now t \<le> 5) \<and> (case dm_last_wd d of None \<Rightarrow> True | Some t \<Rightarrow> 2 \<le> fsub now t)) \<and>
    (rdy \<longrightarrow> \<not> dm_ready d \<and> (\<exists>t. dm_last_step_ok d' = Some t \<and> fsub now t \<le> 5)) \<and> dm_ready d' = (rdy \<or> dm_ready d)"
proof -
  from assms obtain d1 e d2 d3 where d1: "dm_sent d1 = dm_sent d" "dm_ready d1 = dm_ready d" "dm_last_wd d1 = dm_last_wd d"
    and t: "tick env i now (n mod SLOW_EVERY = 0) d1 = (e, d2)" and d3: "sd_of d3 = sd_of d2" and s: "systemd_phase now d3 = Inr d'"
    by (rule loop_once_cases)
  from s obtain rdy where r: "d' = sd_send now rdy (wd_due now d3) d3" "rdy \<longleftrightarrow> step_recent now d3 \<and> \<not> dm_ready d3 \<and> ready_due now d3 = Inr True"
    by (rule systemd_phase_send)
  have k: "dm_sent d3 = dm_sent d" "dm_ready d3 = dm_ready d" "dm_last_wd d3 = dm_last_wd d"
    using d3 tick_sd [of env i now "n mod SLOW_EVERY = 0" d1] by (simp_all add: t d1 sd_of_def)
  have l: "dm_last_step_ok d' = dm_last_step_ok d3" by (simp add: r(1) sd_send_core)
  have p: "step_recent now d3 \<longleftrightarrow> (\<exists>t. dm_last_step_ok d' = Some t \<and> fsub now t \<le> 5)"
    unfolding l by (auto simp: step_recent_def WATCHDOG_MAX_STEP_AGE_S_def split: option.split)
  have "dm_sent d' = dm_sent d @ (if rdy then [''READY=1''] else []) @ (if wd_due now d3 then [''WATCHDOG=1''] else [])" "dm_ready d' = (rdy \<or> dm_ready d)"
    unfolding r(1) sd_send_core k by (rule refl)+
  moreover have "wd_due now d3 \<longleftrightarrow> (\<exists>t. dm_last_step_ok d' = Some t \<and> fsub now t \<le> 5) \<and> (case dm_last_wd d of None \<Rightarrow> True | Some t \<Rightarrow> 2 \<le> fsub now t)"
    unfolding wd_due_def p k WATCHDOG_EVERY_S_def by (rule refl)
  moreover have "rdy \<longrightarrow> \<not> dm_ready d \<and> (\<exists>t. dm_last_step_ok d' = Some t \<and> fsub now t \<le> 5)" using r(2) p k(2) by blast
  ultimately show ?thesis by (intro exI [of _ rdy] exI [of _ "wd_due now d3"] conjI)
qed

section \<open>Configuration requests\<close>

lemma flatten_gpu_mode:
  assumes "cfg_wf cfg" "gpu_section cfg = Inr (m, c)"
  shows "dget (flatten cfg []) ''gpu.mode'' = Some (PStr m)"
proof -
  obtain d where d: "cfg_section cfg ''gpu'' = Inr d" "sect_str d ''mode'' = Inr m" using assms(2) by (auto simp: gpu_section_def res_bind_Inr)
  then have "dget cfg ''gpu'' = Some (PDict d)" "dget d ''mode'' = Some (PStr m)"
    by (auto simp: cfg_section_def sect_str_def sect_val_def res_bind_Inr split: option.splits pyval.splits)
  moreover have "shape cfg" using assms(1) by (simp add: cfg_wf_def)
  from flatten_dotted [OF this, of "''gpu''" "''mode''"] calculation show ?thesis by simp
qed

text \<open>The values a configuration change leaves in force, key by key.\<close>

definition in_force :: "pyval dict \<Rightarrow> pyval dict \<Rightarrow> pyval dict \<Rightarrow> bool" where
  "in_force old acc new = (\<forall>k x. dget SPEC k = Some x \<longrightarrow>
     dget (flatten new []) k = (case dget acc k of Some v \<Rightarrow> Some v | None \<Rightarrow> dget (flatten old []) k))"

lemma store_updates_reports:
  assumes "cfg_wf (dm_config d)" "store_updates env updates d = (Inr (acc, rej, p, err), d')"
  shows "cfg_wf (dm_config d') \<and> in_force (dm_config d) acc (dm_config d') \<and> (\<forall>k. dhas acc k \<longrightarrow> dhas updates k)"
  using assms
proof (cases rule: store_updates_cases)
  case (stored a j cfg)
  then have "a = acc" by blast
  with validate_apply [OF assms(1) stored(1)] stored show ?thesis unfolding in_force_def by auto
qed (use assms(1) in \<open>auto simp: in_force_def dhas_def\<close>)

lemma set_gpu_reports:
  assumes "cfg_wf (dm_config d)" "set_gpu env mode d = (Inr res, d')"
  shows "\<exists>m. py_get res ''mode'' = PStr m \<and> cfg_wf (dm_config d') \<and> in_force (dm_config d) [(''gpu.mode'', PStr m)] (dm_config d')"
  using assms
proof (cases rule: set_gpu_cases)
  case (changed m g fs r cfg)
  have "gr_mode r \<in> {''auto'', ''low'', ''off''}" using apply_mode_reached [OF changed(5,2)] .
  from set_mode_wf [OF assms(1) this] changed(6,8) have "in_force (dm_config d) [(''gpu.mode'', PStr (gr_mode r))] (dm_config d')"
    by (auto simp: in_force_def simp del: apply_updates.simps)
  then show ?thesis using changed by auto
qed simp

lemma in_force_trans:
  "in_force a acc b \<Longrightarrow> in_force b [(''gpu.mode'', v)] c \<Longrightarrow> in_force a (dset ''gpu.mode'' v acc) c"
  by (auto simp: in_force_def split: option.splits)

text \<open>
  C30: what a configuration request reports as accepted is what is in force afterwards: the keys among
  the updates with the values reported (for the GPU mode the one actually reached), every other key
  as before, and the configuration is well formed.
\<close>

theorem set_config_reports:
  assumes "cfg_wf (dm_config d)" "set_config env updates d = (Inr out, d')" "py_get out ''accepted'' = PDict acc"
  shows "cfg_wf (dm_config d') \<and> (\<forall>k x. dget SPEC k = Some x \<longrightarrow>
      dget (flatten (dm_config d') []) k = (case dget acc k of Some v \<Rightarrow> Some v | None \<Rightarrow> dget (flatten (dm_config d) []) k)) \<and>
    (\<forall>k. dhas acc k \<longrightarrow> dhas updates k)"
proof -
  have up: "dhas updates ''gpu.mode''" if "py_get updates ''gpu.mode'' = PStr m" for m
    using that by (auto simp: py_get_def dhas_def split: option.splits)
  have keys: "dhas updates k" if "dhas (dpop ''gpu.mode'' updates) k" for k using that by simp
  have "cfg_wf (dm_config d') \<and> in_force (dm_config d) acc (dm_config d') \<and> (\<forall>k. dhas acc k \<longrightarrow> dhas updates k)"
    using assms(1,2)
  proof (cases rule: set_config_cases)
    case (failed e)
    then show ?thesis by simp
  next
    case (plain a rej p err)
    then have "a = acc" using assms(3) by (simp add: config_reply_def py_get_def)
    then show ?thesis using store_updates_reports [OF assms(1) plain(1)] keys by blast
  next
    case (kept a rej p err m c)
    then have a: "acc = dset ''gpu.mode'' (PStr m) a" using assms(3) by (simp add: config_reply_def py_get_def)
    note S = store_updates_reports [OF assms(1) kept(1)]
    have "in_force (dm_config d') [(''gpu.mode'', PStr m)] (dm_config d')" using flatten_gpu_mode [OF conjunct1 [OF S] kept(2)] by (simp add: in_force_def)
    then show ?thesis using S in_force_trans [of "dm_config d" a "dm_config d'"] up [OF kept(3)] unfolding a by auto
  next
    case (mode a rej p err d1 res)
    then have a: "acc = dset ''gpu.mode'' (py_get res ''mode'') a" using assms(3) by (simp add: config_reply_def py_get_def)
    note S = store_updates_reports [OF assms(1) mode(1)]
    obtain m where m: "py_get res ''mode'' = PStr m" "cfg_wf (dm_config d')" "in_force (dm_config d1) [(''gpu.mode'', PStr m)] (dm_config d')"
      using set_gpu_reports [OF conjunct1 [OF S] mode(2)] by blast
    have "\<exists>x. py_get updates ''gpu.mode'' = PStr x" using conjunct1 [OF S] mode(2) by (cases rule: set_gpu_cases) auto
    then show ?thesis using S m in_force_trans [of "dm_config d" a "dm_config d1"] up unfolding a by auto
  next
    case (refused a rej p err msg)
    then have "a = acc" using assms(3) by (simp add: config_reply_def py_get_def)
    then show ?thesis using store_updates_reports [OF assms(1) refused(1)] keys by blast
  qed
  then show ?thesis unfolding in_force_def by blast
qed

section \<open>The loop goes on\<close>

definition env_reads :: "denv \<Rightarrow> bool" where
  "env_reads env = (\<forall>fs. is_ok (load (dv_read_config env fs)))"

lemma loop_once_total:
  assumes "d_inv d" "env_reads env"
  shows "\<exists>d'. loop_once env i now n d = Inr d' \<and> dm_last_step_ok d' = Some now"
proof -
  define d0 where "d0 = (if dm_loop_start d = None then d\<lparr>dm_loop_start := Some now\<rparr> else d)"
  have i0: "d_inv d0" unfolding d0_def using assms(1) d_inv_core [of "d\<lparr>dm_loop_start := Some now\<rparr>" d] by simp
  have "d_inv (d0\<lparr>dm_reload := False\<rparr>)" using i0 d_inv_core [OF core_upd(16)] by simp
  moreover have "\<exists>d1. reload_config env (d0\<lparr>dm_reload := False\<rparr>) = Inr d1"
  proof -
    have "is_ok (load (dv_read_config env (dm_fs d0)))" using assms(2) by (simp add: env_reads_def)
    then obtain cp where "load (dv_read_config env (dm_fs d0)) = Inr cp" by (cases "load (dv_read_config env (dm_fs d0))") simp_all
    then show ?thesis by (simp add: reload_config_def split: prod.split)
  qed
  ultimately obtain d1 where d1: "(if dm_reload d0 then reload_config env (d0\<lparr>dm_reload := False\<rparr>) else Inr d0) = Inr d1" "d_inv d1"
    using i0 reload_config_inv by (cases "dm_reload d0") auto
  obtain g where g: "gov_cfg_of (dm_config d1) = Inr g" using d1(2) gov_cfg_of_wf by (auto simp: d_inv_def)
  obtain d2 where t: "tick env i now (n mod SLOW_EVERY = 0) d1 = (None, d2)" "dm_last_step_ok d2 = Some now"
    using tick_steps [OF g, of env i now "n mod SLOW_EVERY = 0"] by (metis prod.collapse)
  have "d_inv d2" using tick_inv [OF d1(2), of env i now "n mod SLOW_EVERY = 0"] t(1) by simp
  then obtain d' where s: "systemd_phase now d2 = Inr d'" using systemd_phase_total by (auto simp: d_inv_def)
  then have "dm_last_step_ok d' = Some now" using t(2) by (elim systemd_phase_send) (simp add: sd_send_core)
  then show ?thesis using d1(1) t(1) s by (simp add: loop_once_def d0_def [symmetric] Let_def)
qed

text \<open>Times at least half a period apart.\<close>

fun spaced :: "rat list \<Rightarrow> bool" where
  "spaced (t # u # ts) = (fadd t (1 / 8) \<le> u \<and> spaced (u # ts))"
| "spaced _ = True"

lemma run_loop_spaced:
  "run_loop ins next_t n d = (ts, r) \<Longrightarrow> spaced ts \<and> (case ts of [] \<Rightarrow> True | t # _ \<Rightarrow> next_t \<le> t)"
proof (induction ins arbitrary: next_t n d ts r)
  case (Cons a ins)
  obtain now env i where a: "a = (now, env, i)" by (metis surj_pair)
  show ?case
  proof (cases "now < next_t")
    case True
    with Cons show ?thesis by (simp add: a)
  next
    case False
    show ?thesis
    proof (cases "loop_once env i now n d")
      case (Inl e)
      with False Cons.prems show ?thesis by (auto simp: a)
    next
      case (Inr d')
      obtain us r' where u: "run_loop ins (next_deadline next_t now) (n + 1) d' = (us, r')" by (metis surj_pair)
      from Cons.IH [OF u] have "spaced us" "case us of [] \<Rightarrow> True | t # _ \<Rightarrow> next_deadline next_t now \<le> t" by auto
      moreover have "fadd now (1 / 8) \<le> next_deadline next_t now" by (simp add: next_deadline_def FAST_PERIOD_S_def)
      ultimately have "spaced (now # us)" by (cases us) auto
      with False Cons.prems u Inr show ?thesis by (auto simp: a)
    qed
  qed
qed auto

lemma run_loop_total:
  assumes "d_inv d" "list_all (\<lambda>(_, env, _). env_reads env) ins"
  shows "\<exists>d'. snd (run_loop ins next_t n d) = Inr d' \<and> d_inv d'"
  using assms
proof (induction ins arbitrary: next_t n d)
  case (Cons a ins)
  obtain now env i where a: "a = (now, env, i)" by (metis surj_pair)
  have "env_reads env" using Cons.prems(2) by (simp add: a)
  from loop_once_total [OF Cons.prems(1) this] obtain d' where l: "loop_once env i now n d = Inr d'" by blast
  have "d_inv d'" using loop_once_inv [OF Cons.prems(1) l] .
  then show ?case using Cons l by (simp add: a split: prod.split) (metis snd_conv)
qed auto


section \<open>The clean-shutdown marker\<close>

lemma shutdown_marker:
  assumes "ie_write_err (dv_inc env) (p_clean_marker (dv_paths env)) = None"
  shows "dm_fs (shutdown env n d) = mark_clean (dv_dumps env) (dv_wall env) (dv_paths env) (dm_fs (shutdown_parts env n d))"
  using assms by (simp add: shutdown_def Let_def)

lemma marker_verdict:
  assumes "read_marker (ie_loads env) fs (p_clean_marker p) = Some m" "py_get m ''boot_id'' = PStr b" "b \<noteq> []"
    "ie_runner env [''-b'', ''-1'', ''-n'', ''20'', ''--no-pager'', ''-o'', ''cat''] = None"
    "previous_boot_id (ie_loads env) (ie_runner env) = Inr (PStr b)"
    "read_text fs (p_last_boot_checked p) None \<noteq> Some b2"
  shows "\<exists>r fs'. check_previous_boot env p (Some b2) fs = Inr (r, fs') \<and> bc_verdict r = ''clean'' \<and> (ie_unlink_ok env \<longrightarrow> fs' (p_clean_marker p) = None)"
proof -
  have l: "p_last_boot_checked p \<noteq> p_clean_marker p" by (rule state_paths_differ)
  let ?fs = "if ie_unlink_ok env then fs(p_clean_marker p := None) else fs"
  have "read_text ?fs (p_last_boot_checked p) None \<noteq> Some b2" using assms(6) l by (simp add: read_text_def)
  moreover have "boot_verdict env p (Some b2) (Some m) ?fs = Inr (\<lparr>bc_verdict = ''clean'',
      bc_reason = ''journal unavailable; clean-shutdown marker from the previous boot'', bc_incident_id = None\<rparr>, ?fs)"
    using assms by (simp add: boot_verdict_def)
  ultimately show ?thesis using l by (auto simp: check_previous_boot_def Let_def assms(1))
qed


section \<open>A daemon that starts\<close>

lemma SPEC_logging_cpu: "dget SPEC (''logging'' @ ''.'' @ ''retention_days'') = Some (False, IntR 1 365)"
  "dget SPEC (''logging'' @ ''.'' @ ''max_mib'') = Some (False, IntR 16 8192)"
  "dget SPEC (''cpu'' @ ''.'' @ ''no_turbo'') = Some (True, BoolK)"
  by (simp_all add: SPEC_def)

lemma setup_logger_total: "cfg_wf (dm_config d) \<Longrightarrow> \<exists>d'. setup_logger env d = Inr d'"
proof -
  assume wf: "cfg_wf (dm_config d)"
  obtain s where s: "cfg_section (dm_config d) ''logging'' = Inr s" using cfg_wf_key [OF wf SPEC_logging_cpu(1)] by auto
  obtain r m where "sect_num s ''retention_days'' = Inr r" "sect_num s ''max_mib'' = Inr m"
    using cfg_wf_int [OF wf s SPEC_logging_cpu(1)] cfg_wf_int [OF wf s SPEC_logging_cpu(2)] by auto
  then show ?thesis by (simp add: setup_logger_def s split: prod.split)
qed

lemma apply_cpu_total: "cfg_wf (dm_config d) \<Longrightarrow> \<exists>d'. apply_cpu env d = Inr d'"
proof -
  assume wf: "cfg_wf (dm_config d)"
  obtain s where "cfg_section (dm_config d) ''cpu'' = Inr s" using cfg_wf_key [OF wf SPEC_logging_cpu(3)] by auto
  then show ?thesis by (simp add: apply_cpu_def cpu_cfg_of_def split: prod.split)
qed

lemma daemon_setup_starts:
  assumes "cfg_wf (dm_config d)" "smc_dir (dv_glob env) (dv_paths env) = None"
    "\<forall>b fs. is_ok (check_previous_boot (dv_inc env) (dv_paths env) b fs)"
  shows "\<exists>d'. daemon_setup env u d = Inr d'"
proof -
  obtain d1 where 1: "setup_smc env u d = Inr d1" using assms(2) by (simp add: setup_smc_def)
  let ?d3 = "setup_firmware env u (setup_devices env u d1)"
  have c3: "dm_config ?d3 = dm_config d"
    using core_parts [OF setup_smc_frame [OF 1]] core_parts [OF setup_firmware_frame [of env u "setup_devices env u d1"]] by (simp add: setup_devices_def)
  have "is_ok (check_previous_boot (dv_inc env) (dv_paths env) (dm_boot_id ?d3) (dm_fs ?d3))" using assms(3) by blast
  then obtain r fs where "check_previous_boot (dv_inc env) (dv_paths env) (dm_boot_id ?d3) (dm_fs ?d3) = Inr (r, fs)"
    by (cases "check_previous_boot (dv_inc env) (dv_paths env) (dm_boot_id ?d3) (dm_fs ?d3)") auto
  then obtain d4 where 4: "setup_boot_check env ?d3 = Inr d4" by (simp add: setup_boot_check_def)
  have c4: "dm_config d4 = dm_config d" using core_parts [OF setup_boot_check_frame [OF 4]] c3 by simp
  then obtain d5 where 5: "setup_logger env d4 = Inr d5" using setup_logger_total assms(1) by metis
  have c5: "dm_config (setup_gov u d5) = dm_config d" using core_parts [OF setup_logger_frame [OF 5]] c4 by (simp add: setup_gov_def Let_def)
  then obtain d6 where 6: "apply_cpu env (setup_gov u d5) = Inr d6" using apply_cpu_total assms(1) by metis
  have "dm_config d6 = dm_config d" using core_parts [OF apply_cpu_frame [OF 6]] c5 by simp
  then obtain g where "gov_cfg_of (dm_config d6) = Inr g" using gov_cfg_of_wf assms(1) by metis
  then show ?thesis by (simp add: daemon_setup_def 1 4 5 6)
qed

text \<open>A machine without SMC, fans or RAPL, the default configuration and a journal that ended cleanly.\<close>

definition demo_denv :: denv where
  "demo_denv = \<lparr>dv_paths = paths_init ''/'' [] [] [], dv_drv = plain_driver, dv_msr = (\<lambda>_. None),
     dv_fan_io = \<lparr>io_numbers = (\<lambda>_. []), io_read_int = (\<lambda>_ _ _. None), io_read_text = (\<lambda>_ _ _. None), io_write_min = (\<lambda>s _ _. (None, s))\<rparr>,
     dv_gpu = demo_gpu_env, dv_sleep = id, dv_log = demo_log_env, dv_dumps = (\<lambda>_. ''m''), dv_digest = (\<lambda>_. []), dv_exc_repr = (\<lambda>_. []),
     dv_exc_str = (\<lambda>_. []), dv_read_config = (\<lambda>_. FileMissing), dv_save_fault = NoFault, dv_save_unlink = True, dv_tmp = ''/t'',
     dv_page_size = 4096, dv_clients = 0, dv_wall = 0, dv_host = ''h'', dv_version = ''1'', dv_glob = (\<lambda>_. []),
     dv_smc_io = (\<lambda>_. \<lparr>sio_key_count = (\<lambda>_. 0), sio_get_selector = (\<lambda>_. None), sio_select = (\<lambda>s _. (None, s)), sio_name = (\<lambda>_. []),
       sio_type = (\<lambda>_. []), sio_length = (\<lambda>_. 0), sio_data = (\<lambda>_. Inr [])\<rparr>),
     dv_inc = demo_inc_env, dv_val_repr = (\<lambda>_. [])\<rparr>"

definition demo_blank :: dstate where
  "demo_blank = \<lparr>dm_config = [], dm_fs = Map.empty, dm_events = [], dm_sampler = sampler_init None 3, dm_gov = gov_initial 0 None None,
     dm_rapl = rapl_init Map.empty [] ''/z'', dm_firmware = PNone, dm_readback = None, dm_last_write = None, dm_fan = None, dm_gpu = demo_gpu,
     dm_gpu_result = None, dm_gpu_retry_left = 0, dm_gpu_retry_next = None, dm_gpu_job = None, dm_gpu_old = [], dm_logger = None, dm_meter = None,
     dm_meter_prev = (0, 0), dm_errors = [], dm_last_step_ok = None, dm_loop_start = None, dm_ready = False, dm_last_wd = None, dm_sent = [],
     dm_reload = False, dm_status = [], dm_boot_id = None, dm_started_wall = 0, dm_incident_check = [],
     dm_cpu = cpu_init (\<lambda>_. []) Map.empty (paths_init ''/'' [] [] []) 8 5 100, dm_smc = None\<rparr>"

definition demo_setup_in :: setup_in where
  "demo_setup_in = \<lparr>su_mono = 0, su_cpu_s = 0, su_hz = 100, su_msr_val = PNone, su_stamp = [], su_subzones = [], su_cache_saved = True,
     su_fan_raises = None, su_fan_save_err = None, su_server = True, su_blank = demo_blank\<rparr>"

definition demo_init :: dstate where
  "demo_init = projr (daemon_init demo_denv demo_setup_in Map.empty)"

definition demo_start :: dstate where
  "demo_start = projr (daemon_setup demo_denv demo_setup_in demo_init)"

lemma demo_init_eq: "daemon_init demo_denv demo_setup_in Map.empty = Inr demo_init"
  by (simp add: demo_init_def daemon_init_def demo_denv_def load_def)

lemma demo_boot_check: "is_ok (check_previous_boot demo_inc_env p b fs)"
proof -
  have j: "journal_clean ''Journal stopped''" "strip ''Journal stopped'' \<noteq> []" by code_simp+
  then have "boot_verdict demo_inc_env p b m fs = Inr (\<lparr>bc_verdict = ''clean'', bc_reason = clean_reason, bc_incident_id = None\<rparr>, fs)" for m fs
    by (simp add: boot_verdict_def demo_inc_env_def)
  then show ?thesis by (simp add: check_previous_boot_def Let_def)
qed

lemma demo_start_eq: "daemon_setup demo_denv demo_setup_in demo_init = Inr demo_start"
proof -
  have "smc_dir (dv_glob demo_denv) (dv_paths demo_denv) = None" by (simp add: demo_denv_def smc_dir_def)
  moreover have "dv_inc demo_denv = demo_inc_env" by (simp add: demo_denv_def)
  ultimately obtain d where "daemon_setup demo_denv demo_setup_in demo_init = Inr d"
    using daemon_setup_starts [OF daemon_init_start(1) [OF demo_init_eq]] demo_boot_check by metis
  then show ?thesis by (simp add: demo_start_def)
qed
lemma demo_start_inv: "d_inv demo_start"
  using daemon_setup_inv [OF demo_start_eq daemon_init_start(1,2) [OF demo_init_eq]] .

text \<open>
  C1: from its start on, whatever the machine, the clients and the signals do, in whatever order, the
  daemon's configuration is well formed and the limits it last wrote or tried to write, like the
  limits its governor has in force, are at most 45 W.
\<close>

theorem daemon_run_safe:
  fixes evs :: "d_event list"
  assumes "daemon_init env u fs = Inr d0" "daemon_setup env u d0 = Inr d"
    and s: "s = run_steps d_step d evs"
  shows "cfg_wf (dm_config s) \<and>
    (\<forall>kw. dm_last_write s = Some kw \<longrightarrow> (\<exists>a b. num_of (py_get kw ''pl1_w'') = Some a \<and> num_of (py_get kw ''pl2_w'') = Some b \<and> a \<le> 45 \<and> b \<le> 45)) \<and>
    (\<forall>p. s_pl1_w (dm_gov s) = Some p \<longrightarrow> p \<le> 45) \<and> (\<forall>q. s_pl2_w (dm_gov s) = Some q \<longrightarrow> q \<le> 45)"
proof -
  have "d_inv d" using daemon_setup_inv [OF assms(2) daemon_init_start(1,2) [OF assms(1)]] .
  then have i: "d_inv s" unfolding s by (rule daemon.run_keeps) (simp add: list_all_iff)
  have "\<exists>a b. num_of (py_get kw ''pl1_w'') = Some a \<and> num_of (py_get kw ''pl2_w'') = Some b \<and> a \<le> 45 \<and> b \<le> 45" if "dm_last_write s = Some kw" for kw
    using i that by (auto simp: d_inv_def lw_ok_def HARD_MAX_W_def split: option.splits)
  with i show ?thesis by (simp add: d_inv_def pl_ok_def HARD_MAX_W_def split: option.splits)
qed

definition demo_tick_in :: tick_in where
  "demo_tick_in = \<lparr>ti_fast = Inl (OSError ''gone''), ti_slow = Inl (ValueError ''bad''), ti_slow_part = None, ti_cpu_s = 0\<rparr>"

theorem daemon_run_safe_witness:
  "cfg_wf (dm_config (run_steps d_step demo_start [DHup, DLoop demo_denv demo_tick_in 1 0, DRequest demo_denv (\<lambda>_. Inr 0) ''config.reset'' [], DGpuLock, DGpuDone demo_denv True]))"
  using daemon_run_safe [OF demo_init_eq demo_start_eq refl, of "[DHup, DLoop demo_denv demo_tick_in 1 0, DRequest demo_denv (\<lambda>_. Inr 0) ''config.reset'' [], DGpuLock, DGpuDone demo_denv True]"]
  by (rule conjunct1)

lemma demo_start_wf: "cfg_wf (dm_config demo_start)"
  using demo_start_inv by (simp add: d_inv_def)

theorem tick_runs_governor_witness:
  "fst (tick demo_denv demo_tick_in 1 True demo_start) = None \<and> dm_last_step_ok (snd (tick demo_denv demo_tick_in 1 True demo_start)) = Some 1"
  using tick_runs_governor [OF demo_start_wf, of demo_denv demo_tick_in 1 True] by blast

lemma demo_env_reads: "env_reads demo_denv"
  by (simp add: env_reads_def demo_denv_def load_def)


theorem watchdog_ping_witness:
  "\<exists>d' rdy wd. loop_once demo_denv demo_tick_in 1 0 demo_start = Inr d' \<and>
     dm_sent d' = dm_sent demo_start @ (if rdy then [''READY=1''] else []) @ (if wd then [''WATCHDOG=1''] else [])"
proof -
  obtain d' where l: "loop_once demo_denv demo_tick_in 1 0 demo_start = Inr d'" using loop_once_total [OF demo_start_inv demo_env_reads] by blast
  from watchdog_ping [OF l] l show ?thesis by blast
qed

text \<open>Two keys accepted and one rejected.\<close>

abbreviation demo_updates :: "pyval dict" where
  "demo_updates \<equiv> [(''governor.ceiling_w'', PInt 40), (''governor.static_cap_w'', PInt 25), (''gpu.cap_w'', PInt 99)]"

abbreviation demo_accepted :: "pyval dict" where
  "demo_accepted \<equiv> [(''governor.ceiling_w'', PInt 40), (''governor.static_cap_w'', PInt 25)]"

lemma demo_set_config:
  "\<exists>out d'. set_config demo_denv demo_updates (demo_blank\<lparr>dm_config := DEFAULTS\<rparr>) = (Inr out, d') \<and> py_get out ''accepted'' = PDict demo_accepted"
proof -
  let ?d = "demo_blank\<lparr>dm_config := DEFAULTS\<rparr>"
  obtain cfg where c: "apply_updates DEFAULTS demo_accepted = Inr cfg" using validate_apply [OF DEFAULTS_wf validate_witness] by blast
  obtain fs sv where v: "save_config demo_denv cfg (dm_fs demo_blank) = (fs, sv)" by (metis surj_pair)
  have u: "dpop ''gpu.mode'' demo_updates = demo_updates" "py_get demo_updates ''gpu.mode'' = PNone" by (simp_all add: py_get_def)
  have "side_effects demo_denv demo_accepted d = Inr d" for d by (simp add: side_effects_def has_prefix_def starts_with_def dhas_def)
  then have "\<exists>p err d'. store_updates demo_denv demo_updates ?d = (Inr (demo_accepted, [(''gpu.cap_w'', ''out of range 5..35'')], p, err), d')"
    by (simp add: store_updates_def validate_witness c v Let_def del: apply_updates.simps)
  then obtain p err d' where "store_updates demo_denv demo_updates ?d = (Inr (demo_accepted, [(''gpu.cap_w'', ''out of range 5..35'')], p, err), d')" by blast
  then show ?thesis unfolding set_config_def u by (simp add: py_get_def Let_def)
qed

theorem set_config_reports_witness:
  "\<exists>out d'. set_config demo_denv demo_updates (demo_blank\<lparr>dm_config := DEFAULTS\<rparr>) = (Inr out, d') \<and> cfg_wf (dm_config d') \<and>
     dget (flatten (dm_config d') []) ''governor.ceiling_w'' = Some (PInt 40)"
proof -
  obtain out d' where o: "set_config demo_denv demo_updates (demo_blank\<lparr>dm_config := DEFAULTS\<rparr>) = (Inr out, d')" "py_get out ''accepted'' = PDict demo_accepted"
    using demo_set_config by blast
  have "cfg_wf (dm_config (demo_blank\<lparr>dm_config := DEFAULTS\<rparr>))" by (simp add: DEFAULTS_wf)
  from set_config_reports [OF this o] have r: "cfg_wf (dm_config d')"
    "\<forall>k x. dget SPEC k = Some x \<longrightarrow> dget (flatten (dm_config d') []) k =
       (case dget demo_accepted k of Some v \<Rightarrow> Some v | None \<Rightarrow> dget (flatten (dm_config (demo_blank\<lparr>dm_config := DEFAULTS\<rparr>)) []) k)" by blast+
  have "dget SPEC ''governor.ceiling_w'' = Some (False, Num 10 45)" by (simp add: SPEC_def)
  with r(2) have "dget (flatten (dm_config d') []) ''governor.ceiling_w'' = Some (PInt 40)" by force
  with o(1) r(1) show ?thesis by blast
qed

definition demo_next_boot :: inc_env where
  "demo_next_boot = demo_inc_env\<lparr>ie_loads := (\<lambda>t. if t = ''m'' then Some (PDict [(''ts'', pnum 0), (''boot_id'', PStr ''b1'')])
       else Some (PList [PDict [(''index'', PInt (- 1)), (''boot_id'', PStr ''b1'')]])),
     ie_runner := (\<lambda>a. if hd a = ''--list-boots'' then Some ''boots'' else None)\<rparr>"


text \<open>A reload of a file with an infinite integer value raises out of the loop: the daemon ends.\<close>

lemma reload_overflow_ends_loop:
  assumes "dm_reload d" "dv_read_config env (dm_fs d) = Parsed (PDict [(''fan'', PDict [(''max_rpm'', PFloat PosInf)])])"
  shows "loop_once env i now n d = Inl (OverflowError ''cannot convert float infinity to integer'')"
proof -
  have "load (Parsed (PDict [(''fan'', PDict [(''max_rpm'', PFloat PosInf)])])) = Inl (OverflowError ''cannot convert float infinity to integer'')"
    by (rule load_overflow)
  then have "reload_config env (d0\<lparr>dm_reload := False\<rparr>) = Inl (OverflowError ''cannot convert float infinity to integer'')" if "dm_fs d0 = dm_fs d" for d0
    using assms(2) that by (simp add: reload_config_def)
  then show ?thesis using assms(1) by (simp add: loop_once_def Let_def)
qed

end
