(* ===== verification/Cap.thy ===== *)
theory Cap
  imports Daemon_Props
begin

text \<open>
  \<open>cap.py\<close>: the command that writes the static cap early in the boot, before the daemon runs, and the
  small commands of the service files around it. It runs on the same machine as the daemon (\<open>denv\<close>:
  paths, drivers, codecs; \<open>setup_in\<close>: the values taken once at a start) and keeps no state: each
  command maps the file system to the printed lines, the exit status or the exception that ends the
  process, and the new file system. What \<open>show\<close> prints is an argument.
\<close>

section \<open>The static cap\<close>

definition say :: "string \<Rightarrow> string" where
  "say msg = ''turbomac-cap: '' @ msg"

definition problem_lines :: "string dict \<Rightarrow> string list" where
  "problem_lines problems = map (\<lambda>(k, v). say (''config '' @ k @ '': '' @ v @ '' (default used)'')) problems"

definition cap_firmware :: "denv \<Rightarrow> setup_in \<Rightarrow> bool \<Rightarrow> rapl \<Rightarrow> files \<Rightarrow> pyval option \<times> string option \<times> files" where
  "cap_firmware env u force r fs =
    load_or_capture_firmware (ie_loads (dv_inc env)) (dv_dumps env) fs (p_firmware_limits (dv_paths env)) r
      (su_msr_val u) (ostr (read_text fs (p_boot_id (dv_paths env)) None)) (su_stamp u) force"

definition cap_rapl :: "denv \<Rightarrow> setup_in \<Rightarrow> files \<Rightarrow> rapl" where
  "cap_rapl env u fs = rapl_init fs (su_subzones u) (p_powercap (dv_paths env))"

definition warn_lines :: "string option \<Rightarrow> string list" where
  "warn_lines warn = (case warn of Some w \<Rightarrow> if w = [] then [] else [say (''WARNING '' @ w)] | None \<Rightarrow> [])"

definition static_cap :: "pyval dict \<Rightarrow> rat res" where
  "static_cap cfg = res_bind (cfg_section cfg ''governor'') (\<lambda>g. sect_num g ''static_cap_w'')"

definition fw_text :: "denv \<Rightarrow> pyval option \<Rightarrow> string \<Rightarrow> string" where
  "fw_text env fw k = dv_val_repr env (case fw of Some (PDict d) \<Rightarrow> py_get d k | _ \<Rightarrow> PNone)"

definition cap_line :: "denv \<Rightarrow> rat \<Rightarrow> pyval option \<Rightarrow> readback \<Rightarrow> string" where
  "cap_line env static fw rb =
    say (''PL1 '' @ fmt_g (rb_pl1_w rb) @ '' W, PL2 '' @ fmt_g (rb_pl2_w rb) @ '' W (static cap '' @ fmt_g static @ '', firmware ''
      @ fw_text env fw ''pl1_w'' @ ''/'' @ fw_text env fw ''pl2_w'' @ '' W): ''
      @ (if rb_write_errors rb \<noteq> [] then ''WRITE FAILED'' else if rb_ok rb then ''OK'' else ''MISMATCH'') @ '' - '' @ rb_reason rb)"

text \<open>The GPU step; \<open>exn\<close> is an exception raised before it changes anything (the module cannot be loaded).\<close>

definition cap_gpu :: "denv \<Rightarrow> py_exn option \<Rightarrow> pyval dict \<Rightarrow> files \<Rightarrow> string list \<times> files" where
  "cap_gpu env exn cfg fs =
    (case exn of
       Some e \<Rightarrow> ([say (''GPU step skipped: '' @ dv_exc_repr env e)], fs)
     | None \<Rightarrow>
         (case gpu_section cfg of
            Inl e \<Rightarrow> ([say (''GPU step skipped: '' @ dv_exc_repr env e)], fs)
          | Inr (mode, cap_w) \<Rightarrow>
              (case apply_mode (dv_gpu env) (dv_sleep env) mode cap_w 0 (gpu_init (dv_gpu env) fs, fs) of
                 (r, _, fs) \<Rightarrow>
                   ([say (''GPU mode '' @ mode @ '' -> '' @ gr_mode r @ '': '' @ (if gr_ok r then ''OK'' else ''FAILED'') @ '' - '' @ gr_reason r)], fs))))"

definition cap_exit :: "readback \<Rightarrow> int" where
  "cap_exit rb = (if rb_write_errors rb \<noteq> [] then 4 else if rb_ok rb then 0 else 3)"

definition cap_apply :: "denv \<Rightarrow> setup_in \<Rightarrow> py_exn option \<Rightarrow> files \<Rightarrow> string list \<times> int res \<times> files" where
  "cap_apply env u exn fs =
    (case load (dv_read_config env fs) of
       Inl e \<Rightarrow> ([], Inl e, fs)
     | Inr (cfg, problems) \<Rightarrow>
         let r = cap_rapl env u fs in
         if \<not> rapl_available fs r then
           (problem_lines problems @ [say (''RAPL powercap not found at '' @ p_powercap (dv_paths env))], Inr 2, fs)
         else (case cap_firmware env u False r fs of
           (fw, warn, fs) \<Rightarrow>
             (case static_cap cfg of
                Inl e \<Rightarrow> (problem_lines problems @ warn_lines warn, Inl e, fs)
              | Inr static \<Rightarrow>
                  (case apply_and_verify (dv_drv env) (dv_msr env) fs r static static HARD_MAX_W (case fw of Some v \<Rightarrow> v | None \<Rightarrow> PNone) of
                     (rb, fs) \<Rightarrow>
                       (case cap_gpu env exn cfg fs of
                          (ls, fs) \<Rightarrow> (problem_lines problems @ warn_lines warn @ [cap_line env static fw rb] @ ls, Inr (cap_exit rb), fs))))))"

section \<open>The commands\<close>

definition cap_capture :: "denv \<Rightarrow> setup_in \<Rightarrow> bool \<Rightarrow> files \<Rightarrow> string list \<times> int res \<times> files" where
  "cap_capture env u force fs =
    (case cap_firmware env u force (cap_rapl env u fs) fs of
       (fw, warn, fs) \<Rightarrow>
         let v = (case fw of Some v \<Rightarrow> v | None \<Rightarrow> PNone) in
         ([say (''firmware limits: '' @ dv_dumps env v
             @ (case warn of Some w \<Rightarrow> if w = [] then [] else [CHR 0x0A] @ ''WARNING '' @ w | None \<Rightarrow> []))],
          Inr (if truthy v then 0 else 2), fs))"

definition cap_mark_clean :: "denv \<Rightarrow> files \<Rightarrow> string list \<times> int res \<times> files" where
  "cap_mark_clean env fs =
    (let p = p_clean_marker (dv_paths env) in
     case ie_write_err (dv_inc env) p of
       Some e \<Rightarrow> ([], Inl (OSError e), fs)
     | None \<Rightarrow> ([say (''clean-shutdown marker written to '' @ p)], Inr 0, mark_clean (dv_dumps env) (dv_wall env) (dv_paths env) fs))"

definition cap_init_config :: "denv \<Rightarrow> files \<Rightarrow> string list \<times> int res \<times> files" where
  "cap_init_config env fs =
    (let p = p_config (dv_paths env) in
     if fs p \<noteq> None then ([say (p @ '' exists, left unchanged'')], Inr 0, fs)
     else (case save_config env defaults fs of
       (fs, Inl e) \<Rightarrow> ([], Inl e, fs)
     | (fs, Inr _) \<Rightarrow> ([say (''wrote defaults to '' @ p)], Inr 0, fs)))"

definition cap_main :: "denv \<Rightarrow> setup_in \<Rightarrow> py_exn option \<Rightarrow> string \<Rightarrow> string list \<Rightarrow> files \<Rightarrow> string list \<times> int res \<times> files" where
  "cap_main env u exn shown args fs =
    (let cmd = (case args of [] \<Rightarrow> ''apply'' | c # _ \<Rightarrow> c) in
     if cmd = ''apply'' then cap_apply env u exn fs
     else if cmd = ''show'' then ([shown], Inr 0, fs)
     else if cmd = ''mark-clean'' then cap_mark_clean env fs
     else if cmd = ''capture'' then cap_capture env u (''--force'' \<in> set args) fs
     else if cmd = ''init-config'' then cap_init_config env fs
     else ([], Inr 2, fs))"

section \<open>Properties\<close>

lemma static_cap_wf:
  assumes "cfg_wf cfg"
  shows "\<exists>x. static_cap cfg = Inr x"
proof -
  obtain g where "gov_cfg_of cfg = Inr g" using gov_cfg_of_wf [OF assms] by blast
  then show ?thesis by (auto simp: static_cap_def gov_cfg_of_def res_bind_def split: sum.splits)
qed

text \<open>
  The state of the limit files a verified cap leaves: both limits at most 45 W, in force and enabled,
  and the machine register, where it can be read, within one unit of them.
\<close>

definition cap_in_force :: "denv \<Rightarrow> rapl \<Rightarrow> files \<Rightarrow> rat \<Rightarrow> rat \<Rightarrow> bool" where
  "cap_in_force env r fs a b =
    (a \<le> HARD_MAX_W \<and> b \<le> HARD_MAX_W \<and>
     read_int fs (constraint_path (r_zone r) (r_c_long r) ''power_limit_uw'') None = Some (w_to_uw a) \<and>
     read_int fs (constraint_path (r_zone r) (r_c_short r) ''power_limit_uw'') None = Some (w_to_uw b) \<and>
     read_int fs (path_join (r_zone r) ''enabled'') None = Some 1 \<and>
     (case dv_msr env fs of None \<Rightarrow> True
      | Some l \<Rightarrow> \<bar>fsub (ml_pl1_w l) a\<bar> \<le> 1 / 8 \<and> \<bar>fsub (ml_pl2_w l) b\<bar> \<le> 1 / 8 \<and> ml_pl1_enable l))"

lemma aav_cap_in_force:
  assumes "apply_and_verify (dv_drv env) (dv_msr env) fs r p q HARD_MAX_W fw = (rb, fs')" "cap_exit rb = 0"
  shows "cap_in_force env r fs' (rb_pl1_w rb) (rb_pl2_w rb) \<and> clamp_limits p q HARD_MAX_W fw = (rb_pl1_w rb, rb_pl2_w rb)"
proof -
  have "rb_ok rb" using assms(2) by (simp add: cap_exit_def split: if_splits)
  note s = aav_sound [OF assms(1) this]
  then have c: "clamp_limits p q HARD_MAX_W fw = (rb_pl1_w rb, rb_pl2_w rb)" by simp
  with s clamp_45 [OF c] show ?thesis by (simp add: cap_in_force_def)
qed


definition demo_powercap :: files where
  "demo_powercap = [path_join (p_powercap (dv_paths demo_denv)) ''energy_uj'' \<mapsto> ''0'']"


text \<open>
  \<open>init-config\<close> never changes a configuration that exists; where there is none and saving works, the
  next load gives the defaults with nothing to report, provided the file is read back as it was written.
\<close>

lemma init_config_keeps: "fs (p_config (dv_paths env)) = Some t \<Longrightarrow> snd (snd (cap_init_config env fs)) = fs"
  by (simp add: cap_init_config_def)

lemma init_config_writes:
  assumes "fs (p_config (dv_paths env)) = None" "dv_save_fault env = NoFault" "dv_tmp env \<noteq> p_config (dv_paths env)"
  shows "snd (snd (cap_init_config env fs)) (p_config (dv_paths env)) = Some (dv_dumps env (PDict DEFAULTS))"
  using assms by (simp add: cap_init_config_def save_config_def save_def defaults_def Let_def)

text \<open>No command but \<open>apply\<close> writes a limit: the others change at most one file of the program's own.\<close>

lemma cap_mark_clean_frame: "p \<noteq> p_clean_marker (dv_paths env) \<Longrightarrow> snd (snd (cap_mark_clean env fs)) p = fs p"
  by (simp add: cap_mark_clean_def mark_clean_def Let_def split: option.split)

end
