(* ===== verification/Backend.thy ===== *)
theory Backend
  imports Daemon_Props
begin

text \<open>
  \<open>tui/backend.py\<close>: where the terminal UI gets its data. The subscription thread with its backoff, the
  backend that talks to the daemon, and the part shared by the two simulated backends (replay and
  mock): an in-memory configuration with the daemon's validation. Their state extends the record
  \<open>sim\<close> the way their classes extend \<open>SimBackend\<close>; the methods they override are arguments, and the
  locale \<open>sim_hooks\<close> has what the shared part relies on.
\<close>

section \<open>The subscription thread\<close>

definition BACKOFF_S :: "rat list" where "BACKOFF_S = [1 / 2, 1, 2, 4, 5]"

datatype sub_act = Notify bool "string option" | Deliver pyval | Pause rat

record sub =
  sb_connected :: bool
  sb_last_error :: "string option"
  sb_attempt :: nat
  sb_stop :: bool
  sb_ended :: bool
  sb_acts :: "sub_act list"

definition sub_init :: sub where
  "sub_init = \<lparr>sb_connected = False, sb_last_error = None, sb_attempt = 0, sb_stop = False, sb_ended = False, sb_acts = []\<rparr>"

definition sub_act :: "sub_act \<Rightarrow> sub \<Rightarrow> sub" where
  "sub_act a s = s\<lparr>sb_acts := sb_acts s @ [a]\<rparr>"

text \<open>\<open>_conn\<close>; \<open>raises\<close> tells whether the app's \<open>on_change\<close> raises when it is called.\<close>

definition sub_conn :: "bool \<Rightarrow> bool \<Rightarrow> string option \<Rightarrow> sub \<Rightarrow> sub" where
  "sub_conn raises ok err s =
    (let changed = (ok \<noteq> sb_connected s \<or> (\<not> ok \<and> err \<noteq> sb_last_error s));
         s = s\<lparr>sb_connected := ok\<rparr>;
         s = (if ok then s else s\<lparr>sb_last_error := err\<rparr>)
     in if changed \<and> \<not> sb_stop s then
          let s = sub_act (Notify ok err) s in if raises then s\<lparr>sb_stop := True\<rparr> else s
        else s)"

text \<open>
  What reaches the thread: a status of the stream (with whether \<open>on_change\<close> and the callback raise),
  the end or failure of the stream with its text, and \<open>stop\<close>, which the app may call between any two of them.
\<close>

datatype sub_in = Got pyval bool bool | Failed string bool | AppStop

definition backoff :: "nat \<Rightarrow> rat" where
  "backoff attempt = BACKOFF_S ! min attempt (length BACKOFF_S - 1)"

definition sub_step :: "sub_in \<Rightarrow> sub \<Rightarrow> sub" where
  "sub_step i s =
    (case i of
       AppStop \<Rightarrow> s\<lparr>sb_stop := True\<rparr>
     | Got st conn_raises cb_raises \<Rightarrow>
         if sb_ended s then s
         else if sb_stop s then s\<lparr>sb_ended := True\<rparr>
         else let s = sub_act (Deliver st) (sub_conn conn_raises True None (s\<lparr>sb_attempt := 0\<rparr>))
              in if cb_raises then s\<lparr>sb_stop := True, sb_ended := True\<rparr> else s
     | Failed err conn_raises \<Rightarrow>
         if sb_ended s then s
         else if sb_stop s then s\<lparr>sb_ended := True\<rparr>
         else let s = sub_act (Pause (backoff (sb_attempt s))) (sub_conn conn_raises False (Some err) s)
              in s\<lparr>sb_attempt := sb_attempt s + 1\<rparr>)"

definition sub_run :: "sub_in list \<Rightarrow> sub \<Rightarrow> sub" where
  "sub_run is s = fold sub_step is s"

section \<open>The live backend\<close>

datatype live_op =
    LStatus
  | LHistory rat bool
  | LConfigGet
  | LConfigSet "pyval dict"
  | LConfigReset
  | LGpuSet string
  | LIncidents
  | LIncident string
  | LEvents int
  | LSmcKeys

text \<open>The command, the timeout (\<open>None\<close>: the client's own) and the arguments of each method.\<close>

definition live_request :: "live_op \<Rightarrow> string \<times> rat option \<times> pyval dict" where
  "live_request op =
    (case op of
       LStatus \<Rightarrow> (''status'', None, [])
     | LHistory seconds full \<Rightarrow> (''history'', None, [(''seconds'', pnum seconds), (''full'', PBool full)])
     | LConfigGet \<Rightarrow> (''config.get'', None, [])
     | LConfigSet updates \<Rightarrow> (''config.set'', Some 60, updates)
     | LConfigReset \<Rightarrow> (''config.reset'', Some 60, [])
     | LGpuSet mode \<Rightarrow> (''gpu.set'', Some 90, [(''mode'', PStr mode)])
     | LIncidents \<Rightarrow> (''incidents'', None, [])
     | LIncident i \<Rightarrow> (''incident'', None, [(''id'', PStr i)])
     | LEvents n \<Rightarrow> (''events'', None, [(''n'', PInt n)])
     | LSmcKeys \<Rightarrow> (''smc.keys'', None, []))"

definition live_error :: "(py_exn \<Rightarrow> string) \<Rightarrow> py_exn \<Rightarrow> py_exn" where
  "live_error estr e = (case e of
     ProtocolError _ \<Rightarrow> BackendError (estr e) | OSError _ \<Rightarrow> BackendError (estr e) | ValueError _ \<Rightarrow> BackendError (estr e) | _ \<Rightarrow> e)"

text \<open>
  \<open>_call\<close> over a client; the updates of \<open>config_set\<close> are passed as keyword arguments, so that the names of
  the parameters of \<open>_call\<close> are refused by Python itself.
\<close>

definition live_call :: "(py_exn \<Rightarrow> string) \<Rightarrow> (string \<Rightarrow> rat option \<Rightarrow> pyval dict \<Rightarrow> pyval res) \<Rightarrow> live_op \<Rightarrow> pyval res" where
  "live_call estr client op =
    (case live_request op of (cmd, timeout, args) \<Rightarrow>
       if list_ex (\<lambda>k. dhas args k) [''self'', ''cmd'', ''timeout''] then Inl (TypeError ''multiple values for argument'')
       else (case client cmd timeout args of Inr v \<Rightarrow> Inr v | Inl e \<Rightarrow> Inl (live_error estr e)))"

section \<open>The shared part of the simulated backends\<close>

record sim =
  sb_config :: "pyval dict"
  sb_events :: "pyval dict list"
  sb_last_change :: "rat option"

text \<open>The class attributes, and the digest of a configuration.\<close>

record sim_class =
  cl_persisted :: bool
  cl_reason :: pyval
  cl_path :: string
  cl_digest :: "pyval dict \<Rightarrow> string"

definition sim_emit :: "('a sim_scheme \<Rightarrow> rat) \<Rightarrow> string \<Rightarrow> pyval dict \<Rightarrow> 'a sim_scheme \<Rightarrow> 'a sim_scheme" where
  "sim_emit wall typ kw s = s\<lparr>sb_events := last_n EVENTS_MAX (sb_events s @ [event_rec (wall s) typ kw])\<rparr>"

definition sim_events :: "int \<Rightarrow> 'a sim_scheme \<Rightarrow> pyval dict list" where
  "sim_events n s = (if n = 0 then [] else if n < 0 then sb_events s else last_n (nat n) (sb_events s))"

definition sim_config_get :: "sim_class \<Rightarrow> 'a sim_scheme \<Rightarrow> pyval dict res" where
  "sim_config_get cl s =
    res_bind (apply_updates (sb_config s) []) (\<lambda>cfg.
      Inr [(''config'', PDict cfg), (''defaults'', PDict defaults), (''digest'', PStr (cl_digest cl (sb_config s))),
           (''path'', PStr (cl_path cl)), (''hard_max_w'', pnum HARD_MAX_W)])"

text \<open>The part of \<open>config_set\<close> under the lock. Events are the records as they are emitted.\<close>

definition sim_store :: "sim_class \<Rightarrow> ('a sim_scheme \<Rightarrow> rat) \<Rightarrow> (pyval dict \<Rightarrow> 'a sim_scheme \<Rightarrow> 'a sim_scheme)
    \<Rightarrow> pyval dict \<Rightarrow> 'a sim_scheme \<Rightarrow> (pyval dict \<times> string dict) res \<times> 'a sim_scheme" where
  "sim_store cl wall on_config updates s =
    (case validate updates (sb_config s) of
       Inl e \<Rightarrow> (Inl e, s)
     | Inr (acc, rej) \<Rightarrow>
         if acc = [] then (Inr (acc, rej), s)
         else (case apply_updates (sb_config s) acc of
           Inl e \<Rightarrow> (Inl e, s)
         | Inr cfg \<Rightarrow>
             let s = s\<lparr>sb_config := cfg\<rparr>;
                 s = s\<lparr>sb_last_change := Some (wall s)\<rparr>;
                 s = sim_emit wall ''config_change'' [(''accepted'', PDict acc), (''rejected'', str_vals rej), (''persisted'', PBool (cl_persisted cl))] s
             in (Inr (acc, rej), on_config acc s)))"

definition sim_gpu_mode :: "'a sim_scheme \<Rightarrow> pyval res" where
  "sim_gpu_mode s = res_bind (cfg_section (sb_config s) ''gpu'') (\<lambda>g. sect_val g ''mode'')"

definition sim_config_set :: "sim_class \<Rightarrow> ('a sim_scheme \<Rightarrow> rat) \<Rightarrow> (pyval dict \<Rightarrow> 'a sim_scheme \<Rightarrow> 'a sim_scheme)
    \<Rightarrow> (pyval \<Rightarrow> 'a sim_scheme \<Rightarrow> pyval dict res \<times> 'a sim_scheme) \<Rightarrow> pyval dict \<Rightarrow> 'a sim_scheme
    \<Rightarrow> pyval dict res \<times> 'a sim_scheme" where
  "sim_config_set cl wall on_config gpu_set updates s =
    (let gm = py_get updates ''gpu.mode'' in
     case sim_store cl wall on_config (dpop ''gpu.mode'' updates) s of
       (Inl e, s) \<Rightarrow> (Inl e, s)
     | (Inr (acc, rej), s) \<Rightarrow>
         let out = (\<lambda>acc rej. [(''accepted'', PDict acc), (''rejected'', str_vals rej), (''persisted'', PBool (cl_persisted cl)),
                      (''error'', cl_reason cl), (''digest'', PStr (cl_digest cl (sb_config s)))])
         in if gm = PNone then (Inr (out acc rej), s)
            else (case sim_gpu_mode s of
              Inl e \<Rightarrow> (Inl e, s)
            | Inr m \<Rightarrow>
                if gm = m then (Inr (out (dset ''gpu.mode'' gm acc) rej), s)
                else (case gpu_set gm s of
                  (Inr res, s) \<Rightarrow> (Inr (out (dset ''gpu.mode'' (py_get res ''mode'') acc) rej @ [(''gpu'', PDict res)]), s)
                | (Inl (BackendError msg), s) \<Rightarrow> (Inr (out acc (dset ''gpu.mode'' msg rej)), s)
                | (Inl e, s) \<Rightarrow> (Inl e, s))))"

definition sim_config_reset :: "sim_class \<Rightarrow> ('a sim_scheme \<Rightarrow> rat) \<Rightarrow> (pyval dict \<Rightarrow> 'a sim_scheme \<Rightarrow> 'a sim_scheme)
    \<Rightarrow> (pyval \<Rightarrow> 'a sim_scheme \<Rightarrow> pyval dict res \<times> 'a sim_scheme) \<Rightarrow> 'a sim_scheme \<Rightarrow> pyval dict res \<times> 'a sim_scheme" where
  "sim_config_reset cl wall on_config gpu_set s = sim_config_set cl wall on_config gpu_set reset_updates s"

section \<open>Properties of the subscription\<close>

lemma sub_conn_frame [simp]: "sb_attempt (sub_conn r ok err s) = sb_attempt s" "sb_ended (sub_conn r ok err s) = sb_ended s"
  "sb_connected (sub_conn r ok err s) = ok" "sb_last_error (sub_conn r ok err s) = (if ok then sb_last_error s else err)"
  by (simp_all add: sub_conn_def sub_act_def Let_def)

fun is_notify :: "sub_act \<Rightarrow> bool" where
  "is_notify (Notify _ _) = True"
| "is_notify _ = False"

text \<open>The notifications in order are changes: never the same twice in a row, the first one not "disconnected, no error".\<close>

fun alternates :: "bool \<times> string option \<Rightarrow> sub_act list \<Rightarrow> bool" where
  "alternates prev [] = True"
| "alternates prev (Notify ok err # as) = ((ok, err) \<noteq> prev \<and> (ok \<longrightarrow> \<not> fst prev) \<and> alternates (ok, err) as)"
| "alternates prev (_ # as) = alternates prev as"

fun seen :: "bool \<times> string option \<Rightarrow> sub_act list \<Rightarrow> bool \<times> string option" where
  "seen prev [] = prev"
| "seen prev (Notify ok err # as) = seen (ok, err) as"
| "seen prev (_ # as) = seen prev as"

lemma alternates_append: "alternates p (as @ bs) \<longleftrightarrow> alternates p as \<and> alternates (seen p as) bs"
  by (induction p as rule: alternates.induct) auto

lemma seen_append: "seen p (as @ bs) = seen (seen p as) bs"
  by (induction p as rule: seen.induct) auto

text \<open>Each pause is the one the number of failures since the last status calls for.\<close>

fun pauses_ok :: "nat \<Rightarrow> sub_act list \<Rightarrow> bool" where
  "pauses_ok n [] = True"
| "pauses_ok n (Pause t # as) = (t = backoff n \<and> pauses_ok (n + 1) as)"
| "pauses_ok n (Deliver st # as) = pauses_ok 0 as"
| "pauses_ok n (Notify ok err # as) = pauses_ok n as"

fun failures :: "nat \<Rightarrow> sub_act list \<Rightarrow> nat" where
  "failures n [] = n"
| "failures n (Pause t # as) = failures (n + 1) as"
| "failures n (Deliver st # as) = failures 0 as"
| "failures n (Notify ok err # as) = failures n as"

lemma pauses_ok_append: "pauses_ok n (as @ bs) \<longleftrightarrow> pauses_ok n as \<and> pauses_ok (failures n as) bs"
  by (induction n as rule: pauses_ok.induct) auto

lemma failures_append: "failures n (as @ bs) = failures (failures n as) bs"
  by (induction n as rule: failures.induct) auto

lemma backoff_bounds: "1 / 2 \<le> backoff n \<and> backoff n \<le> 5 \<and> backoff n \<le> backoff (n + 1)"
proof (cases "n < 5")
  case True
  then have "n = 0 \<or> n = 1 \<or> n = 2 \<or> n = 3 \<or> n = 4" by auto
  then show ?thesis by (auto simp: backoff_def BACKOFF_S_def)
qed (simp add: backoff_def BACKOFF_S_def)

definition sub_inv :: "sub \<Rightarrow> bool" where
  "sub_inv s = (alternates (False, None) (sb_acts s) \<and> pauses_ok 0 (sb_acts s) \<and>
     (\<not> sb_stop s \<longrightarrow> failures 0 (sb_acts s) = sb_attempt s \<and>
        fst (seen (False, None) (sb_acts s)) = sb_connected s \<and>
        (\<not> sb_connected s \<longrightarrow> snd (seen (False, None) (sb_acts s)) = sb_last_error s)))"

lemmas sub_lists = alternates_append seen_append pauses_ok_append failures_append

lemma sub_got_inv: "sub_inv s \<Longrightarrow> sub_inv (sub_step (Got st r c) s)"
  by (cases "seen (False, None) (sb_acts s)") (auto simp: sub_inv_def sub_step_def sub_conn_def sub_act_def Let_def sub_lists)

lemma sub_failed_inv: "sub_inv s \<Longrightarrow> sub_inv (sub_step (Failed e r) s)"
  by (cases "seen (False, None) (sb_acts s)") (auto simp: sub_inv_def sub_step_def sub_conn_def sub_act_def Let_def sub_lists)

lemma sub_step_inv: "sub_inv s \<Longrightarrow> sub_inv (sub_step i s)"
  by (cases i) (simp_all add: sub_got_inv sub_failed_inv, simp add: sub_step_def sub_inv_def)

lemma sub_run_inv: "sub_inv s \<Longrightarrow> sub_inv (sub_run is s)"
  unfolding sub_run_def by (induction "is" arbitrary: s) (simp_all add: sub_step_inv)

lemma sub_stopped_step:
  assumes "sb_stop s"
  shows "sb_acts (sub_step i s) = sb_acts s \<and> sb_stop (sub_step i s)"
  using assms by (cases i) (simp_all add: sub_step_def)


section \<open>Properties of the live backend\<close>

text \<open>Every request of the live backend is a command of the protocol, and the daemon knows it.\<close>

lemma live_request_known: "fst (live_request op) \<in> set COMMANDS - {''subscribe''}"
  by (cases op) (simp_all add: live_request_def COMMANDS_def)

lemma live_errors_are_backend:
  "live_call estr client op = Inl e \<Longrightarrow> (\<exists>m. e = BackendError m) \<or> (\<exists>m. e = TypeError m) \<or>
     (\<exists>c t a. client c t a = Inl e)"
  by (auto simp: live_call_def live_error_def split: prod.splits if_splits sum.splits py_exn.splits)

section \<open>What the shared part relies on\<close>

text \<open>
  The contract of a simulated backend: \<open>on_config\<close> leaves the configuration alone; a GPU request either
  stores the mode it was asked for, one of the three, and reports it, or refuses with a \<open>BackendError\<close>
  and leaves the configuration alone.
\<close>

locale sim_hooks =
  fixes wall :: "'a sim_scheme \<Rightarrow> rat"
    and on_config :: "pyval dict \<Rightarrow> 'a sim_scheme \<Rightarrow> 'a sim_scheme"
    and gpu_set :: "pyval \<Rightarrow> 'a sim_scheme \<Rightarrow> pyval dict res \<times> 'a sim_scheme"
  assumes on_config_config: "sb_config (on_config acc s) = sb_config s"
    and gpu_set_done: "cfg_wf (sb_config s) \<Longrightarrow> gpu_set v s = (Inr res, s') \<Longrightarrow>
      \<exists>m. v = PStr m \<and> m \<in> {''auto'', ''low'', ''off''} \<and> py_get res ''mode'' = v \<and> apply_updates (sb_config s) [(''gpu.mode'', v)] = Inr (sb_config s')"
    and gpu_set_refused: "cfg_wf (sb_config s) \<Longrightarrow> gpu_set v s = (Inl e, s') \<Longrightarrow> (\<exists>m. e = BackendError m) \<and> sb_config s' = sb_config s"
begin

lemma store_cases:
  assumes "cfg_wf (sb_config s)" "validate updates (sb_config s) = Inr (acc, rej)"
  obtains cfg s' where "apply_updates (sb_config s) acc = Inr cfg" "sim_store cl wall on_config updates s = (Inr (acc, rej), s')"
    "sb_config s' = cfg" "cfg_wf cfg" "in_force (sb_config s) acc cfg" "\<forall>k. dhas acc k \<longrightarrow> dhas updates k"
proof -
  from validate_apply [OF assms] obtain cfg where c: "apply_updates (sb_config s) acc = Inr cfg" "cfg_wf cfg" "in_force (sb_config s) acc cfg"
      "\<forall>k. dhas acc k \<longrightarrow> dhas updates k"
    unfolding in_force_def by blast
  have "\<exists>s'. sim_store cl wall on_config updates s = (Inr (acc, rej), s') \<and> sb_config s' = cfg"
    using c(1) assms(2) by (auto simp: sim_store_def sim_emit_def on_config_config Let_def)
  with c that show thesis by blast
qed

lemma gpu_mode_wf:
  assumes "cfg_wf (sb_config s)"
  obtains m where "sim_gpu_mode s = Inr (PStr m)" "dget (flatten (sb_config s) []) ''gpu.mode'' = Some (PStr m)"
proof -
  obtain m c where g: "gpu_section (sb_config s) = Inr (m, c)" using gpu_section_wf [OF assms] by blast
  then have "sim_gpu_mode s = Inr (PStr m)"
    by (auto simp: gpu_section_def sim_gpu_mode_def sect_str_def res_bind_def split: sum.splits pyval.splits)
  with flatten_gpu_mode [OF assms g] that show thesis by blast
qed

text \<open>The request always gets a reply when the daemon's validation gives one, and the reply tells what is in force.\<close>

lemma config_set_reports:
  assumes "cfg_wf (sb_config s)" "validate (dpop ''gpu.mode'' updates) (sb_config s) = Inr ar"
  shows "\<exists>out s' acc. sim_config_set cl wall on_config gpu_set updates s = (Inr out, s') \<and> py_get out ''accepted'' = PDict acc \<and>
    cfg_wf (sb_config s') \<and> in_force (sb_config s) acc (sb_config s') \<and> (\<forall>k. dhas acc k \<longrightarrow> dhas updates k)"
proof -
  obtain acc rej where ar: "ar = (acc, rej)" by (cases ar)
  obtain s1 where s1: "sim_store cl wall on_config (dpop ''gpu.mode'' updates) s = (Inr (acc, rej), s1)" "cfg_wf (sb_config s1)"
      "in_force (sb_config s) acc (sb_config s1)" "\<forall>k. dhas acc k \<longrightarrow> dhas (dpop ''gpu.mode'' updates) k"
    using store_cases [OF assms(1) assms(2) [unfolded ar]] by metis
  then have keys: "dhas acc k \<Longrightarrow> dhas updates k" for k by simp
  obtain m where m: "sim_gpu_mode s1 = Inr (PStr m)" "dget (flatten (sb_config s1) []) ''gpu.mode'' = Some (PStr m)" using gpu_mode_wf [OF s1(2)] .
  let ?gm = "py_get updates ''gpu.mode''"
  have has: "dhas updates ''gpu.mode''" if "?gm \<noteq> PNone" using that by (auto simp: py_get_def dhas_def split: option.splits)
  consider (none) "?gm = PNone" | (kept) "?gm = PStr m" | (other) "?gm \<noteq> PNone" "?gm \<noteq> PStr m" by blast
  then show ?thesis
  proof cases
    case none
    then show ?thesis using s1 keys by (auto simp: sim_config_set_def py_get_def Let_def)
  next
    case kept
    have "in_force (sb_config s1) [(''gpu.mode'', PStr m)] (sb_config s1)" using m(2) by (simp add: in_force_def)
    from in_force_trans [OF s1(3) this] show ?thesis using kept s1(1,2) m(1) keys has
      by (auto simp: sim_config_set_def py_get_def Let_def)
  next
    case other
    obtain r s2 where g: "gpu_set ?gm s1 = (r, s2)" by (metis surj_pair)
    show ?thesis
    proof (cases r)
      case (Inr res)
      obtain x where x: "?gm = PStr x" "x \<in> {''auto'', ''low'', ''off''}" "py_get res ''mode'' = ?gm"
          "apply_updates (sb_config s1) [(''gpu.mode'', ?gm)] = Inr (sb_config s2)"
        using gpu_set_done [OF s1(2) g [unfolded Inr]] by blast
      have w: "cfg_wf (sb_config s2)" "in_force (sb_config s1) [(''gpu.mode'', ?gm)] (sb_config s2)"
        using set_mode_wf [OF s1(2) x(2)] x(1,4) by (auto simp: in_force_def simp del: apply_updates.simps)
      have "sim_config_set cl wall on_config gpu_set updates s = (Inr (config_reply (dset ''gpu.mode'' ?gm acc) rej (cl_persisted cl) (cl_reason cl)
          (cl_digest cl (sb_config s1)) @ [(''gpu'', PDict res)]), s2)"
        using other m(1) g Inr x(3) by (simp add: sim_config_set_def s1(1) config_reply_def Let_def)
      then show ?thesis using w in_force_trans [OF s1(3) w(2)] keys has [OF other(1)] by (auto simp: config_reply_def py_get_def)
    next
      case (Inl e)
      obtain msg where e: "e = BackendError msg" "sb_config s2 = sb_config s1" using gpu_set_refused [OF s1(2) g [unfolded Inl]] by blast
      have "sim_config_set cl wall on_config gpu_set updates s = (Inr (config_reply acc (dset ''gpu.mode'' msg rej) (cl_persisted cl) (cl_reason cl)
          (cl_digest cl (sb_config s1))), s2)"
        using other m(1) g Inl e(1) by (simp add: sim_config_set_def s1(1) config_reply_def Let_def)
      then show ?thesis using s1(2,3) keys by (auto simp: config_reply_def py_get_def e(2))
    qed
  qed
qed

text \<open>Every request keeps the configuration well formed, also one that validation does not survive.\<close>

lemma config_set_wf:
  assumes "cfg_wf (sb_config s)" "sim_config_set cl wall on_config gpu_set updates s = (r, s')"
  shows "cfg_wf (sb_config s')"
proof (cases "validate (dpop ''gpu.mode'' updates) (sb_config s)")
  case (Inl e)
  then show ?thesis using assms by (simp add: sim_config_set_def sim_store_def Let_def)
next
  case (Inr ar)
  from config_set_reports [OF assms(1) Inr, of cl] assms(2) show ?thesis by auto
qed

lemma gpu_set_wf:
  assumes "cfg_wf (sb_config s)" "gpu_set v s = (r, s')"
  shows "cfg_wf (sb_config s')"
proof (cases r)
  case (Inl e)
  then show ?thesis using gpu_set_refused assms by metis
next
  case (Inr res)
  then obtain m where "v = PStr m" "m \<in> {''auto'', ''low'', ''off''}" "apply_updates (sb_config s) [(''gpu.mode'', v)] = Inr (sb_config s')"
    using gpu_set_done assms by metis
  then show ?thesis using set_mode_wf [OF assms(1)] by (metis Inr_inject)
qed

text \<open>
  Refinement: on the same configuration, a request without a GPU mode that the daemon answers gets from the
  simulated backend a reply of the same shape with the same accepted keys, rejections and digest, and
  leaves the same configuration.
\<close>

lemma config_set_refines:
  assumes "cfg_wf (dm_config d)" "sb_config s = dm_config d" "\<not> dhas updates ''gpu.mode''" "cl_digest cl = dv_digest env"
    "set_config env updates d = (Inr out, d')"
  shows "\<exists>out' s'. sim_config_set cl wall on_config gpu_set updates s = (Inr out', s') \<and> sb_config s' = dm_config d' \<and>
    map fst out' = map fst out \<and> py_get out' ''accepted'' = py_get out ''accepted'' \<and> py_get out' ''rejected'' = py_get out ''rejected'' \<and>
    py_get out' ''digest'' = py_get out ''digest''"
proof -
  have gm: "py_get updates ''gpu.mode'' = PNone" using assms(3) by (simp add: py_get_def dhas_def)
  have "dpop ''gpu.mode'' updates = updates" using assms(3) by (simp add: dhas_def map_of_eq_None_iff)
  note p = this
  obtain acc rej pe err where st: "store_updates env updates d = (Inr (acc, rej, pe, err), d')"
      "out = config_reply acc rej pe err (dv_digest env (dm_config d'))"
    using assms(5) gm p by (auto simp: set_config_def config_reply_def Let_def split: sum.splits prod.splits)
  have v: "validate updates (dm_config d) = Inr (acc, rej)"
    using st(1) by (auto simp: store_updates_def Let_def split: sum.splits prod.splits if_splits)
  obtain s' where s': "sim_store cl wall on_config updates s = (Inr (acc, rej), s')" "apply_updates (dm_config d) acc = Inr (sb_config s')"
    using store_cases [of s updates acc rej] assms(1,2) v by metis
  have "sb_config s' = dm_config d'" using assms(1) st(1)
  proof (cases rule: store_updates_cases)
    case same
    then show ?thesis using s'(2) by simp
  next
    case (stored a j cfg)
    then show ?thesis using s'(2) by simp
  qed
  then have "sim_config_set cl wall on_config gpu_set updates s =
      (Inr (config_reply acc rej (cl_persisted cl) (cl_reason cl) (dv_digest env (dm_config d'))), s')"
    using s'(1) gm p assms(4) by (simp add: sim_config_set_def config_reply_def Let_def)
  then show ?thesis using \<open>sb_config s' = dm_config d'\<close> st(2) by (simp add: config_reply_def py_get_def)
qed

end

end
