(* ===== verification/Replay.thy ===== *)
theory Replay
  imports Backend
begin

text \<open>
  \<open>tui/replay.py\<close>: a sample log played as if it were live. The state extends that of the simulated backends
  with the records, the position and what has been seen so far. The lines of the log (or the error of
  opening it), the JSON reader, the text of a time stamp and the version are arguments; numbers in the
  records are finite, as the daemon writes them.
\<close>

section \<open>The log\<close>

type_synonym row = "pyval dict"

definition load_line :: "json_loads \<Rightarrow> string \<Rightarrow> row \<times> row list \<Rightarrow> row \<times> row list" where
  "load_line loads line hr =
    (case loads line of
       Some (PDict rec) \<Rightarrow>
         if py_get rec ''kind'' = PStr ''header'' then (if fst hr \<noteq> [] then fst hr else rec, snd hr)
         else if as_float (py_get rec ''ts'') \<noteq> None then (fst hr, snd hr @ [rec])
         else hr
     | _ \<Rightarrow> hr)"

definition load_records :: "json_loads \<Rightarrow> string \<Rightarrow> string list res \<Rightarrow> (row \<times> row list) res" where
  "load_records loads path lines =
    res_bind lines (\<lambda>ls.
      case fold (load_line loads) ls ([], []) of
        (h, rs) \<Rightarrow> if rs = [] then Inl (BackendError (path @ '': no sample records'')) else Inr (h, rs))"

definition mode_for :: "pyval \<Rightarrow> string res" where
  "mode_for state = (case state of
     PStr s \<Rightarrow> Inr (if s = ''STATIC'' then ''static'' else if s = ''OFF'' then ''off'' else ''dynamic'')
   | PList _ \<Rightarrow> Inl (TypeError ''unhashable type'')
   | PDict _ \<Rightarrow> Inl (TypeError ''unhashable type'')
   | _ \<Rightarrow> Inr ''dynamic'')"

text \<open>\<open>v or {}\<close>, used as a dictionary.\<close>

definition dict_or :: "pyval \<Rightarrow> row res" where
  "dict_or v = (case v of PDict d \<Rightarrow> Inr d | _ \<Rightarrow> if truthy v then Inl (AttributeError ''get'') else Inr [])"

definition rec_ts :: "row \<Rightarrow> rat" where
  "rec_ts rec = (case as_float (py_get rec ''ts'') of Some (Fin x) \<Rightarrow> x | _ \<Rightarrow> 0)"

section \<open>The state\<close>

definition PEAK_FIELDS :: "(string \<times> string) list" where
  "PEAK_FIELDS = [(''input_w'', ''input_max_w''), (''pkg_w'', ''pkg_w''), (''a'', ''a''), (''gpu_w'', ''gpu_w''), (''pkg_c'', ''pkg_c'')]"

record replay = sim +
  rp_path :: string
  rp_header :: row
  rp_records :: "row list"
  rp_t0 :: rat
  rp_span :: rat
  rp_speed :: rat
  rp_pos :: rat
  rp_played :: int
  rp_history :: "row list"
  rp_peaks :: "(pyfloat \<times> pyval) dict"
  rp_counters :: "int dict"
  rp_state :: pyval
  rp_since :: rat
  rp_prev_pl1 :: pyval
  rp_gpu_result :: pyval
  rp_emit_at :: rat

definition replay_class :: "(pyval dict \<Rightarrow> string) \<Rightarrow> sim_class" where
  "replay_class digest = \<lparr>cl_persisted = False, cl_reason = PStr ''replay: changes are shown, never saved'',
     cl_path = ''(replay: in memory, not persisted)'', cl_digest = digest\<rparr>"

text \<open>\<open>stamp\<close> is the ISO time of a time stamp.\<close>

definition rep_rec :: "(rat \<Rightarrow> string) \<Rightarrow> row list \<Rightarrow> rat \<Rightarrow> int \<Rightarrow> row" where
  "rep_rec stamp records sp k =
    (let n = int (length records); loop = k div n; rec = records ! nat (k mod n)
     in if loop = 0 then rec
        else let t = fadd (rec_ts rec) (fmul (fl (of_int loop)) sp)
             in dset ''time'' (PStr (stamp t)) (dset ''ts'' (pnum t) rec))"

definition bump :: "string \<Rightarrow> int dict \<Rightarrow> int dict" where
  "bump k c = dset k ((case dget c k of Some n \<Rightarrow> n | None \<Rightarrow> 0) + 1) c"

abbreviation rp_emit :: "string \<Rightarrow> row \<Rightarrow> replay \<Rightarrow> replay" where
  "rp_emit \<equiv> sim_emit rp_emit_at"

text \<open>The parts of one turn of the loop of \<open>_play_to\<close>.\<close>

definition play_marks :: "int \<Rightarrow> replay \<Rightarrow> replay" where
  "play_marks k s =
    (let n = int (length (rp_records s)) in
     if k = 0 then rp_emit ''replay_start'' [(''file'', PStr (base_name (rp_path s))), (''records'', PInt n)] s
     else if k mod n = 0 then rp_emit ''replay_loop'' [(''loop'', PInt (k div n))] s
     else s)"

definition play_state :: "pyval \<Rightarrow> rat \<Rightarrow> replay \<Rightarrow> replay" where
  "play_state st ts s =
    (if st = rp_state s then s
     else let s = (if rp_state s = PNone then s
                   else let s = rp_emit ''state'' [(''from'', rp_state s), (''to'', st)] s;
                            s = (if st = PStr ''EMERGENCY'' then s\<lparr>rp_counters := bump ''emergencies'' (rp_counters s)\<rparr> else s)
                        in if st = PStr ''FALLBACK'' then s\<lparr>rp_counters := bump ''fallbacks'' (rp_counters s)\<rparr> else s)
          in s\<lparr>rp_state := st, rp_since := ts\<rparr>)"

definition pf_differ :: "pyfloat \<Rightarrow> pyfloat \<Rightarrow> bool" where
  "pf_differ x y = (x = NaN \<or> y = NaN \<or> x \<noteq> y)"

definition play_limits :: "pyval \<Rightarrow> pyval \<Rightarrow> replay \<Rightarrow> replay" where
  "play_limits pl1 pl2 s =
    (let s = (case (as_float pl1, as_float (rp_prev_pl1 s)) of
                (Some x, Some y) \<Rightarrow>
                  if pf_differ x y then
                    rp_emit ''write'' [(''why'', PStr ''replay''), (''ok'', PBool True), (''pl1_w'', pl1), (''pl2_w'', pl2)]
                      (s\<lparr>rp_counters := bump (if pf_less x y then ''cuts'' else ''recoveries'') (bump ''writes'' (rp_counters s))\<rparr>)
                  else s
              | _ \<Rightarrow> s)
     in s\<lparr>rp_prev_pl1 := if pl1 \<noteq> PNone then pl1 else rp_prev_pl1 s\<rparr>)"

definition play_peak :: "row \<Rightarrow> string \<times> string \<Rightarrow> (pyfloat \<times> pyval) dict \<Rightarrow> (pyfloat \<times> pyval) dict" where
  "play_peak rec ks ps =
    (case peak_of (py_get rec (snd ks)) of
       None \<Rightarrow> ps
     | Some x \<Rightarrow> if (case dget ps (fst ks) of None \<Rightarrow> True | Some (v, _) \<Rightarrow> pf_less v x)
                 then dset (fst ks) (round_pf 2 x, py_get rec ''ts'') ps else ps)"

definition play_one :: "(rat \<Rightarrow> string) \<Rightarrow> replay \<Rightarrow> replay" where
  "play_one stamp s =
    (let k = rp_played s + 1;
         rec = rep_rec stamp (rp_records s) (rp_span s) k;
         s = s\<lparr>rp_played := k, rp_emit_at := rec_ts rec\<rparr>;
         s = play_limits (py_get rec ''pl1_w'') (py_get rec ''pl2_w'') (play_state (py_get rec ''state'') (rec_ts rec) (play_marks k s))
     in s\<lparr>rp_peaks := fold (play_peak rec) PEAK_FIELDS (rp_peaks s), rp_history := last_n HISTORY_LEN (rp_history s @ [rec])\<rparr>)"

text \<open>The loop \<open>while self.played < k\<close>: each turn plays one record.\<close>

primrec play_n :: "(rat \<Rightarrow> string) \<Rightarrow> nat \<Rightarrow> replay \<Rightarrow> replay" where
  "play_n stamp 0 s = s"
| "play_n stamp (Suc n) s = play_n stamp n (play_one stamp s)"

definition play_to :: "(rat \<Rightarrow> string) \<Rightarrow> int \<Rightarrow> replay \<Rightarrow> replay" where
  "play_to stamp k s = play_n stamp (nat (k - rp_played s)) s"

definition replay_advance :: "(rat \<Rightarrow> string) \<Rightarrow> rat \<Rightarrow> replay \<Rightarrow> replay" where
  "replay_advance stamp seconds s =
    (let s = s\<lparr>rp_pos := fadd (rp_pos s) (fmul seconds (rp_speed s))\<rparr> in play_to stamp (trunc_rat (rp_pos s)) s)"

definition zero_play_counters :: "int dict" where
  "zero_play_counters = map (\<lambda>k. (k, 0)) [''cuts'', ''emergencies'', ''fallbacks'', ''recoveries'', ''writes'', ''readback_failures'', ''thermal_trims'']"

definition replay_cfg :: "row \<Rightarrow> row res" where
  "replay_cfg first =
    res_bind (mode_for (py_get first ''state'')) (\<lambda>mode.
    res_bind (dict_or (py_get first ''gpu'')) (\<lambda>gpu.
      apply_updates defaults [(''governor.mode'', PStr mode),
        (''gpu.mode'', if truthy (py_get gpu ''mode'') then py_get gpu ''mode'' else PStr ''auto'')]))"

definition replay_init :: "json_loads \<Rightarrow> (rat \<Rightarrow> string) \<Rightarrow> string \<Rightarrow> string list res \<Rightarrow> rat \<Rightarrow> replay res" where
  "replay_init loads stamp path lines speed =
    res_bind (load_records loads path lines) (\<lambda>(header, records).
    res_bind (replay_cfg (hd records)) (\<lambda>cfg.
      let t0 = rec_ts (hd records) in
      Inr (play_to stamp 0
        \<lparr>sb_config = if cfg = [] then defaults else cfg, sb_events = [], sb_last_change = None,
         rp_path = path, rp_header = header, rp_records = records, rp_t0 = t0, rp_span = fadd (fsub (rec_ts (last records)) t0) 1,
         rp_speed = max (fl (5 / 100)) speed, rp_pos = 0, rp_played = -1, rp_history = [], rp_peaks = [], rp_counters = zero_play_counters,
         rp_state = PNone, rp_since = t0, rp_prev_pl1 = PNone, rp_gpu_result = PNone, rp_emit_at = t0\<rparr>)))"

section \<open>Requests\<close>

definition replay_gpu_set :: "pyval \<Rightarrow> replay \<Rightarrow> pyval dict res \<times> replay" where
  "replay_gpu_set mode s =
    (if mode \<notin> {PStr ''auto'', PStr ''low'', PStr ''off''} then (Inl (BackendError ''mode must be auto, low or off''), s)
     else (case apply_updates (sb_config s) [(''gpu.mode'', mode)] of
       Inl e \<Rightarrow> (Inl e, s)
     | Inr cfg \<Rightarrow>
         let res = [(''ok'', PBool True), (''mode'', mode), (''reason'', PStr ''replay: nothing applied''),
                    (''steps'', PList [PStr (''replay: would apply '' @ (case mode of PStr m \<Rightarrow> m | _ \<Rightarrow> []))]), (''persisted'', PBool False)]
         in (Inr res, rp_emit ''gpu_mode'' ((''requested'', mode) # res)
               (s\<lparr>sb_config := cfg, rp_gpu_result := PDict res, sb_last_change := Some (rp_emit_at s)\<rparr>))))"

definition replay_config_set :: "(row \<Rightarrow> string) \<Rightarrow> row \<Rightarrow> replay \<Rightarrow> row res \<times> replay" where
  "replay_config_set digest updates s = sim_config_set (replay_class digest) rp_emit_at (\<lambda>_ s. s) replay_gpu_set updates s"

definition replay_history :: "rat \<Rightarrow> bool \<Rightarrow> replay \<Rightarrow> row list" where
  "replay_history seconds full s =
    (let n = nat (max 0 (min (trunc_rat seconds) (int HISTORY_LEN))); rows = last_n n (rp_history s)
     in if full then rows else map (\<lambda>r. map (\<lambda>k. (k, py_get r k)) HISTORY_FIELDS) rows)"

definition replay_incident :: "(string \<Rightarrow> string) \<Rightarrow> string \<Rightarrow> row res" where
  "replay_incident str_repr i = Inl (BackendError (''no incident '' @ str_repr i @ '' (replay has none)''))"

text \<open>\<open>smc_keys\<close> of a record whose \<open>smc\<close> and \<open>smc_temps\<close> are dictionaries or missing.\<close>

definition keys_of :: "pyval \<Rightarrow> string list" where
  "keys_of v = (case v of PDict d \<Rightarrow> map fst d | _ \<Rightarrow> [])"

definition replay_smc_keys :: "replay \<Rightarrow> row list" where
  "replay_smc_keys s =
    (let rec = last (rp_history s);
         names = [''ACPW'', ''ID0R'', ''PDTR'', ''VD0R''] @ keys_of (py_get rec ''smc'') @ keys_of (py_get rec ''smc_temps'')
     in map (\<lambda>n. [(''name'', PStr n), (''index'', PNone), (''type'', PStr ''?''), (''len'', PNone)]) (sort (remdups names)))"

section \<open>The status of a record\<close>

definition fans_of :: "pyval \<Rightarrow> row list res" where
  "fans_of v = (case v of
     PList l \<Rightarrow> Inr (List.map_filter (\<lambda>f. case f of PDict d \<Rightarrow> Some d | _ \<Rightarrow> None) l)
   | PStr _ \<Rightarrow> Inr []
   | PDict _ \<Rightarrow> Inr []
   | _ \<Rightarrow> if truthy v then Inl (TypeError ''not iterable'') else Inr [])"

text \<open>\<open>mw[i] if i < len(mw) else None\<close> of \<open>mw = v or []\<close>.\<close>

definition nth_or_none :: "pyval \<Rightarrow> nat \<Rightarrow> pyval res" where
  "nth_or_none v i = (case v of
     PList l \<Rightarrow> Inr (if i < length l then l ! i else PNone)
   | PStr t \<Rightarrow> Inr (if i < length t then PStr [t ! i] else PNone)
   | PDict d \<Rightarrow> if i < length d then Inl (KeyError (str_int (int i))) else Inr PNone
   | _ \<Rightarrow> if truthy v then Inl (TypeError ''object has no len()'') else Inr PNone)"

fun map_fans :: "pyval \<Rightarrow> pyval \<Rightarrow> nat \<Rightarrow> row list \<Rightarrow> pyval list res" where
  "map_fans mw hw i [] = Inr []"
| "map_fans mw hw i (f # fs) =
    res_bind (nth_or_none mw i) (\<lambda>a. res_bind (nth_or_none hw i) (\<lambda>b. res_bind (map_fans mw hw (i + 1) fs) (\<lambda>rs.
      Inr (PDict [(''label'', py_get f ''label''), (''rpm'', py_get f ''rpm''), (''min_written'', a), (''hw_min'', b), (''max'', py_get f ''max'')] # rs))))"

definition map_fan :: "row \<Rightarrow> row res" where
  "map_fan rec =
    res_bind (fans_of (py_get rec ''fans'')) (\<lambda>fans.
    case py_get rec ''fan'' of
      PDict fan \<Rightarrow>
        res_bind (map_fans (py_get fan ''min_written'') (py_get fan ''hw_min'') 0 fans) (\<lambda>rows.
          Inr [(''mode'', py_get fan ''mode''), (''target_rpm'', py_get fan ''target_rpm''), (''reason'', py_get fan ''reason''),
               (''fans'', PList rows), (''last_change_ts'', PNone),
               (''write_errors'', case dget fan ''write_errors'' of Some v \<Rightarrow> v | None \<Rightarrow> PInt 0)])
    | _ \<Rightarrow>
        Inr [(''mode'', PStr ''auto''), (''target_rpm'', PInt 0), (''reason'', PStr ''replay: no fan floor in this log''),
             (''fans'', PList (map (\<lambda>f. PDict [(''label'', py_get f ''label''), (''rpm'', py_get f ''rpm''), (''min_written'', py_get f ''min''),
                (''hw_min'', py_get f ''min''), (''max'', py_get f ''max'')]) fans)),
             (''last_change_ts'', PNone), (''write_errors'', PInt 0)])"

text \<open>\<open>lim or None\<close> of \<open>lim = v or {}\<close>.\<close>

definition or_none :: "pyval \<Rightarrow> pyval" where
  "or_none v = (if truthy v then v else PNone)"

text \<open>\<open>dict(v or {})\<close>.\<close>

definition dict_copy :: "pyval \<Rightarrow> row res" where
  "dict_copy v = (case v of PDict d \<Rightarrow> Inr d | _ \<Rightarrow> if truthy v then Inl (TypeError ''cannot convert to a dictionary'') else Inr [])"

definition map_gpu :: "replay \<Rightarrow> row \<Rightarrow> row" where
  "map_gpu s gpu = dmerge gpu [(''config_mode'', cfg_at (sb_config s) ''gpu'' ''mode''), (''cap_cfg_w'', cfg_at (sb_config s) ''gpu'' ''cap_w''),
     (''busy'', PBool False), (''last_result'', rp_gpu_result s)]"

definition map_governor :: "replay \<Rightarrow> row \<Rightarrow> row" where
  "map_governor s rec =
    (let g = cfg_at (sb_config s) ''governor'' in
     [(''mode'', g ''mode''), (''state'', py_get rec ''state''), (''since'', pnum (rp_since s)), (''pl1_w'', py_get rec ''pl1_w''),
      (''pl2_w'', py_get rec ''pl2_w''), (''fallback_reason'', PNone), (''retry_at'', PNone), (''backoff_s'', pnum 0), (''last_action'', PNone),
      (''thermal_cap_w'', py_get rec ''thermal_cap_w''), (''counters'', PDict (map (\<lambda>(k, n). (k, PInt n)) (rp_counters s))),
      (''time_in_state'', PDict []), (''in_state_s'', pnum (py_round 1 (fsub (rec_ts rec) (rp_since s)))), (''ceiling_w'', g ''ceiling_w''),
      (''static_cap_w'', g ''static_cap_w''), (''floor_w'', g ''floor_w''), (''last_write'', PNone)])"

definition map_thresholds :: "pyval \<Rightarrow> gov_cfg \<Rightarrow> pyval res" where
  "map_thresholds acpw g =
    (if \<not> truthy acpw then Inr PNone
     else case as_float acpw of Some (Fin x) \<Rightarrow> Inr (thresholds_val (thresholds (Some x) g)) | _ \<Rightarrow> Inl (TypeError ''acpw_w''))"

definition record_view :: "(row \<Rightarrow> string) \<Rightarrow> string \<Rightarrow> replay \<Rightarrow> row \<Rightarrow> gov_cfg \<Rightarrow> row \<Rightarrow> pyval \<Rightarrow> row \<Rightarrow> row" where
  "record_view digest version s rec g gpu th fan =
    (let acpw = py_get rec ''acpw_w''; ts = py_get rec ''ts''; up = fsub (rec_ts rec) (rp_t0 s); valid = PBool (truthy (py_get rec ''smc_valid'')) in
     [(''ts'', ts), (''host'', PStr ''replay''), (''version'', PStr version), (''boot_id'', py_get (rp_header s) ''boot_id''),
      (''daemon_uptime_s'', pnum (py_round 1 up)), (''self'', py_get rec ''self''),
      (''latest'', PDict [(''ts'', ts), (''mono'', pnum up), (''valid'', valid), (''pdtr_w'', py_get rec ''input_w''), (''v'', py_get rec ''v''),
         (''a'', py_get rec ''a''), (''acpw_w'', acpw), (''package_w'', py_get rec ''pkg_w''), (''core_w'', py_get rec ''core_w''),
         (''uncore_w'', py_get rec ''uncore_w''), (''dram_w'', py_get rec ''dram_w'')]),
      (''derived'', PDict [(''input_mean_1s'', py_get rec ''input_w''), (''input_max_1s'', py_get rec ''input_max_w''),
         (''pkg_median_1s'', py_get rec ''pkg_w''), (''acpw_median_10s'', acpw), (''noncpu_est_w'', py_get rec ''noncpu_w''),
         (''headroom_w'', py_get rec ''headroom_w''), (''pred_input_at_ceiling_w'', pnum (predicted_input_w (g_ceiling_w g)))]),
      (''thresholds'', th), (''governor'', PDict (map_governor s rec)),
      (''limits'', PDict [(''sysfs'', or_none (py_get rec ''sysfs_limits'')), (''msr'', py_get rec ''msr_limits''), (''firmware'', PNone), (''hard_max_w'', pnum HARD_MAX_W)]),
      (''msr'', py_get rec ''msr''), (''smc'', py_get rec ''smc''), (''smc_temps'', py_get rec ''smc_temps''), (''fans'', py_get rec ''fans''),
      (''gpu'', PDict (map_gpu s gpu)), (''fan'', PDict fan), (''cpu'', py_get rec ''cpu''),
      (''peaks'', PDict (map (\<lambda>(k, v, t). (k, PDict [(''value'', PFloat v), (''ts'', t)])) (rp_peaks s))),
      (''smc_ok'', valid), (''config_digest'', PStr (digest (sb_config s))),
      (''incident_check'', PDict [(''verdict'', PStr ''unknown''), (''reason'', PStr ''replay: no boot check'')])])"

definition map_record :: "(row \<Rightarrow> string) \<Rightarrow> string \<Rightarrow> replay \<Rightarrow> row \<Rightarrow> row res" where
  "map_record digest version s rec =
    res_bind (dict_copy (py_get rec ''gpu'')) (\<lambda>gpu.
    res_bind (gov_cfg_of (sb_config s)) (\<lambda>g.
    res_bind (map_thresholds (py_get rec ''acpw_w'') g) (\<lambda>th.
    res_bind (map_fan rec) (\<lambda>fan.
      Inr (record_view digest version s rec g gpu th fan)))))"

definition replay_status :: "(row \<Rightarrow> string) \<Rightarrow> string \<Rightarrow> replay \<Rightarrow> row res" where
  "replay_status digest version s = map_record digest version s (last (rp_history s))"

section \<open>The replay as a simulated backend\<close>

lemma replay_gpu_set_done:
  "replay_gpu_set v s = (Inr res, s') \<Longrightarrow>
    \<exists>m. v = PStr m \<and> m \<in> {''auto'', ''low'', ''off''} \<and> py_get res ''mode'' = v \<and> apply_updates (sb_config s) [(''gpu.mode'', v)] = Inr (sb_config s')"
  unfolding replay_gpu_set_def
  by (auto simp: sim_emit_def py_get_def Let_def split: if_splits sum.splits simp del: apply_updates.simps)

lemma replay_gpu_set_refused:
  assumes "cfg_wf (sb_config s)" "replay_gpu_set v s = (Inl e, s')"
  shows "(\<exists>m. e = BackendError m) \<and> s' = s"
proof (cases "v \<in> {PStr ''auto'', PStr ''low'', PStr ''off''}")
  case True
  then obtain m where m: "v = PStr m" "m \<in> {''auto'', ''low'', ''off''}" by blast
  obtain c where c: "apply_updates (sb_config s) [(''gpu.mode'', PStr m)] = Inr c" using set_mode_wf [OF assms(1) m(2)] by blast
  have "\<exists>res s2. replay_gpu_set v s = (Inr res, s2)" using True
    unfolding replay_gpu_set_def m(1) c by (simp add: Let_def)
  then show ?thesis using assms(2) by simp
next
  case False
  then show ?thesis using assms(2) by (auto simp: replay_gpu_set_def)
qed

interpretation rp: sim_hooks rp_emit_at "\<lambda>_ s. s" replay_gpu_set
  by unfold_locales (use replay_gpu_set_done replay_gpu_set_refused in blast)+

section \<open>Playing\<close>

text \<open>The parts of the state that only playing changes.\<close>

definition rp_core :: "replay \<Rightarrow> row list \<times> rat \<times> int \<times> row list \<times> rat" where
  "rp_core s = (rp_records s, rp_span s, rp_played s, rp_history s, rp_pos s)"

lemma sim_emit_core [simp]: "rp_core (rp_emit typ kw s) = rp_core s" "rp_counters (rp_emit typ kw s) = rp_counters s"
  "sb_config (rp_emit typ kw s) = sb_config s"
  by (simp_all add: sim_emit_def rp_core_def)

lemma rp_core_upd [simp]: "rp_core (s\<lparr>rp_counters := c\<rparr>) = rp_core s" "rp_core (s\<lparr>rp_state := st, rp_since := t\<rparr>) = rp_core s"
  "rp_core (s\<lparr>rp_prev_pl1 := p\<rparr>) = rp_core s" "rp_core (s\<lparr>rp_peaks := ps\<rparr>) = rp_core s"
  "rp_core (s\<lparr>sb_config := cfg\<rparr>) = rp_core s" "rp_core (s\<lparr>sb_last_change := lc\<rparr>) = rp_core s" "rp_core (s\<lparr>rp_gpu_result := g\<rparr>) = rp_core s"
  by (simp_all add: rp_core_def)

lemma play_parts_core [simp]:
  "rp_core (play_marks k s) = rp_core s" "rp_core (play_state st ts s) = rp_core s" "rp_core (play_limits p q s) = rp_core s"
  by (simp_all add: play_marks_def play_state_def play_limits_def Let_def split: option.split)

lemma play_parts_config [simp]:
  "sb_config (play_marks k s) = sb_config s" "sb_config (play_state st ts s) = sb_config s" "sb_config (play_limits p q s) = sb_config s"
  by (simp_all add: play_marks_def play_state_def play_limits_def Let_def split: option.split)

definition count_of :: "replay \<Rightarrow> string \<Rightarrow> int" where
  "count_of s k = (case dget (rp_counters s) k of Some n \<Rightarrow> n | None \<Rightarrow> 0)"

definition counts_ok :: "replay \<Rightarrow> bool" where
  "counts_ok s = (count_of s ''writes'' = count_of s ''cuts'' + count_of s ''recoveries'')"

lemma bump_count: "dget (bump k c) k' = (if k' = k then Some ((case dget c k of Some n \<Rightarrow> n | None \<Rightarrow> 0) + 1) else dget c k')"
  by (simp add: bump_def)

lemma counts_ok_cong: "rp_counters s = rp_counters s' \<Longrightarrow> counts_ok s = counts_ok s'"
  by (simp add: counts_ok_def count_of_def)

lemma play_parts_counts:
  "counts_ok s \<Longrightarrow> counts_ok (play_marks k s)" "counts_ok s \<Longrightarrow> counts_ok (play_state st ts s)" "counts_ok s \<Longrightarrow> counts_ok (play_limits p q s)"
  by (auto simp: play_marks_def play_state_def play_limits_def counts_ok_def count_of_def bump_count Let_def split: option.split)

definition rp_inv :: "(rat \<Rightarrow> string) \<Rightarrow> replay \<Rightarrow> bool" where
  "rp_inv stamp s = (- 1 \<le> rp_played s \<and> counts_ok s \<and> cfg_wf (sb_config s) \<and>
     rp_history s = last_n HISTORY_LEN (map (rep_rec stamp (rp_records s) (rp_span s)) [0..rp_played s]))"

lemma play_one_inv:
  assumes "rp_inv stamp s"
  shows "rp_inv stamp (play_one stamp s) \<and> rp_played (play_one stamp s) = rp_played s + 1 \<and> rp_pos (play_one stamp s) = rp_pos s \<and>
    rp_records (play_one stamp s) = rp_records s \<and> rp_span (play_one stamp s) = rp_span s"
proof -
  define k where "k = rp_played s + 1"
  define rec where "rec = rep_rec stamp (rp_records s) (rp_span s) k"
  define s1 where "s1 = s\<lparr>rp_played := k, rp_emit_at := rec_ts rec\<rparr>"
  define s2 where "s2 = play_limits (py_get rec ''pl1_w'') (py_get rec ''pl2_w'') (play_state (py_get rec ''state'') (rec_ts rec) (play_marks k s1))"
  have p: "play_one stamp s = s2\<lparr>rp_peaks := fold (play_peak rec) PEAK_FIELDS (rp_peaks s2), rp_history := last_n HISTORY_LEN (rp_history s2 @ [rec])\<rparr>"
    by (simp add: play_one_def s2_def s1_def rec_def k_def Let_def)
  have "counts_ok s1" using assms by (simp add: rp_inv_def s1_def counts_ok_def count_of_def)
  then have "counts_ok s2" unfolding s2_def by (intro play_parts_counts)
  moreover have c: "rp_core s2 = rp_core s1" "sb_config s2 = sb_config s" by (simp_all add: s2_def s1_def)
  then have "rp_played s2 = k" "rp_records s2 = rp_records s" "rp_span s2 = rp_span s" "rp_history s2 = rp_history s" "rp_pos s2 = rp_pos s"
    by (simp_all add: rp_core_def s1_def)
  moreover have "- 1 \<le> k" using assms by (simp add: rp_inv_def k_def)
  moreover have "[0..k] = [0..rp_played s] @ [k]" using assms upto_rec2 [of 0 k] by (simp add: rp_inv_def k_def)
  ultimately show ?thesis using assms c(2) unfolding p
    by (simp add: rp_inv_def counts_ok_def count_of_def last_n_snoc rec_def [symmetric] k_def [symmetric])
qed

lemma play_n_inv:
  "rp_inv stamp s \<Longrightarrow> rp_inv stamp (play_n stamp n s) \<and> rp_played (play_n stamp n s) = rp_played s + int n \<and>
    rp_pos (play_n stamp n s) = rp_pos s \<and> rp_records (play_n stamp n s) = rp_records s \<and> rp_span (play_n stamp n s) = rp_span s"
  by (induction n arbitrary: s) (use play_one_inv in auto)

lemma play_to_inv:
  assumes "rp_inv stamp s"
  shows "rp_inv stamp (play_to stamp k s) \<and> rp_played (play_to stamp k s) = max (rp_played s) k \<and>
    rp_pos (play_to stamp k s) = rp_pos s \<and> rp_records (play_to stamp k s) = rp_records s \<and> rp_span (play_to stamp k s) = rp_span s"
  using play_n_inv [OF assms, of "nat (k - rp_played s)"] by (simp add: play_to_def)

text \<open>\<open>play_to\<close> is the loop of the code.\<close>

lemma play_one_played [simp]: "rp_played (play_one stamp s) = rp_played s + 1"
proof -
  have "rp_core (play_limits p q (play_state st ts (play_marks k s1))) = rp_core s1" for p q st ts k s1 by simp
  then have "rp_played (play_limits p q (play_state st ts (play_marks k s1))) = rp_played s1" for p q st ts k s1 by (simp add: rp_core_def)
  then show ?thesis by (simp add: play_one_def Let_def)
qed

lemma play_to_loop: "play_to stamp k s = (if rp_played s < k then play_to stamp k (play_one stamp s) else s)"
proof (cases "rp_played s < k")
  case True
  then have "nat (k - rp_played s) = Suc (nat (k - (rp_played s + 1)))" by simp
  then show ?thesis using True by (simp add: play_to_def)
qed (simp add: play_to_def)

lemma play_n_add: "play_n stamp (m + n) s = play_n stamp n (play_n stamp m s)"
  by (induction m arbitrary: s) simp_all

lemma play_n_played: "rp_played (play_n stamp n s) = rp_played s + int n"
  by (induction n arbitrary: s) simp_all

lemma play_to_compose: "k \<le> l \<Longrightarrow> play_to stamp l (play_to stamp k s) = play_to stamp l s"
proof -
  assume "k \<le> l"
  then have "nat (k - rp_played s) + nat (l - (rp_played s + int (nat (k - rp_played s)))) = nat (l - rp_played s)" by (cases "rp_played s \<le> k") simp_all
  then show ?thesis by (simp add: play_to_def play_n_played flip: play_n_add)
qed

text \<open>What may happen to a replay.\<close>

datatype replay_op = RAdvance rat | RConfigSet row | RConfigReset | RGpuSet pyval

definition replay_step :: "(rat \<Rightarrow> string) \<Rightarrow> (row \<Rightarrow> string) \<Rightarrow> replay \<Rightarrow> replay_op \<Rightarrow> replay" where
  "replay_step stamp digest s op =
    (case op of
       RAdvance t \<Rightarrow> replay_advance stamp t s
     | RConfigSet updates \<Rightarrow> snd (replay_config_set digest updates s)
     | RConfigReset \<Rightarrow> snd (sim_config_reset (replay_class digest) rp_emit_at (\<lambda>_ s. s) replay_gpu_set s)
     | RGpuSet mode \<Rightarrow> snd (replay_gpu_set mode s))"

lemma replay_gpu_set_core: "rp_core (snd (replay_gpu_set v s)) = rp_core s \<and> rp_counters (snd (replay_gpu_set v s)) = rp_counters s"
  by (simp add: replay_gpu_set_def Let_def split: sum.split del: apply_updates.simps)

lemma sim_store_core: "rp_core (snd (sim_store cl rp_emit_at (\<lambda>_ s. s) updates s)) = rp_core s \<and>
    rp_counters (snd (sim_store cl rp_emit_at (\<lambda>_ s. s) updates s)) = rp_counters s"
  by (simp add: sim_store_def Let_def split: sum.split prod.split)

lemma sim_config_set_core:
  "rp_core (snd (sim_config_set cl rp_emit_at (\<lambda>_ s. s) replay_gpu_set updates s)) = rp_core s \<and>
   rp_counters (snd (sim_config_set cl rp_emit_at (\<lambda>_ s. s) replay_gpu_set updates s)) = rp_counters s"
proof -
  obtain r s1 where st: "sim_store cl rp_emit_at (\<lambda>_ s. s) (dpop ''gpu.mode'' updates) s = (r, s1)" by (metis surj_pair)
  then have c: "rp_core s1 = rp_core s" "rp_counters s1 = rp_counters s"
    using sim_store_core [of cl "dpop ''gpu.mode'' updates" s] by simp_all
  obtain g s2 where gs: "replay_gpu_set (py_get updates ''gpu.mode'') s1 = (g, s2)" by (metis surj_pair)
  then have c2: "rp_core s2 = rp_core s1" "rp_counters s2 = rp_counters s1"
    using replay_gpu_set_core [of "py_get updates ''gpu.mode''" s1] by simp_all
  have "snd (sim_config_set cl rp_emit_at (\<lambda>_ s. s) replay_gpu_set updates s) \<in> {s1, s2}"
    by (simp add: sim_config_set_def st gs Let_def split: sum.split py_exn.split)
  then show ?thesis using c c2 by auto
qed

definition rp_full :: "(rat \<Rightarrow> string) \<Rightarrow> row list \<Rightarrow> rat \<Rightarrow> replay \<Rightarrow> bool" where
  "rp_full stamp rs sp s = (rp_inv stamp s \<and> rp_records s = rs \<and> rp_span s = sp \<and> trunc_rat (rp_pos s) \<le> rp_played s)"

lemma rp_full_cong:
  assumes "rp_full stamp rs sp s" "rp_core s' = rp_core s" "rp_counters s' = rp_counters s" "cfg_wf (sb_config s')"
  shows "rp_full stamp rs sp s'"
  using assms by (simp add: rp_full_def rp_inv_def rp_core_def counts_ok_def count_of_def)

lemma replay_step_full:
  assumes "rp_full stamp rs sp s"
  shows "rp_full stamp rs sp (replay_step stamp digest s op)"
proof -
  have wf: "cfg_wf (sb_config s)" using assms by (simp add: rp_full_def rp_inv_def)
  have set_wf: "cfg_wf (sb_config (snd (sim_config_set cl rp_emit_at (\<lambda>_ s. s) replay_gpu_set updates s)))" for cl updates
    using rp.config_set_wf [OF wf] by (metis surjective_pairing)
  have cfg: "rp_full stamp rs sp (snd (sim_config_set cl rp_emit_at (\<lambda>_ s. s) replay_gpu_set updates s))" for cl updates
    using rp_full_cong [OF assms _ _ set_wf] sim_config_set_core by blast
  show ?thesis
  proof (cases op)
    case (RAdvance t)
    let ?s = "s\<lparr>rp_pos := fadd (rp_pos s) (fmul t (rp_speed s))\<rparr>"
    have "rp_inv stamp ?s" using assms by (simp add: rp_full_def rp_inv_def counts_ok_def count_of_def)
    from play_to_inv [OF this, of "trunc_rat (rp_pos ?s)"] assms show ?thesis
      by (simp add: RAdvance replay_step_def replay_advance_def rp_full_def Let_def)
  next
    case (RGpuSet mode)
    have "cfg_wf (sb_config (snd (replay_gpu_set mode s)))" using rp.gpu_set_wf [OF wf] by (metis surjective_pairing)
    from rp_full_cong [OF assms _ _ this] replay_gpu_set_core show ?thesis by (simp add: RGpuSet replay_step_def)
  qed (simp_all add: replay_step_def replay_config_set_def sim_config_reset_def cfg)
qed

interpretation replay_run: step_machine "replay_step stamp digest" "rp_full stamp rs sp" "\<lambda>_. True"
  by unfold_locales (rule replay_step_full)

lemma replay_init_full:
  assumes "replay_init loads stamp path lines speed = Inr s" "cfg_wf (sb_config s)"
  shows "rp_full stamp (rp_records s) (rp_span s) s \<and> rp_played s = 0"
proof -
  obtain s0 where s0: "s = play_to stamp 0 s0" "rp_played s0 = -1" "rp_history s0 = []" "rp_counters s0 = zero_play_counters" "rp_pos s0 = 0"
    using assms(1) by (auto simp: replay_init_def res_bind_Inr Let_def)
  have cfg: "sb_config (play_one stamp s1) = sb_config s1" for s1 by (simp add: play_one_def Let_def)
  have "s = play_one stamp s0" using s0(1,2) by (simp add: play_to_def)
  then have "rp_inv stamp s0" using s0 assms(2) cfg
    by (simp add: rp_inv_def counts_ok_def count_of_def zero_play_counters_def last_n_def)
  from play_to_inv [OF this, of 0] s0 show ?thesis by (simp add: rp_full_def trunc_rat_def)
qed

text \<open>
  Over every sequence of advances, configuration and GPU requests, a replay shows exactly the log: its
  history is the last 600 of the records played, in order and with their loop's time stamps; it is never
  behind its clock; writes are cuts plus recoveries; its configuration stays well formed; and how the
  time is cut into advances does not matter, playing to \<open>k\<close> and then to \<open>l\<close> is playing to \<open>l\<close>.
\<close>

theorem replay_run_exact:
  assumes "replay_init loads stamp path lines speed = Inr s0" "cfg_wf (sb_config s0)" "run_steps (replay_step stamp digest) s0 ops = s"
  shows "rp_history s = last_n HISTORY_LEN (map (rep_rec stamp (rp_records s0) (rp_span s0)) [0..rp_played s]) \<and>
    trunc_rat (rp_pos s) \<le> rp_played s \<and> count_of s ''writes'' = count_of s ''cuts'' + count_of s ''recoveries'' \<and>
    cfg_wf (sb_config s) \<and> play_to stamp (k + int n) (play_to stamp k s) = play_to stamp (k + int n) s"
proof -
  have "rp_full stamp (rp_records s0) (rp_span s0) (run_steps (replay_step stamp digest) s0 ops)"
    using replay_run.run_keeps [of stamp "rp_records s0" "rp_span s0" s0 ops digest] replay_init_full [OF assms(1,2)] by (simp add: list_all_iff)
  then show ?thesis using assms(3) play_to_compose [of k "k + int n"] by (simp add: rp_full_def rp_inv_def counts_ok_def)
qed


definition status_keys :: "string list" where
  "status_keys = [''ts'', ''host'', ''version'', ''boot_id'', ''daemon_uptime_s'', ''self'', ''latest'', ''derived'', ''thresholds'', ''governor'',
     ''limits'', ''msr'', ''smc'', ''smc_temps'', ''fans'', ''gpu'', ''fan'', ''cpu'', ''peaks'', ''smc_ok'', ''config_digest'', ''incident_check'']"

definition governor_keys :: "string set" where
  "governor_keys = {''mode'', ''state'', ''since'', ''pl1_w'', ''pl2_w'', ''fallback_reason'', ''retry_at'', ''backoff_s'', ''last_action'', ''thermal_cap_w'',
     ''counters'', ''time_in_state'', ''in_state_s'', ''ceiling_w'', ''static_cap_w'', ''floor_w'', ''last_write''}"

definition derived_keys :: "string list" where
  "derived_keys = [''input_mean_1s'', ''input_max_1s'', ''pkg_median_1s'', ''acpw_median_10s'', ''noncpu_est_w'', ''headroom_w'', ''pred_input_at_ceiling_w'']"

definition fan_keys :: "string list" where
  "fan_keys = [''mode'', ''target_rpm'', ''reason'', ''fans'', ''last_change_ts'', ''write_errors'']"

lemma map_fan_keys:
  assumes "map_fan rec = Inr fan"
  shows "map fst fan = fan_keys"
proof -
  obtain fans where f: "fans_of (py_get rec ''fans'') = Inr fans" using assms unfolding map_fan_def res_bind_Inr by blast
  note m = assms [unfolded map_fan_def f res_bind_simps]
  show ?thesis
  proof (cases "py_get rec ''fan''")
    case (PDict d)
    then show ?thesis using m unfolding PDict pyval.case res_bind_Inr sum.inject fan_keys_def
      by (elim exE conjE) (hypsubst, simp only: list.map fst_conv)
  qed (use m in \<open>simp_all only: pyval.case sum.inject fan_keys_def\<close>, (hypsubst, simp only: list.map fst_conv)+)
qed

lemma record_view_shape:
  "map fst (record_view digest version s rec g gpu th fan) = status_keys \<and>
   (\<exists>d. py_get (record_view digest version s rec g gpu th fan) ''derived'' = PDict d \<and> map fst d = derived_keys)"
proof
  show "map fst (record_view digest version s rec g gpu th fan) = status_keys"
    unfolding record_view_def status_keys_def Let_def by (simp only: list.map fst_conv)
  show "\<exists>d. py_get (record_view digest version s rec g gpu th fan) ''derived'' = PDict d \<and> map fst d = derived_keys"
    unfolding record_view_def Let_def derived_keys_def by (simp add: py_get_def)
qed

lemma build_status_shape:
  assumes "build_status env now der d = Inr st"
  shows "\<exists>dg dd df. py_get st ''governor'' = PDict dg \<and> set (map fst dg) = governor_keys \<and> py_get st ''derived'' = PDict dd \<and>
    map fst dd = derived_keys \<and> py_get st ''fan'' = PDict df \<and> map fst df = fan_keys \<and> map fst st = status_keys"
proof -
  obtain g gm gc fc where c: "gov_cfg_of (dm_config d) = Inr g" "gpu_section (dm_config d) = Inr (gm, gc)" "fan_cfg_of (dm_config d) = Inr fc"
    using assms unfolding build_status_def by (auto simp: res_bind_Inr)
  note st = assms [unfolded build_status_def c res_bind_simps prod.case Let_def sum.inject, symmetric]
  have fan: "map fst (case dm_fan d of Some c \<Rightarrow> fan_status c
      | None \<Rightarrow> [(''mode'', PStr (fc_mode fc)), (''target_rpm'', PInt 0), (''reason'', PStr ''fan controller unavailable''), (''fans'', PList []),
          (''last_change_ts'', PNone), (''write_errors'', PInt 0)]) = fan_keys"
    by (simp add: fan_status_def fan_keys_def split: option.split)
  have k: "map fst st = status_keys" unfolding st status_keys_def by simp
  have "\<exists>dg. py_get st ''governor'' = PDict dg \<and> set (map fst dg) = governor_keys"
    unfolding st by (simp add: py_get_def gov_summary_def governor_keys_def)
  moreover have "\<exists>dd. py_get st ''derived'' = PDict dd \<and> map fst dd = derived_keys"
    unfolding st by (simp add: py_get_def derived_val_def derived_keys_def)
  moreover have "\<exists>df. py_get st ''fan'' = PDict df \<and> map fst df = fan_keys" unfolding st using fan by (simp add: py_get_def)
  ultimately show ?thesis using k by blast
qed

text \<open>
  The status of a replayed record has the shape of the daemon's status: the same keys in the same
  order, and the same keys in its governor, derived and fan parts.
\<close>

theorem replay_status_shape:
  assumes "map_record digest version s rec = Inr st" "build_status env now der d = Inr st'"
  shows "map fst st = map fst st' \<and>
    (\<exists>g g'. py_get st ''governor'' = PDict g \<and> py_get st' ''governor'' = PDict g' \<and> set (map fst g) = set (map fst g')) \<and>
    (\<exists>g g'. py_get st ''derived'' = PDict g \<and> py_get st' ''derived'' = PDict g' \<and> map fst g = map fst g') \<and>
    (\<exists>g g'. py_get st ''fan'' = PDict g \<and> py_get st' ''fan'' = PDict g' \<and> map fst g = map fst g')"
proof -
  obtain fan g gpu th where f: "map_fan rec = Inr fan" and st: "st = record_view digest version s rec g gpu th fan"
    using assms(1) by (auto simp: map_record_def res_bind_Inr)
  have g: "py_get st ''governor'' = PDict (map_governor s rec)" "py_get st ''fan'' = PDict fan"
    unfolding st by (simp_all add: record_view_def py_get_def Let_def)
  have gk: "set (map fst (map_governor s rec)) = governor_keys" by (auto simp: map_governor_def governor_keys_def Let_def)
  obtain dg dd df where d: "py_get st' ''governor'' = PDict dg" "set (map fst dg) = governor_keys" "py_get st' ''derived'' = PDict dd"
      "map fst dd = derived_keys" "py_get st' ''fan'' = PDict df" "map fst df = fan_keys" "map fst st' = status_keys"
    using build_status_shape [OF assms(2)] by blast
  show ?thesis using d g gk map_fan_keys [OF f] record_view_shape [of digest version s rec g gpu th fan] unfolding st by metis
qed

section \<open>Examples\<close>

abbreviation demo_row :: "rat \<Rightarrow> row" where
  "demo_row t \<equiv> [(''ts'', pnum t), (''state'', PStr ''STATIC''), (''pl1_w'', pnum 35)]"

definition demo_loads :: json_loads where
  "demo_loads l = (if l = ''h'' then Some (PDict [(''kind'', PStr ''header''), (''boot_id'', PStr ''b'')])
     else if l = ''a'' then Some (PDict (demo_row 0)) else if l = ''b'' then Some (PDict (demo_row 1)) else None)"

lemma demo_records: "load_records demo_loads ''p'' (Inr [''h'', ''torn'', ''a'', ''b'']) =
    Inr ([(''kind'', PStr ''header''), (''boot_id'', PStr ''b'')], [demo_row 0, demo_row 1])"
  by (simp add: load_records_def load_line_def demo_loads_def py_get_def)

lemma demo_replay_cfg: "replay_cfg (demo_row t) = Inr DEFAULTS"
proof -
  have "apply_updates DEFAULTS [(''governor.mode'', PStr ''static''), (''gpu.mode'', PStr ''auto'')] = Inr DEFAULTS" by code_simp
  then show ?thesis by (simp add: replay_cfg_def mode_for_def dict_or_def py_get_def defaults_def del: apply_updates.simps)
qed

theorem replay_run_exact_witness:
  "\<exists>s0 s. replay_init demo_loads (\<lambda>_. []) ''p'' (Inr [''h'', ''torn'', ''a'', ''b'']) 1 = Inr s0 \<and>
     run_steps (replay_step (\<lambda>_. []) (\<lambda>_. [])) s0 [RAdvance 2, RGpuSet (PStr ''low'')] = s \<and> cfg_wf (sb_config s) \<and>
     rp_history s = last_n HISTORY_LEN (map (rep_rec (\<lambda>_. []) (rp_records s0) (rp_span s0)) [0..rp_played s])"
proof -
  have cfg: "sb_config (play_n st n x) = sb_config x" for st n x
    by (induction n arbitrary: x) (simp_all add: play_one_def Let_def)
  have ne: "DEFAULTS \<noteq> []" by (simp add: DEFAULTS_def)
  have "\<exists>s0. replay_init demo_loads (\<lambda>_. []) ''p'' (Inr [''h'', ''torn'', ''a'', ''b'']) 1 = Inr s0 \<and> sb_config s0 = DEFAULTS"
    unfolding replay_init_def demo_records res_bind_simps prod.case list.sel demo_replay_cfg Let_def by (simp add: play_to_def cfg ne del: play_n.simps)
  then obtain s0 where s0: "replay_init demo_loads (\<lambda>_. []) ''p'' (Inr [''h'', ''torn'', ''a'', ''b'']) 1 = Inr s0" "sb_config s0 = DEFAULTS" by blast
  from replay_run_exact [OF s0(1) _ refl] s0 DEFAULTS_wf show ?thesis by metis
qed

definition demo_replay :: replay where
  "demo_replay = projr (replay_init demo_loads (\<lambda>_. []) ''p'' (Inr [''a'']) 1)\<lparr>sb_config := DEFAULTS\<rparr>"


theorem replay_status_shape_witness:
  "\<exists>st st'. map_record (\<lambda>_. []) ''1'' demo_replay (demo_row 0) = Inr st \<and>
     build_status demo_denv 0 None (demo_blank\<lparr>dm_config := DEFAULTS\<rparr>) = Inr st' \<and> map fst st = map fst st'"
proof -
  obtain g where g: "gov_cfg_of DEFAULTS = Inr g" using gov_cfg_of_wf [OF DEFAULTS_wf] by blast
  obtain m c where m: "gpu_section DEFAULTS = Inr (m, c)" using gpu_section_wf [OF DEFAULTS_wf] by blast
  obtain fc where fc: "fan_cfg_of DEFAULTS = Inr fc"
    by (simp add: fan_cfg_of_def DEFAULTS_def cfg_section_def sect_str_def sect_num_def sect_int_def sect_val_def)
  obtain st' where st': "build_status demo_denv 0 None (demo_blank\<lparr>dm_config := DEFAULTS\<rparr>) = Inr st'"
    by (simp add: build_status_def g m fc Let_def)
  obtain st where st: "map_record (\<lambda>_. []) ''1'' demo_replay (demo_row 0) = Inr st"
    by (simp add: map_record_def dict_copy_def map_thresholds_def map_fan_def fans_of_def demo_replay_def py_get_def g)
  from replay_status_shape [OF st st'] st st' show ?thesis by blast
qed

end
