(* ===== verification/Mock.thy ===== *)
theory Mock
  imports Backend
begin

text \<open>
  \<open>tui/mock.py\<close>: a simulated machine behind the terminal UI. The machine's physics is new; everything else
  is the daemon's own code run on it: the sampler, the governor, the clamp of the limits, the
  configuration's validation, the fan controller on simulated fan files, and \<open>Daemon.build_status\<close>.
  Random numbers come from a generator with an abstract state \<open>'r\<close>; the exponential is an argument.
  The canned incident texts, the fake key list and the delay of a GPU change are left out.
\<close>

section \<open>The machine\<close>

definition DT :: rat where "DT = 1 / 4"
definition ACPW_MW :: int where "ACPW_MW = 79496"
definition BURST_PERIOD_S :: rat where "BURST_PERIOD_S = 120"
definition BURST_START_S :: rat where "BURST_START_S = 30"
definition BURST_LEN_S :: rat where "BURST_LEN_S = 45"

definition FANS :: "(string \<times> int \<times> int) list" where
  "FANS = [(''Left side'', 2160, 5927), (''Right side'', 2000, 5489)]"

text \<open>Label, idle value, whether it follows the package (or the GPU), gain; decimal literals.\<close>

definition SMC_TEMPS :: "(string \<times> rat \<times> bool \<times> rat) list" where
  "SMC_TEMPS = map (\<lambda>(l, b, c, g). (l, fl b, c, fl g))
    [(''TA0V'', 31, True, 5/100), (''TC0E'', 63, True, 1), (''TC0F'', 668/10, True, 105/100), (''TC0P'', 535/10, True, 5/10), (''TC1C'', 57, True, 1),
     (''TC2C'', 57, True, 1), (''TC3C'', 57, True, 95/100), (''TC4C'', 58, True, 1), (''TCGC'', 57, True, 9/10), (''TCSA'', 57, True, 9/10),
     (''TCTD'', - 2/10, True, 0), (''TCXC'', 58, True, 11/10), (''TG0D'', 562/10, False, 1), (''TG0F'', 562/10, False, 1), (''TG0P'', 52, False, 9/10),
     (''TGDD'', 52, False, 1), (''TGVP'', 50, False, 8/10), (''TH0A'', 44, True, 3/10), (''TH0B'', 415/10, True, 3/10), (''TH0C'', 438/10, True, 3/10),
     (''TH0F'', - 332/10, True, 0), (''TH0R'', - 332/10, True, 0), (''TH0a'', 44, True, 3/10), (''TH0b'', 415/10, True, 3/10), (''TH0c'', 438/10, True, 3/10),
     (''TM0P'', 508/10, True, 2/10), (''TPCD'', 43, True, 2/10), (''TTLD'', 472/10, True, 25/100), (''TTRD'', 51, True, 25/100), (''TW0P'', 575/10, True, 2/10),
     (''TaLC'', 358/10, True, 2/10), (''TaRC'', 458/10, True, 2/10), (''Th1H'', 502/10, True, 35/100), (''Th2H'', 512/10, True, 35/100), (''Ts0P'', 322/10, True, 15/100),
     (''Ts0S'', 418/10, True, 15/100), (''Ts1P'', 308/10, True, 15/100), (''Ts1S'', 412/10, True, 15/100), (''Ts2S'', 40, True, 15/100)]"

definition IDLE_PROCS :: "(string \<times> rat) list" where
  "IDLE_PROCS = [(''python3'', 8), (''uvicorn'', 2), (''mongod'', 2), (''redis-server'', 3 / 2), (''hermes'', 1), (''postgres'', 1),
     (''dockerd'', fl (6/10)), (''systemd-journal'', fl (3/10))]"

definition FIRMWARE :: "pyval dict" where
  "FIRMWARE = [(''pl1_w'', pnum 100), (''pl2_w'', pnum 125), (''pl1_uw'', PInt 100000000), (''pl2_uw'', PInt 125000000),
     (''pl1_window_us'', PInt 27983872), (''pl2_window_us'', PInt 2440), (''enabled'', PInt 1), (''captured_at'', PStr ''2026-10-10T00:05:12Z'')]"

record 'r rng =
  rg_gauss :: "rat \<Rightarrow> rat \<Rightarrow> 'r \<Rightarrow> rat \<times> 'r"
  rg_uniform :: "rat \<Rightarrow> rat \<Rightarrow> 'r \<Rightarrow> rat \<times> 'r"
  rg_choice :: "int list \<Rightarrow> 'r \<Rightarrow> int \<times> 'r"
  rg_exp :: "rat \<Rightarrow> rat"

record 'r msim =
  ms_rng :: 'r
  ms_t :: rat
  ms_pl1 :: rat
  ms_pl2 :: rat
  ms_pkg :: rat
  ms_input :: rat
  ms_pdtr :: rat
  ms_gpu_w :: rat
  ms_pkg_c :: rat
  ms_gpu_c :: rat
  ms_fan :: "rat list"
  ms_fan_min :: "int list"
  ms_gpu_mode :: string
  ms_gpu_cap :: rat
  ms_load :: rat
  ms_mhz :: "int list"
  ms_busy :: "rat list"
  ms_top :: "pyval dict list"

definition msim_init :: "'r \<Rightarrow> 'r msim" where
  "msim_init r = \<lparr>ms_rng = r, ms_t = 0, ms_pl1 = 35, ms_pl2 = 35, ms_pkg = 6, ms_input = fl (213/10), ms_pdtr = fl (213/10), ms_gpu_w = fl (702/100),
     ms_pkg_c = 60, ms_gpu_c = 52, ms_fan = map (\<lambda>(_, lo, _). of_int lo) FANS, ms_fan_min = map (\<lambda>(_, lo, _). lo) FANS, ms_gpu_mode = ''auto'',
     ms_gpu_cap = 15, ms_load = fl (45/100), ms_mhz = replicate 8 800, ms_busy = replicate 8 1, ms_top = []\<rparr>"

definition lag :: "'r rng \<Rightarrow> rat \<Rightarrow> rat \<Rightarrow> rat \<Rightarrow> rat \<Rightarrow> rat" where
  "lag g cur target tau dt = fadd target (fmul (fsub cur target) (rg_exp g (fdiv (- dt) tau)))"

definition burst :: "'r msim \<Rightarrow> bool \<times> bool" where
  "burst s = (let n = \<lfloor>ms_t s / BURST_PERIOD_S\<rfloor>; phase = ms_t s - of_int n * BURST_PERIOD_S
     in (BURST_START_S \<le> phase \<and> phase < fadd BURST_START_S BURST_LEN_S, n mod 2 = 1))"

definition fan_frac :: "'r msim \<Rightarrow> rat" where
  "fan_frac s = fdiv (py_sum (map (\<lambda>(rpm, _, lo, hi). fdiv (fsub rpm (of_int lo)) (of_int (hi - lo))) (zip (ms_fan s) FANS))) (of_nat (length FANS))"

definition gauss :: "'r rng \<Rightarrow> rat \<Rightarrow> rat \<Rightarrow> 'r msim \<Rightarrow> rat \<times> 'r msim" where
  "gauss g mu sigma s = (case rg_gauss g mu (fl sigma) (ms_rng s) of (x, r) \<Rightarrow> (x, s\<lparr>ms_rng := r\<rparr>))"

definition uniform :: "'r rng \<Rightarrow> rat \<Rightarrow> rat \<Rightarrow> 'r msim \<Rightarrow> rat \<times> 'r msim" where
  "uniform g lo hi s = (case rg_uniform g (fl lo) (fl hi) (ms_rng s) of (x, r) \<Rightarrow> (x, s\<lparr>ms_rng := r\<rparr>))"

text \<open>The parts of \<open>step\<close> in order. \<open>cpu\<close> is the section of the configuration; its numbers are numbers.\<close>

definition sim_demand :: "'r rng \<Rightarrow> pyval dict \<Rightarrow> bool \<Rightarrow> 'r msim \<Rightarrow> rat \<times> 'r msim" where
  "sim_demand g cpu active s =
    (let (d, s) = (if active then (44, s) else case gauss g 0 (8/10) s of (x, s) \<Rightarrow> (fadd 6 \<bar>x\<bar>, s));
         d = (if truthy (py_get cpu ''no_turbo'') then fmul d (fl (65/100)) else d);
         d = (case num_of (py_get cpu ''max_perf_pct'') of Some p \<Rightarrow> fmul d (max (fl (3/10)) (fdiv p 100)) | None \<Rightarrow> d)
     in (d, s))"

definition sim_pkg :: "'r rng \<Rightarrow> rat \<Rightarrow> rat \<Rightarrow> 'r msim \<Rightarrow> 'r msim" where
  "sim_pkg g dt demand s =
    (case gauss g 0 (15/100) s of (x, s) \<Rightarrow>
       s\<lparr>ms_pkg := min (ms_pl2 s) (max (1/2) (fadd (lag g (ms_pkg s) (min demand (ms_pl1 s)) (fl (4/10)) dt) x))\<rparr>)"

definition gpu_target :: "bool \<Rightarrow> bool \<Rightarrow> 'r msim \<Rightarrow> rat" where
  "gpu_target active gpu_load s =
    (if ms_gpu_mode s = ''off'' then 0
     else if active \<and> gpu_load then fsub (min (if ms_gpu_mode s = ''auto'' then ms_gpu_cap s else 10) (fl (146/10))) (fl (3/10))
     else if ms_gpu_mode s = ''auto'' then fl (702/100) else fl (69/10))"

definition sim_gpu :: "'r rng \<Rightarrow> rat \<Rightarrow> bool \<Rightarrow> bool \<Rightarrow> 'r msim \<Rightarrow> 'r msim" where
  "sim_gpu g dt active gpu_load s =
    (let tgt = gpu_target active gpu_load s;
         (x, s) = (if tgt \<noteq> 0 then gauss g 0 (5/100) s else (0, s))
     in s\<lparr>ms_gpu_w := max 0 (fadd (lag g (ms_gpu_w s) tgt (3/2) dt) x)\<rparr>)"

definition sim_input :: "'r rng \<Rightarrow> rat \<Rightarrow> 'r msim \<Rightarrow> 'r msim" where
  "sim_input g dt s =
    (let tgt = fadd (fadd (fadd 14 (fmul (fl (121/100)) (ms_pkg s))) (fsub (ms_gpu_w s) (fl (702/100)))) (fmul 2 (fan_frac s));
         s = s\<lparr>ms_input := lag g (ms_input s) tgt (fl (8/10)) dt\<rparr>
     in case gauss g 0 (35/100) s of (x, s) \<Rightarrow> s\<lparr>ms_pdtr := max 0 (fadd (ms_input s) x)\<rparr>)"

definition sim_temps :: "'r rng \<Rightarrow> rat \<Rightarrow> 'r msim \<Rightarrow> 'r msim" where
  "sim_temps g dt s =
    (let s = s\<lparr>ms_pkg_c := lag g (ms_pkg_c s) (fsub (fadd 50 (fmul 1 (ms_pkg s))) (fmul 6 (fan_frac s))) 20 dt\<rparr>
     in s\<lparr>ms_gpu_c := if ms_gpu_mode s \<noteq> ''off'' then lag g (ms_gpu_c s) (fadd 45 (fmul 1 (ms_gpu_w s))) 15 dt else ms_gpu_c s\<rparr>)"

text \<open>One fan moves towards the SMC curve or its floor, at most 120 rpm a second.\<close>

definition fan_move :: "rat \<Rightarrow> rat \<Rightarrow> (rat \<times> int) \<times> (string \<times> int \<times> int) \<Rightarrow> rat" where
  "fan_move dt fr x =
    (case x of ((rpm, fmin), (_, lo, hi)) \<Rightarrow>
       let want = max (fadd (of_int lo) (fmul fr (of_int (hi - lo)))) (of_int fmin)
       in fadd rpm (max (fmul (- 120) dt) (min (fmul 120 dt) (fsub want rpm))))"

definition sim_fans :: "rat \<Rightarrow> 'r msim \<Rightarrow> 'r msim" where
  "sim_fans dt s =
    (let fr = min 1 (max 0 (fdiv (fsub (ms_pkg_c s) 74) 18))
     in s\<lparr>ms_fan := map (fan_move dt fr) (zip (zip (ms_fan s) (ms_fan_min s)) FANS)\<rparr>)"

definition sim_step :: "'r rng \<Rightarrow> rat \<Rightarrow> pyval dict \<Rightarrow> 'r msim \<Rightarrow> 'r msim" where
  "sim_step g dt cpu s =
    (let s = s\<lparr>ms_t := fadd (ms_t s) dt\<rparr>;
         (active, gpu_load) = burst s;
         (demand, s) = sim_demand g cpu active s;
         s = sim_fans dt (sim_temps g dt (sim_input g dt (sim_gpu g dt active gpu_load (sim_pkg g dt demand s))))
     in s\<lparr>ms_load := lag g (ms_load s) (if active then 8 else fl (4/10)) 60 dt\<rparr>)"

primrec draws :: "('s \<Rightarrow> 'a \<times> 's) \<Rightarrow> nat \<Rightarrow> 's \<Rightarrow> 'a list \<times> 's" where
  "draws f 0 s = ([], s)"
| "draws f (Suc n) s = (case f s of (x, s) \<Rightarrow> (case draws f n s of (xs, s) \<Rightarrow> (x # xs, s)))"

definition draw_mhz :: "'r rng \<Rightarrow> bool \<Rightarrow> 'r msim \<Rightarrow> int \<times> 'r msim" where
  "draw_mhz g active s =
    (if active then (case uniform g (- 40) 40 s of (x, s) \<Rightarrow> (trunc_rat (fadd (fadd 1700 (fmul 33 (ms_pkg s))) x), s))
     else (case rg_choice g [800, 800, 1200, 2100, 2900, 3600] (ms_rng s) of (x, r) \<Rightarrow> (x, s\<lparr>ms_rng := r\<rparr>)))"

definition draw_busy :: "'r rng \<Rightarrow> bool \<Rightarrow> 'r msim \<Rightarrow> rat \<times> 'r msim" where
  "draw_busy g active s = (case (if active then uniform g (965/10) 100 s else uniform g (1/2) 8 s) of (x, s) \<Rightarrow> (py_round 1 x, s))"

definition procs_of :: "'r rng \<Rightarrow> bool \<Rightarrow> 'r msim \<Rightarrow> (string \<times> rat) list \<times> 'r msim" where
  "procs_of g active s =
    (if active then (case uniform g 0 15 s of (x, s) \<Rightarrow> ((''whisper-cli'', fadd 780 x) # take 7 IDLE_PROCS, s)) else (IDLE_PROCS, s))"

fun top_rows :: "'r rng \<Rightarrow> int \<Rightarrow> (string \<times> rat) list \<Rightarrow> 'r msim \<Rightarrow> (rat \<times> pyval dict) list \<times> 'r msim" where
  "top_rows g i [] s = ([], s)"
| "top_rows g i ((n, v) # ps) s =
    (case uniform g (7/10) (13/10) s of (x, s) \<Rightarrow>
      let p = py_round 1 (fmul v x) in
      (case top_rows g (i + 1) ps s of (rs, s) \<Rightarrow>
        ((p, [(''pid'', PInt (1000 + 7919 * i mod 99991)), (''name'', PStr n), (''cpu_pct'', pnum p)]) # rs, s)))"

definition slow_tick :: "'r rng \<Rightarrow> 'r msim \<Rightarrow> 'r msim" where
  "slow_tick g s =
    (let active = fst (burst s);
         (mhz, s) = draws (draw_mhz g active) 8 s; s = s\<lparr>ms_mhz := mhz\<rparr>;
         (bs, s) = draws (draw_busy g active) 8 s; s = s\<lparr>ms_busy := bs\<rparr>;
         (ps, s) = procs_of g active s;
         (rows, s) = top_rows g 0 ps s
     in s\<lparr>ms_top := map snd (sort_key (\<lambda>x. - fst x) rows)\<rparr>)"

section \<open>What the daemon's code reads\<close>

definition sim_core_w :: "'r msim \<Rightarrow> rat" where
  "sim_core_w s = max 0 (fsub (fmul (ms_pkg s) (fl (88/100))) (fl (4/10)))"

definition sim_smc_vals :: "'r msim \<Rightarrow> pyval dict" where
  "sim_smc_vals s =
    (let v = fsub (fl (2032/100)) (fdiv (fmul (fl (45/1000)) (ms_input s)) 20)
     in [(''PDTR'', pnum (ms_pdtr s)), (''VD0R'', pnum v), (''ID0R'', pnum (fdiv (ms_pdtr s) v)), (''ACPW'', PInt ACPW_MW), (''PSTR'', pnum 0),
         (''PCPC'', pnum (fsub (sim_core_w s) (fl (4/10)))), (''PCPG'', pnum 0), (''PCPT'', pnum (fadd (ms_pkg s) (1/2))),
         (''PG0R'', pnum (fmul (ms_gpu_w s) (fl (74/100)))), (''PHPC'', pnum (fadd (ms_pkg s) (fl (57/10))))])"

definition sim_read_many :: "string list \<Rightarrow> 'r msim \<Rightarrow> pyval dict" where
  "sim_read_many ks s = map (\<lambda>k. (k, py_get (sim_smc_vals s) k)) ks"

definition sim_power :: "'r msim \<Rightarrow> rat option dict" where
  "sim_power s = [(''package'', Some (ms_pkg s)), (''core'', Some (sim_core_w s)), (''uncore'', Some 0),
     (''dram'', Some (fadd (fl (55/100)) (fmul (fl (12/1000)) (ms_pkg s))))]"

definition sim_read_limits :: "'r msim \<Rightarrow> sysfs_limits" where
  "sim_read_limits s = \<lparr>sl_pl1_uw = Some (round_even (fmul (ms_pl1 s) 1000000)), sl_pl2_uw = Some (round_even (fmul (ms_pl2 s) 1000000)),
     sl_pl1_w = Some (ms_pl1 s), sl_pl2_w = Some (ms_pl2 s), sl_pl1_window_us = Some 27983872, sl_pl2_window_us = Some 2440,
     sl_max_power_uw = Some 45000000, sl_enabled = Some 1\<rparr>"

text \<open>The fake register reads have only the fields the sampler takes; the others are blank here.\<close>

definition sim_therm :: "'r msim \<Rightarrow> therm_status" where
  "sim_therm s = \<lparr>th_raw = [], th_thermal_status = (97 \<le> ms_pkg_c s), th_prochot = False,
     th_power_limited = (fst (burst s) \<and> fsub (ms_pl1 s) (fl (8/10)) \<le> ms_pkg s), th_power_limit_log = False\<rparr>"

definition sim_pkg_limit :: "'r msim \<Rightarrow> msr_limit" where
  "sim_pkg_limit s = \<lparr>ml_raw = [], ml_pl1_w = ms_pl1 s, ml_pl1_enable = True, ml_pl1_clamp = True, ml_pl1_window_s = 0, ml_pl2_w = ms_pl2 s,
     ml_pl2_enable = True, ml_pl2_clamp = True, ml_pl2_window_s = 0, ml_lock = False\<rparr>"

definition sim_smc_temps :: "'r msim \<Rightarrow> pyval dict" where
  "sim_smc_temps s = map (\<lambda>(l, b, c, g). (l, pnum (py_round 1 (fadd b (fmul g (if c then fsub (ms_pkg_c s) 61 else fsub (ms_gpu_c s) 52)))))) SMC_TEMPS"

definition sim_fan_rows :: "'r msim \<Rightarrow> pyval" where
  "sim_fan_rows s = PList (map (\<lambda>((rpm, fmin), (l, lo, hi)). PDict [(''label'', PStr l), (''rpm'', PInt (trunc_rat rpm)), (''min'', PInt fmin),
     (''max'', PInt hi), (''manual'', PInt 0)]) (zip (zip (ms_fan s) (ms_fan_min s)) FANS))"

text \<open>\<open>_FanIO\<close>; the controller asks for the listed numbers only.\<close>

definition mock_fan_io :: "'r msim fan_io" where
  "mock_fan_io =
    \<lparr>io_numbers = (\<lambda>s. [1, 2]),
     io_read_int = (\<lambda>s n a. if n \<noteq> 1 \<and> n \<noteq> 2 then None
        else if a = ''input'' then Some (trunc_rat (ms_fan s ! nat (n - 1)))
        else if a = ''min'' then Some (ms_fan_min s ! nat (n - 1))
        else if a = ''max'' then Some (snd (snd (FANS ! nat (n - 1)))) else None),
     io_read_text = (\<lambda>s n a. if (n = 1 \<or> n = 2) \<and> a = ''label'' then Some (fst (FANS ! nat (n - 1))) else None),
     io_write_min = (\<lambda>s n rpm. if n \<noteq> 1 \<and> n \<noteq> 2 then (Some ''list index out of range'', s)
        else case FANS ! nat (n - 1) of (_, lo, hi) \<Rightarrow> (None, s\<lparr>ms_fan_min := (ms_fan_min s)[nat (n - 1) := min (max rpm lo) hi]\<rparr>))\<rparr>"

definition mock_gpu_read :: "'r rng \<Rightarrow> bool \<Rightarrow> 'r msim \<Rightarrow> pyval dict \<times> 'r msim" where
  "mock_gpu_read g changing s =
    (let off = (ms_gpu_mode s = ''off'');
         out = [(''mode'', PStr (ms_gpu_mode s)), (''present'', PBool True), (''power_state'', PStr (if off then ''D3cold'' else ''D0'')),
                (''switcheroo'', PDict [(''IGD'', PStr (if off then ''+:Pwr'' else '' :Pwr'')), (''DIS-Audio'', PStr '' :DynOff''),
                   (''DIS'', PStr (if off then '' :Off'' else ''+:Pwr''))])];
         loaded = (8 < ms_gpu_w s); low = (ms_gpu_mode s = ''low'')
     in if off \<or> changing then (out, s)
        else (case (if loaded then uniform g 55 70 s else uniform g 0 2 s) of (x, s) \<Rightarrow>
          (out @ [(''power_w'', pnum (py_round 3 (ms_gpu_w s))), (''cap_w'', pnum (if low then 10 else ms_gpu_cap s)), (''cap_min_w'', pnum 0),
            (''cap_max_w'', pnum 35), (''temp_c'', pnum (of_int (round_even (ms_gpu_c s)))), (''busy_pct'', PInt (trunc_rat x)),
            (''sclk_mhz'', PInt (if loaded then if low then 300 else 907 else 214)), (''dpm_level'', PStr (if low then ''low'' else ''auto'')),
            (''runtime_status'', PStr ''active'')], s)))"

definition or_val :: "pyval \<Rightarrow> pyval \<Rightarrow> pyval" where
  "or_val v d = (if truthy v then v else d)"

fun draw_cores :: "'r rng \<Rightarrow> int \<Rightarrow> rat list \<Rightarrow> 'r msim \<Rightarrow> pyval dict \<times> 'r msim" where
  "draw_cores g i [] s = ([], s)"
| "draw_cores g i (o' # os) s =
    (case uniform g (- 1) 1 s of (x, s) \<Rightarrow>
      let c = pnum (of_int (round_even (fadd (fsub (ms_pkg_c s) o') x))) in
      (case draw_cores g (i + 1) os s of (cs, s) \<Rightarrow> ((''c'' @ str_int i, c) # cs, s)))"

definition mock_cpu_read :: "'r rng \<Rightarrow> pyval dict \<Rightarrow> 'r msim \<Rightarrow> pyval dict \<times> 'r msim" where
  "mock_cpu_read g cpu s =
    (case draw_cores g 0 [0, 1, 3, 2] (slow_tick g s) of (cores, s) \<Rightarrow>
      ([(''temps'', PDict [(''cores'', PDict cores), (''pkg_c'', pnum (of_int (round_even (ms_pkg_c s)))),
          (''x86_pkg_c'', pnum (of_int (round_even (fadd (ms_pkg_c s) 2)))),
          (''nvme_c'', pnum (py_round 2 (fadd (fl (3885/100)) (fmul (fl (5/100)) (fsub (ms_pkg_c s) 60)))))]),
        (''mhz'', PList (map PInt (ms_mhz s))), (''busy_pct'', pnum (py_round 1 (fdiv (py_sum (ms_busy s)) 8))),
        (''busy_per_cpu'', PList (map pnum (ms_busy s))),
        (''load'', PList [pnum (py_round 2 (ms_load s)), pnum (py_round 2 (fadd (fmul (ms_load s) (fl (8/10))) (fl (1/10)))),
           pnum (py_round 2 (fadd (fmul (ms_load s) (1/2)) (fl (2/10))))]),
        (''mem_total_mib'', PInt 15372), (''mem_avail_mib'', PInt (if fst (burst s) then 9800 else 12026)),
        (''uptime_s'', pnum (py_round 2 (fadd 352800 (ms_t s)))), (''no_turbo'', PInt (if truthy (py_get cpu ''no_turbo'') then 1 else 0)),
        (''max_perf_pct'', or_val (py_get cpu ''max_perf_pct'') (PInt 100)), (''min_perf_pct'', PInt 20), (''pstate'', PStr ''active''),
        (''epp'', or_val (py_get cpu ''epp'') (PStr ''balance_performance'')), (''throttle_core'', PInt 107628), (''throttle_pkg'', PInt 37877),
        (''top'', PList (map PDict (ms_top s)))], s))"

section \<open>The backend\<close>

text \<open>\<open>mo_change\<close> is the GPU request under way: the mode asked for and whether the GPU was off before.\<close>

record 'r mock = sim +
  mo_sim :: "'r msim"
  mo_sampler :: sampler
  mo_t :: rat
  mo_ticks :: nat
  mo_mono0 :: rat
  mo_wall0 :: rat
  mo_gov :: gov_state
  mo_readback :: "(bool \<times> string) option"
  mo_last_write :: "pyval dict option"
  mo_gpu_result :: pyval
  mo_gpu_busy :: bool
  mo_change :: "(string \<times> bool) option"
  mo_fan :: fan_ctl
  mo_meter :: "pyval option"
  mo_snapshot :: "pyval dict option"

definition mock_wall :: "'r mock \<Rightarrow> rat" where
  "mock_wall m = fadd (mo_wall0 m) (mo_t m)"

abbreviation mock_emit :: "string \<Rightarrow> pyval dict \<Rightarrow> 'r mock \<Rightarrow> 'r mock" where
  "mock_emit \<equiv> sim_emit mock_wall"

definition mock_emits :: "fevent list \<Rightarrow> 'r mock \<Rightarrow> 'r mock" where
  "mock_emits evs m = fold (\<lambda>(typ, kw). mock_emit typ kw) evs m"

definition with_mock_fan :: "('r msim fworld \<Rightarrow> 'r msim fworld) \<Rightarrow> 'r mock \<Rightarrow> 'r mock" where
  "with_mock_fan f m = (case f (mo_fan m, mo_sim m, []) of (c, s, ev) \<Rightarrow> mock_emits ev (m\<lparr>mo_fan := c, mo_sim := s\<rparr>))"

definition mock_action :: "action \<Rightarrow> 'r mock \<Rightarrow> 'r mock" where
  "mock_action a m =
    (case a of
       Event typ kw \<Rightarrow> mock_emit typ kw m
     | SetLimits p q why \<Rightarrow>
         (case clamp_limits p q HARD_MAX_W (PDict FIRMWARE) of (pl1, pl2) \<Rightarrow>
            let lw = write_rec (mock_wall m) why True ''sysfs and MSR match'' pl1 pl2
            in mock_emit ''write'' lw (m\<lparr>mo_sim := (mo_sim m)\<lparr>ms_pl1 := pl1, ms_pl2 := pl2\<rparr>,
                 mo_readback := Some (True, ''sysfs and MSR match''), mo_last_write := Some lw\<rparr>)))"

text \<open>The readings of a slow sample, in the order in which they draw random numbers.\<close>

definition mock_slow_reads :: "'r rng \<Rightarrow> pyval dict \<Rightarrow> bool \<Rightarrow> 'r msim \<Rightarrow> slow_reads \<times> 'r msim" where
  "mock_slow_reads g cpu changing s =
    (case mock_gpu_read g changing s of (gp, s1) \<Rightarrow> (case mock_cpu_read g cpu s1 of (cp, s2) \<Rightarrow>
      (\<lparr>sr_rails = sim_read_many EXTRA_SMC_KEYS s, sr_smc_temps = [], sr_therm = Some (sim_therm s), sr_msr_limits = Some (sim_pkg_limit s),
        sr_limits = Some (sim_read_limits s), sr_fans = PList [], sr_gpu = gp, sr_cpu = cp\<rparr>, s2)))"

definition mock_sense :: "'r rng \<Rightarrow> pyval dict \<Rightarrow> bool \<Rightarrow> rat \<Rightarrow> 'r mock \<Rightarrow> 'r mock" where
  "mock_sense g cpu slow_now now m =
    (let s = mo_sim m; wall = mock_wall m;
         m = m\<lparr>mo_sampler := fast_step (sim_power s) (sim_read_many (if slow_now then FULL_SMC_KEYS else FAST_SMC_KEYS) s) now wall slow_now (mo_sampler m)\<rparr>
     in if \<not> slow_now then m
        else (case mock_slow_reads g cpu (mo_gpu_busy m) s of (r, s) \<Rightarrow>
          let sm = slow r now wall (mo_sampler m)
          in m\<lparr>mo_sim := s, mo_sampler := sm\<lparr>sm_slow_data := dset ''fans'' (sim_fan_rows s) (dset ''smc_temps'' (PDict (sim_smc_temps s)) (sm_slow_data sm))\<rparr>\<rparr>))"

definition mock_govern :: "gov_cfg \<Rightarrow> rat \<Rightarrow> 'r mock \<Rightarrow> 'r mock" where
  "mock_govern gc now m =
    (case gov_step (mo_gov m) ((gov_input now (mo_sampler m))\<lparr>m_readback := mo_readback m\<rparr>) gc now of
       (gs, acts) \<Rightarrow> fold mock_action acts (m\<lparr>mo_readback := None, mo_gov := gs\<rparr>))"

definition mock_log :: "gov_cfg \<Rightarrow> fan_cfg \<Rightarrow> rat \<Rightarrow> 'r mock \<Rightarrow> 'r mock" where
  "mock_log gc fc now m =
    (let temp = pkg_c_of (cpu_of (sm_slow_data (mo_sampler m)));
         der = derived_of now (g_ceiling_w gc) (mo_sampler m);
         m = with_mock_fan (fan_tick mock_fan_io (mock_wall m) now temp (onum (d_pkg_median_1s der)) fc) m;
         meter = PDict [(''cpu_pct'', pnum (if fst (burst (mo_sim m)) then fl (16/10) else fl (11/10))), (''rss_mib'', pnum (fl (386/10)))];
         m = m\<lparr>mo_meter := Some meter\<rparr>
     in m\<lparr>mo_sampler := snd (aggregate now (mock_wall m) (g_ceiling_w gc) (gov_summary (mo_gov m)) (Some (PDict (fan_log_record (mo_fan m))))
            (Some der) (Some meter) (mo_sampler m))\<rparr>)"

text \<open>\<open>_tick\<close>; the sections of the configuration are read first.\<close>

definition mock_tick :: "'r rng \<Rightarrow> 'r mock \<Rightarrow> 'r mock res" where
  "mock_tick g m =
    res_bind (cfg_section (sb_config m) ''cpu'') (\<lambda>cpu. res_bind (gov_cfg_of (sb_config m)) (\<lambda>gc. res_bind (fan_cfg_of (sb_config m)) (\<lambda>fc.
      let m = m\<lparr>mo_t := fadd (mo_t m) DT\<rparr>;
          now = fadd (mo_mono0 m) (mo_t m);
          m = m\<lparr>mo_sim := sim_step g DT cpu (mo_sim m)\<rparr>;
          slow_now = (mo_ticks m mod 4 = 0);
          m = mock_govern gc now (mock_sense g cpu slow_now now m);
          m = (if slow_now then mock_log gc fc now m else m)
      in Inr (m\<lparr>mo_ticks := mo_ticks m + 1, mo_snapshot := None\<rparr>))))"

primrec mock_ticks :: "'r rng \<Rightarrow> nat \<Rightarrow> 'r mock \<Rightarrow> 'r mock res" where
  "mock_ticks g 0 m = Inr m"
| "mock_ticks g (Suc n) m = res_bind (mock_tick g m) (mock_ticks g n)"

definition mock_advance :: "'r rng \<Rightarrow> rat \<Rightarrow> 'r mock \<Rightarrow> 'r mock res" where
  "mock_advance g seconds m = mock_ticks g (nat (max 1 (round_even (fdiv seconds DT)))) m"

section \<open>Requests\<close>

text \<open>\<open>pstr\<close> is \<open>str\<close>. An exception of the fan configuration cannot happen on a well-formed one.\<close>

definition mock_on_config :: "(pyval \<Rightarrow> string) \<Rightarrow> pyval dict \<Rightarrow> 'r mock \<Rightarrow> 'r mock" where
  "mock_on_config pstr acc m =
    (let m = (if has_prefix ''fan.'' acc then
                (case fan_cfg_of (sb_config m) of Inr fc \<Rightarrow> with_mock_fan (fan_on_config mock_fan_io (mock_wall m) fc) m | Inl _ \<Rightarrow> m) else m);
         m = (case dget acc ''gpu.cap_w'' of
                Some v \<Rightarrow> (case num_of v of Some x \<Rightarrow> m\<lparr>mo_sim := (mo_sim m)\<lparr>ms_gpu_cap := x\<rparr>\<rparr> | None \<Rightarrow> m) | None \<Rightarrow> m)
     in fold (\<lambda>(k, v) m. if starts_with ''cpu.'' k \<and> v \<noteq> PNone then mock_emit ''cpu_setting'' [(''message'', PStr (k @ '' = '' @ pstr v))] m else m) acc m)"

text \<open>
  \<open>gpu_set\<close> in its two critical sections, between which the delay lets ticks and other requests in;
  \<open>mock_gpu_set\<close> is a request that nothing interrupts.
\<close>

definition mock_gpu_begin :: "pyval \<Rightarrow> 'r mock \<Rightarrow> unit res \<times> 'r mock" where
  "mock_gpu_begin mode m =
    (case mode of
       PStr x \<Rightarrow>
         if x \<notin> {''auto'', ''low'', ''off''} then (Inl (BackendError ''mode must be auto, low or off''), m)
         else if mo_gpu_busy m then (Inl (BackendError ''a GPU mode change is already running''), m)
         else (Inr (), mock_emit ''gpu_mode_request'' [(''mode'', mode)]
                 (m\<lparr>mo_gpu_busy := True, mo_change := Some (x, ms_gpu_mode (mo_sim m) = ''off'')\<rparr>))
     | _ \<Rightarrow> (Inl (BackendError ''mode must be auto, low or off''), m))"

definition gpu_steps :: "rat \<Rightarrow> string \<Rightarrow> bool \<Rightarrow> string list" where
  "gpu_steps cap_w mode was_off =
    (if mode = ''off'' then
       (if was_off then [''already off'']
        else [''fbcon unbind'', ''switcheroo IGD'', ''switcheroo OFF'', ''verified immediate: DIS Off, power_state D3cold'',
              ''verified after 10 s: DIS Off, power_state D3cold''])
     else (if was_off then [''switcheroo ON'', ''switcheroo DIS'', ''fbcon bind''] else [])
       @ [''write '' @ str_int (trunc_rat (fmul cap_w 1000000)) @ '' -> power1_cap'',
          ''write '' @ (if mode = ''low'' then ''low'' else ''auto'') @ '' -> power_dpm_force_performance_level''])"

definition mock_gpu_finish :: "'r mock \<Rightarrow> pyval dict res \<times> 'r mock" where
  "mock_gpu_finish m =
    (case mo_change m of
       None \<Rightarrow> (Inl (RuntimeError ''no change under way''), m)
     | Some (mode, was_off) \<Rightarrow>
         (case gpu_section (sb_config m) of
            Inl e \<Rightarrow> (Inl e, m)
          | Inr (_, cap_cfg) \<Rightarrow>
              let m = m\<lparr>mo_sim := (mo_sim m)\<lparr>ms_gpu_mode := mode\<rparr>\<rparr> in
              (case apply_updates (sb_config m) [(''gpu.mode'', PStr mode)] of
                 Inl e \<Rightarrow> (Inl e, m)
               | Inr cfg \<Rightarrow>
                   let res = [(''ok'', PBool True), (''mode'', PStr mode),
                              (''reason'', PStr (if mode = ''off'' then ''dGPU off (switcheroo DIS Off)'' else mode @ '' applied'')),
                              (''steps'', PList (map PStr (gpu_steps (if mode = ''low'' then 10 else cap_cfg) mode was_off))), (''persisted'', PBool True)]
                   in (Inr res, (mock_emit ''gpu_mode'' ((''requested'', PStr mode) # res)
                         (m\<lparr>sb_config := cfg, mo_gpu_result := PDict res, mo_gpu_busy := False, mo_change := None,
                            sb_last_change := Some (mock_wall m)\<rparr>))\<lparr>mo_snapshot := None\<rparr>))))"

definition mock_gpu_set :: "pyval \<Rightarrow> 'r mock \<Rightarrow> pyval dict res \<times> 'r mock" where
  "mock_gpu_set mode m = (case mock_gpu_begin mode m of (Inl e, m) \<Rightarrow> (Inl e, m) | (Inr _, m) \<Rightarrow> mock_gpu_finish m)"

definition mock_class :: "(pyval dict \<Rightarrow> string) \<Rightarrow> sim_class" where
  "mock_class digest = \<lparr>cl_persisted = True, cl_reason = PNone, cl_path = ''/etc/turbomac/config.json (mock, in memory)'', cl_digest = digest\<rparr>"

definition mock_config_set :: "(pyval dict \<Rightarrow> string) \<Rightarrow> (pyval \<Rightarrow> string) \<Rightarrow> pyval dict \<Rightarrow> 'r mock \<Rightarrow> pyval dict res \<times> 'r mock" where
  "mock_config_set digest pstr updates m = sim_config_set (mock_class digest) mock_wall (mock_on_config pstr) mock_gpu_set updates m"

definition mock_incidents :: "pyval dict list \<Rightarrow> pyval dict list" where
  "mock_incidents incs = map (\<lambda>inc. map (\<lambda>k. (k, py_get inc k)) [''id'', ''detected_at'', ''boot_id'', ''last_sample_time'', ''reason'']
     @ [(''n_samples'', PInt (case py_get inc ''samples'' of PList l \<Rightarrow> int (length l) | _ \<Rightarrow> 0))]) incs"

definition mock_incident :: "(string \<Rightarrow> string) \<Rightarrow> pyval dict list \<Rightarrow> string \<Rightarrow> pyval dict res" where
  "mock_incident str_repr incs i = (case List.find (\<lambda>inc. py_get inc ''id'' = PStr i) incs of
     Some inc \<Rightarrow> Inr inc | None \<Rightarrow> Inl (BackendError (''no incident '' @ str_repr i)))"

section \<open>The status and the start\<close>

text \<open>
  \<open>status\<close>: \<open>Daemon.build_status\<close> run on the backend in place of a daemon. \<open>mock_view\<close> is the daemon with the
  attributes of the backend, on a daemon \<open>blank\<close> that has the constant ones (boot id, firmware, the
  SMC that is there, the incident check).
\<close>

definition mock_view :: "dstate \<Rightarrow> 'r mock \<Rightarrow> dstate" where
  "mock_view blank m = blank\<lparr>dm_config := sb_config m, dm_sampler := mo_sampler m, dm_gov := mo_gov m, dm_last_write := mo_last_write m,
     dm_fan := Some (mo_fan m), dm_meter := mo_meter m, dm_gpu := (dm_gpu blank)\<lparr>gp_busy := mo_gpu_busy m\<rparr>\<rparr>"

definition mock_status :: "denv \<Rightarrow> dstate \<Rightarrow> 'r mock \<Rightarrow> pyval dict res \<times> 'r mock" where
  "mock_status env blank m =
    (case mo_snapshot m of
       Some st \<Rightarrow> (Inr st, m)
     | None \<Rightarrow>
         (case build_status env (fadd (mo_mono0 m) (mo_t m)) None (mock_view blank m) of
            Inl e \<Rightarrow> (Inl e, m)
          | Inr st \<Rightarrow>
              let gp = (case py_get st ''gpu'' of PDict x \<Rightarrow> x | _ \<Rightarrow> []);
                  st = dset ''gpu'' (PDict (dset ''last_result'' (mo_gpu_result m) gp)) st;
                  st = dmerge st [(''ts'', pnum (py_round 3 (mock_wall m))), (''host'', PStr ''old-mac''), (''daemon_uptime_s'', pnum (py_round 1 (mo_t m)))]
              in (Inr st, m\<lparr>mo_snapshot := Some st\<rparr>)))"

definition mock_gpu_result0 :: "pyval dict" where
  "mock_gpu_result0 = [(''ok'', PBool True), (''mode'', PStr ''auto''), (''reason'', PStr ''auto applied''),
     (''steps'', PList [PStr ''write 15000000 -> power1_cap'', PStr ''write auto -> power_dpm_force_performance_level''])]"

definition mock_new :: "'r \<Rightarrow> rat \<Rightarrow> 'r mock" where
  "mock_new r wall0 =
    \<lparr>sb_config = defaults, sb_events = [], sb_last_change = None, mo_sim = msim_init r,
     mo_sampler = (sampler_init None SMC_SLOW_EVERY_S)\<lparr>sm_extra := EXTRA_SMC_KEYS\<rparr>, mo_t = 0, mo_ticks = 0, mo_mono0 = 10000, mo_wall0 = wall0,
     mo_gov = gov_initial 10000 (Some 100) (Some 125), mo_readback = None, mo_last_write = None, mo_gpu_result = PNone, mo_gpu_busy = False,
     mo_change = None, mo_fan = fan_ctl0, mo_meter = None, mo_snapshot = None\<rparr>"

text \<open>\<open>__init__\<close>; \<open>check\<close> is the canned incident check, \<open>started\<close> the fields of the \<open>started\<close> event.\<close>

definition mock_init :: "'r rng \<Rightarrow> (pyval dict \<Rightarrow> string) \<Rightarrow> (pyval \<Rightarrow> string) \<Rightarrow> 'r \<Rightarrow> rat \<Rightarrow> pyval dict \<Rightarrow> pyval dict \<Rightarrow> pyval dict \<Rightarrow> rat \<Rightarrow> 'r mock res" where
  "mock_init g digest pstr r wall0 check started updates warmup =
    (let m = mock_emit ''boot_check'' check (mock_new r wall0) in
     case fan_init mock_fan_io (mo_sim m) (load_or_capture (\<lambda>_. None) (\<lambda>_. []) None [] None False Map.empty) Map.empty of
       (c, ev, _) \<Rightarrow>
         let m = mock_emits ev (m\<lparr>mo_fan := c\<rparr>) in
         res_bind (fan_cfg_of (sb_config m)) (\<lambda>fc.
           let m = with_mock_fan (fan_start mock_fan_io (mock_wall m) fc) m;
               m = mock_emit ''started'' started m;
               m = m\<lparr>mo_gpu_result := PDict mock_gpu_result0\<rparr>;
               m = mock_emit ''gpu_mode'' ([(''requested'', PStr ''auto''), (''attempt'', PInt 0)] @ mock_gpu_result0) m
           in res_bind (if updates = [] then Inr m else case mock_config_set digest pstr updates m of (Inl e, _) \<Rightarrow> Inl e | (Inr _, m) \<Rightarrow> Inr m)
                (mock_advance g warmup)))"

end
