(* ===== verification/Mock_Props.thy ===== *)
theory Mock_Props
  imports Mock
begin

text \<open>
  Properties of the simulated machine: it is a second fan device for the controller, and over every run
  of the backend the limits, the package power and the fan floors stay in their bounds, the
  configuration stays well formed, and at most one GPU change is under way.
\<close>

section \<open>Well-formed configurations have every section\<close>

lemma SPEC_fan:
  "dget SPEC (''fan'' @ ''.'' @ ''mode'') = Some (False, Choice [''auto'', ''floor''])"
  "dget SPEC (''fan'' @ ''.'' @ ''power_floor_w'') = Some (False, Num 10 45)"
  "dget SPEC (''fan'' @ ''.'' @ ''power_floor_rpm'') = Some (False, IntR 2000 5900)"
  "dget SPEC (''fan'' @ ''.'' @ ''t1_c'') = Some (False, Num 50 99)" "dget SPEC (''fan'' @ ''.'' @ ''t1_rpm'') = Some (False, IntR 2000 5900)"
  "dget SPEC (''fan'' @ ''.'' @ ''t2_c'') = Some (False, Num 50 99)" "dget SPEC (''fan'' @ ''.'' @ ''t2_rpm'') = Some (False, IntR 2000 5900)"
  "dget SPEC (''fan'' @ ''.'' @ ''t3_c'') = Some (False, Num 50 99)" "dget SPEC (''fan'' @ ''.'' @ ''t3_rpm'') = Some (False, IntR 2000 5900)"
  "dget SPEC (''fan'' @ ''.'' @ ''hysteresis_c'') = Some (False, Num 2 15)"
  "dget SPEC (''fan'' @ ''.'' @ ''step_down_interval_s'') = Some (False, Num 5 120)"
  "dget SPEC (''fan'' @ ''.'' @ ''max_rpm'') = Some (False, IntR 2500 5900)"
  "dget SPEC (''cpu'' @ ''.'' @ ''no_turbo'') = Some (True, BoolK)"
  by (simp_all add: SPEC_def)

lemma fan_cfg_of_wf:
  assumes wf: "cfg_wf cfg"
  shows "\<exists>fc. fan_cfg_of cfg = Inr fc"
proof -
  obtain d where d: "cfg_section cfg ''fan'' = Inr d" using cfg_wf_key [OF wf SPEC_fan(1)] by auto
  have n: "CHR ''.'' \<notin> set ''fan''" by simp
  have N: "\<exists>x. sect_num d k = Inr x" if "dget SPEC (''fan'' @ ''.'' @ k) = Some (False, Num lo hi)" for k lo hi
    using cfg_wf_num [OF wf d that n] by blast
  have I: "\<exists>x. sect_int d k = Inr x" if "dget SPEC (''fan'' @ ''.'' @ k) = Some (False, IntR lo hi)" for k lo hi
    using cfg_wf_int [OF wf d that n] by (auto simp: sect_int_def)
  obtain m where "sect_str d ''mode'' = Inr m" using cfg_wf_choice [OF wf d SPEC_fan(1) n] by blast
  moreover obtain a b c e where "sect_num d ''power_floor_w'' = Inr a" "sect_int d ''power_floor_rpm'' = Inr b" "sect_num d ''t1_c'' = Inr c" "sect_int d ''t1_rpm'' = Inr e"
    using N [OF SPEC_fan(2)] I [OF SPEC_fan(3)] N [OF SPEC_fan(4)] I [OF SPEC_fan(5)] by blast
  moreover obtain f g h i where "sect_num d ''t2_c'' = Inr f" "sect_int d ''t2_rpm'' = Inr g" "sect_num d ''t3_c'' = Inr h" "sect_int d ''t3_rpm'' = Inr i"
    using N [OF SPEC_fan(6)] I [OF SPEC_fan(7)] N [OF SPEC_fan(8)] I [OF SPEC_fan(9)] by blast
  moreover obtain j k l where "sect_num d ''hysteresis_c'' = Inr j" "sect_num d ''step_down_interval_s'' = Inr k" "sect_int d ''max_rpm'' = Inr l"
    using N [OF SPEC_fan(10)] N [OF SPEC_fan(11)] I [OF SPEC_fan(12)] by blast
  ultimately show ?thesis by (simp add: fan_cfg_of_def d)
qed

lemma cpu_section_wf: "cfg_wf cfg \<Longrightarrow> \<exists>d. cfg_section cfg ''cpu'' = Inr d"
  using cfg_wf_key [OF _ SPEC_fan(13)] by fastforce

section \<open>What the fan controller leaves alone\<close>

text \<open>A property of the device that every write of a minimum keeps is kept by the whole controller.\<close>

locale fan_keeps =
  fixes io :: "'s fan_io" and P :: "'s \<Rightarrow> bool"
  assumes write_keeps: "P s \<Longrightarrow> io_write_min io s n r = (e, s') \<Longrightarrow> P s'"
begin

lemma fan_write_keeps: "P s \<Longrightarrow> fan_write io n r mx s = (e, s') \<Longrightarrow> P s'"
  using write_keeps [of s n r] by (auto simp: fan_write_def split: prod.splits option.splits if_splits)

lemma apply_fan_keeps: "P (fst (snd (fst wc))) \<Longrightarrow> P (fst (snd (fst (apply_fan io now target mx reason nf wc))))"
  by (auto simp: apply_fan_def Let_def split: prod.splits option.splits dest: fan_write_keeps)

lemma restore_fan_keeps: "P (fst (snd (fst wc))) \<Longrightarrow> P (fst (snd (fst (restore_fan io nf wc))))"
  by (auto simp: restore_fan_def Let_def split: prod.splits option.splits dest: fan_write_keeps)

lemma fold_apply_keeps: "P (fst (snd (fst wc))) \<Longrightarrow> P (fst (snd (fst (fold (apply_fan io now target mx reason) fans wc))))"
  by (induction fans arbitrary: wc) (simp_all add: apply_fan_keeps)

lemma fold_restore_keeps: "P (fst (snd (fst wc))) \<Longrightarrow> P (fst (snd (fst (fold (restore_fan io) fans wc))))"
  by (induction fans arbitrary: wc) (simp_all add: restore_fan_keeps)

lemma fan_apply_keeps:
  assumes "P (fst (snd w))"
  shows "P (fst (snd (snd (fan_apply io now target mx reason t p w))))"
proof -
  obtain c s ev ch where f: "fold (apply_fan io now target mx reason) (c_fans (fst w)) (w, []) = ((c, s, ev), ch)" by (metis surj_pair)
  have "P s" using fold_apply_keeps [of "(w, [])" now target mx reason "c_fans (fst w)"] assms f by simp
  then show ?thesis by (simp add: fan_apply_def f Let_def emit_def)
qed

lemma fan_restore_keeps:
  assumes "P (fst (snd w))"
  shows "P (fst (snd (snd (fan_restore io clock w))))"
proof -
  let ?w = "((fst w)\<lparr>c_state := fan_state0, c_target_rpm := 0\<rparr>, snd w)"
  obtain c s ev r ok where f: "fold (restore_fan io) (c_fans (fst w)) (?w, [], True) = ((c, s, ev), r, ok)" by (metis surj_pair)
  have "P s" using fold_restore_keeps [of "(?w, [], True)" "c_fans (fst w)"] assms f by simp
  then show ?thesis by (simp add: fan_restore_def f Let_def emit_def)
qed

lemma set_mode_keeps: "P (fst (snd w)) \<Longrightarrow> P (fst (snd (fan_set_mode io clock mode w)))"
  by (cases w) (auto simp: fan_set_mode_def set_reason_def emit_def Let_def intro!: fan_restore_keeps)

lemma on_config_keeps: "P (fst (snd w)) \<Longrightarrow> P (fst (snd (fan_on_config io clock cfg w)))"
  by (simp add: fan_on_config_def set_mode_keeps)

lemma start_keeps: "P (fst (snd w)) \<Longrightarrow> P (fst (snd (fan_start io clock cfg w)))"
  by (auto simp: fan_start_def set_reason_def Let_def intro!: fan_restore_keeps)

lemma tick_keeps:
  assumes "P (fst (snd w))"
  shows "P (fst (snd (fan_tick io clock now t p cfg w)))"
proof -
  define w1 where "w1 = (if c_mode (fst w) \<noteq> Some (fc_mode cfg) then fan_set_mode io clock (fc_mode cfg) w else w)"
  define w2 where "w2 = (refresh_rpm io (fst (snd w1)) (fst w1), snd w1)"
  have 2: "P (fst (snd w2))" using assms set_mode_keeps by (simp add: w2_def w1_def)
  obtain st target reason where d: "decide (c_state (fst w2)) t p cfg now = (st, target, reason)"
    by (cases "decide (c_state (fst w2)) t p cfg now") auto
  from 2 show ?thesis
    unfolding fan_tick_def Let_def w1_def [symmetric] w2_def [symmetric] d prod.case
    by (auto simp: set_reason_def intro!: fan_apply_keeps)
qed

end

context fan_dev
begin

lemma on_config_sync: "in_sync io (fst w) (fst (snd w)) \<Longrightarrow> in_sync io (fst (fan_on_config io clock cfg w)) (fst (snd (fan_on_config io clock cfg w)))"
  by (simp add: fan_on_config_def fan_set_mode_sync)

lemma start_sync:
  assumes "in_sync io (fst w) (fst (snd w))"
  shows "in_sync io (fst (fan_start io clock cfg w)) (fst (snd (fan_start io clock cfg w)))"
proof -
  let ?w = "((fst w)\<lparr>c_mode := Some (fc_mode cfg)\<rparr>, snd w)"
  have "in_sync io (fst ?w) (fst (snd ?w))" using assms by (simp add: in_sync_def)
  from fan_restore_sync [OF this, of clock] this show ?thesis
    by (cases "fc_mode cfg = ''auto''") (simp_all add: fan_start_def set_reason_def in_sync_def Let_def)
qed

end

section \<open>The simulated fans\<close>

definition mins_ok :: "int list \<Rightarrow> bool" where
  "mins_ok ms = list_all2 (\<lambda>m (_, lo, hi). lo \<le> m \<and> m \<le> hi) ms FANS"

lemma FANS_nth: "FANS ! 0 = (''Left side'', 2160, 5927)" "FANS ! Suc 0 = (''Right side'', 2000, 5489)" "length FANS = 2"
  by (simp_all add: FANS_def)

lemma mins_ok_iff: "mins_ok ms \<longleftrightarrow> (\<exists>a b. ms = [a, b] \<and> 2160 \<le> a \<and> a \<le> 5927 \<and> 2000 \<le> b \<and> b \<le> 5489)"
  by (auto simp: mins_ok_def FANS_def list_all2_Cons2)

lemma mock_write_min_eq:
  "io_write_min mock_fan_io s 1 r = (None, s\<lparr>ms_fan_min := (ms_fan_min s)[0 := min (max r 2160) 5927]\<rparr>)"
  "io_write_min mock_fan_io s 2 r = (None, s\<lparr>ms_fan_min := (ms_fan_min s)[1 := min (max r 2000) 5489]\<rparr>)"
  "n \<noteq> 1 \<Longrightarrow> n \<noteq> 2 \<Longrightarrow> io_write_min mock_fan_io s n r = (Some ''list index out of range'', s)"
  by (simp_all add: mock_fan_io_def FANS_nth)

lemma mins_ok_upd: "mins_ok ms \<Longrightarrow> mins_ok (ms[0 := min (max r 2160) 5927])" "mins_ok ms \<Longrightarrow> mins_ok (ms[1 := min (max r 2000) 5489])"
  by (auto simp: mins_ok_iff)

lemma mock_write_min:
  assumes "io_write_min mock_fan_io s n r = (e, s')"
  shows "\<exists>ms. s' = s\<lparr>ms_fan_min := ms\<rparr> \<and> (mins_ok (ms_fan_min s) \<longrightarrow> mins_ok ms)"
proof -
  consider "n = 1" | "n = 2" | "n \<noteq> 1" "n \<noteq> 2" by blast
  then show ?thesis
  proof cases
    case 1
    then have "s' = s\<lparr>ms_fan_min := (ms_fan_min s)[0 := min (max r 2160) 5927]\<rparr>" using assms by (simp add: mock_write_min_eq)
    then show ?thesis using mins_ok_upd(1) by blast
  next
    case 2
    then have "s' = s\<lparr>ms_fan_min := (ms_fan_min s)[1 := min (max r 2000) 5489]\<rparr>" using assms by (simp add: mock_write_min_eq)
    then show ?thesis using mins_ok_upd(2) by blast
  next
    case 3
    then have "s' = s\<lparr>ms_fan_min := ms_fan_min s\<rparr>" using assms by (simp add: mock_write_min_eq)
    then show ?thesis by blast
  qed
qed

lemma mock_read_min: "io_read_int mock_fan_io s k ''min'' = (if k \<noteq> 1 \<and> k \<noteq> 2 then None else Some (ms_fan_min s ! nat (k - 1)))"
  by (simp add: mock_fan_io_def)

lemma mock_read_other: "a \<noteq> ''min'' \<Longrightarrow> io_read_int mock_fan_io (s\<lparr>ms_fan_min := ms\<rparr>) k a = io_read_int mock_fan_io s k a"
  by (simp add: mock_fan_io_def)

lemma mock_fan_dev: "fan_dev mock_fan_io"
proof
  fix s s' :: "'a msim" and n r e k a
  assume w: "io_write_min mock_fan_io s n r = (e, s')" and ne: "(k, a) \<noteq> (n, ''min'')"
  show "io_read_int mock_fan_io s' k a = io_read_int mock_fan_io s k a"
  proof (cases "a = ''min''")
    case True
    then have "k \<noteq> n" using ne by simp
    consider "n = 1" | "n = 2" | "n \<noteq> 1" "n \<noteq> 2" by blast
    then show ?thesis unfolding True mock_read_min
      by cases (use w \<open>k \<noteq> n\<close> in \<open>auto simp: mock_write_min_eq\<close>)
  next
    case False
    obtain ms where "s' = s\<lparr>ms_fan_min := ms\<rparr>" using mock_write_min [OF w] by blast
    then show ?thesis using mock_read_other [OF False] by simp
  qed
qed

interpretation mock_fans: fan_dev mock_fan_io
  by (rule mock_fan_dev)

text \<open>The controller changes nothing of the machine but the floors, and those within the fans' ranges.\<close>

definition same_but_floors :: "'r msim \<Rightarrow> 'r msim \<Rightarrow> bool" where
  "same_but_floors s0 s = (\<exists>ms. s = s0\<lparr>ms_fan_min := ms\<rparr> \<and> (mins_ok (ms_fan_min s0) \<longrightarrow> mins_ok ms))"

interpretation mock_floor: fan_keeps mock_fan_io "same_but_floors s0" for s0
proof
  fix s s' :: "'a msim" and n r e
  assume p: "same_but_floors s0 s" and w: "io_write_min mock_fan_io s n r = (e, s')"
  from p obtain ms where ms: "s = s0\<lparr>ms_fan_min := ms\<rparr>" "mins_ok (ms_fan_min s0) \<longrightarrow> mins_ok ms" by (auto simp: same_but_floors_def)
  obtain ms' where "s' = s\<lparr>ms_fan_min := ms'\<rparr>" "mins_ok (ms_fan_min s) \<longrightarrow> mins_ok ms'" using mock_write_min [OF w] by blast
  then show "same_but_floors s0 s'" using ms by (auto simp: same_but_floors_def)
qed

lemma same_but_floors_refl: "same_but_floors s s"
  by (auto simp: same_but_floors_def intro!: exI [of _ "ms_fan_min s"])

section \<open>The machine's step\<close>

definition sim_lims :: "'r msim \<Rightarrow> rat \<times> rat \<times> int list" where
  "sim_lims s = (ms_pl1 s, ms_pl2 s, ms_fan_min s)"

lemma gauss_lims: "gauss g mu sigma s = (x, s') \<Longrightarrow> sim_lims s' = sim_lims s \<and> ms_pkg s' = ms_pkg s"
  by (auto simp: gauss_def sim_lims_def split: prod.splits)

lemma uniform_lims: "uniform g lo hi s = (x, s') \<Longrightarrow> sim_lims s' = sim_lims s \<and> ms_pkg s' = ms_pkg s"
  by (auto simp: uniform_def sim_lims_def split: prod.splits)

lemma demand_lims:
  assumes "sim_demand g cpu active s = (d, s')"
  shows "sim_lims s' = sim_lims s"
proof -
  obtain x s1 where x: "gauss g 0 (8/10) s = (x, s1)" by (metis surj_pair)
  have "s' = (if active then s else s1)" using assms unfolding sim_demand_def x by (cases active) (simp_all add: Let_def)
  then show ?thesis using gauss_lims [OF x] by simp
qed

lemma sim_pkg_le: "sim_lims (sim_pkg g dt d s) = sim_lims s \<and> ms_pkg (sim_pkg g dt d s) \<le> ms_pl2 s"
proof -
  obtain x s1 where x: "gauss g 0 (15/100) s = (x, s1)" by (metis surj_pair)
  show ?thesis using gauss_lims [OF x] unfolding sim_pkg_def x by (simp add: sim_lims_def)
qed

lemma sim_gpu_lims: "sim_lims (sim_gpu g dt a l s) = sim_lims s \<and> ms_pkg (sim_gpu g dt a l s) = ms_pkg s"
proof -
  obtain x s1 where x: "gauss g 0 (5/100) s = (x, s1)" by (metis surj_pair)
  show ?thesis using gauss_lims [OF x] unfolding sim_gpu_def x by (cases "gpu_target a l s \<noteq> 0") (simp_all add: sim_lims_def Let_def)
qed

lemma sim_input_lims: "sim_lims (sim_input g dt s) = sim_lims s \<and> ms_pkg (sim_input g dt s) = ms_pkg s"
  by (simp add: sim_input_def Let_def sim_lims_def gauss_def split: prod.split)

lemma sim_rest_lims: "sim_lims (sim_fans dt s) = sim_lims s \<and> ms_pkg (sim_fans dt s) = ms_pkg s"
  "sim_lims (sim_temps g dt s) = sim_lims s \<and> ms_pkg (sim_temps g dt s) = ms_pkg s"
  by (simp_all add: sim_fans_def sim_temps_def sim_lims_def Let_def)

lemma sim_step_lims: "sim_lims (sim_step g dt cpu s) = sim_lims s \<and> ms_pkg (sim_step g dt cpu s) \<le> ms_pl2 s"
proof -
  define s1 where "s1 = s\<lparr>ms_t := fadd (ms_t s) dt\<rparr>"
  obtain a l where b: "burst s1 = (a, l)" by (metis surj_pair)
  obtain d s2 where d: "sim_demand g cpu a s1 = (d, s2)" by (metis surj_pair)
  have 2: "sim_lims s2 = sim_lims s" using demand_lims [OF d] by (simp add: s1_def sim_lims_def)
  let ?s = "sim_fans dt (sim_temps g dt (sim_input g dt (sim_gpu g dt a l (sim_pkg g dt d s2))))"
  have "ms_pl2 s2 = ms_pl2 s" using 2 by (simp add: sim_lims_def)
  then have "sim_lims ?s = sim_lims s" "ms_pkg ?s \<le> ms_pl2 s"
    using sim_pkg_le [of g dt d s2] 2 by (simp_all add: sim_rest_lims sim_input_lims sim_gpu_lims)
  then show ?thesis by (simp add: sim_step_def Let_def s1_def [symmetric] b d sim_lims_def)
qed

text \<open>The slow readings draw numbers and fill the tables, nothing else.\<close>

definition sim_same :: "'r msim \<Rightarrow> 'r msim \<Rightarrow> bool" where
  "sim_same s s' = (sim_lims s' = sim_lims s \<and> ms_pkg s' = ms_pkg s)"

lemma sim_same_trans: "sim_same a b \<Longrightarrow> sim_same b c \<Longrightarrow> sim_same a c"
  by (simp add: sim_same_def)

lemma uniform_same: "sim_same s (snd (uniform g lo hi s))"
  using uniform_lims [of g lo hi s] by (cases "uniform g lo hi s") (simp add: sim_same_def)

lemma draws_same:
  assumes "\<And>s. sim_same s (snd (f s))"
  shows "sim_same s (snd (draws f n s))"
proof (induction n arbitrary: s)
  case 0
  show ?case by (simp add: sim_same_def)
next
  case (Suc n)
  obtain x s1 where f: "f s = (x, s1)" by (metis surj_pair)
  with Suc [of s1] assms [of s] show ?case by (auto simp: sim_same_def split: prod.splits)
qed

lemma draw_same: "sim_same s (snd (draw_mhz g a s))" "sim_same s (snd (draw_busy g a s))" "sim_same s (snd (procs_of g a s))"
  by (auto simp: draw_mhz_def draw_busy_def procs_of_def sim_same_def sim_lims_def uniform_def split: prod.splits)

lemma top_rows_same: "sim_same s (snd (top_rows g i ps s))"
proof (induction ps arbitrary: i s)
  case (Cons nv ps)
  obtain x s1 where u: "uniform g (7/10) (13/10) s = (x, s1)" by (metis surj_pair)
  obtain n v where "nv = (n, v)" by (cases nv)
  with u Cons [of "s1" "i + 1"] uniform_lims [OF u] show ?case by (auto simp: sim_same_def Let_def split: prod.splits)
qed (simp add: sim_same_def)

lemma slow_tick_same: "sim_same s (slow_tick g s)"
proof -
  define act where "act = fst (burst s)"
  obtain mhz s1 where 1: "draws (draw_mhz g act) 8 s = (mhz, s1)" by (metis surj_pair)
  define s2 where "s2 = s1\<lparr>ms_mhz := mhz\<rparr>"
  obtain bs s3 where 3: "draws (draw_busy g act) 8 s2 = (bs, s3)" by (metis surj_pair)
  define s4 where "s4 = s3\<lparr>ms_busy := bs\<rparr>"
  obtain ps s5 where 5: "procs_of g act s4 = (ps, s5)" by (metis surj_pair)
  obtain rows s6 where 6: "top_rows g 0 ps s5 = (rows, s6)" by (metis surj_pair)
  have "slow_tick g s = s6\<lparr>ms_top := map snd (sort_key (\<lambda>x. - fst x) rows)\<rparr>"
    unfolding slow_tick_def Let_def act_def [symmetric] 1 prod.case s2_def [symmetric] 3 s4_def [symmetric] 5 6 by (rule refl)
  moreover have "sim_same s s1" using draws_same [of "draw_mhz g act" s 8, OF draw_same(1)] 1 by simp
  moreover have "sim_same s2 s3" using draws_same [of "draw_busy g act" s2 8, OF draw_same(2)] 3 by simp
  moreover have "sim_same s4 s5" using draw_same(3) [of s4 g act] 5 by simp
  moreover have "sim_same s5 s6" using top_rows_same [of s5 g 0 ps] 6 by simp
  ultimately show ?thesis by (simp add: sim_same_def sim_lims_def s2_def s4_def)
qed

lemma draw_cores_same: "sim_same s (snd (draw_cores g i os s))"
proof (induction os arbitrary: i s)
  case (Cons x os)
  obtain y s1 where u: "uniform g (- 1) 1 s = (y, s1)" by (metis surj_pair)
  with Cons [of s1 "i + 1"] uniform_lims [OF u] show ?case by (auto simp: sim_same_def Let_def split: prod.splits)
qed (simp add: sim_same_def)

lemma cpu_read_same: "sim_same s (snd (mock_cpu_read g cpu s))"
proof -
  obtain cores s1 where c: "draw_cores g 0 [0, 1, 3, 2] (slow_tick g s) = (cores, s1)" by (metis surj_pair)
  then have "sim_same (slow_tick g s) s1" using draw_cores_same [of "slow_tick g s" g 0 "[0, 1, 3, 2]"] by simp
  then have "sim_same s s1" by (rule sim_same_trans [OF slow_tick_same])
  then show ?thesis unfolding mock_cpu_read_def c by simp
qed

lemma gpu_read_same: "sim_same s (snd (mock_gpu_read g c s))"
  by (auto simp: mock_gpu_read_def Let_def sim_same_def split: prod.splits if_splits dest: uniform_lims)

lemma slow_reads_same: "sim_same s (snd (mock_slow_reads g cpu c s))"
proof -
  obtain gp s1 where 1: "mock_gpu_read g c s = (gp, s1)" by (metis surj_pair)
  obtain cp s2 where 2: "mock_cpu_read g cpu s1 = (cp, s2)" by (metis surj_pair)
  have "sim_same s s1" "sim_same s1 s2" using gpu_read_same [of s g c] cpu_read_same [of s1 g cpu] 1 2 by simp_all
  then show ?thesis using sim_same_trans by (simp add: mock_slow_reads_def 1 2) blast
qed

section \<open>The invariant of the backend\<close>

definition lims_ok :: "'r msim \<Rightarrow> bool" where
  "lims_ok s = (ms_pl1 s \<le> HARD_MAX_W \<and> ms_pl2 s \<le> HARD_MAX_W \<and> ms_pkg s \<le> HARD_MAX_W \<and> mins_ok (ms_fan_min s))"

text \<open>A GPU change is under way exactly while the GPU is busy, and it is to one of the three modes.\<close>

definition change_ok :: "bool \<Rightarrow> (string \<times> bool) option \<Rightarrow> bool" where
  "change_ok changing c = (case c of None \<Rightarrow> \<not> changing | Some (x, _) \<Rightarrow> changing \<and> x \<in> {''auto'', ''low'', ''off''})"

definition mo_inv :: "'r mock \<Rightarrow> bool" where
  "mo_inv m = (cfg_wf (sb_config m) \<and> lims_ok (mo_sim m) \<and> sampler_ok (mo_sampler m) \<and> in_sync mock_fan_io (mo_fan m) (mo_sim m) \<and> change_ok (mo_gpu_busy m) (mo_change m))"

definition mo_core :: "'r mock \<Rightarrow> pyval dict \<times> 'r msim \<times> sampler \<times> fan_ctl \<times> bool \<times> (string \<times> bool) option" where
  "mo_core m = (sb_config m, mo_sim m, mo_sampler m, mo_fan m, mo_gpu_busy m, mo_change m)"

lemma mo_inv_core: "mo_core m = mo_core m' \<Longrightarrow> mo_inv m = mo_inv m'"
  by (simp add: mo_core_def mo_inv_def)

lemma emit_core [simp]: "mo_core (mock_emit typ kw m) = mo_core m"
  by (simp add: sim_emit_def mo_core_def)

lemma emits_core [simp]: "mo_core (mock_emits evs m) = mo_core m"
  unfolding mock_emits_def by (induction evs arbitrary: m) (simp_all split: prod.split)

lemma mo_core_upd [simp]:
  "mo_core (m\<lparr>mo_readback := rb\<rparr>) = mo_core m" "mo_core (m\<lparr>mo_gov := gs\<rparr>) = mo_core m" "mo_core (m\<lparr>mo_last_write := lw\<rparr>) = mo_core m"
  "mo_core (m\<lparr>mo_meter := mt\<rparr>) = mo_core m" "mo_core (m\<lparr>mo_snapshot := st\<rparr>) = mo_core m" "mo_core (m\<lparr>mo_ticks := n\<rparr>) = mo_core m"
  "mo_core (m\<lparr>mo_t := t\<rparr>) = mo_core m" "mo_core (m\<lparr>mo_gpu_result := gr\<rparr>) = mo_core m" "mo_core (m\<lparr>sb_last_change := lc\<rparr>) = mo_core m"
  by (simp_all add: mo_core_def)

lemma in_sync_mins: "ms_fan_min s' = ms_fan_min s \<Longrightarrow> in_sync mock_fan_io c s' = in_sync mock_fan_io c s"
  by (simp add: in_sync_def mock_read_min)

lemma sim_same_inv:
  assumes "mo_inv m" "sim_same (mo_sim m) s"
  shows "mo_inv (m\<lparr>mo_sim := s\<rparr>)"
  using assms in_sync_mins [of s "mo_sim m"] by (simp add: mo_inv_def lims_ok_def sim_same_def sim_lims_def)

lemma mo_sampler_inv: "mo_inv m \<Longrightarrow> sampler_ok sm \<Longrightarrow> mo_inv (m\<lparr>mo_sampler := sm\<rparr>)"
  by (simp add: mo_inv_def)

lemma with_fan_inv:
  assumes "mo_inv m" "in_sync mock_fan_io (fst (f (mo_fan m, mo_sim m, []))) (fst (snd (f (mo_fan m, mo_sim m, []))))"
    "same_but_floors (mo_sim m) (fst (snd (f (mo_fan m, mo_sim m, []))))"
  shows "mo_inv (with_mock_fan f m)"
proof -
  obtain c s ev where f: "f (mo_fan m, mo_sim m, []) = (c, s, ev)" by (metis surj_pair)
  have "mo_inv (m\<lparr>mo_fan := c, mo_sim := s\<rparr>)"
    using assms by (auto simp: f mo_inv_def lims_ok_def same_but_floors_def)
  then show ?thesis by (simp add: with_mock_fan_def f mo_inv_core [OF emits_core])
qed

lemma in_sync_start: "mo_inv m \<Longrightarrow> in_sync mock_fan_io (fst (mo_fan m, mo_sim m, ev)) (fst (snd (mo_fan m, mo_sim m, ev)))"
  by (simp add: mo_inv_def)

lemma fan_tick_inv: "mo_inv m \<Longrightarrow> mo_inv (with_mock_fan (fan_tick mock_fan_io c now t p fc) m)"
  using mock_fans.fan_tick_sync [OF in_sync_start] mock_floor.tick_keeps [of "mo_sim m" "(mo_fan m, mo_sim m, [])"]
  by (intro with_fan_inv) (simp_all add: same_but_floors_refl)

lemma fan_config_inv: "mo_inv m \<Longrightarrow> mo_inv (with_mock_fan (fan_on_config mock_fan_io c fc) m)"
  using mock_fans.on_config_sync [OF in_sync_start] mock_floor.on_config_keeps [of "mo_sim m" "(mo_fan m, mo_sim m, [])"]
  by (intro with_fan_inv) (simp_all add: same_but_floors_refl)

lemma fan_start_inv: "mo_inv m \<Longrightarrow> mo_inv (with_mock_fan (fan_start mock_fan_io c fc) m)"
  using mock_fans.start_sync [OF in_sync_start] mock_floor.start_keeps [of "mo_sim m" "(mo_fan m, mo_sim m, [])"]
  by (intro with_fan_inv) (simp_all add: same_but_floors_refl)

lemma action_inv:
  assumes "mo_inv m"
  shows "mo_inv (mock_action a m)"
proof (cases a)
  case (Event ty kw)
  then show ?thesis using assms by (simp add: mock_action_def mo_inv_core [OF emit_core])
next
  case (SetLimits p q why)
  obtain x y where c: "clamp_limits p q HARD_MAX_W (PDict FIRMWARE) = (x, y)" by (metis surj_pair)
  let ?m = "m\<lparr>mo_sim := (mo_sim m)\<lparr>ms_pl1 := x, ms_pl2 := y\<rparr>\<rparr>"
  have "mo_inv ?m" using assms clamp_45 [OF c] in_sync_mins [of "(mo_sim m)\<lparr>ms_pl1 := x, ms_pl2 := y\<rparr>" "mo_sim m"]
    by (simp add: mo_inv_def lims_ok_def)
  moreover have "mo_core (mock_action a m) = mo_core ?m"
    unfolding SetLimits mock_action_def action.case c prod.case Let_def emit_core by (simp add: mo_core_def)
  ultimately show ?thesis using mo_inv_core by blast
qed

lemma actions_inv: "mo_inv m \<Longrightarrow> mo_inv (fold mock_action as m)"
  by (induction "as" arbitrary: m) (simp_all add: action_inv)

lemma govern_inv: "mo_inv m \<Longrightarrow> mo_inv (mock_govern gc now m)"
proof -
  assume m: "mo_inv m"
  obtain gs acts where g: "gov_step (mo_gov m) ((gov_input now (mo_sampler m))\<lparr>m_readback := mo_readback m\<rparr>) gc now = (gs, acts)" by (metis surj_pair)
  have "mo_inv (m\<lparr>mo_readback := None, mo_gov := gs\<rparr>)" using m by (simp add: mo_inv_def)
  then show ?thesis by (simp add: mock_govern_def g actions_inv)
qed

lemma sense_inv: "mo_inv m \<Longrightarrow> mo_inv (mock_sense g cpu slow_now now m)"
proof -
  assume m: "mo_inv m"
  define wall where "wall = mock_wall m"
  define m1 where "m1 = m\<lparr>mo_sampler := fast_step (sim_power (mo_sim m)) (sim_read_many (if slow_now then FULL_SMC_KEYS else FAST_SMC_KEYS) (mo_sim m))
      now wall slow_now (mo_sampler m)\<rparr>"
  have 1: "mo_inv m1" unfolding m1_def using m fast_step_ok by (intro mo_sampler_inv) (simp_all add: mo_inv_def)
  obtain r s where r: "mock_slow_reads g cpu (mo_gpu_busy m) (mo_sim m) = (r, s)" by (metis surj_pair)
  let ?sm = "slow r now wall (mo_sampler m1)"
  let ?sm' = "?sm\<lparr>sm_slow_data := dset ''fans'' (sim_fan_rows s) (dset ''smc_temps'' (PDict (sim_smc_temps s)) (sm_slow_data ?sm))\<rparr>"
  have "sampler_ok ?sm" using sampler_run.step_keeps [of "mo_sampler m1" "SlowE r now wall"] 1 by (simp add: mo_inv_def)
  then have ok: "sampler_ok ?sm'" by (simp add: sampler_ok_def)
  have "sim_same (mo_sim m1) s" using slow_reads_same [of "mo_sim m" g cpu "mo_gpu_busy m"] r by (simp add: m1_def)
  from mo_sampler_inv [OF sim_same_inv [OF 1 this] ok] have "mo_inv (m1\<lparr>mo_sim := s, mo_sampler := ?sm'\<rparr>)" by simp
  moreover have "mock_sense g cpu slow_now now m = (if \<not> slow_now then m1 else m1\<lparr>mo_sim := s, mo_sampler := ?sm'\<rparr>)"
  proof -
    have b: "mo_gpu_busy m1 = mo_gpu_busy m" by (simp add: m1_def)
    show ?thesis unfolding mock_sense_def Let_def wall_def [symmetric] m1_def [symmetric] b r prod.case by (rule refl)
  qed
  ultimately show ?thesis using 1 by simp
qed

lemma log_inv: "mo_inv m \<Longrightarrow> mo_inv (mock_log gc fc now m)"
proof -
  assume m: "mo_inv m"
  define der where "der = derived_of now (g_ceiling_w gc) (mo_sampler m)"
  define m1 where "m1 = with_mock_fan (fan_tick mock_fan_io (mock_wall m) now (pkg_c_of (cpu_of (sm_slow_data (mo_sampler m)))) (onum (d_pkg_median_1s der)) fc) m"
  have 1: "mo_inv m1" unfolding m1_def using fan_tick_inv [OF m] .
  define mt where "mt = PDict [(''cpu_pct'', pnum (if fst (burst (mo_sim m1)) then fl (16/10) else fl (11/10))), (''rss_mib'', pnum (fl (386/10)))]"
  define m2 where "m2 = m1\<lparr>mo_meter := Some mt\<rparr>"
  have 2: "mo_inv m2" using 1 mo_inv_core [of m2 m1] by (simp add: m2_def)
  have "sampler_ok (snd (aggregate now w c gv f d t (mo_sampler m2)))" for w c gv f d t
    using sampler_run.step_keeps [of "mo_sampler m2" "AggregateE now w c gv f d t"] 2 by (simp add: mo_inv_def)
  from mo_sampler_inv [OF 2 this] show ?thesis
    unfolding mock_log_def Let_def der_def [symmetric] m1_def [symmetric] mt_def [symmetric] m2_def [symmetric] .
qed

lemma step_inv: "mo_inv m \<Longrightarrow> mo_inv (m\<lparr>mo_sim := sim_step g dt cpu (mo_sim m)\<rparr>)"
  using sim_step_lims [of g dt cpu "mo_sim m"] in_sync_mins [of "sim_step g dt cpu (mo_sim m)" "mo_sim m"]
  by (auto simp: mo_inv_def lims_ok_def sim_lims_def)

lemma mock_tick_inv:
  assumes "mo_inv m"
  shows "\<exists>m'. mock_tick g m = Inr m' \<and> mo_inv m'"
proof -
  have wf: "cfg_wf (sb_config m)" using assms by (simp add: mo_inv_def)
  obtain cpu gc fc where c: "cfg_section (sb_config m) ''cpu'' = Inr cpu" "gov_cfg_of (sb_config m) = Inr gc" "fan_cfg_of (sb_config m) = Inr fc"
    using cpu_section_wf [OF wf] gov_cfg_of_wf [OF wf] fan_cfg_of_wf [OF wf] by blast
  define m1 where "m1 = m\<lparr>mo_t := fadd (mo_t m) DT\<rparr>"
  define now where "now = fadd (mo_mono0 m1) (mo_t m1)"
  define m2 where "m2 = m1\<lparr>mo_sim := sim_step g DT cpu (mo_sim m1)\<rparr>"
  define sl where "sl = (mo_ticks m2 mod 4 = 0)"
  define m3 where "m3 = mock_govern gc now (mock_sense g cpu sl now m2)"
  define m4 where "m4 = (if sl then mock_log gc fc now m3 else m3)"
  have "mo_inv m1" using assms mo_inv_core [of m1 m] by (simp add: m1_def)
  then have "mo_inv m2" unfolding m2_def by (rule step_inv)
  then have "mo_inv m3" unfolding m3_def by (intro govern_inv sense_inv)
  then have "mo_inv m4" by (simp add: m4_def log_inv)
  then have "mo_inv (m4\<lparr>mo_ticks := mo_ticks m4 + 1, mo_snapshot := None\<rparr>)" by (simp add: mo_inv_def)
  moreover have "mock_tick g m = Inr (m4\<lparr>mo_ticks := mo_ticks m4 + 1, mo_snapshot := None\<rparr>)"
    unfolding mock_tick_def c res_bind_simps Let_def m1_def [symmetric] now_def [symmetric] m2_def [symmetric] sl_def [symmetric] m3_def [symmetric]
      m4_def [symmetric] by (rule refl)
  ultimately show ?thesis by blast
qed

lemma ticks_inv: "mo_inv m \<Longrightarrow> \<exists>m'. mock_ticks g n m = Inr m' \<and> mo_inv m'"
proof (induction n arbitrary: m)
  case (Suc n)
  then obtain m1 where "mock_tick g m = Inr m1" "mo_inv m1" using mock_tick_inv by blast
  then show ?case using Suc.IH [of m1] by simp
qed simp

section \<open>Requests\<close>

lemma emit_config [simp]: "sb_config (mock_emit typ kw m) = sb_config m"
  by (simp add: sim_emit_def)

lemma emits_config [simp]: "sb_config (mock_emits evs m) = sb_config m"
  unfolding mock_emits_def by (induction evs arbitrary: m) (simp_all split: prod.split)

lemma with_mock_fan_config [simp]: "sb_config (with_mock_fan f m) = sb_config m"
  by (simp add: with_mock_fan_def split: prod.split)

definition cpu_note :: "(pyval \<Rightarrow> string) \<Rightarrow> string \<times> pyval \<Rightarrow> 'r mock \<Rightarrow> 'r mock" where
  "cpu_note pstr = (\<lambda>(k, v) m. if starts_with ''cpu.'' k \<and> v \<noteq> PNone then mock_emit ''cpu_setting'' [(''message'', PStr (k @ '' = '' @ pstr v))] m else m)"

lemma cpu_notes_core: "mo_core (fold (cpu_note pstr) acc m) = mo_core m \<and> sb_config (fold (cpu_note pstr) acc m) = sb_config m"
  by (induction acc arbitrary: m) (simp_all add: cpu_note_def split: prod.split)

definition fan_part :: "pyval dict \<Rightarrow> 'r mock \<Rightarrow> 'r mock" where
  "fan_part acc m = (if has_prefix ''fan.'' acc then
     (case fan_cfg_of (sb_config m) of Inr fc \<Rightarrow> with_mock_fan (fan_on_config mock_fan_io (mock_wall m) fc) m | Inl _ \<Rightarrow> m) else m)"

definition cap_part :: "pyval dict \<Rightarrow> 'r mock \<Rightarrow> 'r mock" where
  "cap_part acc m = (case dget acc ''gpu.cap_w'' of
     Some v \<Rightarrow> (case num_of v of Some x \<Rightarrow> m\<lparr>mo_sim := (mo_sim m)\<lparr>ms_gpu_cap := x\<rparr>\<rparr> | None \<Rightarrow> m) | None \<Rightarrow> m)"

lemma on_config_parts: "mock_on_config pstr acc m = fold (cpu_note pstr) acc (cap_part acc (fan_part acc m))"
  unfolding mock_on_config_def Let_def cpu_note_def cap_part_def fan_part_def by (rule refl)

lemma fan_part_inv: "mo_inv m \<Longrightarrow> mo_inv (fan_part acc m)"
  by (simp add: fan_part_def fan_config_inv split: sum.split)

lemma cap_part_inv: "mo_inv m \<Longrightarrow> mo_inv (cap_part acc m)"
  by (auto simp: cap_part_def sim_same_def sim_lims_def intro!: sim_same_inv split: option.split)

lemma on_config_inv: "mo_inv m \<Longrightarrow> mo_inv (mock_on_config pstr acc m)"
  unfolding on_config_parts using mo_inv_core [OF conjunct1 [OF cpu_notes_core]] cap_part_inv fan_part_inv by blast

lemma mock_on_config_config: "sb_config (mock_on_config pstr acc m) = sb_config m"
proof -
  have "sb_config (cap_part acc m) = sb_config m" "sb_config (fan_part acc m) = sb_config m" for m :: "'a mock"
    by (simp_all add: cap_part_def fan_part_def split: option.split sum.split)
  then show ?thesis unfolding on_config_parts by (simp add: conjunct2 [OF cpu_notes_core])
qed

lemma begin_cases:
  assumes "mock_gpu_begin v m = (r, m')"
  obtains (refused) msg where "r = Inl (BackendError msg)" "m' = m"
  | (begun) x where "r = Inr ()" "v = PStr x" "x \<in> {''auto'', ''low'', ''off''}" "mo_gpu_busy m = False"
      "mo_core m' = mo_core (m\<lparr>mo_gpu_busy := True, mo_change := Some (x, ms_gpu_mode (mo_sim m) = ''off'')\<rparr>)"
proof (cases "\<exists>x. v = PStr x \<and> x \<in> {''auto'', ''low'', ''off''} \<and> \<not> mo_gpu_busy m")
  case True
  then obtain x where x: "v = PStr x" "x \<in> {''auto'', ''low'', ''off''}" "\<not> mo_gpu_busy m" by blast
  then have "r = Inr ()" "m' = mock_emit ''gpu_mode_request'' [(''mode'', v)] (m\<lparr>mo_gpu_busy := True, mo_change := Some (x, ms_gpu_mode (mo_sim m) = ''off'')\<rparr>)"
    using assms unfolding mock_gpu_begin_def x(1) by (simp_all only: pyval.case if_not_P not_not prod.inject simp_thms if_False split: if_splits)
  then show thesis using x begun [of x] by simp
next
  case False
  then have "m' = m \<and> (\<exists>msg. r = Inl (BackendError msg))" using assms by (auto simp: mock_gpu_begin_def split: pyval.splits if_splits)
  then show thesis using refused by blast
qed

lemma finish_done:
  assumes "cfg_wf (sb_config m)" "mo_change m = Some (x, w)" "x \<in> {''auto'', ''low'', ''off''}"
  obtains res m' where "mock_gpu_finish m = (Inr res, m')" "py_get res ''mode'' = PStr x"
    "apply_updates (sb_config m) [(''gpu.mode'', PStr x)] = Inr (sb_config m')"
    "mo_core m' = mo_core (m\<lparr>sb_config := sb_config m', mo_sim := (mo_sim m)\<lparr>ms_gpu_mode := x\<rparr>, mo_gpu_busy := False, mo_change := None\<rparr>)"
proof -
  obtain y c where g: "gpu_section (sb_config m) = Inr (y, c)" using gpu_section_wf [OF assms(1)] by blast
  obtain cfg where a: "apply_updates (sb_config m) [(''gpu.mode'', PStr x)] = Inr cfg" using set_mode_wf [OF assms(1,3)] by blast
  define res where "res = [(''ok'', PBool True), (''mode'', PStr x), (''reason'', PStr (if x = ''off'' then ''dGPU off (switcheroo DIS Off)'' else x @ '' applied'')),
      (''steps'', PList (map PStr (gpu_steps (if x = ''low'' then 10 else c) x w))), (''persisted'', PBool True)]"
  define m1 where "m1 = m\<lparr>mo_sim := (mo_sim m)\<lparr>ms_gpu_mode := x\<rparr>\<rparr>"
  define m2 where "m2 = (mock_emit ''gpu_mode'' ((''requested'', PStr x) # res)
      (m1\<lparr>sb_config := cfg, mo_gpu_result := PDict res, mo_gpu_busy := False, mo_change := None, sb_last_change := Some (mock_wall m1)\<rparr>))\<lparr>mo_snapshot := None\<rparr>"
  have cf: "sb_config m1 = sb_config m" by (simp add: m1_def)
  have "mock_gpu_finish m = (Inr res, m2)"
    unfolding mock_gpu_finish_def assms(2) option.case prod.case g sum.case Let_def m1_def [symmetric] cf a res_def [symmetric] m2_def by (rule refl)
  moreover have "py_get res ''mode'' = PStr x" by (simp add: res_def py_get_def)
  moreover have "sb_config m2 = cfg" "mo_core m2 = mo_core (m\<lparr>sb_config := cfg, mo_sim := (mo_sim m)\<lparr>ms_gpu_mode := x\<rparr>, mo_gpu_busy := False, mo_change := None\<rparr>)"
    by (simp_all add: m2_def m1_def sim_emit_def mo_core_def)
  ultimately show thesis using that a by simp
qed

lemma mock_gpu_set_cases:
  assumes "cfg_wf (sb_config m)" "mock_gpu_set v m = (r, m')"
  obtains (refused) msg where "r = Inl (BackendError msg)" "m' = m"
  | (set) x res where "r = Inr res" "v = PStr x" "x \<in> {''auto'', ''low'', ''off''}" "py_get res ''mode'' = v"
      "apply_updates (sb_config m) [(''gpu.mode'', v)] = Inr (sb_config m')"
      "mo_core m' = mo_core (m\<lparr>sb_config := sb_config m', mo_sim := (mo_sim m)\<lparr>ms_gpu_mode := x\<rparr>, mo_gpu_busy := False, mo_change := None\<rparr>)"
proof -
  obtain b m1 where b: "mock_gpu_begin v m = (b, m1)" by (metis surj_pair)
  from b show thesis
  proof (cases rule: begin_cases)
    case (refused msg)
    then show ?thesis using assms(2) that(1) [of msg] by (auto simp: mock_gpu_set_def b)
  next
    case (begun x)
    have c: "sb_config m1 = sb_config m" "mo_change m1 = Some (x, ms_gpu_mode (mo_sim m) = ''off'')" "mo_sim m1 = mo_sim m"
      "mo_sampler m1 = mo_sampler m" "mo_fan m1 = mo_fan m" using begun(5) by (simp_all add: mo_core_def)
    have wf: "cfg_wf (sb_config m1)" using assms(1) c(1) by simp
    from finish_done [OF wf c(2) begun(3)] obtain res m2 where f: "mock_gpu_finish m1 = (Inr res, m2)" "py_get res ''mode'' = PStr x"
        "apply_updates (sb_config m1) [(''gpu.mode'', PStr x)] = Inr (sb_config m2)"
        "mo_core m2 = mo_core (m1\<lparr>sb_config := sb_config m2, mo_sim := (mo_sim m1)\<lparr>ms_gpu_mode := x\<rparr>, mo_gpu_busy := False, mo_change := None\<rparr>)" .
    have "r = Inr res" "m' = m2" using assms(2) by (simp_all add: mock_gpu_set_def b begun(1) f(1))
    then show ?thesis using that(2) [of res x] begun(2,3) f c by (simp add: mo_core_def)
  qed
qed

lemma gpu_set_inv:
  assumes "mo_inv m" "mock_gpu_set v m = (r, m')"
  shows "mo_inv m'"
proof -
  have wf: "cfg_wf (sb_config m)" using assms(1) by (simp add: mo_inv_def)
  from wf assms(2) show ?thesis
  proof (cases rule: mock_gpu_set_cases)
    case (set x res)
    have "cfg_wf (sb_config m')" using set_mode_wf [OF wf set(3)] set(2,5) by (metis Inr_inject)
    then have "mo_inv (m\<lparr>sb_config := sb_config m', mo_sim := (mo_sim m)\<lparr>ms_gpu_mode := x\<rparr>, mo_gpu_busy := False, mo_change := None\<rparr>)"
      using assms(1) in_sync_mins [of "(mo_sim m)\<lparr>ms_gpu_mode := x\<rparr>" "mo_sim m"] by (simp add: mo_inv_def lims_ok_def change_ok_def)
    then show ?thesis using mo_inv_core [OF set(6)] by simp
  qed (use assms(1) in simp)
qed

interpretation mock: sim_hooks mock_wall "mock_on_config pstr" mock_gpu_set for pstr
proof
  fix s s' :: "'a mock" and v res e
  show "sb_config (mock_on_config pstr acc s) = sb_config s" for acc by (rule mock_on_config_config)
  assume wf: "cfg_wf (sb_config s)"
  show "mock_gpu_set v s = (Inr res, s') \<Longrightarrow>
      \<exists>m. v = PStr m \<and> m \<in> {''auto'', ''low'', ''off''} \<and> py_get res ''mode'' = v \<and> apply_updates (sb_config s) [(''gpu.mode'', v)] = Inr (sb_config s')"
    by (erule mock_gpu_set_cases [OF wf]) simp_all
  show "mock_gpu_set v s = (Inl e, s') \<Longrightarrow> (\<exists>m. e = BackendError m) \<and> sb_config s' = sb_config s"
    by (erule mock_gpu_set_cases [OF wf]) simp_all
qed

text \<open>The simulated machine answers a configuration request like the daemon, as the replay does.\<close>

lemma mock_answers_like_daemon:
  assumes "cfg_wf (dm_config d)" "sb_config m = dm_config d" "\<not> dhas updates ''gpu.mode''" "set_config env updates d = (Inr out, d')"
  shows "\<exists>out' m'. mock_config_set (dv_digest env) pstr updates m = (Inr out', m') \<and> sb_config m' = dm_config d' \<and>
    map fst out' = map fst out \<and> py_get out' ''accepted'' = py_get out ''accepted'' \<and> py_get out' ''rejected'' = py_get out ''rejected''"
  using mock.config_set_refines [OF assms(1-3) _ assms(4), of "mock_class (dv_digest env)" pstr]
  by (auto simp: mock_config_set_def mock_class_def)

section \<open>Runs of the backend\<close>

lemma store_inv:
  assumes "mo_inv m"
  shows "mo_inv (snd (sim_store cl mock_wall (mock_on_config pstr) updates m))"
proof (cases "validate updates (sb_config m)")
  case (Inl e)
  then show ?thesis using assms by (simp add: sim_store_def)
next
  case (Inr ar)
  obtain acc rej where ar: "ar = (acc, rej)" by (cases ar)
  have wf: "cfg_wf (sb_config m)" using assms by (simp add: mo_inv_def)
  obtain cfg where c: "apply_updates (sb_config m) acc = Inr cfg" "cfg_wf cfg" using validate_apply [OF wf Inr [unfolded ar]] by blast
  define m1 where "m1 = m\<lparr>sb_config := cfg\<rparr>"
  define m2 where "m2 = m1\<lparr>sb_last_change := Some (mock_wall m1)\<rparr>"
  define m3 where "m3 = mock_emit ''config_change'' [(''accepted'', PDict acc), (''rejected'', str_vals rej), (''persisted'', PBool (cl_persisted cl))] m2"
  have "mo_inv m1" using assms c(2) by (simp add: mo_inv_def m1_def)
  then have "mo_inv m3" using mo_inv_core [of m3 m1] by (simp add: m3_def m2_def)
  then have "mo_inv (mock_on_config pstr acc m3)" by (rule on_config_inv)
  moreover have "snd (sim_store cl mock_wall (mock_on_config pstr) updates m) = (if acc = [] then m else mock_on_config pstr acc m3)"
    unfolding sim_store_def Inr ar sum.case prod.case c(1) Let_def m1_def [symmetric] m2_def [symmetric] m3_def [symmetric] by simp
  ultimately show ?thesis using assms by simp
qed

lemma config_set_inv:
  assumes "mo_inv m"
  shows "mo_inv (snd (mock_config_set digest pstr updates m))"
proof -
  obtain r m1 where st: "sim_store (mock_class digest) mock_wall (mock_on_config pstr) (dpop ''gpu.mode'' updates) m = (r, m1)" by (metis surj_pair)
  then have 1: "mo_inv m1" using store_inv [OF assms, of "mock_class digest" pstr "dpop ''gpu.mode'' updates"] by simp
  obtain g m2 where gs: "mock_gpu_set (py_get updates ''gpu.mode'') m1 = (g, m2)" by (metis surj_pair)
  have 2: "mo_inv m2" using gpu_set_inv [OF 1 gs] .
  have "snd (mock_config_set digest pstr updates m) \<in> {m1, m2}"
    by (simp add: mock_config_set_def sim_config_set_def st gs Let_def split: sum.split py_exn.split)
  then show ?thesis using 1 2 by auto
qed

lemma begin_inv:
  assumes "mo_inv m"
  shows "mo_inv (snd (mock_gpu_begin v m))"
proof -
  obtain r m' where b: "mock_gpu_begin v m = (r, m')" by (metis surj_pair)
  from b show ?thesis
  proof (cases rule: begin_cases)
    case (begun x)
    have "mo_inv (m\<lparr>mo_gpu_busy := True, mo_change := Some (x, ms_gpu_mode (mo_sim m) = ''off'')\<rparr>)"
      using assms begun(3) by (simp add: mo_inv_def change_ok_def)
    then show ?thesis using mo_inv_core [OF begun(5)] b by simp
  qed (use assms b in simp)
qed

lemma finish_inv:
  assumes "mo_inv m"
  shows "mo_inv (snd (mock_gpu_finish m))"
proof (cases "mo_change m")
  case None
  then show ?thesis using assms by (simp add: mock_gpu_finish_def)
next
  case (Some xw)
  obtain x w where xw: "xw = (x, w)" by (cases xw)
  have wf: "cfg_wf (sb_config m)" and x: "x \<in> {''auto'', ''low'', ''off''}" using assms Some xw by (simp_all add: mo_inv_def change_ok_def)
  from finish_done [OF wf Some [unfolded xw] x] obtain res m' where f: "mock_gpu_finish m = (Inr res, m')"
      "apply_updates (sb_config m) [(''gpu.mode'', PStr x)] = Inr (sb_config m')"
      "mo_core m' = mo_core (m\<lparr>sb_config := sb_config m', mo_sim := (mo_sim m)\<lparr>ms_gpu_mode := x\<rparr>, mo_gpu_busy := False, mo_change := None\<rparr>)" .
  have "cfg_wf (sb_config m')" using set_mode_wf [OF wf x] f(2) by (metis Inr_inject)
  then have "mo_inv (m\<lparr>sb_config := sb_config m', mo_sim := (mo_sim m)\<lparr>ms_gpu_mode := x\<rparr>, mo_gpu_busy := False, mo_change := None\<rparr>)"
    using assms in_sync_mins [of "(mo_sim m)\<lparr>ms_gpu_mode := x\<rparr>" "mo_sim m"] by (simp add: mo_inv_def lims_ok_def change_ok_def)
  then show ?thesis using mo_inv_core [OF f(3)] f(1) by simp
qed

text \<open>
  What may happen to the backend, in any order: a tick, a configuration request (with a whole GPU change
  in it), the two ends of a GPU change, and a status.
\<close>

datatype mock_op = MTick | MConfigSet "pyval dict" | MGpuBegin pyval | MGpuFinish | MStatus denv dstate

definition mock_step :: "'r rng \<Rightarrow> (pyval dict \<Rightarrow> string) \<Rightarrow> (pyval \<Rightarrow> string) \<Rightarrow> 'r mock \<Rightarrow> mock_op \<Rightarrow> 'r mock" where
  "mock_step g digest pstr m op =
    (case op of
       MTick \<Rightarrow> (case mock_tick g m of Inr m' \<Rightarrow> m' | Inl _ \<Rightarrow> m)
     | MConfigSet updates \<Rightarrow> snd (mock_config_set digest pstr updates m)
     | MGpuBegin v \<Rightarrow> snd (mock_gpu_begin v m)
     | MGpuFinish \<Rightarrow> snd (mock_gpu_finish m)
     | MStatus env blank \<Rightarrow> snd (mock_status env blank m))"

lemma mock_step_inv: "mo_inv m \<Longrightarrow> mo_inv (mock_step g digest pstr m op)"
proof (cases op)
  case MTick
  assume "mo_inv m"
  from mock_tick_inv [OF this, of g] show ?thesis by (auto simp: MTick mock_step_def)
next
  case (MStatus env blank)
  assume m: "mo_inv m"
  have "mo_core (snd (mock_status env blank m)) = mo_core m" by (simp add: mock_status_def Let_def split: option.split sum.split)
  from mo_inv_core [OF this] m show ?thesis by (simp add: MStatus mock_step_def)
qed (simp_all add: mock_step_def config_set_inv begin_inv finish_inv)

interpretation mock_run: step_machine "mock_step g digest pstr" mo_inv "\<lambda>_. True" for g digest pstr
  by unfold_locales (rule mock_step_inv)

section \<open>The start\<close>

lemma found_fan_sync: "in_sync io c s \<Longrightarrow> in_sync io (found_fan io s n c) s"
  by (auto simp: in_sync_def found_fan_def READBACK_TOL_RPM_def)

lemma discover_sync:
  assumes "in_sync io c s" "discover io s defs dfs c = (c', ev, dfs')"
  shows "in_sync io c' s"
proof -
  have "in_sync io (fold (found_fan io s) ns c) s" for ns
    using assms(1) by (induction ns arbitrary: c) (simp_all add: found_fan_sync)
  then show ?thesis using assms(2) by (auto simp: discover_def in_sync_def Let_def split: if_splits prod.splits)
qed

lemma mock_new_inv: "mo_inv (mock_new r wall0)"
proof -
  have "mins_ok (map (\<lambda>(_, lo, _). lo) FANS)" by (simp add: mins_ok_iff FANS_def)
  moreover have "sampler_ok ((sampler_init None SMC_SLOW_EVERY_S)\<lparr>sm_extra := EXTRA_SMC_KEYS\<rparr>)"
    using sampler_init_ok [of None SMC_SLOW_EVERY_S] by (simp add: sampler_ok_def)
  ultimately show ?thesis
    by (simp add: mo_inv_def mock_new_def lims_ok_def msim_init_def HARD_MAX_W_def in_sync_def fan_ctl0_def change_ok_def defaults_def DEFAULTS_wf)
qed

lemma advance_inv: "mo_inv m \<Longrightarrow> \<exists>m'. mock_advance g t m = Inr m' \<and> mo_inv m'"
  unfolding mock_advance_def by (rule ticks_inv)

lemma mock_init_inv:
  "(mock_init g digest pstr r wall0 check started updates warmup = Inr m \<longrightarrow> mo_inv m) \<and>
   (updates = [] \<longrightarrow> (\<exists>m. mock_init g digest pstr r wall0 check started updates warmup = Inr m))"
proof -
  define m1 where "m1 = mock_emit ''boot_check'' check (mock_new r wall0)"
  have 1: "mo_inv m1" by (simp add: m1_def mo_inv_core [OF emit_core] mock_new_inv)
  obtain c ev dfs where f: "fan_init mock_fan_io (mo_sim m1) (load_or_capture (\<lambda>_. None) (\<lambda>_. []) None [] None False Map.empty) Map.empty = (c, ev, dfs)"
    by (metis surj_pair)
  have "in_sync mock_fan_io fan_ctl0 (mo_sim m1)" by (simp add: in_sync_def fan_ctl0_def)
  from discover_sync [OF this f [unfolded fan_init_def]] have "mo_inv (m1\<lparr>mo_fan := c\<rparr>)" using 1 by (simp add: mo_inv_def)
  moreover define m2 where "m2 = mock_emits ev (m1\<lparr>mo_fan := c\<rparr>)"
  ultimately have 2: "mo_inv m2" by (simp add: mo_inv_core [OF emits_core])
  then obtain fc where fc: "fan_cfg_of (sb_config m2) = Inr fc" using fan_cfg_of_wf by (auto simp: mo_inv_def)
  define m3 where "m3 = mock_emit ''started'' started (with_mock_fan (fan_start mock_fan_io (mock_wall m2) fc) m2)"
  define m4 where "m4 = mock_emit ''gpu_mode'' ([(''requested'', PStr ''auto''), (''attempt'', PInt 0)] @ mock_gpu_result0) (m3\<lparr>mo_gpu_result := PDict mock_gpu_result0\<rparr>)"
  have "mo_inv (with_mock_fan (fan_start mock_fan_io (mock_wall m2) fc) m2)" using fan_start_inv [OF 2] .
  then have 3: "mo_inv m3" by (simp add: m3_def mo_inv_core [OF emit_core])
  have "mo_core m4 = mo_core m3" unfolding m4_def emit_core by simp
  then have 4: "mo_inv m4" using mo_inv_core 3 by blast
  have i: "mock_init g digest pstr r wall0 check started updates warmup =
      res_bind (if updates = [] then Inr m4 else case mock_config_set digest pstr updates m4 of (Inl e, _) \<Rightarrow> Inl e | (Inr _, m) \<Rightarrow> Inr m) (mock_advance g warmup)"
    unfolding mock_init_def Let_def m1_def [symmetric] f prod.case m2_def [symmetric] fc res_bind_simps m3_def [symmetric] m4_def [symmetric] by (rule refl)
  obtain rr m5 where s: "mock_config_set digest pstr updates m4 = (rr, m5)" by (metis surj_pair)
  have 5: "mo_inv m5" using config_set_inv [OF 4, of digest pstr updates] s by simp
  show ?thesis unfolding i s using advance_inv [OF 4, of g warmup] advance_inv [OF 5, of g warmup]
    by (cases rr) (auto simp: res_bind_Inr)
qed

text \<open>
  C36: the simulated machine stays in its bounds under every interleaving of ticks, configuration requests,
  GPU changes and statuses, whatever numbers the generator draws: both limits and the package power are
  at most 45 W, every fan floor is within its fan's range and is what the controller believes in force
  within 50 rpm, the configuration is well formed, and the next tick succeeds.
\<close>

theorem mock_run_bounded:
  assumes "mock_init g digest pstr r wall0 check started updates warmup = Inr m0" "run_steps (mock_step g digest pstr) m0 ops = m"
  shows "ms_pl1 (mo_sim m) \<le> 45 \<and> ms_pl2 (mo_sim m) \<le> 45 \<and> ms_pkg (mo_sim m) \<le> 45 \<and>
    (\<exists>a b. ms_fan_min (mo_sim m) = [a, b] \<and> 2160 \<le> a \<and> a \<le> 5927 \<and> 2000 \<le> b \<and> b \<le> 5489) \<and>
    (written_of (mo_fan m) n = Some v \<longrightarrow> (\<exists>got. io_read_int mock_fan_io (mo_sim m) n ''min'' = Some got \<and> \<bar>got - v\<bar> \<le> 50)) \<and>
    cfg_wf (sb_config m) \<and> (\<exists>m'. mock_tick g m = Inr m')"
proof -
  have "mo_inv (run_steps (mock_step g digest pstr) m0 ops)"
    using mock_init_inv [of g digest pstr r wall0 check started updates warmup m0] assms(1) by (intro mock_run.run_keeps) (simp_all add: list_all_iff)
  then have i: "mo_inv m" using assms(2) by simp
  have w: "\<exists>got. io_read_int mock_fan_io (mo_sim m) n ''min'' = Some got \<and> \<bar>got - v\<bar> \<le> 50" if "written_of (mo_fan m) n = Some v"
  proof -
    have "dget (c_written (mo_fan m)) n = Some (Some v)" using that by (simp add: written_of_def split: option.splits)
    then show ?thesis using i by (simp add: mo_inv_def in_sync_def READBACK_TOL_RPM_def)
  qed
  from mock_tick_inv [OF i, of g] i w show ?thesis unfolding mo_inv_def lims_ok_def mins_ok_iff HARD_MAX_W_def by blast
qed

text \<open>A generator that always draws the mean or the middle.\<close>

definition demo_rng :: "unit rng" where
  "demo_rng = \<lparr>rg_gauss = (\<lambda>mu _ r. (mu, r)), rg_uniform = (\<lambda>lo hi r. ((lo + hi) / 2, r)), rg_choice = (\<lambda>xs r. (hd xs, r)), rg_exp = (\<lambda>_. 1 / 2)\<rparr>"

theorem mock_run_bounded_witness:
  "\<exists>m0 m. mock_init demo_rng (\<lambda>_. []) (\<lambda>_. []) () 0 [] [] [] 600 = Inr m0 \<and>
     run_steps (mock_step demo_rng (\<lambda>_. []) (\<lambda>_. [])) m0 [MTick, MGpuBegin (PStr ''off''), MTick, MGpuFinish] = m \<and>
     ms_pkg (mo_sim m) \<le> 45 \<and> (\<exists>m'. mock_tick demo_rng m = Inr m')"
proof -
  obtain m0 where m0: "mock_init demo_rng (\<lambda>_. []) (\<lambda>_. []) () 0 [] [] [] 600 = Inr m0"
    using conjunct2 [OF mock_init_inv [of demo_rng "\<lambda>_. []" "\<lambda>_. []" "()" 0 "[]" "[]" "[]" 600]] by (elim impE exE) (rule refl)
  let ?m = "run_steps (mock_step demo_rng (\<lambda>_. []) (\<lambda>_. [])) m0 [MTick, MGpuBegin (PStr ''off''), MTick, MGpuFinish]"
  have "ms_pkg (mo_sim ?m) \<le> 45" "\<exists>m'. mock_tick demo_rng ?m = Inr m'" by (use mock_run_bounded [OF m0 refl] in blast)+
  then show ?thesis using m0 by blast
qed

end
