(* ===== verification/Py_Format.thy ===== *)
theory Py_Format
  imports Py_Text
begin

text \<open>
  The number formats and paddings of the printed texts. Texts are UTF-8; \<open>ulen\<close> counts characters, as
  \<open>len\<close> of a Python text does.
\<close>

definition is_cont :: "char \<Rightarrow> bool" where
  "is_cont c = (let n = (of_char c :: nat) in 128 \<le> n \<and> n < 192)"

definition ulen :: "string \<Rightarrow> nat" where
  "ulen s = length (filter (\<lambda>c. \<not> is_cont c) s)"

text \<open>The first \<open>n\<close> characters.\<close>

fun utake :: "nat \<Rightarrow> string \<Rightarrow> string" where
  "utake n [] = []"
| "utake n (c # s) = (if is_cont c then c # utake n s else case n of 0 \<Rightarrow> [] | Suc m \<Rightarrow> c # utake m s)"

definition ljust :: "nat \<Rightarrow> string \<Rightarrow> string" where
  "ljust n s = s @ replicate (n - ulen s) (CHR '' '')"

definition rjust :: "nat \<Rightarrow> string \<Rightarrow> string" where
  "rjust n s = replicate (n - ulen s) (CHR '' '') @ s"

definition pad_zeros :: "nat \<Rightarrow> string \<Rightarrow> string" where
  "pad_zeros n s = replicate (n - length s) (CHR ''0'') @ s"

text \<open>\<open>:.nf\<close> of a finite number (the exact value rounded half to even).\<close>

definition fmt_fixed :: "nat \<Rightarrow> rat \<Rightarrow> string" where
  "fmt_fixed n x =
    (let m = round_even (\<bar>x\<bar> * 10 ^ n)
     in (if x < 0 then ''-'' else []) @ str_nat (m div 10 ^ n) @ (if n = 0 then [] else ''.'' @ pad_zeros n (str_nat (m mod 10 ^ n))))"

text \<open>\<open>str.upper\<close> of ASCII letters.\<close>

definition upper :: "string \<Rightarrow> string" where
  "upper s = map (\<lambda>c. if CHR ''a'' \<le> c \<and> c \<le> CHR ''z'' then char_of (of_char c - 32 :: nat) else c) s"

lemma ulen_append [simp]: "ulen (a @ b) = ulen a + ulen b"
  by (simp add: ulen_def)

lemma ulen_Nil [simp]: "ulen [] = 0"
  by (simp add: ulen_def)

lemma is_cont_space: "\<not> is_cont (CHR '' '')" "\<not> is_cont (CHR ''0'')"
  by (simp_all add: is_cont_def)

lemma ulen_spaces [simp]: "ulen (replicate n (CHR '' '')) = n"
  by (simp add: ulen_def is_cont_space filter_replicate)

lemma ulen_justs: "ulen (ljust n s) = max n (ulen s)" "ulen (rjust n s) = max n (ulen s)"
  by (simp_all add: ljust_def rjust_def max_def)

lemma ulen_utake: "ulen (utake n s) = min n (ulen s)"
  by (induction n s rule: utake.induct) (auto simp: ulen_def split: nat.split)

lemma fmt_fixed_examples:
  "fmt_fixed 1 (1 / 4) = ''0.2''" "fmt_fixed 2 (- 3 / 2) = ''-1.50''" "fmt_fixed 0 (5 / 2) = ''2''" "fmt_fixed 3 (1001 / 1000) = ''1.001''"
  by code_simp+

section \<open>Reading nested values\<close>

text \<open>\<open>d.get(k)\<close> on a value, \<open>d.get(k) or {}\<close>, and iteration.\<close>

definition fld :: "pyval \<Rightarrow> string \<Rightarrow> pyval res" where
  "fld v k = (case v of PDict d \<Rightarrow> Inr (py_get d k) | _ \<Rightarrow> Inl (AttributeError (''object has no attribute 'get'' @ [CHR 0x27])))"

definition sub_or :: "pyval dict \<Rightarrow> string \<Rightarrow> pyval" where
  "sub_or d k = (let v = py_get d k in if truthy v then v else PDict [])"

definition fld_or :: "pyval \<Rightarrow> string \<Rightarrow> pyval res" where
  "fld_or v k = res_bind (fld v k) (\<lambda>x. Inr (if truthy x then x else PDict []))"

definition items_of :: "pyval \<Rightarrow> pyval dict res" where
  "items_of v = (case v of PDict d \<Rightarrow> Inr d | _ \<Rightarrow> Inl (AttributeError (''object has no attribute 'items'' @ [CHR 0x27])))"

definition iter_of :: "pyval \<Rightarrow> pyval list res" where
  "iter_of v = (case v of PList l \<Rightarrow> Inr l | PStr s \<Rightarrow> Inr (map (\<lambda>c. PStr [c]) s) | PDict d \<Rightarrow> Inr (map (\<lambda>x. PStr (fst x)) d)
     | _ \<Rightarrow> Inl (TypeError ''object is not iterable''))"

text \<open>\<open>v[k]\<close> with a text key.\<close>

definition at_val :: "pyval \<Rightarrow> string \<Rightarrow> pyval res" where
  "at_val v k = (case v of PDict d \<Rightarrow> (case dget d k of Some x \<Rightarrow> Inr x | None \<Rightarrow> Inl (KeyError k)) | _ \<Rightarrow> Inl (TypeError ''not subscriptable with a text''))"

definition at_key :: "pyval dict \<Rightarrow> string \<Rightarrow> pyval res" where
  "at_key d k = (case dget d k of Some v \<Rightarrow> Inr v | None \<Rightarrow> Inl (KeyError k))"

section \<open>Pieces of text\<close>

fun cat :: "string res list \<Rightarrow> string res" where
  "cat [] = Inr []"
| "cat (x # xs) = res_bind x (\<lambda>s. res_bind (cat xs) (\<lambda>t. Inr (s @ t)))"

fun each :: "('a \<Rightarrow> 'b res) \<Rightarrow> 'a list \<Rightarrow> 'b list res" where
  "each f [] = Inr []"
| "each f (x # xs) = res_bind (f x) (\<lambda>y. res_bind (each f xs) (\<lambda>ys. Inr (y # ys)))"

lemma cat_ok: "is_ok (cat xs) = list_all is_ok xs"
proof (induction xs)
  case (Cons x xs)
  then show ?case by (cases x; cases "cat xs") simp_all
qed simp

declare cat.simps [simp del]

lemma each_ok: "is_ok (each f xs) = list_all (\<lambda>x. is_ok (f x)) xs"
proof (induction xs)
  case (Cons x xs)
  then show ?case by (cases "f x"; cases "each f xs") simp_all
qed simp

lemma is_ok_bind: "is_ok (res_bind r f) = (\<exists>x. r = Inr x \<and> is_ok (f x))"
  by (cases r) simp_all

lemma is_ok_ex: "is_ok r = (\<exists>x. r = Inr x)"
  by (cases r) simp_all

lemma fld_dict [simp]: "fld (PDict d) k = Inr (py_get d k)"
  by (simp add: fld_def)

lemma items_dict [simp]: "items_of (PDict d) = Inr d"
  by (simp add: items_of_def)

end
