(* ===== verification/Fmt.thy ===== *)
theory Fmt
  imports Py_Format Governor
begin

text \<open>
  \<open>tui/fmt.py\<close>: the formatting of the terminal UI. A \<open>Text\<close> of the drawing library is its pieces with
  their styles; the local time of day is the argument \<open>lt\<close>.
\<close>

definition DASH :: string where "DASH = [CHR 0xE2, CHR 0x80, CHR 0x93]"
definition GREEN :: string where "GREEN = ''#3fb950''"
definition AMBER :: string where "AMBER = ''#f0a020''"
definition RED :: string where "RED = ''#f85149''"
definition BLUE :: string where "BLUE = ''#58a6ff''"
definition MAGENTA :: string where "MAGENTA = ''#d070f0''"
definition GREY :: string where "GREY = ''#8b949e''"
definition CYAN :: string where "CYAN = ''#39c5cf''"
definition DIM :: string where "DIM = ''#6e7681''"
definition EMPTY :: string where "EMPTY = ''#262c36''"

definition STATE_STYLE :: "string dict" where
  "STATE_STYLE = [(''NORMAL'', ''bold #0b0e14 on #3fb950''), (''TRIM'', ''bold #0b0e14 on #f0a020''), (''EMERGENCY'', ''bold #ffffff on #d73a49''),
     (''FALLBACK'', ''bold #ffffff on #a040c0''), (''STATIC'', ''bold #ffffff on #1f6feb''), (''OFF'', ''bold #0b0e14 on #8b949e'')]"

text \<open>The nine bar glyphs from empty to full, and the background of a bar.\<close>

definition EIGHTHS :: "string list" where
  "EIGHTHS = '' '' # map (\<lambda>c. [CHR 0xE2, CHR 0x96, c]) [CHR 0x8F, CHR 0x8E, CHR 0x8D, CHR 0x8C, CHR 0x8B, CHR 0x8A, CHR 0x89, CHR 0x88]"
definition SHADE :: string where "SHADE = [CHR 0xE2, CHR 0x96, CHR 0x91]"
definition BLOCK :: string where "BLOCK = [CHR 0xE2, CHR 0x96, CHR 0x88]"

section \<open>Numbers and durations\<close>

definition isnum :: "pyval \<Rightarrow> bool" where
  "isnum v = (num_of v \<noteq> None)"

definition num :: "pyval \<Rightarrow> string \<Rightarrow> int \<Rightarrow> string \<Rightarrow> string" where
  "num v unit nd sep =
    (case num_of v of
       None \<Rightarrow> DASH
     | Some x \<Rightarrow> (let s = (if 0 \<le> nd then fmt_fixed (nat nd) (fl (py_round (nat nd) x)) else fmt_g (fl x)) in if unit = [] then s else s @ sep @ unit))"

definition watts :: "pyval \<Rightarrow> string" where
  "watts v = num v ''W'' 1 '' ''"

definition compact :: "pyval \<Rightarrow> string" where
  "compact v = num v ''W'' (- 1) '' ''"

definition hms :: "(rat \<Rightarrow> string) \<Rightarrow> pyval \<Rightarrow> string" where
  "hms lt ts = (case num_of ts of Some t \<Rightarrow> lt t | None \<Rightarrow> DASH)"

definition dur :: "pyval \<Rightarrow> string" where
  "dur v =
    (case num_of v of
       None \<Rightarrow> DASH
     | Some x \<Rightarrow>
         let s = trunc_rat (max 0 x) in
         if s < 60 then str_int s @ '' s''
         else if s < 3600 then str_int (s div 60) @ ''m'' @ pad2 (s mod 60) @ ''s''
         else if s < 86400 then str_int (s div 3600) @ ''h'' @ pad2 (s mod 3600 div 60) @ ''m''
         else str_int (s div 86400) @ ''d '' @ pad2 (s mod 86400 div 3600) @ '':'' @ pad2 (s mod 3600 div 60))"

section \<open>Styled text\<close>

type_synonym rich = "(string \<times> string) list"

definition plain_of :: "rich \<Rightarrow> string" where
  "plain_of t = concat (map fst t)"

definition styled :: "string \<Rightarrow> string \<Rightarrow> rich" where
  "styled s st = [(s, st)]"

definition badge :: "(pyval \<Rightarrow> string) \<Rightarrow> pyval \<Rightarrow> rich" where
  "badge pstr state =
    (let st = (if truthy state then pstr state else DASH)
     in styled ('' '' @ st @ '' '') (case dget STATE_STYLE st of Some x \<Rightarrow> x | None \<Rightarrow> ''bold reverse''))"

text \<open>\<open>a >= b\<close> of two values; a missing key and an operand that is no number raise.\<close>

definition ge_val :: "pyval \<Rightarrow> pyval \<Rightarrow> bool res" where
  "ge_val a b = (case (as_float a, as_float b) of (Some x, Some y) \<Rightarrow> Inr (pf_le y x)
     | _ \<Rightarrow> Inl (TypeError '''>=' not supported between these operands''))"

definition band_style :: "pyval \<Rightarrow> pyval dict \<Rightarrow> string res" where
  "band_style input_w th =
    (if \<not> isnum input_w \<or> th = [] then Inr GREY
     else res_bind (at_key th ''shed_w'') (\<lambda>s. res_bind (ge_val input_w s) (\<lambda>shed.
       if shed then Inr RED
       else res_bind (at_key th ''recover_w'') (\<lambda>r. res_bind (ge_val input_w r) (\<lambda>amber. Inr (if amber then AMBER else GREEN))))))"

definition bar :: "pyval \<Rightarrow> int \<Rightarrow> string \<Rightarrow> string \<Rightarrow> rich" where
  "bar fr width style bg =
    (if width \<le> 0 then []
     else
       let f = (case num_of fr of Some x \<Rightarrow> min 1 (max 0 x) | None \<Rightarrow> 0);
           cells = fmul f (of_int width);
           full = trunc_rat cells;
           part = nat (trunc_rat (fmul (fsub cells (of_int full)) 8))
       in (concat (replicate (nat full) BLOCK), style)
          # (if full < width then [(if part \<noteq> 0 then EIGHTHS ! part else SHADE, if part \<noteq> 0 then style else bg),
                                  (concat (replicate (nat (width - full - 1)) SHADE), bg)] else []))"

definition NOMINALS :: "int list" where
  "NOMINALS = [5, 9, 12, 15, 20]"

text \<open>\<open>min\<close> with a key: the first of the smallest.\<close>

definition closest :: "rat \<Rightarrow> int list \<Rightarrow> int" where
  "closest v ns = foldl (\<lambda>best n. if \<bar>fsub (of_int n) v\<bar> < \<bar>fsub (of_int best) v\<bar> then n else best) (hd ns) (tl ns)"

definition pd_contract :: "pyval \<Rightarrow> pyval \<Rightarrow> string" where
  "pd_contract acpw_w v =
    (case num_of acpw_w of
       None \<Rightarrow> DASH
     | Some p \<Rightarrow>
         if p \<le> 0 then DASH
         else let nominal = closest (case num_of v of Some x \<Rightarrow> x | None \<Rightarrow> 20) NOMINALS;
                  amps = fdiv (of_int (round_even (fmul (fdiv p (of_int nominal)) 4))) 4
              in str_int nominal @ '' V / '' @ fmt_g amps @ '' A class ('' @ fmt_g (fmul (of_int nominal) amps) @ '' W)'')"

definition kv :: "rich \<Rightarrow> string \<Rightarrow> string \<Rightarrow> string \<Rightarrow> string \<Rightarrow> rich" where
  "kv t label value_text style end_text = t @ (if label \<noteq> [] then [(label @ '' '', DIM)] else []) @ [(value_text, style), (end_text, [])]"

definition DOT_ON :: string where "DOT_ON = [CHR 0xE2, CHR 0x97, CHR 0x8F]"
definition DOT_OFF :: string where "DOT_OFF = [CHR 0xE2, CHR 0x97, CHR 0x8B]"

definition yes :: "pyval \<Rightarrow> string \<Rightarrow> string \<Rightarrow> rich" where
  "yes v on style =
    (if v = PNone then [(on @ '' '' @ DASH, DIM)] else if truthy v then [(on @ '' '' @ DOT_ON, style)] else [(on @ '' '' @ DOT_OFF, DIM)])"

definition temp_style :: "pyval \<Rightarrow> string" where
  "temp_style v = (case num_of v of None \<Rightarrow> DIM | Some x \<Rightarrow> if 90 \<le> x then RED else if 75 \<le> x then AMBER else if 0 < x then [] else DIM)"

definition busy_style :: "pyval \<Rightarrow> string" where
  "busy_style v = (case num_of v of None \<Rightarrow> DIM | Some x \<Rightarrow> if 90 \<le> x then RED else if 50 \<le> x then AMBER else GREEN)"

section \<open>Properties\<close>

lemma plain_of_append [simp]: "plain_of (a @ b) = plain_of a @ plain_of b"
  by (simp add: plain_of_def)

lemma plain_of_styled [simp]: "plain_of (styled s st) = s" "plain_of [] = []"
  by (simp_all add: plain_of_def styled_def)

lemma ulen_glyphs: "ulen BLOCK = 1" "ulen SHADE = 1" "ulen (concat (replicate n BLOCK)) = n" "ulen (concat (replicate n SHADE)) = n"
proof -
  show 1: "ulen BLOCK = 1" "ulen SHADE = 1" by code_simp+
  show "ulen (concat (replicate n BLOCK)) = n" "ulen (concat (replicate n SHADE)) = n" by (induction n) (simp_all add: 1)
qed

lemma ulen_eighths: "k < 9 \<Longrightarrow> ulen (EIGHTHS ! k) = 1"
proof -
  have "list_all (\<lambda>s. ulen s = 1) EIGHTHS" by code_simp
  moreover have "length EIGHTHS = 9" by (simp add: EIGHTHS_def)
  ultimately show "k < 9 \<Longrightarrow> ulen (EIGHTHS ! k) = 1" by (simp add: list_all_length)
qed

lemma trunc_rat_bounds: "0 \<le> x \<Longrightarrow> 0 \<le> trunc_rat x \<and> of_int (trunc_rat x) \<le> x \<and> x < of_int (trunc_rat x) + 1"
  using floor_correct [of x] by (auto simp: trunc_rat_def)

lemma bar_cells:
  assumes "0 \<le> f" "f \<le> 1" "0 < width" "width < 2 ^ 53"
  defines "cells \<equiv> fmul f (of_int width)"
  shows "0 \<le> trunc_rat cells \<and> trunc_rat cells \<le> width \<and> trunc_rat (fmul (fsub cells (of_int (trunc_rat cells))) 8) < 9"
proof -
  have w: "is_double (of_int width)" using assms(3,4) by (intro is_double_int) simp
  have c: "0 \<le> cells" "cells \<le> of_int width" unfolding cells_def using assms(1-3) by (auto intro!: fl_le [OF w] mult_left_le_one_le)
  note t = trunc_rat_bounds [OF c(1)]
  have "fsub cells (of_int (trunc_rat cells)) \<le> 1" using t by (intro fl_le) simp_all
  then have "fmul (fsub cells (of_int (trunc_rat cells))) 8 \<le> 8" by (intro fl_le) simp_all
  moreover have "0 \<le> fmul (fsub cells (of_int (trunc_rat cells))) 8" using t by simp
  ultimately have "trunc_rat (fmul (fsub cells (of_int (trunc_rat cells))) 8) < 9"
    using trunc_rat_bounds [of "fmul (fsub cells (of_int (trunc_rat cells))) 8"] by linarith
  moreover have "trunc_rat cells \<le> width" using t c(2) by linarith
  ultimately show ?thesis using t by simp
qed

lemma bar_width:
  assumes "width < 2 ^ 53"
  shows "int (ulen (plain_of (bar fr width style bg))) = max 0 width"
proof (cases "width \<le> 0")
  case False
  define f where "f = (case num_of fr of Some x \<Rightarrow> min 1 (max 0 x) | None \<Rightarrow> 0)"
  have f: "0 \<le> f" "f \<le> 1" by (auto simp: f_def split: option.split)
  from bar_cells [OF f, of width] False assms have b: "0 \<le> trunc_rat (fmul f (of_int width))" "trunc_rat (fmul f (of_int width)) \<le> width"
    "trunc_rat (fmul (fsub (fmul f (of_int width)) (of_int (trunc_rat (fmul f (of_int width))))) 8) < 9" by auto
  let ?p = "nat (trunc_rat (fmul (fsub (fmul f (of_int width)) (of_int (trunc_rat (fmul f (of_int width))))) 8))"
  have "?p < 9" using b(3) by simp
  then have "ulen (if ?p \<noteq> 0 then EIGHTHS ! ?p else SHADE) = 1" using ulen_eighths ulen_glyphs(2) by simp
  with False b(1,2) show ?thesis
    unfolding bar_def plain_of_def f_def [symmetric] Let_def by (simp add: ulen_glyphs)
qed (simp add: bar_def plain_of_def)

end
