(* ===== verification/Ctl.thy ===== *)
theory Ctl
  imports Fmt Daemon_Props
begin

text \<open>
  \<open>ctl.py\<close>: the command line client. A command is what the argument parser makes of the arguments; the
  replies of the daemon, JSON, \<open>str\<close> and \<open>repr\<close> of values and the local time of day are arguments. A printed
  text that raises while it is put together is an error value: \<open>cat\<close> joins pieces from left to right.
\<close>

section \<open>Formats\<close>

datatype numfmt = Fixed nat | General | Decimal

definition fmt_pf :: "(rat \<Rightarrow> string) \<Rightarrow> pyfloat \<Rightarrow> string" where
  "fmt_pf f x = (case x of Fin r \<Rightarrow> f r | PosInf \<Rightarrow> ''inf'' | NegInf \<Rightarrow> ''-inf'' | NaN \<Rightarrow> ''nan'')"

text \<open>\<open>_f\<close>: the format applies to numbers only; the format \<open>:d\<close> refuses a float.\<close>

definition f_num :: "numfmt \<Rightarrow> pyval \<Rightarrow> string res" where
  "f_num fm v =
    (case v of
       PInt n \<Rightarrow> Inr (case fm of Fixed k \<Rightarrow> fmt_fixed k (fl (of_int n)) | General \<Rightarrow> fmt_g (fl (of_int n)) | Decimal \<Rightarrow> str_int n)
     | PFloat x \<Rightarrow> (case fm of Fixed k \<Rightarrow> Inr (fmt_pf (fmt_fixed k) x) | General \<Rightarrow> Inr (fmt_pf fmt_g x)
         | Decimal \<Rightarrow> Inl (ValueError (''Unknown format code 'd' for object of type 'float'' @ [CHR 0x27])))
     | _ \<Rightarrow> Inr ''-'')"

text \<open>\<open>f"{v:g}"\<close> of any value.\<close>

definition g_any :: "pyval \<Rightarrow> string res" where
  "g_any v = (case as_float v of Some x \<Rightarrow> Inr (fmt_pf (\<lambda>r. fmt_g (fl r)) x)
     | None \<Rightarrow> (case v of PStr _ \<Rightarrow> Inl (ValueError (''Unknown format code 'g' for object of type 'str'' @ [CHR 0x27])) | _ \<Rightarrow> Inl (TypeError ''unsupported format string'')))"

text \<open>A value padded by \<open>just\<close>, as \<open>f"{v:<9}"\<close> pads it: a \<open>bool\<close> prints as a number, what is neither text nor number is refused.\<close>

definition padded :: "(string \<Rightarrow> string) \<Rightarrow> (pyval \<Rightarrow> string) \<Rightarrow> pyval \<Rightarrow> string res" where
  "padded just pstr v =
    (case v of PStr s \<Rightarrow> Inr (just s) | PInt n \<Rightarrow> Inr (just (str_int n)) | PBool b \<Rightarrow> Inr (just (if b then ''1'' else ''0''))
     | PFloat _ \<Rightarrow> Inr (just (pstr v)) | _ \<Rightarrow> Inl (TypeError ''unsupported format string''))"

definition ctl_hms :: "(rat \<Rightarrow> string) \<Rightarrow> pyval \<Rightarrow> string res" where
  "ctl_hms lt ts = (case as_float ts of None \<Rightarrow> Inr ''-'' | Some (Fin t) \<Rightarrow> Inr (lt t) | Some NaN \<Rightarrow> Inl (ValueError ''cannot convert float NaN to integer'')
     | Some _ \<Rightarrow> Inl (OverflowError ''cannot convert float infinity to integer''))"

definition ctl_dur :: "pyval \<Rightarrow> string res" where
  "ctl_dur v = (case as_float v of None \<Rightarrow> Inr ''-'' | Some (Fin x) \<Rightarrow>
       (let s = trunc_rat x in
        Inr (if 3600 \<le> s then str_int (s div 3600) @ ''h'' @ pad2 (s mod 3600 div 60) @ ''m'' else str_int (s div 60) @ ''m'' @ pad2 (s mod 60) @ ''s''))
     | Some NaN \<Rightarrow> Inl (ValueError ''cannot convert float NaN to integer'')
     | Some _ \<Rightarrow> Inl (OverflowError ''cannot convert float infinity to integer''))"

definition yn :: "pyval \<Rightarrow> string" where
  "yn v = (if v = PNone then ''?'' else if truthy v then ''YES'' else ''no'')"

text \<open>\<open>isinstance(t, int) and t > 0\<close>.\<close>

definition pos_int :: "pyval \<Rightarrow> bool" where
  "pos_int v = (case v of PInt n \<Rightarrow> 0 < n | PBool b \<Rightarrow> b | _ \<Rightarrow> False)"

definition fan_floor_text :: "(pyval \<Rightarrow> string) \<Rightarrow> pyval \<Rightarrow> string res" where
  "fan_floor_text pstr fan =
    (let fan = (if truthy fan then fan else PDict []) in
     res_bind (fld fan ''target_rpm'') (\<lambda>t. res_bind (fld fan ''mode'') (\<lambda>m. res_bind (fld fan ''reason'') (\<lambda>r. res_bind (fld fan ''write_errors'') (\<lambda>e. Inr
       ((if m = PStr ''floor'' \<and> pos_int t then ''floor '' @ pstr t @ '' rpm ('' @ pstr r @ '')''
         else ''floor off'' @ (if m = PStr ''auto'' then '' (fan.mode auto)'' else []))
        @ (if truthy e then ''  write errors '' @ pstr e else [])))))))"

section \<open>The status\<close>

text \<open>
  A line is the joined pieces: \<open>T\<close> a literal, \<open>F\<close> a field in a number format, \<open>V\<close> the \<open>str\<close> of a field.
\<close>

definition status_head :: "(pyval \<Rightarrow> string) \<Rightarrow> pyval dict \<Rightarrow> pyval \<Rightarrow> string res" where
  "status_head pstr s gov =
    (let me = sub_or s ''self''; up = (if truthy (py_get s ''daemon_uptime_s'') then py_get s ''daemon_uptime_s'' else PInt 0) in
     cat [Inr (''TurboMac '' @ pstr (py_get s ''version'') @ '' on '' @ pstr (py_get s ''host'') @ ''  governor ''),
       res_bind (fld gov ''mode'') (\<lambda>m. Inr (upper (pstr m))), Inr ''  state '', res_bind (fld gov ''state'') (\<lambda>m. Inr (pstr m)), Inr '' for '',
       res_bind (fld gov ''in_state_s'') ctl_dur, Inr ''  daemon up '', ctl_dur up, Inr (if truthy (py_get s ''smc_ok'') then [] else ''  [SMC UNAVAILABLE]''),
       Inr ''  daemon '', res_bind (fld me ''cpu_pct'') (f_num (Fixed 1)), Inr '' % of a core, '', res_bind (fld me ''rss_mib'') (f_num (Fixed 1)), Inr '' MiB''])"

definition status_input :: "pyval \<Rightarrow> pyval \<Rightarrow> string res" where
  "status_input lat der = (let F = (\<lambda>v k fm. res_bind (fld v k) (f_num fm)) in
     cat [Inr ''input   '', F der ''input_mean_1s'' (Fixed 1), Inr '' W (1 s mean)  latest '', F lat ''pdtr_w'' (Fixed 1), Inr '' W  '',
       F lat ''v'' (Fixed 2), Inr '' V x '', F lat ''a'' (Fixed 2), Inr '' A  ACPW '', F der ''acpw_median_10s'' (Fixed 2), Inr '' W  headroom '',
       F der ''headroom_w'' (Fixed 1), Inr '' W''])"

definition status_bands :: "pyval \<Rightarrow> pyval \<Rightarrow> pyval \<Rightarrow> string res" where
  "status_bands th gov der = (let F = (\<lambda>v k fm. res_bind (fld v k) (f_num fm)) in
     cat [Inr ''bands   shed '', F th ''shed_w'' (Fixed 1), Inr ''  emergency '', F th ''emergency_w'' (Fixed 1), Inr ''  recover '', F th ''recover_w'' (Fixed 1),
       Inr '' W   ceiling '', F gov ''ceiling_w'' General, Inr '' W ~ '', F der ''pred_input_at_ceiling_w'' (Fixed 1), Inr '' W input'',
       res_bind (fld gov ''thermal_cap_w'') (\<lambda>c. if c = PNone then Inr [] else cat [Inr ''   thermal cap '', g_any c, Inr '' W''])])"

definition status_cpu :: "pyval \<Rightarrow> pyval \<Rightarrow> pyval \<Rightarrow> string res" where
  "status_cpu lat der cpu = (let F = (\<lambda>v k fm. res_bind (fld v k) (f_num fm)) in
     cat [Inr ''cpu     package '', F lat ''package_w'' (Fixed 1), Inr '' W  core '', F lat ''core_w'' (Fixed 1), Inr ''  uncore '', F lat ''uncore_w'' (Fixed 1),
       Inr ''  dram '', F lat ''dram_w'' (Fixed 1), Inr ''  non-CPU est '', F der ''noncpu_est_w'' (Fixed 1), Inr '' W  busy '', F cpu ''busy_pct'' (Fixed 0), Inr '' %''])"

definition status_limits :: "pyval \<Rightarrow> pyval \<Rightarrow> string res" where
  "status_limits gov lm = (let F = (\<lambda>v k fm. res_bind (fld v k) (f_num fm)) in
     res_bind (fld_or lm ''sysfs'') (\<lambda>sysfs. res_bind (fld_or lm ''msr'') (\<lambda>ml. res_bind (fld_or lm ''firmware'') (\<lambda>fw.
     cat [Inr ''limits  PL1 '', F gov ''pl1_w'' General, Inr '' / PL2 '', F gov ''pl2_w'' General, Inr '' W commanded  sysfs '', F sysfs ''pl1_w'' General, Inr ''/'',
       F sysfs ''pl2_w'' General, Inr ''  MSR '', F ml ''pl1_w'' General, Inr ''/'', F ml ''pl2_w'' General,
       res_bind (fld ml ''pl1_clamp'') (\<lambda>c. Inr (if truthy c then '' clamp'' else [])), Inr ''  firmware '', F fw ''pl1_w'' General, Inr ''/'', F fw ''pl2_w'' General,
       res_bind (fld fw ''suspect'') (\<lambda>c. Inr (if truthy c then '' (SUSPECT, ignored)'' else [])), Inr ''  hard max '', F lm ''hard_max_w'' General]))))"

definition status_flags :: "pyval \<Rightarrow> string res" where
  "status_flags msr = (let Y = (\<lambda>k. res_bind (fld msr k) (\<lambda>v. Inr (yn v))) in
     cat [Inr ''flags   power-limited '', Y ''power_limited'', Inr ''  thermal '', Y ''thermal'', Inr ''  PROCHOT '', Y ''prochot''])"

definition status_gpu :: "(pyval \<Rightarrow> string) \<Rightarrow> pyval \<Rightarrow> string res" where
  "status_gpu pstr gpu = (let F = (\<lambda>v k fm. res_bind (fld v k) (f_num fm)); V = (\<lambda>k. res_bind (fld gpu k) (\<lambda>v. Inr (pstr v)));
       D = (\<lambda>k. res_bind (fld gpu k) (\<lambda>v. Inr (if truthy v then pstr v else ''-''))) in
     cat [Inr ''gpu     '', V ''config_mode'', Inr '' (live '', V ''mode'', Inr '')  '', F gpu ''power_w'' (Fixed 1), Inr '' W  cap '', F gpu ''cap_w'' General, Inr '' W  '',
       F gpu ''temp_c'' (Fixed 0), Inr '' C  busy '', F gpu ''busy_pct'' (Fixed 0), Inr '' %  '', F gpu ''sclk_mhz'' Decimal, Inr '' MHz  dpm '', D ''dpm_level'',
       Inr ''  rt '', D ''runtime_status'', Inr ''  pci '', D ''power_state''])"

definition status_temps :: "pyval \<Rightarrow> string res" where
  "status_temps tm = (let F = (\<lambda>v k fm. res_bind (fld v k) (f_num fm)) in
     cat [Inr ''temps   pkg '', F tm ''pkg_c'' (Fixed 0), Inr '' C  nvme '', F tm ''nvme_c'' (Fixed 0), Inr '' C  '',
       res_bind (fld_or tm ''cores'') (\<lambda>cs. res_bind (items_of cs) (\<lambda>d. res_bind (each (\<lambda>(k, v). cat [Inr (k @ '' ''), f_num (Fixed 0) v]) d)
         (\<lambda>l. Inr (join_with ''  '' l))))])"

definition status_fans :: "(pyval \<Rightarrow> string) \<Rightarrow> pyval dict \<Rightarrow> string res" where
  "status_fans pstr s =
    (let V = (\<lambda>f k. res_bind (fld f k) (\<lambda>v. Inr (pstr v))); fs = py_get s ''fans'' in
     cat [Inr ''fans    '',
       res_bind (iter_of (if truthy fs then fs else PList [])) (\<lambda>rows. res_bind (each (\<lambda>f. cat [V f ''label'', Inr '' '', V f ''rpm'', Inr '' rpm'']) rows)
         (\<lambda>l. Inr (if join_with ''  '' l = [] then ''-'' else join_with ''  '' l))),
       if truthy (py_get s ''fan'') then cat [Inr ''  '', fan_floor_text pstr (py_get s ''fan'')] else Inr []])"

definition status_counts :: "(pyval \<Rightarrow> string) \<Rightarrow> pyval \<Rightarrow> string res" where
  "status_counts pstr cnt = (let C = (\<lambda>k. case cnt of PDict d \<Rightarrow> Inr (case dget d k of Some v \<Rightarrow> pstr v | None \<Rightarrow> ''0'')
         | _ \<Rightarrow> Inl (AttributeError (''object has no attribute 'get'' @ [CHR 0x27]))) in
     cat [Inr ''counts  cuts '', C ''cuts'', Inr ''  emergencies '', C ''emergencies'', Inr ''  fallbacks '', C ''fallbacks'', Inr ''  recoveries '', C ''recoveries'',
       Inr ''  thermal trims '', C ''thermal_trims'', Inr ''  writes '', C ''writes'', Inr ''  readback failures '', C ''readback_failures''])"

definition status_peaks :: "(rat \<Rightarrow> string) \<Rightarrow> pyval dict \<Rightarrow> string res" where
  "status_peaks lt s =
     cat [Inr ''peaks   '', res_bind (items_of (sub_or s ''peaks'')) (\<lambda>d. res_bind (each (\<lambda>(k, v).
         cat [Inr (k @ '' ''), res_bind (at_val v ''value'') g_any, Inr '' @ '', res_bind (at_val v ''ts'') (ctl_hms lt)]) d) (\<lambda>l. Inr (join_with ''  '' l)))]"

text \<open>The lines that follow when there is something to say; the boot line always.\<close>

definition status_tail :: "(pyval \<Rightarrow> string) \<Rightarrow> pyval dict \<Rightarrow> pyval \<Rightarrow> string list res" where
  "status_tail pstr s gov =
    res_bind (fld gov ''fallback_reason'') (\<lambda>fr. res_bind (fld gov ''last_action'') (\<lambda>la. res_bind (items_of (sub_or s ''incident_check'')) (\<lambda>ic.
    res_bind (fld gov ''mode'') (\<lambda>mode. Inr
      ((if truthy fr then [''FALLBACK '' @ pstr fr] else []) @ (if truthy la then [''last    '' @ pstr la] else [])
       @ [''boot    previous boot: '' @ (case dget ic ''verdict'' of Some v \<Rightarrow> pstr v | None \<Rightarrow> ''?'') @ '' (''
            @ (case dget ic ''reason'' of Some v \<Rightarrow> pstr v | None \<Rightarrow> []) @ '')''
            @ (if truthy (py_get ic ''incident_id'') then '' incident '' @ pstr (py_get ic ''incident_id'') else [])]
       @ (if mode = PStr ''off'' then [''WARNING governor is OFF: telemetry only, no limits are being enforced by the daemon''] else []))))))"

definition render_status :: "(pyval \<Rightarrow> string) \<Rightarrow> (rat \<Rightarrow> string) \<Rightarrow> pyval \<Rightarrow> string res" where
  "render_status pstr lt st =
    (if \<not> truthy st then Inr ''daemon has no sample yet''
     else res_bind (items_of st) (\<lambda>s.
       let lat = sub_or s ''latest''; der = sub_or s ''derived''; gov = sub_or s ''governor''; th = sub_or s ''thresholds'';
           lm = sub_or s ''limits''; gpu = sub_or s ''gpu''; cpu = sub_or s ''cpu''; msr = sub_or s ''msr''
       in res_bind (fld_or gov ''counters'') (\<lambda>cnt. res_bind (fld_or cpu ''temps'') (\<lambda>tm.
          res_bind (each id [status_head pstr s gov, status_input lat der, status_bands th gov der, status_cpu lat der cpu, status_limits gov lm,
              status_flags msr, status_gpu pstr gpu, status_temps tm, status_fans pstr s, status_counts pstr cnt, status_peaks lt s])
            (\<lambda>ls. res_bind (status_tail pstr s gov) (\<lambda>tl. Inr (join_with [CHR 0x0A] (ls @ tl))))))))"

definition watch_line :: "(pyval \<Rightarrow> string) \<Rightarrow> (rat \<Rightarrow> string) \<Rightarrow> pyval dict \<Rightarrow> string res" where
  "watch_line pstr lt s =
    (let lat = sub_or s ''latest''; der = sub_or s ''derived''; gov = sub_or s ''governor''; msr = sub_or s ''msr''; fan = sub_or s ''fan'';
         F = (\<lambda>n v k fm. res_bind (fld v k) (\<lambda>x. res_bind (f_num fm x) (\<lambda>t. Inr (rjust n t)))) in
     res_bind (fld_or (sub_or s ''cpu'') ''temps'') (\<lambda>tm.
     res_bind (fld fan ''mode'') (\<lambda>fm. res_bind (if fm = PStr ''floor'' then fld fan ''target_rpm'' else Inr PNone) (\<lambda>rpm.
     cat [ctl_hms lt (py_get s ''ts''), Inr ''  in '', F 5 lat ''pdtr_w'' (Fixed 1), Inr '' W  1s '', F 5 der ''input_mean_1s'' (Fixed 1), Inr ''  pkg '',
       F 5 lat ''package_w'' (Fixed 1), Inr '' W  PL1 '', F 3 gov ''pl1_w'' General, Inr ''  '',
       res_bind (items_of gov) (\<lambda>d. padded (ljust 9) pstr (case dget d ''state'' of Some v \<Rightarrow> v | None \<Rightarrow> PStr ''?'')), Inr ''  gpu '',
       F 4 (sub_or s ''gpu'') ''power_w'' (Fixed 1), Inr '' W  '', F 3 tm ''pkg_c'' (Fixed 0), Inr '' C'',
       res_bind (fld msr ''power_limited'') (\<lambda>v. Inr (if truthy v then ''  PL!'' else [])), res_bind (fld msr ''thermal'') (\<lambda>v. Inr (if truthy v then ''  THERM!'' else [])),
       Inr (if pos_int rpm then '' fan '' @ pstr rpm else [])]))))"

section \<open>Assignments\<close>

text \<open>\<open>key=value\<close>; the value is JSON, or the text itself. \<open>SystemExit\<close> carries the message \<open>bad\<close> of the first other item.\<close>

definition partition :: "char \<Rightarrow> string \<Rightarrow> string \<times> bool \<times> string" where
  "partition c s = (takeWhile (\<lambda>x. x \<noteq> c) s, c \<in> set s, drop 1 (dropWhile (\<lambda>x. x \<noteq> c) s))"

fun parse_from :: "(string \<Rightarrow> pyval option) \<Rightarrow> pyval dict \<Rightarrow> string list \<Rightarrow> string + pyval dict" where
  "parse_from loads out [] = Inr out"
| "parse_from loads out (item # items) =
    (case partition CHR ''='' item of (key, found, rhs) \<Rightarrow>
       if \<not> found then Inl item
       else parse_from loads (dset (strip key) (case loads rhs of Some v \<Rightarrow> v | None \<Rightarrow> PStr rhs) out) items)"

definition parse_assignments :: "(string \<Rightarrow> pyval option) \<Rightarrow> string list \<Rightarrow> string + pyval dict" where
  "parse_assignments loads items = parse_from loads [] items"

section \<open>The commands\<close>

datatype ctl_cmd = Status | Watch | Config "string list" | Reset | Gpu string bool | Incidents "string option" | Events int | SmcKeys

text \<open>What a command prints, to the standard output or the standard error.\<close>

datatype out_line = Out string | Err string

record ctl_env =
  ct_call :: "string \<Rightarrow> pyval dict \<Rightarrow> pyval res"
  ct_stream :: "pyval list \<times> py_exn option"
  ct_pretty :: "pyval \<Rightarrow> string"
  ct_dumps :: "pyval \<Rightarrow> string"
  ct_str :: "pyval \<Rightarrow> string"
  ct_repr :: "string \<Rightarrow> string"
  ct_loads :: "string \<Rightarrow> pyval option"
  ct_local :: "rat \<Rightarrow> string"
  ct_typed :: string

type_synonym ctl_run = "out_line list \<times> int res"

text \<open>What follows a fallible step; printing what a text evaluates to.\<close>

definition ctl_then :: "'a res \<Rightarrow> ('a \<Rightarrow> ctl_run) \<Rightarrow> ctl_run" where
  "ctl_then r f = (case r of Inl e \<Rightarrow> ([], Inl e) | Inr x \<Rightarrow> f x)"

definition ctl_print :: "string res \<Rightarrow> ctl_run \<Rightarrow> ctl_run" where
  "ctl_print t k = (case t of Inl e \<Rightarrow> ([], Inl e) | Inr s \<Rightarrow> (Out s # fst k, snd k))"

definition ctl_prints :: "string list \<Rightarrow> ctl_run \<Rightarrow> ctl_run" where
  "ctl_prints ls k = (map Out ls @ fst k, snd k)"

text \<open>\<open>Client.call(cmd, timeout=\<dots>, **args)\<close>: an argument named like a parameter of the method is refused.\<close>

definition kw_call :: "ctl_env \<Rightarrow> string \<Rightarrow> pyval dict \<Rightarrow> pyval res" where
  "kw_call env cmd args =
    (if list_ex (dhas args) [''self'', ''cmd'', ''timeout''] then Inl (TypeError ''call() got multiple values for argument'') else ct_call env cmd args)"

definition as_dict :: "pyval \<Rightarrow> pyval dict res" where
  "as_dict v = (case v of PDict d \<Rightarrow> Inr d | _ \<Rightarrow> Inl (TypeError ''not a dictionary''))"

fun watch :: "ctl_env \<Rightarrow> bool \<Rightarrow> pyval list \<Rightarrow> py_exn option \<Rightarrow> ctl_run" where
  "watch env json [] e = ([], case e of Some x \<Rightarrow> Inl x | None \<Rightarrow> Inr 0)"
| "watch env json (s # ss) e =
    ctl_print (if json then Inr (ct_dumps env s) else res_bind (items_of s) (watch_line (ct_str env) (ct_local env))) (watch env json ss e)"

definition ctl_status :: "ctl_env \<Rightarrow> bool \<Rightarrow> ctl_run" where
  "ctl_status env json =
    ctl_then (ct_call env ''status'' []) (\<lambda>s.
      ctl_print (if json then Inr (ct_pretty env s) else render_status (ct_str env) (ct_local env) s) ([], Inr 0))"

text \<open>Rows printed one by one: those before a failing one have been printed.\<close>

fun print_each :: "('a \<Rightarrow> string res) \<Rightarrow> 'a list \<Rightarrow> ctl_run \<Rightarrow> ctl_run" where
  "print_each f [] k = k"
| "print_each f (x # xs) k = ctl_print (f x) (print_each f xs k)"

definition config_report :: "ctl_env \<Rightarrow> pyval \<Rightarrow> ctl_run" where
  "config_report env r =
    ctl_then (res_bind (at_val r ''accepted'') items_of) (\<lambda>acc. ctl_prints (map (\<lambda>(k, v). ''accepted '' @ k @ '' = '' @ ct_dumps env v) acc)
      (ctl_then (res_bind (at_val r ''rejected'') items_of) (\<lambda>rej. ctl_prints (map (\<lambda>(k, v). ''REJECTED '' @ k @ '': '' @ ct_str env v) rej)
        (ctl_then (as_dict r) (\<lambda>d.
          ctl_prints (if truthy (case dget d ''persisted'' of Some p \<Rightarrow> p | None \<Rightarrow> PBool True) then []
              else [''WARNING applied live but not saved: '' @ ct_str env (py_get d ''error'')])
            ([], Inr (if rej \<noteq> [] then 1 else 0)))))))"

definition ctl_config :: "ctl_env \<Rightarrow> bool \<Rightarrow> string list \<Rightarrow> ctl_run" where
  "ctl_config env json assign =
    (if assign = [] then
       ctl_then (ct_call env ''config.get'' []) (\<lambda>r.
         if json then ctl_prints [ct_pretty env r] ([], Inr 0)
         else ctl_then (res_bind (as_dict r) (\<lambda>d. res_bind (at_key d ''config'') as_dict)) (\<lambda>cfg.
           ctl_prints [join_with [CHR 0x0A] (map (\<lambda>(k, v). k @ '' = '' @ ct_dumps env v) (flatten cfg []))] ([], Inr 0)))
     else case parse_assignments (ct_loads env) assign of
       Inl item \<Rightarrow> ([Err (''expected key=value, got '' @ ct_repr env item)], Inr 1)
     | Inr upd \<Rightarrow>
         ctl_then (kw_call env ''config.set'' upd) (\<lambda>r.
           if json then ctl_prints [ct_pretty env r] ([], Inr 0)
           else config_report env r))"

definition ctl_reset :: "ctl_env \<Rightarrow> bool \<Rightarrow> ctl_run" where
  "ctl_reset env json =
    ctl_then (ct_call env ''config.reset'' []) (\<lambda>r.
      if json then ctl_prints [ct_pretty env r] ([], Inr 0)
      else ctl_then (res_bind (as_dict r) (\<lambda>d. res_bind (at_key d ''accepted'') (\<lambda>a. res_bind (items_of a) (\<lambda>acc. res_bind (at_key d ''digest'') (\<lambda>g.
        Inr (''reset to defaults ('' @ str_int (int (length acc)) @ '' keys), digest '' @ ct_str env g))))))
        (\<lambda>t. ctl_prints [t] ([], Inr 0)))"

definition indented :: "pyval \<Rightarrow> string res" where
  "indented v = (case v of PStr t \<Rightarrow> Inr (''  '' @ t) | _ \<Rightarrow> Inl (TypeError ''can only concatenate str to str''))"

definition gpu_report :: "ctl_env \<Rightarrow> string \<Rightarrow> pyval \<Rightarrow> ctl_run \<Rightarrow> ctl_run" where
  "gpu_report env mode r k =
    ctl_print (res_bind (at_val r ''ok'') (\<lambda>ok. res_bind (at_val r ''mode'') (\<lambda>m. res_bind (at_val r ''reason'') (\<lambda>why.
        Inr (''gpu '' @ mode @ '': '' @ (if truthy ok then ''OK'' else ''FAILED'') @ '' -> mode '' @ ct_str env m @ '': '' @ ct_str env why)))))
      (ctl_print (res_bind (as_dict r) (\<lambda>d. res_bind (iter_of (case dget d ''steps'' of Some x \<Rightarrow> x | None \<Rightarrow> PList []))
          (\<lambda>steps. res_bind (each indented steps) (\<lambda>ls. Inr (join_with [CHR 0x0A] ls))))) k)"

definition ctl_gpu :: "ctl_env \<Rightarrow> bool \<Rightarrow> string \<Rightarrow> bool \<Rightarrow> ctl_run" where
  "ctl_gpu env json mode yes_flag =
    (let ask = (mode = ''off'' \<and> \<not> yes_flag); warn = (if ask then [''Powering off the dGPU may leave the internal panel black until reboot.''] else []) in
     if ask \<and> strip (ct_typed env) \<noteq> ''OFF'' then ctl_prints (warn @ [''aborted'']) ([], Inr 1)
     else ctl_prints warn (ctl_then (ct_call env ''gpu.set'' [(''mode'', PStr mode)]) (\<lambda>r.
       let k = ctl_then (at_val r ''ok'') (\<lambda>ok. ([], Inr (if truthy ok then 0 else 1)))
       in if json then ctl_prints [ct_pretty env r] k else gpu_report env mode r k)))"

text \<open>The rows of an incident and of the event list.\<close>

definition sample_row :: "ctl_env \<Rightarrow> pyval \<Rightarrow> string res" where
  "sample_row env row = (let F = (\<lambda>k. res_bind (fld row k) (f_num (Fixed 1))); V = (\<lambda>k. res_bind (fld row k) (\<lambda>v. Inr (ct_str env v))) in
     cat [Inr ''  '', V ''time'', Inr ''  in '', F ''input_w'', Inr '' W  pkg '', F ''pkg_w'', Inr '' W  gpu '', F ''gpu_w'', Inr '' W  PL1 '', V ''pl1_w'', Inr ''  '', V ''state''])"

definition incident_report :: "ctl_env \<Rightarrow> pyval \<Rightarrow> ctl_run" where
  "incident_report env r =
    ctl_then (as_dict r) (\<lambda>d.
    let V = (\<lambda>k. ct_str env (py_get d k)); or_list = (\<lambda>k. if truthy (py_get d k) then py_get d k else PList []) in
    ctl_print (res_bind (at_val r ''id'') (\<lambda>i. Inr (''incident '' @ ct_str env i @ ''  boot '' @ V ''boot_id'' @ ''  last sample '' @ V ''last_sample_time'')))
      (ctl_prints [''reason: '' @ V ''reason'']
      (ctl_then (iter_of (or_list ''samples'')) (\<lambda>rows. print_each (sample_row env) (last_n 15 rows)
      (ctl_print (res_bind (iter_of (or_list ''journal_tail'')) (\<lambda>js. res_bind (each indented js) (\<lambda>ls.
          Inr (''journal tail:'' @ [CHR 0x0A] @ join_with [CHR 0x0A] ls)))) ([], Inr 0))))))"

definition incident_row :: "ctl_env \<Rightarrow> pyval \<Rightarrow> string res" where
  "incident_row env x = (let V = (\<lambda>k. res_bind (fld x k) (\<lambda>v. Inr (ct_str env v))) in
     cat [res_bind (at_val x ''id'') (\<lambda>v. Inr (ct_str env v)), Inr ''  boot '', V ''boot_id'', Inr ''  last sample '', V ''last_sample_time'', Inr ''  '', V ''n_samples'', Inr '' samples''])"

definition ctl_incidents :: "ctl_env \<Rightarrow> bool \<Rightarrow> string option \<Rightarrow> ctl_run" where
  "ctl_incidents env json i =
    (case i of
       Some (c # cs) \<Rightarrow> ctl_then (ct_call env ''incident'' [(''id'', PStr (c # cs))]) (\<lambda>r.
         if json then ctl_prints [ct_pretty env r] ([], Inr 0)
         else incident_report env r)
     | _ \<Rightarrow> ctl_then (ct_call env ''incidents'' []) (\<lambda>r.
         if json then ctl_prints [ct_pretty env r] ([], Inr 0)
         else ctl_then (res_bind (iter_of r) (each (incident_row env))) (\<lambda>ls.
           ctl_prints [let t = join_with [CHR 0x0A] ls in if t = [] then ''no incidents recorded'' else t] ([], Inr 0))))"

definition event_row :: "ctl_env \<Rightarrow> pyval \<Rightarrow> string res" where
  "event_row env ev =
    res_bind (items_of ev) (\<lambda>d. res_bind (ctl_hms (ct_local env) (py_get d ''ts'')) (\<lambda>t. res_bind (padded (ljust 16) (ct_str env) (py_get d ''type'')) (\<lambda>ty.
      Inr (t @ '' '' @ ty @ '' ''
           @ join_with '' '' (map (\<lambda>(k, v). k @ ''='' @ ct_dumps env v) (filter (\<lambda>(k, v). k \<noteq> ''ts'' \<and> k \<noteq> ''type'') d))))))"

definition ctl_events :: "ctl_env \<Rightarrow> bool \<Rightarrow> int \<Rightarrow> ctl_run" where
  "ctl_events env json n =
    ctl_then (ct_call env ''events'' [(''n'', PInt n)]) (\<lambda>r.
      if json then ctl_prints [ct_pretty env r] ([], Inr 0) else ctl_then (iter_of r) (\<lambda>evs. print_each (event_row env) evs ([], Inr 0)))"

definition key_row :: "ctl_env \<Rightarrow> pyval \<Rightarrow> string res" where
  "key_row env k = (let P = (\<lambda>just n. res_bind (at_val k n) (padded just (ct_str env))) in
     cat [P (ljust 5) ''name'', Inr '' '', P (ljust 5) ''type'', Inr '' '', P (rjust 2) ''len'', Inr ''  #'', res_bind (at_val k ''index'') (\<lambda>v. Inr (ct_str env v))])"

definition ctl_smc_keys :: "ctl_env \<Rightarrow> bool \<Rightarrow> ctl_run" where
  "ctl_smc_keys env json =
    ctl_then (ct_call env ''smc.keys'' []) (\<lambda>r.
      if json then ctl_prints [ct_pretty env r] ([], Inr 0)
      else ctl_then (res_bind (iter_of r) (each (key_row env))) (\<lambda>ls.
        ctl_prints [let t = join_with [CHR 0x0A] ls in if t = [] then ''no SMC keys (applesmc unavailable)'' else t] ([], Inr 0)))"

definition ctl_body :: "ctl_env \<Rightarrow> bool \<Rightarrow> ctl_cmd \<Rightarrow> ctl_run" where
  "ctl_body env json c =
    (case c of
       Status \<Rightarrow> ctl_status env json
     | Watch \<Rightarrow> watch env json (fst (ct_stream env)) (snd (ct_stream env))
     | Config assign \<Rightarrow> ctl_config env json assign
     | Reset \<Rightarrow> ctl_reset env json
     | Gpu mode yes_flag \<Rightarrow> ctl_gpu env json mode yes_flag
     | Incidents i \<Rightarrow> ctl_incidents env json i
     | Events n \<Rightarrow> ctl_events env json n
     | SmcKeys \<Rightarrow> ctl_smc_keys env json)"

text \<open>\<open>main\<close>: a refusal or a lost connection is one line on the standard error and status 1.\<close>

definition ctl_main :: "ctl_env \<Rightarrow> bool \<Rightarrow> ctl_cmd \<Rightarrow> ctl_run" where
  "ctl_main env json c =
    (case ctl_body env json c of
       (ls, Inl (ProtocolError m)) \<Rightarrow> (ls @ [Err (''turbomacctl: '' @ m)], Inr 1)
     | r \<Rightarrow> r)"

end
