(* ===== verification/Ctl_Props.thy ===== *)
theory Ctl_Props
  imports Ctl
begin

text \<open>
  Properties of the command line client: assignments round trip, and a configuration command that
  ends with status 0 has put every assigned value in force in the daemon at the other end.
\<close>

section \<open>Assignments\<close>

lemma partition_key: "CHR ''='' \<notin> set k \<Longrightarrow> partition CHR ''='' (k @ ''='' @ v) = (k, True, v)"
proof -
  assume k: "CHR ''='' \<notin> set k"
  have "takeWhile (\<lambda>x. x \<noteq> CHR ''='') (k @ ''='' @ v) = k" using k by (subst takeWhile_append2) auto
  moreover have "dropWhile (\<lambda>x. x \<noteq> CHR ''='') (k @ ''='' @ v) = ''='' @ v" using k by (subst dropWhile_append2) auto
  ultimately show ?thesis by (simp add: partition_def)
qed

lemma parse_from_pairs:
  assumes "\<forall>(k, v) \<in> set upd. CHR ''='' \<notin> set k \<and> strip k = k \<and> loads (dumps v) = Some v"
  shows "parse_from loads out (map (\<lambda>(k, v). k @ ''='' @ dumps v) upd) = Inr (fold (\<lambda>(k, v). dset k v) upd out)"
  using assms
proof (induction upd arbitrary: out)
  case (Cons kv upd)
  obtain k v where kv: "kv = (k, v)" by (cases kv) auto
  have h: "CHR ''='' \<notin> set k" "strip k = k" "loads (dumps v) = Some v" using Cons.prems kv by auto
  have "parse_from loads out (map (\<lambda>(k, v). k @ ''='' @ dumps v) (kv # upd)) =
      parse_from loads (dset k v out) (map (\<lambda>(k, v). k @ ''='' @ dumps v) upd)"
    using partition_key [OF h(1), of "dumps v"] h(2,3) by (simp add: kv)
  with Cons kv show ?case by simp
qed simp

lemma fold_dset_new: "dwf (out @ upd) \<Longrightarrow> fold (\<lambda>(k, v). dset k v) upd out = out @ upd"
proof (induction upd arbitrary: out)
  case (Cons kv upd)
  obtain k v where kv: "kv = (k, v)" by (cases kv) auto
  have "k \<notin> fst ` set out" using Cons.prems kv by (auto simp: dwf_def)
  then have "dset k v out = out @ [(k, v)]" by (induction out) auto
  with Cons.IH [of "out @ [(k, v)]"] Cons.prems kv show ?case by simp
qed simp

lemma parse_from_dwf: "parse_from loads out items = Inr upd \<Longrightarrow> dwf out \<Longrightarrow> dwf upd"
proof (induction loads out items arbitrary: upd rule: parse_from.induct)
  case (2 loads out item items)
  obtain k f r where p: "partition CHR ''='' item = (k, f, r)" by (metis surj_pair)
  show ?case using 2 p by (cases f) auto
qed auto

text \<open>
  The command line's assignments round trip: from any dictionary with names that are free of equals
  signs and outer spaces, written as name, equals sign and JSON text, the parser gives back the
  dictionary.
\<close>

theorem parse_assignments_roundtrip:
  assumes "dwf upd" "\<forall>(k, v) \<in> set upd. CHR ''='' \<notin> set k \<and> strip k = k \<and> loads (dumps v) = Some v"
  shows "parse_assignments loads (map (\<lambda>(k, v). k @ ''='' @ dumps v) upd) = Inr upd"
  using parse_from_pairs [OF assms(2), of "[]"] fold_dset_new [of "[]" upd] assms(1) by (simp add: parse_assignments_def)

theorem parse_assignments_roundtrip_witness:
  "parse_assignments (\<lambda>t. if t = ''40'' then Some (PInt 40) else if t = ''=a'' then Some (PStr ''=a'') else None) [''x.y=40'', ''z==a''] =
     Inr [(''x.y'', PInt 40), (''z'', PStr ''=a'')]"
proof -
  let ?loads = "\<lambda>t. if t = ''40'' then Some (PInt 40) else if t = ''=a'' then Some (PStr ''=a'') else None"
  let ?dumps = "\<lambda>v. if v = PInt 40 then ''40'' else ''=a''"
  have s: "strip ''x.y'' = ''x.y''" "strip ''z'' = ''z''" by code_simp+
  have "dwf [(''x.y'', PInt 40), (''z'', PStr ''=a'')]" by (simp add: dwf_def)
  from parse_assignments_roundtrip [OF this, of ?loads ?dumps] show ?thesis by (simp add: s)
qed

section \<open>Validation leaves no update unanswered\<close>

text \<open>What is accepted stays as it is or is rejected later; what is rejected stays rejected.\<close>

definition answered :: "pyval dict \<times> string dict \<Rightarrow> pyval dict \<times> string dict \<Rightarrow> bool" where
  "answered ar ar' = (\<forall>k. (dhas (snd ar) k \<longrightarrow> dhas (snd ar') k) \<and> (\<forall>w. dget (fst ar) k = Some w \<longrightarrow> dget (fst ar') k = Some w \<or> dhas (snd ar') k))"

lemma answered_refl [simp]: "answered ar ar"
  by (simp add: answered_def)

lemma answered_trans: "answered a b \<Longrightarrow> answered b c \<Longrightarrow> answered a c"
  by (fastforce simp: answered_def)

lemma dhas_setdefault: "dhas (dsetdefault k v d) j = (j = k \<or> dhas d j)"
  by (auto simp: dhas_def dget_dsetdefault split: option.splits)

lemma drop_keys_answered: "answered ar (drop_keys ks reason ar)"
proof (induction ks reason ar rule: drop_keys.induct)
  case (2 k ks reason acc rej)
  have "answered (acc, rej) (dpop k acc, dsetdefault k reason rej)" by (auto simp: answered_def dhas_setdefault)
  then show ?case using 2 answered_trans by simp
qed simp

lemma cross_pass_answered: "cross_pass merged rs (acc, rej) b = Inr (acc', rej', b') \<Longrightarrow> answered (acc, rej) (acc', rej')"
proof (induction rs arbitrary: acc rej b)
  case (Cons r rs)
  obtain keys ok reason where r: "r = (keys, ok, reason)" by (cases r) auto
  obtain good where g: "ok merged = Inr good" using Cons.prems r by (auto simp: res_bind_Inr)
  obtain acc1 rej1 where d: "drop_keys (culprits keys acc) reason (acc, rej) = (acc1, rej1)" by (metis surj_pair)
  show ?case
  proof (cases good)
    case True
    then have "cross_pass merged rs (acc, rej) b = Inr (acc', rej', b')" using Cons.prems unfolding r cross_pass.simps g res_bind_simps by simp
    then show ?thesis by (rule Cons.IH)
  next
    case False
    then have "cross_pass merged rs (acc1, rej1) True = Inr (acc', rej', b')" using Cons.prems unfolding r cross_pass.simps g res_bind_simps d by simp
    then have "answered (acc1, rej1) (acc', rej')" by (rule Cons.IH)
    moreover have "answered (acc, rej) (acc1, rej1)" using drop_keys_answered [of "(acc, rej)" "culprits keys acc" reason] unfolding d .
    ultimately show ?thesis using answered_trans by blast
  qed
qed simp

lemma cross_loop_answered: "cross_loop rs n base (acc, rej) = Inr (acc', rej') \<Longrightarrow> answered (acc, rej) (acc', rej')"
proof (induction n arbitrary: acc rej)
  case (Suc n)
  obtain a1 r1 b1 where c: "cross_pass (dmerge base acc) rs (acc, rej) False = Inr (a1, r1, b1)" using Suc.prems by (auto simp: res_bind_Inr)
  have "answered (a1, r1) (acc', rej')" using Suc c by (cases b1) auto
  then show ?case using answered_trans cross_pass_answered [OF c] by blast
qed simp

lemma check_all_answered:
  "check_all us (acc, rej) = Inr (acc', rej') \<Longrightarrow> dwf us \<Longrightarrow> (\<forall>k. dhas us k \<longrightarrow> \<not> dhas acc k) \<Longrightarrow>
     (\<forall>k. dhas rej k \<longrightarrow> dhas rej' k) \<and> (\<forall>k. \<not> dhas us k \<longrightarrow> dget acc' k = dget acc k) \<and>
     (\<forall>k v. dget us k = Some v \<and> k \<noteq> ''schema'' \<longrightarrow> dhas rej' k \<or> (\<exists>w. check_one k v = Inr (w, None) \<and> dget acc' k = Some w))"
proof (induction us "(acc, rej)" arbitrary: acc rej rule: check_all.induct)
  case (2 key val us acc rej)
  obtain norm err where c: "check_one key val = Inr (norm, err)" using 2(3) by (auto simp: res_bind_Inr)
  have d: "dwf us" "\<not> dhas us key" using 2(4) dwf_ConsD [OF 2(4)] by (auto simp: dhas_def)
  show ?case
  proof (cases err)
    case (Some e)
    then have rest: "check_all us (acc, dset key e rej) = Inr (acc', rej')" using 2(3) c by simp
    have "\<forall>k. dhas us k \<longrightarrow> \<not> dhas acc k" using 2(5) by (auto simp: dhas_def)
    from 2(2) [OF rest d(1) this]
    have I: "(\<forall>k. dhas (dset key e rej) k \<longrightarrow> dhas rej' k) \<and> (\<forall>k. \<not> dhas us k \<longrightarrow> dget acc' k = dget acc k) \<and>
      (\<forall>k v. dget us k = Some v \<and> k \<noteq> ''schema'' \<longrightarrow> dhas rej' k \<or> (\<exists>w. check_one k v = Inr (w, None) \<and> dget acc' k = Some w))" by blast
    then show ?thesis by (auto simp: dhas_def split: if_splits)
  next
    case None
    let ?acc = "if key \<noteq> ''schema'' then dset key norm acc else acc"
    have rest: "check_all us (?acc, rej) = Inr (acc', rej')" using 2(3) c None by simp
    have "\<forall>k. dhas us k \<longrightarrow> \<not> dhas ?acc k" using 2(5) d(2) by (auto simp: dhas_def)
    from 2(1) [OF rest d(1) this]
    have I: "(\<forall>k. dhas rej k \<longrightarrow> dhas rej' k) \<and> (\<forall>k. \<not> dhas us k \<longrightarrow> dget acc' k = dget ?acc k) \<and>
      (\<forall>k v. dget us k = Some v \<and> k \<noteq> ''schema'' \<longrightarrow> dhas rej' k \<or> (\<exists>w. check_one k v = Inr (w, None) \<and> dget acc' k = Some w))" by blast
    then have "key \<noteq> ''schema'' \<Longrightarrow> dget acc' key = Some norm" using d(2) by simp
    with I c None d(2) show ?thesis by (auto simp: dhas_def split: if_splits)
  qed
qed (simp add: dhas_def)

text \<open>Every update but the schema number is accepted with its normalised value, or rejected.\<close>

lemma validate_answers:
  assumes "validate updates base = Inr (acc, rej)" "dwf updates" "dget updates k = Some v" "k \<noteq> ''schema''"
  shows "dhas rej k \<or> (\<exists>w. check_one k v = Inr (w, None) \<and> dget acc k = Some w)"
proof -
  obtain a1 r1 where c: "check_all updates ([], []) = Inr (a1, r1)" and l: "cross_loop CROSS_RULES (length CROSS_RULES + 1) (flatten base []) (a1, r1) = Inr (acc, rej)"
    using assms(1) by (auto simp: validate_def res_bind_Inr)
  have "dhas r1 k \<or> (\<exists>w. check_one k v = Inr (w, None) \<and> dget a1 k = Some w)"
    using check_all_answered [OF c assms(2)] assms(3,4) by (auto simp: dhas_def)
  with cross_loop_answered [OF l] show ?thesis by (fastforce simp: answered_def)
qed

section \<open>From the command line to the daemon's configuration\<close>

lemma store_updates_validates:
  "store_updates env updates d = (Inr (acc, rej, p, e), d') \<Longrightarrow> validate updates (dm_config d) = Inr (acc, rej)"
  unfolding store_updates_def Let_def by (simp split: sum.splits prod.splits if_splits)

lemma check_one_spec: "check_one k v = Inr (w, None) \<Longrightarrow> k \<noteq> ''schema'' \<Longrightarrow> \<exists>x. dget SPEC k = Some x"
  by (cases "dget SPEC k") (auto simp: check_one_def split: if_splits)

lemma str_vals_empty: "truthy (str_vals rej) = (rej \<noteq> [])"
  by (simp add: str_vals_def)

lemma reply_rejected: "py_get (config_reply acc rej p err dg) ''rejected'' = str_vals rej"
  "py_get (config_reply acc rej p err dg @ rest) ''rejected'' = str_vals rej"
  by (simp_all add: config_reply_def py_get_def)

text \<open>A reply without rejections: every update is in force, the GPU mode apart.\<close>

lemma set_config_all_in_force:
  assumes wf: "cfg_wf (dm_config d)" and sc: "set_config env upd d = (Inr out, d')" and none: "\<not> truthy (py_get out ''rejected'')" and up: "dwf upd"
    and k: "dget upd k = Some v" "k \<noteq> ''schema''" "k \<noteq> ''gpu.mode''"
  shows "\<exists>w. check_one k v = Inr (w, None) \<and> dget (flatten (dm_config d') []) k = Some w"
proof -
  let ?u = "dpop ''gpu.mode'' upd"
  have u: "dwf ?u" "dget ?u k = Some v" using up k by simp_all
  have main: "\<exists>w. check_one k v = Inr (w, None) \<and> dget (flatten (dm_config d1) []) k = Some w"
    if s: "store_updates env ?u d = (Inr (acc, [], p, err), d1)" for acc p err d1
  proof -
    obtain w where w: "check_one k v = Inr (w, None)" "dget acc k = Some w"
      using validate_answers [OF store_updates_validates [OF s] u k(2)] by (auto simp: dhas_def)
    obtain x where "dget SPEC k = Some x" using check_one_spec [OF w(1) k(2)] by blast
    then show ?thesis using store_updates_reports [OF wf s] w by (auto simp: in_force_def)
  qed
  from wf sc show ?thesis
  proof (cases rule: set_config_cases)
    case (plain acc rej p err)
    then have "rej = []" using none by (simp add: reply_rejected str_vals_empty)
    with plain show ?thesis using main by blast
  next
    case (kept acc rej p err m c)
    then have "rej = []" using none by (simp add: reply_rejected str_vals_empty)
    with kept show ?thesis using main by blast
  next
    case (mode acc rej p err d1 res)
    then have "rej = []" using none by (simp add: reply_rejected str_vals_empty)
    with mode(1) obtain w where w: "check_one k v = Inr (w, None)" "dget (flatten (dm_config d1) []) k = Some w" using main by blast
    obtain x where x: "dget SPEC k = Some x" using check_one_spec [OF w(1) k(2)] by blast
    have "cfg_wf (dm_config d1)" using store_updates_reports [OF wf mode(1)] by blast
    from set_gpu_reports [OF this mode(2)] obtain m where "in_force (dm_config d1) [(''gpu.mode'', PStr m)] (dm_config d')" by blast
    then show ?thesis using w x k(3) by (auto simp: in_force_def)
  next
    case (refused acc rej p err msg)
    then have "dset ''gpu.mode'' msg rej = []" using none by (simp add: reply_rejected str_vals_empty)
    moreover have "dset ''gpu.mode'' msg rej \<noteq> []" by (cases rej) simp_all
    ultimately show ?thesis by blast
  qed simp
qed

lemma set_config_wf:
  assumes "cfg_wf (dm_config d)" "set_config env updates d = (r, d')"
  shows "cfg_wf (dm_config d')"
proof -
  have S: "cfg_wf (dm_config d1)" if "store_updates env u d = (r1, d1)" for u r1 d1
    using assms(1) that by (cases rule: store_updates_cases) (use assms(1) in simp_all)
  from assms show ?thesis
  proof (cases rule: set_config_cases)
    case (mode acc rej p err d1 res)
    show ?thesis using set_gpu_reports [OF S [OF mode(1)] mode(2)] by blast
  qed (use S in blast)+
qed

text \<open>The daemon at the other end of the socket: what \<open>call\<close> gives (see \<open>call_roundtrip\<close>).\<close>

definition daemon_call :: "denv \<Rightarrow> (string \<Rightarrow> rat res) \<Rightarrow> conn_env \<Rightarrow> dstate \<Rightarrow> string \<Rightarrow> pyval dict \<Rightarrow> pyval res" where
  "daemon_call denv of_text ce d cmd args = (case fst (dispatch denv of_text cmd args d) of Inr v \<Rightarrow> Inr v | Inl e \<Rightarrow> Inl (ProtocolError (exn_reply ce e)))"

lemma ctl_runs: "snd (ctl_prints ls k) = snd k" "snd (ctl_then (Inr x) f) = snd (f x)" "snd (ctl_then (Inl e) f) = Inl e"
  by (simp_all add: ctl_prints_def ctl_then_def)

lemma ctl_then_status: "snd (ctl_then r f) = Inr n \<Longrightarrow> \<exists>x. r = Inr x \<and> snd (f x) = Inr n"
  by (cases r) (simp_all add: ctl_then_def)

lemma ctl_main_zero: "snd (ctl_main env json c) = Inr 0 \<Longrightarrow> snd (ctl_body env json c) = Inr 0"
proof -
  assume a: "snd (ctl_main env json c) = Inr 0"
  obtain ls r where b: "ctl_body env json c = (ls, r)" by (metis surj_pair)
  show ?thesis
  proof (cases r)
    case (Inl e)
    then show ?thesis using a b by (cases e) (simp_all add: ctl_main_def)
  qed (use a b in \<open>simp add: ctl_main_def\<close>)
qed

lemma config_report_zero:
  assumes "snd (config_report env (PDict out)) = Inr 0"
  shows "\<not> truthy (py_get out ''rejected'')"
proof -
  from ctl_then_status [OF assms [unfolded config_report_def]] obtain acc where
    1: "snd (ctl_then (res_bind (at_val (PDict out) ''rejected'') items_of) (\<lambda>rej. ctl_prints (map (\<lambda>(k, v). ''REJECTED '' @ k @ '': '' @ ct_str env v) rej)
        (ctl_then (as_dict (PDict out)) (\<lambda>d.
          ctl_prints (if truthy (case dget d ''persisted'' of Some p \<Rightarrow> p | None \<Rightarrow> PBool True) then []
              else [''WARNING applied live but not saved: '' @ ct_str env (py_get d ''error'')])
            ([], Inr (if rej \<noteq> [] then 1 else 0)))))) = Inr 0" unfolding ctl_runs by blast
  from ctl_then_status [OF 1] obtain rej where r: "res_bind (at_val (PDict out) ''rejected'') items_of = Inr rej" "rej = []"
    by (auto simp: ctl_runs as_dict_def split: if_splits)
  then obtain v where v: "dget out ''rejected'' = Some v" "items_of v = Inr []" by (auto simp: at_val_def res_bind_Inr split: option.splits)
  then show ?thesis by (cases v) (simp_all add: items_of_def py_get_def)
qed


section \<open>The status is always shown\<close>

text \<open>A section is absent, empty or a dictionary.\<close>

definition sectionlike :: "pyval \<Rightarrow> bool" where
  "sectionlike v = (truthy v \<longrightarrow> is_dict v)"

text \<open>What the slow sample holds, as far as the printed status depends on its shape.\<close>

definition cpu_shape :: "pyval \<Rightarrow> bool" where
  "cpu_shape v = (case v of PDict d \<Rightarrow> (case py_get d ''temps'' of PDict t \<Rightarrow> sectionlike (py_get t ''cores'') | x \<Rightarrow> \<not> truthy x) | _ \<Rightarrow> \<not> truthy v)"

definition gpu_shape :: "pyval dict \<Rightarrow> bool" where
  "gpu_shape d = (\<forall>x. py_get d ''sclk_mhz'' \<noteq> PFloat x)"

definition fans_shape :: "pyval \<Rightarrow> bool" where
  "fans_shape v = (truthy v \<longrightarrow> (case v of PList l \<Rightarrow> list_all is_dict l | _ \<Rightarrow> False))"

definition slow_shape :: "pyval dict \<Rightarrow> bool" where
  "slow_shape sd = (sectionlike (py_get sd ''limits'') \<and> sectionlike (py_get sd ''msr_limits'') \<and> sectionlike (py_get sd ''msr'') \<and>
     cpu_shape (py_get sd ''cpu'') \<and> fans_shape (py_get sd ''fans'') \<and> (case dget sd ''gpu'' of Some (PDict g) \<Rightarrow> gpu_shape g | _ \<Rightarrow> True))"

lemma slow_has_shape:
  assumes "cpu_shape (PDict (sr_cpu r))" "gpu_shape (sr_gpu r)" "fans_shape (sr_fans r)"
  shows "slow_shape (sm_slow_data (slow r now wall s))"
proof -
  define s1 where "s1 = (if due (sm_smc_slow_t s) now (sm_slow_every_s s)
      then s\<lparr>sm_smc_slow := (if sm_extra s = [] then [] else map (\<lambda>(k, v). (k, round_val 3 v)) (sr_rails r), sr_smc_temps r), sm_smc_slow_t := Some now\<rparr> else s)"
  have "sm_slow_data (slow r now wall s) = [(''smc'', PDict (fst (sm_smc_slow s1))), (''msr'', therm_val (sr_therm r)), (''msr_limits'', msr_limit_val (sr_msr_limits r)),
      (''limits'', limits_val (sr_limits r)), (''smc_temps'', PDict (snd (sm_smc_slow s1))), (''fans'', sr_fans r), (''gpu'', PDict (sr_gpu r)), (''cpu'', PDict (sr_cpu r))]"
    unfolding slow_def Let_def s1_def [symmetric] by simp
  moreover have "sectionlike (limits_val a)" "sectionlike (msr_limit_val b)" "sectionlike (therm_val c)" for a b c
    by (simp_all add: sectionlike_def is_dict_def limits_val_def msr_limit_val_def therm_val_def split: option.split)
  ultimately show ?thesis using assms by (simp add: slow_shape_def py_get_def)
qed

text \<open>The readers of the program give these shapes.\<close>

lemma oint_val_no_float: "oint_val x \<noteq> PFloat y"
  by (cases x) (simp_all add: oint_val_def)

lemma gpu_read_shape: "gpu_shape (gpu_read env fs g)"
proof -
  have "py_get (gpu_base env fs g) ''sclk_mhz'' = PNone" by (simp add: gpu_base_def py_get_def split: option.split)
  moreover have "py_get (gpu_base env fs g @ xs) ''sclk_mhz'' = py_get xs ''sclk_mhz''" for xs
    by (simp add: gpu_base_def py_get_def split: option.split)
  ultimately show ?thesis using oint_val_no_float by (simp add: gpu_shape_def gpu_read_def) (simp add: py_get_def)
qed

lemma cpu_read_shape: "cpu_read ft glob fs sc now c = (Inr r, c') \<Longrightarrow> cpu_shape (PDict r)"
proof -
  have t: "sectionlike (py_get (fst (temps glob fs c)) ''cores'')" for c
    by (simp add: temps_def py_get_def sectionlike_def is_dict_def split: prod.split)
  assume "cpu_read ft glob fs sc now c = (Inr r, c')"
  then obtain tmp c1 c2 xs where "temps glob fs c1 = (tmp, c2)" "r = (''temps'', PDict tmp) # xs"
    unfolding cpu_read_def Let_def by (auto split: prod.splits sum.splits)
  with t [of c1] have "py_get r ''temps'' = PDict tmp" "sectionlike (py_get tmp ''cores'')" by (simp_all add: py_get_def)
  then show ?thesis by (simp add: cpu_shape_def)
qed

lemma f_num_ok [simp]: "is_ok (f_num (Fixed n) v)" "is_ok (f_num General v)" "(\<forall>x. v \<noteq> PFloat x) \<Longrightarrow> is_ok (f_num Decimal v)"
  by (cases v; simp add: f_num_def)+

lemma ctl_dur_ok [simp]: "is_ok (ctl_dur (pnum x))" "is_ok (ctl_dur (PInt n))"
  by (simp_all add: ctl_dur_def Let_def)

lemma ctl_hms_ok [simp]: "is_ok (ctl_hms lt (pnum x))"
  by (simp add: ctl_hms_def)

lemma g_any_ok [simp]: "is_ok (g_any (PFloat x))"
  by (simp add: g_any_def)

lemma is_dict_ex: "is_dict v \<Longrightarrow> \<exists>d. v = PDict d"
  by (cases v) (simp_all add: is_dict_def)

lemma sub_or_dict: "sectionlike (py_get s k) \<Longrightarrow> \<exists>d. sub_or s k = PDict d"
  by (cases "py_get s k") (auto simp: sub_or_def sectionlike_def is_dict_def)

lemma fld_or_dict: "sectionlike (py_get d k) \<Longrightarrow> \<exists>e. fld_or (PDict d) k = Inr (PDict e)"
  by (cases "py_get d k") (auto simp: fld_or_def sectionlike_def is_dict_def)

lemma fan_floor_text_ok: "sectionlike v \<Longrightarrow> is_ok (fan_floor_text pstr v)"
  by (cases v) (auto simp: fan_floor_text_def sectionlike_def is_dict_def Let_def)

lemma num_not_float: "\<not> is_ok (f_num Decimal v) \<Longrightarrow> \<exists>x. v = PFloat x"
  by (cases v) (simp_all add: f_num_def)

text \<open>Every line of a status whose sections have their shapes.\<close>

lemma status_lines_ok:
  "is_ok (ctl_dur (py_get gov ''in_state_s'')) \<Longrightarrow> is_ok (ctl_dur up) \<Longrightarrow> sectionlike (py_get s ''self'') \<Longrightarrow>
     up = (if truthy (py_get s ''daemon_uptime_s'') then py_get s ''daemon_uptime_s'' else PInt 0) \<Longrightarrow> is_ok (status_head pstr s (PDict gov))"
  "is_ok (status_input (PDict lat) (PDict der))"
  "py_get gov ''thermal_cap_w'' = onum tc \<Longrightarrow> is_ok (status_bands (PDict th) (PDict gov) (PDict der))"
  "is_ok (status_cpu (PDict lat) (PDict der) (PDict cpu))"
  "sectionlike (py_get lm ''sysfs'') \<Longrightarrow> sectionlike (py_get lm ''msr'') \<Longrightarrow> sectionlike (py_get lm ''firmware'') \<Longrightarrow> is_ok (status_limits (PDict gov) (PDict lm))"
  "is_ok (status_flags (PDict msr))"
  "gpu_shape gp \<Longrightarrow> is_ok (status_gpu pstr (PDict gp))"
  "sectionlike (py_get tm ''cores'') \<Longrightarrow> is_ok (status_temps (PDict tm))"
  "is_ok (status_counts pstr (PDict cnt))"
  subgoal using sub_or_dict [of s "''self''"] by (auto simp: status_head_def Let_def cat_ok)
  subgoal by (simp add: status_input_def cat_ok)
  subgoal by (cases tc) (simp_all add: status_bands_def cat_ok onum_def)
  subgoal by (simp add: status_cpu_def cat_ok)
  subgoal using fld_or_dict [of lm "''sysfs''"] fld_or_dict [of lm "''msr''"] fld_or_dict [of lm "''firmware''"] by (auto simp: status_limits_def cat_ok)
  subgoal by (simp add: status_flags_def cat_ok)
  subgoal by (auto simp: status_gpu_def cat_ok gpu_shape_def)
  subgoal using fld_or_dict [of tm "''cores''"] by (auto simp: status_temps_def cat_ok each_ok is_ok_bind list_all_iff is_ok_ex [symmetric])
  subgoal by (simp add: status_counts_def cat_ok split: option.split)
  done

lemma status_fans_ok:
  assumes "fans_shape (py_get s ''fans'')" "sectionlike (py_get s ''fan'')"
  shows "is_ok (status_fans pstr s)"
proof -
  obtain rows where r: "(if truthy (py_get s ''fans'') then py_get s ''fans'' else PList []) = PList rows" "list_all is_dict rows"
  proof (cases "truthy (py_get s ''fans'')")
    case True
    then obtain l where "py_get s ''fans'' = PList l" "list_all is_dict l" using assms(1) by (cases "py_get s ''fans''") (auto simp: fans_shape_def)
    with True show thesis using that [of l] by simp
  qed (use that [of "[]"] in simp)
  have "list_all (\<lambda>f. is_ok (cat [res_bind (fld f ''label'') (\<lambda>v. Inr (pstr v)), Inr '' '', res_bind (fld f ''rpm'') (\<lambda>v. Inr (pstr v)), Inr '' rpm''])) rows"
    using r(2) is_dict_ex by (fastforce simp: list_all_iff cat_ok)
  then have "is_ok (each (\<lambda>f. cat [res_bind (fld f ''label'') (\<lambda>v. Inr (pstr v)), Inr '' '', res_bind (fld f ''rpm'') (\<lambda>v. Inr (pstr v)), Inr '' rpm'']) rows)"
    unfolding each_ok .
  then obtain ls where "each (\<lambda>f. cat [res_bind (fld f ''label'') (\<lambda>v. Inr (pstr v)), Inr '' '', res_bind (fld f ''rpm'') (\<lambda>v. Inr (pstr v)), Inr '' rpm'']) rows = Inr ls"
    unfolding is_ok_ex by blast
  then show ?thesis using fan_floor_text_ok [OF assms(2), of pstr]
    unfolding status_fans_def Let_def r(1) cat_ok by (simp add: iter_of_def cat_ok)
qed

lemma status_peaks_ok:
  assumes "py_get s ''peaks'' = PDict (map (\<lambda>(k, p). (k, PDict [(''value'', PFloat (pk_value p)), (''ts'', pnum (pk_ts p))])) ps)"
  shows "is_ok (status_peaks lt s)"
proof -
  have e: "is_ok (each (\<lambda>(k, v). cat [Inr (k @ '' ''), res_bind (at_val v ''value'') g_any, Inr '' @ '', res_bind (at_val v ''ts'') (ctl_hms lt)])
      (map (\<lambda>(k, p). (k, PDict [(''value'', PFloat (pk_value p)), (''ts'', pnum (pk_ts p))])) ps))"
    by (auto simp: each_ok list_all_iff cat_ok at_val_def)
  have "sub_or s ''peaks'' = PDict (map (\<lambda>(k, p). (k, PDict [(''value'', PFloat (pk_value p)), (''ts'', pnum (pk_ts p))])) ps)"
    using assms by (cases ps) (simp_all add: sub_or_def)
  moreover obtain ls where "each (\<lambda>(k, v). cat [Inr (k @ '' ''), res_bind (at_val v ''value'') g_any, Inr '' @ '', res_bind (at_val v ''ts'') (ctl_hms lt)])
      (map (\<lambda>(k, p). (k, PDict [(''value'', PFloat (pk_value p)), (''ts'', pnum (pk_ts p))])) ps) = Inr ls" using e unfolding is_ok_ex by blast
  ultimately show ?thesis unfolding status_peaks_def cat_ok by (simp add: case_prod_beta)
qed

lemma status_tail_ok: "sectionlike (py_get s ''incident_check'') \<Longrightarrow> is_ok (status_tail pstr s (PDict gov))"
  using sub_or_dict [of s "''incident_check''"] by (auto simp: status_tail_def)

lemma PDict_section [simp]: "sectionlike (PDict d)"
  by (simp add: sectionlike_def is_dict_def)

text \<open>The parts of a status that the printed text reads.\<close>

lemma build_status_parts:
  assumes "build_status env now der d = Inr st"
  shows "\<exists>gov cnt lm gpd gm tc. py_get st ''governor'' = PDict gov \<and> gov \<noteq> [] \<and> is_ok (ctl_dur (py_get gov ''in_state_s'')) \<and>
      py_get gov ''thermal_cap_w'' = onum tc \<and> py_get gov ''counters'' = PDict cnt \<and> cnt \<noteq> [] \<and> gov_cfg_of (dm_config d) = Inr gm \<and> py_get gov ''mode'' = PStr (g_mode gm) \<and>
      py_get st ''limits'' = PDict lm \<and> lm \<noteq> [] \<and> py_get lm ''sysfs'' = py_get (sm_slow_data (dm_sampler d)) ''limits'' \<and>
      py_get lm ''msr'' = py_get (sm_slow_data (dm_sampler d)) ''msr_limits'' \<and> py_get lm ''firmware'' = dm_firmware d \<and>
      py_get st ''gpu'' = PDict gpd \<and> gpd \<noteq> [] \<and> (slow_shape (sm_slow_data (dm_sampler d)) \<longrightarrow> gpu_shape gpd)"
    "is_ok (ctl_dur (py_get st ''daemon_uptime_s''))" "py_get st ''self'' = (case dm_meter d of Some m \<Rightarrow> m | None \<Rightarrow> PNone)"
    "sectionlike (py_get st ''latest'')" "sectionlike (py_get st ''derived'')" "sectionlike (py_get st ''thresholds'')" "sectionlike (py_get st ''fan'')"
    "sectionlike (py_get st ''incident_check'')" "py_get st ''cpu'' = py_get (sm_slow_data (dm_sampler d)) ''cpu''" "py_get st ''msr'' = py_get (sm_slow_data (dm_sampler d)) ''msr''"
    "py_get st ''fans'' = py_get (sm_slow_data (dm_sampler d)) ''fans''" "st \<noteq> []"
    "py_get st ''peaks'' = PDict (map (\<lambda>(k, p). (k, PDict [(''value'', PFloat (pk_value p)), (''ts'', pnum (pk_ts p))])) (sm_peaks (dm_sampler d)))"
proof -
  obtain g gm gc fc where c: "gov_cfg_of (dm_config d) = Inr g" "gpu_section (dm_config d) = Inr (gm, gc)" "fan_cfg_of (dm_config d) = Inr fc"
    using assms unfolding build_status_def by (auto simp: res_bind_Inr)
  note st = assms [unfolded build_status_def c res_bind_simps prod.case Let_def sum.inject, symmetric]
  have gs: "gpu_shape (dmerge (case dget sd ''gpu'' of Some (PDict x) \<Rightarrow> x | _ \<Rightarrow> []) [(''config_mode'', PStr gm), (''cap_cfg_w'', v), (''busy'', PBool b), (''last_result'', r)])"
    if "slow_shape sd" for sd v b r
    using that by (auto simp: slow_shape_def gpu_shape_def py_get_def split: option.splits pyval.splits)
  have ne: "dmerge x [a, b, u, v] \<noteq> []" for x :: "pyval dict" and a b u v by (cases a; cases b; cases u; cases v) (simp add: update_Some_unfold neq_Nil_conv; cases x; simp)
  show "\<exists>gov cnt lm gpd gm tc. py_get st ''governor'' = PDict gov \<and> gov \<noteq> [] \<and> is_ok (ctl_dur (py_get gov ''in_state_s'')) \<and>
      py_get gov ''thermal_cap_w'' = onum tc \<and> py_get gov ''counters'' = PDict cnt \<and> cnt \<noteq> [] \<and> gov_cfg_of (dm_config d) = Inr gm \<and> py_get gov ''mode'' = PStr (g_mode gm) \<and>
      py_get st ''limits'' = PDict lm \<and> lm \<noteq> [] \<and> py_get lm ''sysfs'' = py_get (sm_slow_data (dm_sampler d)) ''limits'' \<and>
      py_get lm ''msr'' = py_get (sm_slow_data (dm_sampler d)) ''msr_limits'' \<and> py_get lm ''firmware'' = dm_firmware d \<and>
      py_get st ''gpu'' = PDict gpd \<and> gpd \<noteq> [] \<and> (slow_shape (sm_slow_data (dm_sampler d)) \<longrightarrow> gpu_shape gpd)"
    unfolding st c(1) using gs ne by (simp add: py_get_def gov_summary_def) (rule exI, rule refl)
  show "is_ok (ctl_dur (py_get st ''daemon_uptime_s''))" "py_get st ''self'' = (case dm_meter d of Some m \<Rightarrow> m | None \<Rightarrow> PNone)"
    "sectionlike (py_get st ''latest'')" "sectionlike (py_get st ''derived'')" "sectionlike (py_get st ''fan'')" "sectionlike (py_get st ''incident_check'')"
    "py_get st ''cpu'' = py_get (sm_slow_data (dm_sampler d)) ''cpu''" "py_get st ''msr'' = py_get (sm_slow_data (dm_sampler d)) ''msr''"
    "py_get st ''fans'' = py_get (sm_slow_data (dm_sampler d)) ''fans''" "st \<noteq> []"
    "py_get st ''peaks'' = PDict (map (\<lambda>(k, p). (k, PDict [(''value'', PFloat (pk_value p)), (''ts'', pnum (pk_ts p))])) (sm_peaks (dm_sampler d)))"
    unfolding st by (simp_all add: py_get_def derived_val_def)
  show "sectionlike (py_get st ''thresholds'')"
    unfolding st by (simp add: py_get_def thresholds_val_def sectionlike_def is_dict_def split: option.split)
qed

text \<open>
  C32: the status command cannot fail on a status of the daemon: every status that \<open>build_status\<close> makes is
  shown, whatever the sensors gave, as long as the slow sample, the saved firmware limits and the meter
  have the shapes their readers give them; in mode off the text ends with the warning.
\<close>

theorem status_always_shown:
  assumes "build_status denv now der d = Inr st" "slow_shape (sm_slow_data (dm_sampler d))" "sectionlike (dm_firmware d)"
    "sectionlike (case dm_meter d of Some m \<Rightarrow> m | None \<Rightarrow> PNone)"
  shows "\<exists>t. render_status pstr lt (PDict st) = Inr t \<and>
    (\<forall>g. gov_cfg_of (dm_config d) = Inr g \<and> g_mode g = ''off'' \<longrightarrow>
       (\<exists>pre. t = pre @ ''WARNING governor is OFF: telemetry only, no limits are being enforced by the daemon''))"
proof -
  note B = build_status_parts [OF assms(1)]
  from B(1) obtain gov cnt lm gpd gm tc where g: "py_get st ''governor'' = PDict gov" "gov \<noteq> []" "is_ok (ctl_dur (py_get gov ''in_state_s''))"
    "py_get gov ''thermal_cap_w'' = onum tc" "py_get gov ''counters'' = PDict cnt" "cnt \<noteq> []" "gov_cfg_of (dm_config d) = Inr gm" "py_get gov ''mode'' = PStr (g_mode gm)"
    "py_get st ''limits'' = PDict lm" "lm \<noteq> []" "py_get lm ''sysfs'' = py_get (sm_slow_data (dm_sampler d)) ''limits''"
    "py_get lm ''msr'' = py_get (sm_slow_data (dm_sampler d)) ''msr_limits''" "py_get lm ''firmware'' = dm_firmware d"
    "py_get st ''gpu'' = PDict gpd" "gpd \<noteq> []" "gpu_shape gpd" using assms(2) by blast
  have sh: "sectionlike (py_get st ''msr'')" "cpu_shape (py_get st ''cpu'')" "fans_shape (py_get st ''fans'')"
    "sectionlike (py_get lm ''sysfs'')" "sectionlike (py_get lm ''msr'')" "sectionlike (py_get lm ''firmware'')" "sectionlike (py_get st ''self'')"
    using assms(2-4) B(3,9-11) g(11-13) by (simp_all add: slow_shape_def)
  have subs: "sub_or st ''governor'' = PDict gov" "sub_or st ''limits'' = PDict lm" "sub_or st ''gpu'' = PDict gpd"
    "fld_or (PDict gov) ''counters'' = Inr (PDict cnt)" using g by (simp_all add: sub_or_def fld_or_def)
  obtain lat de th msr where su: "sub_or st ''latest'' = PDict lat" "sub_or st ''derived'' = PDict de" "sub_or st ''thresholds'' = PDict th" "sub_or st ''msr'' = PDict msr"
    using sub_or_dict B(4-6) sh(1) by meson
  obtain cp tm where cp: "sub_or st ''cpu'' = PDict cp" "fld_or (PDict cp) ''temps'' = Inr (PDict tm)" "sectionlike (py_get tm ''cores'')"
  proof (cases "truthy (py_get st ''cpu'')")
    case True
    then obtain c where c: "py_get st ''cpu'' = PDict c" using sh(2) by (cases "py_get st ''cpu''") (auto simp: cpu_shape_def)
    then have o: "sub_or st ''cpu'' = PDict c" using True by (simp add: sub_or_def)
    show thesis
    proof (cases "truthy (py_get c ''temps'')")
      case True
      then obtain t where "py_get c ''temps'' = PDict t" "sectionlike (py_get t ''cores'')" using sh(2) c by (cases "py_get c ''temps''") (auto simp: cpu_shape_def)
      with True show thesis using that [OF o, of t] by (simp add: fld_or_def)
    qed (use that [OF o, of "[]"] in \<open>simp add: fld_or_def py_get_def sectionlike_def\<close>)
  next
    case False
    then have "sub_or st ''cpu'' = PDict []" by (simp add: sub_or_def)
    then show thesis by (rule that [of _ "[]"]) (simp_all add: fld_or_def py_get_def sectionlike_def)
  qed
  have up: "is_ok (ctl_dur (if truthy (py_get st ''daemon_uptime_s'') then py_get st ''daemon_uptime_s'' else PInt 0))" using B(2) by simp
  let ?lines = "[status_head pstr st (PDict gov), status_input (PDict lat) (PDict de), status_bands (PDict th) (PDict gov) (PDict de), status_cpu (PDict lat) (PDict de) (PDict cp),
      status_limits (PDict gov) (PDict lm), status_flags (PDict msr), status_gpu pstr (PDict gpd), status_temps (PDict tm), status_fans pstr st, status_counts pstr (PDict cnt), status_peaks lt st]"
  have "is_ok (each id ?lines)" unfolding each_ok
    using status_lines_ok(1) [OF g(3) up sh(7) refl, of pstr] status_lines_ok(3) [OF g(4)] status_lines_ok(5) [OF sh(4-6)] status_lines_ok(7) [OF g(16)] status_lines_ok(8) [OF cp(3)]
      status_fans_ok [OF sh(3) B(7)] status_peaks_ok [OF B(13)] by (simp add: status_lines_ok(2,4,6,9))
  then obtain ls where ls: "each id ?lines = Inr ls" unfolding is_ok_ex by blast
  obtain ic where ic: "sub_or st ''incident_check'' = PDict ic" using sub_or_dict [OF B(8)] by blast
  obtain boot where tl: "status_tail pstr st (PDict gov) = Inr (boot @ (if py_get gov ''mode'' = PStr ''off''
        then [''WARNING governor is OFF: telemetry only, no limits are being enforced by the daemon''] else []))"
    by (simp add: status_tail_def ic)
  have nt: "\<not> (\<not> truthy (PDict st))" using B(12) by simp
  have r: "render_status pstr lt (PDict st) = Inr (join_with [CHR 0x0A] (ls @ boot @ (if py_get gov ''mode'' = PStr ''off''
        then [''WARNING governor is OFF: telemetry only, no limits are being enforced by the daemon''] else [])))"
    unfolding render_status_def Let_def if_not_P [OF nt] items_dict res_bind_simps subs su cp(1,2) ls tl by (rule refl)
  have "join_with [CHR 0x0A] (xs @ [w]) = (if xs = [] then [] else join_with [CHR 0x0A] xs @ [CHR 0x0A]) @ w" for xs w
    by (induction "[CHR 0x0A]" xs rule: join_with.induct) simp_all
  then have "\<exists>pre. join_with [CHR 0x0A] (ls @ boot @ [w]) = pre @ w" for w by (metis append.assoc)
  with r g(7,8) show ?thesis by auto
qed

section \<open>What the exit status does not tell\<close>

text \<open>With \<open>--json\<close> the status of a configuration command is 0 whatever was rejected.\<close>

lemma ctl_json_hides_rejections:
  "items \<noteq> [] \<Longrightarrow> parse_assignments (ct_loads env) items = Inr upd \<Longrightarrow> kw_call env ''config.set'' upd = Inr r \<Longrightarrow>
     ctl_config env True items = ([Out (ct_pretty env r)], Inr 0)"
  by (simp add: ctl_config_def ctl_then_def ctl_prints_def)

text \<open>An assignment to a name the method uses itself raises instead of being rejected by the daemon.\<close>

lemma ctl_timeout_key: "dhas upd ''timeout'' \<Longrightarrow> kw_call env ''config.set'' upd = Inl (TypeError ''call() got multiple values for argument'')"
  by (simp add: kw_call_def)

text \<open>Without confirmation the GPU is not asked to power off: the result does not depend on the daemon.\<close>

lemma ctl_off_gate: "strip (ct_typed env) \<noteq> ''OFF'' \<Longrightarrow>
    ctl_main (env\<lparr>ct_call := f\<rparr>) json (Gpu ''off'' False) =
      ([Out ''Powering off the dGPU may leave the internal panel black until reboot.'', Out ''aborted''], Inr 1)"
  by (simp add: ctl_main_def ctl_body_def ctl_gpu_def ctl_prints_def)

section \<open>An example\<close>

abbreviation demo_upd :: "pyval dict" where "demo_upd \<equiv> [(''governor.ceiling_w'', PInt 40)]"

lemma demo_validate: "validate demo_upd DEFAULTS = Inr (demo_upd, [])"
proof -
  have "pf_le (Fin 35) (pf_add (Fin 40) EPS)" using eps_le [of 35 40] by simp
  then show ?thesis using DEFAULTS_cmp DEFAULTS_recover DEFAULTS_emergency
    by (simp add: validate_def check_one_witness CROSS_RULES_def cmp2_def cfg_num_def thermal_rule_def DEFAULTS_flat del: pf_le.simps pf_less.simps pf_add.simps)
qed

lemma demo_ctl_set:
  "\<exists>p err d'. set_config demo_denv demo_upd (demo_blank\<lparr>dm_config := DEFAULTS\<rparr>) =
     (Inr (config_reply demo_upd [] p err (dv_digest demo_denv (dm_config d'))), d')"
proof -
  let ?d = "demo_blank\<lparr>dm_config := DEFAULTS\<rparr>"
  obtain cfg where c: "apply_updates DEFAULTS demo_upd = Inr cfg" using validate_apply [OF DEFAULTS_wf demo_validate] by blast
  obtain fs sv where v: "save_config demo_denv cfg (dm_fs demo_blank) = (fs, sv)" by (metis surj_pair)
  have u: "dpop ''gpu.mode'' demo_upd = demo_upd" "py_get demo_upd ''gpu.mode'' = PNone" by (simp_all add: py_get_def)
  have "side_effects demo_denv demo_upd d = Inr d" for d by (simp add: side_effects_def has_prefix_def starts_with_def dhas_def)
  then have "\<exists>p err d'. store_updates demo_denv demo_upd ?d = (Inr (demo_upd, [], p, err), d')"
    by (simp add: store_updates_def demo_validate c v Let_def del: apply_updates.simps)
  then obtain p err d' where "store_updates demo_denv demo_upd ?d = (Inr (demo_upd, [], p, err), d')" by blast
  then have "set_config demo_denv demo_upd ?d = (Inr (config_reply demo_upd [] p err (dv_digest demo_denv (dm_config d'))), d')"
    unfolding set_config_def u by (simp add: Let_def config_reply_def)
  then show ?thesis by blast
qed

definition demo_cli :: "dstate \<Rightarrow> ctl_env" where
  "demo_cli d = \<lparr>ct_call = daemon_call demo_denv (\<lambda>_. Inl (ValueError [])) demo_conn d, ct_stream = ([], None), ct_pretty = (\<lambda>_. []), ct_dumps = (\<lambda>_. ''v''),
     ct_str = (\<lambda>_. ''v''), ct_repr = id, ct_loads = (\<lambda>t. if t = ''40'' then Some (PInt 40) else None), ct_local = (\<lambda>_. []), ct_typed = []\<rparr>"


theorem status_always_shown_witness:
  "\<exists>st t. build_status demo_denv 0 None (demo_blank\<lparr>dm_config := DEFAULTS\<rparr>) = Inr st \<and> render_status (\<lambda>_. []) (\<lambda>_. []) (PDict st) = Inr t"
proof -
  let ?d = "demo_blank\<lparr>dm_config := DEFAULTS\<rparr>"
  obtain g where g: "gov_cfg_of DEFAULTS = Inr g" using gov_cfg_of_wf [OF DEFAULTS_wf] by blast
  obtain m c where m: "gpu_section DEFAULTS = Inr (m, c)" using gpu_section_wf [OF DEFAULTS_wf] by blast
  obtain fc where fc: "fan_cfg_of DEFAULTS = Inr fc"
    by (simp add: fan_cfg_of_def DEFAULTS_def cfg_section_def sect_str_def sect_num_def sect_int_def sect_val_def)
  obtain st where st: "build_status demo_denv 0 None ?d = Inr st" by (simp add: build_status_def g m fc Let_def)
  have "slow_shape (sm_slow_data (dm_sampler ?d))" "sectionlike (dm_firmware ?d)" "sectionlike (case dm_meter ?d of Some m \<Rightarrow> m | None \<Rightarrow> PNone)"
    by (simp_all add: demo_blank_def sampler_init_def slow_shape_def sectionlike_def cpu_shape_def fans_shape_def py_get_def)
  from status_always_shown [OF st this, of "\<lambda>_. []" "\<lambda>_. []"] obtain t where "render_status (\<lambda>_. []) (\<lambda>_. []) (PDict st) = Inr t" by (elim exE conjE)
  with st show ?thesis by (intro exI conjI)
qed

end
