(* ===== verification/Ui.thy ===== *)
theory Ui
  imports Fmt
begin

text \<open>
  \<open>tui/app.py\<close> and \<open>tui/widgets.py\<close>: what the terminal UI does with the statuses it gets. The drawing
  library's widgets, colours and message loop are not modelled; handlers are functions on the state of the
  application, and requests to the backend are values.
\<close>

section \<open>Widgets\<close>

text \<open>\<open>call_backend\<close>: the result and error text that reach the callback; the type's name stands for an empty message.\<close>

definition call_backend :: "(py_exn \<Rightarrow> string) \<Rightarrow> (py_exn \<Rightarrow> string) \<Rightarrow> pyval res \<Rightarrow> pyval \<times> string option" where
  "call_backend exc_str type_name r =
    (case r of Inr v \<Rightarrow> (v, None) | Inl e \<Rightarrow> (PNone, Some (if exc_str e \<noteq> [] then exc_str e else type_name e)))"

text \<open>\<open>Panel.render\<close>: a build error is recorded and shown in the panel.\<close>

definition panel_render :: "(py_exn \<Rightarrow> string) \<Rightarrow> string \<Rightarrow> rich res \<Rightarrow> string list \<Rightarrow> rich \<times> string list" where
  "panel_render exc_repr name r errs =
    (case r of Inr t \<Rightarrow> (t, errs) | Inl e \<Rightarrow> ([(''render error: '' @ exc_repr e, RED)], errs @ [name @ '': '' @ exc_repr e]))"

definition clean :: "pyval list \<Rightarrow> rat list" where
  "clean vs = map fl (List.map_filter num_of vs)"

definition BARS :: "string list" where
  "BARS = map (\<lambda>c. [CHR 0xE2, CHR 0x96, c]) [CHR 0x81, CHR 0x82, CHR 0x83, CHR 0x84, CHR 0x85, CHR 0x86, CHR 0x87, CHR 0x88]"

definition LOW_BAR :: string where "LOW_BAR = [CHR 0xE2, CHR 0x96, CHR 0x81]"

definition max_of :: "rat list \<Rightarrow> rat" where
  "max_of xs = foldl max (hd xs) (tl xs)"

definition min_of :: "rat list \<Rightarrow> rat" where
  "min_of xs = foldl min (hd xs) (tl xs)"

text \<open>The slice \<open>data[int(step * i):max(int(step * i) + 1, int(step * (i + 1)))]\<close> for the exact step \<open>len(data) / width\<close>.\<close>

definition bucket :: "rat list \<Rightarrow> nat \<Rightarrow> nat \<Rightarrow> rat list" where
  "bucket xs width i =
    (let a = length xs * i div width; b = max (a + 1) (length xs * (i + 1) div width) in take (b - a) (drop a xs))"

definition spark_cells :: "nat \<Rightarrow> rat list \<Rightarrow> rat list" where
  "spark_cells width xs = (if width < length xs then map (\<lambda>i. max_of (bucket xs width i)) [0..<width] else xs)"

text \<open>\<open>ScaledSparkline.render\<close>; \<open>shade f\<close> is the colour of the share \<open>f\<close>.\<close>

definition spark_glyph :: "(rat \<Rightarrow> string) \<Rightarrow> rat \<Rightarrow> rat \<Rightarrow> rat \<Rightarrow> string \<times> string" where
  "spark_glyph shade lo scale v =
    (let f = min 1 (max 0 (fdiv (fsub v lo) scale)) in (BARS ! nat (min 7 (trunc_rat (fmul f 8))), shade f))"

definition sparkline :: "(rat \<Rightarrow> string) \<Rightarrow> rat \<Rightarrow> rat option \<Rightarrow> int \<Rightarrow> rat list \<Rightarrow> rich" where
  "sparkline shade lo hi cols xs =
    (let width = nat (max 1 cols) in
     if xs = [] then styled (concat (replicate width LOW_BAR)) EMPTY
     else let hi_val = max (case hi of Some h \<Rightarrow> h | None \<Rightarrow> max_of xs) (max_of xs);
              d = fsub hi_val lo; scale = (if d = 0 then 1 else d);
              cells = spark_cells width xs
          in styled (replicate (width - length cells) (CHR '' '')) [] @ map (spark_glyph shade lo scale) cells)"

text \<open>\<open>SparkRow.set\<close>: the data of both lines and the text of current value and range.\<close>

definition spark_row :: "string \<Rightarrow> bool \<Rightarrow> pyval list \<Rightarrow> pyval list \<Rightarrow> pyval \<Rightarrow> nat \<Rightarrow> rat list \<times> rat list option \<times> rich" where
  "spark_row unit has_long short_vals long_vals cur nd =
    (let a = clean short_vals; b = (if has_long then clean long_vals else a); r = (if b \<noteq> [] then b else a)
     in (a, if has_long then Some b else None,
         styled (rjust 8 (num cur unit (int nd) '' '')) ''bold''
         @ (if r \<noteq> [] then [(''  '' @ fmt_fixed nd (min_of r) @ DASH @ num (PFloat (Fin (max_of r))) unit (int nd) '' '', DIM)] else [])))"

text \<open>\<open>GpuOffScreen\<close>: the answer of the dialog to the typed text, if it closes.\<close>

definition off_confirm :: "string \<Rightarrow> bool option" where
  "off_confirm typed = (if strip typed = ''OFF'' then Some True else None)"

section \<open>The application's data\<close>

definition FAST_SPAN_S :: rat where "FAST_SPAN_S = 60"
definition SERIES :: "string list" where "SERIES = [''input'', ''pkg'', ''gpu'', ''temp'']"

definition series :: "pyval dict \<Rightarrow> pyval dict res" where
  "series s =
    (let lat = sub_or s ''latest''; gpu = sub_or s ''gpu''; cpu = sub_or s ''cpu'' in
     res_bind (fld lat ''pdtr_w'') (\<lambda>i. res_bind (fld lat ''package_w'') (\<lambda>p. res_bind (fld gpu ''power_w'') (\<lambda>g.
     res_bind (fld_or cpu ''temps'') (\<lambda>t. res_bind (fld t ''pkg_c'') (\<lambda>c.
       Inr [(''input'', i), (''pkg'', p), (''gpu'', g), (''temp'', c)]))))))"

record app =
  ap_status :: "pyval dict"
  ap_paused :: bool
  ap_peaks :: "(string \<times> rat \<times> rat) list"
  ap_peaks_since :: "rat option"
  ap_fast :: "string \<Rightarrow> (rat \<times> pyval) list"
  ap_slow :: "string \<Rightarrow> pyval list"
  ap_smc_keys :: "int option"
  ap_os_name :: pyval

definition app_init :: app where
  "app_init = \<lparr>ap_status = [], ap_paused = False, ap_peaks = [], ap_peaks_since = None, ap_fast = (\<lambda>_. []), ap_slow = (\<lambda>_. []),
     ap_smc_keys = None, ap_os_name = PNone\<rparr>"

text \<open>One buffer: cleared when the clock went back, the value appended, what left the window popped.\<close>

definition buf_push :: "rat \<Rightarrow> pyval \<Rightarrow> (rat \<times> pyval) list \<Rightarrow> (rat \<times> pyval) list" where
  "buf_push ts v buf =
    (let buf = (if buf \<noteq> [] \<and> ts < fsub (fst (last buf)) 1 then [] else buf)
     in dropWhile (\<lambda>x. fst x < fsub ts FAST_SPAN_S) (buf @ [(ts, v)]))"

definition peak_push :: "rat \<Rightarrow> string \<times> pyval \<Rightarrow> (string \<times> rat \<times> rat) list \<Rightarrow> (string \<times> rat \<times> rat) list" where
  "peak_push ts e ps =
    (case num_of (snd e) of
       None \<Rightarrow> ps
     | Some x \<Rightarrow> (case dget ps (fst e) of
         Some (best, _) \<Rightarrow> if best < x then dset (fst e) (fl x, ts) ps else ps
       | None \<Rightarrow> dset (fst e) (fl x, ts) ps))"

text \<open>\<open>on_status\<close>; an exception leaves what was stored before it.\<close>

definition on_status :: "pyval \<Rightarrow> app \<Rightarrow> unit res \<times> app" where
  "on_status st a =
    (case st of
       PDict s \<Rightarrow>
         if s = [] then (Inr (), a)
         else let a = a\<lparr>ap_status := s\<rparr> in
           (case num_of (py_get s ''ts'') of
              None \<Rightarrow> (Inr (), a)
            | Some ts \<Rightarrow>
                (case res_bind (series s) (\<lambda>vals. res_bind (fld (sub_or s ''latest'') ''a'') (\<lambda>amps. Inr (vals, amps))) of
                   Inl e \<Rightarrow> (Inl e, a)
                 | Inr (vals, amps) \<Rightarrow>
                     (Inr (), a\<lparr>ap_fast := (\<lambda>k. if k \<in> set SERIES then buf_push ts (py_get vals k) (ap_fast a k) else ap_fast a k),
                               ap_peaks_since := (if ap_peaks_since a = None then Some ts else ap_peaks_since a),
                               ap_peaks := fold (peak_push ts) (vals @ [(''amps'', amps)]) (ap_peaks a)\<rparr>)))
     | _ \<Rightarrow> (Inr (), a))"

text \<open>\<open>set_history\<close>: the long series, and the short one seeded when it is nearly empty.\<close>

definition HISTORY_COLUMNS :: "(string \<times> string) list" where
  "HISTORY_COLUMNS = [(''input'', ''input_w''), (''pkg'', ''pkg_w''), (''gpu'', ''gpu_w''), (''temp'', ''pkg_c'')]"

definition seed :: "string \<Rightarrow> pyval dict list \<Rightarrow> (rat \<times> pyval) list \<Rightarrow> (rat \<times> pyval) list" where
  "seed fld_name rows buf =
    (if 8 \<le> length buf \<or> rows = [] then buf
     else case num_of (py_get (last rows) ''ts'') of
       None \<Rightarrow> buf
     | Some end_ts \<Rightarrow>
         List.map_filter (\<lambda>r. case num_of (py_get r ''ts'') of
             Some t \<Rightarrow> if fsub end_ts FAST_SPAN_S < t then Some (t, py_get r fld_name) else None | None \<Rightarrow> None) rows
         @ filter (\<lambda>x. end_ts < fst x) buf)"

definition set_history :: "pyval dict list \<Rightarrow> app \<Rightarrow> app" where
  "set_history rows a =
    a\<lparr>ap_slow := (\<lambda>k. case dget HISTORY_COLUMNS k of Some f \<Rightarrow> map (\<lambda>r. py_get r f) rows | None \<Rightarrow> ap_slow a k),
      ap_fast := (\<lambda>k. case dget HISTORY_COLUMNS k of Some f \<Rightarrow> seed f rows (ap_fast a k) | None \<Rightarrow> ap_fast a k)\<rparr>"

text \<open>\<open>got_initial\<close>: the status counts only when none came over the subscription.\<close>

definition got_initial :: "(pyval \<times> pyval dict list \<times> int \<times> pyval) option \<Rightarrow> app \<Rightarrow> unit res \<times> app" where
  "got_initial r a =
    (case r of
       None \<Rightarrow> (Inr (), a)
     | Some (st, hist, nkeys, osn) \<Rightarrow>
         let a = set_history hist (a\<lparr>ap_smc_keys := Some nkeys, ap_os_name := osn\<rparr>)
         in if truthy st \<and> ap_status a = [] then on_status st a else (Inr (), a))"

definition action_reset_peaks :: "app \<Rightarrow> app" where
  "action_reset_peaks a = a\<lparr>ap_peaks := [], ap_peaks_since := None\<rparr>"

definition action_pause :: "app \<Rightarrow> app" where
  "action_pause a = a\<lparr>ap_paused := \<not> ap_paused a\<rparr>"

section \<open>The header line\<close>

text \<open>A segment: priority, whether it stands on the left, text.\<close>

type_synonym seg = "nat \<times> bool \<times> rich"

definition segs_len :: "seg list \<Rightarrow> nat" where
  "segs_len segs = sum_list (map (\<lambda>(_, _, t). ulen (plain_of t)) segs)"

fun fit :: "nat \<Rightarrow> rich \<Rightarrow> nat list \<Rightarrow> seg list \<Rightarrow> seg list" where
  "fit width short [] segs = segs"
| "fit width short (prio # prios) segs =
    (if segs_len segs < width then segs
     else fit width short prios (filter (\<lambda>(p, _, _). prio < p)
            (if prio = 4 then map (\<lambda>(p, l, t). if p = 4 then (6, l, short) else (p, l, t)) segs else segs)))"

definition header_line :: "nat \<Rightarrow> rich \<Rightarrow> seg list \<Rightarrow> rich" where
  "header_line width short segs =
    (let kept = fit width short [0..<10] segs;
         side = (\<lambda>l. concat (map (\<lambda>(_, _, t). t) (filter (\<lambda>(_, x, _). x = l) kept)));
         pad = max 1 (int width - int (ulen (plain_of (side True))) - int (ulen (plain_of (side False))))
     in side True @ styled (replicate (nat pad) (CHR '' '')) [] @ side False)"

record header_be =
  hb_connected :: bool
  hb_kind :: string
  hb_label :: string

definition MIDDOT :: string where "MIDDOT = [CHR '' '', CHR 0xC2, CHR 0xB7, CHR '' '']"

definition or_dash :: "(pyval \<Rightarrow> string) \<Rightarrow> pyval \<Rightarrow> string" where
  "or_dash pstr v = (if truthy v then pstr v else DASH)"

text \<open>The segments of \<open>HeaderBar.render\<close>; \<open>now\<close> is the clock.\<close>

definition header_segs :: "(pyval \<Rightarrow> string) \<Rightarrow> (rat \<Rightarrow> string) \<Rightarrow> rat \<Rightarrow> header_be \<Rightarrow> app \<Rightarrow> seg list res" where
  "header_segs pstr lt now be a =
    (let s = ap_status a; gov = sub_or s ''governor''; smc_ok = py_get s ''smc_ok'' in
     res_bind (fld gov ''mode'') (\<lambda>mode. res_bind (fld gov ''state'') (\<lambda>state. res_bind (fld gov ''in_state_s'') (\<lambda>ins.
     res_bind (fld (sub_or s ''self'') ''cpu_pct'') (\<lambda>me. res_bind (fld (sub_or s ''cpu'') ''uptime_s'') (\<lambda>up. Inr
      [(9, True, styled '' TurboMac '' ''bold #ffffff on #1f6feb''),
       (9, True, styled ('' '' @ or_dash pstr (py_get s ''host'')) ''bold''),
       (2, True, if truthy (ap_os_name a) then styled (MIDDOT @ pstr (ap_os_name a)) [] else []),
       (3, True, styled (MIDDOT @ ''up '' @ dur up) DIM),
       (8, True, styled (MIDDOT @ ''governor '') DIM @ [(upper (or_dash pstr mode), ''bold''), ('' '', [])] @ badge pstr state @ [('' '' @ dur ins, DIM)]),
       (9, False, if ap_paused a then styled '' PAUSED '' ''bold #0b0e14 on #f0a020'' @ [('' '', [])] else []),
       (0, False, styled ''daemon '' DIM @ [(num me ''%'' 1 '' '', []), (MIDDOT, DIM)]),
       (5, False, styled ''SMC '' DIM @ [(if truthy smc_ok then ''ok'' else if smc_ok = PNone then DASH else ''DOWN'',
                                         if truthy smc_ok then GREEN else if smc_ok = PNone then DIM else ''bold '' @ RED)]),
       (1, False, case ap_smc_keys a of Some n \<Rightarrow> styled ('' '' @ str_int n @ '' keys'') DIM | None \<Rightarrow> []),
       (9, False, styled MIDDOT [] @ (if hb_connected be then styled (DOT_ON @ '' '') GREEN else styled (DOT_OFF @ '' disconnected'') (''bold '' @ RED))),
       (4, False, if hb_connected be then styled (hb_label be) [] else []),
       (1, False, if hb_kind be = ''replay'' then styled '' (log time)'' DIM else []),
       (9, False, styled (MIDDOT @ hms lt (if hb_kind be = ''replay'' then py_get s ''ts'' else PFloat (Fin now)) @ '' '') ''bold'')]))))))"

definition header :: "(pyval \<Rightarrow> string) \<Rightarrow> (rat \<Rightarrow> string) \<Rightarrow> rat \<Rightarrow> header_be \<Rightarrow> nat \<Rightarrow> app \<Rightarrow> rich res" where
  "header pstr lt now be width a =
    res_bind (header_segs pstr lt now be a) (\<lambda>segs. Inr (header_line width (styled (if hb_connected be then hb_kind be else []) []) segs))"

end
