(* ===== verification/Ui_Props.thy ===== *)
theory Ui_Props
  imports Ui
begin

text \<open>
  Properties of the terminal UI's data and drawing: lines have the width of the screen, a sparkline never
  hides the peak, the short series are the last minute of what was seen, and peaks are maxima.
\<close>

section \<open>The header line\<close>

definition side_of :: "bool \<Rightarrow> seg list \<Rightarrow> rich" where
  "side_of l segs = concat (map (\<lambda>(_, _, t). t) (filter (\<lambda>(_, x, _). x = l) segs))"

lemma sides_len: "ulen (plain_of (side_of True segs)) + ulen (plain_of (side_of False segs)) = segs_len segs"
  by (induction segs) (auto simp: side_of_def segs_len_def)

lemma fit_result: "(\<forall>s \<in> set segs. fst s \<le> 9) \<Longrightarrow> (\<forall>s \<in> set segs. k \<le> fst s) \<Longrightarrow> 0 < width \<Longrightarrow> segs_len (fit width short [k..<10] segs) < width"
proof (induction "10 - k" arbitrary: k segs)
  case 0
  have "segs = []"
  proof (rule ccontr)
    assume "segs \<noteq> []"
    then obtain s ss where "segs = s # ss" by (cases segs) auto
    then show False using 0 by force
  qed
  then show ?case using 0 by (simp add: segs_len_def)
next
  case (Suc n)
  let ?segs = "filter (\<lambda>(p, _, _). k < p) (if k = 4 then map (\<lambda>(p, l, t). if p = 4 then (6, l, short) else (p, l, t)) segs else segs)"
  have k: "[k..<10] = k # [Suc k..<10]" using Suc(2) by (simp add: upt_rec)
  have "segs_len (fit width short [Suc k..<10] ?segs) < width"
  proof (rule Suc(1))
    show "n = 10 - Suc k" using Suc(2) by simp
    show "\<forall>s\<in>set ?segs. fst s \<le> 9" using Suc(3) by (auto split: if_splits)
    show "\<forall>s\<in>set ?segs. Suc k \<le> fst s" by auto
    show "0 < width" using Suc(5) .
  qed
  then show ?case unfolding k by simp
qed

lemma header_line_sides: "header_line width short segs = (let kept = fit width short [0..<10] segs in
    side_of True kept @ styled (replicate (nat (max 1 (int width - int (segs_len kept)))) (CHR '' '')) [] @ side_of False kept)"
proof -
  have "int width - int (ulen (plain_of (side_of True x))) - int (ulen (plain_of (side_of False x))) = int width - int (segs_len x)" for x
    using sides_len [of x] by linarith
  then show ?thesis unfolding header_line_def Let_def side_of_def [symmetric] by (simp only:)
qed

text \<open>The essential segments stay when they fit by themselves.\<close>

lemma fit_keeps_essential:
  "(\<forall>s \<in> set segs. k \<le> fst s \<and> fst s \<le> 9) \<Longrightarrow> segs_len (filter (\<lambda>s. fst s = 9) segs) < width \<Longrightarrow>
     filter (\<lambda>s. fst s = 9) (fit width short [k..<10] segs) = filter (\<lambda>s. fst s = 9) segs"
proof (induction "10 - k" arbitrary: k segs)
  case (Suc n)
  let ?segs = "filter (\<lambda>(p, _, _). k < p) (if k = 4 then map (\<lambda>(p, l, t). if p = 4 then (6, l, short) else (p, l, t)) segs else segs)"
  have k: "[k..<10] = k # [Suc k..<10]" using Suc(2) by (simp add: upt_rec)
  show ?case
  proof (cases "segs_len segs < width")
    case False
    then have k9: "k < 9"
    proof (rule contrapos_np)
      assume "\<not> k < 9"
      then have "\<forall>s \<in> set segs. fst s = 9" using Suc(3) by force
      then have "filter (\<lambda>s. fst s = 9) segs = segs" by (simp add: filter_id_conv)
      then show "segs_len segs < width" using Suc(4) by simp
    qed
    have m: "filter (\<lambda>s. fst s = 9) (map (\<lambda>(p, l, t). if p = 4 then (6, l, short) else (p, l, t)) xs) = filter (\<lambda>s. fst s = 9) xs" for xs :: "seg list"
      by (induction xs) (auto split: if_splits)
    have f: "filter (\<lambda>s. fst s = 9) (filter (\<lambda>(p, _, _). k < p) xs) = filter (\<lambda>s. fst s = 9) xs" for xs :: "seg list"
      using k9 by (induction xs) auto
    have e: "filter (\<lambda>s. fst s = 9) ?segs = filter (\<lambda>s. fst s = 9) segs" using m f by simp
    have "filter (\<lambda>s. fst s = 9) (fit width short [Suc k..<10] ?segs) = filter (\<lambda>s. fst s = 9) ?segs"
    proof (rule Suc(1))
      show "n = 10 - Suc k" using Suc(2) by simp
      show "\<forall>s\<in>set ?segs. Suc k \<le> fst s \<and> fst s \<le> 9" using Suc(3) by (auto split: if_splits)
      show "segs_len (filter (\<lambda>s. fst s = 9) ?segs) < width" unfolding e using Suc(4) .
    qed
    then show ?thesis unfolding k using False e by simp
  qed (simp add: k)
qed simp

text \<open>
  The header always fills the line exactly, whatever the status and however narrow the terminal, and
  it drops an essential segment only when the essential ones do not fit by themselves.
\<close>

theorem header_fits:
  assumes "0 < width" "\<forall>s \<in> set segs. fst s \<le> 9"
  shows "ulen (plain_of (header_line width short segs)) = width \<and>
    (segs_len (filter (\<lambda>s. fst s = 9) segs) < width \<longrightarrow>
       filter (\<lambda>s. fst s = 9) (fit width short [0..<10] segs) = filter (\<lambda>s. fst s = 9) segs)"
proof -
  let ?kept = "fit width short [0..<10] segs"
  have "segs_len ?kept < width" using fit_result [OF assms(2) _ assms(1), of 0] by simp
  then have "ulen (plain_of (side_of True ?kept)) + nat (max 1 (int width - int (segs_len ?kept))) + ulen (plain_of (side_of False ?kept)) = width"
    using sides_len [of ?kept] by linarith
  then have "ulen (plain_of (header_line width short segs)) = width" by (simp add: header_line_sides Let_def)
  with fit_keeps_essential [of segs 0] assms(2) show ?thesis by simp
qed

theorem header_fits_witness:
  "ulen (plain_of (header_line 12 (styled ''m'' []) [(9, True, styled ''TurboMac'' []), (4, False, styled ''mock seed 1'' []), (1, False, styled ''keys'' [])])) = 12"
  using header_fits [of 12 "[(9, True, styled ''TurboMac'' []), (4, False, styled ''mock seed 1'' []), (1, False, styled ''keys'' [])]" "styled ''m'' []"] by simp

section \<open>Sparklines\<close>

lemma foldl_max: "foldl max (a :: rat) xs = Max (insert a (set xs))"
proof (induction xs arbitrary: a)
  case (Cons x xs)
  have "Max (insert a (insert x (set xs))) = Max (insert (max a x) (set xs))"
    by (cases "xs = []") (simp_all add: max.assoc)
  then show ?case using Cons by simp
qed simp

lemma max_of_Max: "xs \<noteq> [] \<Longrightarrow> max_of xs = Max (set xs)"
  by (cases xs) (simp_all add: max_of_def foldl_max)

lemma bucket_exists:
  assumes "0 < w" "j < n"
  shows "\<exists>i < w. n * i div w \<le> j \<and> j < n * (i + 1) div (w :: nat)"
proof -
  let ?P = "\<lambda>i. j < n * (i + 1) div w"
  have e: "?P (w - 1)" using assms by simp
  define i where "i = (LEAST i. ?P i)"
  have i: "?P i" "i \<le> w - 1" unfolding i_def using LeastI [of ?P, OF e] Least_le [of ?P, OF e] by auto
  have "n * i div w \<le> j"
  proof (cases i)
    case (Suc m)
    then have "\<not> ?P m" using not_less_Least [of m ?P] unfolding i_def by simp
    then show ?thesis using Suc by simp
  qed simp
  with i assms(1) show ?thesis by (intro exI [of _ i]) auto
qed

lemma bucket_nonempty: "i < w \<Longrightarrow> w < length xs \<Longrightarrow> bucket xs w i \<noteq> []"
proof -
  assume "i < w" "w < length xs"
  then have "length xs * i div w < length xs" by (metis div_less_iff_less_mult gr_implies_not0 less_nat_zero_code linorder_neqE_nat mult.commute mult_less_mono2)
  then show ?thesis by (simp add: bucket_def Let_def)
qed

lemma bucket_subset: "set (bucket xs w i) \<subseteq> set xs"
  unfolding bucket_def Let_def by (meson order_trans set_drop_subset set_take_subset)

lemma bucket_covers:
  assumes "0 < w" "x \<in> set xs"
  shows "\<exists>i < w. x \<in> set (bucket xs w i)"
proof -
  obtain j where j: "j < length xs" "xs ! j = x" using assms(2) by (auto simp: in_set_conv_nth)
  obtain i where i: "i < w" "length xs * i div w \<le> j" "j < length xs * (i + 1) div w" using bucket_exists [OF assms(1) j(1)] by blast
  let ?a = "length xs * i div w" and ?b = "max (length xs * i div w + 1) (length xs * (i + 1) div w)"
  have "j - ?a < ?b - ?a" "?a + (j - ?a) = j" using i by auto
  then have "take (?b - ?a) (drop ?a xs) ! (j - ?a) = x" "j - ?a < length (take (?b - ?a) (drop ?a xs))" using j by auto
  then have "x \<in> set (bucket xs w i)" unfolding bucket_def Let_def by (metis nth_mem)
  then show ?thesis using i(1) by blast
qed

lemma spark_cells_length: "length (spark_cells w xs) = min w (length xs)"
  by (simp add: spark_cells_def)

lemma spark_cells_max:
  assumes "0 < w" "xs \<noteq> []"
  shows "Max (set (spark_cells w xs)) = Max (set xs)"
proof (cases "w < length xs")
  case True
  have ne: "bucket xs w i \<noteq> []" if "i < w" for i using bucket_nonempty [OF that True] .
  have s: "set (spark_cells w xs) = (\<lambda>i. Max (set (bucket xs w i))) ` {..<w}"
    using True ne by (auto simp: spark_cells_def max_of_Max atLeast0LessThan)
  have in_xs: "(\<lambda>i. Max (set (bucket xs w i))) ` {..<w} \<subseteq> set xs"
  proof
    fix x assume "x \<in> (\<lambda>i. Max (set (bucket xs w i))) ` {..<w}"
    then obtain i where "i < w" "x = Max (set (bucket xs w i))" by blast
    then show "x \<in> set xs" using Max_in [of "set (bucket xs w i)"] ne bucket_subset [of xs w i] by auto
  qed
  obtain i where i: "i < w" "Max (set xs) \<in> set (bucket xs w i)" using bucket_covers [OF assms(1)] assms(2) by (metis List.finite_set Max_in set_empty)
  then have "Max (set xs) \<le> Max (set (bucket xs w i))" by simp
  also have "\<dots> \<le> Max (set (spark_cells w xs))" unfolding s using i(1) by (intro Max_ge) auto
  finally have "Max (set xs) \<le> Max (set (spark_cells w xs))" .
  moreover have "Max (set (spark_cells w xs)) \<le> Max (set xs)" unfolding s using in_xs assms(1) by (intro Max_mono) auto
  ultimately show ?thesis by simp
qed (simp add: spark_cells_def)

lemma ulen_low: "ulen (concat (replicate n LOW_BAR)) = n"
proof -
  have "ulen LOW_BAR = 1" by code_simp
  then show ?thesis by (induction n) simp_all
qed

lemma ulen_bars: "k < 8 \<Longrightarrow> ulen (BARS ! k) = 1"
proof -
  have "list_all (\<lambda>s. ulen s = 1) BARS" by code_simp
  moreover have "length BARS = 8" by (simp add: BARS_def)
  ultimately show "k < 8 \<Longrightarrow> ulen (BARS ! k) = 1" by (simp add: list_all_length)
qed

lemma spark_glyph_len: "ulen (fst (spark_glyph shade lo scale v)) = 1"
  unfolding spark_glyph_def Let_def by (simp add: ulen_bars nat_less_iff)

lemma plain_cells: "ulen (plain_of (map (spark_glyph shade lo scale) cells)) = length cells"
  by (induction cells) (simp_all add: plain_of_def spark_glyph_len)

text \<open>
  A sparkline has exactly one character for each column of its widget, and squeezing many values into
  few columns never hides the peak: the highest cell is the highest value.
\<close>

theorem sparkline_faithful:
  assumes "xs \<noteq> []"
  shows "int (ulen (plain_of (sparkline shade lo hi cols xs))) = max 1 cols \<and> Max (set (spark_cells (nat (max 1 cols)) xs)) = Max (set xs)"
  using assms spark_cells_max [of "nat (max 1 cols)" xs]
  by (simp add: sparkline_def Let_def plain_cells spark_cells_length)

theorem sparkline_faithful_witness:
  "int (ulen (plain_of (sparkline (\<lambda>_. []) 0 None 2 [1, 5, 2, 3, 1]))) = 2"
  using sparkline_faithful [of "[1, 5, 2, 3, 1]" "\<lambda>_. []" 0 None 2] by simp

section \<open>The short series and the peaks\<close>

text \<open>A status with a time and with everything the series need, and the values that are taken from it.\<close>

definition vals_of :: "pyval dict \<Rightarrow> (rat \<times> pyval dict \<times> pyval) option" where
  "vals_of s = (case num_of (py_get s ''ts'') of None \<Rightarrow> None
     | Some ts \<Rightarrow> (case res_bind (series s) (\<lambda>vals. res_bind (fld (sub_or s ''latest'') ''a'') (\<lambda>amps. Inr (vals, amps))) of
         Inl _ \<Rightarrow> None | Inr va \<Rightarrow> Some (ts, va)))"

definition after :: "pyval dict list \<Rightarrow> app \<Rightarrow> app" where
  "after sts a = fold (\<lambda>s a. snd (on_status (PDict s) a)) sts a"

lemma on_status_vals:
  assumes "vals_of s = Some (ts, vals, amps)"
  shows "on_status (PDict s) a = (Inr (), a\<lparr>ap_status := s,
    ap_fast := (\<lambda>k. if k \<in> set SERIES then buf_push ts (py_get vals k) (ap_fast a k) else ap_fast a k),
    ap_peaks_since := (if ap_peaks_since a = None then Some ts else ap_peaks_since a),
    ap_peaks := fold (peak_push ts) (vals @ [(''amps'', amps)]) (ap_peaks a)\<rparr>)"
proof -
  have ne: "s \<noteq> []" using assms by (auto simp: vals_of_def py_get_def)
  have n: "num_of (py_get s ''ts'') = Some ts"
    and v: "res_bind (series s) (\<lambda>vals. res_bind (fld (sub_or s ''latest'') ''a'') (\<lambda>amps. Inr (vals, amps))) = Inr (vals, amps)"
    using assms unfolding vals_of_def by (auto split: option.splits sum.splits)
  show ?thesis using ne by (simp add: on_status_def Let_def n v cong: if_cong)
qed

lemma dropWhile_sorted: "sorted (map fst xs) \<Longrightarrow> dropWhile (\<lambda>x. fst x < c) xs = filter (\<lambda>x. c \<le> fst x) (xs :: (rat \<times> 'a) list)"
proof (induction xs)
  case (Cons x xs)
  show ?case
  proof (cases "fst x < c")
    case False
    then have "\<forall>y \<in> set (x # xs). c \<le> fst y" using Cons(2) by fastforce
    then have "filter (\<lambda>x. c \<le> fst x) (x # xs) = x # xs" by (simp add: filter_id_conv)
    then show ?thesis using False by simp
  qed (use Cons in simp)
qed simp

lemma fsub_mono: "a \<le> b \<Longrightarrow> fsub a c \<le> fsub b c"
  by (intro fl_mono) simp

text \<open>One push, on a buffer that already is the last minute of \<open>xs\<close>.\<close>

lemma buf_push_window:
  assumes "sorted (map fst xs @ [ts])" "\<forall>x \<in> set xs. is_double (fst x)"
    "buf = (if xs = [] then [] else filter (\<lambda>x. fsub (fst (last xs)) FAST_SPAN_S \<le> fst x) xs)"
  shows "buf_push ts v buf = filter (\<lambda>x. fsub ts FAST_SPAN_S \<le> fst x) (xs @ [(ts, v)])"
proof -
  have le: "fst x \<le> ts" if "x \<in> set xs" for x using assms(1) that by (auto simp: sorted_append)
  have sub: "set buf \<subseteq> set xs" using assms(3) by auto
  have keep: "\<not> (buf \<noteq> [] \<and> ts < fsub (fst (last buf)) 1)"
  proof
    assume b: "buf \<noteq> [] \<and> ts < fsub (fst (last buf)) 1"
    then have l: "last buf \<in> set xs" using sub last_in_set by blast
    then have "fsub (fst (last buf)) 1 \<le> fst (last buf)" using assms(2) by (intro fl_le) simp_all
    then show False using le [OF l] b by simp
  qed
  have srt: "sorted (map fst (buf @ [(ts, v)]))"
  proof -
    have "sorted (map fst buf)" using assms(1,3) by (simp add: sorted_append sorted_wrt_map sorted_wrt_filter)
    then show ?thesis using le sub by (auto simp: sorted_append)
  qed
  have f: "filter (\<lambda>x. fsub ts FAST_SPAN_S \<le> fst x) buf = filter (\<lambda>x. fsub ts FAST_SPAN_S \<le> fst x) xs"
  proof (cases "xs = []")
    case False
    then have "fsub (fst (last xs)) FAST_SPAN_S \<le> fsub ts FAST_SPAN_S" using le by (intro fsub_mono) simp
    then show ?thesis using assms(3) False by (auto intro!: filter_cong)
  qed (use assms(3) in simp)
  have e: "buf_push ts v buf = dropWhile (\<lambda>x. fst x < fsub ts FAST_SPAN_S) (buf @ [(ts, v)])" unfolding buf_push_def Let_def if_not_P [OF keep] by (rule refl)
  show ?thesis unfolding e dropWhile_sorted [OF srt] using f by simp
qed

definition seen_at :: "string \<Rightarrow> pyval dict \<Rightarrow> rat \<times> pyval" where
  "seen_at k s = (fst (the (vals_of s)), py_get (fst (snd (the (vals_of s)))) k)"

lemma after_window:
  assumes "\<forall>s \<in> set sts. vals_of s \<noteq> None" "k \<in> set SERIES" "sorted (map (fst \<circ> seen_at k) sts)"
    "\<forall>s \<in> set sts. is_double (fst (seen_at k s))" "ap_fast a k = []"
  shows "ap_fast (after sts a) k =
    (if sts = [] then [] else filter (\<lambda>x. fsub (fst (last (map (seen_at k) sts))) FAST_SPAN_S \<le> fst x) (map (seen_at k) sts))"
  using assms(1,3,4)
proof (induction sts rule: rev_induct)
  case (snoc s sts)
  obtain ts vals amps where v: "vals_of s = Some (ts, vals, amps)" using snoc(2) by fastforce
  have se: "seen_at k s = (ts, py_get vals k)" by (simp add: seen_at_def v)
  have IH: "ap_fast (after sts a) k =
    (if map (seen_at k) sts = [] then [] else filter (\<lambda>x. fsub (fst (last (map (seen_at k) sts))) FAST_SPAN_S \<le> fst x) (map (seen_at k) sts))"
    using snoc(1) snoc(2-4) by (simp add: sorted_append)
  have "ap_fast (after (sts @ [s]) a) k = buf_push ts (py_get vals k) (ap_fast (after sts a) k)"
    using assms(2) by (simp add: after_def on_status_vals [OF v])
  also have "\<dots> = filter (\<lambda>x. fsub ts FAST_SPAN_S \<le> fst x) (map (seen_at k) sts @ [(ts, py_get vals k)])"
    using snoc(3,4) by (intro buf_push_window [OF _ _ IH]) (auto simp: se comp_def)
  finally show ?case by (simp add: se)
qed (simp add: after_def assms(5))

text \<open>
  The short series of the dashboard is exactly the last 60 seconds of what the subscription delivered:
  every value of the last minute is in it, in order, and nothing older, whatever the number of statuses.
\<close>

theorem short_series_last_minute:
  assumes "\<forall>s \<in> set (sts @ [s]). vals_of s \<noteq> None" "k \<in> set SERIES"
    "sorted (map (fst \<circ> seen_at k) (sts @ [s]))" "\<forall>s \<in> set (sts @ [s]). is_double (fst (seen_at k s))" "ap_fast a k = []"
  shows "ap_fast (after (sts @ [s]) a) k = filter (\<lambda>x. fsub (fst (seen_at k s)) FAST_SPAN_S \<le> fst x) (map (seen_at k) (sts @ [s]))"
  using after_window [OF assms] by simp

definition ui_status :: "int \<Rightarrow> int \<Rightarrow> pyval dict" where
  "ui_status t w = [(''ts'', PInt t), (''latest'', PDict [(''pdtr_w'', PInt w), (''package_w'', PInt 30), (''a'', PInt 2)])]"

lemma ui_status_vals: "vals_of (ui_status t w) =
    Some (of_int t, [(''input'', PInt w), (''pkg'', PInt 30), (''gpu'', PNone), (''temp'', PNone)], PInt 2)"
  by (simp add: vals_of_def ui_status_def series_def sub_or_def fld_def fld_or_def py_get_def Let_def)

theorem short_series_last_minute_witness:
  "ap_fast (after [ui_status 100 40, ui_status 150 41, ui_status 170 42] app_init) ''input'' = [(150, PInt 41), (170, PInt 42)]"
proof -
  have s: "seen_at ''input'' (ui_status t w) = (of_int t, PInt w)" for t w by (simp add: seen_at_def ui_status_vals py_get_def)
  have "ap_fast (after ([ui_status 100 40, ui_status 150 41] @ [ui_status 170 42]) app_init) ''input''
    = filter (\<lambda>x. fsub (fst (seen_at ''input'' (ui_status 170 42))) FAST_SPAN_S \<le> fst x)
        (map (seen_at ''input'') ([ui_status 100 40, ui_status 150 41] @ [ui_status 170 42]))"
    by (rule short_series_last_minute) (simp_all add: s ui_status_vals SERIES_def app_init_def)
  then show ?thesis by (simp add: s FAST_SPAN_S_def)
qed

text \<open>Peaks: stored values are doubles, one push never loses a maximum.\<close>

definition peaks_ok :: "(string \<times> rat \<times> rat) list \<Rightarrow> bool" where
  "peaks_ok ps = (\<forall>k b t. dget ps k = Some (b, t) \<longrightarrow> is_double b)"

lemma peak_push_ok: "peaks_ok ps \<Longrightarrow> peaks_ok (peak_push ts e ps)"
  unfolding peak_push_def peaks_ok_def by (auto split: option.splits)

lemma peak_push_mono:
  assumes "peaks_ok ps" "dget ps k = Some (b, t)"
  shows "\<exists>b' t'. dget (peak_push ts e ps) k = Some (b', t') \<and> b \<le> b'"
proof (cases "num_of (snd e)")
  case (Some x)
  have d: "is_double b" using assms unfolding peaks_ok_def by blast
  show ?thesis
  proof (cases "k = fst e")
    case True
    have "b < x \<Longrightarrow> b \<le> fl x" by (intro fl_ge [OF d]) simp
    then show ?thesis using True assms(2) Some by (simp add: peak_push_def)
  next
    case False
    then show ?thesis using assms(2) Some by (auto simp: peak_push_def split: option.splits)
  qed
qed (use assms(2) in \<open>simp add: peak_push_def\<close>)

lemma peak_push_new:
  assumes "peaks_ok ps" "num_of (snd e) = Some x"
  shows "\<exists>b t. dget (peak_push ts e ps) (fst e) = Some (b, t) \<and> fl x \<le> b"
proof (cases "dget ps (fst e)")
  case (Some bt)
  obtain b t where bt: "bt = (b, t)" by (cases bt)
  then have "is_double b" using assms(1) Some unfolding peaks_ok_def by blast
  then have "\<not> b < x \<Longrightarrow> fl x \<le> b" by (intro fl_le) simp_all
  then show ?thesis using Some bt assms(2) by (simp add: peak_push_def)
qed (use assms(2) in \<open>simp add: peak_push_def\<close>)

lemma fold_peaks_ok: "peaks_ok ps \<Longrightarrow> peaks_ok (fold (peak_push ts) es ps)"
  by (induction es arbitrary: ps) (simp_all add: peak_push_ok)

lemma fold_peaks_mono:
  "peaks_ok ps \<Longrightarrow> dget ps k = Some (b, t) \<Longrightarrow> \<exists>b' t'. dget (fold (peak_push ts) es ps) k = Some (b', t') \<and> b \<le> b'"
proof (induction es arbitrary: ps b t)
  case (Cons e es)
  obtain b1 t1 where 1: "dget (peak_push ts e ps) k = Some (b1, t1)" "b \<le> b1" using peak_push_mono [OF Cons(2,3)] by blast
  then obtain b2 t2 where "dget (fold (peak_push ts) es (peak_push ts e ps)) k = Some (b2, t2)" "b1 \<le> b2"
    using Cons(1) [OF peak_push_ok [OF Cons(2)] 1(1)] by blast
  then show ?case using 1(2) by (intro exI [of _ b2] exI [of _ t2]) simp
qed simp

lemma fold_peaks_new:
  "peaks_ok ps \<Longrightarrow> e \<in> set es \<Longrightarrow> num_of (snd e) = Some x \<Longrightarrow> \<exists>b t. dget (fold (peak_push ts) es ps) (fst e) = Some (b, t) \<and> fl x \<le> b"
proof (induction es arbitrary: ps)
  case (Cons d es)
  show ?case
  proof (cases "d = e")
    case True
    obtain b t where 1: "dget (peak_push ts e ps) (fst e) = Some (b, t)" "fl x \<le> b" using peak_push_new [OF Cons(2,4)] by blast
    obtain b2 t2 where "dget (fold (peak_push ts) es (peak_push ts e ps)) (fst e) = Some (b2, t2)" "b \<le> b2"
      using fold_peaks_mono [OF peak_push_ok [OF Cons(2)] 1(1)] by blast
    then show ?thesis using 1(2) True by fastforce
  qed (use Cons in \<open>simp add: peak_push_ok\<close>)
qed simp

text \<open>Values that arrived: the four series and the input current.\<close>

definition arrived :: "pyval dict \<Rightarrow> (string \<times> pyval) list" where
  "arrived s = (case vals_of s of None \<Rightarrow> [] | Some (_, vals, amps) \<Rightarrow> vals @ [(''amps'', amps)])"

lemma after_peaks_ok: "peaks_ok (ap_peaks a) \<Longrightarrow> \<forall>s \<in> set sts. vals_of s \<noteq> None \<Longrightarrow> peaks_ok (ap_peaks (after sts a))"
proof (induction sts rule: rev_induct)
  case (snoc s sts)
  obtain ts vals amps where v: "vals_of s = Some (ts, vals, amps)" using snoc(3) by fastforce
  have "peaks_ok (ap_peaks (after sts a))" using snoc by simp
  then have "peaks_ok (fold (peak_push ts) (vals @ [(''amps'', amps)]) (ap_peaks (after sts a)))" by (rule fold_peaks_ok)
  then show ?case by (simp add: after_def on_status_vals [OF v])
qed (simp add: after_def)

lemma after_peak:
  assumes "peaks_ok (ap_peaks a)"
  shows "\<forall>s \<in> set sts. vals_of s \<noteq> None \<Longrightarrow> s \<in> set sts \<Longrightarrow> (k, v) \<in> set (arrived s) \<Longrightarrow> num_of v = Some x \<Longrightarrow>
    \<exists>b t. dget (ap_peaks (after sts a)) k = Some (b, t) \<and> fl x \<le> b"
proof (induction sts rule: rev_induct)
  case (snoc s' sts)
  obtain ts vals amps where v: "vals_of s' = Some (ts, vals, amps)" using snoc(2) by fastforce
  have ok: "peaks_ok (ap_peaks (after sts a))" using after_peaks_ok [OF assms] snoc(2) by simp
  have e: "ap_peaks (after (sts @ [s']) a) = fold (peak_push ts) (vals @ [(''amps'', amps)]) (ap_peaks (after sts a))"
    by (simp add: after_def on_status_vals [OF v])
  show ?case
  proof (cases "s = s'")
    case True
    then have "(k, v) \<in> set (vals @ [(''amps'', amps)])" using snoc(4) v by (simp add: arrived_def)
    from fold_peaks_new [OF ok this] snoc(5) show ?thesis unfolding e by simp
  next
    case False
    then obtain b t where 1: "dget (ap_peaks (after sts a)) k = Some (b, t)" "fl x \<le> b" using snoc by auto
    obtain b2 t2 where "dget (ap_peaks (after (sts @ [s']) a)) k = Some (b2, t2)" "b \<le> b2"
      unfolding e using fold_peaks_mono [OF ok 1(1)] by blast
    then show ?thesis using 1(2) by fastforce
  qed
qed simp

lemma action_reset_peaks_ok: "peaks_ok (ap_peaks (action_reset_peaks a))"
  by (simp add: action_reset_peaks_def peaks_ok_def)

text \<open>
  After the session's peaks were reset, no number that arrives is above the peak that is shown for it.
\<close>

theorem peaks_bound_everything_seen:
  assumes "\<forall>s \<in> set sts. vals_of s \<noteq> None" "s \<in> set sts" "(k, v) \<in> set (arrived s)" "num_of v = Some x"
  shows "\<exists>b t. dget (ap_peaks (after sts (action_reset_peaks a))) k = Some (b, t) \<and> fl x \<le> b"
  using after_peak [OF action_reset_peaks_ok assms] .

theorem peaks_bound_everything_seen_witness:
  "\<exists>b t. dget (ap_peaks (after [ui_status 100 40, ui_status 101 37] (action_reset_peaks app_init))) ''input'' = Some (b, t) \<and> 40 \<le> b"
proof -
  have "\<exists>b t. dget (ap_peaks (after [ui_status 100 40, ui_status 101 37] (action_reset_peaks app_init))) ''input'' = Some (b, t) \<and> fl 40 \<le> b"
    by (rule peaks_bound_everything_seen [where s = "ui_status 100 40" and v = "PInt 40"]) (simp_all add: ui_status_vals arrived_def)
  then show ?thesis by simp
qed

end
