(* ===== verification/Dashboard.thy ===== *)
theory Dashboard
  imports Ui Sampler Cpu
begin

text \<open>
  \<open>tui/screens/dashboard.py\<close>: the panels of the dashboard, each a function from the status and its width (and
  height) to the text it shows, or the exception that \<open>panel_render\<close> turns into an error text. What a status
  section is asked for with \<open>get\<close> raises when the section is no dictionary.
\<close>

definition LBAR :: string where "LBAR = [CHR '' '', CHR 0xE2, CHR 0x96, CHR 0x95]"
definition RBAR :: string where "RBAR = [CHR 0xE2, CHR 0x96, CHR 0x8F, CHR '' '']"
definition TRIANGLE :: string where "TRIANGLE = [CHR 0xE2, CHR 0x96, CHR 0xB2]"
definition DIAMOND :: string where "DIAMOND = [CHR 0xE2, CHR 0x97, CHR 0x86]"
definition ALMOST :: string where "ALMOST = [CHR '' '', CHR 0xE2, CHR 0x89, CHR 0x88, CHR '' '']"
definition CROSS :: string where "CROSS = [CHR '' '', CHR 0xC3, CHR 0x97, CHR '' '']"
definition CELSIUS :: string where "CELSIUS = [CHR 0xC2, CHR 0xB0, CHR ''C'']"
definition RARROW :: string where "RARROW = [CHR 0xE2, CHR 0x86, CHR 0x92, CHR '' '']"
definition NL :: string where "NL = [CHR 0x0A]"

text \<open>\<open>s.get(k) or {}\<close>, read as a dictionary.\<close>

definition sec :: "pyval dict \<Rightarrow> string \<Rightarrow> pyval dict res" where
  "sec s k = items_of (sub_or s k)"

definition rich_len :: "rich \<Rightarrow> nat" where
  "rich_len t = ulen (plain_of t)"

definition kv_of :: "string \<Rightarrow> string \<Rightarrow> string \<Rightarrow> string \<Rightarrow> rich" where
  "kv_of label v style end_text = kv [] label v style end_text"

text \<open>\<open>t or Text(\<dots>)\<close>: an empty text is false.\<close>

definition rich_or :: "rich \<Rightarrow> rich \<Rightarrow> rich" where
  "rich_or t other = (if plain_of t = [] then other else t)"

section \<open>The GPU\<close>

definition gpu_owner :: "(pyval \<Rightarrow> string) \<Rightarrow> pyval dict \<Rightarrow> string res" where
  "gpu_owner pstr gpu =
    res_bind (sec gpu ''switcheroo'') (\<lambda>sw.
      let plus = (\<lambda>k. starts_with ''+'' (case dget sw k of Some v \<Rightarrow> pstr v | None \<Rightarrow> [])) in
      Inr (if plus ''DIS'' then ''dGPU (Radeon)'' else if plus ''IGD'' then ''iGPU (Intel)'' else DASH))"

text \<open>The bar of power against cap, when both are known.\<close>

definition cap_bar :: "pyval dict \<Rightarrow> int \<Rightarrow> rich \<Rightarrow> rich" where
  "cap_bar gpu width t =
    (case (num_of (py_get gpu ''power_w''), num_of (py_get gpu ''cap_w'')) of
       (Some p, Some c) \<Rightarrow>
         if 0 < c then [('' '', [])] @ bar (PFloat (Fin (fdiv p c))) (max 3 (width - int (rich_len (t @ [('' '', [])])) - 1)) CYAN EMPTY else []
     | _ \<Rightarrow> [])"

definition present_text :: "pyval \<Rightarrow> string" where
  "present_text v = (if as_float v = Some (Fin 1) then ''yes'' else if as_float v = Some (Fin 0) then ''no'' else DASH)"

definition gpu_text :: "(pyval \<Rightarrow> string) \<Rightarrow> pyval dict \<Rightarrow> int \<Rightarrow> bool \<Rightarrow> rich res" where
  "gpu_text pstr gpu width with_bar =
    (let G = py_get gpu; live = G ''mode''; off = (live = PStr ''off'');
         t = styled (if off then ''OFF'' @ MIDDOT @ ''not polled'' else watts (G ''power_w'')) ''bold'' @ [(''  cap '' @ compact (G ''cap_w''), DIM)]
     in res_bind (sec gpu ''switcheroo'') (\<lambda>sw. res_bind (gpu_owner pstr gpu) (\<lambda>owner. Inr
        (t @ (if with_bar then cap_bar gpu width t else [])
         @ [(NL @ ''mode '', DIM), (upper (or_dash pstr live), ''bold '' @ (if off then GREY else CYAN)),
            (''  config '' @ or_dash pstr (G ''config_mode''), if G ''config_mode'' = live then DIM else AMBER)]
         @ (if truthy (G ''busy'') then [(''  CHANGING'', AMBER)] else []) @ [(NL, [])]
         @ kv_of [] (num (G ''temp_c'') CELSIUS 0 '' '') (temp_style (G ''temp_c'')) ''  ''
         @ kv_of ''busy'' (num (G ''busy_pct'') ''%'' 0 '' '') ''bold'' ''  ''
         @ [(num (G ''sclk_mhz'') ''MHz'' 0 '' '', ''bold''), (NL, [])]
         @ kv_of ''dpm'' (or_dash pstr (G ''dpm_level'')) ''bold'' ''  '' @ kv_of ''runtime'' (or_dash pstr (G ''runtime_status'')) ''bold'' [] @ [(NL, [])]
         @ kv_of ''PCI'' (or_dash pstr (G ''power_state'')) ''bold'' ''  '' @ kv_of ''present'' (present_text (G ''present'')) ''bold'' []
         @ [(NL @ ''sw '', DIM),
            (let l = join_with ''  '' (map (\<lambda>(k, v). k @ '' '' @ pstr v) (filter (\<lambda>x. \<not> ends_with ''Audio'' (fst x)) sw)) in if l = [] then DASH else l, []),
            (NL @ ''panel owner '', DIM), (owner, ''bold'')]))))"

definition gpu_panel :: "(pyval \<Rightarrow> string) \<Rightarrow> pyval dict \<Rightarrow> int \<Rightarrow> rich res" where
  "gpu_panel pstr s width =
    res_bind (sec s ''gpu'') (\<lambda>gpu. res_bind (gpu_text pstr gpu width True) (\<lambda>t.
      let r = py_get gpu ''last_result'' in
      if \<not> truthy r then Inr t
      else res_bind (items_of r) (\<lambda>d. Inr (t @
        [(NL @ ''last '', DIM), (pstr (py_get d ''mode'') @ '' '' @ (if truthy (py_get d ''ok'') then ''ok'' else ''FAILED''), if truthy (py_get d ''ok'') then GREEN else RED)]))))"

section \<open>The input gauge\<close>

text \<open>The full scale of the gauge; \<open>None\<close> is an infinite one.\<close>

definition gauge_scale :: "pyval \<Rightarrow> pyval \<Rightarrow> rat option res" where
  "gauge_scale acpw inp =
    (case num_of acpw of
       Some a \<Rightarrow> Inr (Some (max (case num_of inp of Some x \<Rightarrow> max a x | None \<Rightarrow> a) 80))
     | None \<Rightarrow> (case as_float (if truthy inp then inp else PInt 0) of
           None \<Rightarrow> Inl (TypeError '''>' not supported between these operands'')
         | Some (Fin x) \<Rightarrow> Inr (Some (max 80 x))
         | Some PosInf \<Rightarrow> Inr None
         | Some _ \<Rightarrow> Inr (Some 80)))"

definition scaled :: "rat option \<Rightarrow> int \<Rightarrow> rat \<Rightarrow> rat" where
  "scaled c bw x = (case c of Some y \<Rightarrow> fmul (fdiv x y) (of_int bw) | None \<Rightarrow> 0)"

text \<open>The cell \<open>i\<close> of the gauge: its colour is the band of the power it stands for.\<close>

definition gauge_cell :: "pyval dict \<Rightarrow> rat option \<Rightarrow> int \<Rightarrow> rat \<Rightarrow> int \<Rightarrow> (string \<times> string) res" where
  "gauge_cell th c bw filled i =
    res_bind (case c of Some y \<Rightarrow> band_style (PFloat (Fin (fmul (fdiv (of_int i + 1 / 2) (of_int bw)) y))) th | None \<Rightarrow> Inr GREY) (\<lambda>zone.
      let n = trunc_rat filled in
      Inr (if i < n then (BLOCK, zone)
        else if i = n \<and> fl (5 / 100) < fsub filled (of_int n) then (EIGHTHS ! nat (max 1 (trunc_rat (fmul (fsub filled (of_int n)) 8))), zone)
        else (SHADE, if zone = GREY then EMPTY else zone @ '' dim'')))"

text \<open>The second line: blanks with the marks of the thresholds and of the predicted input.\<close>

definition put_mark :: "rat option \<Rightarrow> int \<Rightarrow> pyval \<times> string \<times> string \<Rightarrow> rich \<Rightarrow> rich" where
  "put_mark c bw m marks =
    (case m of (v, glyph, style) \<Rightarrow>
       (case num_of v of None \<Rightarrow> marks | Some x \<Rightarrow> marks[nat (min (bw - 1) (max 0 (trunc_rat (scaled c bw x)))) := (glyph, style)]))"

definition input_head :: "pyval \<Rightarrow> string \<Rightarrow> rich" where
  "input_head inp style = styled ''INPUT '' ''bold'' @ [(rjust 7 (watts inp), ''bold '' @ style), (LBAR, [])]"

definition input_tail :: "bool \<Rightarrow> pyval dict \<Rightarrow> pyval dict \<Rightarrow> pyval \<Rightarrow> string \<Rightarrow> rich" where
  "input_tail wide lat der acpw style =
    [(RBAR, []), (watts acpw, ''bold''), ('' ACPW'', DIM)]
    @ (if wide then [(''   '' @ num (py_get lat ''v'') ''V'' 2 '' '' @ CROSS @ num (py_get lat ''a'') ''A'' 2 '' '', [])] else [])
    @ [(if wide then ''   headroom '' else MIDDOT @ ''hr '', DIM), (watts (py_get der ''headroom_w''), ''bold '' @ style)]"

definition gauge_width :: "int \<Rightarrow> rich \<Rightarrow> rich \<Rightarrow> int" where
  "gauge_width width hd_t tl_t = max 10 (width - int (rich_len hd_t) - int (rich_len tl_t))"

definition gauge :: "pyval dict \<Rightarrow> rat option \<Rightarrow> int \<Rightarrow> pyval \<Rightarrow> rich res" where
  "gauge th c bw inp =
    (let filled = (case num_of inp of Some x \<Rightarrow> scaled c bw x | None \<Rightarrow> 0) in each (gauge_cell th c bw filled) (map int [0..<nat bw]))"

definition input_marks :: "bool \<Rightarrow> pyval dict \<Rightarrow> pyval dict \<Rightarrow> pyval dict \<Rightarrow> pyval \<Rightarrow> rat option \<Rightarrow> int \<Rightarrow> nat \<Rightarrow> pyval \<Rightarrow> rich" where
  "input_marks wide lat der th acpw c bw indent pred =
    styled (replicate indent (CHR '' '')) []
    @ fold (put_mark c bw) [(py_get th ''recover_w'', TRIANGLE, GREEN), (py_get th ''shed_w'', TRIANGLE, AMBER), (py_get th ''emergency_w'', TRIANGLE, RED), (pred, DIAMOND, CYAN)]
        (replicate (nat bw) ('' '', []))
    @ (if wide then [(''  '' @ pd_contract acpw (py_get lat ''v'') @ MIDDOT @ ''1 s max '' @ watts (py_get der ''input_max_1s''), DIM)] else [])"

definition input_legend :: "bool \<Rightarrow> pyval dict \<Rightarrow> nat \<Rightarrow> pyval \<Rightarrow> pyval \<Rightarrow> rich" where
  "input_legend wide th indent pl1 pred =
    styled (if wide then replicate (indent - 2) (CHR '' '') else []) []
    @ concat (map (\<lambda>(label, k, st). [(TRIANGLE @ '' '', st), ((if wide then label @ '' '' else []) @ watts (py_get th k) @ ''  '', DIM)])
        [(''recover'', ''recover_w'', GREEN), (''shed'', ''shed_w'', AMBER), (''emergency'', ''emergency_w'', RED)])
    @ [(DIAMOND @ '' '', CYAN), (if wide then ''PL1 '' @ compact pl1 @ ALMOST @ watts pred @ '' predicted input'' else watts pred, DIM)]"

text \<open>\<open>InputPanel.build\<close>, as its three lines.\<close>

definition input_lines :: "pyval dict \<Rightarrow> int \<Rightarrow> (rich \<times> rich \<times> rich) res" where
  "input_lines s width =
    res_bind (sec s ''latest'') (\<lambda>lat. res_bind (sec s ''derived'') (\<lambda>der. res_bind (sec s ''thresholds'') (\<lambda>th. res_bind (sec s ''governor'') (\<lambda>gov.
    let inp = py_get der ''input_mean_1s''; a = py_get der ''acpw_median_10s''; acpw = (if truthy a then a else py_get lat ''acpw_w''); wide = (100 \<le> width);
        pl1 = py_get gov ''pl1_w''; pred = (case num_of pl1 of Some p \<Rightarrow> PFloat (Fin (predicted_input_w p)) | None \<Rightarrow> PNone)
    in res_bind (gauge_scale acpw inp) (\<lambda>c. res_bind (band_style inp th) (\<lambda>style.
       let hd_t = input_head inp style; tl_t = input_tail wide lat der acpw style; bw = gauge_width width hd_t tl_t
       in res_bind (gauge th c bw inp) (\<lambda>g. Inr
            (hd_t @ g @ tl_t, input_marks wide lat der th acpw c bw (rich_len hd_t) pred, input_legend wide th (rich_len hd_t) pl1 pred))))))))"

definition input_panel :: "pyval dict \<Rightarrow> int \<Rightarrow> rich res" where
  "input_panel s width = res_bind (input_lines s width) (\<lambda>(l1, l2, l3). Inr (l1 @ [(NL, [])] @ l2 @ [(NL, [])] @ l3))"

section \<open>CPU, governor and temperatures\<close>

text \<open>\<open>d.get(k) or []\<close>, iterated; the numbers of a list; \<open>v / n\<close> of a value.\<close>

definition rows_of :: "pyval dict \<Rightarrow> string \<Rightarrow> pyval list res" where
  "rows_of d k = iter_of (if truthy (py_get d k) then py_get d k else PList [])"

definition div_val :: "pyval \<Rightarrow> rat \<Rightarrow> pyval res" where
  "div_val v n = (case as_float (if truthy v then v else PInt 0) of
     Some (Fin x) \<Rightarrow> Inr (PFloat (Fin (fdiv x n))) | Some f \<Rightarrow> Inr (PFloat f) | None \<Rightarrow> Inl (TypeError ''unsupported operand for /''))"

definition mean_of :: "rat list \<Rightarrow> rat" where
  "mean_of xs = fdiv (fl (sum_list xs)) (of_nat (length xs))"

definition cpu_line :: "pyval dict \<Rightarrow> pyval dict \<Rightarrow> pyval list \<Rightarrow> rich" where
  "cpu_line cpu tm ms =
    (let ns = List.map_filter num_of ms in
     kv_of [] (if ns = [] then DASH else num (PFloat (Fin (fdiv (mean_of ns) 1000))) ''GHz'' 2 '' '') ''bold'' ''  ''
     @ kv_of ''busy'' (num (py_get cpu ''busy_pct'') ''%'' 0 '' '') ''bold'' ''  ''
     @ kv_of ''pkg'' (num (py_get tm ''pkg_c'') CELSIUS 0 '' '') (temp_style (py_get tm ''pkg_c'')) [])"

definition mem_text :: "pyval dict \<Rightarrow> string" where
  "mem_text cpu =
    (case (num_of (py_get cpu ''mem_total_mib''), num_of (py_get cpu ''mem_avail_mib'')) of
       (Some t, Some a) \<Rightarrow> fmt_fixed 1 (fdiv (fsub t a) 1024) @ ''/'' @ num (PFloat (Fin (fdiv t 1024))) ''GiB'' 1 '' ''
     | _ \<Rightarrow> [])"

definition core_cell :: "int \<Rightarrow> int \<Rightarrow> bool \<Rightarrow> pyval list \<Rightarrow> nat \<times> pyval \<Rightarrow> rich res" where
  "core_cell cols bw wide_cell bs = (\<lambda>(i, f).
    let b = (if i < length bs then bs ! i else PNone) in
    res_bind (div_val b 100) (\<lambda>fr. Inr
      ([(if int i mod cols = 0 then NL else ''  '', []), (''c'' @ ljust 2 (str_int (int i)), DIM)] @ bar fr bw (busy_style b) EMPTY
       @ [(rjust 8 (num (case num_of f of Some x \<Rightarrow> PFloat (Fin (fdiv x 1000)) | None \<Rightarrow> PNone) ''GHz'' 1 '' ''), [])]
       @ (if wide_cell then [(rjust 6 (num b ''%'' 0 '' ''), DIM)] else []))))"

definition core_cells :: "int \<Rightarrow> pyval list \<Rightarrow> pyval list \<Rightarrow> rich res" where
  "core_cells width freqs bs =
    (let cols = (if 28 \<le> width then 2 else 1); cell = (width - 2 * (cols - 1)) div cols; wide_cell = (20 \<le> cell); bw = max 2 (cell - (if wide_cell then 17 else 11))
     in res_bind (each (core_cell cols bw wide_cell bs) (zip [0..<length freqs] freqs)) (\<lambda>l. Inr (concat l)))"

definition cpu_panel :: "pyval dict \<Rightarrow> int \<Rightarrow> rich res" where
  "cpu_panel s width =
    res_bind (sec s ''latest'') (\<lambda>lat. res_bind (sec s ''cpu'') (\<lambda>cpu. res_bind (sec s ''msr'') (\<lambda>msr. res_bind (sec s ''governor'') (\<lambda>gov.
    res_bind (sec s ''limits'') (\<lambda>lm. res_bind (sec lm ''sysfs'') (\<lambda>sysfs. res_bind (sec lm ''msr'') (\<lambda>ml. res_bind (sec cpu ''temps'') (\<lambda>tm.
    res_bind (rows_of cpu ''mhz'') (\<lambda>ms. res_bind (rows_of cpu ''busy_per_cpu'') (\<lambda>bs. res_bind (core_cells width ms bs) (\<lambda>cells.
    let line = cpu_line cpu tm ms; mem = mem_text cpu; pair = (\<lambda>d. compact (py_get d ''pl1_w'') @ ''/'' @ compact (py_get d ''pl2_w'')) in Inr
      (kv_of ''package'' (watts (py_get lat ''package_w'')) (''bold '' @ BLUE) ''  ''
       @ [(''PL1 '' @ compact (py_get gov ''pl1_w'') @ MIDDOT @ ''PL2 '' @ compact (py_get gov ''pl2_w''), ''bold'')]
       @ (if isnum (py_get gov ''thermal_cap_w'') then [(MIDDOT @ ''hot cap '' @ compact (py_get gov ''thermal_cap_w''), ''bold '' @ RED)] else []) @ [(NL, [])]
       @ kv_of ''core'' (watts (py_get lat ''core_w'')) [] ''  '' @ kv_of ''uncore'' (watts (py_get lat ''uncore_w'')) [] ''  '' @ kv_of ''dram'' (watts (py_get lat ''dram_w'')) [] ''  ''
       @ [(NL, [])] @ line @ (if mem \<noteq> [] \<and> int (rich_len line) + int (ulen mem) + 6 \<le> width then kv_of ''  mem'' mem [] [] else []) @ [(NL, [])]
       @ yes (py_get msr ''power_limited'') ''power-limited'' AMBER @ [(''  '', [])] @ yes (py_get msr ''thermal'') ''thermal'' RED @ [(''  '', [])]
       @ yes (py_get msr ''prochot'') ''PROCHOT'' RED
       @ [(NL @ ''sysfs '', DIM), (pair sysfs, []), (MIDDOT @ ''MSR '', DIM), (pair ml, [])]
       @ (if truthy (py_get ml ''pl1_clamp'') then [('' clamp'', DIM)] else []) @ (if truthy (py_get ml ''lock'') then [('' LOCKED'', RED)] else [])
       @ cells))))))))))))"

definition gov_panel :: "(pyval \<Rightarrow> string) \<Rightarrow> pyval dict \<Rightarrow> rich res" where
  "gov_panel pstr s =
    res_bind (sec s ''governor'') (\<lambda>gov. res_bind (sec s ''derived'') (\<lambda>der. res_bind (sec gov ''counters'') (\<lambda>c.
    let mode = or_dash pstr (py_get gov ''mode''); n = (\<lambda>k. case dget c k of Some v \<Rightarrow> pstr v | None \<Rightarrow> ''0''); G = (\<lambda>k. compact (py_get gov k)) in Inr
      (badge pstr (py_get gov ''state'') @ [('' for '' @ dur (py_get gov ''in_state_s''), []), (''  mode '', DIM), (upper mode, ''bold '' @ (if mode = ''off'' then AMBER else [])), (NL, [])]
       @ kv_of ''PL1'' (G ''pl1_w'') (''bold '' @ BLUE) ''  '' @ [(RARROW @ ''ceiling '', DIM), (G ''ceiling_w'', ''bold''), (NL, [])]
       @ kv_of ''PL2'' (G ''pl2_w'') [] ''  '' @ kv_of ''static'' (G ''static_cap_w'') [] ''  '' @ kv_of ''floor'' (G ''floor_w'') [] []
       @ [(NL @ n ''cuts'' @ '' cuts'' @ MIDDOT @ n ''emergencies'' @ '' emerg'' @ MIDDOT @ n ''fallbacks'' @ '' fallbacks'', []),
          (NL @ n ''recoveries'' @ '' recov'' @ MIDDOT @ n ''writes'' @ '' writes'' @ MIDDOT @ n ''readback_failures'' @ '' rb fail'', []), (NL, [])]
       @ kv_of ''non-CPU est'' (watts (py_get der ''noncpu_est_w'')) [] [] @ [(NL, [])]
       @ kv_of (''ceiling'' @ butlast ALMOST) (watts (py_get der ''pred_input_at_ceiling_w'') @ '' input'') [] []
       @ [(NL @ ''last '', DIM), (or_dash pstr (py_get gov ''last_action''), [])]
       @ (if truthy (py_get gov ''fallback_reason'') then [(NL @ ''FALLBACK '', ''bold '' @ MAGENTA), (pstr (py_get gov ''fallback_reason''), MAGENTA)]
          else if mode = ''off'' then [(NL @ ''OFF: telemetry only, no limits enforced'', AMBER)] else [])))))"

text \<open>\<open>TempsPanel.build\<close>: as many cells as the panel holds; the last place tells how many are left out.\<close>

definition temp_cells :: "pyval dict \<Rightarrow> (string \<times> pyval) list res" where
  "temp_cells s =
    res_bind (sec s ''cpu'') (\<lambda>cpu. res_bind (sec cpu ''temps'') (\<lambda>t. res_bind (sec t ''cores'') (\<lambda>cores. res_bind (sec s ''smc_temps'') (\<lambda>smc. Inr
      (filter (\<lambda>c. snd c \<noteq> PNone) ([(''pkg'', py_get t ''pkg_c''), (''x86'', py_get t ''x86_pkg_c'')] @ cores @ [(''nvme'', py_get t ''nvme_c'')] @ smc))))))"

definition temp_cell :: "nat \<Rightarrow> nat \<times> string \<times> pyval \<Rightarrow> rich" where
  "temp_cell cols = (\<lambda>(i, label, v).
    (if i \<noteq> 0 \<and> i mod cols = 0 then [(NL, [])] else []) @ [(ljust 5 (utake 5 label), DIM), (rjust 5 (num v CELSIUS 0 []) @ '' '', temp_style v)])"

definition temps_panel :: "pyval dict \<Rightarrow> int \<Rightarrow> int \<Rightarrow> rich res" where
  "temps_panel s width height =
    res_bind (temp_cells s) (\<lambda>cells.
      let cols = nat (max 1 ((width + 1) div 11)); places = int cols * height; left = int (length cells) - places;
          shown = (if 0 < left then take (nat (places - 1)) cells else cells)
      in Inr (rich_or (concat (map (temp_cell cols) (zip [0..<length shown] shown)) @ (if 0 < left then [(''+'' @ str_int (left + 1) @ '' more'', DIM)] else [])) [(DASH, [])]))"

section \<open>Fans, rails, processes\<close>

text \<open>The share of a fan's speed between its hardware minimum and its maximum.\<close>

definition fan_share :: "pyval \<Rightarrow> pyval \<Rightarrow> pyval \<Rightarrow> pyval" where
  "fan_share rpm lo hi =
    (case (num_of rpm, num_of lo, num_of hi) of
       (Some r, Some l, Some h) \<Rightarrow> if l < h then PFloat (Fin (fdiv (fsub r l) (fsub h l))) else PNone
     | _ \<Rightarrow> PNone)"

definition fan_row :: "(pyval \<Rightarrow> string) \<Rightarrow> int \<Rightarrow> pyval list \<Rightarrow> nat \<times> pyval \<Rightarrow> rich res" where
  "fan_row pstr width ctl = (\<lambda>(i, f).
    res_bind (fld (if i < length ctl then ctl ! i else PDict []) ''hw_min'') (\<lambda>hw. res_bind (items_of f) (\<lambda>d.
    let rpm = py_get d ''rpm''; lo = (if isnum hw then hw else py_get d ''min''); hi = py_get d ''max'';
        label = replace_str '' side'' [] (if truthy (py_get d ''label'') then pstr (py_get d ''label'') else ''fan'' @ str_int (int i + 1)) in Inr
      ((if i \<noteq> 0 then [(NL, [])] else []) @ [(ljust 6 (utake 6 label), DIM), (rjust 9 (num rpm ''rpm'' 0 '' '') @ '' '', ''bold'')]
       @ bar (fan_share rpm lo hi) (max 3 (width - 16)) CYAN EMPTY
       @ [(NL @ ''      '' @ num lo [] 0 '' '' @ DASH @ num hi ''rpm'' 0 '' '' @ (if truthy (py_get d ''manual'') then '' manual'' else []), DIM)]))))"

definition floor_line :: "(pyval \<Rightarrow> string) \<Rightarrow> pyval dict \<Rightarrow> bool \<Rightarrow> rich" where
  "floor_line pstr fan below =
    (if fan = [] then []
     else [((if below then NL else []) @ ''floor '', DIM)]
       @ (let t = py_get fan ''target_rpm''; m = py_get fan ''mode'' in
          if m = PStr ''floor'' \<and> (case num_of t of Some x \<Rightarrow> 0 < x | None \<Rightarrow> False) then [(num t ''rpm'' 0 '' '', ''bold '' @ AMBER)]
          else [(''off'', ''bold''), (if m = PStr ''auto'' then MIDDOT @ ''fan.mode auto'' else MIDDOT @ ''SMC curve'', DIM)])
       @ (if truthy (py_get fan ''write_errors'') then [(MIDDOT @ pstr (py_get fan ''write_errors'') @ '' err'', ''bold '' @ RED)] else []))"

definition fans_panel :: "(pyval \<Rightarrow> string) \<Rightarrow> pyval dict \<Rightarrow> int \<Rightarrow> rich res" where
  "fans_panel pstr s width =
    res_bind (sec s ''fan'') (\<lambda>fan. res_bind (rows_of fan ''fans'') (\<lambda>ctl. res_bind (rows_of s ''fans'') (\<lambda>rows.
    res_bind (each (fan_row pstr width ctl) (zip [0..<length rows] rows)) (\<lambda>ts.
      let t = concat ts in Inr (rich_or (t @ floor_line pstr fan (plain_of t \<noteq> [])) [(DASH, [])])))))"

definition fans_subtitle :: "(pyval \<Rightarrow> string) \<Rightarrow> pyval dict \<Rightarrow> string option res" where
  "fans_subtitle pstr s = res_bind (sec s ''fan'') (\<lambda>fan. Inr (if fan \<noteq> [] \<and> py_get fan ''mode'' \<noteq> PStr ''auto'' then Some (or_dash pstr (py_get fan ''reason'')) else None))"

definition rails_panel :: "pyval dict \<Rightarrow> rich res" where
  "rails_panel s =
    res_bind (sec s ''smc'') (\<lambda>smc.
      let known = filter (dhas smc) EXTRA_SMC_KEYS; keys = (if known \<noteq> [] then known else map fst smc) in Inr
      (rich_or (concat (map (\<lambda>(i, k). [(if i \<noteq> 0 \<and> i mod 2 = 0 then NL else if i \<noteq> 0 then ''  '' else [], []), (k @ '' '', DIM), (rjust 7 (watts (py_get smc k)), ''bold'')])
          (zip [0..<length keys] keys))) [(DASH, [])]))"

definition top_row :: "(pyval \<Rightarrow> string) \<Rightarrow> nat \<Rightarrow> nat \<times> pyval \<Rightarrow> rich res" where
  "top_row pstr n = (\<lambda>(i, p).
    res_bind (fld p ''name'') (\<lambda>name. res_bind (fld p ''cpu_pct'') (\<lambda>share. res_bind (div_val share 8) (\<lambda>q. Inr
      ((if i \<noteq> 0 then [(NL, [])] else []) @ [(ljust n (utake n (pstr name)), []), (rjust 8 (num share ''%'' 0 '' ''), busy_style q)])))))"

definition top_panel :: "(pyval \<Rightarrow> string) \<Rightarrow> pyval dict \<Rightarrow> int \<Rightarrow> rich res" where
  "top_panel pstr s width =
    res_bind (sec s ''cpu'') (\<lambda>cpu. res_bind (rows_of cpu ''top'') (\<lambda>rows. let rows = take 8 rows in
    res_bind (each (top_row pstr (nat (max 4 (width - 8)))) (zip [0..<length rows] rows)) (\<lambda>l. Inr (rich_or (concat l) [(''no samples yet'', DIM)]))))"

section \<open>Peaks and the banner\<close>

definition PEAK_ITEMS :: "(string \<times> string \<times> string \<times> int) list" where
  "PEAK_ITEMS = [(''input'', ''input'', ''W'', 1), (''pkg'', ''package'', ''W'', 1), (''gpu'', ''GPU'', ''W'', 1), (''temp'', ''pkg'', CELSIUS, 0), (''amps'', ''current'', ''A'', 2)]"

definition peak_part :: "(rat \<Rightarrow> string) \<Rightarrow> (string \<times> rat \<times> rat) list \<Rightarrow> string \<times> string \<times> string \<times> int \<Rightarrow> rich" where
  "peak_part lt peaks = (\<lambda>(key, label, u, nd).
    styled (label @ '' '') DIM @ (case dget peaks key of
        Some (x, t) \<Rightarrow> [(num (PFloat (Fin x)) u nd '' '', ''bold''), ('' @'' @ hms lt (PFloat (Fin t)), DIM)] | None \<Rightarrow> [(DASH, ''bold''), ([], DIM)]))"

text \<open>The parts that fit; the first one that does not ends the line.\<close>

fun peak_parts :: "int \<Rightarrow> bool \<Rightarrow> rich list \<Rightarrow> rich \<Rightarrow> rich" where
  "peak_parts width first [] t = t"
| "peak_parts width first (p # ps) t =
    (if width < int (rich_len t) + int (rich_len p) + 3 then t
     else peak_parts width False ps (t @ [(if first then [] else MIDDOT, DIM)] @ p))"

definition peaks_panel :: "(rat \<Rightarrow> string) \<Rightarrow> (string \<times> rat \<times> rat) list \<Rightarrow> rat option \<Rightarrow> int \<Rightarrow> rich" where
  "peaks_panel lt peaks since width =
    peak_parts width True (map (peak_part lt peaks) PEAK_ITEMS)
      (styled ''PEAKS '' ''bold'' @ [(''since '' @ hms lt (case since of Some t \<Rightarrow> PFloat (Fin t) | None \<Rightarrow> PNone) @ ''  '', DIM)])"

text \<open>\<open>Banner.messages\<close>; \<open>last_error\<close> is the backend's. The banner is shown when there is a message.\<close>

definition banner_messages :: "(pyval \<Rightarrow> string) \<Rightarrow> bool \<Rightarrow> string \<Rightarrow> pyval dict \<Rightarrow> rich res" where
  "banner_messages pstr is_conn last_error s =
    res_bind (sec s ''incident_check'') (\<lambda>ic. res_bind (sec s ''governor'') (\<lambda>gov. Inr
      ((if is_conn then [] else [(if last_error \<noteq> [] then ''daemon unreachable: '' @ last_error @ '' (retrying)'' else ''connecting to turbomacd'' @ [CHR 0xE2, CHR 0x80, CHR 0xA6], ''bold '' @ RED)])
       @ (if py_get ic ''verdict'' = PStr ''abrupt'' then [(''previous boot ended abruptly: incident '' @ or_dash pstr (py_get ic ''incident_id'') @ '' (press 4)'', ''bold '' @ RED)] else [])
       @ (if py_get gov ''mode'' = PStr ''off'' then [(''governor OFF: telemetry only, no limits enforced'', ''bold '' @ AMBER)] else [])
       @ (if s \<noteq> [] \<and> \<not> truthy (case dget s ''smc_ok'' of Some v \<Rightarrow> v | None \<Rightarrow> PBool True) then [(''SMC unavailable: no input telemetry'', ''bold '' @ RED)] else []))))"

definition banner_text :: "rich \<Rightarrow> rich" where
  "banner_text msgs = (case msgs of [] \<Rightarrow> [] | m # ms \<Rightarrow> m # concat (map (\<lambda>x. [(''  '' @ tl MIDDOT @ '' '', []), x]) ms))"

definition banner_shown :: "rich \<Rightarrow> bool" where
  "banner_shown msgs = (msgs \<noteq> [])"

text \<open>What \<open>Dashboard.show\<close> gives the four curves as their current values.\<close>

definition current_values :: "pyval dict \<Rightarrow> pyval dict res" where
  "current_values s =
    res_bind (sec s ''latest'') (\<lambda>lat. res_bind (sec s ''derived'') (\<lambda>der. res_bind (sec s ''gpu'') (\<lambda>gpu. res_bind (sec s ''cpu'') (\<lambda>cpu. res_bind (sec cpu ''temps'') (\<lambda>t.
      Inr [(''input'', py_get der ''input_mean_1s''), (''pkg'', py_get lat ''package_w''), (''gpu'', py_get gpu ''power_w''), (''temp'', py_get t ''pkg_c'')])))))"

end
