(* ===== verification/Dashboard_Props.thy ===== *)
theory Dashboard_Props
  imports Dashboard Ctl_Props
begin

text \<open>
  Properties of the dashboard: no panel fails on a status of the daemon, the gauge fills its line, and its
  colours are the bands the governor acts on.
\<close>

section \<open>Shapes\<close>

definition numlike :: "pyval \<Rightarrow> bool" where
  "numlike v = (truthy v \<longrightarrow> as_float v \<noteq> None)"

definition listlike :: "(pyval \<Rightarrow> bool) \<Rightarrow> pyval \<Rightarrow> bool" where
  "listlike p v = (truthy v \<longrightarrow> (case v of PList l \<Rightarrow> list_all p l | _ \<Rightarrow> False))"

definition top_row_shape :: "pyval \<Rightarrow> bool" where
  "top_row_shape v = (case v of PDict d \<Rightarrow> numlike (py_get d ''cpu_pct'') | _ \<Rightarrow> False)"

definition temps_shape :: "pyval \<Rightarrow> bool" where
  "temps_shape v = (case v of PDict t \<Rightarrow> sectionlike (py_get t ''cores'') | _ \<Rightarrow> \<not> truthy v)"

definition cpu_ui_shape :: "pyval \<Rightarrow> bool" where
  "cpu_ui_shape v =
    (case v of
       PDict d \<Rightarrow> temps_shape (py_get d ''temps'') \<and> listlike (\<lambda>_. True) (py_get d ''mhz'') \<and> listlike numlike (py_get d ''busy_per_cpu'')
         \<and> listlike top_row_shape (py_get d ''top'')
     | _ \<Rightarrow> \<not> truthy v)"

text \<open>What the slow sample holds, as far as the dashboard depends on its shape.\<close>

definition ui_slow :: "pyval dict \<Rightarrow> bool" where
  "ui_slow sd =
    (list_all (\<lambda>k. sectionlike (py_get sd k)) [''limits'', ''msr_limits'', ''msr'', ''smc'', ''smc_temps''] \<and> cpu_ui_shape (py_get sd ''cpu'')
     \<and> listlike is_dict (py_get sd ''fans'') \<and> (case dget sd ''gpu'' of Some (PDict g) \<Rightarrow> sectionlike (py_get g ''switcheroo'') | _ \<Rightarrow> True))"

text \<open>The readers of the program give these shapes.\<close>

lemma top_procs_shape:
  assumes "list_all top_row_shape (cr_top_cache c)" "top_procs fs scn now c = (tp, c')"
  shows "list_all top_row_shape tp"
proof -
  have r: "list_all top_row_shape (map (\<lambda>(d, pid). PDict [(''pid'', PInt pid), (''name'', f pid), (''cpu_pct'', PFloat (Fin (g d)))]) xs)" for f g xs
    by (auto simp: list_all_iff top_row_shape_def py_get_def numlike_def)
  show ?thesis using assms r unfolding top_procs_def Let_def by (auto split: if_splits option.splits)
qed

lemma busy_keeps_cache: "busy fs c = (r, c') \<Longrightarrow> cr_top_cache c' = cr_top_cache c"
  unfolding busy_def Let_def by (auto split: option.splits sum.splits)

lemma temps_keeps_cache: "temps gl fs c = (t, c') \<Longrightarrow> cr_top_cache c' = cr_top_cache c"
  unfolding temps_def coretemp_def Let_def by (auto split: option.splits if_splits prod.splits)

lemma cpu_read_ui_shape:
  assumes "cpu_read ft gl fs scn now c = (Inr r, c')" "list_all top_row_shape (cr_top_cache c)"
  shows "cpu_ui_shape (PDict r)"
proof -
  have t: "temps_shape (PDict (fst (temps gl fs c)))" for c
    by (simp add: temps_shape_def temps_def py_get_def sectionlike_def is_dict_def split: prod.split)
  have b: "list_all numlike (map orat xs)" for xs by (auto simp: list_all_iff numlike_def orat_def split: option.split)
  obtain tot per c1 where 1: "busy fs c = (Inr (tot, per), c1)" using assms(1) unfolding cpu_read_def by (auto split: prod.splits sum.splits)
  obtain tmp c2 where 2: "temps gl fs c1 = (tmp, c2)" by (metis surj_pair)
  obtain tp c3 where 3: "top_procs fs scn now c2 = (tp, c3)" by (metis surj_pair)
  have "list_all top_row_shape tp" using top_procs_shape [OF _ 3] temps_keeps_cache [OF 2] busy_keeps_cache [OF 1] assms(2) by simp
  moreover obtain mh ld mt ma up ys where "r = [(''temps'', PDict tmp), (''mhz'', PList mh), (''busy_pct'', orat tot), (''busy_per_cpu'', PList (map orat per)),
      (''load'', ld), (''mem_total_mib'', mt), (''mem_avail_mib'', ma), (''uptime_s'', up)] @ ys @ [(''top'', PList tp)]" "dget ys ''top'' = None"
    using assms(1) unfolding cpu_read_def 1 prod.case sum.case Let_def 2 3 by (auto split: sum.splits)
  ultimately show ?thesis using t [of c1] b [of per] by (simp add: cpu_ui_shape_def listlike_def py_get_def 2 map_add_def list.pred_True)
qed

lemma gpu_read_ui: "sectionlike (py_get (gpu_read env fs g) ''switcheroo'')"
proof -
  have b: "sectionlike (py_get (gpu_base env fs g) ''switcheroo'')" by (cases "switcheroo env fs") (simp_all add: gpu_base_def py_get_def sectionlike_def is_dict_def)
  have "py_get (gpu_base env fs g @ xs) ''switcheroo'' = py_get (gpu_base env fs g) ''switcheroo''" if "dget xs ''switcheroo'' = None" for xs
    using that by (simp add: py_get_def map_add_def split: option.split)
  with b show ?thesis by (simp add: gpu_read_def)
qed

lemma slow_ui:
  assumes "cpu_ui_shape (PDict (sr_cpu r))" "sectionlike (py_get (sr_gpu r) ''switcheroo'')" "listlike is_dict (sr_fans r)"
  shows "ui_slow (sm_slow_data (slow r now wall s))"
proof -
  define s1 where "s1 = (if due (sm_smc_slow_t s) now (sm_slow_every_s s)
      then s\<lparr>sm_smc_slow := (if sm_extra s = [] then [] else map (\<lambda>(k, v). (k, round_val 3 v)) (sr_rails r), sr_smc_temps r), sm_smc_slow_t := Some now\<rparr> else s)"
  have "sm_slow_data (slow r now wall s) = [(''smc'', PDict (fst (sm_smc_slow s1))), (''msr'', therm_val (sr_therm r)), (''msr_limits'', msr_limit_val (sr_msr_limits r)),
      (''limits'', limits_val (sr_limits r)), (''smc_temps'', PDict (snd (sm_smc_slow s1))), (''fans'', sr_fans r), (''gpu'', PDict (sr_gpu r)), (''cpu'', PDict (sr_cpu r))]"
    unfolding slow_def Let_def s1_def [symmetric] by simp
  moreover have "sectionlike (limits_val a)" "sectionlike (msr_limit_val b)" "sectionlike (therm_val c)" for a b c
    by (simp_all add: sectionlike_def is_dict_def limits_val_def msr_limit_val_def therm_val_def split: option.split)
  ultimately show ?thesis using assms by (simp add: ui_slow_def py_get_def)
qed

section \<open>No panel fails\<close>

lemma sec_ok: "sectionlike (py_get s k) \<Longrightarrow> \<exists>d. sec s k = Inr d \<and> (d = [] \<or> py_get s k = PDict d)"
  by (cases "py_get s k") (auto simp: sec_def sub_or_def sectionlike_def is_dict_def items_of_def)

lemma rows_ok: "listlike p (py_get d k) \<Longrightarrow> \<exists>l. rows_of d k = Inr l \<and> list_all p l"
  by (cases "py_get d k") (auto simp: rows_of_def listlike_def iter_of_def)

lemma div_val_ok: "numlike v \<Longrightarrow> is_ok (div_val v n)"
  by (cases v) (auto simp: div_val_def numlike_def split: pyfloat.split)

text \<open>Thresholds as \<open>build_status\<close> gives them.\<close>

definition th_shape :: "pyval dict \<Rightarrow> bool" where
  "th_shape th = (th = [] \<or> (\<exists>s r. dget th ''shed_w'' = Some (pnum s) \<and> dget th ''recover_w'' = Some (pnum r)))"

lemma band_style_ok: "th_shape th \<Longrightarrow> is_ok (band_style v th)"
proof (cases "num_of v")
  case (Some x)
  then have "as_float v = Some (Fin x)" by (rule num_of_as_float)
  moreover assume "th_shape th"
  ultimately show ?thesis by (auto simp: band_style_def th_shape_def at_key_def ge_val_def isnum_def)
qed (simp add: band_style_def isnum_def)

lemma gauge_ok: "th_shape th \<Longrightarrow> is_ok (gauge th c bw inp)"
proof -
  assume "th_shape th"
  then have "is_ok (gauge_cell th c bw f i)" for f i
    using band_style_ok by (auto simp: gauge_cell_def is_ok_bind is_ok_ex [symmetric] Let_def split: option.split)
  then show ?thesis by (simp add: gauge_def each_ok list_all_iff)
qed

lemma gauge_scale_ok: "is_ok (gauge_scale acpw (onum m))"
  by (cases m) (auto simp: gauge_scale_def onum_def split: option.split)

lemma input_lines_ok:
  assumes "sectionlike (py_get s ''latest'')" "sectionlike (py_get s ''derived'')" "sectionlike (py_get s ''governor'')"
    "\<exists>th. sec s ''thresholds'' = Inr th \<and> th_shape th" "\<And>d. sec s ''derived'' = Inr d \<Longrightarrow> \<exists>m. py_get d ''input_mean_1s'' = onum m"
  shows "is_ok (input_lines s width)"
proof -
  obtain lat where 1: "sec s ''latest'' = Inr lat" using sec_ok [OF assms(1)] by blast
  obtain der where 2: "sec s ''derived'' = Inr der" using sec_ok [OF assms(2)] by blast
  obtain gov where 3: "sec s ''governor'' = Inr gov" using sec_ok [OF assms(3)] by blast
  obtain th where 4: "sec s ''thresholds'' = Inr th" "th_shape th" using assms(4) by blast
  obtain m where m: "py_get der ''input_mean_1s'' = onum m" using assms(5) [OF 2] by blast
  let ?a = "if truthy (py_get der ''acpw_median_10s'') then py_get der ''acpw_median_10s'' else py_get lat ''acpw_w''"
  obtain c where c: "gauge_scale ?a (onum m) = Inr c" using gauge_scale_ok unfolding is_ok_ex by blast
  obtain st where st: "band_style (onum m) th = Inr st" using band_style_ok [OF 4(2)] unfolding is_ok_ex by blast
  obtain g where g: "gauge th c (gauge_width width (input_head (onum m) st) (input_tail (100 \<le> width) lat der ?a st)) (onum m) = Inr g"
    using gauge_ok [OF 4(2)] unfolding is_ok_ex by blast
  show ?thesis unfolding input_lines_def 1 2 3 4(1) res_bind_simps Let_def m c st g by simp
qed

lemma cpu_panel_ok:
  assumes "list_all (\<lambda>k. sectionlike (py_get s k)) [''latest'', ''msr'', ''governor'']" "cpu_ui_shape (py_get s ''cpu'')"
    "\<exists>lm. sec s ''limits'' = Inr lm \<and> sectionlike (py_get lm ''sysfs'') \<and> sectionlike (py_get lm ''msr'')"
  shows "is_ok (cpu_panel s width)"
proof -
  have a: "sectionlike (py_get s ''latest'')" "sectionlike (py_get s ''msr'')" "sectionlike (py_get s ''governor'')" using assms(1) by simp_all
  obtain lat where 1: "sec s ''latest'' = Inr lat" using sec_ok [OF a(1)] by blast
  obtain msr where 2: "sec s ''msr'' = Inr msr" using sec_ok [OF a(2)] by blast
  obtain gov where 3: "sec s ''governor'' = Inr gov" using sec_ok [OF a(3)] by blast
  obtain lm where 4: "sec s ''limits'' = Inr lm" "sectionlike (py_get lm ''sysfs'')" "sectionlike (py_get lm ''msr'')" using assms(3) by blast
  obtain sy ml where 5: "sec lm ''sysfs'' = Inr sy" "sec lm ''msr'' = Inr ml" using sec_ok [OF 4(2)] sec_ok [OF 4(3)] by blast
  have "sectionlike (py_get s ''cpu'')" using assms(2) by (cases "py_get s ''cpu''") (auto simp: cpu_ui_shape_def sectionlike_def is_dict_def)
  then obtain cpu where 6: "sec s ''cpu'' = Inr cpu" "cpu = [] \<or> py_get s ''cpu'' = PDict cpu" using sec_ok [of s "''cpu''"] by blast
  have sh: "temps_shape (py_get cpu ''temps'')" "listlike (\<lambda>_. True) (py_get cpu ''mhz'')" "listlike numlike (py_get cpu ''busy_per_cpu'')"
    using 6(2) assms(2) by (auto simp: cpu_ui_shape_def temps_shape_def listlike_def py_get_def)
  have "sectionlike (py_get cpu ''temps'')" using sh(1) by (cases "py_get cpu ''temps''") (auto simp: temps_shape_def sectionlike_def is_dict_def)
  then obtain tm where 7: "sec cpu ''temps'' = Inr tm" using sec_ok [of cpu "''temps''"] by blast
  obtain ms bs where 8: "rows_of cpu ''mhz'' = Inr ms" "rows_of cpu ''busy_per_cpu'' = Inr bs" "list_all numlike bs" using rows_ok [OF sh(2)] rows_ok [OF sh(3)] by blast
  have nl: "numlike (if i < length bs then bs ! i else PNone)" for i using 8(3) by (simp add: list_all_length) (simp add: numlike_def)
  have "is_ok (core_cell cols bw p bs x)" for cols bw p x
    using div_val_ok [OF nl] by (cases x) (simp add: core_cell_def is_ok_bind Let_def is_ok_ex [symmetric])
  then have "is_ok (core_cells width ms bs)" by (simp add: core_cells_def Let_def is_ok_bind is_ok_ex [symmetric] each_ok list_all_iff)
  then obtain cells where 9: "core_cells width ms bs = Inr cells" unfolding is_ok_ex by blast
  show ?thesis unfolding cpu_panel_def 1 2 3 4(1) 5 6(1) 7 8(1,2) 9 res_bind_simps by (simp add: Let_def)
qed

lemma gov_panel_ok:
  assumes "py_get s ''governor'' = PDict gov" "sectionlike (py_get gov ''counters'')" "sectionlike (py_get s ''derived'')"
  shows "is_ok (gov_panel pstr s)"
proof -
  have "sectionlike (py_get s ''governor'')" using assms(1) by simp
  then obtain g where 1: "sec s ''governor'' = Inr g" "g = [] \<or> g = gov" using sec_ok [of s "''governor''"] assms(1) by auto
  have "sectionlike (py_get g ''counters'')" using 1(2) assms(2) by (auto simp: py_get_def sectionlike_def)
  then obtain c where 2: "sec g ''counters'' = Inr c" using sec_ok [of g "''counters''"] by blast
  obtain d where 3: "sec s ''derived'' = Inr d" using sec_ok [OF assms(3)] by blast
  show ?thesis unfolding gov_panel_def 1(1) 2 3 res_bind_simps by (simp add: Let_def)
qed

lemma gpu_text_ok: "sectionlike (py_get gpu ''switcheroo'') \<Longrightarrow> is_ok (gpu_text pstr gpu width b)"
proof -
  assume "sectionlike (py_get gpu ''switcheroo'')"
  then obtain sw where 1: "sec gpu ''switcheroo'' = Inr sw" using sec_ok [of gpu "''switcheroo''"] by blast
  obtain ow where 2: "gpu_owner pstr gpu = Inr ow" unfolding gpu_owner_def 1 by (simp add: Let_def)
  show ?thesis unfolding gpu_text_def Let_def 1 2 res_bind_simps by simp
qed

lemma gpu_panel_ok:
  assumes "py_get s ''gpu'' = PDict gpu" "sectionlike (py_get gpu ''switcheroo'')" "sectionlike (py_get gpu ''last_result'')"
  shows "is_ok (gpu_panel pstr s width)"
proof -
  have "sectionlike (py_get s ''gpu'')" using assms(1) by simp
  then obtain g where 1: "sec s ''gpu'' = Inr g" "g = [] \<or> g = gpu" using sec_ok [of s "''gpu''"] assms(1) by auto
  have g: "sectionlike (py_get g ''switcheroo'')" "sectionlike (py_get g ''last_result'')" using 1(2) assms(2,3) by (auto simp: py_get_def sectionlike_def)
  obtain t where 2: "gpu_text pstr g width True = Inr t" using gpu_text_ok [OF g(1)] unfolding is_ok_ex by blast
  show ?thesis unfolding gpu_panel_def 1(1) 2 res_bind_simps Let_def
    using g(2) by (cases "py_get g ''last_result''") (auto simp: sectionlike_def is_dict_def)
qed

lemma cpu_section:
  assumes "cpu_ui_shape (py_get s ''cpu'')"
  shows "\<exists>cpu t. sec s ''cpu'' = Inr cpu \<and> sec cpu ''temps'' = Inr t \<and> sectionlike (py_get t ''cores'') \<and> listlike top_row_shape (py_get cpu ''top'')"
proof -
  have "sectionlike (py_get s ''cpu'')" using assms by (cases "py_get s ''cpu''") (auto simp: cpu_ui_shape_def sectionlike_def is_dict_def)
  then obtain cpu where 1: "sec s ''cpu'' = Inr cpu" "cpu = [] \<or> py_get s ''cpu'' = PDict cpu" using sec_ok [of s "''cpu''"] by blast
  have sh: "temps_shape (py_get cpu ''temps'')" "listlike top_row_shape (py_get cpu ''top'')"
    using 1(2) assms by (auto simp: cpu_ui_shape_def temps_shape_def listlike_def py_get_def)
  have "sectionlike (py_get cpu ''temps'')" using sh(1) by (cases "py_get cpu ''temps''") (auto simp: temps_shape_def sectionlike_def is_dict_def)
  then obtain t where 2: "sec cpu ''temps'' = Inr t" "t = [] \<or> py_get cpu ''temps'' = PDict t" using sec_ok [of cpu "''temps''"] by blast
  have "sectionlike (py_get t ''cores'')" using 2(2) sh(1) by (auto simp: temps_shape_def py_get_def sectionlike_def)
  with 1(1) 2(1) sh(2) show ?thesis by blast
qed

lemma temps_panel_ok:
  assumes "cpu_ui_shape (py_get s ''cpu'')" "sectionlike (py_get s ''smc_temps'')"
  shows "is_ok (temps_panel s width height)"
proof -
  obtain cpu t where 1: "sec s ''cpu'' = Inr cpu" "sec cpu ''temps'' = Inr t" "sectionlike (py_get t ''cores'')" using cpu_section [OF assms(1)] by blast
  obtain co where 2: "sec t ''cores'' = Inr co" using sec_ok [OF 1(3)] by blast
  obtain sm where 3: "sec s ''smc_temps'' = Inr sm" using sec_ok [OF assms(2)] by blast
  obtain cs where 4: "temp_cells s = Inr cs" unfolding temp_cells_def 1(1,2) 2 3 res_bind_simps by simp
  show ?thesis unfolding temps_panel_def 4 by (simp add: Let_def)
qed

lemma top_panel_ok: "cpu_ui_shape (py_get s ''cpu'') \<Longrightarrow> is_ok (top_panel pstr s width)"
proof -
  assume "cpu_ui_shape (py_get s ''cpu'')"
  from cpu_section [OF this] obtain cpu where 1: "sec s ''cpu'' = Inr cpu" "listlike top_row_shape (py_get cpu ''top'')" by blast
  obtain rows where 2: "rows_of cpu ''top'' = Inr rows" "list_all top_row_shape rows" using rows_ok [OF 1(2)] by blast
  have row: "is_ok (top_row pstr n (i, v))" if "top_row_shape v" for n i v
    using that div_val_ok [of "py_get d ''cpu_pct''" 8 for d] by (cases v) (auto simp: top_row_shape_def top_row_def is_ok_bind is_ok_ex [symmetric])
  have "is_ok (each (top_row pstr n) (zip [0..<length (take 8 rows)] (take 8 rows)))" for n
    using 2(2) row by (fastforce simp: each_ok list_all_iff dest: set_zip_rightD in_set_takeD)
  then obtain l where 3: "each (top_row pstr (nat (max 4 (width - 8)))) (zip [0..<length (take 8 rows)] (take 8 rows)) = Inr l" unfolding is_ok_ex by blast
  show ?thesis unfolding top_panel_def 1(1) 2(1) res_bind_simps Let_def 3 by simp
qed

lemma fans_panel_ok:
  assumes "py_get s ''fan'' = PDict fan" "listlike is_dict (py_get fan ''fans'')" "listlike is_dict (py_get s ''fans'')"
  shows "is_ok (fans_panel pstr s width)"
proof -
  have "sectionlike (py_get s ''fan'')" using assms(1) by simp
  then obtain f where 1: "sec s ''fan'' = Inr f" "f = [] \<or> f = fan" using sec_ok [of s "''fan''"] assms(1) by auto
  have "listlike is_dict (py_get f ''fans'')" using 1(2) assms(2) by (auto simp: py_get_def listlike_def)
  then obtain ctl where 2: "rows_of f ''fans'' = Inr ctl" "list_all is_dict ctl" using rows_ok [of is_dict f "''fans''"] by blast
  obtain rows where 3: "rows_of s ''fans'' = Inr rows" "list_all is_dict rows" using rows_ok [OF assms(3)] by blast
  have d: "\<exists>d. (if i < length ctl then ctl ! i else PDict []) = PDict d" for i using 2(2) is_dict_ex by (simp add: list_all_length)
  have row: "is_ok (fan_row pstr width ctl (i, v))" if "is_dict v" for i v
  proof -
    note v = is_dict_ex [OF that]
    then obtain e where "v = PDict e" by blast
    moreover obtain h where "(if i < length ctl then ctl ! i else PDict []) = PDict h" using d by blast
    ultimately show ?thesis by (simp only: fan_row_def prod.case fld_dict items_dict res_bind_simps) (simp add: Let_def)
  qed
  have "is_ok (each (fan_row pstr width ctl) (zip [0..<length rows] rows))"
    using 3(2) row by (fastforce simp: each_ok list_all_iff dest: set_zip_rightD)
  then obtain l where 4: "each (fan_row pstr width ctl) (zip [0..<length rows] rows) = Inr l" unfolding is_ok_ex by blast
  show ?thesis unfolding fans_panel_def 1(1) 2(1) 3(1) res_bind_simps 4 by (simp add: Let_def)
qed

lemma rails_panel_ok: "sectionlike (py_get s ''smc'') \<Longrightarrow> is_ok (rails_panel s)"
  using sec_ok [of s "''smc''"] by (auto simp: rails_panel_def Let_def)

lemma banner_ok: "sectionlike (py_get s ''incident_check'') \<Longrightarrow> sectionlike (py_get s ''governor'') \<Longrightarrow> is_ok (banner_messages pstr b e s)"
  using sec_ok [of s "''incident_check''"] sec_ok [of s "''governor''"] by (auto simp: banner_messages_def)

text \<open>The parts of a status that the dashboard reads.\<close>

lemma build_status_ui:
  assumes "build_status env now der d = Inr st"
  shows "\<exists>x t. py_get st ''derived'' = derived_val x \<and> py_get st ''thresholds'' = thresholds_val t"
    "\<exists>l. py_get st ''latest'' = PDict l" "py_get st ''smc'' = py_get (sm_slow_data (dm_sampler d)) ''smc''"
    "py_get st ''smc_temps'' = py_get (sm_slow_data (dm_sampler d)) ''smc_temps''"
    "ui_slow (sm_slow_data (dm_sampler d)) \<Longrightarrow>
       \<exists>gpd r. py_get st ''gpu'' = PDict gpd \<and> sectionlike (py_get gpd ''switcheroo'') \<and> py_get gpd ''last_result'' = gpu_result_val r"
    "\<exists>fan. py_get st ''fan'' = PDict fan \<and> listlike is_dict (py_get fan ''fans'')"
proof -
  obtain g gm gc fc where c: "gov_cfg_of (dm_config d) = Inr g" "gpu_section (dm_config d) = Inr (gm, gc)" "fan_cfg_of (dm_config d) = Inr fc"
    using assms unfolding build_status_def by (auto simp: res_bind_Inr)
  note st = assms [unfolded build_status_def c res_bind_simps prod.case Let_def sum.inject, symmetric]
  show "\<exists>x t. py_get st ''derived'' = derived_val x \<and> py_get st ''thresholds'' = thresholds_val t"
    "\<exists>l. py_get st ''latest'' = PDict l" "py_get st ''smc'' = py_get (sm_slow_data (dm_sampler d)) ''smc''"
    "py_get st ''smc_temps'' = py_get (sm_slow_data (dm_sampler d)) ''smc_temps''"
    unfolding st by (simp_all add: py_get_def) blast
  have fs: "listlike is_dict (py_get (fan_status f) ''fans'')" for f
    by (auto simp: fan_status_def py_get_def listlike_def list_all_iff is_dict_def)
  show "\<exists>fan. py_get st ''fan'' = PDict fan \<and> listlike is_dict (py_get fan ''fans'')"
    unfolding st using fs by (cases "dm_fan d") (simp_all add: py_get_def listlike_def)
  show "\<exists>gpd r. py_get st ''gpu'' = PDict gpd \<and> sectionlike (py_get gpd ''switcheroo'') \<and> py_get gpd ''last_result'' = gpu_result_val r"
    if u: "ui_slow (sm_slow_data (dm_sampler d))"
  proof -
    let ?b = "case dget (sm_slow_data (dm_sampler d)) ''gpu'' of Some (PDict x) \<Rightarrow> x | _ \<Rightarrow> []"
    let ?g = "dmerge ?b [(''config_mode'', PStr gm), (''cap_cfg_w'', cfg_at (dm_config d) ''gpu'' ''cap_w''), (''busy'', PBool (gp_busy (dm_gpu d))),
       (''last_result'', gpu_result_val (dm_gpu_result d))]"
    have g: "py_get st ''gpu'' = PDict ?g" unfolding st by (simp add: py_get_def)
    have sw: "sectionlike (py_get ?b ''switcheroo'')"
    proof (cases "dget (sm_slow_data (dm_sampler d)) ''gpu''")
      case (Some v)
      then show ?thesis using u by (cases v) (simp_all add: ui_slow_def py_get_def sectionlike_def)
    qed (simp add: py_get_def sectionlike_def)
    have m: "py_get (dmerge b [(''config_mode'', v1), (''cap_cfg_w'', v2), (''busy'', v3), (''last_result'', v4)]) ''switcheroo'' = py_get b ''switcheroo''"
      "py_get (dmerge b [(''config_mode'', v1), (''cap_cfg_w'', v2), (''busy'', v3), (''last_result'', v4)]) ''last_result'' = v4" for b v1 v2 v3 v4
      unfolding py_get_def by simp_all
    show ?thesis
    proof (intro exI conjI)
      show "py_get st ''gpu'' = PDict ?g" by (rule g)
      show "sectionlike (py_get ?g ''switcheroo'')" unfolding m by (rule sw)
      show "py_get ?g ''last_result'' = gpu_result_val (dm_gpu_result d)" by (rule m)
    qed
  qed
qed

lemma thresholds_section: "py_get s ''thresholds'' = thresholds_val t \<Longrightarrow> \<exists>th. sec s ''thresholds'' = Inr th \<and> th_shape th"
  by (cases t) (auto simp: sec_def sub_or_def thresholds_val_def th_shape_def)

lemma status_input_lines:
  assumes "build_status env now der d = Inr st"
  shows "is_ok (input_lines st width)"
proof -
  note B = build_status_parts [OF assms]
  obtain x t where dt: "py_get st ''derived'' = derived_val x" "py_get st ''thresholds'' = thresholds_val t" using build_status_ui(1) [OF assms] by blast
  have "sectionlike (py_get st ''governor'')" using B(1) by auto
  moreover have "\<exists>m. py_get dd ''input_mean_1s'' = onum m" if "sec st ''derived'' = Inr dd" for dd
    using that dt(1) by (auto simp: sec_def sub_or_def derived_val_def py_get_def)
  ultimately show ?thesis by (intro input_lines_ok [OF B(4,5) _ thresholds_section [OF dt(2)]])
qed

text \<open>
  No panel of the dashboard fails on a status of the daemon: for every status that \<open>build_status\<close> makes
  over a slow sample of the shapes its readers give, every panel has a text, at every width and height.
\<close>

theorem dashboard_never_fails:
  assumes "build_status env now der d = Inr st" "ui_slow (sm_slow_data (dm_sampler d))"
  shows "is_ok (input_panel st width) \<and> is_ok (cpu_panel st width) \<and> is_ok (gpu_panel pstr st width) \<and> is_ok (gov_panel pstr st) \<and>
    is_ok (temps_panel st width height) \<and> is_ok (fans_panel pstr st width) \<and> is_ok (rails_panel st) \<and> is_ok (top_panel pstr st width) \<and>
    is_ok (banner_messages pstr conn err st)"
proof -
  note B = build_status_parts [OF assms(1)] and U = build_status_ui [OF assms(1)]
  have sh: "list_all (\<lambda>k. sectionlike (py_get (sm_slow_data (dm_sampler d)) k)) [''limits'', ''msr_limits'', ''msr'', ''smc'', ''smc_temps'']"
    "cpu_ui_shape (py_get st ''cpu'')" "listlike is_dict (py_get st ''fans'')" using assms(2) B(9,11) by (simp_all add: ui_slow_def)
  obtain gov cnt lm where g: "py_get st ''governor'' = PDict gov" "py_get gov ''counters'' = PDict cnt" "py_get st ''limits'' = PDict lm"
    "py_get lm ''sysfs'' = py_get (sm_slow_data (dm_sampler d)) ''limits''" "py_get lm ''msr'' = py_get (sm_slow_data (dm_sampler d)) ''msr_limits''" using B(1) by blast
  have gs: "sectionlike (py_get st ''governor'')" "sectionlike (py_get gov ''counters'')" "sectionlike (py_get st ''limits'')" using g by simp_all
  have lsec: "\<exists>lm. sec st ''limits'' = Inr lm \<and> sectionlike (py_get lm ''sysfs'') \<and> sectionlike (py_get lm ''msr'')"
    using sec_ok [OF gs(3)] g(3-5) sh(1) by (auto simp: py_get_def sectionlike_def)
  have "is_ok (input_lines st width)" by (rule status_input_lines [OF assms(1)])
  then have "is_ok (input_panel st width)" by (cases "input_lines st width") (simp_all add: input_panel_def split: prod.split)
  moreover have "is_ok (cpu_panel st width)" by (rule cpu_panel_ok [OF _ sh(2) lsec]) (use B(4,10) gs(1) sh(1) in simp)
  moreover have "is_ok (gpu_panel pstr st width)"
  proof -
    obtain gpd r where p: "py_get st ''gpu'' = PDict gpd" "sectionlike (py_get gpd ''switcheroo'')" "py_get gpd ''last_result'' = gpu_result_val r" using U(5) assms(2) by blast
    have "sectionlike (gpu_result_val r)" by (cases r) (simp_all add: gpu_result_val_def sectionlike_def is_dict_def)
    then show ?thesis using gpu_panel_ok [OF p(1,2)] p(3) by simp
  qed
  moreover have "is_ok (gov_panel pstr st)" by (rule gov_panel_ok [OF g(1) gs(2) B(5)])
  moreover have "is_ok (temps_panel st width height)" by (rule temps_panel_ok [OF sh(2)]) (use U(4) sh(1) in simp)
  moreover have "is_ok (fans_panel pstr st width)" using U(6) fans_panel_ok sh(3) by blast
  moreover have "is_ok (rails_panel st)" by (rule rails_panel_ok) (use U(3) sh(1) in simp)
  moreover have "is_ok (top_panel pstr st width)" by (rule top_panel_ok [OF sh(2)])
  moreover have "is_ok (banner_messages pstr conn err st)" by (rule banner_ok [OF B(8) gs(1)])
  ultimately show ?thesis by simp
qed

theorem dashboard_never_fails_witness:
  "\<exists>st. build_status demo_denv 0 None (demo_blank\<lparr>dm_config := DEFAULTS\<rparr>) = Inr st \<and> is_ok (input_panel st 80) \<and> is_ok (cpu_panel st 80)"
proof -
  let ?d = "demo_blank\<lparr>dm_config := DEFAULTS\<rparr>"
  obtain g where g: "gov_cfg_of DEFAULTS = Inr g" using gov_cfg_of_wf [OF DEFAULTS_wf] by blast
  obtain m c where m: "gpu_section DEFAULTS = Inr (m, c)" using gpu_section_wf [OF DEFAULTS_wf] by blast
  obtain fc where fc: "fan_cfg_of DEFAULTS = Inr fc"
    by (simp add: fan_cfg_of_def DEFAULTS_def cfg_section_def sect_str_def sect_num_def sect_int_def sect_val_def)
  obtain st where st: "build_status demo_denv 0 None ?d = Inr st" by (simp add: build_status_def g m fc Let_def)
  have "ui_slow (sm_slow_data (dm_sampler ?d))"
    by (simp add: demo_blank_def sampler_init_def ui_slow_def sectionlike_def cpu_ui_shape_def listlike_def py_get_def)
  from dashboard_never_fails [OF st this, of 80 "\<lambda>_. []" 1 True "[]"] st show ?thesis by blast
qed

section \<open>The gauge\<close>

lemma input_lines_cases:
  assumes "input_lines s width = Inr (l1, l2, l3)"
  obtains lat der th acpw c st g where "sec s ''derived'' = Inr der" "sec s ''thresholds'' = Inr th" "band_style (py_get der ''input_mean_1s'') th = Inr st"
    "gauge th c (gauge_width width (input_head (py_get der ''input_mean_1s'') st) (input_tail (100 \<le> width) lat der acpw st)) (py_get der ''input_mean_1s'') = Inr g"
    "l1 = input_head (py_get der ''input_mean_1s'') st @ g @ input_tail (100 \<le> width) lat der acpw st"
  using assms unfolding input_lines_def by (auto simp: res_bind_Inr Let_def)

lemma each_elem: "each f xs = Inr ys \<Longrightarrow> y \<in> set ys \<Longrightarrow> \<exists>x \<in> set xs. f x = Inr y"
proof (induction xs arbitrary: ys)
  case (Cons x xs)
  then show ?case by (cases "f x"; cases "each f xs") auto
qed simp

lemma each_length: "each f xs = Inr ys \<Longrightarrow> length ys = length xs"
proof (induction xs arbitrary: ys)
  case (Cons x xs)
  then show ?case by (cases "f x"; cases "each f xs") auto
qed simp

lemma eighths_index: "fl (5 / 100) < fsub f (of_int (trunc_rat f)) \<Longrightarrow> nat (max 1 (trunc_rat (fmul (fsub f (of_int (trunc_rat f))) 8))) < 9"
proof -
  assume a: "fl (5 / 100) < fsub f (of_int (trunc_rat f))"
  have "0 \<le> f"
  proof (rule ccontr)
    assume "\<not> 0 \<le> f"
    then have "f \<le> of_int (trunc_rat f)" using of_int_floor_le [of "- f"] by (simp add: trunc_rat_def) linarith
    then have "fsub f (of_int (trunc_rat f)) \<le> 0" by (intro fl_nonpos) simp
    moreover have "0 \<le> fl (5 / 100)" by simp
    ultimately show False using a by linarith
  qed
  note t = trunc_rat_bounds [OF this]
  have "fsub f (of_int (trunc_rat f)) \<le> 1" using t by (intro fl_le) simp_all
  then have "fmul (fsub f (of_int (trunc_rat f))) 8 \<le> 8" by (intro fl_le) simp_all
  moreover have "0 \<le> fmul (fsub f (of_int (trunc_rat f))) 8" using t by simp
  ultimately show ?thesis using trunc_rat_bounds [of "fmul (fsub f (of_int (trunc_rat f))) 8"] by linarith
qed

lemma gauge_cell_len: "gauge_cell th c bw f i = Inr x \<Longrightarrow> ulen (fst x) = 1"
  using ulen_eighths [OF eighths_index [of f]] by (auto simp: gauge_cell_def res_bind_Inr Let_def ulen_glyphs split: if_splits)

lemma cells_len: "\<forall>x \<in> set g. ulen (fst x) = 1 \<Longrightarrow> rich_len g = length g"
  by (induction g) (simp_all add: rich_len_def plain_of_def)

lemma gauge_len: "gauge th c bw inp = Inr g \<Longrightarrow> rich_len g = nat bw"
proof -
  assume a: "gauge th c bw inp = Inr g"
  then have "\<forall>x \<in> set g. ulen (fst x) = 1" using each_elem gauge_cell_len unfolding gauge_def Let_def by meson
  then show ?thesis using cells_len each_length [OF a [unfolded gauge_def Let_def]] by simp
qed

text \<open>The rules of the governor move PL1 in the direction of the band of the mean input.\<close>

lemma gov_rules_direction:
  fixes t mn shed rec top_w ceil_w :: rat and new :: gstate and w :: wstep
  assumes "pdtr < emg" "0 \<le> g_cut_step_w g" "0 \<le> g_recover_step_w g" "is_double pl1" "flr \<le> pl1"
  defines "q \<equiv> fst (snd (gov_rules g t pdtr mn (shed, emg, rec) flr top_w ceil_w (new, pl1, w)))"
  shows "shed \<le> mn \<Longrightarrow> q \<le> pl1" "\<not> shed \<le> mn \<Longrightarrow> rec \<le> mn \<Longrightarrow> q = pl1" "\<not> shed \<le> mn \<Longrightarrow> pl1 \<le> q"
proof -
  have d: "fsub pl1 (g_cut_step_w g) \<le> pl1" "pl1 \<le> fadd pl1 (g_recover_step_w g)" using assms(2-4) by (auto intro: fl_le fl_ge)
  show "shed \<le> mn \<Longrightarrow> q \<le> pl1" using assms(1,5) d(1) unfolding q_def by (simp add: gov_rules_def rule_shed_def Let_def)
  show "\<not> shed \<le> mn \<Longrightarrow> rec \<le> mn \<Longrightarrow> q = pl1" using assms(1) unfolding q_def by (simp add: gov_rules_def rule_below_def rule_recover_def Let_def)
  show "\<not> shed \<le> mn \<Longrightarrow> pl1 \<le> q" using assms(1) d(2) unfolding q_def
    by (auto simp: gov_rules_def rule_below_def rule_recover_def Let_def split: option.split)
qed

text \<open>
  The gauge tells what the governor does. On a status of the daemon its first line fills the width of
  the panel, and the colour of the input power is red only if the governor's rules do not raise PL1 on
  the same values, amber only if they leave it, and green only if they do not lower it, unless a sample
  reached the emergency threshold.
\<close>

theorem gauge_shows_governor:
  assumes "build_status env now (Some der) d = Inr st" "gov_cfg_of (dm_config d) = Inr g"
    "thresholds (d_acpw_median_10s der) g = Some (shed, emg, rec)" "d_input_mean_1s der = Some mn"
    "cfg_wf (dm_config d)" "pdtr < emg" "is_double pl1" "flr \<le> pl1" "input_lines st width = Inr (l1, l2, l3)"
  shows "\<exists>c rest. l1 = input_head (pnum mn) c @ rest \<and> width \<le> int (rich_len l1) \<and> c \<in> {RED, AMBER, GREEN} \<and>
    (c = RED \<longrightarrow> fst (snd (gov_rules g t pdtr mn (shed, emg, rec) flr top_w ceil_w (new, pl1, w))) \<le> pl1) \<and>
    (c = AMBER \<longrightarrow> fst (snd (gov_rules g t pdtr mn (shed, emg, rec) flr top_w ceil_w (new, pl1, w))) = pl1) \<and>
    (c = GREEN \<longrightarrow> pl1 \<le> fst (snd (gov_rules g t pdtr mn (shed, emg, rec) flr top_w ceil_w (new, pl1, w))))"
proof -
  have "gcfg_ok g" using gov_cfg_of_wf [OF assms(5)] assms(2) by auto
  then have steps: "0 \<le> g_cut_step_w g" "0 \<le> g_recover_step_w g" by (simp_all add: gcfg_ok_def near_range_def)
  have sects: "sec st ''derived'' = Inr dv \<Longrightarrow> py_get dv ''input_mean_1s'' = pnum mn"
    "sec st ''thresholds'' = Inr th \<Longrightarrow> th = [(''shed_w'', pnum shed), (''emergency_w'', pnum emg), (''recover_w'', pnum rec)]" for dv th
    using assms(1-4) unfolding build_status_def
    by (auto simp: res_bind_Inr Let_def sec_def sub_or_def py_get_def derived_val_def thresholds_val_def onum_def)
  obtain lat dv th acpw cc c gg where p: "sec st ''derived'' = Inr dv" "sec st ''thresholds'' = Inr th" "band_style (py_get dv ''input_mean_1s'') th = Inr c"
    "gauge th cc (gauge_width width (input_head (py_get dv ''input_mean_1s'') c) (input_tail (100 \<le> width) lat dv acpw c)) (py_get dv ''input_mean_1s'') = Inr gg"
    "l1 = input_head (py_get dv ''input_mean_1s'') c @ gg @ input_tail (100 \<le> width) lat dv acpw c"
    using input_lines_cases [OF assms(9)] by metis
  note m = sects(1) [OF p(1)] and th = sects(2) [OF p(2)]
  have c: "c = (if shed \<le> mn then RED else if rec \<le> mn then AMBER else GREEN)"
    using p(3) unfolding m th by (auto simp: band_style_def isnum_def at_key_def ge_val_def split: if_splits)
  have "width \<le> int (rich_len l1)"
    unfolding p(5) using gauge_len [OF p(4)] by (simp add: rich_len_def gauge_width_def max_def split: if_splits)
  moreover have "RED \<noteq> AMBER" "RED \<noteq> GREEN" "AMBER \<noteq> GREEN" by (simp_all add: RED_def AMBER_def GREEN_def)
  ultimately show ?thesis using p(5) c m gov_rules_direction [OF assms(6) steps assms(7,8)] by (auto split: if_splits)
qed

theorem gauge_shows_governor_witness:
  "\<exists>st l1 l2 l3 c rest. build_status demo_denv 0 (Some \<lparr>d_input_mean_1s = Some 50, d_input_max_1s = Some 52, d_pkg_median_1s = Some 30,
       d_acpw_median_10s = Some 80, d_noncpu_est_w = Some 20, d_headroom_w = Some 30, d_pred_input_at_ceiling_w = 60\<rparr>) (demo_blank\<lparr>dm_config := DEFAULTS\<rparr>) = Inr st \<and>
     input_lines st 100 = Inr (l1, l2, l3) \<and> l1 = input_head (pnum 50) c @ rest \<and> 100 \<le> rich_len l1"
proof -
  let ?d = "demo_blank\<lparr>dm_config := DEFAULTS\<rparr>"
  let ?x = "\<lparr>d_input_mean_1s = Some 50, d_input_max_1s = Some 52, d_pkg_median_1s = Some 30, d_acpw_median_10s = Some 80, d_noncpu_est_w = Some 20,
       d_headroom_w = Some 30, d_pred_input_at_ceiling_w = 60\<rparr>"
  obtain g where g: "gov_cfg_of DEFAULTS = Inr g" using gov_cfg_of_wf [OF DEFAULTS_wf] by blast
  obtain m c where m: "gpu_section DEFAULTS = Inr (m, c)" using gpu_section_wf [OF DEFAULTS_wf] by blast
  obtain fc where fc: "fan_cfg_of DEFAULTS = Inr fc"
    by (simp add: fan_cfg_of_def DEFAULTS_def cfg_section_def sect_str_def sect_num_def sect_int_def sect_val_def)
  obtain st where st: "build_status demo_denv 0 (Some ?x) ?d = Inr st" by (simp add: build_status_def g m fc Let_def)
  obtain l1 l2 l3 where l: "input_lines st 100 = Inr (l1, l2, l3)" using status_input_lines [OF st, of 100] unfolding is_ok_ex by (metis surj_pair)
  have th: "thresholds (d_acpw_median_10s ?x) g = Some (fmul 80 (g_shed_ratio g), fmul 80 (g_emergency_ratio g), fmul 80 (g_recover_ratio g))"
    by (simp add: thresholds_def)
  have "gov_cfg_of (dm_config ?d) = Inr g" "d_input_mean_1s ?x = Some 50" "cfg_wf (dm_config ?d)" "fmul 80 (g_emergency_ratio g) - 1 < fmul 80 (g_emergency_ratio g)"
    "is_double 35" "(10 :: rat) \<le> 35" using g DEFAULTS_wf by simp_all
  from gauge_shows_governor [OF st this(1) th this(2-6) l] obtain c rest where "l1 = input_head (pnum 50) c @ rest" "100 \<le> int (rich_len l1)" by blast
  then show ?thesis using st l by (intro exI conjI) simp_all
qed

end
