(* ===== verification/Screens.thy ===== *)
theory Screens
  imports Dashboard
begin

text \<open>
  \<open>tui/screens/gpu.py\<close>, \<open>tui/screens/log.py\<close> and \<open>tui/screens/incidents.py\<close>: the GPU mode, the event log and the
  incidents. Handlers are functions on the state of a screen that also give the requests they make; what a
  widget shows is part of the state. \<open>press\<close> sets a radio button; the change event that the library sends for
  it is an event of its own.
\<close>

section \<open>The GPU screen\<close>

definition MODES :: "string list" where "MODES = [''auto'', ''low'', ''off'']"

record gpu_view =
  gv_pending :: "string option"
  gv_expect :: pyval
  gv_local :: pyval
  gv_status :: "pyval dict"
  gv_steps_key :: pyval
  gv_radio :: "string option"
  gv_disabled :: bool
  gv_now :: rich
  gv_progress :: rich
  gv_steps :: rich

definition gpu_view_init :: gpu_view where
  "gpu_view_init = \<lparr>gv_pending = None, gv_expect = PNone, gv_local = PNone, gv_status = [], gv_steps_key = PNone, gv_radio = None,
     gv_disabled = False, gv_now = [], gv_progress = [], gv_steps = []\<rparr>"

datatype gv_req = AskGpuOff | GpuSet string

definition current :: "gpu_view \<Rightarrow> pyval res" where
  "current s = fld (sub_or (gv_status s) ''gpu'') ''config_mode''"

definition effective :: "gpu_view \<Rightarrow> pyval res" where
  "effective s = (if truthy (gv_expect s) then Inr (gv_expect s) else current s)"

definition press :: "pyval \<Rightarrow> gpu_view \<Rightarrow> gpu_view" where
  "press mode s = (case mode of PStr m \<Rightarrow> if m \<in> set MODES then s\<lparr>gv_radio := Some m\<rparr> else s | _ \<Rightarrow> s)"

definition arrow :: string where "arrow = '' '' @ RARROW"

text \<open>\<open>render_steps\<close>: the last mode change with its steps.\<close>

definition step_line :: "pyval \<Rightarrow> (string \<times> string) res" where
  "step_line st = (case st of PStr t \<Rightarrow> Inr (NL @ ''  '' @ t, if substr_of ''FAILED'' t then RED else [])
     | _ \<Rightarrow> Inl (TypeError ''argument is not iterable''))"

definition steps_text :: "(pyval \<Rightarrow> string) \<Rightarrow> pyval \<Rightarrow> rich res" where
  "steps_text pstr res =
    (if \<not> truthy res then Inr (styled (''LAST MODE CHANGE'' @ NL) ''bold'' @ [(''none since the daemon started'', DIM)])
     else res_bind (items_of res) (\<lambda>d. res_bind (rows_of d ''steps'') (\<lambda>steps. res_bind (each step_line steps) (\<lambda>ls.
       let ok = truthy (py_get d ''ok''); saved = truthy (py_get d ''persisted'') in Inr
       (styled (''LAST MODE CHANGE'' @ NL) ''bold''
        @ [(if ok then ''OK'' else ''FAILED'', ''bold '' @ (if ok then GREEN else RED)), (arrow @ ''mode '' @ pstr (py_get d ''mode'') @ '': '' @ pstr (py_get d ''reason''), [])]
        @ (if dhas d ''persisted''
           then [(if saved then ''  saved'' else ''  NOT saved '' @ (if truthy (py_get d ''persist_error'') then pstr (py_get d ''persist_error'') else []), if saved then DIM else AMBER)]
           else [])
        @ ls)))))"

definition render_steps :: "(pyval \<Rightarrow> string) \<Rightarrow> pyval \<Rightarrow> gpu_view \<Rightarrow> unit res \<times> gpu_view" where
  "render_steps pstr res s =
    (if res = gv_steps_key s \<and> gv_steps_key s \<noteq> PNone then (Inr (), s)
     else let s = s\<lparr>gv_steps_key := res\<rparr> in
       case steps_text pstr res of Inl e \<Rightarrow> (Inl e, s) | Inr t \<Rightarrow> (Inr (), s\<lparr>gv_steps := t\<rparr>))"

text \<open>\<open>show\<close>; \<open>width\<close> is the width of the state panel.\<close>

definition gv_show :: "(pyval \<Rightarrow> string) \<Rightarrow> int \<Rightarrow> pyval dict \<Rightarrow> gpu_view \<Rightarrow> unit res \<times> gpu_view" where
  "gv_show pstr width st s =
    (let s = s\<lparr>gv_status := st\<rparr> in
     case res_bind (sec st ''gpu'') (\<lambda>gpu. res_bind (gpu_text pstr gpu (max 20 width) True) (\<lambda>t. res_bind (current s) (\<lambda>c. Inr (gpu, t, c)))) of
       Inl e \<Rightarrow> (Inl e, s)
     | Inr (gpu, t, c) \<Rightarrow>
         let s = s\<lparr>gv_now := t\<rparr>;
             s = (if gv_expect s \<noteq> PNone \<and> c = gv_expect s then s\<lparr>gv_expect := PNone\<rparr> else s);
             s = (if gv_pending s = None \<and> gv_expect s = PNone then press c s else s)
         in render_steps pstr (if truthy (py_get gpu ''last_result'') then py_get gpu ''last_result'' else gv_local s) s)"

definition gv_apply :: "string \<Rightarrow> gpu_view \<Rightarrow> gpu_view \<times> gv_req list" where
  "gv_apply mode s =
    (s\<lparr>gv_pending := Some mode, gv_disabled := True,
       gv_progress := [(''applying '' @ mode @ (if mode = ''off'' then '' (switcheroo off, verify, wait 10 s, verify)'' else []) @ [CHR 0xE2, CHR 0x80, CHR 0xA6], ''bold '' @ AMBER)]\<rparr>,
     [GpuSet mode])"

definition radio_changed :: "nat \<Rightarrow> gpu_view \<Rightarrow> unit res \<times> gpu_view \<times> gv_req list" where
  "radio_changed i s =
    (if length MODES \<le> i then (Inr (), s, [])
     else case effective s of
       Inl e \<Rightarrow> (Inl e, s, [])
     | Inr m \<Rightarrow>
         if PStr (MODES ! i) = m \<or> gv_pending s \<noteq> None then (Inr (), s, [])
         else if MODES ! i = ''off'' then (Inr (), s, [AskGpuOff])
         else (Inr (), gv_apply (MODES ! i) s))"

definition gv_off_answer :: "bool option \<Rightarrow> gpu_view \<Rightarrow> unit res \<times> gpu_view \<times> gv_req list" where
  "gv_off_answer ans s =
    (if ans = Some True then (Inr (), gv_apply ''off'' s)
     else let s = s\<lparr>gv_progress := [(''off cancelled: nothing changed'', DIM)]\<rparr> in
       (case effective s of Inl e \<Rightarrow> (Inl e, s, []) | Inr m \<Rightarrow> (Inr (), press m s, [])))"

text \<open>\<open>done\<close>: the result of the request, or the error text.\<close>

definition gv_done :: "(pyval \<Rightarrow> string) \<Rightarrow> pyval dict + string \<Rightarrow> gpu_view \<Rightarrow> unit res \<times> gpu_view" where
  "gv_done pstr r s =
    (let mode = (case gv_pending s of Some m \<Rightarrow> m | None \<Rightarrow> ''None''); s = s\<lparr>gv_pending := None, gv_disabled := False\<rparr>;
         (r1, s1) = (case r of
            Inr err \<Rightarrow> (Inr (), s\<lparr>gv_progress := [(mode @ '' REJECTED: '' @ err, ''bold '' @ RED)], gv_expect := PNone\<rparr>)
          | Inl d \<Rightarrow>
              let ok = truthy (py_get d ''ok'');
                  s = s\<lparr>gv_local := PDict d,
                    gv_progress := [(mode @ '': '' @ (if ok then ''OK'' else ''FAILED'') @ arrow @ ''mode '' @ pstr (py_get d ''mode'') @ '' ('' @ pstr (py_get d ''reason'') @ '')'',
                                     ''bold '' @ (if ok then GREEN else RED))]\<rparr>
              in (case render_steps pstr (PDict d) s of (Inl e, s) \<Rightarrow> (Inl e, s) | (Inr _, s) \<Rightarrow> (Inr (), s\<lparr>gv_expect := py_get d ''mode''\<rparr>)))
     in case r1 of
          Inl e \<Rightarrow> (Inl e, s1)
        | Inr _ \<Rightarrow> (case effective s1 of Inl e \<Rightarrow> (Inl e, s1) | Inr m \<Rightarrow> (Inr (), press m s1)))"

section \<open>The event log\<close>

definition TYPE_STYLE :: "string dict" where
  "TYPE_STYLE = [(''cut'', AMBER), (''emergency'', ''bold '' @ RED), (''fallback'', ''bold '' @ MAGENTA), (''state'', BLUE), (''recover'', GREEN), (''write'', DIM),
     (''config_change'', CYAN), (''gpu_mode'', CYAN), (''gpu_mode_request'', CYAN), (''retry_scheduled'', MAGENTA)]"

text \<open>\<open>short\<close>: at most 60 characters of a value's JSON text \<open>dumps\<close>.\<close>

definition short :: "(pyval \<Rightarrow> string) \<Rightarrow> pyval \<Rightarrow> string" where
  "short dumps v = (let t = dumps v in if ulen t \<le> 60 then t else utake 59 t @ [CHR 0xE2, CHR 0x80, CHR 0xA6])"

definition event_line :: "(pyval \<Rightarrow> string) \<Rightarrow> (pyval \<Rightarrow> string) \<Rightarrow> (rat \<Rightarrow> string) \<Rightarrow> pyval dict \<Rightarrow> rich" where
  "event_line pstr dumps lt ev =
    (let typ = pstr (py_get ev ''type'');
         style = (case dget TYPE_STYLE typ of Some x \<Rightarrow> x | None \<Rightarrow> if substr_of ''error'' typ \<or> substr_of ''fail'' typ then RED else [])
     in styled (hms lt (py_get ev ''ts'') @ ''  '') DIM
        @ [(ljust 18 typ @ '' '', if style \<noteq> [] then style else ''bold''),
           (join_with '' '' (map (\<lambda>(k, v). k @ ''='' @ short dumps v) (filter (\<lambda>(k, v). k \<noteq> ''ts'' \<and> k \<noteq> ''type'') ev)), [])])"

text \<open>ASCII lower case, which is all that occurs in a key: JSON texts are escaped to ASCII.\<close>

definition lower :: "string \<Rightarrow> string" where
  "lower t = map (\<lambda>c. if CHR ''A'' \<le> c \<and> c \<le> CHR ''Z'' then char_of (of_char c + 32 :: nat) else c) t"

record log_view =
  lv_events :: "pyval dict list"
  lv_types :: "string list"
  lv_busy :: bool
  lv_type :: "string option"
  lv_needle :: string
  lv_lines :: "rich list"
  lv_note :: rich

text \<open>What the screen draws with: the line of an event, its key (\<open>ev_key\<close>) and the text of its type.\<close>

record lv_env =
  le_line :: "pyval dict \<Rightarrow> rich"
  le_key :: "pyval dict \<Rightarrow> string"
  le_str :: "pyval \<Rightarrow> string"

definition LOG_LINES :: nat where "LOG_LINES = 5000"

definition lv_write :: "log_view \<Rightarrow> rich \<Rightarrow> log_view" where
  "lv_write s t = s\<lparr>lv_lines := last_n LOG_LINES (lv_lines s @ [t])\<rparr>"

definition matches :: "lv_env \<Rightarrow> log_view \<Rightarrow> pyval dict \<Rightarrow> bool" where
  "matches env s ev =
    ((case lv_type s of None \<Rightarrow> True | Some t \<Rightarrow> py_get ev ''type'' = PStr t) \<and>
     (let n = lower (strip (lv_needle s)) in n = [] \<or> substr_of n (lower (le_key env ev))))"

definition count_note :: "lv_env \<Rightarrow> log_view \<Rightarrow> log_view" where
  "count_note env s =
    s\<lparr>lv_note := [('' '' @ str_int (int (length (filter (matches env s) (lv_events s)))) @ '' of '' @ str_int (int (length (lv_events s))) @ '' events, newest last'', DIM)]\<rparr>"

definition write_events :: "lv_env \<Rightarrow> pyval dict list \<Rightarrow> log_view \<Rightarrow> log_view" where
  "write_events env evs s = fold (\<lambda>ev s. if matches env s ev then lv_write s (le_line env ev) else s) evs s"

definition rerender :: "lv_env \<Rightarrow> log_view \<Rightarrow> log_view" where
  "rerender env s = count_note env (write_events env (lv_events s) (s\<lparr>lv_lines := []\<rparr>))"

definition poll :: "log_view \<Rightarrow> log_view \<times> bool" where
  "poll s = (if lv_busy s then (s, False) else (s\<lparr>lv_busy := True\<rparr>, True))"

definition known_types :: "lv_env \<Rightarrow> pyval dict list \<Rightarrow> string list \<Rightarrow> string list" where
  "known_types env evs old = sorted_list_of_set (set (map (\<lambda>e. le_str env (py_get e ''type'')) evs) \<union> set old)"

text \<open>The position of the first occurrence, as \<open>list.index\<close> gives it.\<close>

fun index_of :: "'a \<Rightarrow> 'a list \<Rightarrow> nat option" where
  "index_of x [] = None"
| "index_of x (y # ys) = (if x = y then Some 0 else map_option Suc (index_of x ys))"

definition show_types :: "string list \<Rightarrow> log_view \<Rightarrow> log_view" where
  "show_types types s =
    (if types \<noteq> lv_types s
     then s\<lparr>lv_types := types, lv_type := (case lv_type s of Some t \<Rightarrow> if t \<in> set types then Some t else None | None \<Rightarrow> None)\<rparr>
     else s)"

definition got :: "lv_env \<Rightarrow> pyval dict list + string \<Rightarrow> log_view \<Rightarrow> log_view" where
  "got env r s =
    (let s = s\<lparr>lv_busy := False\<rparr> in
     case r of
       Inr err \<Rightarrow> s\<lparr>lv_note := [(''events unavailable: '' @ err, RED)]\<rparr>
     | Inl evs \<Rightarrow>
         let old = lv_events s; types = known_types env evs (lv_types s); s = show_types types (s\<lparr>lv_events := evs\<rparr>)
         in case (if old = [] then None else index_of (le_key env (last old)) (map (le_key env) evs)) of
              Some i \<Rightarrow> count_note env (write_events env (drop (i + 1) evs) s)
            | None \<Rightarrow> rerender env s)"

definition set_filter :: "lv_env \<Rightarrow> string option \<Rightarrow> string \<Rightarrow> log_view \<Rightarrow> log_view" where
  "set_filter env t needle s = rerender env (s\<lparr>lv_type := t, lv_needle := needle\<rparr>)"

section \<open>The incidents\<close>

record inc_view =
  iv_loaded :: "string option"
  iv_head :: rich
  iv_rows :: "string list list"
  iv_cursor :: nat
  iv_title :: rich

definition inc_load :: "string \<Rightarrow> inc_view \<Rightarrow> inc_view \<times> string list" where
  "inc_load iid s = (s\<lparr>iv_loaded := Some iid\<rparr>, [iid])"

text \<open>One row of the table; \<open>r\<close> as \<open>list_incidents\<close> gives it.\<close>

definition inc_row :: "(pyval \<Rightarrow> string) \<Rightarrow> pyval dict \<Rightarrow> string list" where
  "inc_row pstr r =
    [pstr (py_get r ''id''), utake 8 (or_dash pstr (py_get r ''boot_id'')), or_dash pstr (py_get r ''last_sample_time''),
     (case dget r ''n_samples'' of Some v \<Rightarrow> pstr v | None \<Rightarrow> ''0''), utake 44 (or_dash pstr (py_get r ''reason''))]"

text \<open>\<open>listed\<close>: the incident shown before is loaded again when it is still there, the first one otherwise.\<close>

definition listed :: "(pyval \<Rightarrow> string) \<Rightarrow> pyval dict \<Rightarrow> pyval dict list + string \<Rightarrow> inc_view \<Rightarrow> unit res \<times> inc_view \<times> string list" where
  "listed pstr st r s =
    (case r of
       Inr err \<Rightarrow> (Inr (), s\<lparr>iv_head := [(''cannot list incidents: '' @ err, RED)]\<rparr>, [])
     | Inl rows \<Rightarrow>
         (case sec st ''incident_check'' of
            Inl e \<Rightarrow> (Inl e, s, [])
          | Inr ic \<Rightarrow>
              let or_d = (\<lambda>k. case dget ic k of Some v \<Rightarrow> pstr v | None \<Rightarrow> DASH);
                  s = s\<lparr>iv_head := styled (str_int (int (length rows)) @ '' incident(s) recorded'') ''bold''
                          @ [(''   last boot check: '' @ or_d ''verdict'' @ '' ('' @ or_d ''reason'' @ '')'', DIM)],
                        iv_rows := map (inc_row pstr) rows\<rparr>;
                  ids = map (\<lambda>r. pstr (py_get r ''id'')) rows
              in if rows = [] then (Inr (), s\<lparr>iv_title := [(''no abrupt boots recorded'', DIM)]\<rparr>, [])
                 else let i = (case iv_loaded s of Some k \<Rightarrow> (case index_of k ids of Some j \<Rightarrow> j | None \<Rightarrow> 0) | None \<Rightarrow> 0)
                      in (Inr (), inc_load (ids ! i) (s\<lparr>iv_cursor := i\<rparr>))))"

definition row_highlighted :: "string option \<Rightarrow> inc_view \<Rightarrow> inc_view \<times> string list" where
  "row_highlighted iid s = (case iid of Some k \<Rightarrow> if k \<noteq> [] \<and> iv_loaded s \<noteq> Some k then inc_load k s else (s, []) | None \<Rightarrow> (s, []))"

text \<open>\<open>render_incident\<close>: title, the last sample, the processes and the journal of an incident.\<close>

definition inc_title :: "(pyval \<Rightarrow> string) \<Rightarrow> pyval dict \<Rightarrow> nat \<Rightarrow> rich" where
  "inc_title pstr inc n =
    styled (pstr (py_get inc ''id'')) ''bold''
    @ [(''   boot '' @ or_dash pstr (py_get inc ''boot_id'') @ ''   detected '' @ or_dash pstr (py_get inc ''detected_at'') @ ''   '' @ str_int (int n) @ '' s of samples'' @ NL, DIM),
       (if truthy (py_get inc ''reason'') then pstr (py_get inc ''reason'') else [], AMBER)]"

definition inc_last :: "(pyval \<Rightarrow> string) \<Rightarrow> pyval dict \<Rightarrow> rich" where
  "inc_last pstr smp =
    (let G = py_get smp in
     foldl (\<lambda>t (label, v). kv t label v ''bold'' ''  '')
       (styled ''last sample '' ''bold'' @ [(or_dash pstr (G ''time'') @ ''  '', DIM)])
       [(''input'', watts (G ''input_w'')), (''package'', watts (G ''pkg_w'')), (''GPU'', watts (G ''gpu_w'')), (''PL1'', compact (G ''pl1_w'')),
        (''pkg'', num (G ''pkg_c'') CELSIUS 0 '' ''), (''state'', or_dash pstr (G ''state''))])"

definition inc_top :: "(pyval \<Rightarrow> string) \<Rightarrow> pyval list \<Rightarrow> rich res" where
  "inc_top pstr rows =
    res_bind (each (\<lambda>p. res_bind (fld p ''name'') (\<lambda>n. res_bind (fld p ''cpu_pct'') (\<lambda>q. Inr (pstr n @ '' '' @ num q ''%'' 0 '' '')))) (take 8 rows)) (\<lambda>ls. Inr
      (styled ''top processes  '' ''bold''
       @ [(let t = join_with ''   '' ls in if t = [] then ''none recorded'' else t, if rows \<noteq> [] then [] else DIM)]))"

definition inc_journal :: "pyval dict \<Rightarrow> rich res" where
  "inc_journal inc =
    res_bind (rows_of inc ''journal_tail'') (\<lambda>ls. res_bind (each (\<lambda>v. case v of PStr t \<Rightarrow> Inr t | _ \<Rightarrow> Inl (TypeError ''sequence item: expected str instance'')) ls) (\<lambda>ts. Inr
      (styled (''journal tail (previous boot)'' @ NL) ''bold'' @ [(if ls = [] then ''(empty)'' else join_with NL ts, DIM)])))"

text \<open>The curves: the values of all samples and the current one.\<close>

definition inc_curves :: "pyval list \<Rightarrow> pyval dict \<Rightarrow> (pyval list \<times> pyval) list res" where
  "inc_curves samples smp = each (\<lambda>k. res_bind (each (\<lambda>r. fld r k) samples) (\<lambda>vs. Inr (vs, py_get smp k))) [''input_w'', ''pkg_w'', ''gpu_w'']"

definition render_incident :: "(pyval \<Rightarrow> string) \<Rightarrow> pyval dict \<Rightarrow> (rich \<times> (pyval list \<times> pyval) list \<times> rich \<times> rich \<times> rich) res" where
  "render_incident pstr inc =
    res_bind (rows_of inc ''samples'') (\<lambda>samples. res_bind (if samples = [] then Inr [] else items_of (last samples)) (\<lambda>smp.
    res_bind (inc_curves samples smp) (\<lambda>curves. res_bind (sec smp ''cpu'') (\<lambda>cpu. res_bind (rows_of cpu ''top'') (\<lambda>rows. res_bind (inc_top pstr rows) (\<lambda>tops.
    res_bind (inc_journal inc) (\<lambda>j. Inr (inc_title pstr inc (length samples), curves, inc_last pstr smp, tops, j))))))))"

text \<open>What the details show: an error text alone, or all of it.\<close>

definition incident_view :: "(pyval \<Rightarrow> string) \<Rightarrow> pyval dict + string \<Rightarrow> (rich + rich \<times> (pyval list \<times> pyval) list \<times> rich \<times> rich \<times> rich) res" where
  "incident_view pstr r =
    (case r of
       Inr err \<Rightarrow> Inr (Inl [(''cannot load incident: '' @ err, RED)])
     | Inl inc \<Rightarrow> if inc = [] then Inr (Inl [(''cannot load incident: None'', RED)]) else res_bind (render_incident pstr inc) (\<lambda>v. Inr (Inr v)))"

end
