(* ===== verification/Settings.thy ===== *)
theory Settings
  imports Ui Config
begin

text \<open>
  \<open>tui/screens/settings.py\<close>: every configuration key with an editor. Handlers are functions on the state of
  the screen that also give the requests they make: to the backend (on a worker thread, see
  \<open>call_backend\<close>) or to the user (a dialog). An editor is what it holds. Rows, layout and focus belong to
  the drawing library.
\<close>

definition NULL :: string where "NULL = ''__null__''"
definition TICK :: string where "TICK = [CHR 0xE2, CHR 0x9C, CHR 0x93]"
definition DOTS :: string where "DOTS = [CHR 0xE2, CHR 0x80, CHR 0xA6]"
definition APPROX :: string where "APPROX = [CHR '' '', CHR 0xE2, CHR 0x89, CHR 0x88, CHR '' '']"
definition ARROW :: string where "ARROW = [CHR '' '', CHR 0xE2, CHR 0x86, CHR 0x92, CHR '' '']"
definition TIMES :: string where "TIMES = [CHR 0xC3, CHR 0x97, CHR '' '']"
definition DEGREE :: string where "DEGREE = [CHR 0xC2, CHR 0xB0]"

section \<open>Values, bounds and editors\<close>

definition UNITS :: "(string \<times> string) list" where
  "UNITS = [(''_w'', ''W''), (''_s'', ''s''), (''_days'', ''d''), (''_mib'', ''MiB''), (''_pct'', ''%''), (''_ratio'', TIMES @ ''ACPW''), (''_rpm'', ''rpm''), (''_c'', DEGREE @ ''C'')]"

definition unit_for :: "string \<Rightarrow> string" where
  "unit_for key = (case find (\<lambda>x. ends_with (fst x) key) UNITS of Some (_, u) \<Rightarrow> u | None \<Rightarrow> [])"

definition value_text :: "(pyval \<Rightarrow> string) \<Rightarrow> string \<Rightarrow> pyval \<Rightarrow> pyval \<Rightarrow> string" where
  "value_text pstr key v acpw =
    (case v of
       PNone \<Rightarrow> DASH @ '' (leave)''
     | PBool b \<Rightarrow> (if b then ''true'' else ''false'')
     | _ \<Rightarrow>
         (case num_of v of
            None \<Rightarrow> pstr v
          | Some x \<Rightarrow>
              if ends_with ''_ratio'' key then
                (case num_of acpw of Some a \<Rightarrow> fmt_g (fl x) @ '' ('' @ fmt_fixed 1 (fmul a x) @ '' W)'' | None \<Rightarrow> fmt_g (fl x))
              else strip (fmt_g (fl x) @ '' '' @ unit_for key)))"

text \<open>\<open>config.SPEC[key]\<close>.\<close>

definition spec_of :: "string \<Rightarrow> (bool \<times> kind) res" where
  "spec_of key = (case dget SPEC key of Some sp \<Rightarrow> Inr sp | None \<Rightarrow> Inl (KeyError key))"

definition range_text :: "string \<Rightarrow> bool \<Rightarrow> rat \<Rightarrow> rat \<Rightarrow> string" where
  "range_text key nullable lo hi = strip (fmt_g lo @ DASH @ fmt_g hi @ '' '' @ unit_for key) @ (if nullable then '', empty = '' @ DASH else [])"

definition bounds_text :: "string \<Rightarrow> string res" where
  "bounds_text key =
    res_bind (spec_of key) (\<lambda>(nullable, kd). Inr
      (case kd of
         Choice arg \<Rightarrow> join_with '' / '' arg @ (if nullable then '' / '' @ DASH else [])
       | BoolK \<Rightarrow> ''true / false / '' @ DASH
       | Num lo hi \<Rightarrow> range_text key nullable lo hi
       | IntR lo hi \<Rightarrow> range_text key nullable (of_int lo) (of_int hi)))"

definition editor_value :: "(pyval \<Rightarrow> string) \<Rightarrow> string \<Rightarrow> pyval \<Rightarrow> pyval res" where
  "editor_value pstr key v =
    res_bind (spec_of key) (\<lambda>(_, kd). Inr
      (let sel = (case v of PNone \<Rightarrow> PStr NULL | PBool b \<Rightarrow> PStr (if b then ''true'' else ''false'') | _ \<Rightarrow> v)
       in case kd of
         Choice _ \<Rightarrow> sel
       | BoolK \<Rightarrow> sel
       | _ \<Rightarrow> PStr (if v = PNone then [] else case num_of v of Some x \<Rightarrow> fmt_g (fl x) | None \<Rightarrow> pstr v)))"

text \<open>\<open>parse\<close>; \<open>to_float\<close> is \<open>float\<close> of a text, \<open>None\<close> for \<open>ValueError\<close>.\<close>

definition parse_number :: "(string \<Rightarrow> pyfloat option) \<Rightarrow> bool \<Rightarrow> string \<Rightarrow> pyval" where
  "parse_number to_float nullable txt =
    (if txt = [] \<and> nullable then PNone
     else case to_float txt of
       None \<Rightarrow> PStr txt
     | Some (Fin x) \<Rightarrow> if x = of_int \<lfloor>x\<rfloor> then PInt \<lfloor>x\<rfloor> else PFloat (Fin x)
     | Some f \<Rightarrow> PFloat f)"

definition parse :: "(string \<Rightarrow> pyfloat option) \<Rightarrow> (pyval \<Rightarrow> string) \<Rightarrow> string \<Rightarrow> pyval \<Rightarrow> pyval res" where
  "parse to_float pstr key v =
    res_bind (spec_of key) (\<lambda>(nullable, kd). Inr
      (if v = PStr NULL then PNone
       else case kd of
         BoolK \<Rightarrow> if v = PStr ''true'' then PBool True else if v = PStr ''false'' then PBool False else v
       | Choice _ \<Rightarrow> v
       | _ \<Rightarrow> parse_number to_float nullable (strip (pstr v))))"

text \<open>\<open>make_editor\<close>: a selection with its texts and values, or an input with its type and hint.\<close>

datatype editor = SelectEd "(string \<times> string) list" | InputEd string string

definition make_editor :: "string \<Rightarrow> editor res" where
  "make_editor key =
    res_bind (spec_of key) (\<lambda>(nullable, kd). Inr
      (let hint = (if nullable then ''empty = leave'' else []); leave = (DASH @ '' leave alone'', NULL) in
       case kd of
         Choice arg \<Rightarrow> SelectEd (map (\<lambda>c. (c, c)) arg @ (if nullable then [leave] else []))
       | BoolK \<Rightarrow> SelectEd [(''true'', ''true''), (''false'', ''false''), leave]
       | IntR _ _ \<Rightarrow> InputEd (if nullable then ''text'' else ''integer'') hint
       | Num _ _ \<Rightarrow> InputEd (if nullable then ''text'' else ''number'') hint))"

definition is_select :: "string \<Rightarrow> bool" where
  "is_select key = (case make_editor key of Inr (SelectEd _) \<Rightarrow> True | _ \<Rightarrow> False)"

section \<open>The screen\<close>

record settings =
  sv_cfg :: "pyval dict"
  sv_defaults :: "pyval dict"
  sv_digest :: pyval
  sv_path :: pyval
  sv_note :: "rich option"
  sv_change :: pyval
  sv_loading :: bool
  sv_keep :: "string list"
  sv_status :: "pyval dict"
  sv_editors :: "string \<Rightarrow> pyval"
  sv_infos :: "string \<Rightarrow> rich"
  sv_results :: "string \<Rightarrow> rich"

definition settings_init :: settings where
  "settings_init = \<lparr>sv_cfg = [], sv_defaults = flatten DEFAULTS [], sv_digest = PNone, sv_path = PStr [], sv_note = None, sv_change = PNone,
     sv_loading = False, sv_keep = [], sv_status = [], sv_editors = (\<lambda>_. PStr []), sv_infos = (\<lambda>_. []), sv_results = (\<lambda>_. [])\<rparr>"

datatype sv_req = Fetch | SetCfg "pyval dict" | SetGpu string | ResetCfg | AskOff | AskReset

definition reload :: "settings \<Rightarrow> settings \<times> sv_req list" where
  "reload s = (if sv_loading s then (s, []) else (s\<lparr>sv_loading := True\<rparr>, [Fetch]))"

definition acpw_shown :: "settings \<Rightarrow> pyval res" where
  "acpw_shown s = fld (sub_or (sv_status s) ''derived'') ''acpw_median_10s''"

definition CHANGE_TYPES :: "string list" where
  "CHANGE_TYPES = [''config_change'', ''gpu_mode'', ''config_reload'']"

definition change_times :: "pyval list \<Rightarrow> pyval list res" where
  "change_times evs =
    res_bind (each (\<lambda>e. res_bind (fld e ''type'') (\<lambda>t. if t \<in> PStr ` set CHANGE_TYPES then res_bind (at_val e ''ts'') (\<lambda>x. Inr [x]) else Inr [])) evs)
      (\<lambda>l. Inr (concat l))"

definition row_info :: "(pyval \<Rightarrow> string) \<Rightarrow> pyval \<Rightarrow> settings \<Rightarrow> string \<Rightarrow> rich" where
  "row_info pstr acpw s key =
    [(''now '' @ ljust 14 (utake 14 (value_text pstr key (py_get (sv_cfg s) key) acpw)), ''bold''),
     ('' def '' @ ljust 10 (utake 10 (value_text pstr key (py_get (sv_defaults s) key) PNone)), DIM),
     ('' '' @ (case bounds_text key of Inr t \<Rightarrow> t | Inl _ \<Rightarrow> []), DIM)]"

text \<open>\<open>loaded\<close>: an editor follows the configuration unless its key was rejected or, for an input, it has the focus.\<close>

definition show_rows :: "(pyval \<Rightarrow> string) \<Rightarrow> string option \<Rightarrow> pyval \<Rightarrow> settings \<Rightarrow> settings" where
  "show_rows pstr focus acpw s =
    s\<lparr>sv_infos := (\<lambda>k. if dhas SPEC k then row_info pstr acpw s k else sv_infos s k),
      sv_editors := (\<lambda>k. if dhas SPEC k \<and> k \<notin> set (sv_keep s) \<and> (is_select k \<or> focus \<noteq> Some k)
        then (case editor_value pstr k (py_get (sv_cfg s) k) of Inr v \<Rightarrow> v | Inl _ \<Rightarrow> sv_editors s k) else sv_editors s k)\<rparr>"

definition loaded :: "(pyval \<Rightarrow> string) \<Rightarrow> string option \<Rightarrow> (pyval dict \<times> pyval list) + string \<Rightarrow> settings \<Rightarrow> unit res \<times> settings" where
  "loaded pstr focus r s =
    (let s = s\<lparr>sv_loading := False\<rparr> in
     case r of
       Inr err \<Rightarrow> (Inr (), s\<lparr>sv_note := Some [(''cannot read config: '' @ err, RED)]\<rparr>)
     | Inl (cfg, evs) \<Rightarrow>
         (case res_bind (at_key cfg ''config'') items_of of
            Inl e \<Rightarrow> (Inl e, s)
          | Inr c \<Rightarrow>
              let s = s\<lparr>sv_cfg := flatten c [], sv_digest := py_get cfg ''digest'', sv_path := (case dget cfg ''path'' of Some v \<Rightarrow> v | None \<Rightarrow> PStr [])\<rparr> in
              (case items_of (if truthy (py_get cfg ''defaults'') then py_get cfg ''defaults'' else PDict DEFAULTS) of
                 Inl e \<Rightarrow> (Inl e, s)
               | Inr d \<Rightarrow>
                   let s = s\<lparr>sv_defaults := flatten d []\<rparr> in
                   (case change_times evs of
                      Inl e \<Rightarrow> (Inl e, s)
                    | Inr ts \<Rightarrow>
                        let s = s\<lparr>sv_change := (if ts \<noteq> [] then last ts else sv_change s)\<rparr> in
                        (case acpw_shown s of Inl e \<Rightarrow> (Inl e, s) | Inr acpw \<Rightarrow> (Inr (), show_rows pstr focus acpw s))))))"

text \<open>\<open>show\<close>: a digest other than the one shown makes the screen read the configuration again.\<close>

definition sv_show :: "pyval dict \<Rightarrow> settings \<Rightarrow> settings \<times> sv_req list" where
  "sv_show st s =
    (let s = s\<lparr>sv_status := st\<rparr>; d = py_get st ''config_digest'' in
     if truthy (sv_digest s) \<and> d \<noteq> PNone \<and> d \<noteq> sv_digest s \<and> \<not> sv_loading s then reload s else (s, []))"

text \<open>\<open>pending\<close>: what an input holds if it is a number, the configured value otherwise.\<close>

definition pending_value :: "(string \<Rightarrow> pyfloat option) \<Rightarrow> (pyval \<Rightarrow> string) \<Rightarrow> settings \<Rightarrow> string \<Rightarrow> pyval" where
  "pending_value to_float pstr s key =
    (if is_select key then py_get (sv_cfg s) key
     else case parse to_float pstr key (sv_editors s key) of
       Inr v \<Rightarrow> if isnum v then v else py_get (sv_cfg s) key
     | Inl _ \<Rightarrow> py_get (sv_cfg s) key)"

section \<open>The two lines above the rows\<close>

definition render_badge :: "(pyval \<Rightarrow> string) \<Rightarrow> (rat \<Rightarrow> string) \<Rightarrow> string \<Rightarrow> settings \<Rightarrow> rich res" where
  "render_badge pstr lt be_kind s =
    res_bind (if truthy (sv_digest s) then (case sv_digest s of PStr d \<Rightarrow> Inr d | _ \<Rightarrow> Inl (TypeError ''Only str or Text can be appended to Text'')) else Inr DASH)
      (\<lambda>d. Inr (styled ''config '' DIM @ [(d, ''bold''), (''  '', [])]
        @ (case sv_note s of Some t \<Rightarrow> t | None \<Rightarrow> if be_kind = ''replay'' then [(''not persisted (replay)'', AMBER)] else [(''persisted'', GREEN)])
        @ [(''  last change '' @ hms lt (sv_change s) @ ''  '', DIM), (''Enter applies'' @ MIDDOT @ ''d defaults'' @ MIDDOT @ ''Esc leaves a field'', DIM), (''  '' @ pstr (sv_path s), DIM)]))"

definition BANDS :: "string list" where "BANDS = [''recover'', ''shed'', ''emergency'']"

text \<open>\<open>render_preview\<close>; \<open>acpw\<close> and what \<open>pending\<close> gives are its inputs.\<close>

definition preview_ceiling :: "pyval \<Rightarrow> pyval \<Rightarrow> pyval dict \<Rightarrow> rich res" where
  "preview_ceiling acpw c th =
    (case num_of c of
       None \<Rightarrow> Inr []
     | Some x \<Rightarrow>
         let p = predicted_input_w x; pv = PFloat (Fin p)
         in res_bind (band_style pv th) (\<lambda>st. Inr
              [(''ceiling '' @ compact c @ APPROX @ watts pv @ '' input'', []),
               (case num_of acpw of
                  Some a \<Rightarrow> if a \<noteq> 0 then ('' ('' @ fmt_fixed 0 (fmul (fdiv p a) 100) @ '' % of ACPW '' @ watts acpw @ '')'') else '' (ACPW '' @ DASH @ '')''
                | None \<Rightarrow> '' (ACPW '' @ DASH @ '')'', st)]))"

definition preview :: "pyval \<Rightarrow> (string \<Rightarrow> pyval) \<Rightarrow> rich res" where
  "preview acpw pend =
    (let c = pend ''governor.ceiling_w''; st = pend ''governor.static_cap_w''; rs = map (\<lambda>n. (n, pend (''governor.'' @ n @ ''_ratio''))) BANDS;
         known = (isnum acpw \<and> list_all (\<lambda>x. isnum (snd x)) rs); a = (case num_of acpw of Some x \<Rightarrow> x | None \<Rightarrow> 0);
         rat_of = (\<lambda>v. case num_of v of Some x \<Rightarrow> x | None \<Rightarrow> 0);
         th = (if known then map (\<lambda>(n, r). (n @ ''_w'', PFloat (Fin (fmul a (rat_of r))))) rs else [])
     in res_bind (preview_ceiling acpw c th) (\<lambda>cl. Inr
          (styled ''preview  '' ''bold'' @ cl
           @ (case num_of st of Some x \<Rightarrow> [(''   static '' @ compact st @ APPROX @ watts (PFloat (Fin (predicted_input_w x))), DIM)] | None \<Rightarrow> [])
           @ [([CHR 0x0A] @ ''bands    '', ''bold'')]
           @ map (\<lambda>(n, r). (n @ (if known then '' '' @ fmt_g (fl (rat_of r)) @ ARROW @ watts (PFloat (Fin (fmul a (rat_of r)))) else '' '' @ DASH) @ ''   '', DIM)) rs
           @ [(''of ACPW '' @ watts acpw @ ''   model: input'' @ APPROX @ fmt_g (fst INPUT_MODEL) @ '' W + '' @ fmt_g (snd INPUT_MODEL) @ '' '' @ TIMES @ ''PL1'', DIM)])))"

section \<open>Editing\<close>

definition set_result :: "string \<Rightarrow> rich \<Rightarrow> settings \<Rightarrow> settings" where
  "set_result k t s = s\<lparr>sv_results := (sv_results s)(k := t)\<rparr>"

definition apply_cfg :: "pyval dict \<Rightarrow> settings \<Rightarrow> settings \<times> sv_req list" where
  "apply_cfg upd s =
    (s\<lparr>sv_results := (\<lambda>k. if dhas upd k \<and> dhas SPEC k then [(''applying'' @ DOTS, AMBER)] else sv_results s k)\<rparr>, [SetCfg upd])"

definition gpu_apply :: "string \<Rightarrow> settings \<Rightarrow> settings \<times> sv_req list" where
  "gpu_apply mode s = (set_result ''gpu.mode'' [(''applying '' @ mode @ DOTS, AMBER)] s, [SetGpu mode])"

definition gpu_mode :: "string \<Rightarrow> settings \<Rightarrow> settings \<times> sv_req list" where
  "gpu_mode mode s = (if mode \<noteq> ''off'' then gpu_apply mode s else (s, [AskOff]))"

definition off_answer :: "bool option \<Rightarrow> settings \<Rightarrow> settings \<times> sv_req list" where
  "off_answer ans s =
    (if ans = Some True then gpu_apply ''off'' s
     else let s = set_result ''gpu.mode'' [(''off cancelled'', DIM)] s; m = py_get (sv_cfg s) ''gpu.mode''
          in (s\<lparr>sv_editors := (sv_editors s)(''gpu.mode'' := (if truthy m then m else PStr ''auto''))\<rparr>, []))"

definition on_input_submitted :: "(string \<Rightarrow> pyfloat option) \<Rightarrow> (pyval \<Rightarrow> string) \<Rightarrow> string \<Rightarrow> settings \<Rightarrow> unit res \<times> settings \<times> sv_req list" where
  "on_input_submitted to_float pstr key s =
    (case parse to_float pstr key (sv_editors s key) of Inl e \<Rightarrow> (Inl e, s, []) | Inr v \<Rightarrow> (Inr (), apply_cfg [(key, v)] s))"

text \<open>Equal with equal types: a \<open>NaN\<close> equals nothing.\<close>

definition unchanged :: "pyval \<Rightarrow> pyval \<Rightarrow> bool" where
  "unchanged v w = (v = w \<and> v \<noteq> PFloat NaN)"

definition on_select_changed :: "(string \<Rightarrow> pyfloat option) \<Rightarrow> (pyval \<Rightarrow> string) \<Rightarrow> bool \<Rightarrow> string \<Rightarrow> settings \<Rightarrow> unit res \<times> settings \<times> sv_req list" where
  "on_select_changed to_float pstr focused key s =
    (if sv_cfg s = [] \<or> \<not> focused then (Inr (), s, [])
     else case parse to_float pstr key (sv_editors s key) of
       Inl e \<Rightarrow> (Inl e, s, [])
     | Inr v \<Rightarrow>
         if unchanged v (py_get (sv_cfg s) key) then (Inr (), s, [])
         else if key = ''gpu.mode'' then (Inr (), gpu_mode (pstr v) s)
         else (Inr (), apply_cfg [(key, v)] s))"

text \<open>\<open>applied\<close>: a rejected key keeps the user's text; the configuration is read again.\<close>

definition applied_rows :: "(pyval \<Rightarrow> string) \<Rightarrow> pyval dict \<Rightarrow> pyval dict \<Rightarrow> pyval dict \<Rightarrow> settings \<Rightarrow> settings" where
  "applied_rows pstr res acc rej s =
    (let saved = truthy (case dget res ''persisted'' of Some p \<Rightarrow> p | None \<Rightarrow> PBool True) in
     s\<lparr>sv_keep := filter (\<lambda>k. \<not> (dhas SPEC k \<and> dhas acc k)) (sv_keep s) @ filter (\<lambda>k. dhas rej k \<and> \<not> dhas acc k) (map fst SPEC),
       sv_results := (\<lambda>k.
         if dhas SPEC k \<and> dhas acc k then
           (if saved then [(TICK @ '' applied'' @ MIDDOT @ ''saved'', GREEN)] else [(TICK @ '' applied live'' @ MIDDOT @ ''NOT saved: '' @ pstr (py_get res ''error''), AMBER)])
         else if dhas SPEC k \<and> dhas rej k then [(''REJECTED: '' @ pstr (py_get rej k), ''bold '' @ RED)]
         else sv_results s k)\<rparr>)"

definition gpu_result_text :: "(pyval \<Rightarrow> string) \<Rightarrow> pyval \<Rightarrow> rich res" where
  "gpu_result_text pstr g =
    res_bind (items_of g) (\<lambda>d. Inr
      [((if truthy (py_get d ''ok'') then TICK else ''FAILED'') @ '' '' @ pstr (py_get d ''mode'') @ '': '' @ pstr (py_get d ''reason''),
        if truthy (py_get d ''ok'') then GREEN else RED)])"

definition applied_note :: "(pyval \<Rightarrow> string) \<Rightarrow> pyval dict \<Rightarrow> pyval dict \<Rightarrow> settings \<Rightarrow> settings" where
  "applied_note pstr res acc s =
    (if acc = [] then s
     else s\<lparr>sv_note := Some (if truthy (case dget res ''persisted'' of Some p \<Rightarrow> p | None \<Rightarrow> PBool True) then [(''persisted'', GREEN)]
              else [(''NOT persisted: '' @ pstr (py_get res ''error''), AMBER)])\<rparr>)"

definition applied :: "(pyval \<Rightarrow> string) \<Rightarrow> pyval dict \<Rightarrow> pyval dict + string \<Rightarrow> settings \<Rightarrow> unit res \<times> settings \<times> sv_req list" where
  "applied pstr upd r s =
    (let res = (case r of Inl res \<Rightarrow> res
         | Inr err \<Rightarrow> [(''accepted'', PDict []), (''rejected'', PDict (map (\<lambda>(k, _). (k, PStr (''daemon: '' @ err))) upd)), (''persisted'', PBool True)]);
         part = (\<lambda>k. items_of (case dget res k of Some v \<Rightarrow> v | None \<Rightarrow> PDict [])) in
     case res_bind (part ''accepted'') (\<lambda>a. res_bind (part ''rejected'') (\<lambda>b. Inr (a, b))) of
       Inl e \<Rightarrow> (Inl e, s, [])
     | Inr (acc, rej) \<Rightarrow>
         let s = applied_rows pstr res acc rej s; g = py_get res ''gpu'' in
         (case (if truthy g then gpu_result_text pstr g else Inr (sv_results s ''gpu.mode'')) of
            Inl e \<Rightarrow> (Inl e, s, [])
          | Inr t \<Rightarrow> (Inr (), reload (applied_note pstr res acc (set_result ''gpu.mode'' t s)))))"

definition gpu_changed :: "(pyval \<Rightarrow> string) \<Rightarrow> pyval + string \<Rightarrow> settings \<Rightarrow> unit res \<times> settings \<times> sv_req list" where
  "gpu_changed pstr r s =
    (case r of
       Inr err \<Rightarrow> (Inr (), reload (set_result ''gpu.mode'' [(''REJECTED: '' @ err, ''bold '' @ RED)] s))
     | Inl g \<Rightarrow> (case gpu_result_text pstr g of Inl e \<Rightarrow> (Inl e, s, []) | Inr t \<Rightarrow> (Inr (), reload (set_result ''gpu.mode'' t s))))"

definition reset_answer :: "bool option \<Rightarrow> settings \<Rightarrow> settings \<times> sv_req list" where
  "reset_answer ans s = (if ans = Some True then (s\<lparr>sv_keep := []\<rparr>, [ResetCfg]) else (s, []))"

end
