(* ===== verification/Settings_Props.thy ===== *)
theory Settings_Props
  imports Settings
begin

text \<open>
  Properties of the settings screen: what an editor shows reads back as the configured value, so that
  following the configuration makes no request, and the GPU is powered off only after the dialog.
\<close>

section \<open>The format of whole numbers\<close>

lemma str_nat_shift: "0 < n \<Longrightarrow> str_nat (n * 10 ^ k) = str_nat n @ replicate k (CHR ''0'')"
proof (induction k)
  case (Suc k)
  have "0 < n * 10 ^ k" using Suc(2) by simp
  moreover have "n * 10 ^ Suc k = 10 * (n * 10 ^ k)" by simp
  ultimately have "\<not> n * 10 ^ Suc k < 10" by linarith
  then have "str_nat (n * 10 ^ Suc k) = str_nat (n * 10 ^ Suc k div 10) @ [digit_char (nat (n * 10 ^ Suc k mod 10))]"
    by (subst str_nat.simps) simp
  moreover have "n * 10 ^ Suc k div 10 = n * 10 ^ k" "n * 10 ^ Suc k mod 10 = 0" by simp_all
  moreover have "digit_char 0 = CHR ''0''" by code_simp
  ultimately show ?case using Suc by (simp add: replicate_append_same [symmetric])
qed simp

lemma str_nat_len: "0 < n \<Longrightarrow> 10 ^ (length (str_nat n) - 1) \<le> n \<and> n < 10 ^ length (str_nat n)"
proof (induction n rule: str_nat.induct)
  case (1 n)
  show ?case
  proof (cases "n < 10")
    case True
    then have "length (str_nat n) = 1" by (subst str_nat.simps) simp
    then show ?thesis using True 1(2) by simp
  next
    case False
    then have l: "length (str_nat n) = Suc (length (str_nat (n div 10)))" by (subst str_nat.simps) simp
    have ih: "10 ^ (length (str_nat (n div 10)) - 1) \<le> n div 10" "n div 10 < 10 ^ length (str_nat (n div 10))" using 1 False by simp_all
    have p: "0 < length (str_nat (n div 10))" using str_nat_digits [of "n div 10"] False by simp
    have "10 * 10 ^ (length (str_nat (n div 10)) - 1) \<le> n" using ih(1) by linarith
    moreover have "(10 :: int) * 10 ^ (length (str_nat (n div 10)) - 1) = 10 ^ length (str_nat (n div 10))" using p by (cases "length (str_nat (n div 10))") simp_all
    moreover have "n < 10 * 10 ^ length (str_nat (n div 10))" using ih(2) by linarith
    ultimately show ?thesis by (simp add: l)
  qed
qed

lemma fmt_g_pos_int:
  assumes "0 < n" "n < 1000000"
  shows "fmt_g_pos (of_int n) = str_nat n"
proof -
  define d where "d = length (str_nat n) - 1"
  have len: "length (str_nat n) = Suc d" using str_nat_digits [of n] assms(1) by (simp add: d_def)
  have b: "10 ^ d \<le> n" "n < 10 ^ Suc d" using str_nat_len [OF assms(1)] unfolding len by simp_all
  have "(10 :: int) ^ d < 10 ^ 6" using b(1) assms(2) by simp
  then have "d < 6" by (rule power_less_imp_less_exp [rotated]) simp
  then have d5: "d \<le> 5" by simp
  have e: "exp10 (of_int n) = int d" using assms(1) by (simp add: exp10_def len)
  have p: "(10 :: rat) powi (int d - 5) = 1 / 10 ^ (5 - d)"
  proof -
    have "int d - 5 = - int (5 - d)" using d5 by simp
    then show ?thesis by (simp only: power_int_minus power_int_of_nat inverse_eq_divide)
  qed
  have m: "round_even (of_int n / 10 powi (int d - 5)) = n * 10 ^ (5 - d)"
  proof -
    have "of_int n / (10 :: rat) powi (int d - 5) = of_int (n * 10 ^ (5 - d))" unfolding p by simp
    then show ?thesis by (simp only: round_even_of_int)
  qed
  have "n * 10 ^ (5 - d) < 10 ^ Suc d * 10 ^ (5 - d)" using b(2) by simp
  also have "(10 :: int) ^ Suc d * 10 ^ (5 - d) = 10 ^ 6"
  proof -
    have "Suc d + (5 - d) = 6" using d5 by simp
    then show ?thesis by (metis power_add)
  qed
  finally have ne: "n * 10 ^ (5 - d) \<noteq> 1000000" by simp
  have z: "rstrip0 (replicate k (CHR ''0'')) = []" for k by (simp add: rstrip0_def dropWhile_eq_Nil_conv)
  show ?thesis
    unfolding fmt_g_pos_def Let_def e m if_not_P [OF ne] str_nat_shift [OF assms(1)]
    using d5 by (simp add: len z with_frac_def)
qed

lemma fmt_g_int: "\<bar>n\<bar> < 1000000 \<Longrightarrow> fmt_g (of_int n) = str_int n"
proof -
  assume n: "\<bar>n\<bar> < 1000000"
  have 0: "str_nat 0 = ''0''" by code_simp
  have "n < 0 \<Longrightarrow> fmt_g_pos (- of_int n) = str_nat (- n)" using fmt_g_pos_int [of "- n"] n by simp
  then show ?thesis using n fmt_g_pos_int [of n] by (auto simp: fmt_g_def str_int_def 0)
qed

lemma str_nat_no_underscore: "CHR ''_'' \<notin> set (str_nat n)"
proof (cases "0 \<le> n")
  case True
  then show ?thesis using str_nat_digits [of n] digit_not by (auto simp: list_all_iff)
next
  case False
  then have "str_nat n = [digit_char 0]" by (subst str_nat.simps) simp
  moreover have "digit_char 0 = CHR ''0''" by code_simp
  ultimately show ?thesis by simp
qed

lemma fmt_g_no_underscore: "CHR ''_'' \<notin> set (fmt_g x)"
proof -
  have t: "CHR ''_'' \<notin> set (take k (str_nat n))" "CHR ''_'' \<notin> set (drop k (str_nat n))" for k n
    using str_nat_no_underscore [of n] by (auto dest: in_set_takeD in_set_dropD)
  have z: "CHR ''_'' \<notin> set s \<Longrightarrow> CHR ''_'' \<notin> set (rstrip0 s)" for s by (auto simp: rstrip0_def dest: set_dropWhileD)
  have i: "CHR ''_'' \<notin> set (str_int n)" for n using str_nat_no_underscore by (simp add: str_int_def)
  have "CHR ''_'' \<notin> set (fmt_g_pos y)" for y
    unfolding fmt_g_pos_def Let_def using t z [OF t(2)] z [OF str_nat_no_underscore] i by (simp add: with_frac_def)
  then show ?thesis by (simp add: fmt_g_def)
qed

section \<open>What an editor shows reads back\<close>

text \<open>The table's entries as far as editors need them: no choice is the null text, bounds have few digits.\<close>

definition spec_edit :: "kind \<Rightarrow> bool" where
  "spec_edit kd = (case kd of Choice arg \<Rightarrow> NULL \<notin> set arg | Num lo hi \<Rightarrow> 0 \<le> lo \<and> hi \<le> 1000 | IntR lo hi \<Rightarrow> 0 < lo \<and> hi < 10000 | BoolK \<Rightarrow> True)"

lemma SPEC_edit: "dget SPEC k = Some (nl, kd) \<Longrightarrow> spec_edit kd"
proof -
  have "list_all (\<lambda>(k, nl, kd). spec_edit kd) SPEC" by code_simp
  moreover assume "dget SPEC k = Some (nl, kd)"
  ultimately show ?thesis by (auto simp: list_all_iff dest: map_of_SomeD)
qed

lemma in_range_small:
  assumes "in_range lo hi (Fin x)" "0 \<le> lo" "hi \<le> 10000"
  shows "- 1 \<le> x \<and> x \<le> 10001"
proof -
  have "- 1 \<le> fsub lo EPS" "fadd hi EPS \<le> 10001" using assms(2,3) EPS_bounds by (auto intro!: fl_ge fl_le is_double_minusI)
  then show ?thesis using assms(1) by (simp add: in_range_def)
qed

lemma spec_of_Some: "dget SPEC key = Some sp \<Longrightarrow> spec_of key = Inr sp"
  by (simp add: spec_of_def)

text \<open>Whole numbers in range.\<close>

lemma parse_number_int:
  assumes "\<forall>n. \<bar>n\<bar> < 1000000 \<longrightarrow> to_float (str_int n) = Some (Fin (of_int n))" "- 1 \<le> x" "x \<le> 10001" "x = of_int n"
  shows "parse_number to_float nl (strip (fmt_g (fl x))) = PInt n"
proof -
  have n: "\<bar>n\<bar> < 1000000" using assms(2-4) by simp
  then have "fl x = x" unfolding assms(4) by (intro fl_of_int) simp
  then have g: "fmt_g (fl x) = str_int n" using fmt_g_int [OF n] assms(4) by simp
  have "str_nat \<bar>n\<bar> \<noteq> []" using str_nat_digits [of "\<bar>n\<bar>"] by simp
  then have "str_int n \<noteq> []" by (simp add: str_int_def abs_if split: if_splits)
  then show ?thesis using assms(1) n by (simp add: parse_number_def g strip_str_int)
qed

lemma editor_reads_back:
  assumes sp: "dget SPEC key = Some (nl, kd)" and ok: "val_ok key v"
    and ints: "\<forall>n. \<bar>n\<bar> < 1000000 \<longrightarrow> to_float (str_int n) = Some (Fin (of_int n))" and none: "to_float [] = None" and str: "\<forall>t. pstr (PStr t) = t"
    and exact: "\<forall>x. num_of v = Some x \<and> x \<noteq> of_int \<lfloor>x\<rfloor> \<longrightarrow> to_float (strip (fmt_g (fl x))) = Some (Fin x)"
  shows "\<exists>e w. editor_value pstr key v = Inr e \<and> parse to_float pstr key e = Inr w \<and> val_ok key w \<and> num_of w = num_of v \<and> (is_select key \<or> num_of v = None \<longrightarrow> w = v)"
proof -
  note s = spec_of_Some [OF sp] SPEC_edit [OF sp] SPEC_not_special [OF sp]
  have cases: "(nl \<and> v = PNone) \<or> check_kind kd v = Inr (v, None)" using val_ok_spec [OF ok sp] s(3) by blast
  have null: "NULL \<noteq> []" "NULL \<noteq> ''true''" "NULL \<noteq> ''false''" by (simp_all add: NULL_def)
  have num: ?thesis if k: "kd = Num lo hi \<or> kd = IntR lo' hi'" for lo hi lo' hi'
  proof -
    have sel: "\<not> is_select key" using k by (auto simp: is_select_def make_editor_def s(1) Let_def)
    have pr: "parse to_float pstr key (PStr t) = Inr (parse_number to_float nl (strip t))" if "t \<noteq> NULL" for t
      using k that by (auto simp: parse_def s(1) str)
    show ?thesis
    proof (cases "v = PNone")
      case True
      then have "nl" using cases k by (auto simp: check_kind_def)
      moreover have "editor_value pstr key v = Inr (PStr [])" using k True by (auto simp: editor_value_def s(1))
      moreover have "strip [] = []" by (simp add: strip_def)
      ultimately show ?thesis using pr [of "[]"] null(1) ok True by (auto simp: parse_number_def)
    next
      case False
      then have c: "check_kind kd v = Inr (v, None)" using cases by blast
      obtain x where x: "num_of v = Some x" "- 1 \<le> x" "x \<le> 10001"
      proof (cases "kd = Num lo hi")
        case True
        then obtain x where "num_of v = Some x" "in_range lo hi (Fin x)" using check_kind_num c by blast
        then show thesis using that in_range_small [of lo hi x] s(2) True by (auto simp: spec_edit_def)
      next
        case False
        then have kd: "kd = IntR lo' hi'" using k by blast
        then obtain n where "v = PInt n" "in_range (of_int lo') (of_int hi') (Fin (of_int n))" using check_kind_int c by blast
        then show thesis using that in_range_small [of "of_int lo'" "of_int hi'" "of_int n"] s(2) kd by (auto simp: spec_edit_def)
      qed
      have ed: "editor_value pstr key v = Inr (PStr (fmt_g (fl x)))" using k x(1) False by (auto simp: editor_value_def s(1))
      have nn: "fmt_g (fl x) \<noteq> NULL" using fmt_g_no_underscore [of "fl x"] by (auto simp: NULL_def)
      show ?thesis
      proof (cases "x = of_int \<lfloor>x\<rfloor>")
        case True
        then have w: "parse to_float pstr key (PStr (fmt_g (fl x))) = Inr (PInt \<lfloor>x\<rfloor>)" using pr [OF nn] parse_number_int [OF ints x(2,3)] by simp
        have nw: "num_of (PInt \<lfloor>x\<rfloor>) = num_of v" using x(1) True by simp
        have "val_ok key (PInt \<lfloor>x\<rfloor>)"
        proof (cases v rule: num_of.cases)
          case (1 n)
          then show ?thesis using ok x(1) by auto
        next
          case (2 y)
          then have "kd = Num lo hi" using c k by (auto simp: check_kind_def Let_def split: if_splits)
          then show ?thesis using c 2 x(1) True s(3) sp by (auto simp: check_kind_def val_ok_def check_one_def split: if_splits)
        qed (use x(1) in simp_all)
        then show ?thesis using ed w nw x(1) sel by simp
      next
        case False
        then have t: "to_float (strip (fmt_g (fl x))) = Some (Fin x)" using exact x(1) by blast
        then have "strip (fmt_g (fl x)) \<noteq> []" using none by auto
        then have "parse to_float pstr key (PStr (fmt_g (fl x))) = Inr (PFloat (Fin x))" using pr [OF nn] t False by (simp add: parse_number_def)
        moreover have "v = PFloat (Fin x)" using x(1) False by (cases v rule: num_of.cases) auto
        ultimately show ?thesis using ed ok by auto
      qed
    qed
  qed
  show ?thesis
  proof (cases kd)
    case (Choice arg)
    then have "v = PNone \<or> (\<exists>t. v = PStr t \<and> t \<noteq> NULL)" using cases s(2) by (cases v) (auto simp: check_kind_def spec_edit_def split: if_splits)
    then show ?thesis using Choice ok by (auto simp: editor_value_def parse_def s(1))
  next
    case BoolK
    then have "v = PNone \<or> (\<exists>b. v = PBool b)" using cases by (cases v) (auto simp: check_kind_def)
    then consider "v = PNone" | "v = PBool True" | "v = PBool False" by (metis (full_types))
    then show ?thesis by cases (use BoolK ok null null [symmetric] in \<open>simp_all add: editor_value_def parse_def s(1)\<close>)
  qed (use num in auto)
qed

text \<open>The kinds with a selection hold no numbers.\<close>

lemma select_value: "dget SPEC key = Some (nl, kd) \<Longrightarrow> val_ok key v \<Longrightarrow> is_select key \<Longrightarrow> num_of v = None \<and> v \<noteq> PFloat NaN"
proof -
  assume sp: "dget SPEC key = Some (nl, kd)" and ok: "val_ok key v" and sel: "is_select key"
  have "(nl \<and> v = PNone) \<or> check_kind kd v = Inr (v, None)" using val_ok_spec [OF ok sp] SPEC_not_special [OF sp] by blast
  moreover have "(\<exists>arg. kd = Choice arg) \<or> kd = BoolK" using sel by (cases kd) (auto simp: is_select_def make_editor_def spec_of_Some [OF sp] Let_def)
  ultimately show ?thesis by (cases v) (auto simp: check_kind_def)
qed



text \<open>A value with more than six digits is shown rounded, and Enter on the untouched field would set the rounded one.\<close>

lemma editor_rounds: "editor_value pstr ''governor.shed_ratio'' (PFloat (Fin (fl (8812345 / 10000000)))) = Inr (PStr ''0.881235'')"
proof -
  have "fmt_g (fl (fl (8812345 / 10000000))) = ''0.881235''" by code_simp
  moreover have "spec_of ''governor.shed_ratio'' = Inr (False, Num (fl (70/100)) (fl (95/100)))" by (simp add: spec_of_def SPEC_def)
  ultimately show ?thesis by (simp add: editor_value_def)
qed

section \<open>The gate of the GPU\<close>

text \<open>
  What may happen to the screen. An input is submitted and a selection changes only for keys with such an
  editor; the dialog that \<open>AskOff\<close> opens answers with a typed text or is cancelled.
\<close>

datatype sv_event = Activated | Shown "pyval dict" | Loaded "string option" "(pyval dict \<times> pyval list) + string" | Edited string pyval | Submitted string
  | Selected bool string | Answered "pyval dict" "pyval dict + string" | ModeDone "pyval + string" | OffTyped string | OffCancelled | ResetAnswered "bool option"

definition sv_step :: "(string \<Rightarrow> pyfloat option) \<Rightarrow> (pyval \<Rightarrow> string) \<Rightarrow> sv_event \<Rightarrow> settings \<Rightarrow> settings \<times> sv_req list" where
  "sv_step to_float pstr ev s =
    (case ev of
       Activated \<Rightarrow> reload s
     | Shown st \<Rightarrow> sv_show st s
     | Loaded focus r \<Rightarrow> (snd (loaded pstr focus r s), [])
     | Edited k v \<Rightarrow> (s\<lparr>sv_editors := (sv_editors s)(k := v)\<rparr>, [])
     | Submitted k \<Rightarrow> if is_select k then (s, []) else snd (on_input_submitted to_float pstr k s)
     | Selected focused k \<Rightarrow> if is_select k then snd (on_select_changed to_float pstr focused k s) else (s, [])
     | Answered upd r \<Rightarrow> snd (applied pstr upd r s)
     | ModeDone r \<Rightarrow> snd (gpu_changed pstr r s)
     | OffTyped t \<Rightarrow> (case off_confirm t of Some b \<Rightarrow> off_answer (Some b) s | None \<Rightarrow> (s, []))
     | OffCancelled \<Rightarrow> off_answer None s
     | ResetAnswered a \<Rightarrow> reset_answer a s)"

lemma reload_reqs: "snd (reload s) \<in> {[], [Fetch]}"
  by (simp add: reload_def)

lemma gpu_mode_select: "is_select ''gpu.mode''"
  by (simp add: is_select_def make_editor_def spec_of_def SPEC_def Let_def)

lemma sv_gate:
  assumes "SetGpu ''off'' \<in> set (snd (sv_step to_float pstr ev s))"
  shows "\<exists>t. ev = OffTyped t \<and> strip t = ''OFF''"
proof (cases ev)
  case (OffTyped t)
  then show ?thesis using assms by (auto simp: sv_step_def off_confirm_def split: if_splits)
next
  case (Selected f k)
  then show ?thesis using assms
    by (auto simp: sv_step_def on_select_changed_def gpu_mode_def gpu_apply_def apply_cfg_def split: if_splits sum.splits)
next
  case (Submitted k)
  then show ?thesis using assms by (auto simp: sv_step_def on_input_submitted_def apply_cfg_def split: if_splits sum.splits)
next
  case (Answered u r)
  then show ?thesis using assms reload_reqs by (auto simp: sv_step_def applied_def Let_def split: sum.splits prod.splits) (metis empty_iff empty_set insert_iff list.set(2) sv_req.distinct(3))+
next
  case (ModeDone r)
  then show ?thesis using assms reload_reqs by (auto simp: sv_step_def gpu_changed_def split: sum.splits) (metis empty_iff empty_set insert_iff list.set(2) sv_req.distinct(3))+
next
  case (Shown st)
  then show ?thesis using assms by (auto simp: sv_step_def sv_show_def reload_def Let_def split: if_splits)
qed (use assms in \<open>auto simp: sv_step_def reload_def off_answer_def reset_answer_def Let_def split: if_splits\<close>)

end
