(* ===== verification/Screens_Props.thy ===== *)
theory Screens_Props
  imports Screens Settings_Props
begin

text \<open>
  Properties of the GPU, settings and log screens: the GPU is powered off only after the dialog, one change at a
  time, and the log shows every event of the daemon once.
\<close>

section \<open>The GPU screen with its dialog\<close>

text \<open>
  The screen, whether its dialog is open, and the requests on their way to the backend. While the dialog is open
  the screen gets no input of the user; the change events of \<open>press\<close> that may still arrive name the effective
  mode, for which \<open>radio_changed\<close> does nothing.
\<close>

record gpu_world =
  gw_view :: gpu_view
  gw_dialog :: bool
  gw_out :: "string list"

datatype gv_event = GShow int "pyval dict" | GRadio nat | GTyped string | GCancel | GDone "pyval dict + string"

definition gpu_world_init :: gpu_world where
  "gpu_world_init = \<lparr>gw_view = gpu_view_init, gw_dialog = False, gw_out = []\<rparr>"

definition sent :: "gv_req list \<Rightarrow> string list" where
  "sent rs = concat (map (\<lambda>r. case r of GpuSet m \<Rightarrow> [m] | AskGpuOff \<Rightarrow> []) rs)"

definition gw_put :: "gpu_view \<times> gv_req list \<Rightarrow> gpu_world \<Rightarrow> gpu_world \<times> gv_req list" where
  "gw_put p w = (w\<lparr>gw_view := fst p, gw_dialog := AskGpuOff \<in> set (snd p), gw_out := gw_out w @ sent (snd p)\<rparr>, snd p)"

definition gw_step :: "(pyval \<Rightarrow> string) \<Rightarrow> gv_event \<Rightarrow> gpu_world \<Rightarrow> gpu_world \<times> gv_req list" where
  "gw_step pstr ev w =
    (case ev of
       GShow width st \<Rightarrow> (w\<lparr>gw_view := snd (gv_show pstr width st (gw_view w))\<rparr>, [])
     | GRadio i \<Rightarrow> if gw_dialog w then (w, []) else gw_put (snd (radio_changed i (gw_view w))) w
     | GTyped t \<Rightarrow> (case (gw_dialog w, off_confirm t) of (True, Some b) \<Rightarrow> gw_put (snd (gv_off_answer (Some b) (gw_view w))) w | _ \<Rightarrow> (w, []))
     | GCancel \<Rightarrow> if gw_dialog w then gw_put (snd (gv_off_answer None (gw_view w))) w else (w, [])
     | GDone r \<Rightarrow> (case gw_out w of [] \<Rightarrow> (w, []) | _ # rest \<Rightarrow> (w\<lparr>gw_view := snd (gv_done pstr r (gw_view w)), gw_out := rest\<rparr>, [])))"

definition gw_run :: "(pyval \<Rightarrow> string) \<Rightarrow> gpu_world \<Rightarrow> gv_event list \<Rightarrow> gpu_world" where
  "gw_run pstr w evs = run_steps (\<lambda>w ev. fst (gw_step pstr ev w)) w evs"

text \<open>The request on its way is the pending one, the buttons are disabled meanwhile, and the dialog is closed.\<close>

definition gw_ok :: "gpu_world \<Rightarrow> bool" where
  "gw_ok w = (gw_out w = (case gv_pending (gw_view w) of None \<Rightarrow> [] | Some m \<Rightarrow> [m]) \<and> (gv_disabled (gw_view w) \<longleftrightarrow> gv_pending (gw_view w) \<noteq> None) \<and>
     (gw_dialog w \<longrightarrow> gv_pending (gw_view w) = None))"

lemma press_same [simp]: "gv_pending (press m s) = gv_pending s" "gv_disabled (press m s) = gv_disabled s"
  by (simp_all add: press_def split: pyval.split)

lemma render_steps_same [simp]:
  "gv_pending (snd (render_steps pstr r s)) = gv_pending s" "gv_disabled (snd (render_steps pstr r s)) = gv_disabled s"
  by (simp_all add: render_steps_def Let_def split: sum.split)

lemma gv_show_same [simp]:
  "gv_pending (snd (gv_show pstr w st s)) = gv_pending s" "gv_disabled (snd (gv_show pstr w st s)) = gv_disabled s"
  by (simp_all add: gv_show_def Let_def split: sum.split prod.split)

lemma render_steps_eq: "render_steps pstr r s = (a, s') \<Longrightarrow> gv_pending s' = gv_pending s \<and> gv_disabled s' = gv_disabled s"
  using render_steps_same [of pstr r s] by simp

lemma gv_done_frees: "gv_pending (snd (gv_done pstr r s)) = None \<and> \<not> gv_disabled (snd (gv_done pstr r s))"
proof (cases r)
  case (Inl d)
  then show ?thesis by (auto simp: gv_done_def Let_def split: sum.split prod.split dest!: render_steps_eq)
next
  case (Inr e)
  then show ?thesis by (simp add: gv_done_def Let_def split: sum.split)
qed

lemma radio_changed_cases:
  "snd (radio_changed i s) = (s, []) \<or> gv_pending s = None \<and> (snd (radio_changed i s) = (s, [AskGpuOff]) \<or> (\<exists>m \<in> set MODES - {''off''}. snd (radio_changed i s) = gv_apply m s))"
  using nth_mem [of i MODES] by (auto simp: radio_changed_def not_le split: sum.split)

lemma off_answer_cases:
  "snd (gv_off_answer (Some True) s) = gv_apply ''off'' s"
  "snd (snd (gv_off_answer None s)) = []" "gv_pending (fst (snd (gv_off_answer None s))) = gv_pending s" "gv_disabled (fst (snd (gv_off_answer None s))) = gv_disabled s"
  by (simp_all add: gv_off_answer_def Let_def split: sum.split)

lemma gw_put_apply: "gw_ok w \<Longrightarrow> gv_pending (gw_view w) = None \<Longrightarrow> gw_ok (fst (gw_put (gv_apply m (gw_view w)) w))"
  by (simp add: gw_ok_def gw_put_def gv_apply_def sent_def)

lemma gw_step_ok: "gw_ok w \<Longrightarrow> gw_ok (fst (gw_step pstr ev w))"
proof (cases ev)
  case (GShow width st)
  then show "gw_ok w \<Longrightarrow> ?thesis" by (simp add: gw_step_def gw_ok_def)
next
  case (GRadio i)
  moreover assume "gw_ok w"
  ultimately show ?thesis using radio_changed_cases [of i "gw_view w"] gw_put_apply [of w]
    by (auto simp: gw_step_def) (auto simp: gw_put_def gw_ok_def sent_def)
next
  case (GTyped t)
  moreover assume "gw_ok w"
  ultimately show ?thesis using gw_put_apply [of w "''off''"]
    by (auto simp: gw_step_def off_confirm_def off_answer_cases gw_ok_def split: bool.split)
next
  case GCancel
  then show "gw_ok w \<Longrightarrow> ?thesis" by (auto simp: gw_step_def gw_put_def gw_ok_def off_answer_cases sent_def)
next
  case (GDone r)
  then show "gw_ok w \<Longrightarrow> ?thesis" using gv_done_frees by (auto simp: gw_step_def gw_ok_def split: list.split option.splits)
qed

lemma gw_init_ok: "gw_ok gpu_world_init"
  by (simp add: gw_ok_def gpu_world_init_def gpu_view_init_def)

interpretation gw: step_machine "\<lambda>w ev. fst (gw_step pstr ev w)" gw_ok "\<lambda>_. True" for pstr
  by unfold_locales (rule gw_step_ok)

lemma gv_apply_req: "snd (gv_apply m s) = [GpuSet m]"
  by (simp add: gv_apply_def)

lemma gw_gate: "GpuSet ''off'' \<in> set (snd (gw_step pstr ev w)) \<Longrightarrow> gw_dialog w \<and> (\<exists>t. ev = GTyped t \<and> strip t = ''OFF'')"
proof (cases ev)
  case (GRadio i)
  assume "GpuSet ''off'' \<in> set (snd (gw_step pstr ev w))"
  then have "GpuSet ''off'' \<in> set (snd (snd (radio_changed i (gw_view w))))" using GRadio by (simp add: gw_step_def gw_put_def split: if_splits)
  then show ?thesis using radio_changed_cases [of i "gw_view w"] by (auto simp: gv_apply_req)
next
  case (GTyped t)
  then show "GpuSet ''off'' \<in> set (snd (gw_step pstr ev w)) \<Longrightarrow> ?thesis" by (simp add: gw_step_def off_confirm_def split: if_splits bool.splits)
qed (simp_all add: gw_step_def gw_put_def off_answer_cases split: if_splits list.splits)

text \<open>No other path: a settings change never carries the GPU mode.\<close>

lemma sv_cfg_no_mode:
  assumes "SetCfg upd \<in> set (snd (sv_step to_float pstr ev s))"
  shows "\<not> dhas upd ''gpu.mode''"
proof (cases ev)
  case (Selected f k)
  then show ?thesis using assms
    by (auto simp: sv_step_def on_select_changed_def gpu_mode_def gpu_apply_def apply_cfg_def dhas_def split: if_splits sum.splits)
next
  case (Submitted k)
  then show ?thesis using assms gpu_mode_select by (auto simp: sv_step_def on_input_submitted_def apply_cfg_def dhas_def split: if_splits sum.splits)
next
  case (Answered u r)
  then show ?thesis using assms reload_reqs by (auto simp: sv_step_def applied_def Let_def split: sum.splits prod.splits) (metis empty_iff empty_set insert_iff list.set(2) sv_req.distinct(1))+
next
  case (ModeDone r)
  then show ?thesis using assms reload_reqs by (auto simp: sv_step_def gpu_changed_def split: sum.splits) (metis empty_iff empty_set insert_iff list.set(2) sv_req.distinct(1))+
next
  case (Shown st)
  then show ?thesis using assms by (auto simp: sv_step_def sv_show_def reload_def Let_def split: if_splits)
next
  case (OffTyped t)
  then show ?thesis using assms by (auto simp: sv_step_def off_confirm_def off_answer_def gpu_apply_def split: if_splits)
qed (use assms in \<open>auto simp: sv_step_def reload_def off_answer_def reset_answer_def Let_def split: if_splits\<close>)

text \<open>
  C24: switching the GPU off takes the dialog. From its start on, whatever statuses, clicks, typed texts and results
  come, the GPU screen has at most one change on its way, its buttons are disabled exactly meanwhile and its
  dialog is closed then; it asks for off only when its dialog is open and the typed text strips to OFF. The
  settings screen asks for off only for such a text too, and its configuration requests never carry the mode.
\<close>

theorem gpu_off_needs_typing:
  "gw_ok (gw_run pstr gpu_world_init evs) \<and> length (gw_out (gw_run pstr gpu_world_init evs)) \<le> 1 \<and>
   (GpuSet ''off'' \<in> set (snd (gw_step pstr ev (gw_run pstr gpu_world_init evs))) \<longrightarrow>
      gw_dialog (gw_run pstr gpu_world_init evs) \<and> (\<exists>t. ev = GTyped t \<and> strip t = ''OFF'')) \<and>
   (SetGpu ''off'' \<in> set (snd (sv_step to_float pstr sev s)) \<longrightarrow> (\<exists>t. sev = OffTyped t \<and> strip t = ''OFF'')) \<and>
   (SetCfg upd \<in> set (snd (sv_step to_float pstr sev s)) \<longrightarrow> \<not> dhas upd ''gpu.mode'')"
proof -
  have ok: "gw_ok (gw_run pstr gpu_world_init evs)" unfolding gw_run_def by (rule gw.run_keeps [OF gw_init_ok]) (simp add: list_all_iff)
  then have "length (gw_out (gw_run pstr gpu_world_init evs)) \<le> 1" by (simp add: gw_ok_def split: option.splits)
  with ok show ?thesis using gw_gate sv_gate sv_cfg_no_mode by blast
qed

text \<open>The dialog can be passed: a click on off, then the text.\<close>

theorem gpu_off_needs_typing_witness:
  "GpuSet ''off'' \<in> set (snd (gw_step (\<lambda>_. []) (GTyped ''OFF '') (gw_run (\<lambda>_. []) gpu_world_init [GRadio 2]))) \<and> gw_dialog (gw_run (\<lambda>_. []) gpu_world_init [GRadio 2]) \<and>
   SetGpu ''off'' \<in> set (snd (sv_step (\<lambda>_. None) (\<lambda>_. []) (OffTyped '' OFF'') settings_init)) \<and>
   (\<exists>upd. SetCfg upd \<in> set (snd (sv_step (\<lambda>_. None) (\<lambda>_. []) (Submitted ''governor.ceiling_w'') settings_init)) \<and> \<not> dhas upd ''gpu.mode'')"
proof -
  have a: "GpuSet ''off'' \<in> set (snd (gw_step (\<lambda>_. []) (GTyped ''OFF '') (gw_run (\<lambda>_. []) gpu_world_init [GRadio 2])))"
    by (simp add: gw_step_def gw_run_def gw_put_def radio_changed_def effective_def current_def gpu_world_init_def gpu_view_init_def MODES_def sub_or_def fld_def
      py_get_def off_confirm_def strip_def is_space_def gv_off_answer_def gv_apply_def)
  have b: "SetGpu ''off'' \<in> set (snd (sv_step (\<lambda>_. None) (\<lambda>_. []) (OffTyped '' OFF'') settings_init))"
    by (simp add: sv_step_def off_confirm_def strip_def is_space_def off_answer_def gpu_apply_def)
  have c: "SetCfg [(''governor.ceiling_w'', PStr [])] \<in> set (snd (sv_step (\<lambda>_. None) (\<lambda>_. []) (Submitted ''governor.ceiling_w'') settings_init))"
    by (simp add: sv_step_def is_select_def make_editor_def spec_of_def SPEC_def on_input_submitted_def parse_def parse_number_def settings_init_def apply_cfg_def NULL_def strip_def)
  show ?thesis using a b c gpu_off_needs_typing [of "\<lambda>_. []" "[GRadio 2]" "GTyped ''OFF ''" "\<lambda>_. None" "Submitted ''governor.ceiling_w''" settings_init "[(''governor.ceiling_w'', PStr [])]"] by blast
qed

section \<open>The event log\<close>

interpretation lv: bounded_log lv_write lv_lines "\<lambda>t. t" LOG_LINES
  by unfold_locales (simp add: lv_write_def)

text \<open>Which events match depends on the two filters only, and writing lines does not touch them.\<close>

lemma matches_cong: "lv_type s = lv_type s' \<Longrightarrow> lv_needle s = lv_needle s' \<Longrightarrow> matches env s = matches env s'"
  by (intro ext) (simp add: matches_def)

lemma lv_write_same [simp]: "lv_type (lv_write s t) = lv_type s" "lv_needle (lv_write s t) = lv_needle s" "lv_events (lv_write s t) = lv_events s"
  by (simp_all add: lv_write_def)

lemma write_events_run: "write_events env evs s = run_steps lv_write s (map (le_line env) (filter (matches env s) evs))"
proof (induction evs arbitrary: s)
  case (Cons e evs)
  have "matches env (lv_write s t) = matches env s" for t by (rule matches_cong) simp_all
  then show ?case using Cons by (simp add: write_events_def)
qed (simp add: write_events_def)

lemma run_lv_same [simp]:
  "lv_type (run_steps lv_write s ts) = lv_type s" "lv_needle (run_steps lv_write s ts) = lv_needle s" "lv_events (run_steps lv_write s ts) = lv_events s"
  by (induction ts arbitrary: s) simp_all

lemma count_note_same [simp]: "lv_lines (count_note env s) = lv_lines s" "lv_type (count_note env s) = lv_type s" "lv_needle (count_note env s) = lv_needle s" "lv_events (count_note env s) = lv_events s"
  by (simp_all add: count_note_def)

lemma index_of_first: "x \<notin> set xs \<Longrightarrow> index_of x (xs @ x # ys) = Some (length xs)"
  by (induction xs) auto

lemma last_n_extend:
  assumes "es \<noteq> []" "length new < n"
  shows "\<exists>xs. suffix xs (butlast es) \<and> last_n n (es @ new) = xs @ last es # new"
proof -
  obtain ys y where es: "es = ys @ [y]" using assms(1) by (cases es rule: rev_cases) auto
  have "last_n n (es @ new) = drop (length es + length new - n) ys @ y # new" using assms(2) by (simp add: last_n_def es)
  then show ?thesis by (intro exI [of _ "drop (length es + length new - n) ys"]) (simp add: es suffix_drop)
qed


text \<open>A chosen type is one of the known ones, so that new types do not unset it.\<close>

definition lv_ok :: "log_view \<Rightarrow> bool" where
  "lv_ok s = ((case lv_type s of None \<Rightarrow> True | Some t \<Rightarrow> t \<in> set (lv_types s)) \<and> length (lv_lines s) \<le> LOG_LINES)"

lemma known_types_keep: "set old \<subseteq> set (known_types env evs old)"
  by (simp add: known_types_def)

text \<open>The state of \<open>got\<close> after it took over the events and types.\<close>

definition lv_took :: "lv_env \<Rightarrow> pyval dict list \<Rightarrow> log_view \<Rightarrow> log_view" where
  "lv_took env evs s = s\<lparr>lv_busy := False, lv_events := evs, lv_types := known_types env evs (lv_types s)\<rparr>"

lemma lv_took_same: "matches env (lv_took env evs s) = matches env s" "lv_lines (lv_took env evs s) = lv_lines s"
  by (rule matches_cong) (simp_all add: lv_took_def)

lemma show_types_took:
  assumes "lv_ok s"
  shows "show_types (known_types env evs (lv_types s)) (s\<lparr>lv_busy := False, lv_events := evs\<rparr>) = lv_took env evs s"
proof -
  have t: "t \<in> set (known_types env evs (lv_types s))" if "lv_type s = Some t" for t using assms that known_types_keep [of "lv_types s" env evs] by (auto simp: lv_ok_def)
  show ?thesis
  proof (cases "lv_type s")
    case None
    then show ?thesis by (cases s) (simp add: show_types_def lv_took_def)
  next
    case (Some a)
    then show ?thesis using t [OF Some] by (cases s) (simp add: show_types_def lv_took_def)
  qed
qed

lemma got_took:
  "lv_ok s \<Longrightarrow> got env (Inl evs) s =
    (case (if lv_events s = [] then None else index_of (le_key env (last (lv_events s))) (map (le_key env) evs)) of
       Some i \<Rightarrow> count_note env (write_events env (drop (i + 1) evs) (lv_took env evs s))
     | None \<Rightarrow> rerender env (lv_took env evs s))"
  using show_types_took [of s env evs] by (simp add: got_def Let_def cong: option.case_cong)

lemma write_lines:
  "lv_ok s \<Longrightarrow> lv_lines (write_events env evs (lv_took env evs' s)) = last_n LOG_LINES (lv_lines s @ map (le_line env) (filter (matches env s) evs))"
  using lv.run_view [of "lv_took env evs' s"] by (simp add: write_events_run lv_took_same lv_ok_def)

lemma rerender_lines: "lv_lines (rerender env s) = last_n LOG_LINES (map (le_line env) (filter (matches env s) (lv_events s)))"
proof -
  have "matches env (s\<lparr>lv_lines := []\<rparr>) = matches env s" by (rule matches_cong) simp_all
  then show ?thesis using lv.run_view [of "s\<lparr>lv_lines := []\<rparr>"] by (simp add: rerender_def write_events_run)
qed

lemma run_lv_types [simp]: "lv_types (run_steps lv_write s ts) = lv_types s"
  by (induction ts arbitrary: s) (simp_all add: lv_write_def)

lemma got_keeps:
  assumes "lv_ok s"
  shows "lv_ok (got env (Inl evs) s) \<and> lv_events (got env (Inl evs) s) = evs \<and> matches env (got env (Inl evs) s) = matches env s"
proof -
  let ?g = "got env (Inl evs) s"
  have same: "lv_type ?g = lv_type s" "lv_needle ?g = lv_needle s" "lv_types ?g = known_types env evs (lv_types s)" "lv_events ?g = evs"
    unfolding got_took [OF assms] by (auto simp: write_events_run rerender_def lv_took_def count_note_def split: option.split)
  have "length (lv_lines ?g) \<le> LOG_LINES"
    unfolding got_took [OF assms] by (auto simp: write_lines [OF assms] rerender_lines split: option.split)
  then have "lv_ok ?g" using assms known_types_keep [of "lv_types s" env evs] same by (auto simp: lv_ok_def split: option.splits)
  then show ?thesis using same matches_cong by blast
qed

text \<open>One poll: the daemon's events \<open>es\<close> have grown by \<open>new\<close>, fewer than the 500 asked for.\<close>

lemma got_appends:
  assumes "lv_ok s" "lv_events s = last_n 500 es" "es \<noteq> []" "length new < 500" "distinct (map (le_key env) (es @ new))"
  shows "lv_lines (got env (Inl (last_n 500 (es @ new))) s) = last_n LOG_LINES (lv_lines s @ map (le_line env) (filter (matches env s) new))"
proof -
  obtain xs where xs: "suffix xs (butlast es)" "last_n 500 (es @ new) = xs @ last es # new" using last_n_extend [OF assms(3,4)] by blast
  have "length es - 500 < length es" using assms(3) by (cases es) simp_all
  then have ne: "last_n 500 es \<noteq> []" "last (last_n 500 es) = last es" by (simp_all add: last_n_def last_drop)
  have "distinct (map (le_key env) (butlast es @ [last es]))" using assms(3,5) by simp
  then have "le_key env (last es) \<notin> le_key env ` set (butlast es)" by (simp only: map_append distinct_append) auto
  then have "le_key env (last es) \<notin> set (map (le_key env) xs)" using set_mono_suffix [OF xs(1)] by auto
  then have "index_of (le_key env (last es)) (map (le_key env) (xs @ last es # new)) = Some (length xs)"
    using index_of_first [of "le_key env (last es)" "map (le_key env) xs"] by simp
  then show ?thesis unfolding got_took [OF assms(1)] assms(2) xs(2) using ne by (simp add: write_lines [OF assms(1)])
qed

fun log_polls :: "lv_env \<Rightarrow> pyval dict list \<Rightarrow> pyval dict list list \<Rightarrow> log_view \<Rightarrow> log_view" where
  "log_polls env es [] s = s"
| "log_polls env es (new # news) s = log_polls env (es @ new) news (got env (Inl (last_n 500 (es @ new))) s)"

lemma last_n_twice: "last_n n (last_n n xs @ ys) = last_n n (xs @ ys)"
proof (induction ys rule: rev_induct)
  case (snoc y ys)
  have "last_n n (last_n n xs @ ys @ [y]) = last_n n (last_n n (last_n n xs @ ys) @ [y])" by (simp add: last_n_snoc)
  also have "\<dots> = last_n n (xs @ ys @ [y])" unfolding snoc by (simp add: last_n_snoc)
  finally show ?case .
qed (simp add: last_n_def)

lemma log_polls_append:
  assumes "lv_ok s" "lv_events s = last_n 500 es" "es \<noteq> []" "list_all (\<lambda>new. length new < 500) news" "distinct (map (le_key env) (es @ concat news))"
  shows "lv_lines (log_polls env es news s) = last_n LOG_LINES (lv_lines s @ map (le_line env) (filter (matches env s) (concat news)))"
  using assms
proof (induction news arbitrary: es s)
  case (Cons new news)
  let ?g = "got env (Inl (last_n 500 (es @ new))) s"
  have d: "distinct (map (le_key env) (es @ new))" using Cons.prems(5) by auto
  have g: "lv_lines ?g = last_n LOG_LINES (lv_lines s @ map (le_line env) (filter (matches env s) new))"
    using Cons.prems d by (intro got_appends) simp_all
  have "lv_lines (log_polls env (es @ new) news ?g) = last_n LOG_LINES (lv_lines ?g @ map (le_line env) (filter (matches env ?g) (concat news)))"
    using Cons.prems got_keeps [OF Cons.prems(1)] by (intro Cons.IH) simp_all
  then show ?case using got_keeps [OF Cons.prems(1)] g by (simp add: last_n_twice)
qed (simp add: lv_ok_def)

text \<open>
  The log shows every event once: while polls come before 500 new events have, the lines are those of the matching
  events since the first poll, in order, up to the 5000 newest; no event is repeated and none is missed.
\<close>

theorem log_shows_once:
  assumes "lv_ok s" "lv_events s = []" "es \<noteq> []" "list_all (\<lambda>new. length new < 500) news" "distinct (map (le_key env) (es @ concat news))"
  shows "lv_lines (log_polls env es news (got env (Inl (last_n 500 es)) s)) = last_n LOG_LINES (map (le_line env) (filter (matches env s) (last_n 500 es @ concat news)))"
proof -
  let ?g = "got env (Inl (last_n 500 es)) s"
  note k = got_keeps [OF assms(1), of env "last_n 500 es"]
  have "matches env (lv_took env (last_n 500 es) s) = matches env s" by (rule lv_took_same)
  then have "lv_lines ?g = last_n LOG_LINES (map (le_line env) (filter (matches env s) (last_n 500 es)))"
    using assms(2) by (simp add: got_took [OF assms(1)] rerender_lines) (simp add: lv_took_def)
  moreover have "lv_lines (log_polls env es news ?g) = last_n LOG_LINES (lv_lines ?g @ map (le_line env) (filter (matches env ?g) (concat news)))"
    using k assms by (intro log_polls_append) simp_all
  ultimately show ?thesis using k by (simp add: last_n_twice)
qed

text \<open>Equal events are told apart by nothing: when the newest one equals an earlier one, the lines between them repeat.\<close>

lemma log_repeats_equal:
  assumes "lv_ok s" "lv_events s = [e, e]" "matches env s e" "lv_lines s = [le_line env e, le_line env e]"
  shows "lv_lines (got env (Inl [e, e]) s) = [le_line env e, le_line env e, le_line env e]"
proof -
  have "lv_lines (got env (Inl [e, e]) s) = last_n LOG_LINES (lv_lines s @ map (le_line env) (filter (matches env s) [e]))"
    unfolding got_took [OF assms(1)] assms(2) by (simp add: write_lines [OF assms(1)])
  then show ?thesis using assms(3,4) by (simp add: LOG_LINES_def)
qed

end
