(* ===== verification/App.thy ===== *)
theory App
  imports Settings Screens
begin

text \<open>
  The flow of \<open>tui/app.py\<close>: which screen a status, a timer or a key reaches, and the dialogs of \<open>tui/widgets.py\<close>. The
  state is the application's data with the screens; a handler gives the new state and the requests it makes. The
  drawing library calls the handlers one at a time.
\<close>

datatype tab = Dash | SettingsTab | GpuTab | IncidentsTab | LogTab

text \<open>\<open>ui_drawn\<close>: what the dashboard was given last. \<open>ui_width\<close> is the width of the GPU screen's panel.\<close>

record ui =
  ui_app :: app
  ui_tab :: tab
  ui_closing :: bool
  ui_settings :: settings
  ui_gpu :: gpu_view
  ui_log :: log_view
  ui_inc :: inc_view
  ui_drawn :: "(pyval dict \<times> (string \<Rightarrow> pyval list) \<times> (string \<Rightarrow> pyval list)) option"
  ui_width :: int

datatype ui_req = LoadInitial | LoadHistory | Events nat | ListIncidents | SvReq sv_req | StopAll

section \<open>Drawing\<close>

definition update_active :: "(pyval \<Rightarrow> string) \<Rightarrow> ui \<Rightarrow> unit res \<times> ui \<times> ui_req list" where
  "update_active pstr u =
    (let a = ui_app u; st = ap_status a in
     if st = [] then (Inr (), u, [])
     else case ui_tab u of
       Dash \<Rightarrow> (Inr (), u\<lparr>ui_drawn := Some (st, \<lambda>k. map snd (ap_fast a k), ap_slow a)\<rparr>, [])
     | SettingsTab \<Rightarrow> (case sv_show st (ui_settings u) of (s, rs) \<Rightarrow> (Inr (), u\<lparr>ui_settings := s\<rparr>, map SvReq rs))
     | GpuTab \<Rightarrow> (case gv_show pstr (ui_width u) st (ui_gpu u) of (r, g) \<Rightarrow> (r, u\<lparr>ui_gpu := g\<rparr>, []))
     | IncidentsTab \<Rightarrow> (Inr (), u, [])
     | LogTab \<Rightarrow> (Inr (), u, []))"

text \<open>\<open>on_status\<close> with what follows the update of the data: while paused the screens keep what they show.\<close>

definition status_arrives :: "(pyval \<Rightarrow> string) \<Rightarrow> pyval \<Rightarrow> ui \<Rightarrow> unit res \<times> ui \<times> ui_req list" where
  "status_arrives pstr st u =
    (case on_status st (ui_app u) of
       (Inl e, a) \<Rightarrow> (Inl e, u\<lparr>ui_app := a\<rparr>, [])
     | (Inr _, a) \<Rightarrow>
         let u = u\<lparr>ui_app := a\<rparr> in
         (case st of
            PDict s \<Rightarrow> if s = [] \<or> ap_paused a then (Inr (), u, []) else update_active pstr u
          | _ \<Rightarrow> (Inr (), u, [])))"

text \<open>\<open>from_thread\<close>: on the thread of the subscription; the exception ends it.\<close>

definition from_thread :: "(pyval \<Rightarrow> string) \<Rightarrow> pyval \<Rightarrow> ui \<Rightarrow> unit res \<times> ui \<times> ui_req list" where
  "from_thread pstr st u = (if ui_closing u then (Inl (RuntimeError ''closing''), u, []) else status_arrives pstr st u)"

section \<open>Connection and timers\<close>

definition conn_changed :: "bool \<Rightarrow> ui \<Rightarrow> ui_req list" where
  "conn_changed up u = (if up then (if ap_smc_keys (ui_app u) = None then [LoadInitial] else [LoadHistory]) else [])"

definition conn_from_thread :: "bool \<Rightarrow> ui \<Rightarrow> ui_req list" where
  "conn_from_thread up u = (if ui_closing u then [] else conn_changed up u)"

definition on_mount :: "ui_req list" where "on_mount = [LoadInitial]"

definition on_unmount :: "ui \<Rightarrow> ui \<times> ui_req list" where
  "on_unmount u = (u\<lparr>ui_closing := True\<rparr>, [StopAll])"

definition initial_loaded :: "(pyval \<Rightarrow> string) \<Rightarrow> (pyval \<times> pyval dict list \<times> int \<times> pyval) option \<Rightarrow> ui \<Rightarrow> unit res \<times> ui \<times> ui_req list" where
  "initial_loaded pstr r u =
    (if ui_closing u then (Inr (), u, [])
     else case r of
       None \<Rightarrow> (Inr (), u, [])
     | Some (st, hist, nkeys, osn) \<Rightarrow>
         let u = u\<lparr>ui_app := set_history hist ((ui_app u)\<lparr>ap_smc_keys := Some nkeys, ap_os_name := osn\<rparr>)\<rparr> in
         if truthy st \<and> ap_status (ui_app u) = [] then status_arrives pstr st u else (Inr (), u, []))"

definition history_loaded :: "pyval dict list option \<Rightarrow> ui \<Rightarrow> ui" where
  "history_loaded r u = (if ui_closing u then u else case r of Some rows \<Rightarrow> u\<lparr>ui_app := set_history rows (ui_app u)\<rparr> | None \<Rightarrow> u)"

definition log_poll :: "ui \<Rightarrow> ui \<times> ui_req list" where
  "log_poll u = (case poll (ui_log u) of (l, ask) \<Rightarrow> (u\<lparr>ui_log := l\<rparr>, if ask then [Events 500] else []))"

definition poll_log :: "ui \<Rightarrow> ui \<times> ui_req list" where
  "poll_log u = (if ui_tab u = LogTab then log_poll u else (u, []))"

section \<open>Keys\<close>

text \<open>\<open>activate\<close> of a screen that has one, then it shows the status.\<close>

definition activate :: "ui \<Rightarrow> ui \<times> ui_req list" where
  "activate u =
    (case ui_tab u of
       SettingsTab \<Rightarrow> (case reload (ui_settings u) of (s, rs) \<Rightarrow> (u\<lparr>ui_settings := s\<rparr>, map SvReq rs))
     | IncidentsTab \<Rightarrow> (u, [ListIncidents])
     | LogTab \<Rightarrow> log_poll u
     | _ \<Rightarrow> (u, []))"

definition tab_activated :: "(pyval \<Rightarrow> string) \<Rightarrow> tab \<Rightarrow> ui \<Rightarrow> unit res \<times> ui \<times> ui_req list" where
  "tab_activated pstr t u =
    (case activate (u\<lparr>ui_tab := t\<rparr>) of (u, rs) \<Rightarrow> (case update_active pstr u of (r, u, rs') \<Rightarrow> (r, u, rs @ rs')))"

definition key_reset_peaks :: "(pyval \<Rightarrow> string) \<Rightarrow> ui \<Rightarrow> unit res \<times> ui \<times> ui_req list" where
  "key_reset_peaks pstr u = update_active pstr (u\<lparr>ui_app := action_reset_peaks (ui_app u)\<rparr>)"

definition key_pause :: "(pyval \<Rightarrow> string) \<Rightarrow> ui \<Rightarrow> unit res \<times> ui \<times> ui_req list" where
  "key_pause pstr u =
    (let u = u\<lparr>ui_app := action_pause (ui_app u)\<rparr> in if ap_paused (ui_app u) then (Inr (), u, []) else update_active pstr u)"

definition key_reset_defaults :: "ui \<Rightarrow> ui_req list" where
  "key_reset_defaults u = (if ui_tab u = SettingsTab then [SvReq AskReset] else [])"

section \<open>Dialogs\<close>

text \<open>What a dialog is given: a key of its own or a button by its name, or the text field's Enter.\<close>

datatype dialog_event = Key string | Button string | Enter

definition confirm_answer :: "dialog_event \<Rightarrow> bool option" where
  "confirm_answer ev =
    (case ev of
       Key k \<Rightarrow> if k = ''y'' then Some True else if k = ''n'' \<or> k = ''escape'' then Some False else None
     | Button b \<Rightarrow> Some (b = ''yes'')
     | Enter \<Rightarrow> None)"

definition off_dialog :: "string \<Rightarrow> dialog_event \<Rightarrow> bool option" where
  "off_dialog typed ev =
    (case ev of
       Key k \<Rightarrow> if k = ''escape'' then Some False else None
     | Button b \<Rightarrow> if b = ''confirm'' then off_confirm typed else Some False
     | Enter \<Rightarrow> off_confirm typed)"

section \<open>The name of the system\<close>

text \<open>\<open>read_os_release\<close> of \<open>tui/backend.py\<close>: the lines with an equals sign, the last one of a name counting.\<close>

definition strip_quotes :: "string \<Rightarrow> string" where
  "strip_quotes t = rev (dropWhile (\<lambda>c. c = CHR 0x22) (rev (dropWhile (\<lambda>c. c = CHR 0x22) t)))"

definition os_release_of :: "string \<Rightarrow> string dict" where
  "os_release_of text =
    fold (\<lambda>l d. dset (takeWhile (\<lambda>c. c \<noteq> CHR ''='') l) (tl (dropWhile (\<lambda>c. c \<noteq> CHR ''='') l)) d)
      (filter (\<lambda>l. CHR ''='' \<in> set l) (split_char (CHR 0x0A) text)) []"

definition read_os_release :: "files \<Rightarrow> string \<Rightarrow> string option" where
  "read_os_release fs path =
    (case fs path of
       None \<Rightarrow> None
     | Some text \<Rightarrow>
         let d = os_release_of text; field = (\<lambda>k. strip_quotes (case dget d k of Some v \<Rightarrow> v | None \<Rightarrow> []));
             t = strip (field ''NAME'' @ '' '' @ field ''VERSION_ID'')
         in if t = [] then None else Some t)"

section \<open>Properties\<close>

lemma os_release_example: "read_os_release [''r'' \<mapsto> ''NAME=Ubuntu'' @ [CHR 0x0A] @ ''VERSION_ID='' @ [CHR 0x22] @ ''26.04'' @ [CHR 0x22, CHR 0x0A]] ''r'' = Some ''Ubuntu 26.04''"
  by code_simp

text \<open>
  A paused application keeps what its screens show: a status changes its data alone and makes no request; and
  nothing that arrives after it began to close changes anything.
\<close>

lemma paused_screens_stay:
  assumes "ap_paused (ui_app u)"
  shows "\<exists>r a. status_arrives pstr st u = (r, u\<lparr>ui_app := a\<rparr>, []) \<and> ap_paused a"
proof -
  obtain r a where o: "on_status st (ui_app u) = (r, a)" by (metis surj_pair)
  have "ap_paused a = ap_paused (ui_app u)" using o by (auto simp: on_status_def Let_def split: pyval.splits if_splits option.splits sum.splits)
  then show ?thesis using o assms by (cases r; cases st) (auto simp: status_arrives_def Let_def)
qed

lemma closing_is_final:
  assumes "ui_closing u"
  shows "fst (snd (from_thread pstr st u)) = u" "snd (snd (from_thread pstr st u)) = []" "conn_from_thread c u = []"
    "fst (snd (initial_loaded pstr r u)) = u" "history_loaded h u = u"
  using assms by (simp_all add: from_thread_def conn_from_thread_def initial_loaded_def history_loaded_def)

text \<open>The loading of the start is \<open>got_initial\<close> of the data.\<close>

lemma initial_loaded_data: "\<not> ui_closing u \<Longrightarrow> ui_app (fst (snd (initial_loaded pstr r u))) = snd (got_initial r (ui_app u))"
proof -
  have same: "ui_app (fst (snd (update_active pstr v))) = ui_app v" for v
    by (auto simp: update_active_def Let_def split: tab.split prod.split)
  have st: "ui_app (fst (snd (status_arrives pstr st v))) = snd (on_status st (ui_app v))" for st v
    by (cases "on_status st (ui_app v)"; cases st) (auto simp: status_arrives_def Let_def same split: sum.split)
  assume "\<not> ui_closing u"
  then show ?thesis by (auto simp: initial_loaded_def got_initial_def Let_def st split: option.split)
qed

text \<open>The dialogs: only y, Yes and the typed text confirm.\<close>

lemma dialogs_confirm:
  "confirm_answer ev = Some True \<longleftrightarrow> ev = Key ''y'' \<or> ev = Button ''yes''"
  "off_dialog t ev = Some True \<longleftrightarrow> strip t = ''OFF'' \<and> (ev = Enter \<or> ev = Button ''confirm'')"
  by (auto simp: confirm_answer_def off_dialog_def off_confirm_def split: dialog_event.splits if_splits)

end
