(* ===== verification/Server.thy ===== *)
theory Server
  imports Control "HOL-Library.Word"
begin

unbundle bit_operations_syntax

text \<open>
  The rest of \<open>daemon/server.py\<close>: the life of the control socket and of its connections. What opening the socket
  leaves behind is the record \<open>sock_world\<close>; the errors that the system calls meet are the record \<open>sock_env\<close>. Every
  state of the world is kept in order, since another process may connect at any moment.
\<close>

section \<open>Opening the socket\<close>

text \<open>
  \<open>sw_mode\<close>: the permissions of the file at the socket's path, if there is one; \<open>sw_live\<close>: a process answers
  there; \<open>sw_listening\<close>: this process does.
\<close>

type_synonym perm = "9 word"

record sock_world =
  sw_dir :: bool
  sw_mode :: "perm option"
  sw_live :: bool
  sw_umask :: perm
  sw_group :: "string option"
  sw_listening :: bool

record sock_env =
  sk_makedirs :: "string option"
  sk_unlink :: "string option"
  sk_bind :: "string option"
  sk_listen :: "string option"
  sk_chmod :: "string option"
  sk_chown :: "string option"
  sk_group :: bool

definition SOCK_UMASK :: perm where "SOCK_UMASK = 0b001001111"
definition SOCK_MODE :: perm where "SOCK_MODE = 0b110110000"

text \<open>One system call: its error, if it meets one, or the world after it.\<close>

definition sys_call :: "string option \<Rightarrow> (sock_world \<Rightarrow> sock_world) \<Rightarrow> sock_world list \<Rightarrow> unit res \<times> sock_world list" where
  "sys_call err f ws = (case err of Some e \<Rightarrow> (Inl (OSError e), ws) | None \<Rightarrow> (Inr (), ws @ [f (last ws)]))"

text \<open>The steps of \<open>ControlServer.__init__\<close>, from the world \<open>last ws\<close> on.\<close>

definition make_dir :: "sock_env \<Rightarrow> string \<Rightarrow> sock_world list \<Rightarrow> unit res \<times> sock_world list" where
  "make_dir env dirname ws = (if dirname = [] then (Inr (), ws) else sys_call (sk_makedirs env) (sw_dir_update (\<lambda>_. True)) ws)"

definition drop_stale :: "sock_env \<Rightarrow> string \<Rightarrow> sock_world list \<Rightarrow> unit res \<times> sock_world list" where
  "drop_stale env path ws =
    (if sw_mode (last ws) = None then (Inr (), ws)
     else if sw_live (last ws) then (Inl (RuntimeError (''another turbomacd is listening on '' @ path)), ws)
     else sys_call (sk_unlink env) (sw_mode_update (\<lambda>_. None)) ws)"

text \<open>The socket is bound under the narrow umask, which is taken back whatever happens.\<close>

definition bind_socket :: "sock_env \<Rightarrow> sock_world list \<Rightarrow> unit res \<times> sock_world list" where
  "bind_socket env ws =
    (let old = sw_umask (last ws);
         ws = ws @ [(last ws)\<lparr>sw_umask := SOCK_UMASK\<rparr>];
         (r, ws) = (case sys_call (sk_bind env) (\<lambda>w. w\<lparr>sw_mode := Some (NOT (sw_umask w))\<rparr>) ws of
            (Inl e, ws) \<Rightarrow> (Inl e, ws)
          | (Inr _, ws) \<Rightarrow> sys_call (sk_listen env) (\<lambda>w. w\<lparr>sw_listening := True, sw_live := True\<rparr>) ws)
     in (r, ws @ [(last ws)\<lparr>sw_umask := old\<rparr>]))"

text \<open>The group is set if it exists and may be set.\<close>

definition give_group :: "sock_env \<Rightarrow> string \<Rightarrow> sock_world list \<Rightarrow> sock_world list" where
  "give_group env grp ws = (if sk_group env then snd (sys_call (sk_chown env) (sw_group_update (\<lambda>_. Some grp)) ws) else ws)"

definition open_socket :: "sock_env \<Rightarrow> string \<Rightarrow> string \<Rightarrow> string \<Rightarrow> sock_world \<Rightarrow> unit res \<times> sock_world list" where
  "open_socket env dirname path grp w =
    (case make_dir env dirname [w] of
       (Inl e, ws) \<Rightarrow> (Inl e, ws)
     | (Inr _, ws) \<Rightarrow>
         (case drop_stale env path ws of
            (Inl e, ws) \<Rightarrow> (Inl e, ws)
          | (Inr _, ws) \<Rightarrow>
              (case bind_socket env ws of
                 (Inl e, ws) \<Rightarrow> (Inl e, ws)
               | (Inr _, ws) \<Rightarrow>
                   (case sys_call (sk_chmod env) (sw_mode_update (\<lambda>_. Some SOCK_MODE)) ws of
                      (Inl e, ws) \<Rightarrow> (Inl e, ws)
                    | (Inr _, ws) \<Rightarrow> (Inr (), give_group env grp ws)))))"

text \<open>\<open>stop\<close>: no further connections, and the file is removed if it can be.\<close>

definition stop_server :: "sock_env \<Rightarrow> sock_world \<Rightarrow> sock_world" where
  "stop_server env w = (let w = w\<lparr>sw_listening := False, sw_live := False\<rparr> in if sk_unlink env = None then w\<lparr>sw_mode := None\<rparr> else w)"

section \<open>Connections\<close>

text \<open>
  \<open>_subscribe\<close>: each turn has the flag \<open>stopping\<close>, the result of the command \<open>status\<close> and whether the reply could be
  sent. The result is what was sent and how it ended, if it did.
\<close>

record sub_turn =
  tu_stopping :: bool
  tu_status :: "pyval res"
  tu_sent :: bool

fun subscribe_loop :: "pyval \<Rightarrow> sub_turn list \<Rightarrow> pyval dict list \<times> unit res option" where
  "subscribe_loop rid [] = ([], None)"
| "subscribe_loop rid (t # ts) =
    (if tu_stopping t then ([], Some (Inr ()))
     else case tu_status t of
       Inl e \<Rightarrow> ([], Some (Inl e))
     | Inr v \<Rightarrow>
         if tu_sent t then (case subscribe_loop rid ts of (ms, r) \<Rightarrow> (ok_msg v rid # ms, r)) else ([], Some (Inr ())))"

text \<open>
  \<open>handle\<close>: a connection counts from its start to its end, however it ends. Connections run on threads of their
  own; an event is the start or the end of one. The daemon makes a status four times a second while the count
  is positive.
\<close>

datatype conn_event = Accepted nat | Ended nat

record conn_count =
  cc_clients :: int
  cc_open :: "nat list"

definition client_count :: "int \<Rightarrow> conn_count \<Rightarrow> conn_count" where
  "client_count delta c = c\<lparr>cc_clients := cc_clients c + delta\<rparr>"

definition conn_step :: "conn_count \<Rightarrow> conn_event \<Rightarrow> conn_count" where
  "conn_step c ev =
    (case ev of
       Accepted i \<Rightarrow> if i \<in> set (cc_open c) then c else client_count 1 (c\<lparr>cc_open := i # cc_open c\<rparr>)
     | Ended i \<Rightarrow> if i \<in> set (cc_open c) then client_count (- 1) (c\<lparr>cc_open := remove1 i (cc_open c)\<rparr>) else c)"

section \<open>Properties\<close>

text \<open>The worlds in which this process listens are closed to others.\<close>

definition closed_to_others :: "sock_world \<Rightarrow> bool" where
  "closed_to_others w = (sw_listening w \<longrightarrow> (\<exists>m. sw_mode w = Some m \<and> m AND 7 = 0))"

lemma masked: "NOT SOCK_UMASK AND 7 = 0" "SOCK_MODE AND 7 = 0" "NOT SOCK_UMASK = SOCK_MODE"
  by (simp_all add: SOCK_UMASK_def SOCK_MODE_def)

text \<open>The relation of the last world to the first.\<close>

lemma make_dir_last:
  "make_dir env dirname [w] = (r, ws) \<Longrightarrow> ws \<noteq> [] \<and> (\<forall>v \<in> set ws. sw_listening v = sw_listening w \<and> sw_mode v = sw_mode w) \<and>
     sw_umask (last ws) = sw_umask w \<and> sw_live (last ws) = sw_live w"
  by (auto simp: make_dir_def sys_call_def split: if_splits option.splits)

lemma drop_stale_last:
  assumes "drop_stale env path ws = (r, vs)" "ws \<noteq> []" "\<forall>v \<in> set ws. \<not> sw_listening v"
  shows "vs \<noteq> [] \<and> (\<forall>v \<in> set vs. \<not> sw_listening v) \<and> sw_umask (last vs) = sw_umask (last ws) \<and>
    (sw_mode (last ws) \<noteq> None \<and> sw_live (last ws) \<longrightarrow> is_ok r = False \<and> vs = ws)"
  using assms by (auto simp: drop_stale_def sys_call_def split: if_splits option.splits)

lemma bind_socket_last:
  assumes "bind_socket env ws = (r, vs)" "ws \<noteq> []" "\<forall>v \<in> set ws. \<not> sw_listening v"
  shows "vs \<noteq> [] \<and> list_all closed_to_others vs \<and> sw_umask (last vs) = sw_umask (last ws) \<and> (is_ok r \<longrightarrow> sw_listening (last vs))"
  using assms masked
  by (auto simp: bind_socket_def sys_call_def closed_to_others_def list_all_iff Let_def split: option.splits)

lemma chmod_last:
  assumes "sys_call err (sw_mode_update (\<lambda>_. Some SOCK_MODE)) ws = (r, vs)" "ws \<noteq> []" "list_all closed_to_others ws"
  shows "vs \<noteq> [] \<and> list_all closed_to_others vs \<and> sw_umask (last vs) = sw_umask (last ws) \<and> sw_listening (last vs) = sw_listening (last ws) \<and>
    (is_ok r \<longrightarrow> sw_mode (last vs) = Some SOCK_MODE)"
  using assms masked(2) by (auto simp: sys_call_def closed_to_others_def split: option.splits)

lemma give_group_last:
  assumes "ws \<noteq> []" "list_all closed_to_others ws"
  shows "list_all closed_to_others (give_group env grp ws) \<and> sw_umask (last (give_group env grp ws)) = sw_umask (last ws) \<and>
    sw_listening (last (give_group env grp ws)) = sw_listening (last ws) \<and> sw_mode (last (give_group env grp ws)) = sw_mode (last ws)"
proof -
  have "closed_to_others (last ws)" using assms by (auto simp: list_all_iff)
  then have "closed_to_others ((last ws)\<lparr>sw_group := Some grp\<rparr>)" by (simp add: closed_to_others_def)
  then show ?thesis using assms(2) by (cases "sk_chown env") (simp_all add: give_group_def sys_call_def)
qed

text \<open>
  C39: the control socket is never open to others. In every state that opening it goes through, also between the
  system calls and whatever errors they meet, this process listens only while the file's permissions give
  nothing to other users; the process's umask is afterwards what it was; when another daemon answers at the
  path, opening fails and touches neither its file nor its permissions; on success the mode is 0660.
\<close>

theorem socket_closed_to_others:
  assumes "open_socket env dirname path grp w = (r, ws)" "\<not> sw_listening w"
  shows "(\<forall>v \<in> set ws. closed_to_others v) \<and> sw_umask (last ws) = sw_umask w \<and>
    (sw_mode w \<noteq> None \<and> sw_live w \<longrightarrow> \<not> is_ok r \<and> (\<forall>v \<in> set ws. sw_mode v = sw_mode w \<and> \<not> sw_listening v)) \<and>
    (is_ok r \<longrightarrow> sw_listening (last ws) \<and> sw_mode (last ws) = Some SOCK_MODE)"
proof -
  obtain r1 w1 where 1: "make_dir env dirname [w] = (r1, w1)" by (metis surj_pair)
  note m = make_dir_last [OF 1]
  have m1: "\<forall>v \<in> set w1. \<not> sw_listening v" "\<forall>v \<in> set w1. sw_mode v = sw_mode w" "w1 \<noteq> []" using m assms(2) by blast+
  have w: "w \<in> set w1" "\<forall>v \<in> set w1. closed_to_others v" using 1 m assms(2) by (auto simp: make_dir_def sys_call_def closed_to_others_def split: if_splits option.splits)
  obtain r2 w2 where 2: "drop_stale env path w1 = (r2, w2)" by (metis surj_pair)
  have d: "w2 \<noteq> []" "\<forall>v \<in> set w2. \<not> sw_listening v" "sw_umask (last w2) = sw_umask w" "sw_mode w \<noteq> None \<and> sw_live w \<longrightarrow> \<not> is_ok r2 \<and> w2 = w1"
    using drop_stale_last [OF 2 m1(3,1)] m m1(2,3) last_in_set [of w1] by metis+
  then have d': "\<forall>v \<in> set w2. closed_to_others v" by (simp add: closed_to_others_def)
  obtain r3 w3 where 3: "bind_socket env w2 = (r3, w3)" by (metis surj_pair)
  note b = bind_socket_last [OF 3 d(1,2)]
  show ?thesis
  proof (cases r1)
    case (Inl e)
    then have "r = Inl e \<and> ws = w1" using assms(1) 1 by (simp add: open_socket_def)
    then show ?thesis using m w m1 is_ok_simps by blast
  next
    case (Inr u)
    note r1 = Inr
    show ?thesis
    proof (cases r2)
      case (Inl e)
      then have "r = Inl e \<and> ws = w2" using assms(1) 1 2 r1 by (simp add: open_socket_def)
      then show ?thesis using m1 d d' is_ok_simps by blast
    next
      case (Inr u)
      note r2 = Inr
      then have live: "\<not> (sw_mode w \<noteq> None \<and> sw_live w)" using d(4) by auto
      show ?thesis
      proof (cases r3)
        case (Inl e)
        then have "r = Inl e \<and> ws = w3" using assms(1) 1 2 3 r1 r2 by (simp add: open_socket_def)
        then show ?thesis using b d(3) live by (auto simp: list_all_iff)
      next
        case (Inr u)
        note r3 = Inr
        obtain r4 w4 where 4: "sys_call (sk_chmod env) (sw_mode_update (\<lambda>_. Some SOCK_MODE)) w3 = (r4, w4)" by (metis surj_pair)
        have b': "list_all closed_to_others w3" "w3 \<noteq> []" "sw_umask (last w3) = sw_umask w" "sw_listening (last w3)" using b d(3) r3 by simp_all
        note c = chmod_last [OF 4 b'(2,1)]
        show ?thesis
        proof (cases r4)
          case (Inl e)
          then have "r = Inl e \<and> ws = w4" using assms(1) 1 2 3 4 r1 r2 r3 by (simp add: open_socket_def)
          then show ?thesis using c b' live by (auto simp: list_all_iff)
        next
          case (Inr u)
          then have "r = Inr () \<and> ws = give_group env grp w4" using assms(1) 1 2 3 4 r1 r2 r3 by (simp add: open_socket_def)
          then show ?thesis using c b' live give_group_last [of w4 env grp] Inr by (auto simp: list_all_iff)
        qed
      qed
    qed
  qed
qed

text \<open>A stale file of the worst kind is replaced, and only owner and group may connect.\<close>

definition demo_sock_env :: sock_env where
  "demo_sock_env = \<lparr>sk_makedirs = None, sk_unlink = None, sk_bind = None, sk_listen = None, sk_chmod = None, sk_chown = None, sk_group = True\<rparr>"

definition demo_sock_world :: sock_world where
  "demo_sock_world = \<lparr>sw_dir = False, sw_mode = Some (- 1), sw_live = False, sw_umask = 18, sw_group = None, sw_listening = False\<rparr>"

theorem socket_closed_to_others_witness:
  "is_ok (fst (open_socket demo_sock_env ''/run'' ''/run/s'' ''turbomac'' demo_sock_world)) \<and>
   sw_umask (last (snd (open_socket demo_sock_env ''/run'' ''/run/s'' ''turbomac'' demo_sock_world))) = 18 \<and>
   sw_mode (last (snd (open_socket demo_sock_env ''/run'' ''/run/s'' ''turbomac'' demo_sock_world))) = Some SOCK_MODE"
proof -
  have o: "open_socket demo_sock_env ''/run'' ''/run/s'' ''turbomac'' demo_sock_world =
    (fst (open_socket demo_sock_env ''/run'' ''/run/s'' ''turbomac'' demo_sock_world), snd (open_socket demo_sock_env ''/run'' ''/run/s'' ''turbomac'' demo_sock_world))" by simp
  have k: "is_ok (fst (open_socket demo_sock_env ''/run'' ''/run/s'' ''turbomac'' demo_sock_world))"
    by (simp add: open_socket_def make_dir_def drop_stale_def bind_socket_def sys_call_def demo_sock_env_def demo_sock_world_def Let_def)
  then show ?thesis using socket_closed_to_others [OF o] by (simp add: demo_sock_world_def)
qed

text \<open>The count is the number of open connections, so that statuses are made exactly while somebody is connected.\<close>

definition count_ok :: "conn_count \<Rightarrow> bool" where
  "count_ok c = (cc_clients c = int (length (cc_open c)) \<and> distinct (cc_open c))"

lemma int_pred_length: "x \<in> set xs \<Longrightarrow> int (length xs - Suc 0) = int (length xs) - 1"
  by (cases xs) simp_all

interpretation conns: step_machine conn_step count_ok "\<lambda>_. True"
  by unfold_locales (auto simp: conn_step_def client_count_def count_ok_def length_remove1 distinct_remove1 int_pred_length split: conn_event.splits)

lemma clients_counted: "count_ok (run_steps conn_step \<lparr>cc_clients = 0, cc_open = []\<rparr> evs)"
  by (rule conns.run_keeps) (simp_all add: count_ok_def list_all_iff)

text \<open>A subscription sends one reply for each turn until it is stopped, a reply is lost or the status fails.\<close>

lemma subscribe_prefix:
  "subscribe_loop rid ts = (ms, r) \<Longrightarrow> \<exists>n \<le> length ts. list_all (\<lambda>t. \<not> tu_stopping t \<and> tu_sent t \<and> is_ok (tu_status t)) (take n ts) \<and>
     map Inr ms = map (\<lambda>t. res_bind (tu_status t) (\<lambda>v. Inr (ok_msg v rid))) (take n ts) \<and> (r = None \<longleftrightarrow> n = length ts)"
proof (induction rid ts arbitrary: ms r rule: subscribe_loop.induct)
  case (2 rid t ts)
  show ?case
  proof (cases "\<not> tu_stopping t \<and> tu_sent t \<and> is_ok (tu_status t)")
    case True
    then obtain v where v: "tu_status t = Inr v" by (cases "tu_status t") auto
    obtain ms' r' where l: "subscribe_loop rid ts = (ms', r')" by (metis surj_pair)
    then have e: "ms = ok_msg v rid # ms'" "r = r'" using 2(2) True v by simp_all
    obtain n where "n \<le> length ts" "list_all (\<lambda>t. \<not> tu_stopping t \<and> tu_sent t \<and> is_ok (tu_status t)) (take n ts)"
      "map Inr ms' = map (\<lambda>t. res_bind (tu_status t) (\<lambda>v. Inr (ok_msg v rid))) (take n ts)" "r' = None \<longleftrightarrow> n = length ts" using 2(1) [OF _ v _ l] True by auto
    then show ?thesis using True v e by (intro exI [of _ "Suc n"]) simp
  next
    case False
    then have "ms = [] \<and> r \<noteq> None" using 2(2) by (auto split: if_splits sum.splits)
    then show ?thesis by (intro exI [of _ 0]) simp
  qed
qed simp

end
