(* ===== verification/Probe.thy ===== *)
theory Probe
  imports Ctl
begin

text \<open>
  \<open>tools/probe.py\<close>: the measurement script that reads the sensors at a fixed rate, also under a load that it stops
  when a guard trips. It has readers of its own, simpler than the daemon's. A reader is a function on the files
  (\<open>io\<close>); time and what the machine does between two rows are the inputs of a row (\<open>probe_turn\<close>). The JSON texts
  and the summary that it prints at the end are left out.
\<close>

type_synonym 'a io = "files \<Rightarrow> 'a res \<times> files"

definition io_bind :: "'a io \<Rightarrow> ('a \<Rightarrow> 'b io) \<Rightarrow> 'b io" where
  "io_bind m f = (\<lambda>fs. case m fs of (Inl e, fs) \<Rightarrow> (Inl e, fs) | (Inr x, fs) \<Rightarrow> f x fs)"

definition io_res :: "'a res \<Rightarrow> 'a io" where
  "io_res r = (\<lambda>fs. (r, fs))"

definition io_get :: "(files \<Rightarrow> 'a res) \<Rightarrow> 'a io" where
  "io_get f = (\<lambda>fs. (f fs, fs))"

section \<open>Registers\<close>

text \<open>Any failure of \<open>read_msr\<close> raises, with the text \<open>err\<close>.\<close>

definition pb_msr :: "msr_device \<Rightarrow> string \<Rightarrow> nat \<Rightarrow> 64 word res" where
  "pb_msr dev err reg = (case read_msr dev reg of Some v \<Rightarrow> Inr v | None \<Rightarrow> Inl (OSError err))"

definition pb_window :: "rat \<Rightarrow> nat \<Rightarrow> rat" where
  "pb_window tu f = (let y = f mod 32; z = f div 32 mod 4 in fmul (fmul (2 ^ y) (fadd 1 (fdiv (of_nat z) 4))) tu)"

definition decode_msrs :: "msr_device \<Rightarrow> string \<Rightarrow> pyval dict res" where
  "decode_msrs dev err =
    res_bind (pb_msr dev err 0x606) (\<lambda>units. res_bind (pb_msr dev err 0x610) (\<lambda>pl. res_bind (pb_msr dev err 0x1B1) (\<lambda>st.
      let pu = fdiv 1 (2 ^ bits units 0 0xF); tu = fdiv 1 (2 ^ bits units 16 0xF); F = (\<lambda>x. PFloat (Fin x)) in Inr
      [(''msr_0x606'', PStr (py_hex units)), (''power_unit_w'', F pu), (''time_unit_s'', F tu), (''msr_0x610'', PStr (py_hex pl)),
       (''pl1_w'', F (fmul (of_nat (bits pl 0 0x7FFF)) pu)), (''pl1_enable'', PBool (bit pl 15)), (''pl1_clamp'', PBool (bit pl 16)),
       (''pl1_window_s'', F (pb_window tu (bits pl 17 0x7F))),
       (''pl2_w'', F (fmul (of_nat (bits pl 32 0x7FFF)) pu)), (''pl2_enable'', PBool (bit pl 47)), (''pl2_clamp'', PBool (bit pl 48)),
       (''pl2_window_s'', F (pb_window tu (bits pl 49 0x7F))), (''lock'', PBool (bit pl 63)),
       (''msr_0x1b1'', PStr (py_hex st)), (''pkg_thermal_status'', PBool (bit st 0)), (''pkg_prochot'', PBool (bit st 2)),
       (''pkg_power_limited'', PBool (bit st 10)), (''pkg_power_limit_log'', PBool (bit st 11))])))"

section \<open>Keys of the SMC\<close>

text \<open>\<open>pe_smc\<close> is the directory of the applesmc device, if it was found; \<open>pe_err\<close> is the text of a failed \<open>open\<close>.\<close>

record probe_env =
  pe_drv :: driver
  pe_smc :: "string option"
  pe_err :: string

definition smc_file :: "probe_env \<Rightarrow> string \<Rightarrow> string" where
  "smc_file env name = path_join (or_empty (pe_smc env)) name"

definition smc_text :: "probe_env \<Rightarrow> string \<Rightarrow> string \<Rightarrow> files \<Rightarrow> string" where
  "smc_text env name dflt fs = or_empty (read_text fs (smc_file env name) (Some dflt))"

definition select_index :: "probe_env \<Rightarrow> string \<Rightarrow> unit io" where
  "select_index env index = (\<lambda>fs. case write_text (pe_drv env) fs (smc_file env ''key_at_index'') index of (Some e, fs) \<Rightarrow> (Inl (OSError e), fs) | (None, fs) \<Rightarrow> (Inr (), fs))"

text \<open>The table of \<open>SMC.__init__\<close>, from index \<open>i\<close> on.\<close>

fun probe_scan :: "probe_env \<Rightarrow> nat \<Rightarrow> nat \<Rightarrow> smc_table \<Rightarrow> smc_table io" where
  "probe_scan env i 0 t = io_res (Inr t)"
| "probe_scan env i (Suc n) t =
    io_bind (select_index env (str_int (int i))) (\<lambda>_.
    io_bind (io_get (\<lambda>fs. res_bind (int_res (smc_text env ''key_at_index_data_length'' ''0'' fs)) (\<lambda>lng.
      Inr (smc_text env ''key_at_index_name'' [] fs, smc_text env ''key_at_index_type'' [] fs, lng)))) (\<lambda>(name, typ, lng).
    probe_scan env (Suc i) n (if name = [] then t else dset name (int i, typ, lng) t)))"

text \<open>\<open>SMC.__init__\<close>: the selector as it was, and the table.\<close>

definition probe_open :: "probe_env \<Rightarrow> (string \<times> smc_table) io" where
  "probe_open env =
    (case pe_smc env of
       None \<Rightarrow> io_res (Inl (RuntimeError ''applesmc platform device not found''))
     | Some _ \<Rightarrow>
         io_bind (io_get (\<lambda>fs. res_bind (int_res (smc_text env ''key_count'' ''0'' fs)) (\<lambda>n. Inr (smc_text env ''key_at_index'' ''0'' fs, n)))) (\<lambda>(original, n).
         io_bind (probe_scan env 0 (nat n) []) (\<lambda>t. io_res (Inr (original, t)))))"

definition probe_restore :: "probe_env \<Rightarrow> string \<Rightarrow> files \<Rightarrow> files" where
  "probe_restore env original fs = snd (select_index env (if original = [] then ''0'' else original) fs)"

definition probe_raw :: "probe_env \<Rightarrow> smc_table \<Rightarrow> string \<Rightarrow> (string \<times> bytes) io" where
  "probe_raw env t key =
    (case dget t key of
       None \<Rightarrow> io_res (Inl (KeyError key))
     | Some (index, typ, lng) \<Rightarrow>
         io_bind (select_index env (str_int index)) (\<lambda>_. io_get (\<lambda>fs.
           let name = smc_text env ''key_at_index_name'' [] fs in
           if name \<noteq> key then Inl (RuntimeError (''selector mismatch: wanted '' @ key @ '' got '' @ name))
           else (case fs (smc_file env ''key_at_index_data'') of
             None \<Rightarrow> Inl (OSError (pe_err env))
           | Some data \<Rightarrow> Inr (typ, if lng \<noteq> 0 then prefix_to lng (bytes_of data) else bytes_of data)))))"

definition probe_decode :: "string \<Rightarrow> bytes \<Rightarrow> pyval res" where
  "probe_decode typ data =
    (let t = strip typ in
     if t = ''flt'' \<and> 4 \<le> length data then Inr (PFloat (single_of (le_uint (take 4 data))))
     else if t \<in> {''ui8'', ''ui16'', ''ui32'', ''ui64''} then Inr (PInt (be_uint data))
     else if t \<in> {''si8'', ''si16'', ''si32''} then Inr (PInt (be_sint data))
     else if t = ''sp78'' \<and> 2 \<le> length data then Inr (PFloat (Fin (fdiv (of_int (be_sint (take 2 data))) 256)))
     else if t = ''fpe2'' \<and> 2 \<le> length data then Inr (PFloat (Fin (fdiv (of_int (be_uint (take 2 data))) 4)))
     else if length t = 4 \<and> take 2 t \<in> {''fp'', ''sp''} \<and> 2 \<le> length data then
       (case hex_val (t ! 3) of
          None \<Rightarrow> Inl (ValueError ''invalid literal for int() with base 16'')
        | Some fb \<Rightarrow> Inr (PFloat (Fin (fdiv (of_int (if take 2 t = ''sp'' then be_sint (take 2 data) else be_uint (take 2 data))) (2 ^ fb)))))
     else if t = ''flag'' then Inr (PBool (case data of [] \<Rightarrow> False | b # _ \<Rightarrow> b \<noteq> 0))
     else Inr (PStr (hex_str data)))"

definition probe_read :: "probe_env \<Rightarrow> smc_table \<Rightarrow> string \<Rightarrow> pyval io" where
  "probe_read env t key = io_bind (probe_raw env t key) (\<lambda>(typ, data). io_res (probe_decode typ data))"

section \<open>Energy counters and sensors\<close>

record energy =
  en_zone :: string
  en_max :: int
  en_last :: "(rat \<times> int) option"

definition energy_new :: "files \<Rightarrow> string \<Rightarrow> energy res" where
  "energy_new fs zone =
    (let t = or_empty (read_text fs (path_join zone ''max_energy_range_uj'') (Some ''0'')) in
     res_bind (if t = [] then Inr 0 else int_res t) (\<lambda>m. Inr \<lparr>en_zone = zone, en_max = m, en_last = None\<rparr>))"

definition energy_watts :: "files \<Rightarrow> rat \<Rightarrow> energy \<Rightarrow> (pyval \<times> energy) res" where
  "energy_watts fs now e =
    (case read_text fs (path_join (en_zone e) ''energy_uj'') None of
       None \<Rightarrow> Inr (PNone, e)
     | Some t \<Rightarrow> res_bind (int_res t) (\<lambda>cur.
         let e' = e\<lparr>en_last := Some (now, cur)\<rparr> in
         Inr (case en_last e of
           None \<Rightarrow> (PNone, e')
         | Some (t0, e0) \<Rightarrow>
             let delta = cur - e0; delta = (if delta < 0 \<and> en_max e \<noteq> 0 then delta + en_max e else delta); dt = fsub now t0
             in (if 0 < dt then PFloat (Fin (fdiv (fdiv (fl (of_int delta)) 1000000) dt)) else PNone, e'))))"

fun zone_watts :: "files \<Rightarrow> (rat \<times> energy) list \<Rightarrow> (pyval list \<times> energy list) res" where
  "zone_watts fs [] = Inr ([], [])"
| "zone_watts fs ((now, e) # es) = res_bind (energy_watts fs now e) (\<lambda>(v, e). res_bind (zone_watts fs es) (\<lambda>(vs, es). Inr (v # vs, e # es)))"

definition probe_hwmon :: "globber \<Rightarrow> files \<Rightarrow> string \<Rightarrow> string option" where
  "probe_hwmon glob fs name = List.find (\<lambda>d. read_text fs (path_join d ''name'') None = Some name) (glob ''/sys/class/hwmon/hwmon*'')"

definition amd_hwmon :: "globber \<Rightarrow> files \<Rightarrow> string option" where
  "amd_hwmon glob fs =
    (case List.find (\<lambda>c. read_text fs (path_join c ''vendor'') None = Some ''0x1002'') (glob ''/sys/class/drm/card*/device'') of
       None \<Rightarrow> None
     | Some c \<Rightarrow> (case glob (path_join (path_join c ''hwmon'') ''hwmon*'') of [] \<Rightarrow> None | h # _ \<Rightarrow> Some h))"

text \<open>\<open>v / d\<close>, and \<open>int(read_text(p, "0"))\<close>.\<close>

definition over :: "pyval \<Rightarrow> rat \<Rightarrow> pyval res" where
  "over v d = (case as_float v of Some (Fin x) \<Rightarrow> Inr (PFloat (Fin (fdiv (fl x) d))) | Some f \<Rightarrow> Inr (PFloat f) | None \<Rightarrow> Inl (TypeError ''unsupported operand types for /''))"

definition int_at :: "files \<Rightarrow> string \<Rightarrow> int res" where
  "int_at fs p = int_res (or_empty (read_text fs p (Some ''0'')))"

definition scaled_at :: "files \<Rightarrow> string option \<Rightarrow> string \<Rightarrow> rat \<Rightarrow> pyval res" where
  "scaled_at fs dir name d = (case dir of None \<Rightarrow> Inr PNone | Some p \<Rightarrow> res_bind (int_at fs (path_join p name)) (\<lambda>n. over (PInt n) d))"

section \<open>One row\<close>

text \<open>What \<open>main\<close> sets up, and what it is called with.\<close>

record probe_cfg =
  pc_env :: probe_env
  pc_table :: smc_table
  pc_coretemp :: "string option"
  pc_gpu :: "string option"
  pc_extra :: "string list"
  pc_seconds :: rat
  pc_stress :: bool
  pc_abort_input_w :: rat
  pc_abort_temp_c :: rat

text \<open>A turn of the loop: the time since the start, the clock at each counter, what the machine did, and whether the load has ended.\<close>

record probe_turn =
  tn_t :: rat
  tn_clocks :: "rat list"
  tn_machine :: "files \<Rightarrow> files"
  tn_done :: bool

fun read_extras :: "probe_env \<Rightarrow> smc_table \<Rightarrow> string list \<Rightarrow> files \<Rightarrow> pyval dict \<times> files" where
  "read_extras env t [] fs = ([], fs)"
| "read_extras env t (k # ks) fs =
    (case probe_read env t k fs of (r, fs) \<Rightarrow> (case read_extras env t ks fs of (d, fs) \<Rightarrow> ((k, case r of Inr v \<Rightarrow> v | Inl _ \<Rightarrow> PNone) # d, fs)))"

definition probe_row :: "probe_cfg \<Rightarrow> probe_turn \<Rightarrow> energy list \<Rightarrow> (pyval dict \<times> energy list) io" where
  "probe_row c tn es =
    (let rd = probe_read (pc_env c) (pc_table c) in
     io_bind (rd ''PDTR'') (\<lambda>inp. io_bind (rd ''VD0R'') (\<lambda>v. io_bind (rd ''ID0R'') (\<lambda>a.
     io_bind (io_bind (rd ''ACPW'') (\<lambda>x. io_res (over x 1000))) (\<lambda>acpw.
     io_bind (io_get (\<lambda>fs. zone_watts fs (zip (tn_clocks tn) es))) (\<lambda>(ws, es).
     io_bind (io_get (\<lambda>fs. scaled_at fs (pc_coretemp c) ''temp1_input'' 1000)) (\<lambda>temp.
     io_bind (io_get (\<lambda>fs. scaled_at fs (pc_gpu c) ''power1_input'' 1000000)) (\<lambda>gpu.
     io_bind (io_get (\<lambda>fs. int_at fs (smc_file (pc_env c) ''fan1_input''))) (\<lambda>fan_l.
     io_bind (io_get (\<lambda>fs. int_at fs (smc_file (pc_env c) ''fan2_input''))) (\<lambda>fan_r. \<lambda>fs.
       case read_extras (pc_env c) (pc_table c) (filter (\<lambda>k. k \<noteq> ''PDTR'') (pc_extra c)) fs of (ext, fs) \<Rightarrow>
         (Inr ([(''t'', PFloat (Fin (py_round 2 (tn_t tn)))), (''input_w'', inp), (''v'', v), (''a'', a), (''acpw_w'', acpw)]
               @ zip [''pkg_w'', ''core_w'', ''uncore_w'', ''dram_w''] ws
               @ [(''temp_c'', temp), (''gpu_w'', gpu), (''fan_l'', PInt fan_l), (''fan_r'', PInt fan_r)] @ ext, es), fs)))))))))))"

text \<open>The peaks: \<open>max\<close> keeps its first argument unless the second is greater.\<close>

definition pf_gt :: "pyfloat \<Rightarrow> pyfloat \<Rightarrow> bool" where
  "pf_gt a b = (pf_le b a \<and> a \<noteq> b)"

definition py_max :: "pyval \<Rightarrow> pyval \<Rightarrow> pyval res" where
  "py_max a b = (case (as_float a, as_float b) of (Some x, Some y) \<Rightarrow> Inr (if pf_gt y x then b else a) | _ \<Rightarrow> Inl (TypeError ''not supported between these operands''))"

fun add_peaks :: "pyval dict \<Rightarrow> string list \<Rightarrow> pyval dict \<Rightarrow> pyval dict res" where
  "add_peaks row [] pk = Inr pk"
| "add_peaks row (k # ks) pk =
    (if py_get row k = PNone then add_peaks row ks pk
     else res_bind (py_max (case dget pk k of Some p \<Rightarrow> p | None \<Rightarrow> PFloat (Fin (- 1000000000))) (py_get row k)) (\<lambda>m. add_peaks row ks (dset k m pk)))"

definition PROBE_PEAKS :: "string list" where "PROBE_PEAKS = [''input_w'', ''pkg_w'', ''temp_c'', ''gpu_w'', ''a'']"

text \<open>The printed line.\<close>

definition fixed_at :: "nat \<Rightarrow> nat \<Rightarrow> pyval \<Rightarrow> string res" where
  "fixed_at n d v =
    (case as_float v of
       Some x \<Rightarrow> Inr (rjust n (fmt_pf (\<lambda>r. fmt_fixed d (fl r)) x))
     | None \<Rightarrow> (case v of PStr _ \<Rightarrow> Inl (ValueError (''Unknown format code 'f' for object of type 'str'' @ [CHR 0x27])) | _ \<Rightarrow> Inl (TypeError ''unsupported format string'')))"

definition row_line :: "rat \<Rightarrow> pyval dict \<Rightarrow> string res" where
  "row_line t row =
    (let R = py_get row; Z = (\<lambda>k. if truthy (R k) then R k else PInt 0); fan = (\<lambda>k. case R k of PInt n \<Rightarrow> Inr (rjust 5 (str_int n)) | _ \<Rightarrow> Inl (TypeError ''unsupported format string'')) in
     res_bind (each id [fixed_at 6 1 (PFloat (Fin t)), fixed_at 6 2 (R ''input_w''), fixed_at 6 2 (R ''v''), fixed_at 6 3 (R ''a''),
        fixed_at 6 2 (Z ''pkg_w''), fixed_at 6 2 (Z ''core_w''), fixed_at 6 2 (Z ''gpu_w''), fixed_at 4 0 (Z ''temp_c''), fan ''fan_l'', fan ''fan_r'']) (\<lambda>ls.
     Inr (join_with '' '' ls)))"

text \<open>The guard: \<open>or\<close> looks at the temperature only below the first limit.\<close>

definition tripped :: "probe_cfg \<Rightarrow> pyval dict \<Rightarrow> bool res" where
  "tripped c row =
    res_bind (ge_val (py_get row ''input_w'') (PFloat (Fin (pc_abort_input_w c)))) (\<lambda>b.
      if b then Inr True
      else ge_val (if truthy (py_get row ''temp_c'') then py_get row ''temp_c'' else PInt 0) (PFloat (Fin (pc_abort_temp_c c))))"

section \<open>The loop\<close>

record probe_run =
  pr_rows :: "pyval dict list"
  pr_peaks :: "pyval dict"
  pr_lines :: "string list"
  pr_zones :: "energy list"

text \<open>How the loop ends; \<open>Going\<close>: it has not ended with the given turns.\<close>

datatype probe_end = Aborted | LoadEnded | TimeUp | Going

definition probe_step :: "probe_cfg \<Rightarrow> probe_turn \<Rightarrow> probe_run \<Rightarrow> files \<Rightarrow> probe_end res \<times> probe_run \<times> files" where
  "probe_step c tn s fs =
    (case probe_row c tn (pr_zones s) (tn_machine tn fs) of
       (Inl e, fs) \<Rightarrow> (Inl e, s, fs)
     | (Inr (row, es), fs) \<Rightarrow>
         let s = s\<lparr>pr_rows := pr_rows s @ [row], pr_zones := es\<rparr> in
         (case add_peaks row PROBE_PEAKS (pr_peaks s) of
            Inl e \<Rightarrow> (Inl e, s, fs)
          | Inr pk \<Rightarrow>
              let s = s\<lparr>pr_peaks := pk\<rparr> in
              (case row_line (tn_t tn) row of
                 Inl e \<Rightarrow> (Inl e, s, fs)
               | Inr line \<Rightarrow>
                   let s = s\<lparr>pr_lines := pr_lines s @ [line]\<rparr> in
                   (case tripped c row of
                      Inl e \<Rightarrow> (Inl e, s, fs)
                    | Inr b \<Rightarrow>
                        (Inr (if b then Aborted
                              else if pc_stress c \<and> tn_done tn then LoadEnded
                              else if pc_seconds c \<le> tn_t tn \<and> \<not> pc_stress c then TimeUp else Going), s, fs)))))"

fun probe_loop :: "probe_cfg \<Rightarrow> probe_turn list \<Rightarrow> probe_run \<Rightarrow> files \<Rightarrow> probe_end res \<times> probe_run \<times> files" where
  "probe_loop c [] s fs = (Inr Going, s, fs)"
| "probe_loop c (tn # tns) s fs =
    (case probe_step c tn s fs of
       (Inr Going, s, fs) \<Rightarrow> probe_loop c tns s fs
     | r \<Rightarrow> r)"

section \<open>The script\<close>

datatype probe_mode = Registers | KeyTable | Measure

definition REQUIRED :: "string list" where "REQUIRED = [''PDTR'', ''ACPW'', ''VD0R'', ''ID0R'']"
definition PROBE_EXTRA :: "string list" where "PROBE_EXTRA = [''PSTR'', ''PCPC'', ''PCPG'', ''PCPT'', ''PG0R'', ''PHPC'', ''PDTR'']"
definition RAPL_ZONE :: string where "RAPL_ZONE = ''/sys/class/powercap/intel-rapl:0''"

text \<open>Everything between the opening of the SMC and its release; the counters are read once before the loop, at \<open>clocks\<close>.\<close>

definition probe_measure :: "probe_cfg \<Rightarrow> globber \<Rightarrow> rat list \<Rightarrow> probe_turn list \<Rightarrow> files \<Rightarrow> (probe_end res \<times> probe_run) res \<times> files" where
  "probe_measure c glob clocks turns =
    io_bind (io_get (\<lambda>fs. each (energy_new fs) [RAPL_ZONE, RAPL_ZONE @ '':0'', RAPL_ZONE @ '':1'', RAPL_ZONE @ '':2''])) (\<lambda>es.
    io_bind (io_get (\<lambda>fs. Inr (c\<lparr>pc_coretemp := probe_hwmon glob fs ''coretemp'', pc_gpu := amd_hwmon glob fs, pc_extra := filter (dhas (pc_table c)) PROBE_EXTRA\<rparr>))) (\<lambda>c.
    io_bind (io_bind (probe_read (pc_env c) (pc_table c) ''ACPW'') (\<lambda>x. io_res (over x 1000))) (\<lambda>acpw.
    io_bind (io_res (fixed_at 0 3 acpw)) (\<lambda>_.
    io_bind (io_get (\<lambda>fs. zone_watts fs (zip clocks es))) (\<lambda>(_, es). \<lambda>fs.
      case probe_loop c turns \<lparr>pr_rows = [], pr_peaks = [], pr_lines = [], pr_zones = es\<rparr> fs of (r, s, fs) \<Rightarrow> (Inr (r, s), fs))))))"

text \<open>\<open>main\<close>: the exit status.\<close>

definition probe_main :: "probe_mode \<Rightarrow> probe_cfg \<Rightarrow> msr_device \<Rightarrow> globber \<Rightarrow> rat list \<Rightarrow> probe_turn list \<Rightarrow> files \<Rightarrow> int res \<times> files" where
  "probe_main md c dev glob clocks turns fs =
    (if md = Registers then (res_bind (decode_msrs dev (pe_err (pc_env c))) (\<lambda>_. Inr 0), fs)
     else case probe_open (pc_env c) fs of
       (Inl e, fs) \<Rightarrow> (Inl e, fs)
     | (Inr (original, t), fs) \<Rightarrow>
         (case (if md = KeyTable then (Inr 0, fs)
                else if \<not> list_all (dhas t) REQUIRED then (Inr 2, fs)
                else case probe_measure (c\<lparr>pc_table := t\<rparr>) glob clocks turns fs of
                  (Inl e, fs) \<Rightarrow> (Inl e, fs)
                | (Inr (r, _), fs) \<Rightarrow> (res_bind r (\<lambda>_. Inr 0), fs)) of
            (r, fs) \<Rightarrow> (r, probe_restore (pc_env c) original fs)))"

end
