(* ===== verification/Phase3.thy ===== *)
theory Phase3
  imports Dashboard Ctl
begin

text \<open>
  \<open>tools/phase3_run.py\<close>: the supervised run of a load while the daemon governs. It watches the stream of
  statuses, stops the load when a guard trips, and ends a settling time after the load has. A turn is a status
  with its time since the start and the exit status of the load if it has ended; texts of values are \<open>pstr\<close>. The first
  status, the JSON texts and the summary are left out.
\<close>

record p3_args =
  pa_proc :: bool
  pa_seconds :: rat
  pa_settle :: rat
  pa_abort_input_w :: rat
  pa_abort_temp_c :: rat

record p3_turn =
  pt_t :: rat
  pt_status :: "pyval dict"
  pt_done :: "int option"

record p3_state =
  ps_rows :: "pyval dict list"
  ps_states :: "(rat \<times> string) list"
  ps_aborted :: "string option"
  ps_ended :: "rat option"
  ps_last_print :: rat
  ps_lines :: "string list"
  ps_terms :: nat

definition p3_init :: p3_state where
  "p3_init = \<lparr>ps_rows = [], ps_states = [], ps_aborted = None, ps_ended = None, ps_last_print = - 1, ps_lines = [], ps_terms = 0\<rparr>"

section \<open>One row\<close>

definition p3_row :: "rat \<Rightarrow> pyval dict \<Rightarrow> pyval dict res" where
  "p3_row t s =
    res_bind (sec s ''latest'') (\<lambda>lat. res_bind (sec s ''derived'') (\<lambda>der. res_bind (sec s ''governor'') (\<lambda>gov. res_bind (sec s ''cpu'') (\<lambda>cpu.
    res_bind (sec cpu ''temps'') (\<lambda>tmp. res_bind (sec s ''gpu'') (\<lambda>gpu. res_bind (sec gov ''counters'') (\<lambda>c.
    res_bind (res_bind (rows_of s ''fans'') (each (\<lambda>f. fld f ''rpm''))) (\<lambda>rpms. res_bind (sec s ''msr'') (\<lambda>msr. Inr
      [(''t'', PFloat (Fin (py_round 2 t))), (''input_w'', py_get lat ''pdtr_w''), (''input_1s'', py_get der ''input_mean_1s''), (''pkg_w'', py_get lat ''package_w''),
       (''gpu_w'', py_get gpu ''power_w''), (''pkg_c'', py_get tmp ''pkg_c''), (''pl1_w'', py_get gov ''pl1_w''), (''state'', py_get gov ''state''),
       (''cuts'', py_get c ''cuts''), (''emerg'', py_get c ''emergencies''), (''fb'', py_get c ''fallbacks''), (''recov'', py_get c ''recoveries''),
       (''fans'', PList rpms), (''power_limited'', py_get msr ''power_limited''), (''mhz'', py_get cpu ''mhz''), (''busy'', py_get cpu ''busy_pct''),
       (''v'', py_get lat ''v''), (''a'', py_get lat ''a'')])))))))))"

text \<open>\<open>f"{v or 0:n.df}"\<close> and the printed line.\<close>

definition or_num :: "nat \<Rightarrow> nat \<Rightarrow> pyval \<Rightarrow> string res" where
  "or_num n d v =
    (if \<not> truthy v then Inr (rjust n (fmt_fixed d 0))
     else case as_float v of
       Some x \<Rightarrow> Inr (rjust n (fmt_pf (\<lambda>r. fmt_fixed d (fl r)) x))
     | None \<Rightarrow> (case v of PStr _ \<Rightarrow> Inl (ValueError (''Unknown format code 'f' for object of type 'str'' @ [CHR 0x27])) | _ \<Rightarrow> Inl (TypeError ''unsupported format string'')))"

definition p3_line :: "(pyval \<Rightarrow> string) \<Rightarrow> rat \<Rightarrow> pyval dict \<Rightarrow> string res" where
  "p3_line pstr t row =
    (let R = py_get row; S = (\<lambda>k. Inr (pstr (R k))) in
     cat [Inr (rjust 6 (fmt_fixed 1 t)), Inr ''s  in '', or_num 5 1 (R ''input_w''), Inr '' W (1s '', or_num 5 1 (R ''input_1s''), Inr '')  pkg '', or_num 5 1 (R ''pkg_w''),
       Inr '' W  gpu '', or_num 4 1 (R ''gpu_w''), Inr ''  '', or_num 3 0 (R ''pkg_c''), Inr '' C  PL1 '', Inr (rjust 5 (pstr (R ''pl1_w''))), Inr ''  '',
       Inr (ljust 9 (pstr (R ''state''))), Inr ''  cuts '', S ''cuts'', Inr '' em '', S ''emerg'', Inr '' fb '', S ''fb'', Inr ''  fans '', S ''fans'', Inr ''  busy '', S ''busy'',
       Inr (if truthy (R ''power_limited'') then ''  PL!'' else [])])"

text \<open>The guard; \<open>or\<close> looks at the temperature only below the first limit. A value that is not set counts as 0.\<close>

definition or_zero_val :: "pyval \<Rightarrow> pyval" where
  "or_zero_val v = (if truthy v then v else PFloat (Fin 0))"

definition p3_tripped :: "p3_args \<Rightarrow> pyval dict \<Rightarrow> bool res" where
  "p3_tripped a row =
    res_bind (ge_val (or_zero_val (py_get row ''input_w'')) (PFloat (Fin (pa_abort_input_w a)))) (\<lambda>b.
      if b then Inr True else ge_val (or_zero_val (py_get row ''pkg_c'')) (PFloat (Fin (pa_abort_temp_c a))))"

definition abort_text :: "rat \<Rightarrow> pyval dict \<Rightarrow> string res" where
  "abort_text t row =
    res_bind (or_num 0 1 (py_get row ''input_w'')) (\<lambda>i. res_bind (or_num 0 0 (py_get row ''pkg_c'')) (\<lambda>c.
      Inr (''guard tripped at t='' @ fmt_fixed 1 t @ ''s: input '' @ i @ '' W, pkg '' @ c @ '' C'')))"

section \<open>One turn\<close>

definition note_state :: "(pyval \<Rightarrow> string) \<Rightarrow> rat \<Rightarrow> pyval dict \<Rightarrow> p3_state \<Rightarrow> p3_state" where
  "note_state pstr t row p =
    (if ps_states p = [] \<or> PStr (snd (last (ps_states p))) \<noteq> py_get row ''state'' then p\<lparr>ps_states := ps_states p @ [(py_round 1 t, pstr (py_get row ''state''))]\<rparr> else p)"

definition print_row :: "(pyval \<Rightarrow> string) \<Rightarrow> rat \<Rightarrow> pyval dict \<Rightarrow> p3_state \<Rightarrow> unit res \<times> p3_state" where
  "print_row pstr t row p =
    (if 1 \<le> fsub t (ps_last_print p) then
       (case p3_line pstr t row of
          Inl e \<Rightarrow> (Inl e, p\<lparr>ps_last_print := t\<rparr>)
        | Inr l \<Rightarrow> (Inr (), p\<lparr>ps_last_print := t, ps_lines := ps_lines p @ [l]\<rparr>))
     else (Inr (), p))"

text \<open>Has the guard tripped for the first time, the load is terminated if it still runs and the run settles.\<close>

definition p3_guard :: "p3_args \<Rightarrow> p3_turn \<Rightarrow> pyval dict \<Rightarrow> p3_state \<Rightarrow> unit res \<times> p3_state" where
  "p3_guard a tn row p =
    (if ps_aborted p \<noteq> None then (Inr (), p)
     else case p3_tripped a row of
       Inl e \<Rightarrow> (Inl e, p)
     | Inr False \<Rightarrow> (Inr (), p)
     | Inr True \<Rightarrow>
         (case abort_text (pt_t tn) row of
            Inl e \<Rightarrow> (Inl e, p)
          | Inr m \<Rightarrow>
              (Inr (), p\<lparr>ps_aborted := Some m, ps_lines := ps_lines p @ [''ABORT: '' @ m],
                 ps_terms := (if pa_proc a \<and> pt_done tn = None then ps_terms p + 1 else ps_terms p), ps_ended := Some (pt_t tn)\<rparr>)))"

definition p3_ending :: "p3_args \<Rightarrow> p3_turn \<Rightarrow> p3_state \<Rightarrow> p3_state" where
  "p3_ending a tn p =
    (if ps_ended p \<noteq> None then p
     else if pa_proc a \<and> pt_done tn \<noteq> None then
       p\<lparr>ps_ended := Some (pt_t tn),
         ps_lines := ps_lines p @ [''workload finished (rc='' @ str_int (the (pt_done tn)) @ '') at '' @ fmt_fixed 1 (pt_t tn) @ ''s; settling '' @ fmt_g (pa_settle a) @ ''s'']\<rparr>
     else if \<not> pa_proc a \<and> pa_seconds a \<le> pt_t tn then p\<lparr>ps_ended := Some (pt_t tn)\<rparr>
     else if pa_proc a \<and> fadd (pa_seconds a) 120 \<le> pt_t tn then
       p\<lparr>ps_ended := Some (pt_t tn), ps_lines := ps_lines p @ [''workload overran; terminating''], ps_terms := ps_terms p + 1\<rparr>
     else p)"

definition p3_settled :: "p3_args \<Rightarrow> p3_turn \<Rightarrow> p3_state \<Rightarrow> bool" where
  "p3_settled a tn p = (case ps_ended p of None \<Rightarrow> False | Some e \<Rightarrow> pa_settle a \<le> fsub (pt_t tn) e)"

definition p3_step :: "(pyval \<Rightarrow> string) \<Rightarrow> p3_args \<Rightarrow> p3_turn \<Rightarrow> p3_state \<Rightarrow> bool res \<times> p3_state" where
  "p3_step pstr a tn p =
    (if pt_status tn = [] then (Inr False, p)
     else case p3_row (pt_t tn) (pt_status tn) of
       Inl e \<Rightarrow> (Inl e, p)
     | Inr row \<Rightarrow>
         (case print_row pstr (pt_t tn) row (note_state pstr (pt_t tn) row (p\<lparr>ps_rows := ps_rows p @ [row]\<rparr>)) of
            (Inl e, p) \<Rightarrow> (Inl e, p)
          | (Inr _, p) \<Rightarrow>
              (case p3_guard a tn row p of
                 (Inl e, p) \<Rightarrow> (Inl e, p)
               | (Inr _, p) \<Rightarrow> (let p = p3_ending a tn p in (Inr (p3_settled a tn p), p)))))"

text \<open>The loop over the statuses: \<open>True\<close> when it has left it, \<open>False\<close> when the stream ended before.\<close>

fun p3_loop :: "(pyval \<Rightarrow> string) \<Rightarrow> p3_args \<Rightarrow> p3_turn list \<Rightarrow> p3_state \<Rightarrow> bool res \<times> p3_state" where
  "p3_loop pstr a [] p = (Inr False, p)"
| "p3_loop pstr a (tn # tns) p =
    (case p3_step pstr a tn p of
       (Inr False, p) \<Rightarrow> p3_loop pstr a tns p
     | r \<Rightarrow> r)"

definition p3_exit :: "p3_state \<Rightarrow> int" where
  "p3_exit p = (if ps_aborted p \<noteq> None then 3 else 0)"

end
