(* ===== verification/Tools_Props.thy ===== *)
theory Tools_Props
  imports Probe Phase3
begin

text \<open>
  Properties of the measurement scripts: their readers agree with the daemon's, no load goes on after a guard has
  tripped, the selector of the SMC is put back, and the supervised run ends.
\<close>

section \<open>The readers\<close>

lemma probe_decode_agrees: "probe_decode typ data = Inr v \<Longrightarrow> strip typ \<noteq> ''si64'' \<Longrightarrow> decode typ data = v"
  unfolding probe_decode_def decode_def Let_def
  by (simp only: insert_iff empty_iff simp_thms split: if_splits option.splits) simp_all

lemma decode_msrs_agrees:
  assumes "read_msr dev 0x606 = Some u" "read_msr dev 0x610 = Some v" "read_msr dev 0x1B1 = Some st"
  shows "\<exists>out. decode_msrs dev err = Inr out \<and>
    (let l = decode_pkg_limit v (decode_units u) in
       py_get out ''msr_0x610'' = PStr (ml_raw l) \<and> py_get out ''pl1_w'' = pnum (ml_pl1_w l) \<and> py_get out ''pl1_window_s'' = pnum (ml_pl1_window_s l) \<and>
       py_get out ''pl2_w'' = pnum (ml_pl2_w l) \<and> py_get out ''pl2_window_s'' = pnum (ml_pl2_window_s l) \<and> py_get out ''lock'' = PBool (ml_lock l)) \<and>
    py_get out ''pkg_power_limited'' = PBool (th_power_limited (decode_therm_status st))"
  using assms by (simp add: decode_msrs_def pb_msr_def Let_def py_get_def decode_pkg_limit_def decode_units_def decode_therm_status_def window_def pb_window_def)

lemma energy_watts_agrees:
  assumes "read_text fs (path_join (en_zone e) ''energy_uj'') None = Some t" "parse_int t = Some cur" "en_last e = Some (t0, e0)" "0 < fsub now t0" "e0 \<le> cur \<or> 0 < en_max e"
  shows "\<exists>w. energy_delta_w e0 cur (en_max e) (fsub now t0) = Some w \<and> energy_watts fs now e = Inr (pnum w, e\<lparr>en_last := Some (now, cur)\<rparr>)"
  using assms by (auto simp: energy_watts_def energy_delta_w_def int_res_def Let_def)

section \<open>The guard of the probe\<close>

lemma probe_step_row:
  assumes "probe_step c tn s fs = (r, s', fs')"
  shows "(\<exists>e. r = Inl e \<and> pr_rows s' = pr_rows s) \<or>
    (\<exists>row. pr_rows s' = pr_rows s @ [row] \<and> (\<forall>x. r = Inr x \<longrightarrow> tripped c row = Inr (x = Aborted) \<and> (x = Going \<and> \<not> pc_stress c \<longrightarrow> tn_t tn < pc_seconds c)))"
  using assms by (auto simp: probe_step_def Let_def not_le split: prod.splits sum.splits if_splits)

definition below_guards :: "probe_cfg \<Rightarrow> pyval dict list \<Rightarrow> bool" where
  "below_guards c rows = list_all (\<lambda>row. tripped c row = Inr False) rows"

lemma probe_loop_quiet:
  assumes "probe_loop c turns s fs = (r, s', fs')" "below_guards c (pr_rows s)"
  shows "below_guards c (butlast (pr_rows s')) \<and> (\<forall>x. r = Inr x \<longrightarrow> (if x = Aborted then pr_rows s' \<noteq> [] \<and> tripped c (last (pr_rows s')) = Inr True else below_guards c (pr_rows s')))"
  using assms
proof (induction turns arbitrary: s fs)
  case Nil
  then show ?case by (auto simp: below_guards_def list_all_iff dest: in_set_butlastD)
next
  case (Cons tn turns)
  obtain r1 s1 fs1 where st: "probe_step c tn s fs = (r1, s1, fs1)" by (metis surj_pair)
  note row = probe_step_row [OF st]
  show ?case
  proof (cases "r1 = Inr Going")
    case True
    then have "below_guards c (pr_rows s1)" using row Cons.prems(2) by (auto simp: below_guards_def)
    then show ?thesis using Cons.IH [of s1 fs1] Cons.prems(1) st True by simp
  next
    case False
    then have "r = r1 \<and> s' = s1" using Cons.prems(1) st by (auto split: sum.splits probe_end.splits)
    then show ?thesis using row Cons.prems(2) by (auto simp: below_guards_def list_all_iff dest: in_set_butlastD)
  qed
qed

text \<open>However the run ends, once the SMC was opened the last thing done is to write the selector that was found.\<close>

lemma probe_restored:
  assumes "probe_main md c dev glob clocks turns fs = (r, fs')" "md \<noteq> Registers" "probe_open (pc_env c) fs = (Inr (original, t), fs1)"
  shows "\<exists>fs2. fs' = probe_restore (pc_env c) original fs2"
  using assms by (auto simp: probe_main_def split: if_splits prod.splits sum.splits)

text \<open>
  The measurement script lets no load go on over its guards: whatever the sensors give, every row but the last
  is below both, and the run ends as aborted exactly when its last row has reached one of them.
\<close>

lemma probe_guarded:
  assumes "probe_loop c turns \<lparr>pr_rows = [], pr_peaks = pk, pr_lines = ls, pr_zones = es\<rparr> fs = (Inr x, s', fs')"
  shows "list_all (\<lambda>row. tripped c row = Inr False) (butlast (pr_rows s'))" "x = Aborted \<longleftrightarrow> pr_rows s' \<noteq> [] \<and> tripped c (last (pr_rows s')) = Inr True"
proof -
  have q: "below_guards c (pr_rows \<lparr>pr_rows = [], pr_peaks = pk, pr_lines = ls, pr_zones = es\<rparr>)" by (simp add: below_guards_def)
  note p = probe_loop_quiet [OF assms q]
  show "list_all (\<lambda>row. tripped c row = Inr False) (butlast (pr_rows s'))" using p by (simp add: below_guards_def)
  have "tripped c (last (pr_rows s')) = Inr False" if "x \<noteq> Aborted" "pr_rows s' \<noteq> []" using p that by (auto simp: below_guards_def list_all_iff)
  then show "x = Aborted \<longleftrightarrow> pr_rows s' \<noteq> [] \<and> tripped c (last (pr_rows s')) = Inr True" using p by (cases "x = Aborted") auto
qed

text \<open>But the table is read before: when that fails the selector stays where the scan left it.\<close>

lemma probe_open_fails: "probe_open (pc_env c) fs = (Inl e, fs1) \<Longrightarrow> md \<noteq> Registers \<Longrightarrow> probe_main md c dev glob clocks turns fs = (Inl e, fs1)"
  by (simp add: probe_main_def)

section \<open>The supervised run\<close>

lemma print_row_frame: "print_row pstr t row p = (r, p') \<Longrightarrow> ps_ended p' = ps_ended p \<and> ps_aborted p' = ps_aborted p \<and> ps_rows p' = ps_rows p"
  by (auto simp: print_row_def split: if_splits sum.splits)

lemma note_state_frame [simp]: "ps_ended (note_state pstr t row p) = ps_ended p" "ps_aborted (note_state pstr t row p) = ps_aborted p" "ps_rows (note_state pstr t row p) = ps_rows p"
  by (simp_all add: note_state_def)

lemma p3_ending_frame [simp]: "ps_aborted (p3_ending a tn p) = ps_aborted p" "ps_rows (p3_ending a tn p) = ps_rows p"
  by (simp_all add: p3_ending_def)

lemma p3_guard_cases:
  assumes "p3_guard a tn row p = (Inr u, q)"
  shows "(ps_aborted p \<noteq> None \<and> q = p) \<or> (ps_aborted p = None \<and> p3_tripped a row = Inr False \<and> q = p) \<or>
    (ps_aborted p = None \<and> p3_tripped a row = Inr True \<and> ps_aborted q \<noteq> None \<and> ps_ended q = Some (pt_t tn) \<and> ps_rows q = ps_rows p \<and>
     (pa_proc a \<and> pt_done tn = None \<longrightarrow> ps_terms q = ps_terms p + 1))"
  using assms by (auto simp: p3_guard_def split: if_splits sum.splits bool.splits)

lemma p3_ending_cases: "ps_ended (p3_ending a tn p) = (if ps_ended p = None then ps_ended (p3_ending a tn p) else ps_ended p) \<and>
    ps_ended (p3_ending a tn p) \<in> {ps_ended p, Some (pt_t tn)} \<and>
    (pa_seconds a \<le> pt_t tn \<and> fadd (pa_seconds a) 120 \<le> pt_t tn \<longrightarrow> ps_ended (p3_ending a tn p) \<noteq> None)"
  by (auto simp: p3_ending_def)

text \<open>A status that was handled: the end of the load moves only when the guard trips, which it does once.\<close>

lemma p3_step_facts:
  assumes "p3_step pstr a tn p = (Inr b, p')" "pt_status tn \<noteq> []"
  shows "ps_aborted p \<noteq> None \<Longrightarrow> ps_aborted p' = ps_aborted p"
    and "ps_ended p \<noteq> None \<Longrightarrow> ps_aborted p' = ps_aborted p \<Longrightarrow> ps_ended p' = ps_ended p"
    and "ps_ended p' \<in> {ps_ended p, Some (pt_t tn)}"
    and "b = p3_settled a tn p'"
    and "pa_seconds a \<le> pt_t tn \<Longrightarrow> fadd (pa_seconds a) 120 \<le> pt_t tn \<Longrightarrow> ps_ended p' \<noteq> None"
    and "\<exists>row. ps_rows p' = ps_rows p @ [row] \<and> (ps_aborted p = None \<longrightarrow> p3_tripped a row = Inr (ps_aborted p' \<noteq> None))"
proof -
  obtain row where row: "p3_row (pt_t tn) (pt_status tn) = Inr row" using assms by (cases "p3_row (pt_t tn) (pt_status tn)") (simp_all add: p3_step_def)
  obtain r1 p1 where p1: "print_row pstr (pt_t tn) row (note_state pstr (pt_t tn) row (p\<lparr>ps_rows := ps_rows p @ [row]\<rparr>)) = (r1, p1)" by (metis surj_pair)
  have "\<exists>u. r1 = Inr u" using assms row p1 by (cases r1) (simp_all add: p3_step_def)
  then obtain u where r1: "r1 = Inr u" ..
  obtain r2 p2 where p2: "p3_guard a tn row p1 = (r2, p2)" by (metis surj_pair)
  have "\<exists>u. r2 = Inr u" using assms row p1 p2 r1 by (cases r2) (simp_all add: p3_step_def)
  then obtain u2 where r2: "r2 = Inr u2" ..
  have p': "p' = p3_ending a tn p2" "b = p3_settled a tn p'" using assms row p1 p2 r1 r2 by (auto simp: p3_step_def Let_def)
  note f1 = print_row_frame [OF p1] and g = p3_guard_cases [OF p2 [unfolded r2]] and e = p3_ending_cases [of a tn p2]
  have f: "ps_ended p1 = ps_ended p" "ps_aborted p1 = ps_aborted p" "ps_rows p1 = ps_rows p @ [row]" using f1 by simp_all
  have ab: "ps_aborted p' = ps_aborted p2" "ps_rows p' = ps_rows p2" unfolding p' by simp_all
  show "ps_aborted p \<noteq> None \<Longrightarrow> ps_aborted p' = ps_aborted p" using g f ab by auto
  show "ps_ended p \<noteq> None \<Longrightarrow> ps_aborted p' = ps_aborted p \<Longrightarrow> ps_ended p' = ps_ended p"
  proof -
    assume n: "ps_ended p \<noteq> None" "ps_aborted p' = ps_aborted p"
    then have "p2 = p1" using g f ab by auto
    then show ?thesis using n(1) e f unfolding p' by (metis (full_types))
  qed
  show "ps_ended p' \<in> {ps_ended p, Some (pt_t tn)}" using g f e unfolding p' by (metis (no_types) insertCI insertE singletonD)
  show "b = p3_settled a tn p'" by (rule p')
  show "pa_seconds a \<le> pt_t tn \<Longrightarrow> fadd (pa_seconds a) 120 \<le> pt_t tn \<Longrightarrow> ps_ended p' \<noteq> None" using e unfolding p' by blast
  show "\<exists>row. ps_rows p' = ps_rows p @ [row] \<and> (ps_aborted p = None \<longrightarrow> p3_tripped a row = Inr (ps_aborted p' \<noteq> None))"
    using g f ab by (intro exI [of _ row]) auto
qed

lemma p3_step_empty: "pt_status tn = [] \<Longrightarrow> p3_step pstr a tn p = (Inr False, p)"
  by (simp add: p3_step_def)

lemma p3_loop_append: "p3_loop pstr a (xs @ ys) p = (case p3_loop pstr a xs p of (Inr False, p) \<Rightarrow> p3_loop pstr a ys p | r \<Rightarrow> r)"
  by (induction xs arbitrary: p) (simp_all split: prod.split sum.split bool.split)

text \<open>The run ends with status 3 exactly when a row has reached a guard.\<close>

definition p3_inv :: "p3_args \<Rightarrow> p3_state \<Rightarrow> bool" where
  "p3_inv a p = (ps_aborted p \<noteq> None \<longleftrightarrow> (\<exists>row \<in> set (ps_rows p). p3_tripped a row = Inr True))"

lemma p3_step_inv: "p3_step pstr a tn p = (Inr b, p') \<Longrightarrow> p3_inv a p \<Longrightarrow> p3_inv a p'"
proof (cases "pt_status tn = []")
  case False
  assume st: "p3_step pstr a tn p = (Inr b, p')" and inv: "p3_inv a p"
  note f = p3_step_facts [OF st False]
  obtain row where row: "ps_rows p' = ps_rows p @ [row]" "ps_aborted p = None \<longrightarrow> p3_tripped a row = Inr (ps_aborted p' \<noteq> None)" using f(6) by (elim exE conjE) (rule that)
  show ?thesis using inv f(1) row by (cases "ps_aborted p") (auto simp: p3_inv_def)
qed (simp add: p3_step_empty)

lemma p3_loop_inv: "p3_loop pstr a turns p = (Inr b, p') \<Longrightarrow> p3_inv a p \<Longrightarrow> p3_inv a p'"
proof (induction turns arbitrary: p)
  case (Cons tn turns)
  obtain r q where st: "p3_step pstr a tn p = (r, q)" by (metis surj_pair)
  then show ?case using Cons.IH [of q] Cons.prems p3_step_inv [of pstr a tn p _ q] by (cases r) (auto split: bool.splits)
qed simp

text \<open>What a part of the run does to the end of the load.\<close>

lemma p3_loop_ended:
  assumes "p3_loop pstr a turns p = (Inr False, p')" "\<forall>tn \<in> set turns. pt_t tn \<le> T" "\<forall>e. ps_ended p = Some e \<longrightarrow> e \<le> T"
  shows "(\<forall>e. ps_ended p' = Some e \<longrightarrow> e \<le> T) \<and> (ps_ended p \<noteq> None \<longrightarrow> ps_ended p' \<noteq> None \<and> (ps_aborted p' = ps_aborted p \<longrightarrow> ps_ended p' = ps_ended p)) \<and>
    (ps_aborted p \<noteq> None \<longrightarrow> ps_aborted p' = ps_aborted p)"
  using assms
proof (induction turns arbitrary: p)
  case (Cons tn turns)
  obtain r q where st: "p3_step pstr a tn p = (r, q)" by (metis surj_pair)
  then have r: "r = Inr False" "p3_loop pstr a turns q = (Inr False, p')" using Cons.prems(1) by (auto split: sum.splits bool.splits)
  show ?case
  proof (cases "pt_status tn = []")
    case True
    then have "q = p" using st by (simp add: p3_step_empty)
    then show ?thesis using Cons.IH [OF r(2)] Cons.prems(2,3) by simp
  next
    case False
    note f = p3_step_facts [OF st [unfolded r(1)] False]
    have t: "\<forall>tn \<in> set turns. pt_t tn \<le> T" "\<forall>e. ps_ended q = Some e \<longrightarrow> e \<le> T" using f(3) Cons.prems(2,3) by auto
    note ih = Cons.IH [OF r(2) t]
    have "ps_ended p \<noteq> None \<Longrightarrow> ps_ended q \<noteq> None" using f(3) by auto
    then show ?thesis using ih f(1,2) by (metis not_None_eq)
  qed
qed simp

lemma settled_after: "ps_ended p = Some e \<Longrightarrow> e \<le> t0 \<Longrightarrow> pa_settle a \<le> fsub (pt_t tn) t0 \<Longrightarrow> p3_settled a tn p"
proof -
  assume p: "ps_ended p = Some e" "e \<le> t0" "pa_settle a \<le> fsub (pt_t tn) t0"
  have "fsub (pt_t tn) t0 \<le> fsub (pt_t tn) e" using p(2) by (intro fl_mono) simp
  then show ?thesis using p by (simp add: p3_settled_def)
qed

text \<open>
  The supervised run ends. However the statuses look, once the time of the load with its reserve of 120 s has
  passed and then twice the settling time, the loop has been left, if no status was malformed; the guard can
  put the end off only once. The exit status is 3 exactly when a row has reached a guard.
\<close>

theorem supervised_run_ends:
  assumes "p3_loop pstr a (xs @ t1 # ys @ t2 # zs @ [t3]) p3_init = (Inr b, p')"
    "\<forall>tn \<in> set (xs @ [t1]). pt_t tn \<le> pt_t t1" "\<forall>tn \<in> set (ys @ [t2]). pt_t tn \<le> pt_t t2" "pt_t t1 \<le> pt_t t2"
    "pt_status t1 \<noteq> []" "pt_status t2 \<noteq> []" "pt_status t3 \<noteq> []"
    "pa_seconds a \<le> pt_t t1" "fadd (pa_seconds a) 120 \<le> pt_t t1" "pa_settle a \<le> fsub (pt_t t2) (pt_t t1)" "pa_settle a \<le> fsub (pt_t t3) (pt_t t2)"
  shows "b \<and> (p3_exit p' = 3 \<longleftrightarrow> (\<exists>row \<in> set (ps_rows p'). p3_tripped a row = Inr True))"
proof -
  have "p3_inv a p3_init" by (simp add: p3_inv_def p3_init_def)
  then have inv: "p3_inv a p'" using p3_loop_inv assms(1) by blast
  have "b"
  proof (rule ccontr)
    assume nb: "\<not> b"
    define L where "L = (xs @ [t1]) @ (ys @ [t2]) @ zs @ [t3]"
    have l: "p3_loop pstr a L p3_init = (Inr False, p')" using assms(1) nb by (simp add: L_def)
    have part: "p3_loop pstr a (us @ vs) p = (Inr False, q) \<Longrightarrow> \<exists>m. p3_loop pstr a us p = (Inr False, m) \<and> p3_loop pstr a vs m = (Inr False, q)" for us vs p q
      by (cases "p3_loop pstr a us p") (auto simp: p3_loop_append split: sum.splits bool.splits)
    obtain p1 where p1: "p3_loop pstr a (xs @ [t1]) p3_init = (Inr False, p1)" "p3_loop pstr a ((ys @ [t2]) @ zs @ [t3]) p1 = (Inr False, p')" using part l unfolding L_def by blast
    obtain p2 where p2: "p3_loop pstr a (ys @ [t2]) p1 = (Inr False, p2)" "p3_loop pstr a (zs @ [t3]) p2 = (Inr False, p')" using part p1(2) by blast
    have last: "\<exists>m. p3_step pstr a t m = (Inr False, q)" if "p3_loop pstr a (us @ [t]) p = (Inr False, q)" for us t p q
    proof -
      note pr = part [OF that]
      then obtain m where m: "p3_loop pstr a [t] m = (Inr False, q)" by blast
      then show ?thesis by (cases "p3_step pstr a t m") (auto split: sum.splits bool.splits)
    qed
    obtain m1 where m1: "p3_step pstr a t1 m1 = (Inr False, p1)" using last [OF p1(1)] by blast
    obtain m2 where m2: "p3_step pstr a t2 m2 = (Inr False, p2)" using last [OF p2(1)] by blast
    obtain m3 where m3: "p3_step pstr a t3 m3 = (Inr False, p')" using last [OF p2(2)] by blast
    have "ps_ended p1 \<noteq> None" by (rule p3_step_facts(5) [OF m1 assms(5,8,9)])
    then obtain e1 where e1: "ps_ended p1 = Some e1" by blast
    have i: "\<forall>e. ps_ended p3_init = Some e \<longrightarrow> e \<le> pt_t t1" by (simp add: p3_init_def)
    have e1t: "e1 \<le> pt_t t1" using p3_loop_ended [OF p1(1) assms(2) i] e1 by blast
    have j: "\<forall>e. ps_ended p1 = Some e \<longrightarrow> e \<le> pt_t t2" using e1 e1t assms(4) by simp
    note k = p3_loop_ended [OF p2(1) assms(3) j]
    have ns2: "\<not> p3_settled a t2 p2" using p3_step_facts(4) [OF m2 assms(6)] by simp
    obtain e2 where e2: "ps_ended p2 = Some e2" "e2 \<le> pt_t t2" using k e1 by auto
    have "ps_aborted p2 \<noteq> ps_aborted p1"
    proof
      assume "ps_aborted p2 = ps_aborted p1"
      then have "ps_ended p2 = Some e1" using k e1 by auto
      then show False using settled_after [OF _ e1t assms(10)] ns2 by blast
    qed
    then have ab: "ps_aborted p2 \<noteq> None" using k by (cases "ps_aborted p1") auto
    define T where "T = Max (insert (pt_t t2) (pt_t ` set (zs @ [t3])))"
    have m: "x \<le> T" if "x \<in> insert (pt_t t2) (pt_t ` set (zs @ [t3]))" for x unfolding T_def using that by (intro Max_ge) auto
    have T: "\<forall>tn \<in> set (zs @ [t3]). pt_t tn \<le> T" "\<forall>e. ps_ended p2 = Some e \<longrightarrow> e \<le> T"
      using m [of "pt_t t2"] e2 by (auto intro!: m)
    note z = p3_loop_ended [OF p2(2) T]
    have "ps_ended p' = Some e2" using z ab e2(1) by simp
    then show False using settled_after [OF _ e2(2) assms(11)] p3_step_facts(4) [OF m3 assms(7)] by blast
  qed
  then show ?thesis using inv by (auto simp: p3_exit_def p3_inv_def)
qed

text \<open>A run without a load whose guard trips at once: it settles and ends with status 3.\<close>

definition demo_p3 :: p3_args where
  "demo_p3 = \<lparr>pa_proc = False, pa_seconds = 30, pa_settle = 6, pa_abort_input_w = 72, pa_abort_temp_c = 97\<rparr>"

definition demo_turn :: "rat \<Rightarrow> p3_turn" where
  "demo_turn t = \<lparr>pt_t = t, pt_status = [(''latest'', PDict [(''pdtr_w'', PInt 90)])], pt_done = None\<rparr>"

theorem supervised_run_ends_witness:
  "fst (p3_loop (\<lambda>_. []) demo_p3 [demo_turn 150, demo_turn 156, demo_turn 162] p3_init) = Inr True \<and>
   p3_exit (snd (p3_loop (\<lambda>_. []) demo_p3 [demo_turn 150, demo_turn 156, demo_turn 162] p3_init)) = 3"
proof -
  let ?r = "p3_loop (\<lambda>_. []) demo_p3 ([] @ demo_turn 150 # [] @ demo_turn 156 # [] @ [demo_turn 162]) p3_init"
  have ok: "is_ok (fst ?r)" by code_simp
  then obtain b where b: "fst ?r = Inr b" by (cases "fst ?r") auto
  then have r: "?r = (Inr b, snd ?r)" by (metis prod.collapse)
  have row: "p3_exit (snd ?r) = 3" by code_simp
  have "b \<and> (p3_exit (snd ?r) = 3 \<longleftrightarrow> (\<exists>row \<in> set (ps_rows (snd ?r)). p3_tripped demo_p3 row = Inr True))"
    by (rule supervised_run_ends [OF r]) (simp_all add: demo_p3_def demo_turn_def)
  with b row show ?thesis by simp
qed

end
