(* ===== verification/Mock_Data.thy ===== *)
theory Mock_Data
  imports Mock Incidents
begin

text \<open>
  The canned records of \<open>tui/mock.py\<close>: two incidents made of random samples and the key list of the simulated SMC.
  The text of a time in UTC is the argument \<open>stamp\<close>.
\<close>

definition BOOT_ID :: string where "BOOT_ID = ''e9386991-ebcf-4f25-9a71-e74a6134c095''"

text \<open>\<open>calendar.timegm\<close>: the days since 1970 of the proleptic calendar, then the time of the day.\<close>

definition leap :: "int \<Rightarrow> bool" where
  "leap y = (y mod 4 = 0 \<and> (y mod 100 \<noteq> 0 \<or> y mod 400 = 0))"

definition days_before_year :: "int \<Rightarrow> int" where
  "days_before_year y = (let n = y - 1 in n * 365 + n div 4 - n div 100 + n div 400)"

definition days_before_month :: "int \<Rightarrow> nat \<Rightarrow> int" where
  "days_before_month y m = sum_list (take (m - 1) [31, if leap y then 29 else 28, 31, 30, 31, 30, 31, 31, 30, 31, 30, 31])"

definition utc :: "int \<Rightarrow> nat \<Rightarrow> int \<Rightarrow> int \<Rightarrow> int \<Rightarrow> int \<Rightarrow> rat" where
  "utc y m d h mi s = of_int ((days_before_year y + days_before_month y m + d - 1 - days_before_year 1970) * 86400 + h * 3600 + mi * 60 + s)"

section \<open>An incident\<close>

text \<open>A row: input, package, GPU, PL1, state, temperature.\<close>

type_synonym inc_sample = "rat \<times> rat \<times> rat \<times> rat \<times> string \<times> rat"

definition sample_doc :: "(rat \<Rightarrow> string) \<Rightarrow> pyval \<Rightarrow> rat \<Rightarrow> inc_sample \<Rightarrow> pyval" where
  "sample_doc stamp procs ts r =
    (case r of (inp, pkg, gpu, pl1, state, tc) \<Rightarrow> PDict
      [(''ts'', pnum ts), (''time'', PStr (stamp ts)), (''input_w'', pnum inp), (''input_max_w'', pnum (py_round 2 (fadd inp (fl (6/10))))),
       (''acpw_w'', pnum (fl (79496/1000))), (''pkg_w'', pnum pkg), (''gpu_w'', pnum gpu), (''pkg_c'', pnum tc), (''pl1_w'', pnum pl1),
       (''pl2_w'', pnum (if pl1 < 100 then pl1 else 125)), (''state'', PStr state), (''headroom_w'', pnum (py_round 2 (fsub (fl (79496/1000)) inp))),
       (''noncpu_w'', pnum (py_round 2 (fsub inp pkg))), (''smc_valid'', PBool True), (''cpu'', PDict [(''top'', procs)])])"

definition top_doc :: "(string \<times> rat) list \<Rightarrow> pyval" where
  "top_doc procs = PList (map (\<lambda>(j, n, v). PDict [(''pid'', PInt (4000 + int j)), (''name'', PStr n), (''cpu_pct'', pnum v)]) (List.enumerate 0 procs))"

definition incident_doc :: "(rat \<Rightarrow> string) \<Rightarrow> string \<Rightarrow> string \<Rightarrow> rat \<Rightarrow> inc_sample list \<Rightarrow> (string \<times> rat) list \<Rightarrow> string list \<Rightarrow> pyval dict" where
  "incident_doc stamp iid boot start rows procs journal =
    (let samples = map (\<lambda>(i, r). sample_doc stamp (top_doc procs) (fadd start (of_nat i)) r) (List.enumerate 0 rows) in
     [(''id'', PStr iid), (''detected_at'', PStr (takeWhile (\<lambda>c. c \<noteq> CHR ''-'') iid)), (''boot_id'', PStr boot), (''current_boot_id'', PStr BOOT_ID),
      (''reason'', PStr abrupt_reason), (''marker_present'', PBool False), (''last_sample_time'', case last samples of PDict d \<Rightarrow> py_get d ''time'' | _ \<Rightarrow> PNone),
      (''samples'', PList samples), (''journal_tail'', PList (map PStr journal))])"

section \<open>The two incidents\<close>

definition idle_row :: "'r rng \<Rightarrow> 'r \<Rightarrow> inc_sample \<times> 'r" where
  "idle_row g r =
    (case rg_gauss g 0 (1/2) r of (a, r) \<Rightarrow> case rg_gauss g 0 (fl (7/10)) r of (b, r) \<Rightarrow> case rg_gauss g 0 (fl (6/10)) r of (c, r) \<Rightarrow>
       ((py_round 2 (fadd 21 a), py_round 2 (fadd 6 \<bar>b\<bar>), fl (702/100), 35, ''STATIC'', of_int (round_even (fadd 60 c))), r))"

definition load_row :: "'r rng \<Rightarrow> nat \<Rightarrow> 'r \<Rightarrow> inc_sample \<times> 'r" where
  "load_row g i r =
    (case rg_gauss g 0 (fl (4/10)) r of (x, r) \<Rightarrow>
       ((py_round 2 (min (fl (783/10)) (fadd (fadd 66 (fmul (fl (21/100)) (of_nat i))) x)), py_round 2 (min 45 (fadd 41 (fmul (fl (7/100)) (of_nat i)))),
         fl (71/10), 100, ''OFF'', of_nat (min 99 (92 + i div 8))), r))"

fun draw_rows :: "('i \<Rightarrow> 'r \<Rightarrow> 'a \<times> 'r) \<Rightarrow> 'i list \<Rightarrow> 'r \<Rightarrow> 'a list \<times> 'r" where
  "draw_rows f [] r = ([], r)"
| "draw_rows f (i # is) r = (case f i r of (x, r) \<Rightarrow> case draw_rows f is r of (xs, r) \<Rightarrow> (x # xs, r))"

definition IDLE_JOURNAL :: "string list" where
  "IDLE_JOURNAL =
    [''Oct 05 09:12:01 old-mac systemd[1]: Starting sysstat-collect.service - system activity accounting tool...'',
     ''Oct 05 09:12:01 old-mac systemd[1]: sysstat-collect.service: Deactivated successfully.'',
     ''Oct 05 09:12:01 old-mac systemd[1]: Finished sysstat-collect.service - system activity accounting tool.'',
     ''Oct 05 09:12:30 old-mac hermes[2485]: heartbeat ok (queue 0)'',
     ''Oct 05 09:12:41 old-mac kernel: applesmc: send_byte(0x00, 0x0300) fail: 0x40'']"

definition LOAD_JOURNAL :: "string list" where
  "LOAD_JOURNAL =
    [''Sep 29 18:40:31 old-mac kernel: mce: CPU2: Package temperature above threshold, cpu clock throttled'',
     ''Sep 29 18:40:31 old-mac kernel: mce: CPU2: Core temperature/speed normal'',
     ''Sep 29 18:40:58 old-mac stress-pilot[91822]: step 7 input 77.9 W pkg 44.8 W'',
     ''Sep 29 18:41:09 old-mac stress-pilot[91822]: step 8 input 78.3 W pkg 45.0 W'']"

definition LOAD_TOP :: "(string \<times> rat) list" where
  "LOAD_TOP = [(''whisper-cli'', 788), (''stress-ng-vm'', 96), (''python3'', 6), (''dockerd'', 1)]"

definition make_incidents :: "(rat \<Rightarrow> string) \<Rightarrow> 'r rng \<Rightarrow> 'r \<Rightarrow> pyval dict list" where
  "make_incidents stamp g r =
    (case draw_rows (\<lambda>_. idle_row g) [0..<60] r of (idle_rows, r) \<Rightarrow> case draw_rows (load_row g) [0..<60] r of (loaded_rows, r) \<Rightarrow>
       [incident_doc stamp ''20261005T091447Z-7c1e2a90'' ''7c1e2a90-55d3-4b8e-9d0e-2f4c1a6b8e11'' (utc 2026 10 5 9 11 45) idle_rows IDLE_PROCS IDLE_JOURNAL,
        incident_doc stamp ''20260929T184212Z-41d0b7e3'' ''41d0b7e3-0c2a-4f61-8a55-93b2d7e0c4aa'' (utc 2026 9 29 18 40 10) loaded_rows LOAD_TOP LOAD_JOURNAL])"

section \<open>The key list\<close>

definition smc_key_rows :: "(string \<times> string \<times> int) list" where
  "smc_key_rows =
    [(''ACPW'', ''ui32'', 4), (''ID0R'', ''flt'', 4), (''PDTR'', ''flt'', 4), (''VD0R'', ''flt'', 4)]
    @ map (\<lambda>k. (k, ''flt'', 4)) EXTRA_SMC_KEYS @ map (\<lambda>(l, _). (l, ''sp78'', 2)) SMC_TEMPS
    @ concat (map (\<lambda>i. map (\<lambda>s. (''F'' @ i @ s, ''fpe2'', 2)) [''Ac'', ''Mn'', ''Mx'', ''Tg'']) [''0'', ''1''])"

text \<open>The names are distinct, so sorting the triples sorts the names.\<close>

definition make_smc_keys :: "pyval dict list" where
  "make_smc_keys =
    map (\<lambda>(i, n, t, l). [(''name'', PStr n), (''index'', PInt (int i * 7 + 3)), (''type'', PStr t), (''len'', PInt l)]) (List.enumerate 0 (sort_key fst smc_key_rows))"

section \<open>Properties\<close>

lemma utc_examples: "utc 1970 1 1 0 0 0 = 0" "utc 2026 10 5 9 11 45 = 1791191505" "utc 2024 3 1 0 0 0 = 1709251200"
  by code_simp+

lemma draw_rows_length: "length (fst (draw_rows f is r)) = length is"
  by (induction "is" arbitrary: r) (simp_all add: case_prod_beta)

lemma smc_names_distinct: "distinct (map fst smc_key_rows)"
  by code_simp

text \<open>
  The canned incidents look like recorded ones: their ids are acceptable, each has a minute of samples, and the
  time of the last one is the incident's.
\<close>

lemma last_sample:
  assumes "rows \<noteq> []"
  shows "py_get (incident_doc stamp iid boot start rows procs journal) ''last_sample_time'' = PStr (stamp (fadd start (of_nat (length rows - 1))))"
proof -
  obtain us x where rows: "rows = us @ [x]" using assms by (cases rows rule: rev_cases) auto
  have "last (map (\<lambda>(i, r). sample_doc stamp (top_doc procs) (fadd start (of_nat i)) r) (List.enumerate 0 rows)) = sample_doc stamp (top_doc procs) (fadd start (of_nat (length us))) x"
    by (simp add: rows enumerate_append_eq)
  then show ?thesis by (cases x) (simp add: rows incident_doc_def py_get_def sample_doc_def)
qed

lemma incidents_wellformed:
  assumes "inc \<in> set (make_incidents stamp g r)"
  shows "\<exists>i. py_get inc ''id'' = PStr i \<and> id_ok i" "\<exists>l. py_get inc ''samples'' = PList l \<and> length l = 60"
proof -
  obtain idle_rows r' where idle_rows: "draw_rows (\<lambda>_. idle_row g) [0..<60] r = (idle_rows, r')" by (metis surj_pair)
  obtain loaded_rows r'' where loaded_rows: "draw_rows (load_row g) [0..<60] r' = (loaded_rows, r'')" by (metis surj_pair)
  have len: "length idle_rows = 60" "length loaded_rows = 60" using draw_rows_length [of "\<lambda>_. idle_row g" "[0..<60]" r] draw_rows_length [of "load_row g" "[0..<60]" r'] idle_rows loaded_rows by simp_all
  have ids: "id_ok ''20261005T091447Z-7c1e2a90''" "id_ok ''20260929T184212Z-41d0b7e3''" by code_simp+
  obtain iid boot start rows procs j where inc: "inc = incident_doc stamp iid boot start rows procs j" "length rows = 60" "id_ok iid"
    using assms idle_rows loaded_rows len ids by (auto simp: make_incidents_def)
  then show "\<exists>i. py_get inc ''id'' = PStr i \<and> id_ok i" "\<exists>l. py_get inc ''samples'' = PList l \<and> length l = 60"
    by (simp_all add: incident_doc_def py_get_def Let_def)
qed

end
