(* ===== verification/Spec2Isabelle.thy ===== *)
theory Spec2Isabelle
  imports Governor_Props Cap Replay Mock_Props Ctl_Props Ui_Props Dashboard_Props Screens_Props App
    Server Tools_Props Mock_Data
begin

text \<open>
  A verification library for TurboMac, the Python program under \<open>src/linux/turbomac/\<close>.

  \<^bold>\<open>The program.\<close> TurboMac keeps an Apple laptop that runs from a USB-PD adapter inside the power the adapter
  delivers. The daemon \<open>turbomacd\<close> (\<open>daemon/main.py\<close>) samples the machine four times a second
  (\<open>daemon/sampler.py\<close> over the SMC, RAPL, MSR, GPU and CPU readers), lets a pure state machine, the
  governor (\<open>daemon/governor.py\<close>), decide the package power limits PL1 and PL2, writes and verifies them
  (\<open>daemon/rapl.py\<close>), keeps a floor under the fan speeds (\<open>daemon/fans.py\<close>), logs samples and events
  (\<open>daemon/logger.py\<close>), tells at boot whether the last run ended abruptly (\<open>daemon/incidents.py\<close>), and serves
  status and configuration over a local socket (\<open>daemon/server.py\<close>, \<open>protocol.py\<close>). A boot-time command
  (\<open>cap.py\<close>) writes a static cap before the daemon starts; the terminal UI gets its data from a backend
  (\<open>tui/backend.py\<close>: the daemon, a replayed log, or a simulated machine).

  \<^bold>\<open>Theories.\<close> One theory per component, in the order in which they build on each other.
  \<^item> \<open>Prelude\<close>: dictionaries as association lists, strings, errors (\<open>py_exn\<close>, \<open>'a res\<close> with \<open>res_bind\<close>), runs of
    a step function and the locale \<open>step_machine\<close> of their invariants.
  \<^item> \<open>Py_Float\<close>: binary64 without subnormals and overflow as rationals with the rounding \<open>fl\<close> to 53 bits;
    \<open>fadd\<close>, \<open>fsub\<close>, \<open>fmul\<close>, \<open>fdiv\<close> round each operation, \<open>py_round\<close> is \<open>round\<close>.
  \<^item> \<open>Py_Value\<close>: floats with infinities and NaN, JSON values \<open>pyval\<close>, the format \<open>:g\<close>. \<open>Py_Text\<close>: text helpers.
  \<^item> \<open>Config\<close> (\<open>config.py\<close>): the defaults, the specification table, validation of one key, cross rules and
    their loop, updates, loading and the atomic save. The invariant of a configuration is \<open>cfg_wf\<close>.
  \<^item> \<open>Governor\<close>, \<open>Governor_Props\<close> (\<open>daemon/governor.py\<close>): \<open>gov_state\<close> is \<open>GovState\<close>, \<open>gov_step\<close> the function
    \<open>step\<close> with its handlers in the code's order; limits, emergency, backoff, and the abstract machine it refines.
  \<^item> \<open>Sysfs\<close> (\<open>daemon/sysfs.py\<close>, \<open>daemon/paths.py\<close>): the file system as a map, writes through a driver
    parameter that may fail or store something else. \<open>Msr\<close> (\<open>daemon/msr.py\<close>): registers as 64-bit words.
  \<^item> \<open>Rapl\<close> (\<open>daemon/rapl.py\<close>), \<open>Fans\<close> (\<open>daemon/fans.py\<close>), \<open>Smc\<close> (\<open>daemon/smc.py\<close>), \<open>Gpu\<close> (\<open>daemon/gpu.py\<close>),
    \<open>Cpu\<close> (\<open>daemon/cpu.py\<close>): the devices. A device that a controller drives through methods is a record of
    functions (\<open>fan_io\<close>, \<open>smc_io\<close>), its laws a locale, interpreted on the sysfs implementation of the code.
  \<^item> \<open>Logger\<close> (\<open>daemon/logger.py\<close>): the event ring, hourly files, compression, retention, and the bounded
    queue between the loop and the writer thread as the interleaving steps \<open>q_step\<close>.
  \<^item> \<open>Sampler\<close> (\<open>daemon/sampler.py\<close>): windows, both sampling rates, peaks, derived values, history.
  \<^item> \<open>Incidents\<close> (\<open>daemon/incidents.py\<close>), \<open>Control\<close> (\<open>protocol.py\<close> and the requests of \<open>daemon/server.py\<close>), \<open>Server\<close> (the
    rest of \<open>daemon/server.py\<close>): opening the socket as the list of states the system passes through (\<open>sock_world\<close>),
    subscriptions, and the count of connections.
  \<^item> \<open>Daemon\<close>, \<open>Daemon_Props\<close> (\<open>daemon/main.py\<close>): \<open>dstate\<close> is the \<open>Daemon\<close> object, \<open>denv\<close> what it takes from the
    machine; start, \<open>tick\<close>, \<open>loop_once\<close> and \<open>run_loop\<close>, the requests of \<open>dispatch\<close>, GPU threads, shutdown.
    \<open>d_event\<close> lists everything that may happen to a running daemon, \<open>d_step\<close> applies it, \<open>d_inv\<close> is its invariant.
  \<^item> \<open>Cap\<close> (\<open>cap.py\<close>): the commands of the boot-time cap.
  \<^item> \<open>Backend\<close> (\<open>tui/backend.py\<close>): the subscription thread, the live backend's requests, and the shared part of
    the simulated backends; the record \<open>replay\<close> of \<open>Replay\<close> (\<open>tui/replay.py\<close>) extends its record \<open>sim\<close> as the
    class extends \<open>SimBackend\<close>, and the locale \<open>sim_hooks\<close> is the contract of the methods it overrides.
  \<^item> \<open>Mock\<close>, \<open>Mock_Props\<close> (\<open>tui/mock.py\<close>): the simulated machine \<open>msim\<close> (\<open>_Sim\<close>) with its physics, and \<open>mock\<close>, the
    backend that runs the daemon's sampler, governor, clamp, fan controller and status on it. \<open>Mock_Data\<close>: its canned
    incidents and key list.
  \<^item> \<open>Py_Format\<close>: number formats, padding and reading of nested values; \<open>Fmt\<close> (\<open>tui/fmt.py\<close>): the formats of the
    terminal UI, a styled text being its pieces (\<open>rich\<close>).
  \<^item> \<open>Ctl\<close>, \<open>Ctl_Props\<close> (\<open>ctl.py\<close>): the command line client: \<open>ctl_cmd\<close> is what the argument parser gives, \<open>ctl_main\<close>
    what a command prints and its exit status or exception, \<open>render_status\<close> the text of the status.
  \<^item> \<open>Ui\<close>, \<open>Ui_Props\<close> (\<open>tui/app.py\<close>, \<open>tui/widgets.py\<close>): \<open>app\<close> is the application's data with its handlers
    (\<open>on_status\<close>, \<open>set_history\<close>, \<open>got_initial\<close>), \<open>header\<close> the header line, \<open>sparkline\<close> and \<open>spark_row\<close> the curves.
  \<^item> \<open>Dashboard\<close>, \<open>Dashboard_Props\<close> (\<open>tui/screens/dashboard.py\<close>): the text of every panel for a status and a width.
  \<^item> \<open>Settings\<close>, \<open>Settings_Props\<close> (\<open>tui/screens/settings.py\<close>): the record \<open>settings\<close> is the screen's data with what its
    editors hold; a handler gives the new data and the requests (\<open>sv_req\<close>) it makes. \<open>sv_event\<close> lists what may happen.
  \<^item> \<open>Screens\<close>, \<open>Screens_Props\<close> (\<open>tui/screens/gpu.py\<close>, \<open>log.py\<close>, \<open>incidents.py\<close>): \<open>gpu_view\<close>, \<open>log_view\<close> and \<open>inc_view\<close> with
    their handlers; \<open>gpu_world\<close> adds the dialog and the requests on their way.
  \<^item> \<open>App\<close> (\<open>tui/app.py\<close>, the dialogs of \<open>tui/widgets.py\<close>): which screen a status, a timer or a key reaches.
  \<^item> \<open>Probe\<close>, \<open>Phase3\<close>, \<open>Tools_Props\<close> (\<open>src/linux/tools/\<close>): the measurement scripts; a reader of \<open>probe.py\<close> is a function on
    the files (\<open>io\<close>), \<open>p3_step\<close> handles one status of \<open>phase3_run.py\<close>.

  \<^bold>\<open>What the lemmas show.\<close>
  \<^item> Configuration: validation accepts only values that keep every range and cross rule, whatever the
    updates; loading is total up to one exception (an infinity for an integer key); saving is atomic.
  \<^item> Governor: every limit it commands stays under 45 W and the firmware limits over any run; an emergency
    acts within the step; recovery is guarded; its states follow the abstract machine.
  \<^item> Devices: verified writes mean what they report, energy counters wrap right, the fan controller's view
    agrees with the device under any failure, SMC reads are of the key asked for, a failed GPU off ends in
    low, telemetry does not wake a GPU that is off.
  \<^item> Log and incidents: no sample is lost by compression, the queue is bounded and accounts for every
    record, client ids stay inside the incident directory.
  \<^item> Daemon: the invariant and the 45 W bound hold from the start over every sequence of ticks, requests,
    GPU threads and signals; the loop survives whatever the parts raise; the watchdog is fed exactly by
    governor steps; a configuration reply tells what is in force; a clean stop is recognised at the next boot.
  \<^item> Around it: the exit status of the boot-time cap, framing and round trip of the control protocol,
    that the simulated backends answer like the daemon, and that the simulated machine keeps the daemon's
    bounds whatever its random numbers are.
  \<^item> Front ends: a configuration command that ends with status 0 has put every assigned value in force, the
    status command shows every status of the daemon; the terminal UI's header fits its line, bars and
    sparklines have their width and never hide the peak, the short series are the last minute of what was
    seen, and no number that arrives is above the peak shown for it.
  \<^item> Screens: no panel of the dashboard fails on a status of the daemon and its gauge shows the governor's
    bands; what a settings editor shows reads back as the configured value; the GPU is switched off only after
    its dialog, one change at a time; the log shows every event once while the events are distinct; a paused
    application keeps what its screens show.
  \<^item> Server and scripts: the control socket is never open to other users, not even between two system calls; the
    count of connections is right; the scripts' readers agree with the daemon's, no load goes on past a guard,
    and the supervised run ends within its time and two settling times.

  \<^bold>\<open>Parameters.\<close> What the machine does is an argument: the file system's driver, JSON reading and writing (with
  the round-trip hypotheses where a property needs them), clocks, process times, glob results, journalctl, the
  text of exceptions, the names \<open>mkstemp\<close> chooses, what the files are after the GPU's waiting time, and the error a
  system call meets. The one bounded loop is that of \<open>validate\<close> over the cross rules: its rounds are those of
  the source, one more than there are rules, and \<open>validate_rounds_enough\<close> shows that they are enough. The loop of the
  daemon runs over a list of iterations of any length.

  \<^bold>\<open>Granularity.\<close> Requests are handled between ticks; a GPU mode change on its thread takes effect at one
  moment; sensor readings are inputs of the tick that takes them; events are the records as they are emitted
  (the code's event ring keeps references, so that a later change of a reply's dictionary shows in it).

  \<^bold>\<open>Not modelled.\<close> The SHA-1 digest of a configuration (a parameter), directory permissions
  (\<open>ensure_group_dir\<close>), what the standard library does with sockets and threads, argument
  parsing (\<open>ctl.py\<close>, \<open>main\<close> functions) and the status 130 of an interrupted command, what \<open>cap.py show\<close> prints,
  signal handlers, layout, key bindings and message loop of the terminal UI (the third-party framework
  Textual), its help texts, the script that takes pictures of the screens, the waiting times of the mock backend, and
  the summaries that the measurement scripts under \<open>src/linux/tools/\<close> print at their end.
\<close>

end
